(* ===== verification/Prelude.thy ===== *)
theory Prelude
  imports Main "HOL-Library.AList" "HOL-Library.Multiset" "HOL-Library.Word"
begin

text \<open>
  Shared vocabulary of the development: the containers of the C++ standard library the
  program uses, and the lemmas about them that every component needs.

  \<^item> A \<open>std::vector\<close> is a list. The idiom "\<open>std::find\<close> fails, so \<open>push_back\<close>" is
    \<open>push_unique\<close>; "\<open>erase(remove(...))\<close>" is \<open>filter\<close>.
  \<^item> A \<open>std::unordered_map\<close> is an association list with distinct keys. Its order is the
    order in which the map is iterated: the standard leaves that order open, so a state is
    given with an arbitrary one, and every theorem holds for each of them. \<open>find\<close> is
    \<open>map_of\<close>, \<open>m[k] = v\<close> is \<open>AList.update\<close>, \<open>erase\<close> is \<open>AList.delete\<close> and a
    write through an iterator or reference is \<open>AList.map_entry\<close>.
  \<^item> The locale \<open>keyed_store\<close> states what the components rely on when they use such a map;
    it is interpreted on the operations above.
  \<^item> The locale \<open>transition_system\<close> is the interface of a component that moves by steps:
    what every step keeps holds after every finite sequence of steps.
\<close>

named_theorems model_simps
  "equations that evaluate the operations of the model"

subsection \<open>Vectors\<close>

definition push_unique :: "'a \<Rightarrow> 'a list \<Rightarrow> 'a list" where
  "push_unique x xs = (if x \<in> set xs then xs else xs @ [x])"

lemma set_push_unique [simp]: "set (push_unique x xs) = insert x (set xs)"
  by (auto simp: push_unique_def)

lemma push_unique_idem [simp]: "push_unique x (push_unique x xs) = push_unique x xs"
  by (simp add: push_unique_def)

lemma push_unique_present: "x \<in> set xs \<Longrightarrow> push_unique x xs = xs"
  by (simp add: push_unique_def)

lemma distinct_push_unique [simp]: "distinct (push_unique x xs) = distinct xs"
  by (auto simp: push_unique_def)

subsection \<open>Sums over the workers of a pool\<close>

text \<open>Changing one summand: what a pool-wide count does when one thread moves.\<close>

lemma sum_fun_upd:
  fixes f :: "'b \<Rightarrow> nat"
  assumes "finite A" "w \<in> A"
  shows "(\<Sum>x\<in>A. f ((g(w := p)) x)) + f (g w) = (\<Sum>x\<in>A. f (g x)) + f p"
proof -
  have *: "(\<Sum>x\<in>A - {w}. f ((g(w := p)) x)) = (\<Sum>x\<in>A - {w}. f (g x))"
    by (rule sum.cong) auto
  show ?thesis
    using assms by (simp add: sum.remove [of A w] *)
qed

subsection \<open>Maps with an iteration order\<close>

type_synonym ('k, 'v) umap = "('k \<times> 'v) list"

definition um_keys :: "('k, 'v) umap \<Rightarrow> 'k list" where
  "um_keys m = map fst m"

lemma um_keys_simps [simp]:
  "um_keys [] = []"
  "um_keys (p # m) = fst p # um_keys m"
  "um_keys (m @ m') = um_keys m @ um_keys m'"
  by (simp_all add: um_keys_def)

lemma length_um_keys [simp]: "length (um_keys m) = length m"
  by (simp add: um_keys_def)

text \<open>Membership in the keys is always read as "lookup succeeds".\<close>

lemma in_um_keys [simp]: "k \<in> set (um_keys m) \<longleftrightarrow> map_of m k \<noteq> None"
  by (force simp: um_keys_def map_of_eq_None_iff)

lemma finite_um_keys [simp]: "finite (set (um_keys m))"
  by simp

text \<open>\<open>operator[]\<close> on a map whose mapped type has the default value \<open>d\<close>.\<close>

definition um_get :: "'v \<Rightarrow> ('k, 'v) umap \<Rightarrow> 'k \<Rightarrow> 'v" where
  "um_get d m k = (case map_of m k of None \<Rightarrow> d | Some v \<Rightarrow> v)"

lemma um_get_update [simp]:
  "um_get d (AList.update k v m) k' = (if k = k' then v else um_get d m k')"
  by (simp add: um_get_def update_conv')

lemma um_get_Nil [simp]: "um_get d [] k = d"
  by (simp add: um_get_def)

lemma map_of_update [simp]: "map_of (AList.update k v m) = (map_of m)(k \<mapsto> v)"
  by (simp add: update_conv')

lemma map_of_delete [simp]: "map_of (AList.delete k m) = (map_of m)(k := None)"
  by (simp add: delete_conv')

lemma map_of_map_entry [simp]:
  "map_of (AList.map_entry k f m) k' =
     (if k' = k then map_option f (map_of m k') else map_of m k')"
  by (induction m) auto

lemma keys_map_entry [simp]: "um_keys (AList.map_entry k f m) = um_keys m"
  by (induction m) auto

lemma map_of_map_snd: "map_of (map (\<lambda>(k, v). (k, f v)) m) k = map_option f (map_of m k)"
  by (induction m) auto

lemma keys_map_snd [simp]: "um_keys (map (\<lambda>(k, v). (k, f k v)) m) = um_keys m"
  by (induction m) auto

lemma distinct_keys_update [simp]:
  "distinct (um_keys m) \<Longrightarrow> distinct (um_keys (AList.update k v m))"
  by (simp add: um_keys_def distinct_update)

lemma distinct_keys_delete [simp]:
  "distinct (um_keys m) \<Longrightarrow> distinct (um_keys (AList.delete k m))"
  by (simp add: um_keys_def delete_keys distinct_removeAll)

lemma distinct_map_of_iff:
  "distinct (um_keys m) \<Longrightarrow> (k, v) \<in> set m \<longleftrightarrow> map_of m k = Some v"
  by (simp add: um_keys_def)

lemma update_fresh: "map_of m k = None \<Longrightarrow> AList.update k v m = m @ [(k, v)]"
  by (induction m) (auto split: if_splits)

text \<open>The contract of a keyed store, and what follows from it alone.\<close>

locale keyed_store =
  fixes find :: "'m \<Rightarrow> 'k \<Rightarrow> 'v option"
    and put :: "'k \<Rightarrow> 'v \<Rightarrow> 'm \<Rightarrow> 'm"
    and erase :: "'k \<Rightarrow> 'm \<Rightarrow> 'm"
    and keys :: "'m \<Rightarrow> 'k list"
    and invar :: "'m \<Rightarrow> bool"
  assumes find_put: "find (put k v m) k' = (if k' = k then Some v else find m k')"
    and find_erase: "find (erase k m) k' = (if k' = k then None else find m k')"
    and keys_find: "k \<in> set (keys m) \<longleftrightarrow> find m k \<noteq> None"
    and keys_distinct: "invar m \<Longrightarrow> distinct (keys m)"
    and invar_put: "invar m \<Longrightarrow> invar (put k v m)"
    and invar_erase: "invar m \<Longrightarrow> invar (erase k m)"
begin

lemma count_put:
  assumes "invar m"
  shows "length (keys (put k v m)) =
    (if find m k = None then Suc (length (keys m)) else length (keys m))"
proof -
  have "set (keys (put k v m)) = insert k (set (keys m))"
    by (auto simp: keys_find find_put split: if_splits)
  moreover have "distinct (keys (put k v m))" "distinct (keys m)"
    using assms by (auto intro: keys_distinct invar_put)
  ultimately have "length (keys (put k v m)) = card (insert k (set (keys m)))"
    "length (keys m) = card (set (keys m))"
    using distinct_card by metis+
  then show ?thesis
    using keys_find [of k m] by (auto simp: card_insert_if)
qed

lemma count_erase:
  assumes "invar m"
  shows "length (keys (erase k m)) =
    (if find m k = None then length (keys m) else length (keys m) - 1)"
proof -
  have "set (keys (erase k m)) = set (keys m) - {k}"
    by (auto simp: keys_find find_erase split: if_splits)
  moreover have "distinct (keys (erase k m))" "distinct (keys m)"
    using assms by (auto intro: keys_distinct invar_erase)
  ultimately have "length (keys (erase k m)) = card (set (keys m) - {k})"
    "length (keys m) = card (set (keys m))"
    using distinct_card by metis+
  then show ?thesis
    using keys_find [of k m] by auto
qed

lemma find_put_same: "find (put k v m) k = Some v"
  by (simp add: find_put)

lemma find_erase_same: "find (erase k m) k = None"
  by (simp add: find_erase)

end

interpretation um: keyed_store map_of AList.update AList.delete um_keys "\<lambda>m. distinct (um_keys m)"
  by unfold_locales auto

subsection \<open>Components that move by steps\<close>

text \<open>
  \<open>init s\<close>: \<open>s\<close> is a start state; \<open>step a s\<close>: the state after action \<open>a\<close>, or
  \<open>None\<close> when \<open>a\<close> is not enabled in \<open>s\<close> (a blocked thread, say). A run is a list of
  actions, so an interleaving is one explicit sequence.
\<close>

fun run_steps :: "('a \<Rightarrow> 's \<Rightarrow> 's option) \<Rightarrow> 'a list \<Rightarrow> 's \<Rightarrow> 's option" where
  "run_steps step [] s = Some s"
| "run_steps step (a # as) s =
     (case step a s of None \<Rightarrow> None | Some s' \<Rightarrow> run_steps step as s')"

lemma run_steps_append:
  "run_steps step (as @ bs) s =
     (case run_steps step as s of None \<Rightarrow> None | Some s' \<Rightarrow> run_steps step bs s')"
  by (induction as arbitrary: s) (auto split: option.splits)

locale transition_system =
  fixes init :: "'s \<Rightarrow> bool"
    and step :: "'a \<Rightarrow> 's \<Rightarrow> 's option"
    and inv :: "'s \<Rightarrow> bool"
  assumes inv_init: "init s \<Longrightarrow> inv s"
    and inv_step: "inv s \<Longrightarrow> step a s = Some s' \<Longrightarrow> inv s'"
begin

lemma inv_run: "inv s \<Longrightarrow> run_steps step as s = Some s' \<Longrightarrow> inv s'"
proof (induction as arbitrary: s)
  case Nil
  then show ?case by simp
next
  case (Cons a as)
  then show ?case by (auto split: option.splits dest: inv_step)
qed

lemma inv_reachable: "init s \<Longrightarrow> run_steps step as s = Some s' \<Longrightarrow> inv s'"
  using inv_init inv_run by blast

text \<open>
  A measure that pays for the cost of every allowed action bounds the cost of every run.
\<close>

lemma run_cost:
  fixes \<mu> :: "'s \<Rightarrow> nat" and cost :: "'a \<Rightarrow> nat"
  assumes dec: "\<And>s a s'. inv s \<Longrightarrow> ok a \<Longrightarrow> step a s = Some s' \<Longrightarrow> cost a + \<mu> s' \<le> \<mu> s"
  shows "inv s \<Longrightarrow> list_all ok as \<Longrightarrow> run_steps step as s = Some s' \<Longrightarrow>
    sum_list (map cost as) + \<mu> s' \<le> \<mu> s"
proof (induction as arbitrary: s)
  case Nil
  then show ?case by simp
next
  case (Cons a as)
  then obtain t where t: "step a s = Some t" "run_steps step as t = Some s'"
    by (auto split: option.splits)
  with Cons.IH [of t] Cons.prems have "sum_list (map cost as) + \<mu> s' \<le> \<mu> t"
    using inv_step by (auto simp: list_all_iff)
  with dec [OF Cons.prems(1) _ t(1)] Cons.prems(2) show ?case by simp
qed

end

end
