(* ===== verification/TaskGraph.thy ===== *)
theory TaskGraph
  imports Prelude
begin

text \<open>
  The task graph of \<open>src/src/taskgraph/TaskGraph.h\<close> and the node management of
  \<open>src/src/taskgraph/taskgraph.cpp\<close>: nodes, the graph, \<open>addNode\<close>, \<open>removeNode\<close>,
  \<open>addDependency\<close>, the queries and \<open>reset\<close>. A node stores both directions of every
  edge (\<open>dependencies\<close> and \<open>dependents\<close>); \<open>tg_consistent\<close> says that the two
  directions agree between the nodes of the graph, and every operation keeps it.

  Each method runs under the graph's mutex, so it is one function of the graph.
\<close>

subsection \<open>Data\<close>

datatype AgentType = Planner | Researcher | Coder | Tester | Reviewer | SecurityAuditor
  | DocumentationWriter | Refactorer | Debugger | Generic

datatype TaskNodeState = Pending | Ready | Running | Completed | Failed | Skipped | RolledBack

record TaskNode =
  tn_id :: string
  tn_title :: string
  tn_description :: string
  assigned_agent_type :: AgentType
  tool_action :: string
  dependencies :: "string list"
  dependents :: "string list"
  input_params :: "(string, string) umap"
  output_data :: string
  tn_error_message :: string
  tn_state :: TaskNodeState
  checkpoint_id :: string
  tn_retry_count :: int
  tn_max_retries :: int
  execution_time :: int
  topological_level :: int

text \<open>A node as \<open>TaskNode node;\<close> leaves it: the default member initialisers.\<close>

definition default_TaskNode :: TaskNode where
  "default_TaskNode = \<lparr>tn_id = [], tn_title = [], tn_description = [],
     assigned_agent_type = Generic, tool_action = [], dependencies = [], dependents = [],
     input_params = [], output_data = [], tn_error_message = [], tn_state = Pending,
     checkpoint_id = [], tn_retry_count = 0, tn_max_retries = 2, execution_time = 0,
     topological_level = 0\<rparr>"

record TaskGraph =
  goal :: string
  nodes :: "(string, TaskNode) umap"

definition new_TaskGraph :: "string \<Rightarrow> TaskGraph" where
  "new_TaskGraph g = \<lparr>goal = g, nodes = []\<rparr>"

abbreviation node_ids_of :: "TaskGraph \<Rightarrow> string list" where
  "node_ids_of g \<equiv> um_keys (nodes g)"

subsection \<open>Node management\<close>

definition add_dependent :: "string \<Rightarrow> TaskNode \<Rightarrow> TaskNode" where
  "add_dependent s n = n\<lparr>dependents := push_unique s (dependents n)\<rparr>"

definition add_dependency :: "string \<Rightarrow> TaskNode \<Rightarrow> TaskNode" where
  "add_dependency d n = n\<lparr>dependencies := push_unique d (dependencies n)\<rparr>"

text \<open>Step 1 of \<open>addNode\<close>: register the new node with each prerequisite that exists.\<close>

fun register_dependent :: "string \<Rightarrow> string list \<Rightarrow> (string, TaskNode) umap \<Rightarrow> (string, TaskNode) umap" where
  "register_dependent i [] m = m"
| "register_dependent i (d # ds) m = register_dependent i ds (AList.map_entry d (add_dependent i) m)"

text \<open>
  Step 2: an existing node that already names the new one, in either direction, is
  recorded in the new node. The loop runs over the stored nodes and writes to the new
  node's entry only.
\<close>

definition link_existing_node :: "string \<Rightarrow> string \<Rightarrow> (string, TaskNode) umap \<Rightarrow> (string, TaskNode) umap" where
  "link_existing_node i k m =
     (if k = i then m
      else case map_of m k of None \<Rightarrow> m
      | Some e \<Rightarrow>
          (let m1 = (if i \<in> set (dependencies e) then AList.map_entry i (add_dependent k) m else m)
           in if i \<in> set (dependents e) then AList.map_entry i (add_dependency k) m1 else m1))"

fun link_existing :: "string \<Rightarrow> string list \<Rightarrow> (string, TaskNode) umap \<Rightarrow> (string, TaskNode) umap" where
  "link_existing i [] m = m"
| "link_existing i (k # ks) m = link_existing i ks (link_existing_node i k m)"

text \<open>Step 3: register the new node with each successor that exists.\<close>

fun register_dependency :: "string \<Rightarrow> string list \<Rightarrow> (string, TaskNode) umap \<Rightarrow> (string, TaskNode) umap" where
  "register_dependency i [] m = m"
| "register_dependency i (s # ss) m = register_dependency i ss (AList.map_entry s (add_dependency i) m)"

definition addNode :: "TaskNode \<Rightarrow> TaskGraph \<Rightarrow> bool \<times> TaskGraph" where
  "addNode n g =
     (if map_of (nodes g) (tn_id n) \<noteq> None then (False, g)
      else
        let i = tn_id n;
            m0 = AList.update i n (nodes g);
            m1 = register_dependent i (dependencies n) m0;
            m2 = link_existing i (um_keys m1) m1;
            m3 = register_dependency i (dependents n) m2
        in (True, g\<lparr>nodes := m3\<rparr>))"

definition forget_node :: "string \<Rightarrow> TaskNode \<Rightarrow> TaskNode" where
  "forget_node i n = n\<lparr>dependencies := filter (\<lambda>d. d \<noteq> i) (dependencies n),
     dependents := filter (\<lambda>d. d \<noteq> i) (dependents n)\<rparr>"

definition removeNode :: "string \<Rightarrow> TaskGraph \<Rightarrow> bool \<times> TaskGraph" where
  "removeNode i g =
     (case map_of (nodes g) i of None \<Rightarrow> (False, g)
      | Some _ \<Rightarrow>
          (True, g\<lparr>nodes := map (\<lambda>(k, n). (k, forget_node i n)) (AList.delete i (nodes g))\<rparr>))"

definition addDependency :: "string \<Rightarrow> string \<Rightarrow> TaskGraph \<Rightarrow> bool \<times> TaskGraph" where
  "addDependency from_id to_id g =
     (if from_id = to_id then (False, g)
      else if map_of (nodes g) from_id = None \<or> map_of (nodes g) to_id = None then (False, g)
      else (True, g\<lparr>nodes :=
              AList.map_entry to_id (add_dependency from_id)
                (AList.map_entry from_id (add_dependent to_id) (nodes g))\<rparr>))"

subsection \<open>Queries\<close>

definition getNode :: "string \<Rightarrow> TaskGraph \<Rightarrow> TaskNode option" where
  "getNode i g = map_of (nodes g) i"

definition getAllNodes :: "TaskGraph \<Rightarrow> TaskNode list" where
  "getAllNodes g = map snd (nodes g)"

definition tg_size :: "TaskGraph \<Rightarrow> nat" where
  "tg_size g = length (nodes g)"

definition tg_empty :: "TaskGraph \<Rightarrow> bool" where
  "tg_empty g = (nodes g = [])"

fun all_completed :: "(string, TaskNode) umap \<Rightarrow> string list \<Rightarrow> bool" where
  "all_completed m [] = True"
| "all_completed m (d # ds) =
     (case map_of m d of None \<Rightarrow> False
      | Some n \<Rightarrow> if tn_state n \<noteq> Completed then False else all_completed m ds)"

definition getReadyNodes :: "TaskGraph \<Rightarrow> string list" where
  "getReadyNodes g =
     map fst (filter (\<lambda>(k, n). tn_state n = Pending \<and> all_completed (nodes g) (dependencies n)) (nodes g))"

definition areDependenciesCompleted :: "string \<Rightarrow> TaskGraph \<Rightarrow> bool" where
  "areDependenciesCompleted i g =
     (case map_of (nodes g) i of None \<Rightarrow> False
      | Some n \<Rightarrow> all_completed (nodes g) (dependencies n))"

definition reset_node :: "TaskNode \<Rightarrow> TaskNode" where
  "reset_node n = n\<lparr>tn_state := Pending, output_data := [], tn_error_message := [],
     tn_retry_count := 0, execution_time := 0\<rparr>"

definition reset :: "TaskGraph \<Rightarrow> TaskGraph" where
  "reset g = g\<lparr>nodes := map (\<lambda>(k, n). (k, reset_node n)) (nodes g)\<rparr>"

subsection \<open>Invariant\<close>

text \<open>Keys are distinct and each entry is stored under its node's own id.\<close>

definition tg_wf :: "TaskGraph \<Rightarrow> bool" where
  "tg_wf g \<longleftrightarrow> distinct (node_ids_of g) \<and> (\<forall>(k, n) \<in> set (nodes g). tn_id n = k)"

definition names_dependency :: "(string, TaskNode) umap \<Rightarrow> string \<Rightarrow> string \<Rightarrow> bool" where
  "names_dependency m a b = (case map_of m b of None \<Rightarrow> False | Some n \<Rightarrow> a \<in> set (dependencies n))"

definition names_dependent :: "(string, TaskNode) umap \<Rightarrow> string \<Rightarrow> string \<Rightarrow> bool" where
  "names_dependent m a b = (case map_of m a of None \<Rightarrow> False | Some n \<Rightarrow> b \<in> set (dependents n))"

text \<open>The two directions of an edge agree whenever both ends are nodes of the graph.\<close>

definition tg_consistent :: "TaskGraph \<Rightarrow> bool" where
  "tg_consistent g \<longleftrightarrow> (\<forall>a \<in> set (node_ids_of g). \<forall>b \<in> set (node_ids_of g).
      names_dependency (nodes g) a b = names_dependent (nodes g) a b)"

definition tg_inv :: "TaskGraph \<Rightarrow> bool" where
  "tg_inv g \<longleftrightarrow> tg_wf g \<and> tg_consistent g"

text \<open>The edge relation a well-formed graph stands for: prerequisite to dependent.\<close>

definition tg_edges :: "TaskGraph \<Rightarrow> (string \<times> string) set" where
  "tg_edges g = {(a, b). a \<in> set (node_ids_of g) \<and> b \<in> set (node_ids_of g) \<and>
      (names_dependency (nodes g) a b \<or> names_dependent (nodes g) a b)}"

subsection \<open>The effect of each write on the edges\<close>

text \<open>
  All writes to the node table are seen through the two relations \<open>names_dependency\<close> and
  \<open>names_dependent\<close>; each phase of an operation changes them by one disjunct.
\<close>

named_theorems edge_simps "how a write to the node table changes the named edges"

lemma add_dependent_fields [simp]:
  "tn_id (add_dependent s n) = tn_id n"
  "dependencies (add_dependent s n) = dependencies n"
  "dependents (add_dependent s n) = push_unique s (dependents n)"
  by (simp_all add: add_dependent_def)

lemma add_dependency_fields [simp]:
  "tn_id (add_dependency s n) = tn_id n"
  "dependencies (add_dependency s n) = push_unique s (dependencies n)"
  "dependents (add_dependency s n) = dependents n"
  by (simp_all add: add_dependency_def)

lemma forget_node_fields [simp]:
  "tn_id (forget_node i n) = tn_id n"
  "dependencies (forget_node i n) = filter (\<lambda>d. d \<noteq> i) (dependencies n)"
  "dependents (forget_node i n) = filter (\<lambda>d. d \<noteq> i) (dependents n)"
  by (simp_all add: forget_node_def)

lemma names_map_entry_dependent [edge_simps]:
  "names_dependent (AList.map_entry k (add_dependent s) m) a b \<longleftrightarrow>
     names_dependent m a b \<or> (a = k \<and> b = s \<and> k \<in> set (um_keys m))"
  "names_dependency (AList.map_entry k (add_dependent s) m) a b = names_dependency m a b"
  by (auto simp: names_dependent_def names_dependency_def split: option.splits)

lemma names_map_entry_dependency [edge_simps]:
  "names_dependency (AList.map_entry k (add_dependency s) m) a b \<longleftrightarrow>
     names_dependency m a b \<or> (b = k \<and> a = s \<and> k \<in> set (um_keys m))"
  "names_dependent (AList.map_entry k (add_dependency s) m) a b = names_dependent m a b"
  by (auto simp: names_dependent_def names_dependency_def split: option.splits)

lemma names_update [edge_simps]:
  "names_dependency (AList.update i n m) a b = (if b = i then a \<in> set (dependencies n) else names_dependency m a b)"
  "names_dependent (AList.update i n m) a b = (if a = i then b \<in> set (dependents n) else names_dependent m a b)"
  by (auto simp: names_dependent_def names_dependency_def)

lemma keys_register_dependent [simp]: "um_keys (register_dependent i ds m) = um_keys m"
  by (induction i ds m rule: register_dependent.induct) auto

lemma keys_register_dependency [simp]: "um_keys (register_dependency i ds m) = um_keys m"
  by (induction i ds m rule: register_dependency.induct) auto

lemma keys_link_existing_node [simp]: "um_keys (link_existing_node i k m) = um_keys m"
  by (auto simp: link_existing_node_def Let_def split: option.splits)

lemma keys_link_existing [simp]: "um_keys (link_existing i ks m) = um_keys m"
  by (induction i ks m rule: link_existing.induct) auto

lemma names_register_dependent [edge_simps]:
  "names_dependent (register_dependent i ds m) a b \<longleftrightarrow>
     names_dependent m a b \<or> (b = i \<and> a \<in> set ds \<and> a \<in> set (um_keys m))"
  "names_dependency (register_dependent i ds m) a b = names_dependency m a b"
  by (induction i ds m rule: register_dependent.induct) (auto simp: edge_simps)

lemma names_register_dependency [edge_simps]:
  "names_dependency (register_dependency i ds m) a b \<longleftrightarrow>
     names_dependency m a b \<or> (a = i \<and> b \<in> set ds \<and> b \<in> set (um_keys m))"
  "names_dependent (register_dependency i ds m) a b = names_dependent m a b"
  by (induction i ds m rule: register_dependency.induct) (auto simp: edge_simps)

lemma names_link_existing_node [edge_simps]:
  assumes "i \<in> set (um_keys m)"
  shows "names_dependent (link_existing_node i k m) a b \<longleftrightarrow>
           names_dependent m a b \<or> (a = i \<and> b = k \<and> k \<noteq> i \<and> names_dependency m i k)"
    and "names_dependency (link_existing_node i k m) a b \<longleftrightarrow>
           names_dependency m a b \<or> (b = i \<and> a = k \<and> k \<noteq> i \<and> names_dependent m k i)"
  using assms
  by (auto simp: link_existing_node_def Let_def edge_simps names_dependency_def [of m i k]
      names_dependent_def [of m k i] split: option.splits)

lemma names_link_existing [edge_simps]:
  assumes "i \<in> set (um_keys m)"
  shows "names_dependent (link_existing i ks m) a b \<longleftrightarrow>
           names_dependent m a b \<or> (a = i \<and> b \<in> set ks \<and> b \<noteq> i \<and> names_dependency m i b)"
    and "names_dependency (link_existing i ks m) a b \<longleftrightarrow>
           names_dependency m a b \<or> (b = i \<and> a \<in> set ks \<and> a \<noteq> i \<and> names_dependent m a i)"
  using assms
  by (induction i ks m arbitrary: a b rule: link_existing.induct) (auto simp: edge_simps)

subsection \<open>Every operation keeps the invariant\<close>

lemma tg_wf_id: "tg_wf g \<Longrightarrow> map_of (nodes g) k = Some n \<Longrightarrow> tn_id n = k"
  by (auto simp: tg_wf_def dest: map_of_SomeD)

lemma ids_ok_map_of:
  assumes "distinct (um_keys m)"
  shows "(\<forall>(k, n) \<in> set m. tn_id n = k) \<longleftrightarrow> (\<forall>k n. map_of m k = Some n \<longrightarrow> tn_id n = k)"
  using assms by (auto simp: distinct_map_of_iff [symmetric])

definition ids_ok :: "(string, TaskNode) umap \<Rightarrow> bool" where
  "ids_ok m \<longleftrightarrow> (\<forall>k n. map_of m k = Some n \<longrightarrow> tn_id n = k)"

lemma tg_wf_alt: "tg_wf g \<longleftrightarrow> distinct (node_ids_of g) \<and> ids_ok (nodes g)"
  using ids_ok_map_of [of "nodes g"] by (auto simp: tg_wf_def ids_ok_def)

lemma ids_ok_map_entry [simp]:
  "ids_ok m \<Longrightarrow> (\<And>n. tn_id (f n) = tn_id n) \<Longrightarrow> ids_ok (AList.map_entry k f m)"
  by (auto simp: ids_ok_def)

lemma ids_ok_update [simp]: "ids_ok m \<Longrightarrow> ids_ok (AList.update (tn_id n) n m)"
  by (auto simp: ids_ok_def)

lemma ids_ok_register_dependent [simp]: "ids_ok m \<Longrightarrow> ids_ok (register_dependent i ds m)"
  by (induction i ds m rule: register_dependent.induct) simp_all

lemma ids_ok_register_dependency [simp]: "ids_ok m \<Longrightarrow> ids_ok (register_dependency i ds m)"
  by (induction i ds m rule: register_dependency.induct) simp_all

lemma ids_ok_link [simp]: "ids_ok m \<Longrightarrow> ids_ok (link_existing i ks m)"
  by (induction i ks m rule: link_existing.induct)
    (auto simp: link_existing_node_def Let_def split: option.splits)

lemma tg_inv_new: "tg_inv (new_TaskGraph g)"
  by (simp add: tg_inv_def tg_wf_def tg_consistent_def new_TaskGraph_def)

lemma addNode_keys:
  "map_of (nodes g) (tn_id n) = None \<Longrightarrow> node_ids_of (snd (addNode n g)) = node_ids_of g @ [tn_id n]"
  by (simp add: addNode_def Let_def update_fresh)

lemma addNode_names:
  assumes "map_of (nodes g) (tn_id n) = None"
  defines "i \<equiv> tn_id n" and "ks \<equiv> insert (tn_id n) (set (node_ids_of g))"
  shows "names_dependency (nodes (snd (addNode n g))) a b \<longleftrightarrow>
      (if b = i then a \<in> set (dependencies n) \<or> a \<in> ks \<and> a \<noteq> i \<and> names_dependent (nodes g) a i
          \<or> (a = i \<and> i \<in> set (dependents n))
       else names_dependency (nodes g) a b \<or> (a = i \<and> b \<in> set (dependents n) \<and> b \<in> ks))"
    and "names_dependent (nodes (snd (addNode n g))) a b \<longleftrightarrow>
      (if a = i then b \<in> set (dependents n) \<or> b \<in> ks \<and> b \<noteq> i \<and> names_dependency (nodes g) i b
          \<or> (b = i \<and> i \<in> set (dependencies n))
       else names_dependent (nodes g) a b \<or> (b = i \<and> a \<in> set (dependencies n) \<and> a \<in> ks))"
  using assms
  by (auto simp: addNode_def Let_def edge_simps)

lemma addNode_inv:
  assumes "tg_inv g"
  shows "tg_inv (snd (addNode n g))"
proof (cases "map_of (nodes g) (tn_id n)")
  case None
  have wf: "tg_wf g" and c: "tg_consistent g"
    using assms by (simp_all add: tg_inv_def)
  have "tg_wf (snd (addNode n g))"
    using wf None by (simp add: tg_wf_alt addNode_keys) (simp add: addNode_def Let_def)
  moreover have "tg_consistent (snd (addNode n g))"
    using c by (auto simp: tg_consistent_def addNode_keys [OF None] addNode_names [OF None])
  ultimately show ?thesis
    by (simp add: tg_inv_def)
next
  case (Some x)
  with assms show ?thesis by (simp add: addNode_def)
qed

lemma names_forget:
  "names_dependency (map (\<lambda>(k, n). (k, forget_node i n)) m) a b \<longleftrightarrow> a \<noteq> i \<and> names_dependency m a b"
  "names_dependent (map (\<lambda>(k, n). (k, forget_node i n)) m) a b \<longleftrightarrow> b \<noteq> i \<and> names_dependent m a b"
  by (auto simp: names_dependency_def names_dependent_def map_of_map_snd split: option.splits)

lemma names_delete:
  "names_dependency (AList.delete i m) a b \<longleftrightarrow> b \<noteq> i \<and> names_dependency m a b"
  "names_dependent (AList.delete i m) a b \<longleftrightarrow> a \<noteq> i \<and> names_dependent m a b"
  by (auto simp: names_dependency_def names_dependent_def split: option.splits)

lemma removeNode_inv:
  assumes "tg_inv g"
  shows "tg_inv (snd (removeNode i g))"
proof (cases "map_of (nodes g) i")
  case None
  with assms show ?thesis by (simp add: removeNode_def)
next
  case (Some x)
  with assms show ?thesis
    by (auto simp: removeNode_def tg_inv_def tg_wf_alt ids_ok_def tg_consistent_def map_of_map_snd
        names_forget names_delete split: if_splits)
qed

lemma addDependency_inv: "tg_inv g \<Longrightarrow> tg_inv (snd (addDependency a b g))"
  by (auto simp: addDependency_def tg_inv_def tg_wf_alt tg_consistent_def edge_simps)

lemma reset_names [simp]:
  "names_dependency (nodes (reset g)) = names_dependency (nodes g)"
  "names_dependent (nodes (reset g)) = names_dependent (nodes g)"
  by (auto simp: fun_eq_iff names_dependency_def names_dependent_def reset_def map_of_map_snd reset_node_def
      split: option.splits)

lemma reset_keys [simp]: "node_ids_of (reset g) = node_ids_of g"
  by (simp add: reset_def)

lemma reset_inv: "tg_inv g \<Longrightarrow> tg_inv (reset g)"
  by (auto simp: tg_inv_def tg_wf_alt ids_ok_def tg_consistent_def)
    (auto simp: reset_def reset_node_def map_of_map_snd)

end
