(* ===== verification/Graph_Search.thy ===== *)
theory Graph_Search
  imports Prelude
begin

text \<open>
  The two graph searches that \<open>src/src/taskgraph/taskgraph.cpp\<close> runs on an adjacency map:
  the three-colour depth-first search of \<open>hasCycle\<close> and the in-degree elimination of
  \<open>getTopologicalOrder\<close> and \<open>getExecutionLevels\<close>. They are stated on the adjacency map
  alone; \<open>Task_Order\<close> builds that map from a task graph.

  \<open>adj_ok\<close> is what the construction of the map guarantees. Under it the depth-first search
  answers True exactly when the edge relation has a cycle (\<open>dfs_all_iff\<close>), and the
  elimination stops with a topological sort of all vertices exactly when it has none.
\<close>

type_synonym adjacency = "(string, string list) umap"

abbreviation succs :: "adjacency \<Rightarrow> string \<Rightarrow> string list" where
  "succs adj u \<equiv> um_get [] adj u"

definition adj_edges :: "adjacency \<Rightarrow> (string \<times> string) set" where
  "adj_edges adj = {(u, v). v \<in> set (succs adj u)}"

definition adj_ok :: "adjacency \<Rightarrow> bool" where
  "adj_ok adj \<longleftrightarrow> distinct (um_keys adj) \<and>
     (\<forall>(u, vs) \<in> set adj. distinct vs \<and> set vs \<subseteq> set (um_keys adj))"

lemma adj_edges_iff [simp]: "(u, v) \<in> adj_edges adj \<longleftrightarrow> v \<in> set (succs adj u)"
  by (simp add: adj_edges_def)

lemma succs_key: "v \<in> set (succs adj u) \<Longrightarrow> map_of adj u \<noteq> None"
  by (cases "map_of adj u") (auto simp: um_get_def)

lemma adj_ok_succs:
  assumes "adj_ok adj"
  shows "distinct (succs adj u)" and "v \<in> set (succs adj u) \<Longrightarrow> map_of adj v \<noteq> None"
  using assms
  by (cases "map_of adj u"; fastforce simp: adj_ok_def um_get_def dest: map_of_SomeD)+

lemma finite_adj_edges: "finite (adj_edges adj)"
proof -
  have "adj_edges adj \<subseteq> (\<Union>u \<in> set (um_keys adj). {u} \<times> set (succs adj u))"
    by (auto dest: succs_key)
  then show ?thesis
    by (rule finite_subset) auto
qed

subsection \<open>Three-colour depth-first search\<close>

datatype Color = White | Gray | Black

text \<open>
  The lambda \<open>dfs\<close> of \<open>hasCycle\<close> with its loop over the successors unfolded: a white
  successor \<open>v\<close> is coloured gray, searched, and coloured black when its own loop has found
  nothing. The colour map answers white for a missing key, as \<open>operator[]\<close> does.
\<close>

function (sequential) dfs_loop :: "adjacency \<Rightarrow> string list \<Rightarrow> (string \<Rightarrow> Color) \<Rightarrow> bool \<times> (string \<Rightarrow> Color)" where
  "dfs_loop adj [] c = (False, c)"
| "dfs_loop adj (v # vs) c =
     (if c v = Gray then (True, c)
      else if c v = White then
        (case dfs_loop adj (succs adj v) (c(v := Gray)) of
           (True, c') \<Rightarrow> (True, c')
         | (False, c') \<Rightarrow> dfs_loop adj vs (c'(v := Black)))
      else dfs_loop adj vs c)"
  by pat_completeness auto

lemma dfs_loop_whites:
  "dfs_loop_dom (adj, vs, c) \<Longrightarrow> dfs_loop adj vs c = (b, c') \<Longrightarrow> c' x = White \<Longrightarrow> c x = White"
proof (induction adj vs c arbitrary: b c' rule: dfs_loop.pinduct)
  case (1 adj c)
  then show ?case by (simp add: dfs_loop.psimps)
next
  case (2 adj v vs c)
  show ?case
  proof (cases "c v = White")
    case True
    obtain b1 c1 where 1: "dfs_loop adj (succs adj v) (c(v := Gray)) = (b1, c1)"
      by fastforce
    have w1: "c1 x = White \<Longrightarrow> c x = White"
      using "2.IH"(1) [OF _ True 1] True by (auto split: if_splits)
    show ?thesis
    proof (cases b1)
      case True
      with 1 \<open>c v = White\<close> "2.hyps" "2.prems" w1 show ?thesis
        by (auto simp: dfs_loop.psimps)
    next
      case False
      with 1 \<open>c v = White\<close> "2.hyps" "2.prems"
      have "dfs_loop adj vs (c1(v := Black)) = (b, c')"
        by (auto simp: dfs_loop.psimps)
      moreover have "c v \<noteq> Gray" using \<open>c v = White\<close> by simp
      ultimately have "(c1(v := Black)) x = White"
        using "2.IH"(2) [OF _ \<open>c v = White\<close> 1 [symmetric]] False "2.prems"(2) by blast
      with w1 show ?thesis by (auto split: if_splits)
    qed
  next
    case False
    with "2" show ?thesis
      by (auto simp: dfs_loop.psimps split: if_splits)
  qed
qed

definition whites :: "adjacency \<Rightarrow> (string \<Rightarrow> Color) \<Rightarrow> string set" where
  "whites adj c = {x \<in> set (um_keys adj). c x = White}"

lemma finite_whites [simp]: "finite (whites adj c)"
  by (rule finite_subset [of _ "set (um_keys adj)"]) (auto simp: whites_def)

termination dfs_loop
proof (relation "measures [\<lambda>(adj, vs, c). card (whites adj c), \<lambda>(adj, vs, c). length vs]", goal_cases)
  case 1
  show ?case by simp
next
  case (2 adj v vs c)
  have sub: "whites adj (c(v := Gray)) \<subseteq> whites adj c"
    by (auto simp: whites_def)
  show ?case
  proof (cases "map_of adj v")
    case None
    then have "succs adj v = []" by (simp add: um_get_def)
    with sub show ?thesis
      by (auto simp: card_mono le_eq_less_or_eq [symmetric])
  next
    case (Some ss)
    with 2 have "v \<in> whites adj c" "v \<notin> whites adj (c(v := Gray))"
      by (auto simp: whites_def)
    with sub have "whites adj (c(v := Gray)) \<subset> whites adj c" by blast
    then show ?thesis by (simp add: psubset_card_mono)
  qed
next
  case (3 adj v vs c b c')
  then have "dfs_loop adj (succs adj v) (c(v := Gray)) = (False, c')" by simp
  with 3 have "whites adj (c'(v := Black)) \<subseteq> whites adj c"
    by (fastforce simp: whites_def dest: dfs_loop_whites split: if_splits)
  then have "card (whites adj (c'(v := Black))) \<le> card (whites adj c)"
    by (simp add: card_mono)
  then show ?case by auto
next
  case (4 adj v vs c)
  then show ?case by simp
qed

declare dfs_loop.simps(2) [simp del]

text \<open>The case rule used below: what one visit of a white vertex did.\<close>

lemma dfs_loop_white:
  assumes "c v = White"
  obtains c1 where "dfs_loop adj (succs adj v) (c(v := Gray)) = (True, c1)"
      and "dfs_loop adj (v # vs) c = (True, c1)"
  | c1 where "dfs_loop adj (succs adj v) (c(v := Gray)) = (False, c1)"
      and "dfs_loop adj (v # vs) c = dfs_loop adj vs (c1(v := Black))"
proof -
  obtain b c1 where 1: "dfs_loop adj (succs adj v) (c(v := Gray)) = (b, c1)"
    by fastforce
  show thesis
    using assms 1 that by (cases b) (auto simp: dfs_loop.simps(2))
qed

lemma dfs_loop_not_white:
  "c v = Gray \<Longrightarrow> dfs_loop adj (v # vs) c = (True, c)"
  "c v = Black \<Longrightarrow> dfs_loop adj (v # vs) c = dfs_loop adj vs c"
  by (simp_all add: dfs_loop.simps(2))

lemma Color_cases [case_names White Gray Black]:
  "(c = White \<Longrightarrow> P) \<Longrightarrow> (c = Gray \<Longrightarrow> P) \<Longrightarrow> (c = Black \<Longrightarrow> P) \<Longrightarrow> P"
  by (cases c) auto

text \<open>
  A search that finds nothing leaves the gray vertices as they were, keeps the black ones
  black and has blackened every vertex of its list.
\<close>

lemma dfs_loop_frame:
  assumes "dfs_loop adj vs c = (False, c')"
  shows "(\<forall>x. c' x = Gray \<longleftrightarrow> c x = Gray) \<and> (\<forall>x. c x = Black \<longrightarrow> c' x = Black) \<and>
    (\<forall>v \<in> set vs. c' v = Black)"
  using assms
proof (induction adj vs c arbitrary: c' rule: dfs_loop.induct)
  case (1 adj c)
  then show ?case by simp
next
  case (2 adj v vs c)
  show ?case
  proof (cases "c v" rule: Color_cases)
    case White
    then show ?thesis
    proof (cases rule: dfs_loop_white [of c v adj vs])
      case (1 c1)
      with "2.prems" show ?thesis by simp
    next
      case (2 c1)
      have ng: "c v \<noteq> Gray" using White by simp
      have inner: "\<forall>x. c1 x = Gray \<longleftrightarrow> (c(v := Gray)) x = Gray"
        "\<forall>x. (c(v := Gray)) x = Black \<longrightarrow> c1 x = Black"
        using "2.IH"(1) [OF ng White 2(1)] by blast+
      from 2 "2.prems" have "dfs_loop adj vs (c1(v := Black)) = (False, c')" by simp
      from "2.IH"(2) [OF ng White 2(1) [symmetric] refl this]
      have rest: "\<forall>x. c' x = Gray \<longleftrightarrow> (c1(v := Black)) x = Gray"
        "\<forall>x. (c1(v := Black)) x = Black \<longrightarrow> c' x = Black" "\<forall>v \<in> set vs. c' v = Black"
        by blast+
      have grays: "\<forall>x. c' x = Gray \<longleftrightarrow> c x = Gray"
      proof
        fix x
        show "c' x = Gray \<longleftrightarrow> c x = Gray"
          using inner(1) rest(1) White by (cases "x = v") simp_all
      qed
      have blacks: "\<forall>x. c x = Black \<longrightarrow> c' x = Black"
      proof
        fix x
        show "c x = Black \<longrightarrow> c' x = Black"
          using inner(2) rest(2) White by (cases "x = v") simp_all
      qed
      have "c' v = Black"
        using rest(2) by simp
      with rest(3) have "\<forall>w \<in> set (v # vs). c' w = Black"
        by simp
      with grays blacks show ?thesis by blast
    qed
  next
    case Gray
    with "2.prems" show ?thesis by (simp add: dfs_loop_not_white)
  next
    case Black
    with "2.prems" have "dfs_loop adj vs c = (False, c')"
      by (simp add: dfs_loop_not_white)
    moreover have "c v \<noteq> Gray" "c v \<noteq> White"
      using Black by simp_all
    ultimately have rest: "\<forall>x. c' x = Gray \<longleftrightarrow> c x = Gray" "\<forall>x. c x = Black \<longrightarrow> c' x = Black"
      "\<forall>v \<in> set vs. c' v = Black"
      using "2.IH"(3) by blast+
    with Black have "\<forall>w \<in> set (v # vs). c' w = Black"
      by simp
    with rest show ?thesis by blast
  qed
qed

text \<open>The black vertices are closed under edges and lie on no cycle.\<close>

definition black_ok :: "adjacency \<Rightarrow> (string \<Rightarrow> Color) \<Rightarrow> bool" where
  "black_ok adj c \<longleftrightarrow> (\<forall>x y. c x = Black \<longrightarrow> (x, y) \<in> adj_edges adj \<longrightarrow> c y = Black) \<and>
     (\<forall>x. c x = Black \<longrightarrow> (x, x) \<notin> (adj_edges adj)\<^sup>+)"

lemma black_closed_rtrancl:
  assumes "black_ok adj c" "(x, y) \<in> (adj_edges adj)\<^sup>*" "c x = Black"
  shows "c y = Black"
  using assms(2,3,1) by (induction rule: rtrancl_induct) (auto simp: black_ok_def)

lemma black_ok_gray: "c v = White \<Longrightarrow> black_ok adj (c(v := Gray)) = black_ok adj c"
proof -
  assume "c v = White"
  then have "\<And>x. (c(v := Gray)) x = Black \<longleftrightarrow> c x = Black" by simp
  then show ?thesis by (simp only: black_ok_def)
qed

lemma black_ok_finish:
  assumes ok: "black_ok adj c" and g: "c v = Gray" and s: "\<forall>w \<in> set (succs adj v). c w = Black"
  shows "black_ok adj (c(v := Black))"
proof -
  have "(v, v) \<notin> (adj_edges adj)\<^sup>+"
  proof
    assume "(v, v) \<in> (adj_edges adj)\<^sup>+"
    then obtain w where "(v, w) \<in> adj_edges adj" "(w, v) \<in> (adj_edges adj)\<^sup>*"
      by (meson tranclD)
    with s ok have "c v = Black" by (auto intro: black_closed_rtrancl)
    with g show False by simp
  qed
  with assms show ?thesis by (auto simp: black_ok_def)
qed

lemma dfs_loop_black_ok:
  assumes "dfs_loop adj vs c = (False, c')" and "black_ok adj c"
  shows "black_ok adj c'"
  using assms
proof (induction adj vs c arbitrary: c' rule: dfs_loop.induct)
  case (1 adj c)
  then show ?case by simp
next
  case (2 adj v vs c)
  show ?case
  proof (cases "c v" rule: Color_cases)
    case White
    then show ?thesis
    proof (cases rule: dfs_loop_white [of c v adj vs])
      case (1 c1)
      with "2.prems" show ?thesis by simp
    next
      case (2 c1)
      have ng: "c v \<noteq> Gray" using White by simp
      have "black_ok adj c1"
        using "2.IH"(1) [OF ng White 2(1)] "2.prems"(2) black_ok_gray [of c v adj] White by blast
      moreover from dfs_loop_frame [OF 2(1)] have "c1 v = Gray" "\<forall>w \<in> set (succs adj v). c1 w = Black"
        by auto
      ultimately have "black_ok adj (c1(v := Black))" by (rule black_ok_finish)
      with "2.IH"(2) [OF ng White 2(1) [symmetric] refl] 2(2) "2.prems"(1) show ?thesis by metis
    qed
  next
    case Gray
    with "2.prems" show ?thesis by (simp add: dfs_loop_not_white)
  next
    case Black
    with "2.prems" "2.IH"(3) [of c'] show ?thesis by (auto simp: dfs_loop_not_white)
  qed
qed

text \<open>
  A positive answer is a real cycle: every gray vertex reaches the one being searched, so an
  edge into a gray vertex closes a cycle.
\<close>

lemma dfs_loop_cycle:
  assumes "dfs_loop adj vs c = (True, c')" and "set vs \<subseteq> set (succs adj u)"
    and "\<forall>g. c g = Gray \<longrightarrow> (g, u) \<in> (adj_edges adj)\<^sup>*"
  shows "\<not> acyclic (adj_edges adj)"
  using assms
proof (induction adj vs c arbitrary: c' u rule: dfs_loop.induct)
  case (1 adj c)
  then show ?case by simp
next
  case (2 adj v vs c)
  from "2.prems"(2) have uv: "(u, v) \<in> adj_edges adj" by simp
  show ?case
  proof (cases "c v" rule: Color_cases)
    case White
    from White show ?thesis
    proof (cases rule: dfs_loop_white [of c v adj vs])
      case (1 c1)
      have "\<forall>g. (c(v := Gray)) g = Gray \<longrightarrow> (g, v) \<in> (adj_edges adj)\<^sup>*"
        using "2.prems"(3) uv by (auto intro: rtrancl_into_rtrancl)
      moreover have "c v \<noteq> Gray" using White by simp
      ultimately show ?thesis using "2.IH"(1) [OF _ White 1(1)] by blast
    next
      case (2 c1)
      have "\<forall>g. (c1(v := Black)) g = Gray \<longrightarrow> (g, u) \<in> (adj_edges adj)\<^sup>*"
        using dfs_loop_frame [OF 2(1)] "2.prems"(3) by auto
      moreover have "c v \<noteq> Gray" using White by simp
      moreover have "dfs_loop adj vs (c1(v := Black)) = (True, c')" "set vs \<subseteq> set (succs adj u)"
        using 2 "2.prems" by simp_all
      ultimately show ?thesis using "2.IH"(2) [OF _ White 2(1) [symmetric] refl] by blast
    qed
  next
    case Gray
    with "2.prems"(3) have "(v, u) \<in> (adj_edges adj)\<^sup>*" by blast
    from this uv have "(v, v) \<in> (adj_edges adj)\<^sup>+" by (rule rtrancl_into_trancl1)
    then show ?thesis by (auto simp: acyclic_def)
  next
    case Black
    with "2.prems" "2.IH"(3) [of c' u] show ?thesis by (auto simp: dfs_loop_not_white)
  qed
qed

text \<open>The outer loop of \<open>hasCycle\<close>: search from every vertex that is still white.\<close>

fun dfs_all :: "adjacency \<Rightarrow> string list \<Rightarrow> (string \<Rightarrow> Color) \<Rightarrow> bool" where
  "dfs_all adj [] c = False"
| "dfs_all adj (u # us) c =
     (if c u = White then
        (case dfs_loop adj (succs adj u) (c(u := Gray)) of
           (True, c') \<Rightarrow> True
         | (False, c') \<Rightarrow> dfs_all adj us (c'(u := Black)))
      else dfs_all adj us c)"

lemma dfs_all_sound:
  "dfs_all adj us c \<Longrightarrow> \<forall>x. c x \<noteq> Gray \<Longrightarrow> \<not> acyclic (adj_edges adj)"
proof (induction us arbitrary: c)
  case Nil
  then show ?case by simp
next
  case (Cons u us)
  show ?case
  proof (cases "c u = White")
    case True
    obtain b c1 where 1: "dfs_loop adj (succs adj u) (c(u := Gray)) = (b, c1)" by fastforce
    show ?thesis
    proof (cases b)
      case True
      with 1 have "dfs_loop adj (succs adj u) (c(u := Gray)) = (True, c1)" by simp
      then show ?thesis by (rule dfs_loop_cycle) (use Cons.prems(2) in auto)
    next
      case False
      with 1 dfs_loop_frame [of adj "succs adj u" "c(u := Gray)" c1] Cons.prems(2)
      have "\<forall>x. (c1(u := Black)) x \<noteq> Gray" by auto
      moreover have "dfs_all adj us (c1(u := Black))"
        using Cons.prems(1) 1 True False by simp
      ultimately show ?thesis using Cons.IH by blast
    qed
  next
    case False
    with Cons show ?thesis by simp
  qed
qed

lemma dfs_all_complete:
  assumes "\<not> dfs_all adj us c" "\<forall>x. c x \<noteq> Gray" "black_ok adj c"
  shows "\<forall>x \<in> set us \<union> {x. c x = Black}. (x, x) \<notin> (adj_edges adj)\<^sup>+"
  using assms
proof (induction us arbitrary: c)
  case Nil
  then show ?case by (simp add: black_ok_def)
next
  case (Cons u us)
  show ?case
  proof (cases "c u = White")
    case True
    with Cons.prems obtain c1 where 1: "dfs_loop adj (succs adj u) (c(u := Gray)) = (False, c1)"
      and rest: "\<not> dfs_all adj us (c1(u := Black))"
      by (auto split: prod.splits bool.splits)
    have "black_ok adj c1"
      using dfs_loop_black_ok [OF 1] True Cons.prems(3) by (simp add: black_ok_gray)
    moreover note fr = dfs_loop_frame [OF 1]
    ultimately have "black_ok adj (c1(u := Black))"
      by (intro black_ok_finish) auto
    moreover have "\<forall>x. (c1(u := Black)) x \<noteq> Gray"
      using fr Cons.prems(2) by auto
    ultimately have "\<forall>x \<in> set us \<union> {x. (c1(u := Black)) x = Black}. (x, x) \<notin> (adj_edges adj)\<^sup>+"
      using Cons.IH rest by blast
    with fr True show ?thesis by auto
  next
    case False
    with Cons.prems(2) have "c u = Black" by (metis Color.exhaust)
    with Cons False show ?thesis by auto
  qed
qed

lemma dfs_all_iff: "dfs_all adj (um_keys adj) (\<lambda>_. White) \<longleftrightarrow> \<not> acyclic (adj_edges adj)"
proof
  assume "dfs_all adj (um_keys adj) (\<lambda>_. White)"
  then show "\<not> acyclic (adj_edges adj)" by (rule dfs_all_sound) simp
next
  assume cyc: "\<not> acyclic (adj_edges adj)"
  show "dfs_all adj (um_keys adj) (\<lambda>_. White)"
  proof (rule ccontr)
    assume "\<not> dfs_all adj (um_keys adj) (\<lambda>_. White)"
    then have no: "\<forall>x \<in> set (um_keys adj). (x, x) \<notin> (adj_edges adj)\<^sup>+"
      using dfs_all_complete [of adj "um_keys adj" "\<lambda>_. White"] by (simp add: black_ok_def)
    from cyc obtain x where x: "(x, x) \<in> (adj_edges adj)\<^sup>+" by (auto simp: acyclic_def)
    then obtain y where "(x, y) \<in> adj_edges adj" by (meson tranclD)
    then have "map_of adj x \<noteq> None" using succs_key by simp
    with no x show False by simp
  qed
qed

subsection \<open>Elimination by in-degree\<close>

text \<open>
  The inner loop of both eliminations: decrement the in-degree of every successor and
  append to the queue the ones that reach zero.
\<close>

fun relax :: "string list \<Rightarrow> (string \<Rightarrow> int) \<Rightarrow> string list \<Rightarrow> (string \<Rightarrow> int) \<times> string list" where
  "relax [] deg q = (deg, q)"
| "relax (s # ss) deg q =
     (let deg' = deg(s := deg s - 1)
      in relax ss deg' (if deg' s = 0 then q @ [s] else q))"

lemma relax_Cons:
  "relax (s # ss) deg q = relax ss (deg(s := deg s - 1)) (if deg s = 1 then q @ [s] else q)"
  by (simp add: Let_def)

lemma relax_distinct:
  assumes "distinct ss"
  shows "relax ss deg q =
    (\<lambda>v. if v \<in> set ss then deg v - 1 else deg v, q @ filter (\<lambda>v. deg v = 1) ss)"
  using assms
proof (induction ss arbitrary: deg q)
  case Nil
  then show ?case by simp
next
  case (Cons s ss)
  have "filter (\<lambda>v. (deg(s := deg s - 1)) v = 1) ss = filter (\<lambda>v. deg v = 1) ss"
    using Cons.prems by (auto intro: filter_cong)
  moreover have "(\<lambda>v. if v \<in> set ss then (deg(s := deg s - 1)) v - 1 else (deg(s := deg s - 1)) v) =
      (\<lambda>v. if v \<in> set (s # ss) then deg v - 1 else deg v)"
    using Cons.prems by (auto simp: fun_eq_iff)
  moreover note relax_Cons [of s ss deg q]
  ultimately show ?case
    using Cons.IH [of "deg(s := deg s - 1)"] Cons.prems by (simp del: fun_upd_apply relax.simps)
qed

definition adj_targets :: "adjacency \<Rightarrow> string set" where
  "adj_targets adj = (\<Union>(u, vs) \<in> set adj. set vs)"

lemma finite_adj_targets [simp]: "finite (adj_targets adj)"
  by (auto simp: adj_targets_def)

lemma succs_targets: "set (succs adj u) \<subseteq> adj_targets adj"
  by (cases "map_of adj u") (force simp: um_get_def adj_targets_def dest: map_of_SomeD)+

definition pos_targets :: "adjacency \<Rightarrow> (string \<Rightarrow> int) \<Rightarrow> string set" where
  "pos_targets adj deg = {v \<in> adj_targets adj. deg v > 0}"

lemma finite_pos_targets [simp]: "finite (pos_targets adj deg)"
  by (auto simp: pos_targets_def)

lemma pos_targets_upd:
  assumes "s \<in> adj_targets adj"
  shows "card (pos_targets adj (deg(s := deg s - 1))) + (if deg s = 1 then 1 else 0) = card (pos_targets adj deg)"
proof (cases "deg s = 1")
  case True
  have "pos_targets adj deg = insert s (pos_targets adj (deg(s := deg s - 1)))"
    using assms True by (auto simp: pos_targets_def)
  moreover have "s \<notin> pos_targets adj (deg(s := deg s - 1))"
    using True by (simp add: pos_targets_def)
  ultimately show ?thesis using True by simp
next
  case False
  then have "pos_targets adj (deg(s := deg s - 1)) = pos_targets adj deg"
    by (auto simp: pos_targets_def)
  with False show ?thesis by simp
qed

text \<open>Each append to the queue uses up one vertex of positive in-degree.\<close>

lemma relax_measure:
  assumes "relax ss deg q = (deg', q')" "set ss \<subseteq> adj_targets adj"
  shows "length q' + card (pos_targets adj deg') = length q + card (pos_targets adj deg)"
  using assms
proof (induction ss arbitrary: deg q)
  case Nil
  then show ?case by simp
next
  case (Cons s ss)
  let ?d = "deg(s := deg s - 1)" and ?q = "if deg s = 1 then q @ [s] else q"
  have "relax ss ?d ?q = (deg', q')"
    using Cons.prems(1) by (simp add: Let_def)
  then have "length q' + card (pos_targets adj deg') = length ?q + card (pos_targets adj ?d)"
    by (rule Cons.IH) (use Cons.prems(2) in simp)
  moreover have "card (pos_targets adj ?d) + (if deg s = 1 then 1 else 0) = card (pos_targets adj deg)"
    by (rule pos_targets_upd) (use Cons.prems(2) in simp)
  ultimately show ?case
    by (cases "deg s = 1") (simp_all del: fun_upd_apply)
qed

text \<open>The main loop of \<open>getTopologicalOrder\<close>.\<close>

function kahn :: "adjacency \<Rightarrow> string list \<Rightarrow> (string \<Rightarrow> int) \<Rightarrow> string list \<Rightarrow> string list" where
  "kahn adj [] deg order = order"
| "kahn adj (cur # q) deg order =
     (case relax (succs adj cur) deg q of (deg', q') \<Rightarrow> kahn adj q' deg' (order @ [cur]))"
  by pat_completeness auto

termination
proof (relation "measure (\<lambda>(adj, q, deg, order). length q + card (pos_targets adj deg))", goal_cases)
  case 1
  show ?case by simp
next
  case (2 adj cur q deg order deg' q')
  then have "relax (succs adj cur) deg q = (deg', q')" by simp
  with relax_measure [OF this succs_targets] show ?case by simp
qed

text \<open>The main loop of \<open>getExecutionLevels\<close>: one pass over the current level, then the next.\<close>

fun relax_level :: "adjacency \<Rightarrow> string list \<Rightarrow> (string \<Rightarrow> int) \<Rightarrow> string list \<Rightarrow> (string \<Rightarrow> int) \<times> string list" where
  "relax_level adj [] deg nxt = (deg, nxt)"
| "relax_level adj (i # is) deg nxt =
     (case relax (succs adj i) deg nxt of (deg', nxt') \<Rightarrow> relax_level adj is deg' nxt')"

lemma relax_level_measure:
  "relax_level adj is deg nxt = (deg', nxt') \<Longrightarrow>
     length nxt' + card (pos_targets adj deg') = length nxt + card (pos_targets adj deg)"
proof (induction "is" arbitrary: deg nxt)
  case Nil
  then show ?case by simp
next
  case (Cons i "is")
  obtain d1 n1 where 1: "relax (succs adj i) deg nxt = (d1, n1)" by fastforce
  with Cons.prems have "relax_level adj is d1 n1 = (deg', nxt')" by simp
  with Cons.IH relax_measure [OF 1 succs_targets] show ?case by simp
qed

function level_loop :: "adjacency \<Rightarrow> string list \<Rightarrow> (string \<Rightarrow> int) \<Rightarrow> string list list \<Rightarrow> string list list" where
  "level_loop adj current deg levels =
     (if current = [] then levels
      else case relax_level adj current deg [] of
        (deg', nxt) \<Rightarrow> level_loop adj nxt deg' (levels @ [current]))"
  by pat_completeness auto

termination
proof (relation "measure (\<lambda>(adj, cur, deg, levels). length cur + card (pos_targets adj deg))", goal_cases)
  case 1
  show ?case by simp
next
  case (2 adj current deg levels deg' nxt)
  then have "relax_level adj current deg [] = (deg', nxt)" by simp
  from relax_level_measure [OF this] 2(1) show ?case by (cases current) auto
qed

declare level_loop.simps [simp del]

subsubsection \<open>Correctness of the elimination\<close>

definition topological_sort :: "('a \<times> 'a) set \<Rightarrow> 'a list \<Rightarrow> bool" where
  "topological_sort E xs \<longleftrightarrow> distinct xs \<and>
     (\<forall>i < length xs. \<forall>u. (u, xs ! i) \<in> E \<longrightarrow> u \<in> set (take i xs))"

lemma topological_sort_snoc:
  assumes "topological_sort E xs" "x \<notin> set xs" "\<And>u. (u, x) \<in> E \<Longrightarrow> u \<in> set xs"
  shows "topological_sort E (xs @ [x])"
  using assms by (auto simp: topological_sort_def nth_append less_Suc_eq)

lemma topological_sort_acyclic:
  assumes "topological_sort E xs" "\<And>u v. (u, v) \<in> E \<Longrightarrow> v \<in> set xs"
  shows "acyclic E"
proof -
  have step: "\<exists>i < j. xs ! i = u" if "(u, xs ! j) \<in> E" "j < length xs" for u j
    using assms(1) that by (fastforce simp: topological_sort_def in_set_conv_nth)
  have "\<exists>i < j. xs ! i = u" if "(u, v) \<in> E\<^sup>+" "v = xs ! j" "j < length xs" for u v j
    using that
  proof (induction arbitrary: j rule: trancl_induct)
    case (base v)
    then show ?case using step by blast
  next
    case (step v w)
    then obtain i where i: "i < j" "xs ! i = v"
      using \<open>\<And>u j. (u, xs ! j) \<in> E \<Longrightarrow> j < length xs \<Longrightarrow> \<exists>i < j. xs ! i = u\<close> by blast
    with step.IH [of i] step.prems show ?case
      by (meson less_trans)
  qed
  note before = this
  show ?thesis
  proof (rule acyclicI, intro allI notI)
    fix x
    assume x: "(x, x) \<in> E\<^sup>+"
    then have "x \<in> set xs" using assms(2) by (meson tranclE)
    then obtain j where j: "j < length xs" "xs ! j = x" by (auto simp: in_set_conv_nth)
    with before [OF x, of j] obtain i where "i < j" "xs ! i = x" by auto
    with j assms(1) show False by (auto simp: topological_sort_def distinct_conv_nth)
  qed
qed

lemma no_source_cyclic:
  assumes "finite E" "R \<noteq> {}" "\<And>v. v \<in> R \<Longrightarrow> \<exists>u \<in> R. (u, v) \<in> E"
  shows "\<not> acyclic E"
proof
  assume "acyclic E"
  with assms(1) have "wf E" by (rule finite_acyclic_wf)
  with assms(2) obtain v where "v \<in> R" "\<And>u. (u, v) \<in> E \<Longrightarrow> u \<notin> R"
    by (metis wfE_min' )
  with assms(3) show False by blast
qed

text \<open>The number of predecessors of \<open>v\<close> that are not yet in the order.\<close>

definition open_preds :: "adjacency \<Rightarrow> string list \<Rightarrow> string \<Rightarrow> string set" where
  "open_preds adj P v = {u. (u, v) \<in> adj_edges adj \<and> u \<notin> set P}"

lemma finite_open_preds [simp]: "finite (open_preds adj P v)"
proof -
  have "open_preds adj P v \<subseteq> fst ` adj_edges adj"
  proof
    fix u
    assume "u \<in> open_preds adj P v"
    then have "(u, v) \<in> adj_edges adj" by (simp add: open_preds_def)
    then show "u \<in> fst ` adj_edges adj" by (metis fst_conv image_eqI)
  qed
  then show ?thesis
    using finite_adj_edges finite_subset by blast
qed

lemma open_preds_snoc:
  "open_preds adj (P @ [c]) v = open_preds adj P v - {c}"
  by (auto simp: open_preds_def)

definition kahn_inv :: "adjacency \<Rightarrow> string list \<Rightarrow> string list \<Rightarrow> (string \<Rightarrow> int) \<Rightarrow> bool" where
  "kahn_inv adj P Q deg \<longleftrightarrow>
     distinct (P @ Q) \<and> set (P @ Q) \<subseteq> set (um_keys adj) \<and>
     (\<forall>v \<in> set (um_keys adj). deg v = int (card (open_preds adj P v))) \<and>
     (\<forall>v \<in> set (um_keys adj). v \<in> set (P @ Q) \<longleftrightarrow> deg v = 0) \<and>
     topological_sort (adj_edges adj) P"

lemma kahn_inv_open: "kahn_inv adj P Q deg \<Longrightarrow> v \<in> set (P @ Q) \<Longrightarrow> open_preds adj P v = {}"
  by (fastforce simp: kahn_inv_def)

lemma kahn_step:
  assumes ok: "adj_ok adj" and inv: "kahn_inv adj P (c # Q) deg"
    and rel: "relax (succs adj c) deg Q = (deg', Q')"
  shows "kahn_inv adj (P @ [c]) Q' deg'"
proof -
  have d: "distinct (succs adj c)" by (rule adj_ok_succs [OF ok])
  have deg': "deg' = (\<lambda>v. if v \<in> set (succs adj c) then deg v - 1 else deg v)"
    and Q': "Q' = Q @ filter (\<lambda>v. deg v = 1) (succs adj c)"
    using relax_distinct [OF d, of deg Q] rel by auto
  have dist: "distinct (P @ c # Q)" and sub: "set (P @ c # Q) \<subseteq> set (um_keys adj)"
    and cnt: "\<And>v. v \<in> set (um_keys adj) \<Longrightarrow> deg v = int (card (open_preds adj P v))"
    and zero: "\<And>v. v \<in> set (um_keys adj) \<Longrightarrow> v \<in> set (P @ c # Q) \<longleftrightarrow> deg v = 0"
    and top: "topological_sort (adj_edges adj) P"
    using inv by (auto simp: kahn_inv_def simp del: in_um_keys)
  have cP: "c \<notin> set P" using dist by auto
  have none: "v \<notin> set (succs adj c)" if "v \<in> set (P @ c # Q)" for v
    using kahn_inv_open [OF inv that] cP by (auto simp: open_preds_def)
  have new: "v \<notin> set (P @ c # Q)" if "deg v = 1" "v \<in> set (succs adj c)" for v
    using none that by blast
  have "distinct ((P @ [c]) @ Q')"
    using dist d new unfolding Q' by auto
  moreover have "set ((P @ [c]) @ Q') \<subseteq> set (um_keys adj)"
    using sub adj_ok_succs(2) [OF ok] unfolding Q' by auto
  moreover have "deg' v = int (card (open_preds adj (P @ [c]) v))" if "v \<in> set (um_keys adj)" for v
  proof (cases "v \<in> set (succs adj c)")
    case True
    then have "c \<in> open_preds adj P v" using cP by (simp add: open_preds_def)
    then have "card (open_preds adj P v) = Suc (card (open_preds adj P v - {c}))"
      by (metis card_Suc_Diff1 finite_open_preds)
    with True cnt [OF that] show ?thesis
      by (simp add: deg' open_preds_snoc)
  next
    case False
    then have "c \<notin> open_preds adj P v" by (simp add: open_preds_def)
    with False cnt [OF that] show ?thesis by (simp add: deg' open_preds_snoc)
  qed
  moreover have "v \<in> set ((P @ [c]) @ Q') \<longleftrightarrow> deg' v = 0" if "v \<in> set (um_keys adj)" for v
  proof (cases "v \<in> set (P @ c # Q)")
    case True
    with none [OF True] zero [OF that] show ?thesis by (auto simp: deg' Q')
  next
    case False
    with zero [OF that] cnt [OF that] show ?thesis by (auto simp: deg' Q')
  qed
  moreover have "topological_sort (adj_edges adj) (P @ [c])"
  proof (rule topological_sort_snoc [OF top cP])
    fix u
    assume "(u, c) \<in> adj_edges adj"
    with kahn_inv_open [OF inv, of c] show "u \<in> set P" by (auto simp: open_preds_def)
  qed
  ultimately show ?thesis by (auto simp: kahn_inv_def simp del: in_um_keys)
qed

lemma kahn_result:
  "adj_ok adj \<Longrightarrow> kahn_inv adj P Q deg \<Longrightarrow> \<exists>deg'. kahn_inv adj (kahn adj Q deg P) [] deg'"
proof (induction adj Q deg P rule: kahn.induct)
  case (1 adj deg order)
  then show ?case by auto
next
  case (2 adj c q deg P)
  obtain deg' q' where r: "relax (succs adj c) deg q = (deg', q')" by fastforce
  then have "kahn_inv adj (P @ [c]) q' deg'"
    using kahn_step "2.prems" by blast
  with "2.IH" [OF r [symmetric] "2.prems"(1)] r show ?case by simp
qed

text \<open>The elimination sorts every vertex when there is no cycle, and loses one when there is.\<close>

lemma kahn_complete_iff:
  assumes ok: "adj_ok adj" and inv: "kahn_inv adj P [] deg"
  shows "length P = length (um_keys adj) \<longleftrightarrow> acyclic (adj_edges adj)"
    and "acyclic (adj_edges adj) \<Longrightarrow> topological_sort (adj_edges adj) P \<and> set P = set (um_keys adj)"
proof -
  have dP: "distinct P" and sub: "set P \<subseteq> set (um_keys adj)"
    and cnt: "\<And>v. v \<in> set (um_keys adj) \<Longrightarrow> deg v = int (card (open_preds adj P v))"
    and zero: "\<And>v. v \<in> set (um_keys adj) \<Longrightarrow> v \<in> set P \<longleftrightarrow> deg v = 0"
    and top: "topological_sort (adj_edges adj) P"
    using inv by (auto simp: kahn_inv_def simp del: in_um_keys)
  have dk: "distinct (um_keys adj)" using ok by (simp add: adj_ok_def)
  have len: "length P = length (um_keys adj) \<longleftrightarrow> set P = set (um_keys adj)"
    using sub dP dk by (metis List.finite_set card_subset_eq distinct_card)
  have target: "v \<in> set (um_keys adj)" if "(u, v) \<in> adj_edges adj" for u v
    using that adj_ok_succs(2) [OF ok] by simp
  have all: "set P = set (um_keys adj)" if ac: "acyclic (adj_edges adj)"
  proof (rule ccontr)
    let ?R = "set (um_keys adj) - set P"
    assume "set P \<noteq> set (um_keys adj)"
    with sub have ne: "?R \<noteq> {}" by blast
    have "\<exists>u \<in> ?R. (u, v) \<in> adj_edges adj" if "v \<in> ?R" for v
    proof -
      have "card (open_preds adj P v) \<noteq> 0" using that cnt [of v] zero [of v] by (auto simp del: in_um_keys)
      then obtain u where "u \<in> open_preds adj P v" by fastforce
      then have "(u, v) \<in> adj_edges adj" "u \<notin> set P" by (simp_all add: open_preds_def)
      moreover then have "u \<in> set (um_keys adj)" using succs_key by simp
      ultimately show ?thesis by blast
    qed
    from no_source_cyclic [OF finite_adj_edges ne this] ac show False by blast
  qed
  have "acyclic (adj_edges adj)" if "set P = set (um_keys adj)"
    using topological_sort_acyclic [OF top] target that by blast
  with all len show "length P = length (um_keys adj) \<longleftrightarrow> acyclic (adj_edges adj)" by blast
  show "topological_sort (adj_edges adj) P \<and> set P = set (um_keys adj)" if "acyclic (adj_edges adj)"
    using all [OF that] top by blast
qed

subsubsection \<open>Levels\<close>

lemma relax_queue_append:
  "relax ss deg (q1 @ q2) = (case relax ss deg q2 of (d, q) \<Rightarrow> (d, q1 @ q))"
proof (induction ss arbitrary: deg q2)
  case Nil
  then show ?case by simp
next
  case (Cons s ss)
  have "(if deg s = 1 then (q1 @ q2) @ [s] else q1 @ q2) = q1 @ (if deg s = 1 then q2 @ [s] else q2)"
    by simp
  then show ?case by (simp only: relax_Cons Cons.IH)
qed

lemma kahn_level:
  "kahn adj (is @ nxt) deg P =
     (case relax_level adj is deg nxt of (d, n) \<Rightarrow> kahn adj n d (P @ is))"
proof (induction "is" arbitrary: nxt deg P)
  case Nil
  then show ?case by simp
next
  case (Cons i "is")
  obtain d n where r: "relax (succs adj i) deg nxt = (d, n)" by fastforce
  then have "kahn adj ((i # is) @ nxt) deg P = kahn adj (is @ n) d (P @ [i])"
    by (simp add: relax_queue_append)
  with Cons.IH r show ?case by simp
qed

text \<open>Read level by level, the levels are the elimination order.\<close>

lemma concat_level_loop: "concat (level_loop adj cur deg Ls) = kahn adj cur deg (concat Ls)"
proof (induction adj cur deg Ls rule: level_loop.induct)
  case (1 adj cur deg Ls)
  show ?case
  proof (cases "cur = []")
    case True
    then show ?thesis by (simp add: level_loop.simps)
  next
    case False
    obtain d n where r: "relax_level adj cur deg [] = (d, n)" by fastforce
    with False have "level_loop adj cur deg Ls = level_loop adj n d (Ls @ [cur])"
      by (simp add: level_loop.simps [of adj cur])
    moreover have "kahn adj cur deg (concat Ls) = kahn adj n d (concat (Ls @ [cur]))"
      using kahn_level [of adj cur "[]" deg "concat Ls"] r by simp
    ultimately show ?thesis
      using "1.IH" [OF False r [symmetric]] by simp
  qed
qed

lemma relax_level_inv:
  assumes "adj_ok adj"
  shows "kahn_inv adj P (is @ nxt) deg \<Longrightarrow> relax_level adj is deg nxt = (d, n) \<Longrightarrow>
    kahn_inv adj (P @ is) n d"
proof (induction "is" arbitrary: P nxt deg)
  case Nil
  then show ?case by simp
next
  case (Cons i "is")
  obtain d1 n1 where r: "relax (succs adj i) deg nxt = (d1, n1)" by fastforce
  then have "relax (succs adj i) deg (is @ nxt) = (d1, is @ n1)"
    by (simp add: relax_queue_append)
  with Cons.prems have "kahn_inv adj (P @ [i]) (is @ n1) d1"
    using kahn_step [OF assms, of P i "is @ nxt"] by simp
  with Cons.IH [OF this] Cons.prems r show ?case by simp
qed

definition levels_ok :: "('a \<times> 'a) set \<Rightarrow> 'a list list \<Rightarrow> bool" where
  "levels_ok E Ls \<longleftrightarrow>
     (\<forall>j < length Ls. \<forall>v \<in> set (Ls ! j). \<forall>u. (u, v) \<in> E \<longrightarrow> (\<exists>i < j. u \<in> set (Ls ! i)))"

lemma levels_ok_snoc:
  assumes "levels_ok E Ls" "\<And>v u. v \<in> set cur \<Longrightarrow> (u, v) \<in> E \<Longrightarrow> u \<in> set (concat Ls)"
  shows "levels_ok E (Ls @ [cur])"
proof -
  have "\<exists>i < length Ls. u \<in> set (Ls ! i)" if "v \<in> set cur" "(u, v) \<in> E" for u v
  proof -
    from assms(2) [OF that] obtain L where "L \<in> set Ls" "u \<in> set L" by auto
    then show ?thesis by (metis in_set_conv_nth)
  qed
  with assms(1) show ?thesis
    by (simp add: levels_ok_def nth_append less_Suc_eq) (metis less_trans)
qed

lemma level_loop_ok:
  assumes "adj_ok adj" "kahn_inv adj (concat Ls) cur deg" "levels_ok (adj_edges adj) Ls"
    "\<forall>L \<in> set Ls. L \<noteq> []"
  shows "levels_ok (adj_edges adj) (level_loop adj cur deg Ls) \<and>
    (\<forall>L \<in> set (level_loop adj cur deg Ls). L \<noteq> [])"
  using assms
proof (induction adj cur deg Ls rule: level_loop.induct)
  case (1 adj cur deg Ls)
  show ?case
  proof (cases "cur = []")
    case True
    with "1.prems" show ?thesis by (simp add: level_loop.simps)
  next
    case False
    obtain d n where r: "relax_level adj cur deg [] = (d, n)" by fastforce
    have "kahn_inv adj (concat Ls @ cur) n d"
      using relax_level_inv [OF "1.prems"(1), of "concat Ls" cur "[]" deg d n] "1.prems"(2) r by simp
    moreover have "levels_ok (adj_edges adj) (Ls @ [cur])"
    proof (rule levels_ok_snoc [OF "1.prems"(3)])
      fix v u
      assume "v \<in> set cur" "(u, v) \<in> adj_edges adj"
      with kahn_inv_open [OF "1.prems"(2), of v] show "u \<in> set (concat Ls)"
        by (auto simp: open_preds_def)
    qed
    ultimately show ?thesis
      using "1.IH" [OF False r [symmetric] "1.prems"(1)] "1.prems"(4) False r
      by (simp add: level_loop.simps [of adj cur])
  qed
qed

end
