(* ===== verification/Task_Order.thy ===== *)
theory Task_Order
  imports TaskGraph Graph_Search
begin

text \<open>
  \<open>hasCycle\<close>, \<open>getTopologicalOrder\<close> and \<open>getExecutionLevels\<close> of
  \<open>src/src/taskgraph/taskgraph.cpp\<close>. All three build the same adjacency map from the node
  table (\<open>build_adj\<close>; the source repeats the loop three times) and run one of the searches of
  \<open>Graph_Search\<close> on it. The locale \<open>adjacency_source\<close> is what the searches need to know of
  the object the map was built from.
\<close>

subsection \<open>Building the adjacency map\<close>

definition adj_push :: "string \<Rightarrow> string \<Rightarrow> adjacency \<Rightarrow> adjacency" where
  "adj_push u v adj = AList.update u (push_unique v (um_get [] adj u)) adj"

fun adj_from_dependencies :: "(string, TaskNode) umap \<Rightarrow> string \<Rightarrow> string list \<Rightarrow> adjacency \<Rightarrow> adjacency" where
  "adj_from_dependencies m i [] adj = adj"
| "adj_from_dependencies m i (d # ds) adj =
     adj_from_dependencies m i ds (if map_of m d \<noteq> None then adj_push d i adj else adj)"

fun adj_from_dependents :: "(string, TaskNode) umap \<Rightarrow> string \<Rightarrow> string list \<Rightarrow> adjacency \<Rightarrow> adjacency" where
  "adj_from_dependents m i [] adj = adj"
| "adj_from_dependents m i (s # ss) adj =
     adj_from_dependents m i ss (if map_of m s \<noteq> None then adj_push i s adj else adj)"

fun adj_from_nodes :: "(string, TaskNode) umap \<Rightarrow> (string, TaskNode) umap \<Rightarrow> adjacency \<Rightarrow> adjacency" where
  "adj_from_nodes m [] adj = adj"
| "adj_from_nodes m ((i, n) # ns) adj =
     adj_from_nodes m ns
       (adj_from_dependents m i (dependents n) (adj_from_dependencies m i (dependencies n) adj))"

definition build_adj :: "(string, TaskNode) umap \<Rightarrow> adjacency" where
  "build_adj m = adj_from_nodes m m (map (\<lambda>(i, n). (i, [])) m)"

fun count_targets :: "string list \<Rightarrow> (string \<Rightarrow> int) \<Rightarrow> (string \<Rightarrow> int)" where
  "count_targets [] deg = deg"
| "count_targets (v # vs) deg = count_targets vs (deg(v := deg v + 1))"

fun in_degrees :: "adjacency \<Rightarrow> (string \<Rightarrow> int) \<Rightarrow> (string \<Rightarrow> int)" where
  "in_degrees [] deg = deg"
| "in_degrees ((u, vs) # adj) deg = in_degrees adj (count_targets vs deg)"

subsection \<open>The three methods\<close>

definition hasCycle :: "TaskGraph \<Rightarrow> bool" where
  "hasCycle g =
     (if nodes g = [] then False
      else dfs_all (build_adj (nodes g)) (node_ids_of g) (\<lambda>_. White))"

text \<open>The elimination that the other two share: in-degrees, then the sources in map order.\<close>

definition elim_degrees :: "adjacency \<Rightarrow> string \<Rightarrow> int" where
  "elim_degrees adj = in_degrees adj (\<lambda>_. 0)"

definition elim_sources :: "adjacency \<Rightarrow> string list" where
  "elim_sources adj = filter (\<lambda>i. elim_degrees adj i = 0) (um_keys adj)"

definition elim_order :: "adjacency \<Rightarrow> string list" where
  "elim_order adj = kahn adj (elim_sources adj) (elim_degrees adj) []"

definition elim_levels :: "adjacency \<Rightarrow> string list list" where
  "elim_levels adj = level_loop adj (elim_sources adj) (elim_degrees adj) []"

definition getTopologicalOrder :: "TaskGraph \<Rightarrow> string list" where
  "getTopologicalOrder g =
     (if nodes g = [] then []
      else let order = elim_order (build_adj (nodes g))
           in if length order \<noteq> length (nodes g) then [] else order)"

definition getExecutionLevels :: "TaskGraph \<Rightarrow> string list list" where
  "getExecutionLevels g =
     (if nodes g = [] then [] else elim_levels (build_adj (nodes g)))"

subsection \<open>In-degrees count predecessors\<close>

lemma count_targets_distinct:
  "distinct vs \<Longrightarrow> count_targets vs deg v = deg v + (if v \<in> set vs then 1 else 0)"
  by (induction vs deg rule: count_targets.induct) auto

lemma in_degrees_length:
  "\<forall>(u, vs) \<in> set adj. distinct vs \<Longrightarrow>
     in_degrees adj deg v = deg v + int (length (filter (\<lambda>(u, vs). v \<in> set vs) adj))"
  by (induction adj deg rule: in_degrees.induct) (auto simp: count_targets_distinct)

lemma elim_degrees_preds:
  assumes "adj_ok adj"
  shows "elim_degrees adj v = int (card (open_preds adj [] v))"
proof -
  have d: "distinct (um_keys adj)" and vs: "\<forall>(u, vs) \<in> set adj. distinct vs"
    using assms by (auto simp: adj_ok_def)
  let ?in = "filter (\<lambda>(u, vs). v \<in> set vs) adj"
  have "open_preds adj [] v = fst ` set ?in"
  proof
    show "open_preds adj [] v \<subseteq> fst ` set ?in"
    proof
      fix u
      assume "u \<in> open_preds adj [] v"
      then obtain vs where "map_of adj u = Some vs" "v \<in> set vs"
        by (cases "map_of adj u") (auto simp: open_preds_def um_get_def)
      then have "(u, vs) \<in> set ?in" by (auto dest: map_of_SomeD)
      then show "u \<in> fst ` set ?in" by force
    qed
  next
    show "fst ` set ?in \<subseteq> open_preds adj [] v"
      using d by (auto simp: open_preds_def um_get_def distinct_map_of_iff)
  qed
  moreover have "distinct (map fst ?in)"
    using d by (simp add: um_keys_def distinct_map_filter)
  ultimately have "card (open_preds adj [] v) = length ?in"
    by (metis distinct_card length_map list.set_map)
  with in_degrees_length [OF vs, of "\<lambda>_. 0" v] show ?thesis
    by (simp add: elim_degrees_def)
qed

lemma kahn_inv_start:
  assumes "adj_ok adj"
  shows "kahn_inv adj [] (elim_sources adj) (elim_degrees adj)"
  using assms
  by (auto simp: kahn_inv_def elim_sources_def elim_degrees_preds topological_sort_def adj_ok_def)

text \<open>
  What the searches rely on in the object that provides the adjacency map, and the answers
  they then give.
\<close>

locale adjacency_source =
  fixes adj :: "'g \<Rightarrow> adjacency"
    and verts :: "'g \<Rightarrow> string list"
    and edges :: "'g \<Rightarrow> (string \<times> string) set"
    and invar :: "'g \<Rightarrow> bool"
  assumes adj_ok: "invar g \<Longrightarrow> adj_ok (adj g)"
    and adj_verts: "um_keys (adj g) = verts g"
    and adj_edges: "invar g \<Longrightarrow> adj_edges (adj g) = edges g"
begin

lemma cycle_search: "invar g \<Longrightarrow> dfs_all (adj g) (verts g) (\<lambda>_. White) \<longleftrightarrow> \<not> acyclic (edges g)"
  using dfs_all_iff [of "adj g"] by (simp add: adj_verts adj_edges)

lemma elim_inv: "invar g \<Longrightarrow> \<exists>deg. kahn_inv (adj g) (elim_order (adj g)) [] deg"
  using kahn_result [OF adj_ok kahn_inv_start [OF adj_ok]] by (simp add: elim_order_def)

lemma order_length: "invar g \<Longrightarrow> length (elim_order (adj g)) = length (verts g) \<longleftrightarrow> acyclic (edges g)"
  using elim_inv [of g] kahn_complete_iff(1) [OF adj_ok] by (auto simp: adj_verts adj_edges)

lemma order_sorted:
  "invar g \<Longrightarrow> acyclic (edges g) \<Longrightarrow>
     topological_sort (edges g) (elim_order (adj g)) \<and> set (elim_order (adj g)) = set (verts g)"
  using elim_inv [of g] kahn_complete_iff(2) [OF adj_ok] by (auto simp: adj_verts adj_edges simp del: in_um_keys)

lemma levels_concat: "concat (elim_levels (adj g)) = elim_order (adj g)"
  by (simp add: elim_levels_def elim_order_def concat_level_loop)

lemma levels_strict:
  "invar g \<Longrightarrow> levels_ok (edges g) (elim_levels (adj g)) \<and> (\<forall>L \<in> set (elim_levels (adj g)). L \<noteq> [])"
  using level_loop_ok [of "adj g" "[]" "elim_sources (adj g)" "elim_degrees (adj g)"]
    kahn_inv_start [of "adj g"] adj_ok [of g]
  by (simp add: elim_levels_def adj_edges levels_ok_def)

end

subsection \<open>The adjacency map of a task graph\<close>

lemma adj_push_keys: "map_of adj u \<noteq> None \<Longrightarrow> um_keys (adj_push u v adj) = um_keys adj"
  by (auto simp: adj_push_def um_keys_def update_keys map_of_eq_None_iff)

lemma adj_push_edges: "adj_edges (adj_push u v adj) = insert (u, v) (adj_edges adj)"
  by (auto simp: adj_push_def adj_edges_def split: if_splits)

text \<open>The loops keep this shape of the map: keys unchanged, lists duplicate-free, targets known.\<close>

definition adj_over :: "string list \<Rightarrow> adjacency \<Rightarrow> bool" where
  "adj_over ks adj \<longleftrightarrow> um_keys adj = ks \<and>
     (\<forall>u vs. map_of adj u = Some vs \<longrightarrow> distinct vs \<and> set vs \<subseteq> set ks)"

lemma adj_over_push:
  assumes "adj_over ks adj" "u \<in> set ks" "v \<in> set ks"
  shows "adj_over ks (adj_push u v adj)"
proof -
  from assms obtain us where us: "map_of adj u = Some us"
    by (metis adj_over_def in_um_keys not_None_eq)
  then have push: "map_of (adj_push u v adj) = (map_of adj)(u \<mapsto> push_unique v us)"
    by (simp add: adj_push_def um_get_def)
  have lists: "distinct vs \<and> set vs \<subseteq> set ks" if "map_of adj w = Some vs" for w vs
    using assms(1) that unfolding adj_over_def by blast
  have "um_keys adj = ks"
    using assms(1) unfolding adj_over_def by blast
  then have "um_keys (adj_push u v adj) = ks"
    using us adj_push_keys [of adj u v] by simp
  moreover have "distinct ws \<and> set ws \<subseteq> set ks" if "map_of (adj_push u v adj) w = Some ws" for w ws
  proof (cases "w = u")
    case True
    with that push lists [OF us] assms(3) show ?thesis by (auto simp del: in_um_keys)
  next
    case False
    with that push show ?thesis by (intro lists) simp
  qed
  ultimately show ?thesis
    unfolding adj_over_def by blast
qed

lemma adj_from_dependencies_over:
  assumes "i \<in> set (um_keys m)"
  shows "adj_over (um_keys m) adj \<Longrightarrow> adj_over (um_keys m) (adj_from_dependencies m i ds adj)"
    and "adj_edges (adj_from_dependencies m i ds adj) =
      adj_edges adj \<union> {(d, i) |d. d \<in> set ds \<and> d \<in> set (um_keys m)}"
  using assms
  by (induction m i ds adj rule: adj_from_dependencies.induct) (auto simp: adj_over_push adj_push_edges)

lemma adj_from_dependents_over:
  assumes "i \<in> set (um_keys m)"
  shows "adj_over (um_keys m) adj \<Longrightarrow> adj_over (um_keys m) (adj_from_dependents m i ss adj)"
    and "adj_edges (adj_from_dependents m i ss adj) =
      adj_edges adj \<union> {(i, s) |s. s \<in> set ss \<and> s \<in> set (um_keys m)}"
  using assms
  by (induction m i ss adj rule: adj_from_dependents.induct) (auto simp: adj_over_push adj_push_edges)

lemma adj_from_nodes_over:
  assumes "set (um_keys ns) \<subseteq> set (um_keys m)" "adj_over (um_keys m) adj"
  shows "adj_over (um_keys m) (adj_from_nodes m ns adj)"
    and "adj_edges (adj_from_nodes m ns adj) = adj_edges adj \<union>
      (\<Union>(i, n) \<in> set ns. {(d, i) |d. d \<in> set (dependencies n) \<and> d \<in> set (um_keys m)} \<union>
         {(i, s) |s. s \<in> set (dependents n) \<and> s \<in> set (um_keys m)})"
  using assms
  by (induction m ns adj rule: adj_from_nodes.induct)
    (auto simp: adj_from_dependencies_over adj_from_dependents_over simp del: in_um_keys)

lemma adj_over_start: "adj_over (um_keys m) (map (\<lambda>(i, n). (i, [])) m)"
  by (auto simp: adj_over_def dest!: map_of_SomeD)

lemma adj_edges_start: "adj_edges (map (\<lambda>(i, n). (i, [])) m) = {}"
  by (induction m) (auto simp: adj_edges_def um_get_def split: if_splits)

lemma build_adj_ok:
  assumes "tg_wf g"
  shows "adj_ok (build_adj (nodes g))"
    and "um_keys (build_adj (nodes g)) = node_ids_of g"
    and "adj_edges (build_adj (nodes g)) = tg_edges g"
proof -
  have over: "adj_over (node_ids_of g) (build_adj (nodes g))"
    unfolding build_adj_def by (rule adj_from_nodes_over [OF _ adj_over_start]) simp
  show keys: "um_keys (build_adj (nodes g)) = node_ids_of g"
    using over unfolding adj_over_def by blast
  have dist: "distinct (um_keys (build_adj (nodes g)))"
    using assms keys by (simp add: tg_wf_def)
  have "distinct vs \<and> set vs \<subseteq> set (um_keys (build_adj (nodes g)))"
    if "(u, vs) \<in> set (build_adj (nodes g))" for u vs
    using over that unfolding adj_over_def keys distinct_map_of_iff [OF dist] by blast
  with dist show "adj_ok (build_adj (nodes g))"
    unfolding adj_ok_def by blast
  have "adj_edges (build_adj (nodes g)) =
      (\<Union>(i, n) \<in> set (nodes g). {(d, i) |d. d \<in> set (dependencies n) \<and> d \<in> set (node_ids_of g)} \<union>
         {(i, s) |s. s \<in> set (dependents n) \<and> s \<in> set (node_ids_of g)})"
    unfolding build_adj_def by (subst adj_from_nodes_over(2) [OF _ adj_over_start]) (simp_all add: adj_edges_start)
  also have "\<dots> = tg_edges g"
  proof -
    have mem: "(k, n) \<in> set (nodes g) \<longleftrightarrow> map_of (nodes g) k = Some n" for k n
      using assms by (simp add: tg_wf_def distinct_map_of_iff)
    have "names_dependency (nodes g) a b \<longleftrightarrow> (\<exists>n. (b, n) \<in> set (nodes g) \<and> a \<in> set (dependencies n))"
      "names_dependent (nodes g) a b \<longleftrightarrow> (\<exists>n. (a, n) \<in> set (nodes g) \<and> b \<in> set (dependents n))" for a b
      by (auto simp: names_dependency_def names_dependent_def mem split: option.splits)
    moreover have "(k, n) \<in> set (nodes g) \<Longrightarrow> k \<in> set (node_ids_of g)" for k n
      by (simp add: mem)
    ultimately show ?thesis
      unfolding tg_edges_def by (auto simp del: in_um_keys)
  qed
  finally show "adj_edges (build_adj (nodes g)) = tg_edges g" .
qed

lemma build_adj_keys: "um_keys (build_adj (nodes g)) = node_ids_of g"
  using adj_from_nodes_over(1) [OF _ adj_over_start, of "nodes g" "nodes g"]
  by (simp add: build_adj_def adj_over_def)

interpretation tg: adjacency_source "\<lambda>g. build_adj (nodes g)" node_ids_of tg_edges tg_wf
  by unfold_locales (rule build_adj_ok build_adj_keys; assumption)+

lemma no_nodes_no_edges: "nodes g = [] \<Longrightarrow> tg_edges g = {}"
  by (simp add: tg_edges_def)

lemma hasCycle_cyclic: "tg_wf g \<Longrightarrow> hasCycle g \<longleftrightarrow> \<not> acyclic (tg_edges g)"
  using no_nodes_no_edges [of g] by (auto simp: hasCycle_def tg.cycle_search acyclic_def)

lemma topological_order_empty_iff:
  assumes "tg_wf g" "nodes g \<noteq> []"
  shows "getTopologicalOrder g = [] \<longleftrightarrow> hasCycle g"
  using tg.order_length [OF assms(1)] assms
  by (auto simp: getTopologicalOrder_def hasCycle_cyclic Let_def)

lemma topological_order_sorted:
  assumes "tg_wf g" "\<not> hasCycle g"
  shows "topological_sort (tg_edges g) (getTopologicalOrder g) \<and>
    set (getTopologicalOrder g) = set (node_ids_of g)"
  using tg.order_length [OF assms(1)] tg.order_sorted [OF assms(1)] assms
  by (auto simp: getTopologicalOrder_def hasCycle_cyclic Let_def topological_sort_def)

lemma execution_levels_strict:
  assumes "tg_wf g"
  shows "levels_ok (tg_edges g) (getExecutionLevels g) \<and> (\<forall>L \<in> set (getExecutionLevels g). L \<noteq> [])"
  using tg.levels_strict [OF assms] by (auto simp: getExecutionLevels_def levels_ok_def)

lemma execution_levels_concat:
  assumes "tg_wf g" "\<not> hasCycle g"
  shows "concat (getExecutionLevels g) = getTopologicalOrder g"
  using tg.order_length [OF assms(1)] assms tg.levels_concat [of g]
  by (auto simp: getTopologicalOrder_def getExecutionLevels_def hasCycle_cyclic Let_def)

end
