(* ===== verification/Task_Executor.thy ===== *)
theory Task_Executor
  imports Task_Order
begin

text \<open>
  \<open>TaskGraphExecutor\<close> of \<open>src/src/taskgraph/taskgraph.cpp\<close>: \<open>execute\<close> flattens the graph into
  an index-based adjacency with in-degree counters (\<open>link_nodes\<close>, \<open>exec_init\<close>) and starts
  worker threads that run \<open>workerLoop\<close>, \<open>processNode\<close> and \<open>invalidateDownstream\<close> on shared
  state.

  The threads are modelled as a step system. A worker's program point is a \<open>worker_pc\<close>; one
  action moves one worker from a shared-memory access to the next, so a list of actions is one
  interleaving. A section under \<open>queue_mutex_\<close> is one step, and so is every
  \<open>fetch_sub\<close> or \<open>compare_exchange\<close> whose result decides a branch. Stores of one worker that no
  branch of another worker reads (a node's result, its error text, the counters) are taken
  together with the store of that node's state. A waiting worker (\<open>cv_.wait\<close>) is enabled exactly
  when its predicate holds, so a lost wake-up is outside the model. The handler is user code:
  what it returns, and what it leaves in the node it is given by reference, is part of the
  action, so every property holds for every handler.

  Counters that the code decrements are 32-bit words, as in the code.
\<close>

subsection \<open>Configuration and context\<close>

record TaskExecutionResult =
  er_success :: bool
  er_output :: string
  er_error :: string

record TaskGraphExecutorConfig =
  max_concurrency :: nat
  rollback_on_node_failure :: bool
  has_handler :: bool

record exec_ctx =
  cx_config :: TaskGraphExecutorConfig
  cx_ids :: "string list"
  cx_adj :: "nat \<Rightarrow> nat list"

text \<open>\<open>id_to_index[task_nodes[i].id] = i\<close>, for each node in order.\<close>

fun index_ids :: "nat \<Rightarrow> TaskNode list \<Rightarrow> (string, nat) umap \<Rightarrow> (string, nat) umap" where
  "index_ids i [] m = m"
| "index_ids i (n # ns) m = index_ids (Suc i) ns (AList.update (tn_id n) i m)"

type_synonym links = "(nat \<Rightarrow> nat list) \<times> (nat \<Rightarrow> 32 word)"

definition link_edge :: "nat \<Rightarrow> nat \<Rightarrow> links \<Rightarrow> links" where
  "link_edge a b l = (case l of (adj, deg) \<Rightarrow>
     if b \<in> set (adj a) then (adj, deg)
     else (adj(a := adj a @ [b]), deg(b := deg b + 1)))"

fun link_dependencies :: "(string, nat) umap \<Rightarrow> nat \<Rightarrow> string list \<Rightarrow> links \<Rightarrow> links" where
  "link_dependencies ix i [] l = l"
| "link_dependencies ix i (d # ds) l =
     link_dependencies ix i ds (case map_of ix d of None \<Rightarrow> l | Some j \<Rightarrow> link_edge j i l)"

fun link_dependents :: "(string, nat) umap \<Rightarrow> nat \<Rightarrow> string list \<Rightarrow> links \<Rightarrow> links" where
  "link_dependents ix i [] l = l"
| "link_dependents ix i (s # ss) l =
     link_dependents ix i ss (case map_of ix s of None \<Rightarrow> l | Some j \<Rightarrow> link_edge i j l)"

fun link_nodes :: "(string, nat) umap \<Rightarrow> nat \<Rightarrow> TaskNode list \<Rightarrow> links \<Rightarrow> links" where
  "link_nodes ix i [] l = l"
| "link_nodes ix i (n # ns) l =
     link_nodes ix (Suc i) ns
       (link_dependents ix i (dependents n) (link_dependencies ix i (dependencies n) l))"

definition links_of :: "TaskNode list \<Rightarrow> links" where
  "links_of ns = link_nodes (index_ids 0 ns []) 0 ns (\<lambda>_. [], \<lambda>_. 0)"

definition exec_context :: "TaskGraphExecutorConfig \<Rightarrow> TaskNode list \<Rightarrow> exec_ctx" where
  "exec_context c ns = \<lparr>cx_config = c, cx_ids = map tn_id ns, cx_adj = fst (links_of ns)\<rparr>"

abbreviation cx_n :: "exec_ctx \<Rightarrow> nat" where
  "cx_n x \<equiv> length (cx_ids x)"

text \<open>\<open>std::min(config_.max_concurrency, n)\<close>, and one worker when that is zero.\<close>

definition num_workers :: "exec_ctx \<Rightarrow> nat" where
  "num_workers x =
     (let k = min (max_concurrency (cx_config x)) (cx_n x) in if k = 0 then 1 else k)"

subsection \<open>Shared state\<close>

text \<open>
  Where a worker is. \<open>WResolve p todo newly\<close>: in the loop over \<open>ctx.adj[p]\<close> after \<open>p\<close>
  completed; \<open>WCas p s todo newly\<close>: its \<open>fetch_sub\<close> on \<open>s\<close> returned 1 and the
  \<open>compare_exchange\<close> is next; \<open>WInvalidate f todo\<close>: in the loop of \<open>invalidateDownstream\<close> with
  the queue \<open>todo\<close>; \<open>WSkipCas f c seen todo\<close>: it has loaded the state \<open>seen\<close> of \<open>c\<close>;
  \<open>WRelease\<close>: about to decrement \<open>active_workers_\<close>.
\<close>

datatype worker_pc =
    WIdle
  | WPopped nat
  | WStart nat
  | WRunning nat
  | WResolve nat "nat list" "nat list"
  | WCas nat nat "nat list" "nat list"
  | WPush "nat list"
  | WRequeue nat
  | WInvalidate nat "nat list"
  | WSkipCas nat nat TaskNodeState "nat list"
  | WRelease
  | WExit

record exec_state =
  es_state :: "nat \<Rightarrow> TaskNodeState"
  es_rem :: "nat \<Rightarrow> 32 word"
  es_retry :: "nat \<Rightarrow> int"
  es_output :: "nat \<Rightarrow> string"
  es_error :: "nat \<Rightarrow> string"
  es_time :: "nat \<Rightarrow> int"
  es_node :: "nat \<Rightarrow> TaskNode"
  es_queue :: "nat list"
  es_active :: nat
  es_cancelled :: bool
  es_completed :: nat
  es_failed :: nat
  es_skipped :: nat
  es_errors :: "string list"
  es_log :: "(string \<times> TaskNodeState \<times> TaskNodeState) list"
  es_pc :: "nat \<Rightarrow> worker_pc"

definition es_goto :: "nat \<Rightarrow> worker_pc \<Rightarrow> exec_state \<Rightarrow> exec_state" where
  "es_goto w p s = s\<lparr>es_pc := (es_pc s)(w := p)\<rparr>"

text \<open>
  A node enters a state: the atomic, the copy in \<open>task_nodes\<close> and the callback, which is
  recorded in \<open>es_log\<close> with the arguments it is called with.
\<close>

definition es_enter :: "exec_ctx \<Rightarrow> nat \<Rightarrow> TaskNodeState \<Rightarrow> TaskNodeState \<Rightarrow> exec_state \<Rightarrow> exec_state" where
  "es_enter x i old new s =
     s\<lparr>es_state := (es_state s)(i := new),
       es_node := (es_node s)(i := (es_node s i)\<lparr>tn_state := new\<rparr>),
       es_log := es_log s @ [(cx_ids x ! i, old, new)]\<rparr>"

text \<open>The state when \<open>execute\<close> has filled the ready queue and launched the workers.\<close>

definition exec_init :: "exec_ctx \<Rightarrow> TaskNode list \<Rightarrow> exec_state" where
  "exec_init x ns =
     (let deg = snd (links_of ns);
          ready = filter (\<lambda>i. deg i = 0) [0..<length ns]
      in \<lparr>es_state = (\<lambda>i. if i \<in> set ready then Ready else Pending),
          es_rem = deg,
          es_retry = (\<lambda>i. tn_retry_count (ns ! i)),
          es_output = (\<lambda>_. []), es_error = (\<lambda>_. []), es_time = (\<lambda>_. 0),
          es_node = (\<lambda>i. if i \<in> set ready then (ns ! i)\<lparr>tn_state := Ready\<rparr> else ns ! i),
          es_queue = ready, es_active = 0, es_cancelled = False,
          es_completed = 0, es_failed = 0, es_skipped = 0, es_errors = [],
          es_log = map (\<lambda>i. (cx_ids x ! i, Pending, Ready)) ready,
          es_pc = (\<lambda>_. WIdle)\<rparr>)"

subsection \<open>The steps of a worker\<close>

text \<open>The head of \<open>workerLoop\<close>: test \<open>cancelled_\<close>, wait, and pop under \<open>queue_mutex_\<close>.\<close>

definition step_idle :: "nat \<Rightarrow> exec_state \<Rightarrow> exec_state option" where
  "step_idle w s =
     (if es_cancelled s then Some (es_goto w WExit s)
      else case es_queue s of
          [] \<Rightarrow> if es_active s = 0 then Some (es_goto w WExit s) else None
        | i # q \<Rightarrow> Some (es_goto w (WPopped i) (s\<lparr>es_queue := q, es_active := es_active s + 1\<rparr>)))"

text \<open>\<open>workerLoop\<close> skips a node that was invalidated while it was queued.\<close>

definition step_popped :: "nat \<Rightarrow> nat \<Rightarrow> exec_state \<Rightarrow> exec_state" where
  "step_popped w i s = es_goto w (if es_state s i = Skipped then WRelease else WStart i) s"

text \<open>\<open>processNode\<close> up to the call of the handler.\<close>

definition step_start :: "exec_ctx \<Rightarrow> nat \<Rightarrow> nat \<Rightarrow> exec_state \<Rightarrow> exec_state" where
  "step_start x w i s = es_goto w (WRunning i) (es_enter x i (es_state s i) Running s)"

definition default_result :: "TaskNode \<Rightarrow> TaskExecutionResult" where
  "default_result n = \<lparr>er_success = True,
     er_output = ''Default handler success for '' @ tn_title n, er_error = []\<rparr>"

text \<open>
  The handler has returned \<open>res\<close>, left \<open>node\<close> in the reference it was given and taken
  \<open>dur\<close> milliseconds.
\<close>

definition step_return_success ::
  "exec_ctx \<Rightarrow> nat \<Rightarrow> nat \<Rightarrow> TaskExecutionResult \<Rightarrow> exec_state \<Rightarrow> exec_state" where
  "step_return_success x w i res s =
     es_goto w (WResolve i (cx_adj x i) [])
       (es_enter x i Running Completed
         (s\<lparr>es_output := (es_output s)(i := er_output res),
            es_node := (es_node s)(i := (es_node s i)\<lparr>output_data := er_output res\<rparr>),
            es_completed := es_completed s + 1\<rparr>))"

definition step_return_failure ::
  "exec_ctx \<Rightarrow> nat \<Rightarrow> nat \<Rightarrow> TaskExecutionResult \<Rightarrow> exec_state \<Rightarrow> exec_state" where
  "step_return_failure x w i res s =
     (let r = es_retry s i + 1;
          s1 = s\<lparr>es_retry := (es_retry s)(i := r),
                 es_node := (es_node s)(i := (es_node s i)\<lparr>tn_retry_count := r\<rparr>)\<rparr>
      in if r \<le> tn_max_retries (es_node s1 i)
         then es_goto w (WRequeue i)
           (s1\<lparr>es_state := (es_state s1)(i := Ready),
               es_node := (es_node s1)(i := (es_node s1 i)\<lparr>tn_state := Ready\<rparr>)\<rparr>)
         else es_goto w
           (if rollback_on_node_failure (cx_config x) then WInvalidate i (cx_adj x i) else WRelease)
           (es_enter x i Running Failed
             (s1\<lparr>es_error := (es_error s1)(i := er_error res),
                 es_node := (es_node s1)(i := (es_node s1 i)\<lparr>tn_error_message := er_error res\<rparr>),
                 es_failed := es_failed s1 + 1,
                 es_errors := es_errors s1 @
                   [''Node ['' @ (cx_ids x ! i) @ ''] failed: '' @ er_error res]\<rparr>)))"

definition step_return ::
  "exec_ctx \<Rightarrow> nat \<Rightarrow> nat \<Rightarrow> TaskExecutionResult \<Rightarrow> TaskNode \<Rightarrow> int \<Rightarrow> exec_state \<Rightarrow> exec_state" where
  "step_return x w i res node dur s =
     (let s0 = s\<lparr>es_time := (es_time s)(i := dur),
                 es_node := (es_node s)(i := node\<lparr>execution_time := dur\<rparr>)\<rparr>
      in if er_success res then step_return_success x w i res s0
         else step_return_failure x w i res s0)"

text \<open>One successor of a completed node: \<open>fetch_sub\<close>, then the \<open>compare_exchange\<close> to Ready.\<close>

definition step_resolve :: "nat \<Rightarrow> nat \<Rightarrow> nat \<Rightarrow> nat list \<Rightarrow> nat list \<Rightarrow> exec_state \<Rightarrow> exec_state" where
  "step_resolve w p j todo newly s =
     es_goto w (if es_rem s j = 1 then WCas p j todo newly else WResolve p todo newly)
       (s\<lparr>es_rem := (es_rem s)(j := es_rem s j - 1)\<rparr>)"

definition step_cas ::
  "exec_ctx \<Rightarrow> nat \<Rightarrow> nat \<Rightarrow> nat \<Rightarrow> nat list \<Rightarrow> nat list \<Rightarrow> exec_state \<Rightarrow> exec_state" where
  "step_cas x w p j todo newly s =
     (if es_state s j = Pending
      then es_goto w (WResolve p todo (newly @ [j])) (es_enter x j Pending Ready s)
      else es_goto w (WResolve p todo newly) s)"

definition step_push :: "nat \<Rightarrow> nat list \<Rightarrow> exec_state \<Rightarrow> exec_state" where
  "step_push w newly s = es_goto w WRelease (s\<lparr>es_queue := es_queue s @ newly\<rparr>)"

text \<open>One turn of the loop of \<open>invalidateDownstream\<close>: load, then \<open>compare_exchange\<close> to Skipped.\<close>

definition step_invalidate :: "nat \<Rightarrow> nat \<Rightarrow> nat \<Rightarrow> nat list \<Rightarrow> exec_state \<Rightarrow> exec_state" where
  "step_invalidate w f c todo s =
     (let st = es_state s c
      in es_goto w (if st \<noteq> Skipped \<and> st \<noteq> Completed \<and> st \<noteq> Failed
                    then WSkipCas f c st todo else WInvalidate f todo) s)"

definition step_skip ::
  "exec_ctx \<Rightarrow> nat \<Rightarrow> nat \<Rightarrow> nat \<Rightarrow> TaskNodeState \<Rightarrow> nat list \<Rightarrow> exec_state \<Rightarrow> exec_state" where
  "step_skip x w f c seen todo s =
     (if es_state s c = seen
      then let msg = ''Skipped due to upstream failure in '' @ (cx_ids x ! f)
           in es_goto w (WInvalidate f (todo @ cx_adj x c))
             (es_enter x c seen Skipped
               (s\<lparr>es_node := (es_node s)(c := (es_node s c)\<lparr>tn_error_message := msg\<rparr>),
                  es_error := (es_error s)(c := msg),
                  es_skipped := es_skipped s + 1\<rparr>))
      else es_goto w (WInvalidate f todo) s)"

definition step_release :: "nat \<Rightarrow> exec_state \<Rightarrow> exec_state" where
  "step_release w s = es_goto w WIdle (s\<lparr>es_active := es_active s - 1\<rparr>)"

text \<open>Without a handler the result is a success and the node is left as it is.\<close>

definition handler_outcome ::
  "exec_ctx \<Rightarrow> nat \<Rightarrow> TaskExecutionResult \<Rightarrow> TaskNode \<Rightarrow> exec_state \<Rightarrow> TaskExecutionResult \<times> TaskNode" where
  "handler_outcome x i res node s =
     (if has_handler (cx_config x) then (res, node)
      else (default_result (es_node s i), es_node s i))"

text \<open>
  An action: worker \<open>w\<close> makes its next step; the handler that worker \<open>w\<close> called returns; some
  other thread calls \<open>cancel()\<close>.
\<close>

datatype exec_action =
    Work nat
  | Return nat TaskExecutionResult TaskNode int
  | Cancel

fun worker_step :: "exec_ctx \<Rightarrow> nat \<Rightarrow> worker_pc \<Rightarrow> exec_state \<Rightarrow> exec_state option" where
  "worker_step x w WIdle s = step_idle w s"
| "worker_step x w (WPopped i) s = Some (step_popped w i s)"
| "worker_step x w (WStart i) s = Some (step_start x w i s)"
| "worker_step x w (WRunning i) s = None"
| "worker_step x w (WResolve p [] newly) s =
     Some (es_goto w (if newly = [] then WRelease else WPush newly) s)"
| "worker_step x w (WResolve p (j # todo) newly) s = Some (step_resolve w p j todo newly s)"
| "worker_step x w (WCas p j todo newly) s = Some (step_cas x w p j todo newly s)"
| "worker_step x w (WPush newly) s = Some (step_push w newly s)"
| "worker_step x w (WRequeue i) s = Some (step_push w [i] s)"
| "worker_step x w (WInvalidate f []) s = Some (es_goto w WRelease s)"
| "worker_step x w (WInvalidate f (c # todo)) s = Some (step_invalidate w f c todo s)"
| "worker_step x w (WSkipCas f c seen todo) s = Some (step_skip x w f c seen todo s)"
| "worker_step x w WRelease s = Some (step_release w s)"
| "worker_step x w WExit s = None"

fun exec_step :: "exec_ctx \<Rightarrow> exec_action \<Rightarrow> exec_state \<Rightarrow> exec_state option" where
  "exec_step x (Work w) s =
     (if w < num_workers x then worker_step x w (es_pc s w) s else None)"
| "exec_step x (Return w res node dur) s =
     (if w < num_workers x then
        (case es_pc s w of
           WRunning i \<Rightarrow> (case handler_outcome x i res node s of
             (res', node') \<Rightarrow> Some (step_return x w i res' node' dur s))
         | _ \<Rightarrow> None)
      else None)"
| "exec_step x Cancel s = Some (s\<lparr>es_cancelled := True\<rparr>)"

definition exec_finished :: "exec_ctx \<Rightarrow> exec_state \<Rightarrow> bool" where
  "exec_finished x s \<longleftrightarrow> (\<forall>w < num_workers x. es_pc s w = WExit)"

subsection \<open>Entering and leaving execute\<close>

record TaskGraphExecutionSummary =
  sm_success :: bool
  sm_total :: nat
  sm_completed :: nat
  sm_failed :: nat
  sm_skipped :: nat
  sm_errors :: "string list"

datatype exec_entry =
    Returned TaskGraphExecutionSummary
  | Launched exec_ctx exec_state

text \<open>\<open>execute\<close> up to the launch: the two early returns, or a running system.\<close>

definition execute_entry :: "TaskGraphExecutorConfig \<Rightarrow> TaskGraph \<Rightarrow> exec_entry" where
  "execute_entry c g =
     (let sm = \<lparr>sm_success = False, sm_total = tg_size g, sm_completed = 0, sm_failed = 0,
                 sm_skipped = 0, sm_errors = []\<rparr>
      in if tg_empty g then Returned (sm\<lparr>sm_success := True\<rparr>)
         else if hasCycle g then
           Returned (sm\<lparr>sm_errors := [''TaskGraph contains a cyclic dependency!'']\<rparr>)
         else let x = exec_context c (getAllNodes g)
              in Launched x (exec_init x (getAllNodes g)))"

text \<open>\<open>execute\<close> after the workers are joined: the summary and the write-back to the graph.\<close>

definition execute_summary :: "exec_ctx \<Rightarrow> exec_state \<Rightarrow> TaskGraphExecutionSummary" where
  "execute_summary x s = \<lparr>
     sm_success = (es_failed s = 0 \<and> es_completed s + es_skipped s = cx_n x \<and> \<not> es_cancelled s),
     sm_total = cx_n x, sm_completed = es_completed s, sm_failed = es_failed s,
     sm_skipped = es_skipped s, sm_errors = es_errors s\<rparr>"

definition sync_node :: "exec_state \<Rightarrow> nat \<Rightarrow> TaskNode \<Rightarrow> TaskNode" where
  "sync_node s i n = n\<lparr>tn_state := es_state s i, output_data := es_output s i,
     tn_error_message := es_error s i, tn_retry_count := es_retry s i, execution_time := es_time s i\<rparr>"

fun sync_back :: "exec_state \<Rightarrow> nat \<Rightarrow> string list \<Rightarrow> (string, TaskNode) umap \<Rightarrow> (string, TaskNode) umap" where
  "sync_back s i [] m = m"
| "sync_back s i (k # ks) m = sync_back s (Suc i) ks (AList.map_entry k (sync_node s i) m)"

end
