(* ===== verification/Executor_Invariant.thy ===== *)
theory Executor_Invariant
  imports Task_Executor
begin

text \<open>
  The invariant of the executor's threads, and that every step keeps it.

  For a node \<open>j\<close>, \<open>undone\<close> is the set of its prerequisites that have not completed, or have
  completed but whose worker has not yet decremented \<open>j\<close>'s counter: the counter is its
  cardinality. A \<open>token\<close> is a right to run a node: an occurrence in the ready queue or in the
  local variables of one worker. A node has exactly one token while it is Ready or Running
  (or is about to become Ready), and none otherwise, so no node is run by two workers.
\<close>

subsection \<open>The pieces of the invariant\<close>

definition ctx_edges :: "exec_ctx \<Rightarrow> (nat \<times> nat) set" where
  "ctx_edges x = {(i, j). j \<in> set (cx_adj x i)}"

definition ctx_ok :: "exec_ctx \<Rightarrow> bool" where
  "ctx_ok x \<longleftrightarrow> (\<forall>i. distinct (cx_adj x i)) \<and>
     (\<forall>i j. j \<in> set (cx_adj x i) \<longrightarrow> i < cx_n x \<and> j < cx_n x) \<and>
     acyclic (ctx_edges x) \<and> cx_n x < 2 ^ 32"

definition preds :: "exec_ctx \<Rightarrow> nat \<Rightarrow> nat set" where
  "preds x j = {i. j \<in> set (cx_adj x i)}"

fun owes :: "worker_pc \<Rightarrow> nat \<Rightarrow> nat \<Rightarrow> bool" where
  "owes (WResolve p todo newly) i j = (i = p \<and> j \<in> set todo)"
| "owes (WCas p c todo newly) i j = (i = p \<and> j \<in> set todo)"
| "owes _ i j = False"

fun resolves :: "worker_pc \<Rightarrow> nat \<Rightarrow> bool" where
  "resolves (WResolve p todo newly) i = (i = p)"
| "resolves (WCas p c todo newly) i = (i = p)"
| "resolves _ i = False"

fun will_skip :: "worker_pc \<Rightarrow> nat \<Rightarrow> bool" where
  "will_skip (WInvalidate f todo) j = (j \<in> set todo)"
| "will_skip (WSkipCas f c seen todo) j = (j = c \<or> j \<in> set todo)"
| "will_skip _ j = False"

fun tok :: "worker_pc \<Rightarrow> nat list" where
  "tok (WPopped i) = [i]"
| "tok (WStart i) = [i]"
| "tok (WRunning i) = [i]"
| "tok (WResolve p todo newly) = newly"
| "tok (WCas p j todo newly) = j # newly"
| "tok (WPush newly) = newly"
| "tok (WRequeue i) = [i]"
| "tok _ = []"

fun busy :: "worker_pc \<Rightarrow> nat" where
  "busy WIdle = 0"
| "busy WExit = 0"
| "busy _ = 1"

definition undone :: "exec_ctx \<Rightarrow> exec_state \<Rightarrow> nat \<Rightarrow> nat set" where
  "undone x s j = {i \<in> preds x j. es_state s i \<noteq> Completed \<or> (\<exists>w < num_workers x. owes (es_pc s w) i j)}"

definition blocked :: "exec_ctx \<Rightarrow> (nat \<Rightarrow> TaskNodeState) \<Rightarrow> nat \<Rightarrow> bool" where
  "blocked x st j \<longleftrightarrow> (\<exists>i \<in> preds x j. st i = Failed \<or> st i = Skipped)"

definition runnable :: "exec_ctx \<Rightarrow> (nat \<Rightarrow> TaskNodeState) \<Rightarrow> nat \<Rightarrow> bool" where
  "runnable x st i \<longleftrightarrow> i < cx_n x \<and> st i = Ready"

fun pc_ok :: "exec_ctx \<Rightarrow> (nat \<Rightarrow> TaskNodeState) \<Rightarrow> worker_pc \<Rightarrow> bool" where
  "pc_ok x st (WPopped i) = runnable x st i"
| "pc_ok x st (WStart i) = runnable x st i"
| "pc_ok x st (WRunning i) = (i < cx_n x \<and> st i = Running)"
| "pc_ok x st (WResolve p todo newly) =
     (p < cx_n x \<and> st p = Completed \<and> distinct todo \<and> set todo \<subseteq> set (cx_adj x p) \<and>
      (\<forall>i \<in> set newly. runnable x st i))"
| "pc_ok x st (WCas p j todo newly) =
     (p < cx_n x \<and> st p = Completed \<and> distinct (j # todo) \<and> set (j # todo) \<subseteq> set (cx_adj x p) \<and>
      st j = Pending \<and> (\<forall>i \<in> set newly. runnable x st i))"
| "pc_ok x st (WPush newly) = (\<forall>i \<in> set newly. runnable x st i)"
| "pc_ok x st (WRequeue i) = runnable x st i"
| "pc_ok x st (WInvalidate f todo) = (f < cx_n x \<and> (\<forall>j \<in> set todo. j < cx_n x \<and> blocked x st j))"
| "pc_ok x st (WSkipCas f c seen todo) =
     (f < cx_n x \<and> seen = Pending \<and> (\<forall>j \<in> set (c # todo). j < cx_n x \<and> blocked x st j))"
| "pc_ok x st _ = True"

definition tokens :: "exec_ctx \<Rightarrow> exec_state \<Rightarrow> nat \<Rightarrow> nat" where
  "tokens x s j = count_list (es_queue s) j + (\<Sum>w < num_workers x. count_list (tok (es_pc s w)) j)"

definition due :: "exec_ctx \<Rightarrow> exec_state \<Rightarrow> nat \<Rightarrow> bool" where
  "due x s j \<longleftrightarrow> es_state s j = Ready \<or> es_state s j = Running \<or>
     (es_state s j = Pending \<and> undone x s j = {})"

definition in_state :: "exec_ctx \<Rightarrow> exec_state \<Rightarrow> TaskNodeState \<Rightarrow> nat set" where
  "in_state x s v = {i. i < cx_n x \<and> es_state s i = v}"

definition inv_pcs :: "exec_ctx \<Rightarrow> exec_state \<Rightarrow> bool" where
  "inv_pcs x s \<longleftrightarrow> (\<forall>w < num_workers x. pc_ok x (es_state s) (es_pc s w))"

definition inv_queue :: "exec_ctx \<Rightarrow> exec_state \<Rightarrow> bool" where
  "inv_queue x s \<longleftrightarrow> (\<forall>i \<in> set (es_queue s). runnable x (es_state s) i)"

definition inv_tokens :: "exec_ctx \<Rightarrow> exec_state \<Rightarrow> bool" where
  "inv_tokens x s \<longleftrightarrow> (\<forall>j < cx_n x. tokens x s j = (if due x s j then 1 else 0))"

definition inv_deps :: "exec_ctx \<Rightarrow> exec_state \<Rightarrow> bool" where
  "inv_deps x s \<longleftrightarrow> (\<forall>j < cx_n x. es_state s j \<noteq> RolledBack \<and>
     (es_state s j = Skipped \<longrightarrow> blocked x (es_state s) j) \<and>
     (es_state s j \<noteq> Pending \<and> es_state s j \<noteq> Skipped \<longrightarrow> undone x s j = {}))"

definition inv_rem :: "exec_ctx \<Rightarrow> exec_state \<Rightarrow> bool" where
  "inv_rem x s \<longleftrightarrow> (\<forall>j < cx_n x. es_rem s j = of_nat (card (undone x s j)))"

definition inv_resolver :: "exec_ctx \<Rightarrow> exec_state \<Rightarrow> bool" where
  "inv_resolver x s \<longleftrightarrow> (\<forall>w < num_workers x. \<forall>w' < num_workers x. \<forall>p.
     resolves (es_pc s w) p \<and> resolves (es_pc s w') p \<longrightarrow> w = w')"

definition inv_counts :: "exec_ctx \<Rightarrow> exec_state \<Rightarrow> bool" where
  "inv_counts x s \<longleftrightarrow> es_completed s = card (in_state x s Completed) \<and>
     es_failed s = card (in_state x s Failed) \<and> es_skipped s = card (in_state x s Skipped)"

definition inv_active :: "exec_ctx \<Rightarrow> exec_state \<Rightarrow> bool" where
  "inv_active x s \<longleftrightarrow> es_active s = (\<Sum>w < num_workers x. busy (es_pc s w))"

definition inv_exit :: "exec_ctx \<Rightarrow> exec_state \<Rightarrow> bool" where
  "inv_exit x s \<longleftrightarrow> (\<not> es_cancelled s \<longrightarrow> (\<exists>w < num_workers x. es_pc s w = WExit) \<longrightarrow>
     es_queue s = [] \<and> es_active s = 0)"

definition inv_rollback :: "exec_ctx \<Rightarrow> exec_state \<Rightarrow> bool" where
  "inv_rollback x s \<longleftrightarrow> (rollback_on_node_failure (cx_config x) \<longrightarrow>
     (\<forall>j < cx_n x. blocked x (es_state s) j \<longrightarrow>
        es_state s j \<noteq> Pending \<or> (\<exists>w < num_workers x. will_skip (es_pc s w) j)))"

definition exec_inv :: "exec_ctx \<Rightarrow> exec_state \<Rightarrow> bool" where
  "exec_inv x s \<longleftrightarrow> inv_pcs x s \<and> inv_queue x s \<and> inv_tokens x s \<and> inv_deps x s \<and> inv_rem x s \<and>
     inv_resolver x s \<and> inv_counts x s \<and> inv_active x s \<and> inv_exit x s \<and> inv_rollback x s"

lemmas inv_defs = inv_pcs_def inv_queue_def inv_tokens_def inv_deps_def inv_rem_def
  inv_resolver_def inv_counts_def inv_active_def inv_exit_def inv_rollback_def

subsection \<open>Consequences used by the step lemmas\<close>

lemma finite_preds: "ctx_ok x \<Longrightarrow> finite (preds x j)"
  by (rule finite_subset [of _ "{..<cx_n x}"]) (auto simp: preds_def ctx_ok_def)

lemma finite_undone: "ctx_ok x \<Longrightarrow> finite (undone x s j)"
  by (rule finite_subset [OF _ finite_preds]) (auto simp: undone_def)

lemma card_undone_less: "ctx_ok x \<Longrightarrow> card (undone x s j) < 2 ^ 32"
proof -
  assume ok: "ctx_ok x"
  have "undone x s j \<subseteq> {..<cx_n x}"
    using ok by (auto simp: undone_def preds_def ctx_ok_def)
  then have "card (undone x s j) \<le> cx_n x"
    using card_mono [of "{..<cx_n x}"] by simp
  with ok show ?thesis by (simp add: ctx_ok_def)
qed

lemma blocked_undone: "blocked x (es_state s) j \<Longrightarrow> undone x s j \<noteq> {}"
  by (auto simp: blocked_def undone_def)

lemma blocked_mono:
  "blocked x st j \<Longrightarrow> (\<And>i. st i = Failed \<or> st i = Skipped \<Longrightarrow> st' i = st i) \<Longrightarrow> blocked x st' j"
  by (metis blocked_def)

text \<open>A worker's program point survives a change of a node it holds no token of.\<close>

lemma pc_ok_frame:
  assumes "pc_ok x st p" "k \<notin> set (tok p)" "st k \<notin> {Completed, Failed, Skipped}"
  shows "pc_ok x (st(k := v)) p"
proof -
  have b: "blocked x st j \<Longrightarrow> blocked x (st(k := v)) j" for j
    by (erule blocked_mono) (use assms(3) in auto)
  show ?thesis
    using assms b by (cases p) (auto simp: runnable_def)
qed

lemma tokens_split:
  assumes "w < num_workers x"
  shows "tokens x s j = count_list (es_queue s) j + count_list (tok (es_pc s w)) j +
    (\<Sum>w' \<in> {..<num_workers x} - {w}. count_list (tok (es_pc s w')) j)"
  using assms by (simp add: tokens_def sum.remove [of _ w])

lemma token_unique:
  assumes inv: "inv_tokens x s" and w: "w < num_workers x" and k: "k \<in> set (tok (es_pc s w))" "k < cx_n x"
  shows "k \<notin> set (es_queue s)"
    and "w' < num_workers x \<Longrightarrow> w' \<noteq> w \<Longrightarrow> k \<notin> set (tok (es_pc s w'))"
    and "due x s k"
proof -
  let ?rest = "\<Sum>w' \<in> {..<num_workers x} - {w}. count_list (tok (es_pc s w')) k"
  have pos: "count_list (tok (es_pc s w)) k \<ge> 1"
    using k(1) count_list_0_iff [of "tok (es_pc s w)" k] by linarith
  have le: "tokens x s k \<le> 1" and du: "tokens x s k \<noteq> 0 \<Longrightarrow> due x s k"
    using inv k(2) by (auto simp: inv_tokens_def split: if_splits)
  have z: "count_list (es_queue s) k = 0" "?rest = 0"
    using pos le tokens_split [OF w, of s k] by linarith+
  have d: "due x s k"
    using pos tokens_split [OF w, of s k] by (intro du) linarith
  from z(1) show "k \<notin> set (es_queue s)" by (simp add: count_list_0_iff)
  show "k \<notin> set (tok (es_pc s w'))" if "w' < num_workers x" "w' \<noteq> w"
    using z(2) that by (auto simp: count_list_0_iff)
  show "due x s k" by (rule d)
qed

lemma no_token:
  assumes "inv_tokens x s" "k < cx_n x" "\<not> due x s k"
  shows "k \<notin> set (es_queue s)" and "w < num_workers x \<Longrightarrow> k \<notin> set (tok (es_pc s w))"
  using assms
  by (auto simp: inv_tokens_def tokens_def count_list_0_iff)

lemma tokens_update:
  assumes "w < num_workers x" "es_pc s' = (es_pc s)(w := p)"
  shows "tokens x s' j + count_list (es_queue s) j + count_list (tok (es_pc s w)) j =
    tokens x s j + count_list (es_queue s') j + count_list (tok p) j"
  using sum_fun_upd [of "{..<num_workers x}" w "\<lambda>p. count_list (tok p) j" "es_pc s" p] assms
  by (simp add: tokens_def)

lemma busy_update:
  assumes "w < num_workers x"
  shows "(\<Sum>v < num_workers x. busy (((es_pc s)(w := p)) v)) + busy (es_pc s w) =
    (\<Sum>v < num_workers x. busy (es_pc s v)) + busy p"
  using sum_fun_upd [of "{..<num_workers x}" w busy "es_pc s" p] assms by simp

subsection \<open>A worker moves and no node changes state\<close>

lemma undone_move:
  assumes "es_state s' = es_state s" "es_pc s' = (es_pc s)(w := p)" "w < num_workers x"
    and "\<And>i j. owes p i j = owes (es_pc s w) i j"
  shows "undone x s' j = undone x s j"
proof -
  have "owes (es_pc s' v) i j = owes (es_pc s v) i j" for v i
    using assms(2,4) by (cases "v = w") simp_all
  then show ?thesis
    by (simp add: undone_def assms(1))
qed

lemma exec_inv_move:
  assumes inv: "exec_inv x s" and w: "w < num_workers x"
    and st: "es_state s' = es_state s" and rem: "es_rem s' = es_rem s"
    and cnt: "es_completed s' = es_completed s" "es_failed s' = es_failed s" "es_skipped s' = es_skipped s"
    and pc: "es_pc s' = (es_pc s)(w := p)"
    and ow: "\<And>i j. owes p i j = owes (es_pc s w) i j"
    and res: "\<And>i. resolves p i \<Longrightarrow> resolves (es_pc s w) i"
    and skip: "\<And>j. will_skip (es_pc s w) j \<Longrightarrow> es_state s j = Pending \<Longrightarrow> will_skip p j"
    and ok: "pc_ok x (es_state s) p" and q: "inv_queue x s'"
    and tk: "\<And>j. count_list (es_queue s') j + count_list (tok p) j =
      count_list (es_queue s) j + count_list (tok (es_pc s w)) j"
    and act: "es_active s' + busy (es_pc s w) = es_active s + busy p"
    and ex: "inv_exit x s'"
  shows "exec_inv x s'"
proof -
  note inv' = inv [unfolded exec_inv_def]
  have un: "undone x s' j = undone x s j" for j
    by (rule undone_move [OF st pc w ow])
  have du: "due x s' j = due x s j" for j
    by (simp add: due_def un st)
  have "tokens x s' j = tokens x s j" for j
    using tokens_update [OF w pc, of j] tk [of j] by simp
  then have "inv_tokens x s'"
    using inv' by (simp add: inv_tokens_def du)
  moreover have "inv_pcs x s'"
    using inv' ok by (auto simp: inv_pcs_def st pc)
  moreover have "inv_deps x s'" "inv_rem x s'" "inv_counts x s'"
    using inv' by (simp_all add: inv_deps_def inv_rem_def inv_counts_def in_state_def un st rem cnt)
  moreover have "inv_resolver x s'"
    using inv' res w unfolding inv_resolver_def pc by (simp add: fun_upd_def) blast
  moreover have "inv_active x s'"
    using inv' act busy_update [OF w, of s p] by (simp add: inv_active_def pc)
  moreover have "inv_rollback x s'"
    using inv' skip w unfolding inv_rollback_def st pc by (metis fun_upd_apply)
  ultimately show ?thesis
    using q ex by (simp add: exec_inv_def)
qed

lemma busy_active:
  assumes "exec_inv x s" "w < num_workers x" "busy (es_pc s w) = 1"
  shows "es_active s \<noteq> 0"
proof -
  have "busy (es_pc s w) \<le> (\<Sum>v < num_workers x. busy (es_pc s v))"
    by (rule member_le_sum) (use assms(2) in auto)
  moreover have "es_active s = (\<Sum>v < num_workers x. busy (es_pc s v))"
    using assms(1) by (simp add: exec_inv_def inv_active_def)
  ultimately show ?thesis
    using assms(3) by linarith
qed

text \<open>The exit condition survives a step of a worker that is busy before and after.\<close>

lemma inv_exit_busy:
  assumes "exec_inv x s" "w < num_workers x" "busy (es_pc s w) = 1"
    "es_pc s' = (es_pc s)(w := p)" "p \<noteq> WExit" "es_cancelled s' = es_cancelled s"
  shows "inv_exit x s'"
proof -
  have "es_active s \<noteq> 0"
    by (rule busy_active [OF assms(1-3)])
  with assms show ?thesis
    by (auto simp: exec_inv_def inv_exit_def split: if_splits)
qed

lemma pc_ok_at: "exec_inv x s \<Longrightarrow> w < num_workers x \<Longrightarrow> es_pc s w = p \<Longrightarrow> pc_ok x (es_state s) p"
  by (auto simp: exec_inv_def inv_pcs_def)

lemma exec_inv_queue: "exec_inv x s \<Longrightarrow> inv_queue x s"
  by (simp add: exec_inv_def)

lemma step_idle_inv:
  assumes inv: "exec_inv x s" and w: "w < num_workers x" and pc: "es_pc s w = WIdle"
    and step: "step_idle w s = Some s'"
  shows "exec_inv x s'"
proof (cases "es_cancelled s \<or> es_queue s = []")
  case True
  with step have s': "s' = es_goto w WExit s" and ex: "es_cancelled s \<or> es_queue s = [] \<and> es_active s = 0"
    by (auto simp: step_idle_def split: if_splits list.splits)
  show ?thesis
    by (rule exec_inv_move [OF inv w, where p = WExit])
      (use exec_inv_queue [OF inv] ex in \<open>auto simp: s' es_goto_def pc inv_queue_def inv_exit_def\<close>)
next
  case False
  then obtain i q where q: "es_queue s = i # q" by (cases "es_queue s") auto
  with False step have s': "s' = es_goto w (WPopped i) (s\<lparr>es_queue := q, es_active := es_active s + 1\<rparr>)"
    by (simp add: step_idle_def)
  have "inv_exit x s'"
    using inv q by (auto simp: s' es_goto_def exec_inv_def inv_exit_def split: if_splits)
  then show ?thesis
    by (intro exec_inv_move [OF inv w, where p = "WPopped i"])
      (use exec_inv_queue [OF inv] in \<open>auto simp: s' es_goto_def pc inv_queue_def q\<close>)
qed

lemma step_popped_inv:
  assumes inv: "exec_inv x s" and w: "w < num_workers x" and pc: "es_pc s w = WPopped i"
  shows "exec_inv x (step_popped w i s)"
proof -
  have ok: "runnable x (es_state s) i"
    using pc_ok_at [OF inv w pc] by simp
  then have s': "step_popped w i s = es_goto w (WStart i) s"
    by (simp add: step_popped_def runnable_def)
  have "inv_exit x (es_goto w (WStart i) s)"
    by (rule inv_exit_busy [OF inv w, where p = "WStart i"]) (simp_all add: pc es_goto_def)
  then show ?thesis
    unfolding s'
    by (intro exec_inv_move [OF inv w, where p = "WStart i"])
      (use exec_inv_queue [OF inv] ok in \<open>auto simp: es_goto_def pc inv_queue_def\<close>)
qed

lemma step_push_inv:
  assumes inv: "exec_inv x s" and w: "w < num_workers x"
    and pc: "es_pc s w = WPush newly \<or> (\<exists>i. es_pc s w = WRequeue i \<and> newly = [i])"
  shows "exec_inv x (step_push w newly s)"
proof -
  have ok: "\<forall>i \<in> set newly. runnable x (es_state s) i"
    using pc pc_ok_at [OF inv w] by fastforce
  have "inv_exit x (step_push w newly s)"
    by (rule inv_exit_busy [OF inv w, where p = WRelease]) (use pc in \<open>auto simp: step_push_def es_goto_def\<close>)
  then show ?thesis
    by (intro exec_inv_move [OF inv w, where p = WRelease])
      (use exec_inv_queue [OF inv] ok pc in \<open>auto simp: step_push_def es_goto_def inv_queue_def\<close>)
qed

lemma resolve_end_inv:
  assumes inv: "exec_inv x s" and w: "w < num_workers x" and pc: "es_pc s w = WResolve p [] newly"
  shows "exec_inv x (es_goto w (if newly = [] then WRelease else WPush newly) s)"
proof -
  have move: "exec_inv x (es_goto w p' s)"
    if p': "p' = WRelease \<and> newly = [] \<or> p' = WPush newly" for p'
  proof -
    have "inv_exit x (es_goto w p' s)"
      by (rule inv_exit_busy [OF inv w, where p = p']) (use p' in \<open>auto simp: pc es_goto_def\<close>)
    then show ?thesis
      by (intro exec_inv_move [OF inv w, where p = p'])
        (use exec_inv_queue [OF inv] pc_ok_at [OF inv w pc] p' in \<open>auto simp: es_goto_def inv_queue_def pc\<close>)
  qed
  show ?thesis
    by (cases "newly = []") (simp_all add: move)
qed

lemma invalidate_end_inv:
  assumes inv: "exec_inv x s" and w: "w < num_workers x" and pc: "es_pc s w = WInvalidate f []"
  shows "exec_inv x (es_goto w WRelease s)"
proof -
  have "inv_exit x (es_goto w WRelease s)"
    by (rule inv_exit_busy [OF inv w, where p = WRelease]) (simp_all add: pc es_goto_def)
  then show ?thesis
    by (intro exec_inv_move [OF inv w, where p = WRelease])
      (use exec_inv_queue [OF inv] in \<open>auto simp: es_goto_def inv_queue_def pc\<close>)
qed

lemma step_release_inv:
  assumes inv: "exec_inv x s" and w: "w < num_workers x" and pc: "es_pc s w = WRelease"
  shows "exec_inv x (step_release w s)"
proof -
  have "es_active s \<noteq> 0"
    by (rule busy_active [OF inv w]) (simp add: pc)
  moreover have "inv_exit x (step_release w s)"
    by (rule inv_exit_busy [OF inv w, where p = WIdle]) (simp_all add: pc step_release_def es_goto_def)
  ultimately show ?thesis
    by (intro exec_inv_move [OF inv w, where p = WIdle])
      (use exec_inv_queue [OF inv] in \<open>auto simp: step_release_def es_goto_def inv_queue_def pc\<close>)
qed

text \<open>A node downstream of a failure is Pending or already Skipped.\<close>

lemma blocked_state:
  assumes "exec_inv x s" "j < cx_n x" "blocked x (es_state s) j"
  shows "es_state s j = Pending \<or> es_state s j = Skipped"
  using assms blocked_undone [OF assms(3)] by (auto simp: exec_inv_def inv_deps_def)

lemma step_invalidate_inv:
  assumes inv: "exec_inv x s" and w: "w < num_workers x" and pc: "es_pc s w = WInvalidate f (c # todo)"
  shows "exec_inv x (step_invalidate w f c todo s)"
proof -
  have ok: "f < cx_n x" "\<forall>j \<in> set (c # todo). j < cx_n x \<and> blocked x (es_state s) j"
    using pc_ok_at [OF inv w pc] by auto
  then have st: "es_state s c = Pending \<or> es_state s c = Skipped"
    using blocked_state [OF inv] by simp
  have move: "exec_inv x (es_goto w p' s)"
    if p': "p' = WSkipCas f c Pending todo \<or> p' = WInvalidate f todo \<and> es_state s c \<noteq> Pending" for p'
  proof -
    have "inv_exit x (es_goto w p' s)"
      by (rule inv_exit_busy [OF inv w, where p = p']) (use p' in \<open>auto simp: pc es_goto_def\<close>)
    then show ?thesis
      by (intro exec_inv_move [OF inv w, where p = p'])
        (use exec_inv_queue [OF inv] ok p' in \<open>auto simp: es_goto_def inv_queue_def pc\<close>)
  qed
  from st show ?thesis
    by (auto simp: step_invalidate_def Let_def move)
qed

lemma cancel_inv:
  assumes "exec_inv x s"
  shows "exec_inv x (s\<lparr>es_cancelled := True\<rparr>)"
proof -
  let ?s = "s\<lparr>es_cancelled := True\<rparr>"
  have "undone x ?s j = undone x s j" "tokens x ?s j = tokens x s j" "in_state x ?s v = in_state x s v" for j v
    by (simp_all add: undone_def tokens_def in_state_def)
  then have "inv_pcs x ?s = inv_pcs x s" "inv_queue x ?s = inv_queue x s" "inv_tokens x ?s = inv_tokens x s"
    "inv_deps x ?s = inv_deps x s" "inv_rem x ?s = inv_rem x s" "inv_resolver x ?s = inv_resolver x s"
    "inv_counts x ?s = inv_counts x s" "inv_active x ?s = inv_active x s" "inv_exit x ?s"
    "inv_rollback x ?s = inv_rollback x s"
    by (simp_all add: inv_defs due_def)
  with assms show ?thesis
    by (simp only: exec_inv_def)
qed

subsection \<open>A worker changes the state of one node\<close>

lemma not_due_terminal: "due x s k \<Longrightarrow> es_state s k \<notin> {Completed, Failed, Skipped}"
  by (auto simp: due_def)

lemma inv_pcs_change:
  assumes "inv_pcs x s" "es_pc s' = (es_pc s)(w := p)" "es_state s' = (es_state s)(k := v)"
    and "es_state s k \<notin> {Completed, Failed, Skipped}"
    and "\<And>w'. w' < num_workers x \<Longrightarrow> w' \<noteq> w \<Longrightarrow> k \<notin> set (tok (es_pc s w'))"
    and "pc_ok x (es_state s') p"
  shows "inv_pcs x s'"
proof -
  have "pc_ok x (es_state s') (es_pc s' w')" if "w' < num_workers x" for w'
  proof (cases "w' = w")
    case True
    with assms(2,6) show ?thesis by simp
  next
    case False
    with that assms have "pc_ok x ((es_state s)(k := v)) (es_pc s w')"
      by (intro pc_ok_frame) (auto simp: inv_pcs_def)
    with False assms(2,3) show ?thesis by simp
  qed
  then show ?thesis by (simp add: inv_pcs_def)
qed

lemma inv_queue_change:
  assumes "inv_queue x s" "es_queue s' = es_queue s" "es_state s' = (es_state s)(k := v)" "k \<notin> set (es_queue s)"
  shows "inv_queue x s'"
  using assms by (auto simp: inv_queue_def runnable_def)

lemma in_state_change:
  assumes "es_state s' = (es_state s)(k := v)" "k < cx_n x" "es_state s k \<noteq> u"
  shows "in_state x s' u = (if u = v then insert k (in_state x s u) else in_state x s u)"
    and "k \<notin> in_state x s u"
  using assms by (auto simp: in_state_def)

lemma finite_in_state [simp]: "finite (in_state x s u)"
  by (rule finite_subset [of _ "{..<cx_n x}"]) (auto simp: in_state_def)

lemma inv_resolver_change:
  assumes "inv_resolver x s" "es_pc s' = (es_pc s)(w := p)" "w < num_workers x"
    and "\<And>i w'. resolves p i \<Longrightarrow> w' < num_workers x \<Longrightarrow> w' \<noteq> w \<Longrightarrow> \<not> resolves (es_pc s w') i"
  shows "inv_resolver x s'"
  using assms unfolding inv_resolver_def by (metis fun_upd_apply)

lemma inv_active_change:
  assumes "inv_active x s" "es_pc s' = (es_pc s)(w := p)" "w < num_workers x"
    "es_active s' = es_active s" "busy (es_pc s w) = busy p"
  shows "inv_active x s'"
  using assms busy_update [OF assms(3), of s p] by (simp add: inv_active_def)

text \<open>The node of a token moves between Pending, Ready and Running.\<close>

lemma exec_inv_run:
  assumes inv: "exec_inv x s" and w: "w < num_workers x"
    and k: "k < cx_n x" "k \<in> set (tok (es_pc s w))" and v: "v = Ready \<or> v = Running"
    and st: "es_state s' = (es_state s)(k := v)" and rem: "es_rem s' = es_rem s"
    and cnt: "es_completed s' = es_completed s" "es_failed s' = es_failed s" "es_skipped s' = es_skipped s"
    and pc: "es_pc s' = (es_pc s)(w := p)" and q: "es_queue s' = es_queue s"
    and act: "es_active s' = es_active s" "busy (es_pc s w) = 1" "busy p = 1"
    and can: "es_cancelled s' = es_cancelled s"
    and ow: "\<And>i j. owes p i j = owes (es_pc s w) i j"
    and res: "\<And>i. resolves p i \<Longrightarrow> resolves (es_pc s w) i"
    and skip: "\<And>j. will_skip (es_pc s w) j \<Longrightarrow> will_skip p j"
    and ok: "pc_ok x ((es_state s)(k := v)) p"
    and tk: "\<And>j. count_list (tok p) j = count_list (tok (es_pc s w)) j"
  shows "exec_inv x s'"
proof -
  note inv' = inv [unfolded exec_inv_def]
  have T: "inv_tokens x s" and D: "inv_deps x s" using inv' by blast+
  note uq = token_unique [OF T w k(2) k(1)]
  have nt: "es_state s k \<notin> {Completed, Failed, Skipped}" by (rule not_due_terminal [OF uq(3)])
  have un: "undone x s' j = undone x s j" for j
  proof -
    have "owes (es_pc s' u) i j = owes (es_pc s u) i j" for u i
      using pc ow by (cases "u = w") simp_all
    then show ?thesis
      using st nt v by (auto simp: undone_def)
  qed
  have du: "due x s' j = due x s j" if "j < cx_n x" for j
    using uq(3) v by (cases "j = k") (auto simp: due_def st un)
  have bl: "blocked x (es_state s') j = blocked x (es_state s) j" for j
    using nt v by (auto simp: blocked_def st)
  have unk: "undone x s k = {}"
    using uq(3) D k(1) by (auto simp: due_def inv_deps_def)
  have "tokens x s' j = tokens x s j" for j
    using tokens_update [OF w pc, of j] tk [of j] by (simp add: q)
  then have "inv_tokens x s'"
    using T du by (simp add: inv_tokens_def)
  moreover have "inv_pcs x s'"
    by (rule inv_pcs_change [OF _ pc st nt uq(2)]) (use inv' ok st in auto)
  moreover have "inv_queue x s'"
    by (rule inv_queue_change [OF _ q st uq(1)]) (use inv' in blast)
  moreover have "inv_deps x s'"
    using D v unk by (auto simp: inv_deps_def un bl) (auto simp: st split: if_splits)
  moreover have "inv_rem x s'"
    using inv' by (simp add: inv_rem_def rem un)
  moreover have "in_state x s' u = in_state x s u" if "u \<in> {Completed, Failed, Skipped}" for u
    using that nt v by (auto simp: in_state_def st)
  then have "inv_counts x s'"
    using inv' by (simp add: inv_counts_def cnt)
  moreover have "inv_resolver x s'"
    by (rule inv_resolver_change [OF _ pc w]) (use inv' res w in \<open>auto simp: inv_resolver_def\<close>)
  moreover have "inv_active x s'"
    by (rule inv_active_change [OF _ pc w act(1)]) (use inv' act in auto)
  moreover have "inv_exit x s'"
    by (rule inv_exit_busy [OF inv w act(2) pc _ can]) (use act(3) in auto)
  moreover have "inv_rollback x s'"
  proof -
    have "es_state s' j \<noteq> Pending \<or> (\<exists>u < num_workers x. will_skip (es_pc s' u) j)"
      if "rollback_on_node_failure (cx_config x)" "j < cx_n x" "blocked x (es_state s) j" for j
    proof -
      from that inv' have "es_state s j \<noteq> Pending \<or> (\<exists>u < num_workers x. will_skip (es_pc s u) j)"
        unfolding inv_rollback_def by blast
      then show ?thesis
        using skip v unfolding st pc by (metis TaskNodeState.distinct(1,3) fun_upd_apply)
    qed
    then show ?thesis by (simp add: inv_rollback_def bl)
  qed
  ultimately show ?thesis
    by (simp add: exec_inv_def)
qed

lemma step_start_inv:
  assumes inv: "exec_inv x s" and w: "w < num_workers x" and pc: "es_pc s w = WStart i"
  shows "exec_inv x (step_start x w i s)"
  by (rule exec_inv_run [OF inv w, where k = i and p = "WRunning i" and v = Running])
    (use pc_ok_at [OF inv w pc] in \<open>auto simp: pc step_start_def es_goto_def es_enter_def runnable_def\<close>)

lemma step_cas_inv:
  assumes inv: "exec_inv x s" and w: "w < num_workers x" and pc: "es_pc s w = WCas p j todo newly"
    and ok: "ctx_ok x"
  shows "exec_inv x (step_cas x w p j todo newly s)"
proof -
  note po = pc_ok_at [OF inv w pc]
  have j: "j < cx_n x" using po ok by (auto simp: ctx_ok_def)
  show ?thesis
    by (rule exec_inv_run [OF inv w, where k = j and p = "WResolve p todo (newly @ [j])" and v = Ready])
      (use po j in \<open>auto simp: pc step_cas_def es_goto_def es_enter_def runnable_def\<close>)
qed

text \<open>The node of a token is finished: Completed or Failed.\<close>

lemma exec_inv_finish:
  assumes inv: "exec_inv x s" and ok: "ctx_ok x" and w: "w < num_workers x" and pcw: "es_pc s w = WRunning i"
    and st: "es_state s' = (es_state s)(i := v)" and rem: "es_rem s' = es_rem s"
    and v: "v = Completed \<and> p = WResolve i (cx_adj x i) [] \<or>
      v = Failed \<and> p = (if rollback_on_node_failure (cx_config x) then WInvalidate i (cx_adj x i) else WRelease)"
    and cnt: "es_completed s' = es_completed s + (if v = Completed then 1 else 0)"
      "es_failed s' = es_failed s + (if v = Failed then 1 else 0)" "es_skipped s' = es_skipped s"
    and pc: "es_pc s' = (es_pc s)(w := p)" and q: "es_queue s' = es_queue s"
    and act: "es_active s' = es_active s" and can: "es_cancelled s' = es_cancelled s"
  shows "exec_inv x s'"
proof -
  note inv' = inv [unfolded exec_inv_def]
  have T: "inv_tokens x s" and D: "inv_deps x s" using inv' by blast+
  have i: "i < cx_n x" "es_state s i = Running" using pc_ok_at [OF inv w pcw] by auto
  have it: "i \<in> set (tok (es_pc s w))" by (simp add: pcw)
  note uq = token_unique [OF T w it i(1)]
  have nt: "es_state s i \<notin> {Completed, Failed, Skipped}" using i by simp
  have adj: "j \<in> set (cx_adj x i) \<Longrightarrow> j < cx_n x" for j using ok by (auto simp: ctx_ok_def)
  have dadj: "distinct (cx_adj x i)" using ok by (simp add: ctx_ok_def)
  have other: "\<not> resolves (es_pc s u) i" if "u < num_workers x" for u
    using inv' that i(2) by (cases "es_pc s u") (auto simp: inv_pcs_def dest!: spec [of _ u])
  have un: "undone x s' j = undone x s j" for j
  proof -
    have "h \<in> undone x s' j \<longleftrightarrow> h \<in> undone x s j" for h
    proof (cases "h = i")
      case True
      have "\<not> owes (es_pc s u) i j" if "u < num_workers x" for u
        using other [OF that] by (cases "es_pc s u") auto
      moreover have "owes p i j" if "v = Completed" "i \<in> preds x j"
        using that v by (auto simp: preds_def)
      ultimately show ?thesis
        using True v i w by (auto simp: undone_def st pc)
    next
      case False
      have "owes (es_pc s' u) h j = owes (es_pc s u) h j" for u
        using False v pcw by (cases "u = w") (auto simp: pc split: if_splits)
      with False show ?thesis by (simp add: undone_def st)
    qed
    then show ?thesis by blast
  qed
  have tk: "tokens x s' j + (if j = i then 1 else 0) = tokens x s j" for j
    using tokens_update [OF w pc, of j] v by (auto simp: q pcw)
  have du: "due x s' j = (j \<noteq> i \<and> due x s j)" for j
    using v by (cases "j = i") (auto simp: due_def st un)
  have dui: "tokens x s i = 1" using T i uq(3) by (simp add: inv_tokens_def)
  have "tokens x s' j = (if due x s' j then 1 else 0)" if "j < cx_n x" for j
    using tk [of j] T that dui du [of j] by (cases "j = i") (auto simp: inv_tokens_def)
  then have "inv_tokens x s'"
    by (simp add: inv_tokens_def)
  moreover have blm: "blocked x (es_state s) j \<Longrightarrow> blocked x (es_state s') j" for j
    by (erule blocked_mono) (use i in \<open>auto simp: st\<close>)
  have "pc_ok x (es_state s') p"
    using v i adj dadj by (auto simp: st blocked_def preds_def)
  then have "inv_pcs x s'"
    by (intro inv_pcs_change [OF _ pc st nt uq(2)]) (use inv' in auto)
  moreover have "inv_queue x s'"
    by (rule inv_queue_change [OF _ q st uq(1)]) (use inv' in blast)
  moreover have "inv_deps x s'"
    using D i v blm by (auto simp: inv_deps_def un) (auto simp: st split: if_splits)
  moreover have "inv_rem x s'"
    using inv' by (simp add: inv_rem_def rem un)
  moreover have "inv_counts x s'"
    using inv' v cnt in_state_change [OF st i(1)] i(2)
    by (auto simp: inv_counts_def)
  moreover have "inv_resolver x s'"
    by (rule inv_resolver_change [OF _ pc w]) (use inv' other v in \<open>auto split: if_splits\<close>)
  moreover have "inv_active x s'"
    by (rule inv_active_change [OF _ pc w act]) (use inv' v in \<open>auto simp: pcw\<close>)
  moreover have "inv_exit x s'"
    by (rule inv_exit_busy [OF inv w _ pc _ can]) (use v in \<open>auto simp: pcw split: if_splits\<close>)
  moreover have "inv_rollback x s'"
  proof -
    have "es_state s' j \<noteq> Pending \<or> (\<exists>u < num_workers x. will_skip (es_pc s' u) j)"
      if rb: "rollback_on_node_failure (cx_config x)" and j: "j < cx_n x" "blocked x (es_state s') j" for j
    proof (cases "blocked x (es_state s) j")
      case True
      with rb j inv' have "es_state s j \<noteq> Pending \<or> (\<exists>u < num_workers x. will_skip (es_pc s u) j)"
        unfolding inv_rollback_def by blast
      moreover have "u \<noteq> w" if "will_skip (es_pc s u) j" for u
        using that pcw by auto
      ultimately show ?thesis
        using v i(2) unfolding st pc by (metis TaskNodeState.distinct(5,7) fun_upd_apply)
    next
      case False
      with j(2) have "v = Failed" "j \<in> set (cx_adj x i)"
        using v by (auto simp: blocked_def preds_def st split: if_splits)
      with v rb have "will_skip p j" by auto
      with w pc show ?thesis by auto
    qed
    then show ?thesis by (simp add: inv_rollback_def)
  qed
  ultimately show ?thesis
    by (simp add: exec_inv_def)
qed

lemma step_return_inv:
  assumes inv: "exec_inv x s" and ok: "ctx_ok x" and w: "w < num_workers x" and pc: "es_pc s w = WRunning i"
  shows "exec_inv x (step_return x w i res node dur s)"
proof -
  let ?s = "s\<lparr>es_time := (es_time s)(i := dur), es_node := (es_node s)(i := node\<lparr>execution_time := dur\<rparr>)\<rparr>"
  have i: "i < cx_n x" "es_state s i = Running" using pc_ok_at [OF inv w pc] by auto
  consider (ok) "er_success res"
    | (retry) "\<not> er_success res" "es_retry s i + 1 \<le> tn_max_retries node"
    | (fail) "\<not> er_success res" "\<not> es_retry s i + 1 \<le> tn_max_retries node"
    by blast
  then show ?thesis
  proof cases
    case ok
    then show ?thesis
      by (intro exec_inv_finish [OF inv \<open>ctx_ok x\<close> w pc, where v = Completed and p = "WResolve i (cx_adj x i) []"])
        (simp_all add: step_return_def step_return_success_def es_enter_def es_goto_def Let_def)
  next
    case retry
    then show ?thesis
      by (intro exec_inv_run [OF inv w, where k = i and v = Ready and p = "WRequeue i"])
        (use i in \<open>auto simp: pc step_return_def step_return_failure_def es_goto_def Let_def runnable_def\<close>)
  next
    case fail
    then show ?thesis
      by (intro exec_inv_finish [OF inv \<open>ctx_ok x\<close> w pc, where v = Failed and
            p = "if rollback_on_node_failure (cx_config x) then WInvalidate i (cx_adj x i) else WRelease"])
        (simp_all add: step_return_def step_return_failure_def es_enter_def es_goto_def Let_def)
  qed
qed

text \<open>A node downstream of a failure is skipped.\<close>

lemma exec_inv_skip:
  assumes inv: "exec_inv x s" and ok: "ctx_ok x" and w: "w < num_workers x"
    and pcw: "es_pc s w = WSkipCas f c Pending todo" and c: "es_state s c = Pending"
    and st: "es_state s' = (es_state s)(c := Skipped)" and rem: "es_rem s' = es_rem s"
    and cnt: "es_completed s' = es_completed s" "es_failed s' = es_failed s" "es_skipped s' = es_skipped s + 1"
    and pc: "es_pc s' = (es_pc s)(w := WInvalidate f (todo @ cx_adj x c))" and q: "es_queue s' = es_queue s"
    and act: "es_active s' = es_active s" and can: "es_cancelled s' = es_cancelled s"
  shows "exec_inv x s'"
proof -
  note inv' = inv [unfolded exec_inv_def]
  let ?p = "WInvalidate f (todo @ cx_adj x c)"
  have T: "inv_tokens x s" and D: "inv_deps x s" using inv' by blast+
  have po: "f < cx_n x" "\<forall>j \<in> set (c # todo). j < cx_n x \<and> blocked x (es_state s) j"
    using pc_ok_at [OF inv w pcw] by auto
  then have cn: "c < cx_n x" and cb: "blocked x (es_state s) c" by auto
  have nd: "\<not> due x s c" using blocked_undone [OF cb] c by (simp add: due_def)
  note nt = no_token [OF T cn nd]
  have adj: "j \<in> set (cx_adj x c) \<Longrightarrow> j < cx_n x" for j using ok by (auto simp: ctx_ok_def)
  have un: "undone x s' j = undone x s j" for j
  proof -
    have "owes (es_pc s' u) i j = owes (es_pc s u) i j" for u i
      by (cases "u = w") (auto simp: pc pcw)
    then show ?thesis
      using c by (auto simp: undone_def st)
  qed
  have du: "due x s' j = due x s j" for j
    using nd by (cases "j = c") (auto simp: due_def st un)
  have "tokens x s' j = tokens x s j" for j
    using tokens_update [OF w pc, of j] by (simp add: q pcw)
  then have "inv_tokens x s'"
    using T by (simp add: inv_tokens_def du)
  moreover have blm: "blocked x (es_state s) j \<Longrightarrow> blocked x (es_state s') j" for j
    by (erule blocked_mono) (use c in \<open>auto simp: st\<close>)
  have "blocked x (es_state s') j" if "j \<in> set (cx_adj x c)" for j
    using that by (auto simp: st blocked_def preds_def)
  then have "pc_ok x (es_state s') ?p"
    using po adj blm by auto
  then have "inv_pcs x s'"
    by (intro inv_pcs_change [OF _ pc st _ nt(2)]) (use inv' c in auto)
  moreover have "inv_queue x s'"
    by (rule inv_queue_change [OF _ q st nt(1)]) (use inv' in blast)
  moreover have "inv_deps x s'"
    using D c blm cb by (auto simp: inv_deps_def un) (auto simp: st split: if_splits)
  moreover have "inv_rem x s'"
    using inv' by (simp add: inv_rem_def rem un)
  moreover have "inv_counts x s'"
    using inv' cnt in_state_change [OF st cn] c by (auto simp: inv_counts_def)
  moreover have "inv_resolver x s'"
    by (rule inv_resolver_change [OF _ pc w]) (use inv' in auto)
  moreover have "inv_active x s'"
    by (rule inv_active_change [OF _ pc w act]) (use inv' in \<open>auto simp: pcw\<close>)
  moreover have "inv_exit x s'"
    by (rule inv_exit_busy [OF inv w _ pc _ can]) (auto simp: pcw)
  moreover have "inv_rollback x s'"
  proof -
    have "es_state s' j \<noteq> Pending \<or> (\<exists>u < num_workers x. will_skip (es_pc s' u) j)"
      if rb: "rollback_on_node_failure (cx_config x)" and j: "j < cx_n x" "blocked x (es_state s') j" for j
    proof (cases "blocked x (es_state s) j")
      case True
      with rb j inv' have "es_state s j \<noteq> Pending \<or> (\<exists>u < num_workers x. will_skip (es_pc s u) j)"
        unfolding inv_rollback_def by blast
      then consider "es_state s j \<noteq> Pending" | u where "u < num_workers x" "u \<noteq> w" "will_skip (es_pc s u) j"
        | "j = c" | "j \<in> set todo"
        using pcw by (metis will_skip.simps(2))
      then show ?thesis
      proof cases
        case 1
        then show ?thesis by (auto simp: st)
      next
        case (2 u)
        then show ?thesis by (auto simp: pc)
      next
        case 3
        then show ?thesis by (simp add: st)
      next
        case 4
        with w show ?thesis by (auto simp: pc)
      qed
    next
      case False
      with j(2) have "j \<in> set (cx_adj x c)"
        by (auto simp: blocked_def preds_def st split: if_splits)
      with w show ?thesis by (auto simp: pc)
    qed
    then show ?thesis by (simp add: inv_rollback_def)
  qed
  ultimately show ?thesis
    by (simp add: exec_inv_def)
qed

lemma step_skip_inv:
  assumes inv: "exec_inv x s" and ok: "ctx_ok x" and w: "w < num_workers x"
    and pc: "es_pc s w = WSkipCas f c seen todo"
  shows "exec_inv x (step_skip x w f c seen todo s)"
proof -
  have seen: "seen = Pending" and po: "f < cx_n x" "\<forall>j \<in> set (c # todo). j < cx_n x \<and> blocked x (es_state s) j"
    using pc_ok_at [OF inv w pc] by auto
  show ?thesis
  proof (cases "es_state s c = Pending")
    case True
    with seen pc show ?thesis
      by (intro exec_inv_skip [OF inv ok w, where f = f and c = c and todo = todo])
        (simp_all add: step_skip_def es_enter_def es_goto_def Let_def)
  next
    case False
    have "inv_exit x (es_goto w (WInvalidate f todo) s)"
      by (rule inv_exit_busy [OF inv w, where p = "WInvalidate f todo"]) (simp_all add: pc es_goto_def)
    then have "exec_inv x (es_goto w (WInvalidate f todo) s)"
      by (intro exec_inv_move [OF inv w, where p = "WInvalidate f todo"])
        (use exec_inv_queue [OF inv] po False in \<open>auto simp: es_goto_def inv_queue_def pc\<close>)
    with False seen show ?thesis by (simp add: step_skip_def)
  qed
qed

subsection \<open>A worker decrements a counter\<close>

text \<open>On counts below \<open>2 ^ 32\<close> the word arithmetic of the counter is that of the count.\<close>

lemma of_nat_word_pred:
  "(of_nat (Suc n) :: 32 word) - 1 = of_nat n"
  by simp

lemma of_nat_word_eq_1:
  assumes "n < 2 ^ 32"
  shows "(of_nat n :: 32 word) = 1 \<longleftrightarrow> n = 1"
proof
  assume "(of_nat n :: 32 word) = 1"
  then have "unat (of_nat n :: 32 word) = unat (1 :: 32 word)" by simp
  with assms show "n = 1" by (simp add: unat_of_nat)
qed simp

lemma of_nat_word_eq_0:
  assumes "n < 2 ^ 32"
  shows "(of_nat n :: 32 word) = 0 \<longleftrightarrow> n = 0"
proof
  assume "(of_nat n :: 32 word) = 0"
  then have "unat (of_nat n :: 32 word) = unat (0 :: 32 word)" by simp
  with assms show "n = 0" by (simp add: unat_of_nat)
qed simp

lemma step_resolve_inv:
  assumes inv: "exec_inv x s" and ok: "ctx_ok x" and w: "w < num_workers x"
    and pcw: "es_pc s w = WResolve h (j # todo) newly"
  shows "exec_inv x (step_resolve w h j todo newly s)"
proof -
  note inv' = inv [unfolded exec_inv_def]
  define p where "p = (if es_rem s j = 1 then WCas h j todo newly else WResolve h todo newly)"
  define s' where "s' = step_resolve w h j todo newly s"
  have pc: "es_pc s' = (es_pc s)(w := p)" and st: "es_state s' = es_state s"
    and rem: "es_rem s' = (es_rem s)(j := es_rem s j - 1)" and q: "es_queue s' = es_queue s"
    and cnt: "es_completed s' = es_completed s" "es_failed s' = es_failed s" "es_skipped s' = es_skipped s"
    and act: "es_active s' = es_active s" and can: "es_cancelled s' = es_cancelled s"
    by (simp_all add: s'_def step_resolve_def es_goto_def p_def)
  have T: "inv_tokens x s" and D: "inv_deps x s" and R: "inv_resolver x s" using inv' by blast+
  have h: "h < cx_n x" "es_state s h = Completed" and d: "distinct (j # todo)"
    and sub: "set (j # todo) \<subseteq> set (cx_adj x h)" and new: "\<forall>i \<in> set newly. runnable x (es_state s) i"
    using pc_ok_at [OF inv w pcw] by auto
  have j: "j < cx_n x" using sub ok by (auto simp: ctx_ok_def)
  have hj: "h \<in> undone x s j"
    using sub w pcw by (auto simp: undone_def preds_def intro!: exI [of _ w])
  then have unj: "undone x s j \<noteq> {}" by blast
  have only: "\<not> owes (es_pc s u) h i" if "u < num_workers x" "u \<noteq> w" for u i
  proof
    assume "owes (es_pc s u) h i"
    then have "resolves (es_pc s u) h" by (cases "es_pc s u") auto
    with R that w pcw show False by (auto simp: inv_resolver_def)
  qed
  have owp: "owes p i k \<longleftrightarrow> i = h \<and> k \<in> set todo" for i k
    by (simp add: p_def)
  have un: "undone x s' k = (if k = j then undone x s j - {h} else undone x s k)" for k
  proof -
    have "i \<in> undone x s' k \<longleftrightarrow> i \<in> undone x s k \<and> \<not> (k = j \<and> i = h)" for i
    proof (cases "i = h")
      case True
      have "(\<exists>u < num_workers x. owes (es_pc s' u) h k) \<longleftrightarrow> k \<in> set todo"
        using only w by (auto simp: pc owp)
      moreover have "(\<exists>u < num_workers x. owes (es_pc s u) h k) \<longleftrightarrow> k \<in> set (j # todo)"
        using only w pcw by (metis owes.simps(1))
      ultimately show ?thesis
        using True h d by (auto simp: undone_def st)
    next
      case False
      have "owes (es_pc s' u) i k = owes (es_pc s u) i k" for u
        using False pcw by (cases "u = w") (auto simp: pc owp)
      with False show ?thesis by (simp add: undone_def st)
    qed
    then show ?thesis by auto
  qed
  have crd: "card (undone x s j) = Suc (card (undone x s j - {h}))"
    using hj finite_undone [OF ok] by (metis card_Suc_Diff1)
  have rj: "es_rem s j = of_nat (card (undone x s j))"
    using inv' j by (simp add: inv_rem_def)
  have one: "es_rem s j = 1 \<longleftrightarrow> undone x s j = {h}"
  proof -
    have "es_rem s j = 1 \<longleftrightarrow> card (undone x s j) = 1"
      unfolding rj by (rule of_nat_word_eq_1 [OF card_undone_less [OF ok]])
    also have "\<dots> \<longleftrightarrow> undone x s j = {h}"
      using hj by (auto simp: card_1_singleton_iff)
    finally show ?thesis .
  qed
  have sj: "es_state s j = Pending \<or> es_state s j = Skipped"
    using D j unj by (auto simp: inv_deps_def)
  have sj1: "es_state s j = Pending" if "undone x s j = {h}"
  proof (rule ccontr)
    assume "es_state s j \<noteq> Pending"
    with sj D j have "blocked x (es_state s) j" by (auto simp: inv_deps_def)
    then obtain i where i: "i \<in> preds x j" "es_state s i = Failed \<or> es_state s i = Skipped"
      by (auto simp: blocked_def)
    then have "i \<in> undone x s j" by (auto simp: undone_def)
    with that h i(2) show False by auto
  qed
  have tk: "tokens x s' k = tokens x s k + (if k = j \<and> undone x s j = {h} then 1 else 0)" for k
    using tokens_update [OF w pc, of k] one
    by (cases "undone x s j = {h}"; cases "k = j") (simp_all add: q pcw p_def)
  have du: "due x s' k = (if k = j then undone x s j = {h} else due x s k)" for k
    using sj sj1 hj by (auto simp: due_def st un)
  have "\<not> due x s j" using sj unj by (auto simp: due_def)
  then have "tokens x s j = 0" using T j by (simp add: inv_tokens_def)
  then have "inv_tokens x s'"
    using T by (auto simp: inv_tokens_def tk du)
  moreover have "pc_ok x (es_state s) p"
    using h d sub new sj1 one by (auto simp: p_def)
  then have "inv_pcs x s'"
    using inv' by (auto simp: inv_pcs_def st pc)
  moreover have "inv_queue x s'"
    using inv' by (simp add: inv_queue_def q st)
  moreover have "inv_deps x s'"
    using D unj sj by (auto simp: inv_deps_def st un)
  moreover have "inv_rem x s'"
    using inv' rj crd by (auto simp: inv_rem_def rem un simp del: of_nat_Suc)
      (metis of_nat_word_pred)
  moreover have "inv_counts x s'"
    using inv' by (simp add: inv_counts_def in_state_def st cnt)
  moreover have "inv_resolver x s'"
    by (rule inv_resolver_change [OF R pc w])
      (use R w pcw in \<open>auto simp: p_def inv_resolver_def split: if_splits\<close>)
  moreover have "inv_active x s'"
    by (rule inv_active_change [OF _ pc w act]) (use inv' in \<open>auto simp: pcw p_def\<close>)
  moreover have "inv_exit x s'"
    by (rule inv_exit_busy [OF inv w _ pc _ can]) (auto simp: pcw p_def)
  moreover have "inv_rollback x s'"
  proof -
    have "(\<exists>u < num_workers x. will_skip (es_pc s' u) k)"
      if "u < num_workers x" "will_skip (es_pc s u) k" for u k
      using that pcw by (intro exI [of _ u]) (auto simp: pc)
    with inv' show ?thesis unfolding inv_rollback_def st by blast
  qed
  ultimately show ?thesis
    by (simp add: exec_inv_def s'_def)
qed

subsection \<open>Every action keeps the invariant\<close>

lemma worker_step_inv:
  assumes inv: "exec_inv x s" and ok: "ctx_ok x" and w: "w < num_workers x"
    and pc: "es_pc s w = p" and step: "worker_step x w p s = Some s'"
  shows "exec_inv x s'"
proof (cases p)
  case WIdle
  with step_idle_inv [OF inv w] pc step show ?thesis by simp
next
  case (WPopped i)
  with step_popped_inv [OF inv w] pc step show ?thesis by auto
next
  case (WStart i)
  with step_start_inv [OF inv w] pc step show ?thesis by auto
next
  case (WRunning i)
  with step show ?thesis by simp
next
  case (WResolve h todo newly)
  with resolve_end_inv [OF inv w] step_resolve_inv [OF inv ok w] pc step show ?thesis
    by (cases todo) auto
next
  case (WCas h j todo newly)
  with step_cas_inv [OF inv w _ ok] pc step show ?thesis by auto
next
  case (WPush newly)
  with step_push_inv [OF inv w] pc step show ?thesis by auto
next
  case (WRequeue i)
  with step_push_inv [OF inv w, of "[i]"] pc step show ?thesis by auto
next
  case (WInvalidate f todo)
  with invalidate_end_inv [OF inv w] step_invalidate_inv [OF inv w] pc step show ?thesis
    by (cases todo) auto
next
  case (WSkipCas f c seen todo)
  with step_skip_inv [OF inv ok w] pc step show ?thesis by auto
next
  case WRelease
  with step_release_inv [OF inv w] pc step show ?thesis by auto
next
  case WExit
  with step show ?thesis by simp
qed

lemma exec_step_inv:
  assumes "exec_inv x s" "ctx_ok x" "exec_step x a s = Some s'"
  shows "exec_inv x s'"
proof (cases a)
  case (Work w)
  with assms worker_step_inv show ?thesis by (auto split: if_splits)
next
  case (Return w res node dur)
  with assms show ?thesis
    by (auto split: if_splits worker_pc.splits prod.splits intro: step_return_inv)
next
  case Cancel
  with assms cancel_inv show ?thesis by auto
qed

end
