(* ===== verification/Executor_Start.thy ===== *)
theory Executor_Start
  imports Executor_Invariant
begin

text \<open>
  The index-based context that \<open>execute\<close> builds is the graph: \<open>ctx_edges\<close> are the edges of
  the task graph between the positions of its nodes, the context of an acyclic graph is
  \<open>ctx_ok\<close>, and the state in which the workers are launched satisfies the invariant. The
  interpretation \<open>exe\<close> then gives the invariant in every state the threads can reach.
\<close>

subsection \<open>The index map\<close>

lemma map_of_index_ids:
  assumes "distinct (map tn_id ns)"
  shows "map_of (index_ids k ns m) d = Some j \<longleftrightarrow>
    (\<exists>t < length ns. tn_id (ns ! t) = d \<and> j = k + t) \<or> (d \<notin> tn_id ` set ns \<and> map_of m d = Some j)"
  using assms
proof (induction ns arbitrary: k m)
  case Nil
  then show ?case by simp
next
  case (Cons n ns)
  have ex: "(\<exists>t < length (n # ns). tn_id ((n # ns) ! t) = d \<and> j = k + t) \<longleftrightarrow>
      (tn_id n = d \<and> j = k) \<or> (\<exists>t < length ns. tn_id (ns ! t) = d \<and> j = Suc k + t)"
    by (auto simp: less_Suc_eq_0_disj)
  have "(\<exists>t < length ns. tn_id (ns ! t) = d \<and> j = Suc k + t) \<Longrightarrow> d \<in> tn_id ` set ns"
    by auto
  with Cons show ?case
    unfolding ex by auto
qed

lemma map_of_index_ids_0:
  "distinct (map tn_id ns) \<Longrightarrow>
     map_of (index_ids 0 ns []) d = Some j \<longleftrightarrow> j < length ns \<and> tn_id (ns ! j) = d"
  by (auto simp: map_of_index_ids)

subsection \<open>The link loops\<close>

definition link_inv :: "nat \<Rightarrow> links \<Rightarrow> bool" where
  "link_inv n l \<longleftrightarrow> (\<forall>i. distinct (fst l i)) \<and> (\<forall>i j. j \<in> set (fst l i) \<longrightarrow> i < n \<and> j < n) \<and>
     (\<forall>j. snd l j = of_nat (card {i. j \<in> set (fst l i)}))"

definition link_edges :: "links \<Rightarrow> (nat \<times> nat) set" where
  "link_edges l = {(i, j). j \<in> set (fst l i)}"

lemma link_edge_inv:
  assumes "link_inv n l" "a < n" "b < n"
  shows "link_inv n (link_edge a b l)"
proof (cases "b \<in> set (fst l a)")
  case True
  then have "link_edge a b l = l" by (cases l) (simp add: link_edge_def)
  with assms(1) show ?thesis by simp
next
  case False
  obtain adj deg where l: "l = (adj, deg)" by fastforce
  define adj' where "adj' = adj(a := adj a @ [b])"
  have e: "link_edge a b l = (adj', deg(b := deg b + 1))"
    using False by (simp add: link_edge_def l adj'_def)
  have inv: "\<forall>i. distinct (adj i)" "\<forall>i j. j \<in> set (adj i) \<longrightarrow> i < n \<and> j < n"
    "\<forall>j. deg j = of_nat (card {i. j \<in> set (adj i)})" and nb: "b \<notin> set (adj a)"
    using assms(1) False by (simp_all add: link_inv_def l)
  have in_adj': "j \<in> set (adj' i) \<longleftrightarrow> j \<in> set (adj i) \<or> (i = a \<and> j = b)" for i j
    by (auto simp: adj'_def)
  have "finite {i. b \<in> set (adj i)}"
    by (rule finite_subset [of _ "{..<n}"]) (use inv(2) in auto)
  moreover have "{i. b \<in> set (adj' i)} = insert a {i. b \<in> set (adj i)}"
    by (auto simp: in_adj')
  ultimately have "card {i. b \<in> set (adj' i)} = Suc (card {i. b \<in> set (adj i)})"
    using nb by simp
  moreover have "{i. j \<in> set (adj' i)} = {i. j \<in> set (adj i)}" if "j \<noteq> b" for j
    using that by (simp add: in_adj')
  ultimately have "(deg(b := deg b + 1)) j = of_nat (card {i. j \<in> set (adj' i)})" for j
    using inv(3) by simp
  moreover have "distinct (adj' i)" for i
    using inv(1) nb by (simp add: adj'_def)
  moreover have "j \<in> set (adj' i) \<longrightarrow> i < n \<and> j < n" for i j
    using inv(2) assms(2,3) unfolding in_adj' by blast
  ultimately show ?thesis
    unfolding link_inv_def e by simp
qed

lemma link_edges_edge: "link_edges (link_edge a b l) = insert (a, b) (link_edges l)"
  by (cases l) (auto simp: link_edges_def link_edge_def split: if_splits)

lemma link_dependencies_inv:
  assumes "\<And>d j. map_of ix d = Some j \<Longrightarrow> j < n" "i < n"
  shows "link_inv n l \<Longrightarrow> link_inv n (link_dependencies ix i ds l)"
    and "link_edges (link_dependencies ix i ds l) =
      link_edges l \<union> {(j, i) |j d. d \<in> set ds \<and> map_of ix d = Some j}"
  using assms
  by (induction ix i ds l rule: link_dependencies.induct)
    (auto simp: link_edge_inv link_edges_edge split: option.splits)

lemma link_dependents_inv:
  assumes "\<And>d j. map_of ix d = Some j \<Longrightarrow> j < n" "i < n"
  shows "link_inv n l \<Longrightarrow> link_inv n (link_dependents ix i ss l)"
    and "link_edges (link_dependents ix i ss l) =
      link_edges l \<union> {(i, j) |j d. d \<in> set ss \<and> map_of ix d = Some j}"
  using assms
  by (induction ix i ss l rule: link_dependents.induct)
    (auto simp: link_edge_inv link_edges_edge split: option.splits)

text \<open>The edges that node \<open>n\<close> at position \<open>i\<close> contributes.\<close>

definition node_links :: "(string, nat) umap \<Rightarrow> nat \<Rightarrow> TaskNode \<Rightarrow> (nat \<times> nat) set" where
  "node_links ix i n = {(j, i) |j d. d \<in> set (dependencies n) \<and> map_of ix d = Some j} \<union>
     {(i, j) |j d. d \<in> set (dependents n) \<and> map_of ix d = Some j}"

lemma link_nodes_inv:
  assumes "\<And>d j. map_of ix d = Some j \<Longrightarrow> j < n" "i + length ns \<le> n"
  shows "link_inv n l \<Longrightarrow> link_inv n (link_nodes ix i ns l)"
    and "link_edges (link_nodes ix i ns l) =
      link_edges l \<union> (\<Union>t < length ns. node_links ix (i + t) (ns ! t))"
proof -
  show "link_inv n l \<Longrightarrow> link_inv n (link_nodes ix i ns l)"
    using assms
    by (induction ix i ns l rule: link_nodes.induct) (auto simp: link_dependencies_inv link_dependents_inv)
  show "link_edges (link_nodes ix i ns l) =
      link_edges l \<union> (\<Union>t < length ns. node_links ix (i + t) (ns ! t))"
    using assms
  proof (induction ix i ns l rule: link_nodes.induct)
    case (1 ix i l)
    then show ?case by simp
  next
    case (2 ix i n' ns l)
    have "(\<Union>t < length (n' # ns). node_links ix (i + t) ((n' # ns) ! t)) =
        node_links ix i n' \<union> (\<Union>t < length ns. node_links ix (Suc i + t) (ns ! t))"
      by (auto simp: lessThan_Suc_eq_insert_0)
    moreover have "link_edges (link_dependents ix i (dependents n')
        (link_dependencies ix i (dependencies n') l)) = link_edges l \<union> node_links ix i n'"
      using 2(2,3) by (auto simp: link_dependencies_inv(2) [of ix n i] link_dependents_inv(2) [of ix n i] node_links_def)
    ultimately show ?case
      using 2 by auto
  qed
qed

lemma links_of_correct:
  assumes "distinct (map tn_id ns)"
  shows "link_inv (length ns) (links_of ns)"
    and "(i, j) \<in> link_edges (links_of ns) \<longleftrightarrow> i < length ns \<and> j < length ns \<and>
      (tn_id (ns ! i) \<in> set (dependencies (ns ! j)) \<or> tn_id (ns ! j) \<in> set (dependents (ns ! i)))"
proof -
  let ?ix = "index_ids 0 ns []"
  note ix = map_of_index_ids_0 [OF assms]
  have b: "map_of ?ix d = Some j \<Longrightarrow> j < length ns" for d j by (simp add: ix)
  have s: "link_inv (length ns) (\<lambda>_. [], \<lambda>_. 0)" "link_edges (\<lambda>_. [], \<lambda>_. 0) = {}"
    by (simp_all add: link_inv_def link_edges_def)
  show "link_inv (length ns) (links_of ns)"
    unfolding links_of_def by (rule link_nodes_inv(1) [OF b]) (simp_all add: s)
  have "link_edges (links_of ns) = (\<Union>t < length ns. node_links ?ix t (ns ! t))"
    unfolding links_of_def by (subst link_nodes_inv(2) [OF b]) (simp_all add: s)
  then show "(i, j) \<in> link_edges (links_of ns) \<longleftrightarrow> i < length ns \<and> j < length ns \<and>
      (tn_id (ns ! i) \<in> set (dependencies (ns ! j)) \<or> tn_id (ns ! j) \<in> set (dependents (ns ! i)))"
    by (auto simp: node_links_def ix)
qed

subsection \<open>The context of a graph\<close>

lemma exec_context_simps [simp]:
  "cx_ids (exec_context c ns) = map tn_id ns"
  "cx_config (exec_context c ns) = c"
  "cx_adj (exec_context c ns) i = fst (links_of ns) i"
  by (simp_all add: exec_context_def)

lemma map_tn_id_nodes: "tg_wf g \<Longrightarrow> map tn_id (getAllNodes g) = node_ids_of g"
  by (auto simp: tg_wf_def getAllNodes_def um_keys_def)

lemma node_at:
  assumes "tg_wf g" "i < length (nodes g)"
  shows "map_of (nodes g) (tn_id (getAllNodes g ! i)) = Some (getAllNodes g ! i)"
proof -
  obtain k n where kn: "nodes g ! i = (k, n)" by fastforce
  with assms have "(k, n) \<in> set (nodes g)" by (metis nth_mem)
  with assms(1) have "map_of (nodes g) k = Some n" "tn_id n = k"
    unfolding tg_wf_def by (simp add: distinct_map_of_iff [symmetric], blast)
  with assms(2) kn show ?thesis by (simp add: getAllNodes_def)
qed

lemma length_getAllNodes [simp]: "length (getAllNodes g) = length (nodes g)"
  by (simp add: getAllNodes_def)

lemma distinct_ids: "tg_wf g \<Longrightarrow> distinct (map tn_id (getAllNodes g))"
  by (simp add: map_tn_id_nodes) (simp add: tg_wf_def)

lemma ctx_edges_graph:
  assumes "tg_wf g"
  shows "(i, j) \<in> ctx_edges (exec_context c (getAllNodes g)) \<longleftrightarrow>
    i < length (nodes g) \<and> j < length (nodes g) \<and>
    (tn_id (getAllNodes g ! i), tn_id (getAllNodes g ! j)) \<in> tg_edges g"
proof -
  have "(i, j) \<in> ctx_edges (exec_context c (getAllNodes g)) \<longleftrightarrow> (i, j) \<in> link_edges (links_of (getAllNodes g))"
    by (simp add: ctx_edges_def link_edges_def)
  then show ?thesis
    unfolding links_of_correct(2) [OF distinct_ids [OF assms]]
    by (auto simp: tg_edges_def names_dependency_def names_dependent_def node_at [OF assms])
qed

lemma ctx_edges_trancl:
  assumes "tg_wf g" "(i, j) \<in> (ctx_edges (exec_context c (getAllNodes g)))\<^sup>+"
  shows "(tn_id (getAllNodes g ! i), tn_id (getAllNodes g ! j)) \<in> (tg_edges g)\<^sup>+"
  using assms(2)
proof induction
  case (base j)
  then show ?case by (auto simp: ctx_edges_graph [OF assms(1)])
next
  case (step j k)
  then show ?case by (auto simp: ctx_edges_graph [OF assms(1)] intro: trancl_into_trancl)
qed

lemma exec_context_ok:
  assumes "tg_wf g" "\<not> hasCycle g" "length (nodes g) < 2 ^ 32"
  shows "ctx_ok (exec_context c (getAllNodes g))"
proof -
  let ?x = "exec_context c (getAllNodes g)"
  have "link_inv (length (nodes g)) (links_of (getAllNodes g))"
    using links_of_correct(1) [OF distinct_ids [OF assms(1)]] by simp
  then have l: "distinct (cx_adj ?x i)" "j \<in> set (cx_adj ?x i) \<longrightarrow> i < cx_n ?x \<and> j < cx_n ?x" for i j
    by (simp_all add: link_inv_def)
  have "acyclic (tg_edges g)"
    using assms(1,2) by (simp add: hasCycle_cyclic)
  then have "acyclic (ctx_edges ?x)"
    using ctx_edges_trancl [OF assms(1)] by (auto simp: acyclic_def)
  with l assms(3) show ?thesis
    unfolding ctx_ok_def by simp
qed

subsection \<open>The launched state\<close>

lemma count_list_filter: "count_list (filter P xs) k = (if P k then count_list xs k else 0)"
  by (induction xs) auto

lemma count_list_upt: "count_list [0..<n] k = (if k < n then 1 else 0)"
  by (induction n) auto

lemma card_in_state_0: "(\<And>i. i < cx_n x \<Longrightarrow> es_state s i \<noteq> v) \<Longrightarrow> card (in_state x s v) = 0"
  by (auto simp: in_state_def)

lemma exec_init_inv:
  assumes ok: "ctx_ok x" and x: "x = exec_context c ns" and l: "link_inv (length ns) (links_of ns)"
  shows "exec_inv x (exec_init x ns)"
proof -
  define s where "s = exec_init x ns"
  define deg where "deg = snd (links_of ns)"
  have n: "cx_n x = length ns" by (simp add: x)
  have st: "es_state s i = (if i < length ns \<and> deg i = 0 then Ready else Pending)" for i
    by (simp add: s_def exec_init_def Let_def deg_def)
  have q: "es_queue s = filter (\<lambda>i. deg i = 0) [0..<length ns]"
    and pc: "es_pc s = (\<lambda>_. WIdle)" and rem: "es_rem s = deg"
    and rest: "es_active s = 0" "es_completed s = 0" "es_failed s = 0" "es_skipped s = 0"
    by (simp_all add: s_def exec_init_def Let_def deg_def)
  have un: "undone x s j = preds x j" for j
    by (auto simp: undone_def st pc)
  have deg: "deg j = of_nat (card (undone x s j))" for j
    using l un [of j] by (simp add: deg_def link_inv_def preds_def x)
  have z: "deg j = 0 \<longleftrightarrow> undone x s j = {}" for j
    unfolding deg using of_nat_word_eq_0 [OF card_undone_less [OF ok, of s j]] finite_undone [OF ok, of s j]
    by simp
  have nb: "\<not> blocked x (es_state s) j" for j
    by (simp add: blocked_def st)
  have "inv_tokens x s"
    unfolding inv_tokens_def
  proof (intro allI impI)
    fix j assume "j < cx_n x"
    then show "tokens x s j = (if due x s j then 1 else 0)"
      by (simp add: tokens_def pc q count_list_filter count_list_upt due_def st z n)
  qed
  moreover have "inv_deps x s"
    by (auto simp: inv_deps_def st z split: if_splits)
  moreover have "inv_rem x s"
    by (simp add: inv_rem_def rem deg)
  moreover have "inv_counts x s"
    by (simp add: inv_counts_def card_in_state_0 st rest)
  moreover have "inv_queue x s"
    by (auto simp: inv_queue_def q runnable_def st n)
  ultimately show ?thesis
    by (simp add: exec_inv_def s_def [symmetric] inv_pcs_def pc inv_resolver_def inv_active_def
      inv_exit_def inv_rollback_def nb rest)
qed

text \<open>
  \<open>launched x s\<close>: \<open>execute\<close> on some well-formed graph has started its workers in state \<open>s\<close>.
  Node indices are \<open>uint32_t\<close>, hence the bound on the number of nodes.
\<close>

definition launched :: "exec_ctx \<Rightarrow> exec_state \<Rightarrow> bool" where
  "launched x s \<longleftrightarrow>
     (\<exists>c g. tg_wf g \<and> length (nodes g) < 2 ^ 32 \<and> execute_entry c g = Launched x s)"

lemma execute_entry_launched:
  "execute_entry c g = Launched x s \<longleftrightarrow> nodes g \<noteq> [] \<and> \<not> hasCycle g \<and>
     x = exec_context c (getAllNodes g) \<and> s = exec_init x (getAllNodes g)"
  by (auto simp: execute_entry_def Let_def tg_empty_def)

lemma launched_ok: "launched x s \<Longrightarrow> ctx_ok x"
  by (auto simp: launched_def execute_entry_launched exec_context_ok)

lemma launched_inv:
  assumes "launched x s"
  shows "exec_inv x s"
proof -
  from assms obtain c g where g: "tg_wf g" "x = exec_context c (getAllNodes g)"
      "s = exec_init x (getAllNodes g)"
    by (auto simp: launched_def execute_entry_launched)
  show ?thesis
    unfolding g(3)
    by (rule exec_init_inv [OF launched_ok [OF assms] g(2)])
      (rule links_of_correct(1) [OF distinct_ids [OF g(1)]])
qed

interpretation exe: transition_system "launched x" "exec_step x" "\<lambda>s. ctx_ok x \<and> exec_inv x s"
  for x
  by unfold_locales (auto intro: launched_ok launched_inv exec_step_inv)

end
