(* ===== verification/Executor_Correct.thy ===== *)
theory Executor_Correct
  imports Executor_Start
begin

text \<open>
  What the executor promises, for every interleaving of its workers, every handler and every
  moment of a \<open>cancel()\<close>: prerequisites complete before a node starts, no node is run by two
  workers, the dependency counters are exact, a system that has not finished can move, runs are
  bounded, and what the final states and the summary say of each other. \<open>reaches g c x as s\<close>
  says that \<open>execute\<close> on graph \<open>g\<close> launched the workers and that the interleaving \<open>as\<close>
  leads to \<open>s\<close>.
\<close>

subsection \<open>Reachable states\<close>

definition reaches ::
  "TaskGraphExecutorConfig \<Rightarrow> TaskGraph \<Rightarrow> exec_ctx \<Rightarrow> exec_action list \<Rightarrow> exec_state \<Rightarrow> bool" where
  "reaches c g x as s \<longleftrightarrow> tg_wf g \<and> length (nodes g) < 2 ^ 32 \<and>
     (case execute_entry c g of Returned sm \<Rightarrow> False
      | Launched x0 s0 \<Rightarrow> x = x0 \<and> (case run_steps (exec_step x) as s0 of None \<Rightarrow> False | Some s1 \<Rightarrow> s = s1))"

lemma reaches_launched:
  "reaches c g x as s \<longleftrightarrow> tg_wf g \<and> length (nodes g) < 2 ^ 32 \<and>
     (\<exists>s0. execute_entry c g = Launched x s0 \<and> run_steps (exec_step x) as s0 = Some s)"
  by (auto simp: reaches_def split: exec_entry.splits option.splits)

lemma reaches_inv: "reaches c g x as s \<Longrightarrow> ctx_ok x \<and> exec_inv x s"
  unfolding reaches_launched using exe.inv_reachable launched_def by blast

lemma reaches_ctx: "reaches c g x as s \<Longrightarrow> x = exec_context c (getAllNodes g)"
  by (auto simp: reaches_launched execute_entry_launched)

lemma reaches_ids: "reaches c g x as s \<Longrightarrow> cx_ids x = node_ids_of g"
  using reaches_ctx [of c g x as s] by (simp add: reaches_launched map_tn_id_nodes)

lemma preds_edges:
  assumes "reaches c g x as s" "j < length (nodes g)"
  shows "i \<in> preds x j \<longleftrightarrow> i < length (nodes g) \<and> (node_ids_of g ! i, node_ids_of g ! j) \<in> tg_edges g"
proof -
  have g: "tg_wf g" and x: "x = exec_context c (getAllNodes g)"
    using assms(1) reaches_ctx by (auto simp: reaches_launched)
  have id: "tn_id (getAllNodes g ! k) = node_ids_of g ! k" if "k < length (nodes g)" for k
    using map_tn_id_nodes [OF g] that by (metis length_getAllNodes nth_map)
  have "i \<in> preds x j \<longleftrightarrow> (i, j) \<in> ctx_edges x"
    by (simp add: preds_def ctx_edges_def)
  with assms(2) show ?thesis
    unfolding x ctx_edges_graph [OF g] using id by auto
qed

lemma num_workers_pos: "0 < num_workers x"
  by (simp add: num_workers_def Let_def)

subsection \<open>Consequences of the invariant\<close>

lemma inv_undone:
  assumes "exec_inv x s" "j < cx_n x" "es_state s j \<in> {Ready, Running, Completed, Failed}"
  shows "undone x s j = {}"
  using assms by (auto simp: exec_inv_def inv_deps_def)

lemma inv_preds_completed:
  assumes "exec_inv x s" "j < cx_n x" "es_state s j \<in> {Ready, Running, Completed, Failed}" "i \<in> preds x j"
  shows "es_state s i = Completed"
  using inv_undone [OF assms(1-3)] assms(4) by (auto simp: undone_def)

lemma tokens_le_1: "exec_inv x s \<Longrightarrow> j < cx_n x \<Longrightarrow> tokens x s j \<le> 1"
  by (auto simp: exec_inv_def inv_tokens_def split: if_splits)

lemma distinct_count_list: "(\<And>j. count_list xs j \<le> 1) \<Longrightarrow> distinct xs"
proof (induction xs)
  case (Cons a xs)
  have "count_list xs j \<le> 1" for j
    using Cons.prems [of j] by (simp split: if_splits)
  moreover have "count_list xs a = 0"
    using Cons.prems [of a] by simp
  ultimately show ?case
    using Cons.IH by (simp add: count_list_0_iff)
qed simp

lemma queue_distinct:
  assumes "exec_inv x s"
  shows "distinct (es_queue s)"
proof (rule distinct_count_list)
  fix j
  show "count_list (es_queue s) j \<le> 1"
  proof (cases "j \<in> set (es_queue s)")
    case True
    then have "j < cx_n x"
      using exec_inv_queue [OF assms] by (auto simp: inv_queue_def runnable_def)
    from tokens_le_1 [OF assms this] show ?thesis by (simp add: tokens_def)
  qed (simp add: count_list_0_iff)
qed

text \<open>Some action is enabled until every worker has left its loop.\<close>

lemma progress:
  assumes inv: "exec_inv x s" and nf: "\<not> exec_finished x s"
  shows "\<exists>w < num_workers x. exec_step x (Work w) s \<noteq> None \<or>
    (\<forall>res node dur. exec_step x (Return w res node dur) s \<noteq> None)"
proof (rule ccontr)
  assume no: "\<not> ?thesis"
  have stuck: "worker_step x w (es_pc s w) s = None" if "w < num_workers x" for w
    using no that by auto
  have not_running: "es_pc s w \<noteq> WRunning i" if "w < num_workers x" for w i
    using no that by (auto split: prod.splits)
  have pc: "es_pc s w = WIdle \<and> step_idle w s = None \<or> es_pc s w = WExit"
    if "w < num_workers x" for w
  proof (cases "es_pc s w")
    case (WResolve p todo newly)
    with stuck [OF that] show ?thesis by (cases todo) simp_all
  next
    case (WInvalidate f todo)
    with stuck [OF that] show ?thesis by (cases todo) simp_all
  qed (use stuck [OF that] not_running [OF that] in auto)
  then have "busy (es_pc s w) = 0" if "w < num_workers x" for w
    using that by fastforce
  then have "es_active s = 0"
    using inv by (simp add: exec_inv_def inv_active_def)
  then have "step_idle w s \<noteq> None" for w
    by (simp add: step_idle_def split: list.splits)
  with pc nf show False by (auto simp: exec_finished_def)
qed

subsection \<open>The final states\<close>

lemma finished_queue:
  assumes "exec_inv x s" "exec_finished x s" "\<not> es_cancelled s"
  shows "es_queue s = []"
proof -
  have "es_pc s 0 = WExit"
    using assms(2) num_workers_pos by (auto simp: exec_finished_def)
  with assms(1,3) num_workers_pos show ?thesis
    by (auto simp: exec_inv_def inv_exit_def)
qed

lemma finished_undone:
  assumes "exec_finished x s"
  shows "undone x s j = {i \<in> preds x j. es_state s i \<noteq> Completed}"
  using assms by (auto simp: undone_def exec_finished_def)

lemma finished_not_due:
  assumes inv: "exec_inv x s" and fin: "exec_finished x s" and nc: "\<not> es_cancelled s" and j: "j < cx_n x"
  shows "\<not> due x s j"
proof -
  have "tokens x s j = 0"
    using fin finished_queue [OF inv fin nc] by (simp add: tokens_def exec_finished_def)
  moreover have "tokens x s j = (if due x s j then 1 else 0)"
    using inv j by (auto simp: exec_inv_def inv_tokens_def)
  ultimately show ?thesis by (simp split: if_splits)
qed

text \<open>A nonempty set of nodes has a member none of whose prerequisites are in it.\<close>

lemma minimal_node:
  assumes "ctx_ok x" "S \<subseteq> {..<cx_n x}" "S \<noteq> {}"
  shows "\<exists>j \<in> S. \<forall>i \<in> preds x j. i \<notin> S"
proof -
  have "finite (ctx_edges x)"
    by (rule finite_subset [of _ "{..<cx_n x} \<times> {..<cx_n x}"])
      (use assms(1) in \<open>auto simp: ctx_edges_def ctx_ok_def\<close>)
  then have "wf (ctx_edges x)"
    using assms(1) by (simp add: ctx_ok_def finite_acyclic_wf)
  then obtain j where "j \<in> S" "\<And>i. (i, j) \<in> ctx_edges x \<Longrightarrow> i \<notin> S"
    using assms(3) by (metis wfE_min ex_in_conv)
  then show ?thesis by (auto simp: preds_def ctx_edges_def)
qed

lemma finished_outcome:
  assumes inv: "exec_inv x s" and ok: "ctx_ok x" and fin: "exec_finished x s"
    and nc: "\<not> es_cancelled s" and rb: "rollback_on_node_failure (cx_config x)" and j: "j < cx_n x"
  shows "es_state s j \<in> {Completed, Failed, Skipped}"
    and "es_state s j = Skipped \<longleftrightarrow> blocked x (es_state s) j"
proof -
  have nd: "\<not> due x s i" if "i < cx_n x" for i
    by (rule finished_not_due [OF inv fin nc that])
  have bl: "blocked x (es_state s) i \<Longrightarrow> es_state s i \<noteq> Pending" if "i < cx_n x" for i
    using inv rb that fin by (auto simp: exec_inv_def inv_rollback_def exec_finished_def)
  have nrb: "es_state s i \<noteq> RolledBack" if "i < cx_n x" for i
    using inv that by (auto simp: exec_inv_def inv_deps_def)
  have "{i. i < cx_n x \<and> es_state s i = Pending} = {}" (is "?P = {}")
  proof (rule ccontr)
    assume "?P \<noteq> {}"
    then obtain k where k: "k \<in> ?P" "\<forall>i \<in> preds x k. i \<notin> ?P"
      using minimal_node [OF ok, of ?P] by auto
    then obtain i where i: "i \<in> preds x k" "es_state s i \<noteq> Completed"
      using nd [of k] by (auto simp: due_def finished_undone [OF fin])
    then have "i < cx_n x" using ok by (auto simp: preds_def ctx_ok_def)
    moreover have "es_state s i \<noteq> Pending" using k(2) i(1) \<open>i < cx_n x\<close> by auto
    moreover have "es_state s i \<noteq> Failed \<and> es_state s i \<noteq> Skipped"
      using bl [of k] k(1) i(1) by (auto simp: blocked_def)
    ultimately show False
      using nd [of i] nrb [of i] i(2) by (cases "es_state s i") (auto simp: due_def)
  qed
  then show st: "es_state s j \<in> {Completed, Failed, Skipped}"
    using nd [of j] nrb [of j] j by (cases "es_state s j") (auto simp: due_def)
  show "es_state s j = Skipped \<longleftrightarrow> blocked x (es_state s) j"
  proof
    assume "es_state s j = Skipped"
    with inv j show "blocked x (es_state s) j" by (auto simp: exec_inv_def inv_deps_def)
  next
    assume "blocked x (es_state s) j"
    then have "undone x s j \<noteq> {}" by (rule blocked_undone)
    with inv j have "es_state s j = Pending \<or> es_state s j = Skipped"
      by (auto simp: exec_inv_def inv_deps_def)
    with st show "es_state s j = Skipped" by auto
  qed
qed

lemma finished_outcome_no_rollback:
  assumes inv: "exec_inv x s" and fin: "exec_finished x s" and nc: "\<not> es_cancelled s"
    and j: "j < cx_n x" and st: "es_state s j \<notin> {Completed, Failed, Skipped}"
  shows "es_state s j = Pending \<and> (\<exists>i \<in> preds x j. es_state s i \<noteq> Completed)"
proof -
  have "\<not> due x s j" by (rule finished_not_due [OF inv fin nc j])
  moreover have "es_state s j \<noteq> RolledBack"
    using inv j by (auto simp: exec_inv_def inv_deps_def)
  ultimately show ?thesis
    using st by (cases "es_state s j") (auto simp: due_def finished_undone [OF fin])
qed

lemma in_state_disjoint: "u \<noteq> v \<Longrightarrow> in_state x s u \<inter> in_state x s v = {}"
  by (auto simp: in_state_def)

lemma counts_partition:
  assumes inv: "exec_inv x s" and all: "\<And>j. j < cx_n x \<Longrightarrow> es_state s j \<in> {Completed, Failed, Skipped}"
  shows "es_completed s + es_failed s + es_skipped s = cx_n x"
proof -
  have "{..<cx_n x} = in_state x s Completed \<union> in_state x s Failed \<union> in_state x s Skipped"
    using all by (auto simp: in_state_def)
  moreover have "card (in_state x s Completed \<union> in_state x s Failed \<union> in_state x s Skipped) =
      card (in_state x s Completed) + card (in_state x s Failed) + card (in_state x s Skipped)"
    by (simp add: card_Un_disjoint in_state_disjoint Int_Un_distrib2)
  ultimately have "cx_n x = card (in_state x s Completed) + card (in_state x s Failed) + card (in_state x s Skipped)"
    by (metis card_lessThan)
  with inv show ?thesis by (simp add: exec_inv_def inv_counts_def)
qed

text \<open>Nothing is skipped unless something failed.\<close>

lemma skipped_needs_failed:
  assumes inv: "exec_inv x s" and ok: "ctx_ok x" and nf: "es_failed s = 0"
  shows "es_skipped s = 0"
proof -
  have "in_state x s Failed = {}"
    using inv nf by (simp add: exec_inv_def inv_counts_def)
  then have f: "es_state s i \<noteq> Failed" if "i < cx_n x" for i
    using that by (auto simp: in_state_def)
  have "in_state x s Skipped = {}"
  proof (rule ccontr)
    assume "in_state x s Skipped \<noteq> {}"
    then obtain k where k: "k \<in> in_state x s Skipped" "\<forall>i \<in> preds x k. i \<notin> in_state x s Skipped"
      using minimal_node [OF ok, of "in_state x s Skipped"] by (auto simp: in_state_def)
    then have "blocked x (es_state s) k"
      using inv by (auto simp: in_state_def exec_inv_def inv_deps_def)
    then obtain i where i: "i \<in> preds x k" "es_state s i = Failed \<or> es_state s i = Skipped"
      by (auto simp: blocked_def)
    then have "i < cx_n x" using ok by (auto simp: preds_def ctx_ok_def)
    with f [of i] i k(2) show False by (auto simp: in_state_def)
  qed
  with inv show ?thesis by (simp add: exec_inv_def inv_counts_def)
qed

lemma all_completed_iff:
  assumes "exec_inv x s"
  shows "es_completed s = cx_n x \<longleftrightarrow> (\<forall>j < cx_n x. es_state s j = Completed)"
proof -
  have sub: "in_state x s Completed \<subseteq> {..<cx_n x}" by (auto simp: in_state_def)
  have "es_completed s = card (in_state x s Completed)"
    using assms by (simp add: exec_inv_def inv_counts_def)
  moreover have "card (in_state x s Completed) = cx_n x \<longleftrightarrow> in_state x s Completed = {..<cx_n x}"
    using card_subset_eq [OF finite_lessThan sub] by fastforce
  moreover have "in_state x s Completed = {..<cx_n x} \<longleftrightarrow> (\<forall>j < cx_n x. es_state s j = Completed)"
    unfolding in_state_def by blast
  ultimately show ?thesis by simp
qed

subsection \<open>Writing the results back\<close>

lemma sync_back_other: "k \<notin> set ks \<Longrightarrow> map_of (sync_back s i ks m) k = map_of m k"
  by (induction s i ks m rule: sync_back.induct) auto

lemma sync_back_keys [simp]: "um_keys (sync_back s i ks m) = um_keys m"
  by (induction s i ks m rule: sync_back.induct) auto

lemma sync_back_at:
  "distinct ks \<Longrightarrow> t < length ks \<Longrightarrow>
     map_of (sync_back s i ks m) (ks ! t) = map_option (sync_node s (i + t)) (map_of m (ks ! t))"
proof (induction s i ks m arbitrary: t rule: sync_back.induct)
  case (2 s i k ks m)
  show ?case
  proof (cases t)
    case 0
    with 2 show ?thesis by (simp add: sync_back_other)
  next
    case (Suc t')
    moreover have "ks ! t' \<noteq> k" using 2(2,3) Suc by auto
    ultimately show ?thesis using 2 by simp
  qed
qed simp

end
