(* ===== verification/Executor_Bound.thy ===== *)
theory Executor_Bound
  imports Executor_Correct
begin

text \<open>
  A bound on the steps of an execution. \<open>fuel_left\<close> is a weight that pays for everything the
  workers still have to do: a node that is not finished pays for its remaining attempts and for
  the walk over its successors, an entry of the ready queue for one trip through the loop, and
  a worker for what its program point still holds. Every step but \<open>Cancel\<close> lowers it, as long
  as no handler raises a node's retry limit above \<open>M\<close>.
\<close>

definition node_weight :: "exec_ctx \<Rightarrow> int \<Rightarrow> nat \<Rightarrow> TaskNodeState \<Rightarrow> int \<Rightarrow> nat" where
  "node_weight x M i st r =
     (case st of
        Pending \<Rightarrow> 7 + 3 * length (cx_adj x i) + 6 * nat (M - r)
      | Ready \<Rightarrow> 2 + 3 * length (cx_adj x i) + 6 * nat (M - r)
      | Running \<Rightarrow> 2 + 3 * length (cx_adj x i) + 6 * nat (M - r)
      | _ \<Rightarrow> 0)"

fun pc_weight :: "worker_pc \<Rightarrow> nat" where
  "pc_weight WIdle = 1"
| "pc_weight (WPopped i) = 5"
| "pc_weight (WStart i) = 4"
| "pc_weight (WRunning i) = 3"
| "pc_weight (WResolve p todo newly) = 4 + 5 * length newly + 3 * length todo"
| "pc_weight (WCas p j todo newly) = 6 + 5 * length newly + 3 * length todo"
| "pc_weight (WPush newly) = 3 + 5 * length newly"
| "pc_weight (WRequeue i) = 8"
| "pc_weight (WInvalidate f todo) = 3 + 3 * length todo"
| "pc_weight (WSkipCas f c seen todo) = 5 + 3 * length todo"
| "pc_weight WRelease = 2"
| "pc_weight WExit = 0"

definition fuel_left :: "exec_ctx \<Rightarrow> int \<Rightarrow> exec_state \<Rightarrow> nat" where
  "fuel_left x M s = (\<Sum>i < cx_n x. node_weight x M i (es_state s i) (es_retry s i)) +
     (\<Sum>w < num_workers x. pc_weight (es_pc s w)) + 5 * length (es_queue s)"

fun within_limit :: "int \<Rightarrow> exec_action \<Rightarrow> bool" where
  "within_limit M (Return w res node dur) = (tn_max_retries node \<le> M)"
| "within_limit M _ = True"

fun step_cost :: "exec_action \<Rightarrow> nat" where
  "step_cost Cancel = 0"
| "step_cost _ = 1"

lemma sum_change_one:
  fixes f g :: "nat \<Rightarrow> nat"
  assumes "i < n" "\<And>j. j \<noteq> i \<Longrightarrow> g j = f j"
  shows "(\<Sum>j < n. g j) + f i = (\<Sum>j < n. f j) + g i"
proof -
  have "(\<Sum>j \<in> {..<n} - {i}. g j) = (\<Sum>j \<in> {..<n} - {i}. f j)"
    by (rule sum.cong) (use assms(2) in auto)
  with assms(1) show ?thesis by (simp add: sum.remove [of _ i])
qed

lemma pc_weight_update:
  assumes "w < num_workers x" "es_pc s' = (es_pc s)(w := p)"
  shows "(\<Sum>v < num_workers x. pc_weight (es_pc s' v)) + pc_weight (es_pc s w) =
    (\<Sum>v < num_workers x. pc_weight (es_pc s v)) + pc_weight p"
  using sum_fun_upd [of "{..<num_workers x}" w pc_weight "es_pc s" p] assms by simp

lemma fuel_move:
  assumes "w < num_workers x" "es_pc s' = (es_pc s)(w := p)"
    "es_state s' = es_state s" "es_retry s' = es_retry s"
    "1 + pc_weight p + 5 * length (es_queue s') \<le> pc_weight (es_pc s w) + 5 * length (es_queue s)"
  shows "fuel_left x M s' < fuel_left x M s"
  using pc_weight_update [OF assms(1,2)] assms(3-5) by (simp add: fuel_left_def)

lemma fuel_change:
  assumes w: "w < num_workers x" "es_pc s' = (es_pc s)(w := p)" and i: "i < cx_n x"
    and other: "\<And>j. j \<noteq> i \<Longrightarrow> es_state s' j = es_state s j \<and> es_retry s' j = es_retry s j"
    and q: "es_queue s' = es_queue s"
    and le: "1 + pc_weight p + node_weight x M i (es_state s' i) (es_retry s' i) \<le>
      pc_weight (es_pc s w) + node_weight x M i (es_state s i) (es_retry s i)"
  shows "fuel_left x M s' < fuel_left x M s"
proof -
  have "(\<Sum>j < cx_n x. node_weight x M j (es_state s' j) (es_retry s' j)) +
      node_weight x M i (es_state s i) (es_retry s i) =
      (\<Sum>j < cx_n x. node_weight x M j (es_state s j) (es_retry s j)) +
      node_weight x M i (es_state s' i) (es_retry s' i)"
    by (rule sum_change_one [OF i]) (simp add: other)
  with pc_weight_update [OF w] le show ?thesis by (simp add: fuel_left_def q)
qed

lemma worker_step_fuel:
  assumes inv: "exec_inv x s" and ctx: "ctx_ok x" and w: "w < num_workers x" and pc: "es_pc s w = p"
    and step: "worker_step x w p s = Some s'"
  shows "fuel_left x M s' < fuel_left x M s"
proof -
  note ok = pc_ok_at [OF inv w pc]
  note move = fuel_move [OF w, of s' s] and change = fuel_change [OF w, of s' s]
  show ?thesis
  proof (cases p)
    case WIdle
    with step have "s' = es_goto w WExit s \<or> (\<exists>i q. es_queue s = i # q \<and>
        s' = es_goto w (WPopped i) (s\<lparr>es_queue := q, es_active := es_active s + 1\<rparr>))"
      by (auto simp: step_idle_def split: if_splits list.splits)
    then show ?thesis
    proof (elim disjE exE conjE)
      assume "s' = es_goto w WExit s"
      with WIdle pc show ?thesis by (intro move [where p = WExit]) (simp_all add: es_goto_def)
    next
      fix i q
      assume "es_queue s = i # q" "s' = es_goto w (WPopped i) (s\<lparr>es_queue := q, es_active := es_active s + 1\<rparr>)"
      with WIdle pc show ?thesis by (intro move [where p = "WPopped i"]) (simp_all add: es_goto_def)
    qed
  next
    case (WPopped i)
    with step show ?thesis
      by (intro move [where p = "if es_state s i = Skipped then WRelease else WStart i"])
        (auto simp: step_popped_def es_goto_def pc)
  next
    case (WStart i)
    with ok step show ?thesis
      by (intro change [where p = "WRunning i" and i = i])
        (auto simp: step_start_def es_enter_def es_goto_def pc runnable_def node_weight_def)
  next
    case (WResolve h todo newly)
    show ?thesis
    proof (cases todo)
      case Nil
      with WResolve step show ?thesis
        by (intro move [where p = "if newly = [] then WRelease else WPush newly"]) (auto simp: es_goto_def pc)
    next
      case (Cons j js)
      with WResolve step show ?thesis
        by (intro move [where p = "if es_rem s j = 1 then WCas h j js newly else WResolve h js newly"])
          (auto simp: step_resolve_def es_goto_def pc)
    qed
  next
    case (WCas h j todo newly)
    with ok ctx have st: "es_state s j = Pending" and j: "j < cx_n x"
      by (auto simp: ctx_ok_def)
    with WCas step show ?thesis
      by (intro change [where p = "WResolve h todo (newly @ [j])" and i = j])
        (auto simp: step_cas_def es_enter_def es_goto_def pc node_weight_def)
  next
    case (WPush newly)
    with step show ?thesis
      by (intro move [where p = WRelease]) (auto simp: step_push_def es_goto_def pc)
  next
    case (WRequeue i)
    with step show ?thesis
      by (intro move [where p = WRelease]) (auto simp: step_push_def es_goto_def pc)
  next
    case (WInvalidate f todo)
    show ?thesis
    proof (cases todo)
      case Nil
      with WInvalidate step show ?thesis
        by (intro move [where p = WRelease]) (auto simp: es_goto_def pc)
    next
      case (Cons c cs)
      let ?st = "es_state s c"
      from Cons WInvalidate step show ?thesis
        by (intro move [where p = "if ?st \<noteq> Skipped \<and> ?st \<noteq> Completed \<and> ?st \<noteq> Failed
              then WSkipCas f c ?st cs else WInvalidate f cs"])
          (auto simp: step_invalidate_def es_goto_def pc Let_def)
    qed
  next
    case (WSkipCas f c seen todo)
    with ok have c: "c < cx_n x" and seen: "seen = Pending" by auto
    show ?thesis
    proof (cases "es_state s c = seen")
      case True
      with c seen WSkipCas step show ?thesis
        by (intro change [where p = "WInvalidate f (todo @ cx_adj x c)" and i = c])
          (auto simp: step_skip_def es_enter_def es_goto_def pc node_weight_def Let_def)
    next
      case False
      with WSkipCas step show ?thesis
        by (intro move [where p = "WInvalidate f todo"]) (auto simp: step_skip_def es_goto_def pc)
    qed
  next
    case WRelease
    with step show ?thesis
      by (intro move [where p = WIdle]) (auto simp: step_release_def es_goto_def pc)
  qed (use step in simp_all)
qed

lemma step_return_fuel:
  assumes inv: "exec_inv x s" and w: "w < num_workers x" and pc: "es_pc s w = WRunning i"
    and lim: "\<not> er_success res \<longrightarrow> tn_max_retries node \<le> M"
  shows "fuel_left x M (step_return x w i res node dur s) < fuel_left x M s"
proof -
  have i: "i < cx_n x" and st: "es_state s i = Running"
    using pc_ok_at [OF inv w pc] by auto
  note change = fuel_change [OF w _ i, of _ s]
  show ?thesis
  proof (cases "er_success res")
    case True
    then show ?thesis
      by (intro change [where p = "WResolve i (cx_adj x i) []"])
        (simp_all add: step_return_def step_return_success_def es_enter_def es_goto_def Let_def pc st node_weight_def)
  next
    case fail: False
    show ?thesis
    proof (cases "es_retry s i + 1 \<le> tn_max_retries node")
      case True
      with fail lim have "nat (M - es_retry s i) = Suc (nat (M - (es_retry s i + 1)))"
        by auto
      with True fail show ?thesis
        by (intro change [where p = "WRequeue i"])
          (simp_all add: step_return_def step_return_failure_def es_enter_def es_goto_def Let_def pc st node_weight_def)
    next
      case False
      with fail show ?thesis
        by (intro change [where p = "if rollback_on_node_failure (cx_config x) then WInvalidate i (cx_adj x i) else WRelease"])
          (simp_all add: step_return_def step_return_failure_def es_enter_def es_goto_def Let_def pc st node_weight_def)
    qed
  qed
qed

lemma exec_step_fuel:
  assumes "ctx_ok x \<and> exec_inv x s" "within_limit M a" "exec_step x a s = Some s'"
  shows "step_cost a + fuel_left x M s' \<le> fuel_left x M s"
proof (cases a)
  case (Work w)
  with assms have "fuel_left x M s' < fuel_left x M s"
    by (intro worker_step_fuel [of x s w]) (auto split: if_splits)
  with Work show ?thesis by simp
next
  case (Return w res node dur)
  with assms(3) obtain i where w: "w < num_workers x" "es_pc s w = WRunning i"
    and s': "s' = (case handler_outcome x i res node s of (r, n) \<Rightarrow> step_return x w i r n dur s)"
    by (auto split: if_splits worker_pc.splits prod.splits)
  from Return assms(2) have "fuel_left x M s' < fuel_left x M s"
    using step_return_fuel [OF _ w] assms(1)
    by (auto simp: s' handler_outcome_def default_result_def)
  with Return show ?thesis by simp
next
  case Cancel
  with assms(3) show ?thesis by (auto simp: fuel_left_def)
qed

lemma run_fuel:
  assumes "ctx_ok x \<and> exec_inv x s" "list_all (within_limit M) as" "run_steps (exec_step x) as s = Some s'"
  shows "sum_list (map step_cost as) + fuel_left x M s' \<le> fuel_left x M s"
  by (rule exe.run_cost [where ok = "within_limit M"]) (fact assms exec_step_fuel | rule exec_step_fuel; assumption)+

end
