(* ===== verification/TaskGraph_Properties.thy ===== *)
theory TaskGraph_Properties
  imports Executor_Bound
begin

text \<open>
  The properties of the task graph and of its executor. The example graph (\<open>a\<close> before \<open>b\<close>,
  and \<open>c\<close> on its own) and its interleavings on two workers are the concrete inputs of the
  witnesses: \<open>demo_mid\<close> stops while \<open>c\<close> has completed and \<open>a\<close> has failed, \<open>demo_final\<close>
  when both workers have left.
\<close>

subsection \<open>The example\<close>

definition demo_node :: "string \<Rightarrow> string list \<Rightarrow> TaskNode" where
  "demo_node i ds = default_TaskNode\<lparr>tn_id := i, dependencies := ds, tn_max_retries := 0\<rparr>"

definition demo_graph :: TaskGraph where
  "demo_graph = snd (addNode (demo_node ''c'' []) (snd (addNode (demo_node ''b'' [''a''])
     (snd (addNode (demo_node ''a'' []) (new_TaskGraph ''demo''))))))"

definition demo_cyclic :: TaskGraph where
  "demo_cyclic = snd (addDependency ''b'' ''a'' demo_graph)"

definition demo_config :: "bool \<Rightarrow> TaskGraphExecutorConfig" where
  "demo_config rb = \<lparr>max_concurrency = 2, rollback_on_node_failure = rb, has_handler = True\<rparr>"

definition demo_ctx :: "bool \<Rightarrow> exec_ctx" where
  "demo_ctx rb = exec_context (demo_config rb) (getAllNodes demo_graph)"

definition demo_start :: "bool \<Rightarrow> exec_state" where
  "demo_start rb = exec_init (demo_ctx rb) (getAllNodes demo_graph)"

definition demo_good :: TaskExecutionResult where
  "demo_good = \<lparr>er_success = True, er_output = ''ok'', er_error = []\<rparr>"

definition demo_bad :: TaskExecutionResult where
  "demo_bad = \<lparr>er_success = False, er_output = [], er_error = ''no''\<rparr>"

definition demo_pre :: "exec_action list" where
  "demo_pre = [Work 0, Work 1, Work 0, Work 1, Work 0, Work 1,
     Return 0 demo_bad (demo_node ''a'' []) 3, Return 1 demo_good (demo_node ''c'' []) 5]"

text \<open>\<open>a\<close> succeeds on worker 0, which is left about to decrement the counter of \<open>b\<close>.\<close>

definition demo_resolving :: "exec_action list" where
  "demo_resolving = [Work 0, Work 1, Work 0, Work 1, Work 0, Work 1,
     Return 0 demo_good (demo_node ''a'' []) 3]"

text \<open>Then worker 0 goes on until the handler of \<open>b\<close> is running.\<close>

definition demo_b_running :: "exec_action list" where
  "demo_b_running = demo_resolving @ replicate 8 (Work 0)"

definition demo_all :: "bool \<Rightarrow> exec_action list" where
  "demo_all rb = demo_pre @ replicate (if rb then 4 else 1) (Work 0) @ replicate 3 (Work 1) @ [Work 0]"

definition demo_at :: "bool \<Rightarrow> exec_action list \<Rightarrow> exec_state" where
  "demo_at rb as = the (run_steps (exec_step (demo_ctx rb)) as (demo_start rb))"

lemma demo_graph_ok: "tg_inv demo_graph" "nodes demo_graph \<noteq> []" "\<not> hasCycle demo_graph"
  "length (nodes demo_graph) = 3"
  by (simp_all add: demo_graph_def addNode_inv tg_inv_new) code_simp+

lemma demo_reaches:
  "\<not> Option.is_none (run_steps (exec_step (demo_ctx rb)) as (demo_start rb)) \<Longrightarrow>
     reaches (demo_config rb) demo_graph (demo_ctx rb) as (demo_at rb as)"
  using demo_graph_ok
  by (auto simp: reaches_launched execute_entry_launched demo_ctx_def demo_start_def demo_at_def
    tg_inv_def Option.is_none_def)

lemma demo_runs:
  "reaches (demo_config True) demo_graph (demo_ctx True) demo_pre (demo_at True demo_pre)"
  "reaches (demo_config True) demo_graph (demo_ctx True) demo_resolving (demo_at True demo_resolving)"
  "reaches (demo_config True) demo_graph (demo_ctx True) demo_b_running (demo_at True demo_b_running)"
  "reaches (demo_config True) demo_graph (demo_ctx True) (demo_all True) (demo_at True (demo_all True))"
  "reaches (demo_config False) demo_graph (demo_ctx False) (demo_all False) (demo_at False (demo_all False))"
  by (rule demo_reaches, code_simp)+

lemma tg_edges_iff: "(a, b) \<in> tg_edges g \<longleftrightarrow> a \<in> set (node_ids_of g) \<and> b \<in> set (node_ids_of g) \<and>
    (names_dependency (nodes g) a b \<or> names_dependent (nodes g) a b)"
  by (simp add: tg_edges_def)

lemma demo_final_done:
  "exec_finished (demo_ctx True) (demo_at True (demo_all True))"
  "\<not> es_cancelled (demo_at True (demo_all True))"
  "rollback_on_node_failure (cx_config (demo_ctx True))"
  "exec_finished (demo_ctx False) (demo_at False (demo_all False))"
  "\<not> es_cancelled (demo_at False (demo_all False))"
  by code_simp+

subsection \<open>Safety of the executor\<close>

text \<open>
  C1: In every reachable state, if a node of the graph is Ready, Running, Completed or Failed,
  then every prerequisite of it in the graph has Completed: no node is offered to a worker,
  let alone run, before all its prerequisites have succeeded.
\<close>

theorem exec_prereqs_first:
  assumes "reaches c g x as s" "i < length (nodes g)" "j < length (nodes g)"
    and "(node_ids_of g ! i, node_ids_of g ! j) \<in> tg_edges g"
    and "es_state s j \<in> {Ready, Running, Completed, Failed}"
  shows "es_state s i = Completed"
  using inv_preds_completed [of x s j i] preds_edges [OF assms(1,3)] reaches_inv [OF assms(1)]
    reaches_ids [OF assms(1)] assms(2-5) by simp

theorem exec_prereqs_first_witness:
  "es_state (demo_at True demo_b_running) 0 = Completed"
  by (rule exec_prereqs_first [OF demo_runs(3), of 0 1]; (unfold tg_edges_iff)?; code_simp)

lemma tok_bound:
  "ctx_ok x \<Longrightarrow> pc_ok x st p \<Longrightarrow> i \<in> set (tok p) \<Longrightarrow> i < cx_n x"
  by (cases p) (auto simp: runnable_def ctx_ok_def)

text \<open>
  C5: A right to run a node (\<open>tok\<close>: the node a worker has popped, is starting, is running, is
  about to requeue or is about to push) is held by at most one worker, and by none while the
  node is in the ready queue, which has no repetition. So no node is ever run by two workers.
\<close>

theorem exec_exclusive:
  assumes "reaches c g x as s" "w < num_workers x" "v < num_workers x" "v \<noteq> w"
  shows "distinct (es_queue s) \<and> set (tok (es_pc s w)) \<inter> set (es_queue s) = {} \<and>
    set (tok (es_pc s w)) \<inter> set (tok (es_pc s v)) = {}"
proof -
  have inv: "exec_inv x s" and ok: "ctx_ok x" using reaches_inv [OF assms(1)] by auto
  have b: "i \<in> set (tok (es_pc s w)) \<Longrightarrow> i < cx_n x" for i
    using tok_bound [OF ok pc_ok_at [OF inv assms(2) refl]] .
  have t: "inv_tokens x s" using inv by (simp add: exec_inv_def)
  have "set (tok (es_pc s w)) \<inter> set (es_queue s) = {}"
    using token_unique(1) [OF t assms(2) _ b] by blast
  moreover have "set (tok (es_pc s w)) \<inter> set (tok (es_pc s v)) = {}"
    using token_unique(2) [OF t assms(2) _ b assms(3,4)] by blast
  ultimately show ?thesis
    using queue_distinct [OF inv] by blast
qed

theorem exec_exclusive_witness:
  "set (tok (es_pc (demo_at True (take 6 demo_pre)) 0)) \<inter> set (tok (es_pc (demo_at True (take 6 demo_pre)) 1)) = {}"
  by (rule exec_exclusive [OF demo_reaches, of True "take 6 demo_pre" 0 1, THEN conjunct2, THEN conjunct2]) code_simp+

text \<open>
  C14: The dependency counter of a node (a \<open>uint32_t\<close>) is exactly the number of its
  prerequisites that have not completed or whose completion a worker has still to report; a
  worker that is about to decrement it finds it nonzero, so the counter never wraps.
\<close>

theorem exec_counter_exact:
  assumes "reaches c g x as s" "j < length (nodes g)"
  shows "unat (es_rem s j) = card (undone x s j) \<and>
    (\<forall>w < num_workers x. \<forall>p todo newly. es_pc s w = WResolve p (j # todo) newly \<longrightarrow> es_rem s j \<noteq> 0)"
proof -
  have inv: "exec_inv x s" and ok: "ctx_ok x" using reaches_inv [OF assms(1)] by auto
  have n: "cx_n x = length (nodes g)" using reaches_ids [OF assms(1)] by simp
  have rem: "es_rem s j = of_nat (card (undone x s j))"
    using inv assms(2) n by (simp add: exec_inv_def inv_rem_def)
  have "es_rem s j \<noteq> 0" if w: "w < num_workers x" and pc: "es_pc s w = WResolve p (j # todo) newly"
    for w p todo newly
  proof -
    have "p \<in> undone x s j"
      using pc_ok_at [OF inv w pc] w pc by (auto simp: undone_def preds_def)
    then have "card (undone x s j) \<noteq> 0"
      using finite_undone [OF ok] by auto
    then show ?thesis
      using of_nat_word_eq_0 [OF card_undone_less [OF ok]] by (simp add: rem)
  qed
  moreover have "unat (es_rem s j) = card (undone x s j)"
    using card_undone_less [OF ok, of s j] by (simp add: rem unat_of_nat)
  ultimately show ?thesis by blast
qed

theorem exec_counter_exact_witness:
  "es_rem (demo_at True demo_resolving) 1 \<noteq> 0"
  by (rule exec_counter_exact [OF demo_runs(2), of 1, THEN conjunct2, rule_format, of 0 0 "[]" "[]"]) code_simp+

subsection \<open>Progress and termination\<close>






subsection \<open>The result of an execution\<close>

text \<open>
  C2: When all workers have left, nobody has cancelled and rollback is on, every node is
  Completed, Failed or Skipped, and exactly the nodes with a failed or skipped prerequisite
  are Skipped.
\<close>

theorem exec_outcome:
  assumes "reaches c g x as s" "exec_finished x s" "\<not> es_cancelled s"
    and "rollback_on_node_failure (cx_config x)" "j < length (nodes g)"
  shows "es_state s j \<in> {Completed, Failed, Skipped} \<and>
    (es_state s j = Skipped \<longleftrightarrow>
      (\<exists>i < length (nodes g). (node_ids_of g ! i, node_ids_of g ! j) \<in> tg_edges g \<and>
        es_state s i \<in> {Failed, Skipped}))"
proof -
  have inv: "exec_inv x s" and ok: "ctx_ok x" using reaches_inv [OF assms(1)] by auto
  have n: "j < cx_n x" using reaches_ids [OF assms(1)] assms(5) by simp
  show ?thesis
    using finished_outcome [OF inv ok assms(2-4) n] preds_edges [OF assms(1,5)]
    by (auto simp: blocked_def)
qed

theorem exec_outcome_witness:
  "es_state (demo_at True (demo_all True)) 1 \<in> {Completed, Failed, Skipped} \<and>
    (es_state (demo_at True (demo_all True)) 1 = Skipped \<longleftrightarrow>
      (\<exists>i < length (nodes demo_graph). (node_ids_of demo_graph ! i, node_ids_of demo_graph ! 1) \<in> tg_edges demo_graph \<and>
        es_state (demo_at True (demo_all True)) i \<in> {Failed, Skipped}))"
  by (rule exec_outcome [OF demo_runs(4) demo_final_done(1-3)]) (simp add: demo_graph_ok)

text \<open>
  Without rollback, a node that has not Completed or Failed when the workers have left
  (and nobody cancelled) is still Pending and has a prerequisite that did not complete; it is
  never left Ready or Running.
\<close>

theorem exec_outcome_no_rollback:
  assumes "reaches c g x as s" "exec_finished x s" "\<not> es_cancelled s"
    and "j < length (nodes g)" "es_state s j \<notin> {Completed, Failed, Skipped}"
  shows "es_state s j = Pending \<and>
    (\<exists>i < length (nodes g). (node_ids_of g ! i, node_ids_of g ! j) \<in> tg_edges g \<and> es_state s i \<noteq> Completed)"
proof -
  have n: "j < cx_n x" using reaches_ids [OF assms(1)] assms(4) by simp
  show ?thesis
    using finished_outcome_no_rollback [OF _ assms(2,3) n assms(5)] reaches_inv [OF assms(1)]
      preds_edges [OF assms(1,4)] by blast
qed

theorem exec_outcome_no_rollback_witness:
  "es_state (demo_at False (demo_all False)) 1 = Pending"
  by (rule exec_outcome_no_rollback [OF demo_runs(5) demo_final_done(4,5), of 1, THEN conjunct1]) code_simp+

text \<open>
  The summary is right: with rollback and no cancellation, the three counters add up to
  the number of nodes, and \<open>success\<close> holds exactly when every node has Completed.
\<close>

theorem exec_summary_right:
  assumes "reaches c g x as s" "exec_finished x s" "\<not> es_cancelled s"
    and "rollback_on_node_failure (cx_config x)" "sm = execute_summary x s"
  shows "sm_completed sm + sm_failed sm + sm_skipped sm = length (nodes g) \<and>
    sm_total sm = length (nodes g) \<and>
    (sm_success sm \<longleftrightarrow> (\<forall>j < length (nodes g). es_state s j = Completed))"
proof -
  have inv: "exec_inv x s" and ok: "ctx_ok x" using reaches_inv [OF assms(1)] by auto
  have n: "cx_n x = length (nodes g)" using reaches_ids [OF assms(1)] by simp
  have sum: "es_completed s + es_failed s + es_skipped s = cx_n x"
    by (rule counts_partition [OF inv]) (rule finished_outcome(1) [OF inv ok assms(2-4)])
  then have "sm_success sm \<longleftrightarrow> es_completed s = cx_n x"
    using skipped_needs_failed [OF inv ok] assms(3,5) by (auto simp: execute_summary_def)
  with sum all_completed_iff [OF inv] assms(5) n show ?thesis
    by (simp add: execute_summary_def)
qed

theorem exec_summary_right_witness:
  "\<not> sm_success (execute_summary (demo_ctx True) (demo_at True (demo_all True)))"
proof -
  have "es_state (demo_at True (demo_all True)) 0 \<noteq> Completed" by code_simp
  with exec_summary_right [OF demo_runs(4) demo_final_done(1-3) refl] show ?thesis
    by (auto simp: demo_graph_ok)
qed

text \<open>
  \<open>execute\<close> starts no worker exactly when the graph is empty or has a cycle; it then
  reports success for the empty graph only, and the cycle as the one error otherwise.
\<close>

theorem exec_early_return:
  assumes "tg_wf g"
  shows "case execute_entry c g of
      Returned sm \<Rightarrow> (nodes g = [] \<or> \<not> acyclic (tg_edges g)) \<and> (sm_success sm = (nodes g = [])) \<and>
        sm_total sm = length (nodes g) \<and>
        sm_errors sm = (if nodes g = [] then [] else [''TaskGraph contains a cyclic dependency!''])
    | Launched x s \<Rightarrow> nodes g \<noteq> [] \<and> acyclic (tg_edges g)"
  using hasCycle_cyclic [OF assms] by (auto simp: execute_entry_def Let_def tg_empty_def tg_size_def)

theorem exec_early_return_witness:
  "case execute_entry (demo_config True) demo_cyclic of Returned sm \<Rightarrow> \<not> sm_success sm | _ \<Rightarrow> False"
proof -
  have wf: "tg_wf demo_cyclic"
    using addDependency_inv [OF demo_graph_ok(1)] by (simp add: demo_cyclic_def tg_inv_def)
  have "hasCycle demo_cyclic" "nodes demo_cyclic \<noteq> []" by code_simp+
  with hasCycle_cyclic [OF wf] exec_early_return [OF wf, of "demo_config True"] show ?thesis
    by (simp split: exec_entry.splits)
qed

text \<open>
  The write-back after the workers are joined gives every node of the graph the state,
  output, error text, retry count and time of its index, changes no other field of it, and
  touches no node that is not of the execution (one that was added meanwhile, say).
\<close>

theorem exec_write_back:
  assumes "reaches c g x as s" "m = sync_back s 0 (cx_ids x) (nodes g')"
  shows "um_keys m = node_ids_of g' \<and>
    (\<forall>i < length (nodes g). map_of m (node_ids_of g ! i) =
       map_option (\<lambda>n. n\<lparr>tn_state := es_state s i, output_data := es_output s i,
           tn_error_message := es_error s i, tn_retry_count := es_retry s i, execution_time := es_time s i\<rparr>)
         (map_of (nodes g') (node_ids_of g ! i))) \<and>
    (\<forall>k. k \<notin> set (node_ids_of g) \<longrightarrow> map_of m k = map_of (nodes g') k)"
proof -
  have ids: "cx_ids x = node_ids_of g" by (rule reaches_ids [OF assms(1)])
  have d: "distinct (node_ids_of g)" using assms(1) by (simp add: reaches_launched tg_wf_def)
  have f: "sync_node s i = (\<lambda>n. n\<lparr>tn_state := es_state s i, output_data := es_output s i,
      tn_error_message := es_error s i, tn_retry_count := es_retry s i, execution_time := es_time s i\<rparr>)" for i
    by (simp add: sync_node_def fun_eq_iff)
  show ?thesis
    using sync_back_at [OF d, of _ s 0 "nodes g'"] sync_back_other [of _ "node_ids_of g" s 0 "nodes g'"]
    unfolding assms(2) ids f [symmetric] by simp
qed

theorem exec_write_back_witness:
  "map_of (sync_back (demo_at True (demo_all True)) 0 (cx_ids (demo_ctx True)) (nodes demo_graph)) ''zz'' =
     map_of (nodes demo_graph) ''zz''"
  by (rule exec_write_back [OF demo_runs(4) refl, THEN conjunct2, THEN conjunct2, rule_format]) code_simp

subsection \<open>The structure of the graph\<close>

text \<open>
  C16: The representation invariant (distinct ids, every node stored under its own id, and the
  two directions of every edge agreeing) is kept by every operation that writes the graph,
  whether it succeeds or is refused.
\<close>

theorem graph_ops_inv:
  assumes "tg_inv g"
  shows "tg_inv (snd (addNode n g)) \<and> tg_inv (snd (removeNode i g)) \<and>
    tg_inv (snd (addDependency a b g)) \<and> tg_inv (reset g)"
  using assms by (simp add: addNode_inv removeNode_inv addDependency_inv reset_inv)

theorem graph_ops_inv_witness:
  "tg_inv (snd (removeNode ''a'' demo_graph)) \<and> tg_inv demo_cyclic"
  using graph_ops_inv [OF demo_graph_ok(1), of _ "''a''" "''b''" "''a''"] by (simp add: demo_cyclic_def)

text \<open>
  Adding a fresh node adds exactly the edges it declares (in either direction) to nodes of
  the graph, and the edges that nodes added earlier had declared to it before it existed.
\<close>

theorem addNode_edges:
  assumes "map_of (nodes g) (tn_id n) = None" "i = tn_id n" "ks = insert i (set (node_ids_of g))"
  shows "tg_edges (snd (addNode n g)) = tg_edges g \<union>
    {(d, i) |d. d \<in> ks \<and> d \<in> set (dependencies n)} \<union> {(i, s) |s. s \<in> ks \<and> s \<in> set (dependents n)} \<union>
    {(a, i) |a. names_dependent (nodes g) a i} \<union> {(i, b) |b. names_dependency (nodes g) i b}"
proof -
  have nk: "names_dependent (nodes g) a b \<Longrightarrow> a \<in> set (node_ids_of g) \<and> a \<noteq> i"
    "names_dependency (nodes g) a b \<Longrightarrow> b \<in> set (node_ids_of g) \<and> b \<noteq> i" for a b
    using assms(1,2) by (auto simp: names_dependent_def names_dependency_def split: option.splits)
  have "(a, b) \<in> tg_edges (snd (addNode n g)) \<longleftrightarrow> (a, b) \<in> tg_edges g \<or>
      (b = i \<and> a \<in> ks \<and> a \<in> set (dependencies n)) \<or> (a = i \<and> b \<in> ks \<and> b \<in> set (dependents n)) \<or>
      (b = i \<and> names_dependent (nodes g) a i) \<or> (a = i \<and> names_dependency (nodes g) i b)" for a b
    unfolding tg_edges_iff addNode_names [OF assms(1)] addNode_keys [OF assms(1)] assms(3)
      set_append set_simps assms(2) [symmetric]
    by (cases "a = i"; cases "b = i") (use nk in \<open>auto simp del: in_um_keys\<close>)
  then show ?thesis by auto
qed

theorem addNode_edges_witness:
  "(''b'', ''d'') \<in> tg_edges (snd (addNode (demo_node ''d'' [''b'', ''zz'']) demo_graph))"
proof -
  have "(b, d) \<in> tg_edges (snd (addNode n g))"
    if "map_of (nodes g) (tn_id n) = None" "b \<in> set (node_ids_of g)" "b \<in> set (dependencies n)" "tn_id n = d"
    for b d n g
    unfolding addNode_edges [OF that(1) refl refl] using that(2-4) by (auto simp del: in_um_keys)
  then show ?thesis by this code_simp+
qed

text \<open>
  \<open>removeNode\<close> reports whether the node was there; afterwards it is gone together with
  its edges, no remaining node names it in either direction, and every other node and edge is
  still there.
\<close>

theorem removeNode_edges:
  assumes "tg_wf g" "removeNode i g = (r, g')"
  shows "(r \<longleftrightarrow> i \<in> set (node_ids_of g)) \<and> set (node_ids_of g') = set (node_ids_of g) - {i} \<and>
    tg_edges g' = {(a, b). (a, b) \<in> tg_edges g \<and> a \<noteq> i \<and> b \<noteq> i} \<and>
    (r \<longrightarrow> (\<forall>a. \<not> names_dependency (nodes g') i a \<and> \<not> names_dependent (nodes g') a i))"
proof (cases "map_of (nodes g) i")
  case None
  with assms(2) have "r = False" "g' = g" by (simp_all add: removeNode_def)
  with None show ?thesis by (auto simp: tg_edges_iff)
next
  case (Some n)
  with assms(2) have r: "r" and g': "nodes g' = map (\<lambda>(k, n). (k, forget_node i n)) (AList.delete i (nodes g))"
    by (auto simp: removeNode_def)
  have "a \<in> set (node_ids_of g') \<longleftrightarrow> a \<in> set (node_ids_of g) \<and> a \<noteq> i" for a
    by (simp add: g')
  with r Some show ?thesis
    unfolding tg_edges_def by (auto simp: g' names_forget names_delete simp del: keys_map_snd)
qed

theorem removeNode_edges_witness:
  "set (node_ids_of (snd (removeNode ''a'' demo_graph))) = set (node_ids_of demo_graph) - {''a''}"
proof -
  have "tg_wf demo_graph" using demo_graph_ok(1) by (simp add: tg_inv_def)
  from removeNode_edges [OF this prod.collapse [symmetric]] show ?thesis by blast
qed

text \<open>
  \<open>addDependency\<close> succeeds exactly for two different nodes of the graph; it then adds
  that one edge and no other, and otherwise it leaves the graph as it is.
\<close>

theorem addDependency_edges:
  assumes "addDependency a b g = (r, g')"
  shows "(r \<longleftrightarrow> a \<noteq> b \<and> a \<in> set (node_ids_of g) \<and> b \<in> set (node_ids_of g)) \<and>
    node_ids_of g' = node_ids_of g \<and>
    tg_edges g' = (if r then insert (a, b) (tg_edges g) else tg_edges g)"
  using assms by (auto simp: addDependency_def tg_edges_def edge_simps split: if_splits)

theorem addDependency_edges_witness:
  "tg_edges demo_cyclic = insert (''b'', ''a'') (tg_edges demo_graph)"
proof -
  have "fst (addDependency ''b'' ''a'' demo_graph)" by code_simp
  with addDependency_edges [of "''b''" "''a''" demo_graph, OF prod.collapse [symmetric]] show ?thesis
    by (simp add: demo_cyclic_def)
qed

subsection \<open>Cycles, order and levels\<close>

text \<open>
  C15: The three-colour depth-first search of \<open>hasCycle\<close> answers true exactly when some node
  of the graph can be reached from itself along one or more edges.
\<close>

theorem hasCycle_iff:
  assumes "tg_wf g"
  shows "hasCycle g \<longleftrightarrow> (\<exists>v \<in> set (node_ids_of g). (v, v) \<in> (tg_edges g)\<^sup>+)"
proof -
  have "v \<in> set (node_ids_of g)" if "(v, v) \<in> (tg_edges g)\<^sup>+" for v
    using that by (induction rule: tranclE) (simp_all add: tg_edges_iff del: in_um_keys)
  then show ?thesis
    unfolding hasCycle_cyclic [OF assms] acyclic_def by blast
qed

theorem hasCycle_iff_witness:
  "\<exists>v \<in> set (node_ids_of demo_cyclic). (v, v) \<in> (tg_edges demo_cyclic)\<^sup>+"
proof -
  have "tg_wf demo_cyclic"
    using addDependency_inv [OF demo_graph_ok(1)] by (simp add: demo_cyclic_def tg_inv_def)
  moreover have "hasCycle demo_cyclic" by code_simp
  ultimately show ?thesis using hasCycle_iff by blast
qed

text \<open>
  \<open>getTopologicalOrder\<close> of a graph with nodes is empty exactly when the graph has a
  cycle; otherwise it lists every node once and every prerequisite before its dependents.
\<close>

theorem topological_order_right:
  assumes "tg_wf g" "nodes g \<noteq> []"
  shows "(getTopologicalOrder g = [] \<longleftrightarrow> \<not> acyclic (tg_edges g)) \<and>
    (acyclic (tg_edges g) \<longrightarrow> mset (getTopologicalOrder g) = mset (node_ids_of g) \<and>
      topological_sort (tg_edges g) (getTopologicalOrder g))"
proof -
  have d: "distinct (node_ids_of g)" using assms(1) by (simp add: tg_wf_def)
  have "mset (getTopologicalOrder g) = mset (node_ids_of g)" if "\<not> hasCycle g"
    using topological_order_sorted [OF assms(1) that] d
    by (auto simp: topological_sort_def set_eq_iff_mset_eq_distinct simp del: in_um_keys)
  with topological_order_empty_iff [OF assms] topological_order_sorted [OF assms(1)] hasCycle_cyclic [OF assms(1)]
  show ?thesis by blast
qed

theorem topological_order_right_witness:
  "getTopologicalOrder demo_graph = [''a'', ''c'', ''b''] \<and>
    topological_sort (tg_edges demo_graph) (getTopologicalOrder demo_graph)"
proof -
  have wf: "tg_wf demo_graph" using demo_graph_ok(1) by (simp add: tg_inv_def)
  then have "acyclic (tg_edges demo_graph)"
    using demo_graph_ok(3) hasCycle_cyclic by blast
  then have "topological_sort (tg_edges demo_graph) (getTopologicalOrder demo_graph)"
    using topological_order_right [OF wf demo_graph_ok(2)] by blast
  moreover have "getTopologicalOrder demo_graph = [''a'', ''c'', ''b'']" by code_simp
  ultimately show ?thesis by blast
qed

text \<open>
  In \<open>getExecutionLevels\<close> every prerequisite of a node lies in a strictly earlier level,
  so the nodes of one level are independent; no level is empty; and for an acyclic graph the
  levels one after the other are the topological order.
\<close>

theorem execution_levels_right:
  assumes "tg_wf g"
  shows "levels_ok (tg_edges g) (getExecutionLevels g) \<and> [] \<notin> set (getExecutionLevels g) \<and>
    (acyclic (tg_edges g) \<longrightarrow> concat (getExecutionLevels g) = getTopologicalOrder g)"
  using execution_levels_strict [OF assms] execution_levels_concat [OF assms] hasCycle_cyclic [OF assms]
  by blast

theorem execution_levels_right_witness:
  "levels_ok (tg_edges demo_graph) (getExecutionLevels demo_graph) \<and>
    length (getExecutionLevels demo_graph) = 2"
proof -
  have wf: "tg_wf demo_graph" using demo_graph_ok(1) by (simp add: tg_inv_def)
  have "length (getExecutionLevels demo_graph) = 2" by code_simp
  with execution_levels_right [OF wf] show ?thesis by blast
qed

subsection \<open>Ready nodes\<close>

lemma all_completed_iff_ball:
  "all_completed m ds \<longleftrightarrow> (\<forall>d \<in> set ds. \<exists>n. map_of m d = Some n \<and> tn_state n = Completed)"
  by (induction m ds rule: all_completed.induct) (auto split: option.splits)

text \<open>
  \<open>getReadyNodes\<close> lists, each once, the Pending nodes all of whose prerequisites are
  nodes of the graph that have Completed. In particular a node that names a prerequisite the
  graph does not have is never listed, although \<open>execute\<close> ignores that name and runs it.
\<close>

theorem ready_nodes_right:
  assumes "tg_wf g"
  shows "distinct (getReadyNodes g) \<and> (\<forall>i. i \<in> set (getReadyNodes g) \<longleftrightarrow>
    (\<exists>n. getNode i g = Some n \<and> tn_state n = Pending \<and>
      (\<forall>d \<in> set (dependencies n). (d, i) \<in> tg_edges g \<and>
         (\<exists>p. getNode d g = Some p \<and> tn_state p = Completed))))"
proof -
  have d: "distinct (node_ids_of g)" using assms by (simp add: tg_wf_def)
  then have "distinct (getReadyNodes g)"
    unfolding getReadyNodes_def um_keys_def by (rule distinct_map_filter)
  moreover have "i \<in> set (getReadyNodes g) \<longleftrightarrow> (\<exists>n. map_of (nodes g) i = Some n \<and>
      tn_state n = Pending \<and> all_completed (nodes g) (dependencies n))" for i
    using distinct_map_of_iff [OF d] by (force simp: getReadyNodes_def)
  moreover have "(d, i) \<in> tg_edges g" if "map_of (nodes g) i = Some n" "d \<in> set (dependencies n)"
      "map_of (nodes g) d = Some p" for i n d p
    using that by (simp add: tg_edges_iff names_dependency_def)
  ultimately show ?thesis
    unfolding all_completed_iff_ball getNode_def by blast
qed

theorem ready_nodes_right_witness:
  "\<exists>n. getNode ''a'' demo_graph = Some n \<and> tn_state n = Pending"
proof -
  have wf: "tg_wf demo_graph" using demo_graph_ok(1) by (simp add: tg_inv_def)
  have "''a'' \<in> set (getReadyNodes demo_graph)" by code_simp
  with ready_nodes_right [OF wf] show ?thesis by blast
qed

end
