(* ===== verification/Scheduler.thy ===== *)
theory Scheduler
  imports Prelude "HOL-Library.List_Lexorder" "HOL-Library.Product_Lexorder" "HOL-Library.Char_ord"
begin

text \<open>
  The task scheduler of \<open>src/src/scheduler/scheduler.h\<close> and \<open>scheduler.cpp\<close>: a table of tasks,
  a priority queue of ids and a pool of worker threads. Every public operation and every
  critical section of a worker holds the scheduler's mutex, so each is one step
  (\<open>sched_step\<close>); a worker is outside the mutex while it executes a task's work or its
  completion callback, and \<open>worker_state\<close> records that.

  \<^item> The queue is a heap of pairs \<open>(-priority, id)\<close> with the smallest on top
    (\<open>std::greater\<close>). It is modelled as the list of its entries; \<open>heap_top\<close> is the least pair
    in the lexicographic order of the library, which is that of \<open>std::pair\<close> and
    \<open>std::string\<close>.
  \<^item> \<open>submit\<close> reads \<open>task.id\<close> after the task has been moved into the table. What a
    moved-from string holds is not specified by the language, so it is the parameter \<open>mv\<close>:
    \<open>mv i\<close> is what is left of the id \<open>i\<close>. (The common library leaves the empty string.)
  \<^item> Fields that a constructor leaves uninitialised are taken from a task \<open>junk\<close>.
  \<^item> The work and the callbacks are user code; what they do (return, or throw with a message)
    is part of the action. Ids come from a random generator: \<open>Submit\<close> carries the id and is a
    step only for one that is not in use.
\<close>

subsection \<open>Data\<close>

datatype TaskPriority = Low | Normal | High | Critical

fun priority_value :: "TaskPriority \<Rightarrow> int" where
  "priority_value Low = 0"
| "priority_value Normal = 1"
| "priority_value High = 2"
| "priority_value Critical = 3"

lemma priority_value_inject [simp]: "priority_value p = priority_value q \<longleftrightarrow> p = q"
  by (cases p; cases q) simp_all

instantiation TaskPriority :: linorder
begin

definition less_eq_TaskPriority :: "TaskPriority \<Rightarrow> TaskPriority \<Rightarrow> bool" where
  "less_eq_TaskPriority p q \<longleftrightarrow> priority_value p \<le> priority_value q"

definition less_TaskPriority :: "TaskPriority \<Rightarrow> TaskPriority \<Rightarrow> bool" where
  "less_TaskPriority p q \<longleftrightarrow> priority_value p < priority_value q"

instance
  by standard (auto simp: less_eq_TaskPriority_def less_TaskPriority_def)

end

datatype TaskState = Pending | Running | Paused | Completed | Failed | Cancelled

record Task =
  tk_id :: string
  tk_name :: string
  tk_description :: string
  priority :: TaskPriority
  tk_state :: TaskState
  created_at :: int
  started_at :: int
  completed_at :: int
  has_work :: bool
  has_on_complete :: bool
  tk_error_message :: string
  retry_count :: nat
  max_retries :: nat
  timeout :: int
  tk_dependencies :: "string list"
  cancellable :: bool

text \<open>\<open>tasks[k]\<close> for a missing key: a value-initialised task.\<close>

definition zero_Task :: Task where
  "zero_Task = \<lparr>tk_id = [], tk_name = [], tk_description = [], priority = Low, tk_state = Pending,
     created_at = 0, started_at = 0, completed_at = 0, has_work = False, has_on_complete = False,
     tk_error_message = [], retry_count = 0, max_retries = 0, timeout = 0, tk_dependencies = [],
     cancellable = False\<rparr>"

text \<open>
  A worker waits for the queue; has taken a task and is to look it up again; is executing the
  work of a task; is calling \<open>on_complete\<close>; or has left \<open>workerThread\<close>.
\<close>

datatype worker_state = Waiting | Took string | Executing string | Notifying string | Exited

record Scheduler =
  tasks :: "(string, Task) umap"
  task_queue :: "(int \<times> string) list"
  workers :: "worker_state list"
  total_submitted :: nat
  total_completed :: nat
  total_failed :: nat
  total_cancelled :: nat
  sc_running :: bool
  sc_stopping :: bool
  num_worker_threads :: nat
  default_timeout :: int
  default_max_retries :: nat

definition new_Scheduler :: "nat \<Rightarrow> Scheduler" where
  "new_Scheduler n = \<lparr>tasks = [], task_queue = [], workers = [], total_submitted = 0,
     total_completed = 0, total_failed = 0, total_cancelled = 0, sc_running = False,
     sc_stopping = False, num_worker_threads = n, default_timeout = 30000, default_max_retries = 3\<rparr>"

definition initialize :: "Scheduler \<Rightarrow> bool \<times> Scheduler" where
  "initialize s =
     (if sc_running s then (True, s)
      else (True, s\<lparr>sc_running := True, sc_stopping := False,
             workers := workers s @ replicate (num_worker_threads s) Waiting\<rparr>))"

subsection \<open>Submitting\<close>

definition enqueue :: "TaskPriority \<Rightarrow> string \<Rightarrow> (int \<times> string) list \<Rightarrow> (int \<times> string) list" where
  "enqueue p i q = q @ [(- priority_value p, i)]"

definition submit_task ::
  "(string \<Rightarrow> string) \<Rightarrow> string \<Rightarrow> int \<Rightarrow> Task \<Rightarrow> Scheduler \<Rightarrow> string \<times> Scheduler" where
  "submit_task mv gid now task s =
     (if sc_stopping s then ([], s)
      else
        let t = task\<lparr>tk_id := gid, tk_state := Pending, created_at := now,
              max_retries := (if max_retries task = 0 then default_max_retries s else max_retries task),
              timeout := (if timeout task = 0 then default_timeout s else timeout task)\<rparr>;
            ts1 = AList.update gid t (tasks s);
            left = mv gid;
            ts2 = (if map_of ts1 left = None then AList.update left zero_Task ts1 else ts1)
        in (left, s\<lparr>tasks := ts2, total_submitted := total_submitted s + 1,
              task_queue := enqueue (priority (um_get zero_Task ts2 left)) left (task_queue s)\<rparr>))"

definition submit_work ::
  "(string \<Rightarrow> string) \<Rightarrow> string \<Rightarrow> int \<Rightarrow> string \<Rightarrow> TaskPriority \<Rightarrow> Scheduler \<Rightarrow> string \<times> Scheduler" where
  "submit_work mv gid now nm p s =
     submit_task mv gid now (zero_Task\<lparr>tk_name := nm, has_work := True, priority := p,
       max_retries := default_max_retries s, timeout := default_timeout s, cancellable := True\<rparr>) s"

definition submitWithDeps ::
  "(string \<Rightarrow> string) \<Rightarrow> string \<Rightarrow> int \<Rightarrow> Task \<Rightarrow> string list \<Rightarrow> string \<Rightarrow> TaskPriority \<Rightarrow>
     Scheduler \<Rightarrow> string \<times> Scheduler" where
  "submitWithDeps mv gid now junk deps nm p s =
     submit_task mv gid now (zero_Task\<lparr>tk_name := nm, has_work := True, priority := p,
       tk_dependencies := deps, retry_count := retry_count junk, max_retries := max_retries junk,
       timeout := timeout junk, cancellable := cancellable junk\<rparr>) s"

subsection \<open>Control of one task\<close>

definition set_state :: "TaskState \<Rightarrow> Task \<Rightarrow> Task" where
  "set_state v t = t\<lparr>tk_state := v\<rparr>"

definition cancel :: "string \<Rightarrow> Scheduler \<Rightarrow> bool \<times> Scheduler" where
  "cancel i s =
     (case map_of (tasks s) i of None \<Rightarrow> (False, s)
      | Some t \<Rightarrow>
          if \<not> cancellable t then (False, s)
          else if tk_state t = Completed \<or> tk_state t = Cancelled then (False, s)
          else (True, s\<lparr>tasks := AList.map_entry i (set_state Cancelled) (tasks s),
                 total_cancelled := total_cancelled s + 1\<rparr>))"

definition pause :: "string \<Rightarrow> Scheduler \<Rightarrow> bool \<times> Scheduler" where
  "pause i s =
     (case map_of (tasks s) i of None \<Rightarrow> (False, s)
      | Some t \<Rightarrow>
          if tk_state t \<noteq> Running \<and> tk_state t \<noteq> Pending then (False, s)
          else (True, s\<lparr>tasks := AList.map_entry i (set_state Paused) (tasks s)\<rparr>))"

definition resume :: "string \<Rightarrow> Scheduler \<Rightarrow> bool \<times> Scheduler" where
  "resume i s =
     (case map_of (tasks s) i of None \<Rightarrow> (False, s)
      | Some t \<Rightarrow>
          if tk_state t \<noteq> Paused then (False, s)
          else (True, s\<lparr>tasks := AList.map_entry i (set_state Pending) (tasks s),
                 task_queue := enqueue (priority t) i (task_queue s)\<rparr>))"

definition updateTaskState :: "string \<Rightarrow> TaskState \<Rightarrow> Scheduler \<Rightarrow> Scheduler" where
  "updateTaskState i v s = s\<lparr>tasks := AList.map_entry i (set_state v) (tasks s)\<rparr>"

subsection \<open>Queries and housekeeping\<close>

definition getTask :: "string \<Rightarrow> Scheduler \<Rightarrow> Task option" where
  "getTask i s = map_of (tasks s) i"

definition getTaskState :: "string \<Rightarrow> Scheduler \<Rightarrow> TaskState option" where
  "getTaskState i s = map_option tk_state (map_of (tasks s) i)"

text \<open>One look of \<open>waitForTask\<close>: its answer, or \<open>None\<close> to sleep and look again.\<close>

definition wait_poll :: "string \<Rightarrow> int \<Rightarrow> int \<Rightarrow> Scheduler \<Rightarrow> bool option" where
  "wait_poll i limit elapsed s =
     (case map_of (tasks s) i of None \<Rightarrow> Some False
      | Some t \<Rightarrow>
          if tk_state t = Completed then Some True
          else if tk_state t = Failed \<or> tk_state t = Cancelled then Some False
          else if limit > 0 \<and> elapsed \<ge> limit then Some False
          else None)"

text \<open>One look of \<open>waitForAll\<close>: whether it returns.\<close>

definition wait_all_poll :: "Scheduler \<Rightarrow> bool" where
  "wait_all_poll s \<longleftrightarrow> \<not> (\<exists>(i, t) \<in> set (tasks s).
     tk_state t = Pending \<or> tk_state t = Running \<or> tk_state t = Paused)"

record SchedulerStats =
  ss_total :: nat
  ss_pending :: nat
  ss_running :: nat
  ss_completed :: nat
  ss_failed :: nat
  ss_cancelled :: nat
  ss_workers :: nat

definition count_task :: "TaskState \<Rightarrow> SchedulerStats \<Rightarrow> SchedulerStats" where
  "count_task v st =
     (case v of
        Pending \<Rightarrow> st\<lparr>ss_pending := ss_pending st + 1\<rparr>
      | Paused \<Rightarrow> st\<lparr>ss_pending := ss_pending st + 1\<rparr>
      | Running \<Rightarrow> st\<lparr>ss_running := ss_running st + 1\<rparr>
      | Completed \<Rightarrow> st\<lparr>ss_completed := ss_completed st + 1\<rparr>
      | Failed \<Rightarrow> st\<lparr>ss_failed := ss_failed st + 1\<rparr>
      | Cancelled \<Rightarrow> st\<lparr>ss_cancelled := ss_cancelled st + 1\<rparr>)"

fun count_tasks :: "(string, Task) umap \<Rightarrow> SchedulerStats \<Rightarrow> SchedulerStats" where
  "count_tasks [] st = st"
| "count_tasks ((i, t) # ts) st = count_tasks ts (count_task (tk_state t) st)"

definition getStats :: "Scheduler \<Rightarrow> SchedulerStats" where
  "getStats s = count_tasks (tasks s)
     \<lparr>ss_total = total_submitted s, ss_pending = 0, ss_running = 0, ss_completed = 0,
      ss_failed = 0, ss_cancelled = 0, ss_workers = num_worker_threads s\<rparr>"

definition setWorkerCount :: "nat \<Rightarrow> Scheduler \<Rightarrow> Scheduler" where
  "setWorkerCount n s = (if sc_running s then s else s\<lparr>num_worker_threads := n\<rparr>)"

definition clear_ids :: "Scheduler \<Rightarrow> string list" where
  "clear_ids s = map fst (filter (\<lambda>(i, t). tk_state t = Completed \<or> tk_state t = Cancelled) (tasks s))"

definition clearCompleted :: "Scheduler \<Rightarrow> Scheduler" where
  "clearCompleted s = s\<lparr>tasks := fold AList.delete (clear_ids s) (tasks s)\<rparr>"

definition getPendingCount :: "Scheduler \<Rightarrow> nat" where
  "getPendingCount s = length (filter (\<lambda>(i, t). tk_state t = Pending \<or> tk_state t = Paused) (tasks s))"

definition getRunningCount :: "Scheduler \<Rightarrow> nat" where
  "getRunningCount s = length (filter (\<lambda>(i, t). tk_state t = Running) (tasks s))"

definition setDefaultTimeout :: "int \<Rightarrow> Scheduler \<Rightarrow> Scheduler" where
  "setDefaultTimeout d s = s\<lparr>default_timeout := d\<rparr>"

definition setDefaultMaxRetries :: "nat \<Rightarrow> Scheduler \<Rightarrow> Scheduler" where
  "setDefaultMaxRetries n s = s\<lparr>default_max_retries := n\<rparr>"

subsection \<open>The worker threads\<close>

fun canExecute :: "(string, Task) umap \<Rightarrow> string list \<Rightarrow> bool" where
  "canExecute ts [] = True"
| "canExecute ts (d # ds) =
     (case map_of ts d of None \<Rightarrow> False
      | Some t \<Rightarrow> if tk_state t \<noteq> Completed then False else canExecute ts ds)"

fun heap_top :: "(int \<times> string) list \<Rightarrow> int \<times> string" where
  "heap_top [e] = e"
| "heap_top (e # q) = min e (heap_top q)"
| "heap_top [] = (0, [])"

lemma heap_top_in: "q \<noteq> [] \<Longrightarrow> heap_top q \<in> set q"
  by (induction q rule: heap_top.induct) (auto simp: min_def)

lemma heap_top_le: "e \<in> set q \<Longrightarrow> heap_top q \<le> e"
  by (induction q rule: heap_top.induct) (auto simp: min_le_iff_disj)

definition start_task :: "int \<Rightarrow> Task \<Rightarrow> Task" where
  "start_task now t = t\<lparr>tk_state := Running, started_at := now\<rparr>"

text \<open>"Get highest priority task": pop until a pending task whose dependencies are completed.\<close>

function pop_loop :: "int \<Rightarrow> (string, Task) umap \<Rightarrow> (int \<times> string) list \<Rightarrow>
    string option \<times> (string, Task) umap \<times> (int \<times> string) list" where
  "pop_loop now ts q =
     (if q = [] then (None, ts, [])
      else
        let i = snd (heap_top q); q' = remove1 (heap_top q) q
        in case map_of ts i of None \<Rightarrow> pop_loop now ts q'
           | Some t \<Rightarrow>
               if tk_state t = Pending \<and> canExecute ts (tk_dependencies t)
               then (Some i, AList.map_entry i (start_task now) ts, q')
               else pop_loop now ts q')"
  by pat_completeness auto
termination
  by (relation "measure (\<lambda>(now, ts, q). length q)")
    (auto simp: length_remove1 heap_top_in intro!: diff_less)

declare pop_loop.simps [simp del]

definition worker_goto :: "nat \<Rightarrow> worker_state \<Rightarrow> Scheduler \<Rightarrow> Scheduler" where
  "worker_goto w p s = s\<lparr>workers := (workers s)[w := p]\<rparr>"

text \<open>The head of \<open>workerThread\<close>'s loop, up to the end of its first critical section.\<close>

definition worker_wake :: "nat \<Rightarrow> int \<Rightarrow> Scheduler \<Rightarrow> Scheduler option" where
  "worker_wake w now s =
     (if sc_stopping s then Some (worker_goto w Exited s)
      else if task_queue s = [] then None
      else case pop_loop now (tasks s) (task_queue s) of (taken, ts, q) \<Rightarrow>
        let task_id = (case taken of None \<Rightarrow> [] | Some i \<Rightarrow> i)
        in Some (worker_goto w (if task_id = [] then Waiting else Took task_id)
             (s\<lparr>tasks := ts, task_queue := q\<rparr>)))"

definition worker_find :: "nat \<Rightarrow> string \<Rightarrow> Scheduler \<Rightarrow> Scheduler" where
  "worker_find w i s =
     worker_goto w (case map_of (tasks s) i of None \<Rightarrow> Waiting | Some t \<Rightarrow> Executing i) s"

text \<open>\<open>executeTask\<close>: the critical section after the work returned, and the \<open>catch\<close> block.\<close>

definition complete_task :: "string \<Rightarrow> int \<Rightarrow> Scheduler \<Rightarrow> Scheduler" where
  "complete_task i now s =
     s\<lparr>tasks := AList.map_entry i (\<lambda>t. t\<lparr>tk_state := Completed, completed_at := now\<rparr>) (tasks s),
       total_completed := total_completed s + 1\<rparr>"

definition fail_task :: "string \<Rightarrow> Task \<Rightarrow> string \<Rightarrow> Scheduler \<Rightarrow> Scheduler" where
  "fail_task i t e s =
     (if retry_count t < max_retries t
      then s\<lparr>tasks := AList.map_entry i
               (\<lambda>t. t\<lparr>tk_error_message := e, retry_count := retry_count t + 1, tk_state := Pending\<rparr>) (tasks s),
             task_queue := enqueue (priority t) (tk_id t) (task_queue s)\<rparr>
      else s\<lparr>tasks := AList.map_entry i
               (\<lambda>t. t\<lparr>tk_error_message := e, tk_state := Failed\<rparr>) (tasks s),
             total_failed := total_failed s + 1\<rparr>)"

text \<open>
  \<open>WorkDone w e now\<close>: the work of worker \<open>w\<close> returned (\<open>e = None\<close>) or threw; \<open>CallbackDone w e\<close>
  the same of \<open>on_complete\<close>. A worker holds a reference to its task; when the entry has been
  erased meanwhile the reference dangles and no step is defined.
\<close>

datatype sched_action =
    Submit string int Task
  | CancelTask string
  | PauseTask string
  | ResumeTask string
  | ClearCompleted
  | StopRequest
  | StopJoin
  | Wake nat int
  | Find nat
  | WorkDone nat "string option" int
  | CallbackDone nat "string option"

fun holds :: "worker_state \<Rightarrow> string option" where
  "holds (Took i) = Some i"
| "holds (Executing i) = Some i"
| "holds (Notifying i) = Some i"
| "holds _ = None"

definition fresh_id :: "string \<Rightarrow> Scheduler \<Rightarrow> bool" where
  "fresh_id i s \<longleftrightarrow> i \<noteq> [] \<and> map_of (tasks s) i = None \<and> i \<notin> snd ` set (task_queue s) \<and>
     Some i \<notin> holds ` set (workers s)"

definition work_done :: "nat \<Rightarrow> string \<Rightarrow> string option \<Rightarrow> int \<Rightarrow> Scheduler \<Rightarrow> Scheduler option" where
  "work_done w i e now s =
     (case map_of (tasks s) i of None \<Rightarrow> None
      | Some t \<Rightarrow>
          (case e of
             None \<Rightarrow> Some (worker_goto w (if has_on_complete t then Notifying i else Waiting) (complete_task i now s))
           | Some m \<Rightarrow> if has_work t then Some (worker_goto w Waiting (fail_task i t m s)) else None))"

definition callback_done :: "nat \<Rightarrow> string \<Rightarrow> string option \<Rightarrow> Scheduler \<Rightarrow> Scheduler option" where
  "callback_done w i e s =
     (case map_of (tasks s) i of None \<Rightarrow> None
      | Some t \<Rightarrow>
          (case e of
             None \<Rightarrow> Some (worker_goto w Waiting s)
           | Some m \<Rightarrow> Some (worker_goto w Waiting (fail_task i t m s))))"

fun sched_step :: "(string \<Rightarrow> string) \<Rightarrow> sched_action \<Rightarrow> Scheduler \<Rightarrow> Scheduler option" where
  "sched_step mv (Submit gid now t) s =
     (if fresh_id gid s then Some (snd (submit_task mv gid now t s)) else None)"
| "sched_step mv (CancelTask i) s = Some (snd (cancel i s))"
| "sched_step mv (PauseTask i) s = Some (snd (pause i s))"
| "sched_step mv (ResumeTask i) s = Some (snd (resume i s))"
| "sched_step mv ClearCompleted s = Some (clearCompleted s)"
| "sched_step mv StopRequest s = Some (if sc_running s then s\<lparr>sc_stopping := True\<rparr> else s)"
| "sched_step mv StopJoin s =
     (if sc_running s \<and> sc_stopping s \<and> (\<forall>p \<in> set (workers s). p = Exited)
      then Some (s\<lparr>workers := [], sc_running := False\<rparr>) else None)"
| "sched_step mv (Wake w now) s =
     (if w < length (workers s) \<and> workers s ! w = Waiting then worker_wake w now s else None)"
| "sched_step mv (Find w) s =
     (if w < length (workers s)
      then (case workers s ! w of Took i \<Rightarrow> Some (worker_find w i s) | _ \<Rightarrow> None) else None)"
| "sched_step mv (WorkDone w e now) s =
     (if w < length (workers s)
      then (case workers s ! w of Executing i \<Rightarrow> work_done w i e now s | _ \<Rightarrow> None) else None)"
| "sched_step mv (CallbackDone w e) s =
     (if w < length (workers s)
      then (case workers s ! w of Notifying i \<Rightarrow> callback_done w i e s | _ \<Rightarrow> None) else None)"

definition sched_start :: "nat \<Rightarrow> Scheduler" where
  "sched_start n = snd (initialize (new_Scheduler n))"

subsection \<open>What a worker takes from the queue\<close>

text \<open>An entry a worker may run: its task is pending and every dependency is completed.\<close>

definition eligible :: "(string, Task) umap \<Rightarrow> int \<times> string \<Rightarrow> bool" where
  "eligible ts e = (case map_of ts (snd e) of None \<Rightarrow> False
     | Some t \<Rightarrow> tk_state t = Pending \<and> canExecute ts (tk_dependencies t))"

lemma canExecute_iff:
  "canExecute ts ds \<longleftrightarrow> (\<forall>d \<in> set ds. \<exists>t. map_of ts d = Some t \<and> tk_state t = Completed)"
  by (induction ts ds rule: canExecute.induct) (auto split: option.splits)

lemma remove1_subset: "x \<in> set (remove1 a q) \<Longrightarrow> x \<in> set q"
  by (meson set_remove1_subset subsetD)

lemma pop_loop_step:
  assumes "q \<noteq> []"
  shows "pop_loop now ts q =
    (if eligible ts (heap_top q)
     then (Some (snd (heap_top q)), AList.map_entry (snd (heap_top q)) (start_task now) ts, remove1 (heap_top q) q)
     else pop_loop now ts (remove1 (heap_top q) q))"
  using assms by (subst pop_loop.simps) (simp add: Let_def eligible_def split: option.splits)

lemma pop_loop_Nil [simp]: "pop_loop now ts [] = (None, ts, [])"
  by (subst pop_loop.simps) simp

lemma pop_loop_induct [case_names Nil Step]:
  assumes "P []" "\<And>q. q \<noteq> [] \<Longrightarrow> P (remove1 (heap_top q) q) \<Longrightarrow> P q"
  shows "P (q :: (int \<times> string) list)"
proof (induction "length q" arbitrary: q rule: less_induct)
  case less
  show ?case
  proof (cases "q = []")
    case False
    then have "length (remove1 (heap_top q) q) < length q"
      by (simp add: length_remove1 heap_top_in)
    with less assms(2) [OF False] show ?thesis by blast
  qed (simp add: assms(1))
qed

lemma pop_loop_none:
  "pop_loop now ts q = (None, ts', q') \<Longrightarrow> ts' = ts \<and> q' = [] \<and> (\<forall>e \<in> set q. \<not> eligible ts e)"
proof (induction q rule: pop_loop_induct)
  case (Step q)
  then have "\<not> eligible ts (heap_top q)" "pop_loop now ts (remove1 (heap_top q) q) = (None, ts', q')"
    by (auto simp: pop_loop_step split: if_splits)
  with Step show ?case by (metis in_set_remove1)
qed simp

lemma pop_loop_some:
  "pop_loop now ts q = (Some i, ts', q') \<Longrightarrow>
     \<exists>p. (p, i) \<in> set q \<and> eligible ts (p, i) \<and> ts' = AList.map_entry i (start_task now) ts \<and>
       (\<forall>e \<in> set q. eligible ts e \<longrightarrow> (p, i) \<le> e) \<and> set q' \<subseteq> set q \<and>
       (\<forall>e \<in> set q'. (p, i) \<le> e)"
proof (induction q rule: pop_loop_induct)
  case (Step q)
  let ?e = "heap_top q"
  note in_q = heap_top_in [OF Step(1)]
  show ?case
  proof (cases "eligible ts ?e")
    case True
    with Step(1,3) have "i = snd ?e" "ts' = AList.map_entry i (start_task now) ts" "q' = remove1 ?e q"
      by (auto simp: pop_loop_step)
    with True in_q show ?thesis
      by (intro exI [of _ "fst ?e"]) (auto intro: heap_top_le dest: remove1_subset)
  next
    case False
    with Step(1,3) have "pop_loop now ts (remove1 ?e q) = (Some i, ts', q')"
      by (simp add: pop_loop_step)
    from Step(2) [OF this] obtain p where p: "(p, i) \<in> set (remove1 ?e q)" "eligible ts (p, i)"
        "ts' = AList.map_entry i (start_task now) ts"
        "\<forall>e \<in> set (remove1 ?e q). eligible ts e \<longrightarrow> (p, i) \<le> e"
        "set q' \<subseteq> set (remove1 ?e q)" "\<forall>e \<in> set q'. (p, i) \<le> e"
      by blast
    have "\<forall>e \<in> set q. eligible ts e \<longrightarrow> (p, i) \<le> e"
      using p(4) False by (metis in_set_remove1)
    moreover have "set q' \<subseteq> set q" using p(5) by (auto dest: remove1_subset)
    ultimately show ?thesis
      using p by (intro exI [of _ p]) (auto dest: remove1_subset)
  qed
qed simp

subsection \<open>Exclusive execution\<close>

text \<open>
  The invariant while nobody pauses a task: a worker's task is Running, or was cancelled, or has
  just completed; no two workers hold the same task.
\<close>

definition held_once :: "Scheduler \<Rightarrow> bool" where
  "held_once s \<longleftrightarrow> (\<forall>v < length (workers s). \<forall>w < length (workers s). \<forall>i.
     holds (workers s ! v) = Some i \<and> holds (workers s ! w) = Some i \<longrightarrow> v = w)"

definition held_states :: "Scheduler \<Rightarrow> bool" where
  "held_states s \<longleftrightarrow> (\<forall>w < length (workers s). \<forall>i. holds (workers s ! w) = Some i \<longrightarrow> i \<noteq> [] \<and>
     (\<forall>t. map_of (tasks s) i = Some t \<longrightarrow> tk_state t \<in> {Running, Cancelled, Completed}))"

definition none_paused :: "Scheduler \<Rightarrow> bool" where
  "none_paused s \<longleftrightarrow> (\<forall>i t. map_of (tasks s) i = Some t \<longrightarrow> tk_state t \<noteq> Paused)"

definition excl_inv :: "Scheduler \<Rightarrow> bool" where
  "excl_inv s \<longleftrightarrow> held_once s \<and> held_states s \<and> none_paused s"

definition mv_ok :: "(string \<Rightarrow> string) \<Rightarrow> bool" where
  "mv_ok mv \<longleftrightarrow> (\<forall>i. mv i = [] \<or> mv i = i)"

fun pauses :: "sched_action \<Rightarrow> bool" where
  "pauses (PauseTask i) = True"
| "pauses _ = False"

lemma held_at: "Some i \<in> holds ` set (workers s) \<longleftrightarrow> (\<exists>w < length (workers s). holds (workers s ! w) = Some i)"
  unfolding image_iff Bex_def in_set_conv_nth by metis

lemma excl_held:
  "excl_inv s \<Longrightarrow> w < length (workers s) \<Longrightarrow> holds (workers s ! w) = Some i \<Longrightarrow>
     map_of (tasks s) i = Some t \<Longrightarrow> tk_state t \<in> {Running, Cancelled, Completed}"
  unfolding excl_inv_def held_states_def by blast

lemma excl_not_paused: "excl_inv s \<Longrightarrow> map_of (tasks s) i = Some t \<Longrightarrow> tk_state t \<noteq> Paused"
  unfolding excl_inv_def none_paused_def by blast

text \<open>No worker moves: the states of the held tasks stay in the allowed set.\<close>

lemma excl_tasks:
  assumes inv: "excl_inv s" and ws: "workers s' = workers s"
    and st: "\<And>i t'. map_of (tasks s') i = Some t' \<Longrightarrow> map_of (tasks s) i = Some t' \<or>
      tk_state t' \<noteq> Paused \<and> (Some i \<notin> holds ` set (workers s) \<or> i = [] \<or> tk_state t' \<in> {Running, Cancelled, Completed})"
  shows "excl_inv s'"
proof -
  have "held_once s'" using inv by (simp add: excl_inv_def held_once_def ws)
  moreover have "none_paused s'"
    using st excl_not_paused [OF inv] unfolding none_paused_def by blast
  moreover have "held_states s'"
    unfolding held_states_def ws
  proof (intro allI impI conjI)
    fix w i
    assume w: "w < length (workers s)" and h: "holds (workers s ! w) = Some i"
    show ne: "i \<noteq> []" using inv w h unfolding excl_inv_def held_states_def by blast
    fix t' assume "map_of (tasks s') i = Some t'"
    with st [of i t'] excl_held [OF inv w h] ne held_at [of i s] w h
    show "tk_state t' \<in> {Running, Cancelled, Completed}" by blast
  qed
  ultimately show ?thesis by (simp add: excl_inv_def)
qed

text \<open>Worker \<open>w\<close> lets go of its task, or keeps it: nobody else's hold changes.\<close>

lemma excl_release:
  assumes inv: "excl_inv s" and w: "w < length (workers s)"
    and ws: "workers s' = (workers s)[w := p]"
    and keep: "holds p = None \<or> holds p = holds (workers s ! w)"
    and st: "\<And>i t'. map_of (tasks s') i = Some t' \<Longrightarrow> map_of (tasks s) i = Some t' \<or>
      tk_state t' \<noteq> Paused \<and> holds (workers s ! w) = Some i \<and>
      (holds p = None \<or> tk_state t' \<in> {Running, Cancelled, Completed})"
  shows "excl_inv s'"
proof -
  have len: "length (workers s') = length (workers s)" by (simp add: ws)
  have same: "holds (workers s' ! v) = Some i \<Longrightarrow> holds (workers s ! v) = Some i"
    if "v < length (workers s)" for v i
    using keep ws w that by (cases "v = w") auto
  have "held_once s'"
    using inv same unfolding excl_inv_def held_once_def len by blast
  moreover have "none_paused s'"
    using st excl_not_paused [OF inv] unfolding none_paused_def by blast
  moreover have "held_states s'"
    unfolding held_states_def len
  proof (intro allI impI conjI)
    fix v i
    assume v: "v < length (workers s)" and h: "holds (workers s' ! v) = Some i"
    note old = same [OF v h]
    show "i \<noteq> []" using inv v old unfolding excl_inv_def held_states_def by blast
    fix t' assume t: "map_of (tasks s') i = Some t'"
    show "tk_state t' \<in> {Running, Cancelled, Completed}"
    proof (cases "map_of (tasks s) i = Some t'")
      case True
      then show ?thesis by (rule excl_held [OF inv v old])
    next
      case False
      with st [OF t] have wi: "holds (workers s ! w) = Some i"
        and pr: "holds p = None \<or> tk_state t' \<in> {Running, Cancelled, Completed}" by blast+
      have "v = w" using inv v w old wi unfolding excl_inv_def held_once_def by blast
      with h ws w pr show ?thesis by auto
    qed
  qed
  ultimately show ?thesis by (simp add: excl_inv_def)
qed

text \<open>A waiting worker takes a pending task, which nobody holds.\<close>

lemma excl_take:
  assumes inv: "excl_inv s" and w: "w < length (workers s)"
    and ws: "workers s' = (workers s)[w := Took i]" and i: "i \<noteq> []"
    and t: "map_of (tasks s) i = Some t" "tk_state t = Pending"
    and ts: "tasks s' = AList.map_entry i (start_task now) (tasks s)"
  shows "excl_inv s'"
proof -
  have free: "holds (workers s ! v) \<noteq> Some i" if "v < length (workers s)" for v
    using excl_held [OF inv that _ t(1)] t(2) by auto
  have len: "length (workers s') = length (workers s)" by (simp add: ws)
  have at: "holds (workers s' ! v) = (if v = w then Some i else holds (workers s ! v))"
    if "v < length (workers s)" for v
    using that w by (simp add: ws)
  have "held_once s'"
    using inv free unfolding excl_inv_def held_once_def len
    by (simp add: at)
  moreover have "none_paused s'"
    using excl_not_paused [OF inv] by (auto simp: none_paused_def ts start_task_def split: if_splits)
  moreover have "held_states s'"
    unfolding held_states_def len
  proof (intro allI impI)
    fix v k
    assume v: "v < length (workers s)" and h: "holds (workers s' ! v) = Some k"
    show "k \<noteq> [] \<and> (\<forall>t'. map_of (tasks s') k = Some t' \<longrightarrow> tk_state t' \<in> {Running, Cancelled, Completed})"
    proof (cases "v = w")
      case True
      with h v i show ?thesis by (auto simp: at ts start_task_def)
    next
      case False
      with h v have o: "holds (workers s ! v) = Some k" by (simp add: at)
      moreover have "k \<noteq> i" using free [OF v] o by auto
      ultimately show ?thesis
        using inv v unfolding excl_inv_def held_states_def by (simp add: ts)
    qed
  qed
  ultimately show ?thesis by (simp add: excl_inv_def)
qed

lemma goto_simps [simp]:
  "workers (worker_goto w p s) = (workers s)[w := p]"
  "tasks (worker_goto w p s) = tasks s"
  "task_queue (worker_goto w p s) = task_queue s"
  by (simp_all add: worker_goto_def)

lemma set_state_simps [simp]: "tk_state (set_state v t) = v" "tk_id (set_state v t) = tk_id t"
  by (simp_all add: set_state_def)

lemma worker_wake_inv:
  assumes inv: "excl_inv s" and w: "w < length (workers s)" "workers s ! w = Waiting"
    and step: "worker_wake w now s = Some s'"
  shows "excl_inv s'"
proof (cases "sc_stopping s")
  case True
  with step have "s' = worker_goto w Exited s" by (simp add: worker_wake_def)
  then show ?thesis by (intro excl_release [OF inv w(1), where p = Exited]) simp_all
next
  case False
  obtain taken ts q where pop: "pop_loop now (tasks s) (task_queue s) = (taken, ts, q)"
    by (metis prod_cases3)
  show ?thesis
  proof (cases taken)
    case None
    with False step pop have "tasks s' = tasks s" "workers s' = (workers s)[w := Waiting]"
      using pop_loop_none [of now "tasks s" "task_queue s" ts q]
      by (auto simp: worker_wake_def split: if_splits)
    then show ?thesis by (intro excl_release [OF inv w(1), where p = Waiting]) simp_all
  next
    case (Some i)
    with pop_loop_some [of now "tasks s" "task_queue s" i ts q] pop
    obtain p where el: "eligible (tasks s) (p, i)" and ts: "ts = AList.map_entry i (start_task now) (tasks s)"
      by auto
    then obtain t where t: "map_of (tasks s) i = Some t" "tk_state t = Pending"
      by (auto simp: eligible_def split: option.splits)
    have s': "tasks s' = ts" "workers s' = (workers s)[w := if i = [] then Waiting else Took i]"
      using False step pop Some by (auto simp: worker_wake_def split: if_splits)
    show ?thesis
    proof (cases "i = []")
      case True
      have "excl_inv (s\<lparr>tasks := ts\<rparr>)"
        by (rule excl_tasks [OF inv]) (use True t in \<open>auto simp: ts start_task_def split: if_splits\<close>)
      then show ?thesis
        by (rule excl_release [where w = w and p = Waiting]) (use s' True w in simp_all)
    next
      case False
      with s' ts t w show ?thesis
        by (intro excl_take [OF inv w(1) _ _ t]) simp_all
    qed
  qed
qed

lemma fail_task_state:
  "map_of (tasks (fail_task i t e s)) k = Some t' \<Longrightarrow>
     map_of (tasks s) k = Some t' \<or> k = i \<and> tk_state t' \<in> {Pending, Failed}"
  by (auto simp: fail_task_def split: if_splits)

lemma complete_task_state:
  "map_of (tasks (complete_task i now s)) k = Some t' \<Longrightarrow>
     map_of (tasks s) k = Some t' \<or> k = i \<and> tk_state t' = Completed"
  by (auto simp: complete_task_def split: if_splits)

lemma fail_complete_workers [simp]:
  "workers (fail_task i t e s) = workers s" "workers (complete_task i now s) = workers s"
  by (simp_all add: fail_task_def complete_task_def)

lemma fold_delete: "map_of (fold AList.delete ks m) k = (if k \<in> set ks then None else map_of m k)"
  by (induction ks arbitrary: m) auto

lemma submit_task_state:
  assumes "mv_ok mv" "map_of (tasks s) gid = None"
    "map_of (tasks (snd (submit_task mv gid now t s))) k = Some t'"
  shows "map_of (tasks s) k = Some t' \<or> (k = gid \<or> k = []) \<and> tk_state t' = Pending"
  using assms by (auto simp: submit_task_def Let_def mv_ok_def zero_Task_def split: if_splits)

lemma submit_task_workers [simp]: "workers (snd (submit_task mv gid now t s)) = workers s"
  by (simp add: submit_task_def Let_def)

lemma sched_step_excl:
  assumes inv: "excl_inv s" and mv: "mv_ok mv" and np: "\<not> pauses a"
    and step: "sched_step mv a s = Some s'"
  shows "excl_inv s'"
proof (cases a)
  case (Submit gid now t)
  with step have f: "fresh_id gid s" and s': "s' = snd (submit_task mv gid now t s)"
    by (auto split: if_splits)
  show ?thesis
  proof (rule excl_tasks [OF inv])
    fix i t' assume "map_of (tasks s') i = Some t'"
    with submit_task_state [OF mv, of s gid now t i t'] f
    show "map_of (tasks s) i = Some t' \<or> tk_state t' \<noteq> Paused \<and>
        (Some i \<notin> holds ` set (workers s) \<or> i = [] \<or> tk_state t' \<in> {Running, Cancelled, Completed})"
      by (auto simp: s' fresh_id_def)
  qed (simp add: s')
next
  case (CancelTask i)
  with step show ?thesis
    by (intro excl_tasks [OF inv]) (auto simp: cancel_def split: option.splits if_splits)
next
  case (ResumeTask i)
  with step excl_not_paused [OF inv, of i] have "s' = s"
    by (auto simp: resume_def split: option.splits)
  with inv show ?thesis by simp
next
  case ClearCompleted
  with step show ?thesis
    by (intro excl_tasks [OF inv]) (auto simp: clearCompleted_def fold_delete split: if_splits)
next
  case StopRequest
  with step have "s' = s \<or> s' = s\<lparr>sc_stopping := True\<rparr>" by (auto split: if_splits)
  then show ?thesis
    by (intro excl_tasks [OF inv]) auto
next
  case StopJoin
  with step have "s' = s\<lparr>workers := [], sc_running := False\<rparr>" by (auto split: if_splits)
  with inv show ?thesis
    by (simp add: excl_inv_def held_once_def held_states_def none_paused_def)
next
  case (Wake w now)
  with step worker_wake_inv [OF inv, of w now s'] show ?thesis by (auto split: if_splits)
next
  case (Find w)
  with step obtain i where w: "w < length (workers s)" "workers s ! w = Took i" and s': "s' = worker_find w i s"
    by (auto split: if_splits worker_state.splits)
  show ?thesis
    by (rule excl_release [OF inv w(1), where p = "case map_of (tasks s) i of None \<Rightarrow> Waiting | Some t \<Rightarrow> Executing i"])
      (auto simp: s' worker_find_def w split: option.splits)
next
  case (WorkDone w e now)
  with step obtain i where w: "w < length (workers s)" "workers s ! w = Executing i"
    and wd: "work_done w i e now s = Some s'"
    by (auto split: if_splits worker_state.splits)
  obtain t where t: "map_of (tasks s) i = Some t"
    using wd by (auto simp: work_done_def split: option.splits)
  show ?thesis
  proof (cases e)
    case None
    with wd t have s': "s' = worker_goto w (if has_on_complete t then Notifying i else Waiting) (complete_task i now s)"
      by (simp add: work_done_def)
    show ?thesis
      by (rule excl_release [OF inv w(1), where p = "if has_on_complete t then Notifying i else Waiting"])
        (use w(2) complete_task_state [of i now s] in \<open>fastforce simp: s'\<close>)+
  next
    case (Some m)
    with wd t have s': "s' = worker_goto w Waiting (fail_task i t m s)"
      by (auto simp: work_done_def split: if_splits)
    show ?thesis
      by (rule excl_release [OF inv w(1), where p = Waiting])
        (use w(2) fail_task_state [of i t m s] in \<open>fastforce simp: s'\<close>)+
  qed
next
  case (CallbackDone w e)
  with step obtain i t where w: "w < length (workers s)" "workers s ! w = Notifying i"
    and t: "map_of (tasks s) i = Some t"
    and s': "s' = worker_goto w Waiting (case e of None \<Rightarrow> s | Some m \<Rightarrow> fail_task i t m s)"
    by (auto simp: callback_done_def split: if_splits worker_state.splits option.splits)
  show ?thesis
    by (rule excl_release [OF inv w(1), where p = Waiting])
      (use w(2) fail_task_state [of i t _ s] in \<open>fastforce simp: s' split: option.splits\<close>)+
qed (use np in simp)

lemma sched_start_excl: "excl_inv (sched_start n)"
  by (auto simp: excl_inv_def held_once_def held_states_def none_paused_def sched_start_def
    initialize_def new_Scheduler_def)

text \<open>The steps of a scheduler on which \<open>pause\<close> is never called.\<close>

definition unpaused_step :: "(string \<Rightarrow> string) \<Rightarrow> sched_action \<Rightarrow> Scheduler \<Rightarrow> Scheduler option" where
  "unpaused_step mv a s = (if pauses a then None else sched_step mv a s)"

interpretation sch: transition_system "\<lambda>s. mv_ok mv \<and> (\<exists>n. s = sched_start n)" "unpaused_step mv"
  "\<lambda>s. mv_ok mv \<and> excl_inv s" for mv
  by unfold_locales (auto simp: unpaused_step_def sched_start_excl sched_step_excl split: if_splits)

lemma run_unpaused:
  "run_steps (unpaused_step mv) as s = (if list_ex pauses as then run_steps (unpaused_step mv) as s
     else run_steps (sched_step mv) as s)"
  by (induction as arbitrary: s) (auto simp: unpaused_step_def split: option.splits)

end
