(* ===== verification/Scheduler_Properties.thy ===== *)
theory Scheduler_Properties
  imports Scheduler
begin

text \<open>
  The properties of the task scheduler: which task a worker takes, when a task is executed by
  one worker only and when it is not, which tasks are never executed, and what becomes of a
  task whose work or callback throws or that is cancelled while it runs.
\<close>

subsection \<open>The order of execution\<close>

text \<open>
  C3: What a worker takes from the queue is the least entry (highest priority, then smallest
  id) among those whose task is pending with all dependencies completed; the task is marked
  Running and nothing else in the table changes. It takes nothing only when no entry is such.
\<close>

theorem worker_takes_best:
  "case pop_loop now ts q of
     (None, ts', q') \<Rightarrow> ts' = ts \<and> q' = [] \<and> (\<forall>e \<in> set q. \<not> eligible ts e)
   | (Some i, ts', q') \<Rightarrow> ts' = AList.map_entry i (start_task now) ts \<and>
       (\<exists>p. (p, i) \<in> set q \<and> eligible ts (p, i) \<and> (\<forall>e \<in> set q. eligible ts e \<longrightarrow> (p, i) \<le> e))"
proof -
  obtain r ts' q' where pop: "pop_loop now ts q = (r, ts', q')" by (metis prod_cases3)
  then show ?thesis
    using pop_loop_none [of now ts q ts' q'] pop_loop_some [of now ts q _ ts' q']
    by (cases r) auto
qed

definition demo_task :: "string list \<Rightarrow> Task" where
  "demo_task ds = zero_Task\<lparr>has_work := True, max_retries := 1, tk_dependencies := ds, cancellable := True\<rparr>"

theorem worker_takes_best_witness:
  "\<exists>p. (p, ''u'') \<in> set [(0, ''t''), (-2, ''u'')] \<and> (p, ''u'') \<le> (0 :: int, ''t'')"
proof -
  have "fst (pop_loop 0 [(''t'', demo_task []), (''u'', demo_task [])] [(0, ''t''), (-2, ''u'')]) = Some ''u''"
    "eligible [(''t'', demo_task []), (''u'', demo_task [])] (0, ''t'')"
    by code_simp+
  with worker_takes_best [where now = 0 and ts = "[(''t'', demo_task []), (''u'', demo_task [])]" and q = "[(0, ''t''), (-2, ''u'')]"]
  show ?thesis by (auto split: prod.splits)
qed

subsection \<open>One task, one worker\<close>

definition demo_run :: "sched_action list \<Rightarrow> Scheduler" where
  "demo_run as = the (run_steps (sched_step (\<lambda>i. i)) as (sched_start 2))"

lemma demo_run_append:
  assumes "\<not> Option.is_none (run_steps (sched_step (\<lambda>i. i)) as (sched_start 2))"
    and "\<not> Option.is_none (run_steps (sched_step (\<lambda>i. i)) (as @ bs) (sched_start 2))"
  shows "run_steps (sched_step (\<lambda>i. i)) bs (demo_run as) = Some (demo_run (as @ bs))"
  using assms by (auto simp: demo_run_def Option.is_none_def run_steps_append split: option.splits)

lemma demo_run:
  "\<not> Option.is_none (run_steps (sched_step (\<lambda>i. i)) as (sched_start 2)) \<Longrightarrow>
     run_steps (sched_step (\<lambda>i. i)) as (sched_start 2) = Some (demo_run as)"
  by (auto simp: demo_run_def Option.is_none_def)

text \<open>
  As long as nobody calls \<open>pause\<close>, no two workers hold (have taken, execute, or notify the
  completion of) the same task, and the task a worker holds is Running, Completed or Cancelled
  while it is in the table.
\<close>

theorem execution_exclusive:
  assumes "mv_ok mv" "run_steps (sched_step mv) as (sched_start n) = Some s" "\<not> list_ex pauses as"
    and "w < length (workers s)" "holds (workers s ! w) = Some i"
  shows "(\<forall>v < length (workers s). holds (workers s ! v) = Some i \<longrightarrow> v = w) \<and>
    (\<forall>t. map_of (tasks s) i = Some t \<longrightarrow> tk_state t \<in> {Running, Cancelled, Completed})"
proof -
  have "run_steps (unpaused_step mv) as (sched_start n) = Some s"
    using run_unpaused [of mv as "sched_start n"] assms(2,3) by simp
  then have inv: "excl_inv s" using sch.inv_reachable [of mv] assms(1) by blast
  show ?thesis
    using excl_held [OF inv assms(4,5)] inv assms(4,5) unfolding excl_inv_def held_once_def by blast
qed

theorem execution_exclusive_witness:
  "holds (workers (demo_run [Submit ''t'' 0 (demo_task []), Wake 0 1, Find 0]) ! 0) = Some ''t'' \<and>
    holds (workers (demo_run [Submit ''t'' 0 (demo_task []), Wake 0 1, Find 0]) ! 1) \<noteq> Some ''t''"
proof -
  let ?as = "[Submit ''t'' 0 (demo_task []), Wake 0 1, Find 0]"
  have run: "run_steps (sched_step (\<lambda>i. i)) ?as (sched_start 2) = Some (demo_run ?as)"
    by (rule demo_run) code_simp
  have h: "holds (workers (demo_run ?as) ! 0) = Some ''t''" by code_simp
  have "mv_ok (\<lambda>i. i)" "\<not> list_ex pauses ?as" "0 < length (workers (demo_run ?as))"
    by (simp add: mv_ok_def, simp, code_simp)
  note one = execution_exclusive [OF this(1) run this(2,3) h, THEN conjunct1, rule_format, of 1]
  have "1 < length (workers (demo_run ?as))" by code_simp
  with one h show ?thesis by (metis zero_neq_one)
qed

text \<open>
  With \<open>pause\<close> the guarantee is lost: pausing a task that a worker is executing and
  resuming it queues it again, and a second worker executes it at the same time.
\<close>

theorem pause_resume_runs_twice:
  "\<exists>as s. run_steps (sched_step (\<lambda>i. i)) as (sched_start 2) = Some s \<and>
     workers s = [Executing ''t'', Executing ''t'']"
proof -
  let ?as = "[Submit ''t'' 0 (demo_task []), Wake 0 1, Find 0, PauseTask ''t'', ResumeTask ''t'', Wake 1 2, Find 1]"
  have "run_steps (sched_step (\<lambda>i. i)) ?as (sched_start 2) = Some (demo_run ?as)"
    by (rule demo_run) code_simp
  moreover have "workers (demo_run ?as) = [Executing ''t'', Executing ''t'']" by code_simp
  ultimately show ?thesis by blast
qed

subsection \<open>Tasks that are never executed\<close>

text \<open>
  A stranded task is pending, not in the queue and held by no worker. (Tasks are stored under
  their own ids.)
\<close>

definition own_ids :: "(string, Task) umap \<Rightarrow> bool" where
  "own_ids ts \<longleftrightarrow> distinct (um_keys ts) \<and> (\<forall>k t. map_of ts k = Some t \<longrightarrow> tk_id t = k)"

definition stranded :: "string \<Rightarrow> Scheduler \<Rightarrow> bool" where
  "stranded i s \<longleftrightarrow> i \<noteq> [] \<and> getTaskState i s = Some Pending \<and> i \<notin> snd ` set (task_queue s) \<and>
     Some i \<notin> holds ` set (workers s)"

lemma distinct_keys_fold_delete:
  "distinct (um_keys m) \<Longrightarrow> distinct (um_keys (fold AList.delete ks m))"
  by (induction ks arbitrary: m) auto

lemma own_ids_map_entry: "own_ids ts \<Longrightarrow> (\<And>t. tk_id (f t) = tk_id t) \<Longrightarrow> own_ids (AList.map_entry i f ts)"
  by (auto simp: own_ids_def split: if_splits)

lemma stranded_change:
  assumes "stranded i s" "map_of (tasks s') i = map_of (tasks s) i"
    and q: "snd ` set (task_queue s') \<subseteq> snd ` set (task_queue s) \<union> {j. j \<noteq> i}"
    and h: "holds ` set (workers s') \<subseteq> holds ` set (workers s) \<union> {j. j \<noteq> Some i}"
  shows "stranded i s'"
proof -
  have "i \<notin> snd ` set (task_queue s')" "Some i \<notin> holds ` set (workers s')"
    using assms(1) q h unfolding stranded_def by blast+
  with assms(1,2) show ?thesis by (simp add: stranded_def getTaskState_def)
qed

lemma holds_update: "holds ` set (ws[w := p]) \<subseteq> insert (holds p) (holds ` set ws)"
  by (metis image_insert image_mono set_update_subset_insert)

lemma stranded_not_held:
  "stranded i s \<Longrightarrow> w < length (workers s) \<Longrightarrow> holds (workers s ! w) = Some j \<Longrightarrow> j \<noteq> i"
  unfolding stranded_def by (metis image_eqI nth_mem)

lemma fail_task_frame:
  assumes "j \<noteq> i" "tk_id t = j"
  shows "map_of (tasks (fail_task j t m s)) i = map_of (tasks s) i"
    "snd ` set (task_queue (fail_task j t m s)) \<subseteq> snd ` set (task_queue s) \<union> {k. k \<noteq> i}"
  using assms by (auto simp: fail_task_def enqueue_def)

lemma complete_task_frame:
  "j \<noteq> i \<Longrightarrow> map_of (tasks (complete_task j now s)) i = map_of (tasks s) i"
  "task_queue (complete_task j now s) = task_queue s"
  by (simp_all add: complete_task_def)

lemma control_frame [simp]:
  "workers (snd (cancel j s)) = workers s" "workers (snd (pause j s)) = workers s"
  "workers (snd (resume j s)) = workers s"
  "task_queue (snd (cancel j s)) = task_queue s" "task_queue (snd (pause j s)) = task_queue s"
  "i \<noteq> j \<Longrightarrow> map_of (tasks (snd (cancel j s))) i = map_of (tasks s) i"
  "i \<noteq> j \<Longrightarrow> map_of (tasks (snd (pause j s))) i = map_of (tasks s) i"
  "i \<noteq> j \<Longrightarrow> map_of (tasks (snd (resume j s))) i = map_of (tasks s) i"
  by (simp_all add: cancel_def pause_def resume_def split: option.splits)

lemma resume_other:
  assumes "stranded i s"
  shows "map_of (tasks (snd (resume j s))) i = map_of (tasks s) i"
    "snd ` set (task_queue (snd (resume j s))) \<subseteq> snd ` set (task_queue s) \<union> {k. k \<noteq> i}"
  using assms by (auto simp: resume_def enqueue_def stranded_def getTaskState_def split: option.splits)

fun controls :: "string \<Rightarrow> sched_action \<Rightarrow> bool" where
  "controls i (CancelTask j) = (i = j)"
| "controls i (PauseTask j) = (i = j)"
| "controls i _ = False"

lemma own_ids_tasks:
  assumes "own_ids (tasks s)"
  shows "own_ids (tasks (fail_task i t m s))" "own_ids (tasks (complete_task i now s))"
    "own_ids (tasks (snd (cancel i s)))" "own_ids (tasks (snd (pause i s)))"
    "own_ids (tasks (snd (resume i s)))" "own_ids (tasks (clearCompleted s))"
proof -
  show "own_ids (tasks (fail_task i t m s))" "own_ids (tasks (complete_task i now s))"
    by (auto simp: fail_task_def complete_task_def assms intro: own_ids_map_entry)
  show "own_ids (tasks (snd (cancel i s)))" "own_ids (tasks (snd (pause i s)))"
    "own_ids (tasks (snd (resume i s)))"
    by (auto simp: cancel_def pause_def resume_def assms split: option.splits intro: own_ids_map_entry)
  show "own_ids (tasks (clearCompleted s))"
    using assms by (auto simp: clearCompleted_def own_ids_def fold_delete distinct_keys_fold_delete split: if_splits)
qed

lemma own_ids_wake:
  assumes "own_ids (tasks s)" "worker_wake w now s = Some s'"
  shows "own_ids (tasks s')"
proof -
  obtain r ts q where pop: "pop_loop now (tasks s) (task_queue s) = (r, ts, q)" by (metis prod_cases3)
  have "own_ids ts"
  proof (cases r)
    case None
    with pop_loop_none [of now "tasks s" "task_queue s" ts q] pop assms(1) show ?thesis by simp
  next
    case (Some i)
    with pop_loop_some [of now "tasks s" "task_queue s" i ts q] pop
    have "ts = AList.map_entry i (start_task now) (tasks s)" by blast
    with assms(1) show ?thesis by (simp add: own_ids_map_entry start_task_def)
  qed
  moreover have "tasks s' = tasks s \<or> tasks s' = ts"
    using assms(2) pop by (auto simp: worker_wake_def Let_def split: if_splits)
  ultimately show ?thesis using assms(1) by auto
qed

lemma own_ids_step:
  assumes own: "own_ids (tasks s)" and "mv_ok mv" "sched_step mv a s = Some s'"
  shows "own_ids (tasks s')"
proof (cases a)
  case (Submit gid now t)
  with assms(3) have s': "s' = snd (submit_task mv gid now t s)" by (auto split: if_splits)
  have "mv gid = [] \<or> mv gid = gid" using assms(2) by (simp add: mv_ok_def)
  then show ?thesis
    using own by (elim disjE) (auto simp: s' own_ids_def submit_task_def Let_def zero_Task_def split: if_splits)
next
  case (Wake w now)
  with assms own_ids_wake [OF own] show ?thesis by (auto split: if_splits)
qed (use assms(3) own own_ids_tasks [OF own] in
    \<open>auto simp: worker_find_def work_done_def callback_done_def split: if_splits worker_state.splits option.splits\<close>)

lemma stranded_wake:
  assumes st: "stranded i s" and step: "worker_wake w now s = Some s'"
  shows "stranded i s'"
proof -
  obtain r ts q where pop: "pop_loop now (tasks s) (task_queue s) = (r, ts, q)" by (metis prod_cases3)
  have "\<exists>p. workers s' = (workers s)[w := p] \<and> holds p \<noteq> Some i \<and> map_of (tasks s') i = map_of (tasks s) i \<and>
    set (task_queue s') \<subseteq> set (task_queue s)"
  proof (cases r)
    case None
    with step pop pop_loop_none [of now "tasks s" "task_queue s" ts q] show ?thesis
      by (auto simp: worker_wake_def Let_def worker_goto_def split: if_splits)
  next
    case (Some k)
    with pop_loop_some [of now "tasks s" "task_queue s" k ts q] pop
    obtain p where p: "(p, k) \<in> set (task_queue s)" "ts = AList.map_entry k (start_task now) (tasks s)"
      "set q \<subseteq> set (task_queue s)" by blast
    then have "k \<noteq> i" using st by (force simp: stranded_def)
    with step pop Some p show ?thesis
      by (intro exI [of _ "if sc_stopping s then Exited else if k = [] then Waiting else Took k"])
        (auto simp: worker_wake_def Let_def worker_goto_def split: if_splits)
  qed
  then obtain p where "workers s' = (workers s)[w := p]" "holds p \<noteq> Some i"
      "map_of (tasks s') i = map_of (tasks s) i" "set (task_queue s') \<subseteq> set (task_queue s)" by blast
  with holds_update [of "workers s" w p] show ?thesis
    by (intro stranded_change [OF st]) auto
qed

lemma stranded_step:
  assumes st: "stranded i s" and own: "own_ids (tasks s)" and mv: "mv_ok mv"
    and nc: "\<not> controls i a" and step: "sched_step mv a s = Some s'"
  shows "stranded i s'"
proof (cases a)
  case (Submit gid now t)
  with step have f: "fresh_id gid s" and s': "s' = snd (submit_task mv gid now t s)"
    by (auto split: if_splits)
  have "gid \<noteq> i" "i \<noteq> []" using f st by (auto simp: fresh_id_def stranded_def getTaskState_def)
  moreover have "mv gid = [] \<or> mv gid = gid" using mv by (simp add: mv_ok_def)
  ultimately show ?thesis
    by (intro stranded_change [OF st]) (auto simp: s' submit_task_def Let_def enqueue_def)
next
  case (CancelTask j)
  with nc step show ?thesis
    by (intro stranded_change [OF st]) auto
next
  case (PauseTask j)
  with nc step show ?thesis
    by (intro stranded_change [OF st]) auto
next
  case (ResumeTask j)
  with step resume_other [OF st, of j] show ?thesis
    by (intro stranded_change [OF st]) auto
next
  case ClearCompleted
  have "map_of (tasks s') i = map_of (tasks s) i"
    using st ClearCompleted step own
    by (auto simp: clearCompleted_def fold_delete clear_ids_def own_ids_def distinct_map_of_iff
      stranded_def getTaskState_def)
  with ClearCompleted step show ?thesis
    by (intro stranded_change [OF st]) (auto simp: clearCompleted_def)
next
  case StopRequest
  with step show ?thesis
    by (intro stranded_change [OF st]) (auto split: if_splits)
next
  case StopJoin
  with step show ?thesis
    by (intro stranded_change [OF st]) (auto split: if_splits)
next
  case (Wake w now)
  with step stranded_wake [OF st] show ?thesis by (auto split: if_splits)
next
  case (Find w)
  with step obtain j where w: "w < length (workers s)" "workers s ! w = Took j" and s': "s' = worker_find w j s"
    by (auto split: if_splits worker_state.splits)
  have "j \<noteq> i" using stranded_not_held [OF st w(1), of j] w(2) by simp
  then show ?thesis
    using holds_update [of "workers s" w Waiting] holds_update [of "workers s" w "Executing j"]
    by (intro stranded_change [OF st]) (auto simp: s' worker_find_def split: option.splits)
next
  case (WorkDone w e now)
  with step obtain j where w: "w < length (workers s)" "workers s ! w = Executing j"
    and wd: "work_done w j e now s = Some s'"
    by (auto split: if_splits worker_state.splits)
  have ji: "j \<noteq> i" using stranded_not_held [OF st w(1), of j] w(2) by simp
  from wd obtain t where t: "map_of (tasks s) j = Some t"
    and s': "s' = worker_goto w (if e = None \<and> has_on_complete t then Notifying j else Waiting)
      (case e of None \<Rightarrow> complete_task j now s | Some m \<Rightarrow> fail_task j t m s)"
    by (auto simp: work_done_def split: option.splits if_splits)
  have "tk_id t = j" using own t by (simp add: own_ids_def)
  then show ?thesis
    using ji holds_update [of "workers s" w Waiting] holds_update [of "workers s" w "Notifying j"]
      fail_task_frame [OF ji, of t _ s] complete_task_frame(1) [OF ji, of now s]
    by (intro stranded_change [OF st]) (auto simp: s' complete_task_frame(2) split: option.splits)
next
  case (CallbackDone w e)
  with step obtain j t where w: "w < length (workers s)" "workers s ! w = Notifying j"
    and t: "map_of (tasks s) j = Some t"
    and s': "s' = worker_goto w Waiting (case e of None \<Rightarrow> s | Some m \<Rightarrow> fail_task j t m s)"
    by (auto simp: callback_done_def split: if_splits worker_state.splits option.splits)
  have ji: "j \<noteq> i" using stranded_not_held [OF st w(1), of j] w(2) by simp
  have "tk_id t = j" using own t by (simp add: own_ids_def)
  then show ?thesis
    using holds_update [of "workers s" w Waiting] fail_task_frame [OF ji, of t _ s]
    by (intro stranded_change [OF st]) (auto simp: s' split: option.splits)
qed

lemma stranded_run:
  assumes "stranded i s" "own_ids (tasks s)" "mv_ok mv" "\<not> list_ex (controls i) as"
    "run_steps (sched_step mv) as s = Some s'"
  shows "stranded i s'"
  using assms
proof (induction as arbitrary: s)
  case (Cons a as)
  then obtain t where "sched_step mv a s = Some t" "run_steps (sched_step mv) as t = Some s'"
    by (auto split: option.splits)
  with Cons stranded_step [of i s mv a t] own_ids_step [of s mv a t] show ?case by auto
qed simp

lemma own_ids_run:
  "own_ids (tasks s) \<Longrightarrow> mv_ok mv \<Longrightarrow> run_steps (sched_step mv) as s = Some s' \<Longrightarrow> own_ids (tasks s')"
  by (induction as arbitrary: s) (auto split: option.splits dest: own_ids_step)

lemma own_ids_start: "own_ids (tasks (sched_start n))"
  by (simp add: own_ids_def sched_start_def initialize_def new_Scheduler_def)

text \<open>
  A task that a worker popped while a dependency was not completed is dropped from the
  queue and nothing puts it back: once pending, out of the queue and with no worker, a task
  stays so through every further sequence of operations and worker steps (completion of its
  dependencies included), unless it is cancelled or paused.
\<close>

theorem stranded_forever:
  assumes "mv_ok mv" "run_steps (sched_step mv) as (sched_start n) = Some s" "stranded i s"
    and "\<not> list_ex (controls i) bs" "run_steps (sched_step mv) bs s = Some s'"
  shows "stranded i s'"
  using stranded_run [OF assms(3) _ assms(1,4,5)] own_ids_run [OF own_ids_start assms(1,2)] by blast

definition demo_stranding :: "sched_action list" where
  "demo_stranding = [Submit ''t'' 0 (demo_task []), Wake 0 1, Find 0, Submit ''u'' 2 (demo_task [''t'']), Wake 1 3]"

theorem stranded_forever_witness:
  "getTaskState ''t'' (demo_run (demo_stranding @ [WorkDone 0 None 4])) = Some Completed \<and>
    stranded ''u'' (demo_run (demo_stranding @ [WorkDone 0 None 4]))"
proof
  show "getTaskState ''t'' (demo_run (demo_stranding @ [WorkDone 0 None 4])) = Some Completed"
    by code_simp
  have "stranded ''u'' (demo_run demo_stranding)" "\<not> list_ex (controls ''u'') [WorkDone 0 None 4]"
    by code_simp+
  moreover have "mv_ok (\<lambda>i. i)" by (simp add: mv_ok_def)
  moreover have "run_steps (sched_step (\<lambda>i. i)) [WorkDone 0 None 4] (demo_run demo_stranding) =
      Some (demo_run (demo_stranding @ [WorkDone 0 None 4]))"
    by (rule demo_run_append) code_simp+
  moreover have "run_steps (sched_step (\<lambda>i. i)) demo_stranding (sched_start 2) = Some (demo_run demo_stranding)"
    by (rule demo_run) code_simp
  ultimately show "stranded ''u'' (demo_run (demo_stranding @ [WorkDone 0 None 4]))"
    using stranded_forever by blast
qed

text \<open>
  \<open>submit\<close> returns and queues what is left of the id after the move. If that is the id,
  the new task is queued under it with its priority. If it is the empty string (as the common
  library leaves it), the caller gets the empty string, the new task is stranded from the
  start, and an empty task is entered under the empty id instead.
\<close>

theorem submit_after_move:
  assumes "own_ids (tasks s)" "fresh_id gid s" "\<not> sc_stopping s" "submit_task mv gid now t s = (r, s')"
  shows "r = mv gid \<and> getTaskState gid s' = Some Pending \<and>
    (mv gid = gid \<longrightarrow> task_queue s' = task_queue s @ [(- priority_value (priority t), gid)]) \<and>
    (mv gid = [] \<longrightarrow> stranded gid s' \<and> getTaskState [] s' \<noteq> None)"
proof -
  have g: "gid \<noteq> []" "gid \<notin> snd ` set (task_queue s)" "Some gid \<notin> holds ` set (workers s)"
    using assms(2) by (simp_all add: fresh_id_def)
  let ?t = "t\<lparr>tk_id := gid, tk_state := Pending, created_at := now,
              max_retries := (if max_retries t = 0 then default_max_retries s else max_retries t),
              timeout := (if timeout t = 0 then default_timeout s else timeout t)\<rparr>"
  let ?ts1 = "AList.update gid ?t (tasks s)"
  let ?ts = "if map_of ?ts1 (mv gid) = None then AList.update (mv gid) zero_Task ?ts1 else ?ts1"
  have r: "r = mv gid" and ts: "tasks s' = ?ts" and ws: "workers s' = workers s"
    and q: "task_queue s' = enqueue (priority (um_get zero_Task ?ts (mv gid))) (mv gid) (task_queue s)"
  proof -
    have "r = fst (submit_task mv gid now t s)" "s' = snd (submit_task mv gid now t s)"
      using assms(4) by simp_all
    then show "r = mv gid" "tasks s' = ?ts" "workers s' = workers s"
      "task_queue s' = enqueue (priority (um_get zero_Task ?ts (mv gid))) (mv gid) (task_queue s)"
      using assms(3) by (simp_all add: submit_task_def Let_def)
  qed
  have st: "getTaskState gid s' = Some Pending"
    using g(1) by (auto simp: getTaskState_def ts)
  moreover have "task_queue s' = task_queue s @ [(- priority_value (priority t), gid)]" if "mv gid = gid"
    using that by (simp add: q enqueue_def um_get_def)
  moreover have "stranded gid s' \<and> getTaskState [] s' \<noteq> None" if "mv gid = []"
    using that g st by (auto simp: stranded_def q ws enqueue_def getTaskState_def ts)
  ultimately show ?thesis using r by blast
qed

theorem submit_after_move_witness:
  "stranded ''t'' (snd (submit_task (\<lambda>i. []) ''t'' 0 (demo_task []) (sched_start 2))) \<and>
    task_queue (snd (submit_task (\<lambda>i. i) ''t'' 0 (demo_task []) (sched_start 2))) = [(0, ''t'')]"
proof -
  have f: "fresh_id ''t'' (sched_start 2)" "\<not> sc_stopping (sched_start 2)" by code_simp+
  have "stranded ''t'' (snd (submit_task (\<lambda>i. []) ''t'' 0 (demo_task []) (sched_start 2)))"
    using submit_after_move [OF own_ids_start f prod.collapse [symmetric],
      of "\<lambda>i. []" 0 "demo_task []", THEN conjunct2, THEN conjunct2, THEN conjunct2] by simp
  moreover have "task_queue (snd (submit_task (\<lambda>i. i) ''t'' 0 (demo_task []) (sched_start 2))) = [(0, ''t'')]"
    by code_simp
  ultimately show ?thesis by blast
qed

subsection \<open>The end of a task\<close>

text \<open>
  When the work of an executing task returns, the task is Completed (and counted), whatever
  happened to its state meanwhile: a successful \<open>cancel\<close> during the execution is undone. When
  the work throws, the task is queued again as Pending with one more retry if it has any left,
  and is Failed otherwise.
\<close>

theorem work_result:
  assumes "w < length (workers s)" "workers s ! w = Executing i" "map_of (tasks s) i = Some t" "has_work t"
    and "sched_step mv (WorkDone w e now) s = Some s'"
  shows "map_option (\<lambda>t'. (tk_state t', retry_count t')) (getTask i s') = Some
      (case e of None \<Rightarrow> (Completed, retry_count t)
       | Some m \<Rightarrow> if retry_count t < max_retries t then (Pending, retry_count t + 1) else (Failed, retry_count t)) \<and>
    task_queue s' = task_queue s @
      (if e \<noteq> None \<and> retry_count t < max_retries t then [(- priority_value (priority t), tk_id t)] else []) \<and>
    total_completed s' = total_completed s + (if e = None then 1 else 0) \<and>
    total_failed s' = total_failed s + (if e \<noteq> None \<and> \<not> retry_count t < max_retries t then 1 else 0) \<and>
    total_cancelled s' = total_cancelled s"
  using assms
  by (auto simp: work_done_def complete_task_def fail_task_def getTask_def enqueue_def worker_goto_def
      split: option.splits)

theorem work_result_witness:
  "map_option (\<lambda>t'. (tk_state t', retry_count t'))
     (getTask ''t'' (demo_run [Submit ''t'' 0 (demo_task []), Wake 0 1, Find 0, CancelTask ''t'', WorkDone 0 None 4]))
   = Some (Completed, 0)"
proof -
  let ?as = "[Submit ''t'' 0 (demo_task []), Wake 0 1, Find 0, CancelTask ''t'']"
  let ?bs = "[Submit ''t'' 0 (demo_task []), Wake 0 1, Find 0, CancelTask ''t'', WorkDone 0 None 4]"
  obtain t where t: "map_of (tasks (demo_run ?as)) ''t'' = Some t"
    and f: "map_option (\<lambda>t. (has_work t, retry_count t)) (map_of (tasks (demo_run ?as)) ''t'') = Some (True, 0)"
  proof -
    have "map_option (\<lambda>t. (has_work t, retry_count t)) (map_of (tasks (demo_run ?as)) ''t'') = Some (True, 0)"
      by code_simp
    then show ?thesis using that by auto
  qed
  have "run_steps (sched_step (\<lambda>i. i)) [WorkDone 0 None 4] (demo_run ?as) = Some (demo_run (?as @ [WorkDone 0 None 4]))"
    by (rule demo_run_append) code_simp+
  then have "sched_step (\<lambda>i. i) (WorkDone 0 None 4) (demo_run ?as) = Some (demo_run ?bs)"
    by (simp del: sched_step.simps split: option.splits)
  moreover have "0 < length (workers (demo_run ?as))" "workers (demo_run ?as) ! 0 = Executing ''t''"
    by code_simp+
  ultimately show ?thesis
    using work_result [OF _ _ t] t f by fastforce
qed

text \<open>
  A task that is cancelled while a worker executes it and then cleared is gone from the
  table while the worker still executes it: the reference \<open>executeTask\<close> holds dangles, and the
  end of the work is not a defined step.
\<close>

theorem cancel_clear_dangles:
  assumes "own_ids (tasks s)" "w < length (workers s)" "workers s ! w = Executing i"
    and "map_of (tasks s) i = Some t" "tk_state t = Running" "cancellable t"
    and "run_steps (sched_step mv) [CancelTask i, ClearCompleted] s = Some s'"
  shows "workers s' ! w = Executing i \<and> getTask i s' = None \<and> sched_step mv (WorkDone w e now) s' = None"
proof -
  have c: "cancel i s = (True, s\<lparr>tasks := AList.map_entry i (set_state Cancelled) (tasks s),
      total_cancelled := total_cancelled s + 1\<rparr>)"
    using assms(4-6) by (simp add: cancel_def)
  have d: "distinct (um_keys (AList.map_entry i (set_state Cancelled) (tasks s)))"
    using assms(1) by (simp add: own_ids_def)
  have "(i, set_state Cancelled t) \<in> set (AList.map_entry i (set_state Cancelled) (tasks s))"
    using assms(4) by (simp add: distinct_map_of_iff [OF d])
  then have "i \<in> set (clear_ids (snd (cancel i s)))"
    by (force simp: c clear_ids_def)
  then have "getTask i s' = None" "workers s' = workers s"
    using assms(7) by (auto simp: getTask_def clearCompleted_def fold_delete)
  with assms(2,3) show ?thesis
    by (simp add: work_done_def getTask_def)
qed

theorem cancel_clear_dangles_witness:
  "getTask ''t'' (demo_run [Submit ''t'' 0 (demo_task []), Wake 0 1, Find 0, CancelTask ''t'', ClearCompleted]) = None"
proof -
  let ?as = "[Submit ''t'' 0 (demo_task []), Wake 0 1, Find 0]"
  let ?bs = "[Submit ''t'' 0 (demo_task []), Wake 0 1, Find 0, CancelTask ''t'', ClearCompleted]"
  have "run_steps (sched_step (\<lambda>i. i)) [CancelTask ''t'', ClearCompleted] (demo_run ?as) =
      Some (demo_run (?as @ [CancelTask ''t'', ClearCompleted]))"
    by (rule demo_run_append) code_simp+
  then have r: "run_steps (sched_step (\<lambda>i. i)) [CancelTask ''t'', ClearCompleted] (demo_run ?as) = Some (demo_run ?bs)"
    by simp
  have "run_steps (sched_step (\<lambda>i. i)) ?as (sched_start 2) = Some (demo_run ?as)"
    by (rule demo_run) code_simp
  then have "own_ids (tasks (demo_run ?as))"
    by (rule own_ids_run [OF own_ids_start, rotated]) (simp add: mv_ok_def)
  moreover have f: "map_option (\<lambda>t. (tk_state t, cancellable t)) (map_of (tasks (demo_run ?as)) ''t'') = Some (Running, True)"
    "0 < length (workers (demo_run ?as))" "workers (demo_run ?as) ! 0 = Executing ''t''"
    by code_simp+
  ultimately show ?thesis
    using cancel_clear_dangles [OF _ f(2,3) _ _ _ r] f(1) by fastforce
qed

subsection \<open>Statistics\<close>

lemma count_tasks_sums:
  "ss_pending (count_tasks ts st) = ss_pending st + length (filter (\<lambda>(i, t). tk_state t = Pending \<or> tk_state t = Paused) ts)"
  "ss_running (count_tasks ts st) = ss_running st + length (filter (\<lambda>(i, t). tk_state t = Running) ts)"
  "ss_pending (count_tasks ts st) + ss_running (count_tasks ts st) + ss_completed (count_tasks ts st) +
     ss_failed (count_tasks ts st) + ss_cancelled (count_tasks ts st) =
   ss_pending st + ss_running st + ss_completed st + ss_failed st + ss_cancelled st + length ts"
  "ss_total (count_tasks ts st) = ss_total st" "ss_workers (count_tasks ts st) = ss_workers st"
  by (induction ts st rule: count_tasks.induct) (auto simp: count_task_def split: TaskState.splits)

text \<open>
  \<open>getStats\<close> counts every task of the table in exactly one of its five columns, and its
  pending and running columns are what \<open>getPendingCount\<close> and \<open>getRunningCount\<close> answer.
\<close>

theorem stats_partition:
  "ss_pending (getStats s) + ss_running (getStats s) + ss_completed (getStats s) +
     ss_failed (getStats s) + ss_cancelled (getStats s) = length (tasks s) \<and>
   ss_pending (getStats s) = getPendingCount s \<and> ss_running (getStats s) = getRunningCount s"
  using count_tasks_sums(3) [of "tasks s" "\<lparr>ss_total = total_submitted s, ss_pending = 0, ss_running = 0,
      ss_completed = 0, ss_failed = 0, ss_cancelled = 0, ss_workers = num_worker_threads s\<rparr>"]
  by (simp add: getStats_def count_tasks_sums(1,2) getPendingCount_def getRunningCount_def)

end
