(* ===== verification/Model_Router.thy ===== *)
theory Model_Router
  imports TaskGraph
begin

text \<open>
  The model router of \<open>src/src/providers/ModelRouter.h\<close> and \<open>ModelRouter.cpp\<close>: the registry of
  providers, the route of each agent role, the circuit breaker that keeps calls away from a
  failing provider, the fallback chain, and the metrics ledgers.

  \<^item> \<open>providers\<close> maps a name to whether its pointer is non-null. The provider itself (an HTTP
    client) is outside: what a call returns is an argument, and \<open>Threw\<close> says that it threw.
  \<^item> A call of \<open>routeWithFallback\<close> is a thread whose program point is a \<open>route_pc\<close>; the sections
    under \<open>health_mutex_\<close> and \<open>provider_mutex_\<close> are one step each, and other threads run in
    between. \<open>route_loop\<close> is the same loop with nobody in between.
  \<^item> Counters of the ledgers are 64-bit words (\<open>uint64_t\<close>, so they wrap). The floating-point
    latency columns and the events on the bus are left out. Times are whole seconds.
\<close>

subsection \<open>Data\<close>

datatype ProviderStatus = Healthy | Degraded | HalfOpen | Offline

record ProviderHealth =
  status :: ProviderStatus
  consecutive_failures :: nat
  last_failure_time :: int
  last_success_time :: int
  last_error :: string
  probe_in_flight :: bool

definition fresh_health :: ProviderHealth where
  "fresh_health = \<lparr>status = Healthy, consecutive_failures = 0, last_failure_time = 0,
     last_success_time = 0, last_error = [], probe_in_flight = False\<rparr>"

record UsageStats =
  prompt_tokens :: "64 word"
  completion_tokens :: "64 word"
  usage_total_tokens :: "64 word"

record ModelResponse =
  rs_content :: string
  rs_success :: bool
  rs_error :: string
  usage :: UsageStats

definition empty_response :: ModelResponse where
  "empty_response = \<lparr>rs_content = [], rs_success = False, rs_error = [],
     usage = \<lparr>prompt_tokens = 0, completion_tokens = 0, usage_total_tokens = 0\<rparr>\<rparr>"

record ProviderMetricsLedger =
  total_requests :: "64 word"
  successful_requests :: "64 word"
  failed_requests :: "64 word"
  total_prompt_tokens :: "64 word"
  total_completion_tokens :: "64 word"
  total_tokens :: "64 word"

definition empty_ledger :: ProviderMetricsLedger where
  "empty_ledger = \<lparr>total_requests = 0, successful_requests = 0, failed_requests = 0,
     total_prompt_tokens = 0, total_completion_tokens = 0, total_tokens = 0\<rparr>"

definition ledger_success :: "UsageStats \<Rightarrow> ProviderMetricsLedger \<Rightarrow> ProviderMetricsLedger" where
  "ledger_success u m = m\<lparr>total_requests := total_requests m + 1,
     successful_requests := successful_requests m + 1,
     total_prompt_tokens := total_prompt_tokens m + prompt_tokens u,
     total_completion_tokens := total_completion_tokens m + completion_tokens u,
     total_tokens := total_tokens m + usage_total_tokens u\<rparr>"

definition ledger_failure :: "ProviderMetricsLedger \<Rightarrow> ProviderMetricsLedger" where
  "ledger_failure m = m\<lparr>total_requests := total_requests m + 1,
     failed_requests := failed_requests m + 1\<rparr>"

text \<open>The temperature is the decimal literal of the source, in tenths.\<close>

record ModelRouteConfig =
  provider_name :: string
  model_name :: string
  temperature_tenths :: int
  max_tokens :: int

record ModelRouter =
  providers :: "(string, bool) umap"
  role_routes :: "(AgentType, ModelRouteConfig) umap"
  fallback_chain :: "string list"
  health_map :: "(string, ProviderHealth) umap"
  metrics_map :: "(string, ProviderMetricsLedger) umap"
  global_metrics :: ProviderMetricsLedger
  cooldown_seconds :: int

definition new_ModelRouter :: ModelRouter where
  "new_ModelRouter = \<lparr>providers = [], role_routes = [],
     fallback_chain = [''lm_studio'', ''ollama'', ''openrouter'', ''openai'', ''anthropic''],
     health_map = [], metrics_map = [], global_metrics = empty_ledger, cooldown_seconds = 30\<rparr>"

subsection \<open>Registry and routes\<close>

definition route_of :: "string \<Rightarrow> int \<Rightarrow> int \<Rightarrow> ModelRouteConfig" where
  "route_of m t k = \<lparr>provider_name = ''lm_studio'', model_name = m, temperature_tenths = t, max_tokens = k\<rparr>"

definition default_routes :: "(AgentType \<times> ModelRouteConfig) list" where
  "default_routes = [
     (Planner, route_of ''qwen2.5-coder:14b'' 3 4096),
     (Debugger, route_of ''qwen2.5-coder:14b'' 2 4096),
     (Coder, route_of ''qwen2.5-coder:7b'' 4 4096),
     (Tester, route_of ''qwen2.5-coder:7b'' 2 2048),
     (Reviewer, route_of ''qwen2.5-coder:14b'' 2 4096),
     (Researcher, route_of ''llama3:latest'' 5 2048),
     (Generic, route_of ''local-model'' 7 4096)]"

definition add_missing :: "string \<Rightarrow> (string, bool) umap \<Rightarrow> (string, bool) umap" where
  "add_missing p m = (if map_of m p = None then AList.update p True m else m)"

definition initialize :: "ModelRouter \<Rightarrow> bool \<times> ModelRouter" where
  "initialize r = (True, r\<lparr>
     role_routes := fold (\<lambda>(a, c). AList.update a c) default_routes (role_routes r),
     providers := fold add_missing [''lm_studio'', ''ollama'', ''openai'', ''anthropic'', ''openrouter'']
       (providers r)\<rparr>)"

definition registerProvider :: "string \<Rightarrow> bool \<Rightarrow> ModelRouter \<Rightarrow> ModelRouter" where
  "registerProvider p nonnull r = r\<lparr>providers := AList.update p nonnull (providers r),
     health_map := AList.update p fresh_health (health_map r)\<rparr>"

definition getProvider :: "string \<Rightarrow> ModelRouter \<Rightarrow> bool" where
  "getProvider p r = um_get False (providers r) p"

definition listProviders :: "ModelRouter \<Rightarrow> string list" where
  "listProviders r = um_keys (providers r)"

definition setRoleRoute :: "AgentType \<Rightarrow> ModelRouteConfig \<Rightarrow> ModelRouter \<Rightarrow> ModelRouter" where
  "setRoleRoute a c r = r\<lparr>role_routes := AList.update a c (role_routes r)\<rparr>"

definition getRoleRoute :: "AgentType \<Rightarrow> ModelRouter \<Rightarrow> ModelRouteConfig" where
  "getRoleRoute a r = um_get (route_of ''local-model'' 7 4096) (role_routes r) a"

definition setFallbackChain :: "string list \<Rightarrow> ModelRouter \<Rightarrow> ModelRouter" where
  "setFallbackChain ps r = r\<lparr>fallback_chain := ps\<rparr>"

definition getFallbackChain :: "ModelRouter \<Rightarrow> string list" where
  "getFallbackChain r = fallback_chain r"

definition setCooldownSeconds :: "int \<Rightarrow> ModelRouter \<Rightarrow> ModelRouter" where
  "setCooldownSeconds n r = r\<lparr>cooldown_seconds := n\<rparr>"

subsection \<open>The circuit breaker\<close>

definition shouldAttempt :: "int \<Rightarrow> string \<Rightarrow> ModelRouter \<Rightarrow> bool \<times> ModelRouter" where
  "shouldAttempt now p r =
     (case map_of (health_map r) p of None \<Rightarrow> (True, r)
      | Some h \<Rightarrow>
          if status h = Offline then
            (if now - last_failure_time h \<ge> cooldown_seconds r \<and> \<not> probe_in_flight h
             then (True, r\<lparr>health_map := AList.update p (h\<lparr>probe_in_flight := True, status := HalfOpen\<rparr>) (health_map r)\<rparr>)
             else (False, r))
          else if status h = HalfOpen then (False, r)
          else (True, r))"

definition healthy_now :: "int \<Rightarrow> ProviderHealth \<Rightarrow> ProviderHealth" where
  "healthy_now now h = h\<lparr>status := Healthy, consecutive_failures := 0, probe_in_flight := False,
     last_success_time := now\<rparr>"

definition failed_now :: "int \<Rightarrow> string \<Rightarrow> ProviderHealth \<Rightarrow> ProviderHealth" where
  "failed_now now e h = h\<lparr>consecutive_failures := consecutive_failures h + 1, last_failure_time := now,
     last_error := e, probe_in_flight := False,
     status := (if consecutive_failures h + 1 \<ge> 3 then Offline else Degraded)\<rparr>"

definition recordSuccess :: "int \<Rightarrow> string \<Rightarrow> ModelResponse \<Rightarrow> ModelRouter \<Rightarrow> ModelRouter" where
  "recordSuccess now p resp r = r\<lparr>
     health_map := AList.update p (healthy_now now (um_get fresh_health (health_map r) p)) (health_map r),
     metrics_map := AList.update p (ledger_success (usage resp) (um_get empty_ledger (metrics_map r) p)) (metrics_map r),
     global_metrics := ledger_success (usage resp) (global_metrics r)\<rparr>"

definition recordFailure :: "int \<Rightarrow> string \<Rightarrow> string \<Rightarrow> ModelRouter \<Rightarrow> ModelRouter" where
  "recordFailure now p e r = r\<lparr>
     health_map := AList.update p (failed_now now e (um_get fresh_health (health_map r) p)) (health_map r),
     metrics_map := AList.update p (ledger_failure (um_get empty_ledger (metrics_map r) p)) (metrics_map r),
     global_metrics := ledger_failure (global_metrics r)\<rparr>"

definition getProviderHealth :: "string \<Rightarrow> ModelRouter \<Rightarrow> ProviderHealth" where
  "getProviderHealth p r = um_get fresh_health (health_map r) p"

text \<open>One turn of the loop of \<open>checkHealthAll\<close>: the answer of \<open>isHealthy\<close> is \<open>ok\<close>.\<close>

definition check_one :: "string \<Rightarrow> bool \<Rightarrow> ModelRouter \<Rightarrow> ModelRouter" where
  "check_one p ok r = (let h = um_get fresh_health (health_map r) p in
     r\<lparr>health_map := AList.update p
        (if ok then h\<lparr>status := Healthy, consecutive_failures := 0, probe_in_flight := False\<rparr>
         else h\<lparr>status := Degraded\<rparr>) (health_map r)\<rparr>)"

fun check_each :: "(string \<Rightarrow> bool) \<Rightarrow> (string, bool) umap \<Rightarrow> ModelRouter \<Rightarrow> ModelRouter" where
  "check_each ok [] r = r"
| "check_each ok ((p, nonnull) # ps) r = check_each ok ps (if nonnull then check_one p (ok p) r else r)"

definition checkHealthAll :: "(string \<Rightarrow> bool) \<Rightarrow> ModelRouter \<Rightarrow> ModelRouter" where
  "checkHealthAll ok r = check_each ok (providers r) r"

definition resetHealth :: "string \<Rightarrow> ModelRouter \<Rightarrow> ModelRouter" where
  "resetHealth p r = r\<lparr>health_map := AList.update p fresh_health (health_map r)\<rparr>"

definition getMetrics :: "string \<Rightarrow> ModelRouter \<Rightarrow> ProviderMetricsLedger" where
  "getMetrics p r = (if p = [] then global_metrics r else um_get empty_ledger (metrics_map r) p)"

definition getAllMetrics :: "ModelRouter \<Rightarrow> (string, ProviderMetricsLedger) umap" where
  "getAllMetrics r = metrics_map r"

subsection \<open>Routing\<close>

definition route_chain :: "string \<Rightarrow> ModelRouter \<Rightarrow> string list" where
  "route_chain p r = p # filter (\<lambda>q. q \<noteq> p) (fallback_chain r)"

definition exhausted :: "string \<Rightarrow> ModelResponse" where
  "exhausted e = empty_response\<lparr>rs_error := ''All providers in fallback chain exhausted. Last error: '' @ e\<rparr>"

text \<open>
  The loop over the chain when no other thread runs in between: \<open>clock k\<close> is the time and
  \<open>call k p\<close> the response of provider \<open>p\<close> at the \<open>k\<close>-th turn.
\<close>

fun route_loop :: "(nat \<Rightarrow> int) \<Rightarrow> (nat \<Rightarrow> string \<Rightarrow> ModelResponse) \<Rightarrow> nat \<Rightarrow> string list \<Rightarrow> string \<Rightarrow>
    ModelRouter \<Rightarrow> ModelResponse \<times> ModelRouter" where
  "route_loop clock call k [] e r = (exhausted e, r)"
| "route_loop clock call k (p # ps) e r =
     (case shouldAttempt (clock k) p r of (attempt, r1) \<Rightarrow>
        if \<not> attempt \<or> \<not> getProvider p r1 then route_loop clock call (Suc k) ps e r1
        else
          let resp = call k p in
          if rs_success resp then (resp, recordSuccess (clock k) p resp r1)
          else route_loop clock call (Suc k) ps (rs_error resp) (recordFailure (clock k) p (rs_error resp) r1))"

definition routeWithFallback ::
  "(nat \<Rightarrow> int) \<Rightarrow> (nat \<Rightarrow> string \<Rightarrow> ModelResponse) \<Rightarrow> string \<Rightarrow> ModelRouter \<Rightarrow> ModelResponse \<times> ModelRouter" where
  "routeWithFallback clock call p r = route_loop clock call 0 (route_chain p r) [] r"

definition route :: "(nat \<Rightarrow> int) \<Rightarrow> (nat \<Rightarrow> string \<Rightarrow> ModelResponse) \<Rightarrow> AgentType \<Rightarrow> ModelRouter \<Rightarrow>
    ModelResponse \<times> ModelRouter" where
  "route clock call a r = routeWithFallback clock call (provider_name (getRoleRoute a r)) r"

text \<open>
  A thread inside \<open>routeWithFallback\<close>: before the breaker of the head of the chain; before the
  lookup of the provider; inside the provider; returned; or unwound by an exception.
\<close>

datatype route_pc =
    RCheck "string list" string
  | RLookup string "string list" string
  | RCalling string "string list" string
  | RReturned ModelResponse
  | RUnwound

record RouterSystem =
  router :: ModelRouter
  threads :: "route_pc list"

datatype router_action =
    StartRoute string
  | Advance nat int
  | Respond nat ModelResponse int
  | Throw nat
  | Register string bool
  | CheckHealth string bool
  | ResetHealth string
  | SetChain "string list"
  | SetCooldown int

definition thread_goto :: "nat \<Rightarrow> route_pc \<Rightarrow> ModelRouter \<Rightarrow> RouterSystem \<Rightarrow> RouterSystem" where
  "thread_goto t p r s = s\<lparr>router := r, threads := (threads s)[t := p]\<rparr>"

definition advance :: "nat \<Rightarrow> int \<Rightarrow> route_pc \<Rightarrow> RouterSystem \<Rightarrow> RouterSystem option" where
  "advance t now p s =
     (case p of
        RCheck [] e \<Rightarrow> Some (thread_goto t (RReturned (exhausted e)) (router s) s)
      | RCheck (q # qs) e \<Rightarrow>
          (case shouldAttempt now q (router s) of (attempt, r) \<Rightarrow>
             Some (thread_goto t (if attempt then RLookup q qs e else RCheck qs e) r s))
      | RLookup q qs e \<Rightarrow>
          Some (thread_goto t (if getProvider q (router s) then RCalling q qs e else RCheck qs e) (router s) s)
      | _ \<Rightarrow> None)"

definition respond :: "nat \<Rightarrow> ModelResponse \<Rightarrow> int \<Rightarrow> route_pc \<Rightarrow> RouterSystem \<Rightarrow> RouterSystem option" where
  "respond t resp now p s =
     (case p of
        RCalling q qs e \<Rightarrow>
          Some (if rs_success resp
                then thread_goto t (RReturned resp) (recordSuccess now q resp (router s)) s
                else thread_goto t (RCheck qs (rs_error resp)) (recordFailure now q (rs_error resp) (router s)) s)
      | _ \<Rightarrow> None)"

fun router_step :: "router_action \<Rightarrow> RouterSystem \<Rightarrow> RouterSystem option" where
  "router_step (StartRoute p) s =
     Some (s\<lparr>threads := threads s @ [RCheck (route_chain p (router s)) []]\<rparr>)"
| "router_step (Advance t now) s =
     (if t < length (threads s) then advance t now (threads s ! t) s else None)"
| "router_step (Respond t resp now) s =
     (if t < length (threads s) then respond t resp now (threads s ! t) s else None)"
| "router_step (Throw t) s =
     (if t < length (threads s)
      then (case threads s ! t of RCalling q qs e \<Rightarrow> Some (thread_goto t RUnwound (router s) s) | _ \<Rightarrow> None)
      else None)"
| "router_step (Register p nonnull) s = Some (s\<lparr>router := registerProvider p nonnull (router s)\<rparr>)"
| "router_step (CheckHealth p ok) s =
     (if getProvider p (router s) then Some (s\<lparr>router := check_one p ok (router s)\<rparr>) else None)"
| "router_step (ResetHealth p) s = Some (s\<lparr>router := resetHealth p (router s)\<rparr>)"
| "router_step (SetChain ps) s = Some (s\<lparr>router := setFallbackChain ps (router s)\<rparr>)"
| "router_step (SetCooldown n) s = Some (s\<lparr>router := setCooldownSeconds n (router s)\<rparr>)"

subsection \<open>The invariant\<close>

text \<open>What the fields of a health record say of each other.\<close>

definition health_ok :: "ProviderHealth \<Rightarrow> bool" where
  "health_ok h \<longleftrightarrow>
     (status h = Healthy \<longrightarrow> consecutive_failures h = 0 \<and> \<not> probe_in_flight h) \<and>
     (status h = Offline \<longrightarrow> consecutive_failures h \<ge> 3 \<and> \<not> probe_in_flight h) \<and>
     (status h = HalfOpen \<longrightarrow> consecutive_failures h \<ge> 3 \<and> probe_in_flight h)"

definition ledger_ok :: "ProviderMetricsLedger \<Rightarrow> bool" where
  "ledger_ok m \<longleftrightarrow> total_requests m = successful_requests m + failed_requests m"

definition router_inv :: "ModelRouter \<Rightarrow> bool" where
  "router_inv r \<longleftrightarrow> distinct (um_keys (metrics_map r)) \<and>
     (\<forall>p h. map_of (health_map r) p = Some h \<longrightarrow> health_ok h) \<and>
     (\<forall>p m. map_of (metrics_map r) p = Some m \<longrightarrow> ledger_ok m) \<and>
     ledger_ok (global_metrics r) \<and>
     total_requests (global_metrics r) = (\<Sum>(p, m) \<leftarrow> metrics_map r. total_requests m)"

lemma health_ok_simps [simp]:
  "health_ok fresh_health" "health_ok (healthy_now now h)" "health_ok (failed_now now e h)"
  by (simp_all add: health_ok_def fresh_health_def healthy_now_def failed_now_def)

lemma ledger_ok_simps [simp]:
  "ledger_ok empty_ledger"
  "ledger_ok m \<Longrightarrow> ledger_ok (ledger_success u m)" "ledger_ok m \<Longrightarrow> ledger_ok (ledger_failure m)"
  by (simp_all add: ledger_ok_def empty_ledger_def ledger_success_def ledger_failure_def)

lemma ledger_requests [simp]:
  "total_requests (ledger_success u m) = total_requests m + 1"
  "total_requests (ledger_failure m) = total_requests m + 1"
  by (simp_all add: ledger_success_def ledger_failure_def)

lemma sum_update_ledger:
  fixes f :: "ProviderMetricsLedger \<Rightarrow> 64 word"
  assumes "distinct (um_keys ms)"
  shows "(\<Sum>(q, m) \<leftarrow> AList.update p v ms. f m) =
    (\<Sum>(q, m) \<leftarrow> ms. f m) + f v - (case map_of ms p of None \<Rightarrow> 0 | Some m \<Rightarrow> f m)"
  using assms by (induction ms) auto

lemma um_get_cases: "um_get d m k = d \<or> map_of m k = Some (um_get d m k)"
  by (simp add: um_get_def split: option.splits)

lemma router_inv_health:
  assumes "router_inv r" "health_ok h"
  shows "router_inv (r\<lparr>health_map := AList.update p h (health_map r)\<rparr>)"
  using assms by (simp add: router_inv_def)

lemma router_inv_get:
  assumes "router_inv r"
  shows "health_ok (um_get fresh_health (health_map r) p)" "ledger_ok (um_get empty_ledger (metrics_map r) p)"
  using assms by (auto simp: router_inv_def um_get_def split: option.splits)

lemma shouldAttempt_inv:
  assumes "router_inv r"
  shows "router_inv (snd (shouldAttempt now p r))"
proof (cases "map_of (health_map r) p")
  case (Some h)
  with assms have "health_ok h" by (simp add: router_inv_def)
  then have "health_ok (h\<lparr>probe_in_flight := True, status := HalfOpen\<rparr>)" if "status h = Offline"
    using that by (simp add: health_ok_def)
  with assms Some show ?thesis
    by (simp add: shouldAttempt_def router_inv_health)
qed (simp add: shouldAttempt_def assms)

lemma record_inv:
  assumes "router_inv r"
  shows "router_inv (recordSuccess now p resp r)" "router_inv (recordFailure now p e r)"
proof -
  have t: "total_requests (um_get empty_ledger (metrics_map r) p) =
      (case map_of (metrics_map r) p of None \<Rightarrow> 0 | Some m \<Rightarrow> total_requests m)"
    by (simp add: um_get_def empty_ledger_def split: option.splits)
  have "distinct (um_keys (metrics_map r))" using assms by (simp add: router_inv_def)
  note sums = sum_update_ledger [OF this, of total_requests p]
  show "router_inv (recordSuccess now p resp r)"
    using assms router_inv_get [OF assms, of p] t
    by (auto simp: router_inv_def recordSuccess_def sums)
  show "router_inv (recordFailure now p e r)"
    using assms router_inv_get [OF assms, of p] t
    by (auto simp: router_inv_def recordFailure_def sums)
qed

lemma router_inv_health_map:
  "router_inv r \<Longrightarrow> health_map r' = health_map r \<Longrightarrow> metrics_map r' = metrics_map r \<Longrightarrow>
     global_metrics r' = global_metrics r \<Longrightarrow> router_inv r'"
  by (simp add: router_inv_def)

lemma manage_inv:
  assumes "router_inv r"
  shows "router_inv (registerProvider p nonnull r)" "router_inv (check_one p ok r)"
    "router_inv (resetHealth p r)" "router_inv (setFallbackChain ps r)" "router_inv (setCooldownSeconds n r)"
    "router_inv (setRoleRoute a c r)" "router_inv (snd (initialize r))"
proof -
  show "router_inv (registerProvider p nonnull r)"
    by (rule router_inv_health_map [OF router_inv_health [OF assms health_ok_simps(1), of p]])
      (simp_all add: registerProvider_def)
  show "router_inv (resetHealth p r)"
    by (simp add: resetHealth_def router_inv_health assms)
  have "health_ok (h\<lparr>status := Healthy, consecutive_failures := 0, probe_in_flight := False\<rparr>)"
    "health_ok (h\<lparr>status := Degraded\<rparr>)" for h
    by (simp_all add: health_ok_def)
  then show "router_inv (check_one p ok r)"
    using assms by (simp add: check_one_def Let_def router_inv_health)
qed (rule router_inv_health_map [OF assms]; simp add: setFallbackChain_def setCooldownSeconds_def
    setRoleRoute_def initialize_def)+

lemma router_step_inv:
  assumes "router_inv (router s)" "router_step a s = Some s'"
  shows "router_inv (router s')"
proof (cases a)
  case (Advance t now)
  with assms(2) have "\<exists>p. router s' = router s \<or> router s' = snd (shouldAttempt now p (router s))"
    by (auto simp: advance_def thread_goto_def split: if_splits route_pc.splits list.splits prod.splits)
      (metis snd_conv)+
  with assms(1) shouldAttempt_inv show ?thesis by auto
next
  case (Respond t resp now)
  with assms record_inv show ?thesis
    by (auto simp: respond_def thread_goto_def split: if_splits route_pc.splits)
qed (use assms manage_inv [OF assms(1)] in \<open>auto simp: thread_goto_def split: if_splits route_pc.splits\<close>)

definition router_start :: RouterSystem where
  "router_start = \<lparr>router = snd (initialize new_ModelRouter), threads = []\<rparr>"

lemma router_start_inv: "router_inv (router router_start)"
proof -
  have "router_inv new_ModelRouter"
    by (simp add: router_inv_def new_ModelRouter_def empty_ledger_def ledger_ok_def)
  then show ?thesis by (simp add: router_start_def manage_inv)
qed

interpretation rtr: transition_system "\<lambda>s. s = router_start" router_step "\<lambda>s. router_inv (router s)"
  by unfold_locales (auto intro: router_start_inv router_step_inv)

subsection \<open>Half-open providers\<close>

fun calls :: "string \<Rightarrow> route_pc \<Rightarrow> bool" where
  "calls p (RLookup q qs e) = (p = q)"
| "calls p (RCalling q qs e) = (p = q)"
| "calls p _ = False"

text \<open>Nobody is calling \<open>p\<close> and the breaker has it half open.\<close>

definition probe_lost :: "string \<Rightarrow> RouterSystem \<Rightarrow> bool" where
  "probe_lost p s \<longleftrightarrow> map_option status (map_of (health_map (router s)) p) = Some HalfOpen \<and>
     \<not> list_ex (calls p) (threads s)"

fun revives :: "string \<Rightarrow> router_action \<Rightarrow> bool" where
  "revives p (Register q nonnull) = (p = q)"
| "revives p (CheckHealth q ok) = (p = q)"
| "revives p (ResetHealth q) = (p = q)"
| "revives p _ = False"

lemma probe_lost_change:
  assumes "probe_lost p s" "map_option status (map_of (health_map r) p) = Some HalfOpen" "\<not> calls p pc"
  shows "probe_lost p (thread_goto t pc r s)"
  using assms set_update_subset_insert [of "threads s" t pc]
  by (auto simp: probe_lost_def thread_goto_def list_ex_iff)

lemma shouldAttempt_half_open:
  assumes "map_option status (map_of (health_map r) p) = Some HalfOpen" "shouldAttempt now q r = (b, r')"
  shows "map_option status (map_of (health_map r') p) = Some HalfOpen" "q = p \<Longrightarrow> \<not> b \<and> r' = r"
  using assms by (auto simp: shouldAttempt_def split: option.splits if_splits)

lemma probe_lost_step:
  assumes lost: "probe_lost p s" and nr: "\<not> revives p a" and step: "router_step a s = Some s'"
  shows "probe_lost p s'"
proof -
  have st: "map_option status (map_of (health_map (router s)) p) = Some HalfOpen"
    using lost by (simp add: probe_lost_def)
  have nc: "\<not> calls p (threads s ! t)" if "t < length (threads s)" for t
    using lost that by (auto simp: probe_lost_def list_ex_iff)
  show ?thesis
  proof (cases a)
    case (StartRoute q)
    with step lost show ?thesis by (auto simp: probe_lost_def)
  next
    case (Advance t now)
    with step have t: "t < length (threads s)" and adv: "advance t now (threads s ! t) s = Some s'"
      by (auto split: if_splits)
    show ?thesis
    proof (cases "threads s ! t")
      case (RCheck chain e)
      show ?thesis
      proof (cases chain)
        case Nil
        with adv RCheck show ?thesis
          by (auto simp: advance_def intro!: probe_lost_change [OF lost] st)
      next
        case (Cons q qs)
        obtain b r where sa: "shouldAttempt now q (router s) = (b, r)" by fastforce
        with adv RCheck Cons have "s' = thread_goto t (if b then RLookup q qs e else RCheck qs e) r s"
          by (simp add: advance_def)
        with shouldAttempt_half_open [OF st sa] show ?thesis
          by (auto intro!: probe_lost_change [OF lost])
      qed
    next
      case (RLookup q qs e)
      with adv nc [OF t] show ?thesis
        by (auto simp: advance_def intro!: probe_lost_change [OF lost] st split: if_splits)
    qed (use adv in \<open>simp_all add: advance_def\<close>)
  next
    case (Respond t resp now)
    with step have t: "t < length (threads s)" and r: "respond t resp now (threads s ! t) s = Some s'"
      by (auto split: if_splits)
    then obtain q qs e where q: "threads s ! t = RCalling q qs e"
      by (auto simp: respond_def split: route_pc.splits)
    with nc [OF t] have "q \<noteq> p" by auto
    with r q st show ?thesis
      by (auto simp: respond_def recordSuccess_def recordFailure_def intro!: probe_lost_change [OF lost] split: if_splits)
  next
    case (Throw t)
    with step lost st show ?thesis
      by (auto intro!: probe_lost_change split: if_splits route_pc.splits)
  qed (use nr step lost in \<open>auto simp: probe_lost_def registerProvider_def check_one_def resetHealth_def
      setFallbackChain_def setCooldownSeconds_def Let_def split: if_splits\<close>)
qed

lemma probe_lost_run:
  "probe_lost p s \<Longrightarrow> \<not> list_ex (revives p) as \<Longrightarrow> run_steps router_step as s = Some s' \<Longrightarrow> probe_lost p s'"
proof (induction as arbitrary: s)
  case (Cons a as)
  then obtain t where "router_step a s = Some t" "run_steps router_step as t = Some s'"
    by (auto split: option.splits)
  with Cons probe_lost_step [of p s a t] show ?case by auto
qed simp

subsection \<open>The fallback loop\<close>

text \<open>A provider that the breaker lets through without a probe, and that is registered.\<close>

definition available :: "string \<Rightarrow> ModelRouter \<Rightarrow> bool" where
  "available p r \<longleftrightarrow> getProvider p r \<and>
     (case map_of (health_map r) p of None \<Rightarrow> True | Some h \<Rightarrow> status h = Healthy \<or> status h = Degraded)"

lemma shouldAttempt_other:
  "shouldAttempt now q r = (b, r') \<Longrightarrow> p \<noteq> q \<Longrightarrow> available p r' = available p r"
  "shouldAttempt now q r = (b, r') \<Longrightarrow> getProvider p r' = getProvider p r"
  by (auto simp: shouldAttempt_def available_def getProvider_def split: option.splits if_splits)

lemma shouldAttempt_available: "available p r \<Longrightarrow> shouldAttempt now p r = (True, r)"
  by (auto simp: shouldAttempt_def available_def split: option.splits)

lemma record_other:
  "p \<noteq> q \<Longrightarrow> available p (recordFailure now q e r) = available p r"
  "getProvider p (recordFailure now q e r) = getProvider p r"
  by (auto simp: recordFailure_def available_def getProvider_def)

lemma route_loop_success:
  "route_loop clock call k ps e r = (resp, r') \<Longrightarrow> rs_success resp \<Longrightarrow>
     \<exists>i < length ps. resp = call (k + i) (ps ! i) \<and> getProvider (ps ! i) r"
proof (induction clock call k ps e r rule: route_loop.induct)
  case (1 clock call k e r)
  then show ?case by (auto simp: exhausted_def empty_response_def)
next
  case (2 clock call k p ps e r)
  obtain b r1 where sa: "shouldAttempt (clock k) p r = (b, r1)" by fastforce
  have gp: "getProvider q r1 = getProvider q r" for q by (rule shouldAttempt_other(2) [OF sa])
  have shift: "?case" if "\<exists>i < length ps. resp = call (Suc k + i) (ps ! i) \<and> getProvider (ps ! i) r"
    using that by (metis (no_types, lifting) Suc_less_eq add_Suc add_Suc_right length_Cons nth_Cons_Suc)
  show ?case
  proof (cases "\<not> b \<or> \<not> getProvider p r1")
    case True
    with 2(3) sa have "route_loop clock call (Suc k) ps e r1 = (resp, r')" by simp
    from 2(1) [OF sa [symmetric] True this 2(4)] show ?thesis by (intro shift) (simp add: gp)
  next
    case False
    show ?thesis
    proof (cases "rs_success (call k p)")
      case True
      with 2(3) sa False have "resp = call k p" by (simp add: Let_def)
      with False gp show ?thesis by (intro exI [of _ 0]) simp
    next
      case fail: False
      with 2(3) sa False have "route_loop clock call (Suc k) ps (rs_error (call k p))
          (recordFailure (clock k) p (rs_error (call k p)) r1) = (resp, r')" by (simp add: Let_def)
      from 2(2) [OF sa [symmetric] False refl fail this 2(4)] show ?thesis
        by (intro shift) (simp add: record_other gp)
    qed
  qed
qed

lemma route_loop_exhausted:
  "route_loop clock call k ps e r = (resp, r') \<Longrightarrow> \<not> rs_success resp \<Longrightarrow> distinct ps \<Longrightarrow>
     (\<exists>e'. resp = exhausted e') \<and>
     (\<forall>i < length ps. available (ps ! i) r \<longrightarrow> \<not> rs_success (call (k + i) (ps ! i)))"
proof (induction clock call k ps e r rule: route_loop.induct)
  case (1 clock call k e r)
  then show ?case by auto
next
  case (2 clock call k p ps e r)
  obtain b r1 where sa: "shouldAttempt (clock k) p r = (b, r1)" by fastforce
  have av: "available (ps ! i) r1 = available (ps ! i) r" if "i < length ps" for i
    by (rule shouldAttempt_other(1) [OF sa]) (use 2(5) that in auto)
  have shift: "\<forall>i < length (p # ps). available ((p # ps) ! i) r \<longrightarrow> \<not> rs_success (call (k + i) ((p # ps) ! i))"
    if "\<forall>i < length ps. available (ps ! i) r \<longrightarrow> \<not> rs_success (call (Suc k + i) (ps ! i))"
      "available p r \<longrightarrow> \<not> rs_success (call k p)"
    using that by (auto simp: less_Suc_eq_0_disj)
  show ?case
  proof (cases "\<not> b \<or> \<not> getProvider p r1")
    case True
    have "\<not> available p r"
      using True sa shouldAttempt_available [of p r "clock k"] by (auto simp: available_def)
    moreover from True 2(3) sa have "route_loop clock call (Suc k) ps e r1 = (resp, r')" by simp
    from 2(1) [OF sa [symmetric] True this 2(4)] 2(5) av
    have "(\<exists>e'. resp = exhausted e') \<and> (\<forall>i < length ps. available (ps ! i) r \<longrightarrow> \<not> rs_success (call (Suc k + i) (ps ! i)))"
      by simp
    ultimately show ?thesis using shift by blast
  next
    case False
    with 2(3,4) sa have fail: "\<not> rs_success (call k p)" by (auto simp: Let_def)
    with 2(3) sa False have l: "route_loop clock call (Suc k) ps (rs_error (call k p))
        (recordFailure (clock k) p (rs_error (call k p)) r1) = (resp, r')" by (simp add: Let_def)
    have "available (ps ! i) (recordFailure (clock k) p (rs_error (call k p)) r1) = available (ps ! i) r"
      if "i < length ps" for i
      by (subst record_other(1)) (use 2(5) that av in auto)
    with 2(2) [OF sa [symmetric] False refl fail l 2(4)] 2(5)
    have "(\<exists>e'. resp = exhausted e') \<and> (\<forall>i < length ps. available (ps ! i) r \<longrightarrow> \<not> rs_success (call (Suc k + i) (ps ! i)))"
      by simp
    with fail shift show ?thesis by blast
  qed
qed

end
