(* ===== verification/Router_Properties.thy ===== *)
theory Router_Properties
  imports Model_Router
begin

text \<open>
  The properties of the model router: the records of the circuit breaker and of the ledgers in
  every interleaving of calls, which providers the breaker keeps calls away from, and what a
  call of the fallback chain returns.
\<close>

text \<open>
  In every reachable state of the router, with any number of concurrent calls: a provider
  that is Healthy has no failures on record, one that is Offline or half open has at least
  three, exactly the half-open ones among these have a probe in flight, every ledger's requests
  are its successes plus its failures, and the global requests are the sum over the providers
  (all modulo \<open>2 ^ 64\<close>, as the counters are).
\<close>

theorem router_records:
  assumes "run_steps router_step as router_start = Some s"
  shows "(\<forall>p h. map_of (health_map (router s)) p = Some h \<longrightarrow> health_ok h) \<and>
    (\<forall>p m. map_of (metrics_map (router s)) p = Some m \<longrightarrow> ledger_ok m) \<and> ledger_ok (global_metrics (router s)) \<and>
    total_requests (global_metrics (router s)) = (\<Sum>(p, m) \<leftarrow> metrics_map (router s). total_requests m)"
  using rtr.inv_reachable [OF refl assms] by (simp add: router_inv_def)

definition demo_fail :: ModelResponse where
  "demo_fail = empty_response\<lparr>rs_error := ''timeout''\<rparr>"

definition demo_ok :: ModelResponse where
  "demo_ok = empty_response\<lparr>rs_success := True, rs_content := ''hello''\<rparr>"

text \<open>Three failing calls of \<open>openai\<close> one after the other (the chain is only that provider).\<close>

definition demo_offline :: "router_action list" where
  "demo_offline = SetChain [] # concat (map (\<lambda>t. [StartRoute ''openai'', Advance t 10, Advance t 10, Respond t demo_fail 10]) [0, 1, 2])"

text \<open>After the cooldown a fourth call is the probe, and it throws.\<close>

definition demo_probe :: "router_action list" where
  "demo_probe = demo_offline @ [StartRoute ''openai'', Advance 3 50, Advance 3 50, Throw 3]"

definition demo_system :: "router_action list \<Rightarrow> RouterSystem" where
  "demo_system as = the (run_steps router_step as router_start)"

lemma demo_system:
  "\<not> Option.is_none (run_steps router_step as router_start) \<Longrightarrow>
     run_steps router_step as router_start = Some (demo_system as)"
  by (auto simp: demo_system_def Option.is_none_def)

theorem router_records_witness:
  "total_requests (global_metrics (router (demo_system demo_offline))) = 3 \<and>
    (\<Sum>(p, m) \<leftarrow> metrics_map (router (demo_system demo_offline)). total_requests m) = 3"
proof -
  have "run_steps router_step demo_offline router_start = Some (demo_system demo_offline)"
    by (rule demo_system) code_simp
  note r = router_records [OF this]
  have "total_requests (global_metrics (router (demo_system demo_offline))) = 3" by code_simp
  with r show ?thesis by simp
qed



text \<open>
  When the call that probes a half-open provider throws, no result is recorded, and the
  provider is then never called again: it stays half open through every sequence of routes and
  responses, until somebody registers it anew, resets it or runs the health check on it.
\<close>

theorem probe_lost_forever:
  assumes "probe_lost p s" "\<not> list_ex (revives p) as" "run_steps router_step as s = Some s'"
  shows "status (getProviderHealth p (router s')) = HalfOpen \<and> \<not> list_ex (calls p) (threads s')"
  using probe_lost_run [OF assms]
  by (auto simp: probe_lost_def getProviderHealth_def um_get_def split: option.splits)

theorem probe_lost_forever_witness:
  "status (getProviderHealth ''openai'' (router (demo_system (demo_probe @ [StartRoute ''openai'', Advance 4 9999])))) = HalfOpen"
proof -
  have lost: "probe_lost ''openai'' (demo_system demo_probe)" by code_simp
  have "run_steps router_step demo_probe router_start = Some (demo_system demo_probe)"
    "run_steps router_step (demo_probe @ [StartRoute ''openai'', Advance 4 9999]) router_start =
       Some (demo_system (demo_probe @ [StartRoute ''openai'', Advance 4 9999]))"
    by (rule demo_system, code_simp)+
  then have "run_steps router_step [StartRoute ''openai'', Advance 4 9999] (demo_system demo_probe) =
      Some (demo_system (demo_probe @ [StartRoute ''openai'', Advance 4 9999]))"
    unfolding run_steps_append by simp
  from probe_lost_forever [OF lost _ this] show ?thesis by simp
qed

text \<open>
  A health check that finds an Offline or half-open provider unhealthy closes the breaker
  instead of leaving it open: the provider becomes Degraded and the next call goes through,
  cooldown or not.
\<close>

theorem unhealthy_check_readmits:
  "\<not> healthy \<Longrightarrow> fst (shouldAttempt now p (check_one p healthy r)) \<and>
     status (getProviderHealth p (check_one p healthy r)) = Degraded"
  by (simp add: shouldAttempt_def check_one_def Let_def getProviderHealth_def)

theorem unhealthy_check_readmits_witness:
  "\<not> fst (shouldAttempt 11 ''openai'' (router (demo_system demo_offline))) \<and>
    fst (shouldAttempt 11 ''openai'' (check_one ''openai'' False (router (demo_system demo_offline))))"
  using unhealthy_check_readmits [of False 11 "''openai''" "router (demo_system demo_offline)"]
  by simp code_simp

text \<open>
  \<open>routeWithFallback\<close> returns the success of a registered provider of the chain if it
  returns a success; if it does not, it returns the "exhausted" error, and every provider of the
  chain that was available (registered, and Healthy, Degraded or without a record) was called
  and failed.
\<close>

theorem route_result:
  assumes "routeWithFallback clock call p r = (resp, r')" "chain = route_chain p r" "distinct (fallback_chain r)"
  shows "(rs_success resp \<longrightarrow> (\<exists>i < length chain. resp = call i (chain ! i) \<and> getProvider (chain ! i) r)) \<and>
    (\<not> rs_success resp \<longrightarrow> (\<exists>e. resp = exhausted e) \<and>
       (\<forall>i < length chain. available (chain ! i) r \<longrightarrow> \<not> rs_success (call i (chain ! i))))"
proof -
  have l: "route_loop clock call 0 chain [] r = (resp, r')"
    using assms(1,2) by (simp add: routeWithFallback_def)
  have "distinct chain" using assms(2,3) by (simp add: route_chain_def)
  with route_loop_success [OF l] route_loop_exhausted [OF l] show ?thesis by simp
qed

definition demo_call :: "nat \<Rightarrow> string \<Rightarrow> ModelResponse" where
  "demo_call k p = (if p = ''ollama'' then demo_ok else demo_fail)"

theorem route_result_witness:
  "fst (routeWithFallback (\<lambda>k. 5) demo_call ''lm_studio'' (router router_start)) = demo_ok \<and>
    (\<exists>i < 5. demo_ok = demo_call i (route_chain ''lm_studio'' (router router_start) ! i))"
proof -
  have ok: "fst (routeWithFallback (\<lambda>k. 5) demo_call ''lm_studio'' (router router_start)) = demo_ok"
    "rs_success demo_ok" "length (route_chain ''lm_studio'' (router router_start)) = 5"
    "distinct (fallback_chain (router router_start))"
    by code_simp+
  from route_result [OF prod.collapse [symmetric] refl ok(4), of "\<lambda>k. 5" demo_call "''lm_studio''"] ok(1-3)
  show ?thesis by auto
qed

end
