(* ===== verification/Event_Bus.thy ===== *)
theory Event_Bus
  imports Prelude
begin

text \<open>
  The event bus of \<open>src/src/events/EventBus.h\<close> and \<open>EventBus.cpp\<close>. \<open>publish\<close> only appends to
  the pending events; \<open>processEvents\<close> takes all of them and calls the subscribers of each. A
  callback is an abstract value \<open>'c\<close>; what a call of it publishes (before it returns or throws)
  is the argument \<open>emits\<close>. Callbacks do not change the subscriptions: the code iterates over them
  without the mutex, so a callback that did would invalidate the iteration.
\<close>

record EventData =
  ev_name :: string
  ev_data :: string

record 'c EventBus =
  subscribers :: "(string, 'c list) umap"
  pendingEvents :: "EventData list"

definition new_EventBus :: "'c EventBus" where
  "new_EventBus = \<lparr>subscribers = [], pendingEvents = []\<rparr>"

definition shutdown :: "'c EventBus \<Rightarrow> 'c EventBus" where
  "shutdown b = b\<lparr>subscribers := [], pendingEvents := []\<rparr>"

definition subscribe :: "string \<Rightarrow> 'c \<Rightarrow> 'c EventBus \<Rightarrow> 'c EventBus" where
  "subscribe e c b = b\<lparr>subscribers := AList.update e (um_get [] (subscribers b) e @ [c]) (subscribers b)\<rparr>"

definition unsubscribe :: "string \<Rightarrow> 'c EventBus \<Rightarrow> 'c EventBus" where
  "unsubscribe e b = b\<lparr>subscribers := AList.delete e (subscribers b)\<rparr>"

definition publish :: "string \<Rightarrow> string \<Rightarrow> 'c EventBus \<Rightarrow> 'c EventBus" where
  "publish e d b = b\<lparr>pendingEvents := pendingEvents b @ [\<lparr>ev_name = e, ev_data = d\<rparr>]\<rparr>"

type_synonym 'c delivery = "'c \<times> string"

text \<open>Calling one callback: the log of deliveries, and the bus with what the callback published.\<close>

fun deliver :: "('c \<Rightarrow> string \<Rightarrow> (string \<times> string) list) \<Rightarrow> string \<Rightarrow> 'c list \<Rightarrow> 'c EventBus \<Rightarrow>
    'c delivery list \<times> 'c EventBus" where
  "deliver emits d [] b = ([], b)"
| "deliver emits d (c # cs) b =
     (case deliver emits d cs (fold (\<lambda>(e, d'). publish e d') (emits c d) b) of
        (log, b') \<Rightarrow> ((c, d) # log, b'))"

fun deliver_all :: "('c \<Rightarrow> string \<Rightarrow> (string \<times> string) list) \<Rightarrow> EventData list \<Rightarrow> 'c EventBus \<Rightarrow>
    'c delivery list \<times> 'c EventBus" where
  "deliver_all emits [] b = ([], b)"
| "deliver_all emits (ev # evs) b =
     (case (case map_of (subscribers b) (ev_name ev) of None \<Rightarrow> ([], b)
            | Some cs \<Rightarrow> deliver emits (ev_data ev) cs b) of
        (log, b1) \<Rightarrow> (case deliver_all emits evs b1 of (log', b2) \<Rightarrow> (log @ log', b2)))"

definition processEvents :: "('c \<Rightarrow> string \<Rightarrow> (string \<times> string) list) \<Rightarrow> 'c EventBus \<Rightarrow>
    'c delivery list \<times> 'c EventBus" where
  "processEvents emits b = deliver_all emits (pendingEvents b) (b\<lparr>pendingEvents := []\<rparr>)"

subsection \<open>What one round delivers\<close>

definition expected :: "(string, 'c list) umap \<Rightarrow> EventData list \<Rightarrow> 'c delivery list" where
  "expected subs evs = concat (map (\<lambda>ev. map (\<lambda>c. (c, ev_data ev)) (um_get [] subs (ev_name ev))) evs)"

definition emitted :: "('c \<Rightarrow> string \<Rightarrow> (string \<times> string) list) \<Rightarrow> 'c delivery list \<Rightarrow> EventData list" where
  "emitted emits log = concat (map (\<lambda>(c, d). map (\<lambda>(e, d'). \<lparr>ev_name = e, ev_data = d'\<rparr>) (emits c d)) log)"

lemma fold_publish:
  "subscribers (fold (\<lambda>(e, d). publish e d) es b) = subscribers b"
  "pendingEvents (fold (\<lambda>(e, d). publish e d) es b) = pendingEvents b @ map (\<lambda>(e, d). \<lparr>ev_name = e, ev_data = d\<rparr>) es"
  by (induction es arbitrary: b) (auto simp: publish_def)

lemma deliver_spec:
  "deliver emits d cs b = (log, b') \<Longrightarrow> log = map (\<lambda>c. (c, d)) cs \<and> subscribers b' = subscribers b \<and>
     pendingEvents b' = pendingEvents b @ emitted emits log"
proof (induction emits d cs b arbitrary: log b' rule: deliver.induct)
  case (2 emits d c cs b)
  then show ?case
    by (auto simp: emitted_def fold_publish split: prod.splits)
qed (simp add: emitted_def)

lemma deliver_all_spec:
  "deliver_all emits evs b = (log, b') \<Longrightarrow> log = expected (subscribers b) evs \<and>
     subscribers b' = subscribers b \<and> pendingEvents b' = pendingEvents b @ emitted emits log"
proof (induction emits evs b arbitrary: log b' rule: deliver_all.induct)
  case (2 emits ev evs b)
  obtain l1 b1 where one: "(case map_of (subscribers b) (ev_name ev) of None \<Rightarrow> ([], b)
      | Some cs \<Rightarrow> deliver emits (ev_data ev) cs b) = (l1, b1)" by fastforce
  then have s: "l1 = map (\<lambda>c. (c, ev_data ev)) (um_get [] (subscribers b) (ev_name ev))"
    "subscribers b1 = subscribers b" "pendingEvents b1 = pendingEvents b @ emitted emits l1"
    by (auto simp: um_get_def emitted_def split: option.splits dest: deliver_spec)
  obtain l2 b2 where rest: "deliver_all emits evs b1 = (l2, b2)" by fastforce
  with 2(2) one have "log = l1 @ l2" "b' = b2" by simp_all
  with 2(1) [OF one [symmetric] rest] s show ?case
    by (simp add: expected_def emitted_def)
qed (simp add: expected_def emitted_def)

text \<open>
  One round of \<open>processEvents\<close> calls, for the events pending at its start in the order
  they were published, every subscriber of each event in the order of subscription, exactly
  once; the events that the callbacks publish meanwhile are the pending events of the next
  round, in order, and none of them is delivered in this one.
\<close>

theorem process_events_order:
  assumes "processEvents emits b = (log, b')"
  shows "log = expected (subscribers b) (pendingEvents b) \<and> pendingEvents b' = emitted emits log \<and>
    subscribers b' = subscribers b"
  using deliver_all_spec [OF assms [unfolded processEvents_def]] by simp

definition demo_bus :: "nat EventBus" where
  "demo_bus = publish ''e'' ''y'' (publish ''e'' ''x'' (subscribe ''e'' 1 (subscribe ''e'' 0 new_EventBus)))"

definition demo_emits :: "nat \<Rightarrow> string \<Rightarrow> (string \<times> string) list" where
  "demo_emits c d = (if c = 0 then [(''again'', d)] else [])"

theorem process_events_order_witness:
  "fst (processEvents demo_emits demo_bus) = [(0, ''x''), (1, ''x''), (0, ''y''), (1, ''y'')] \<and>
    map ev_data (pendingEvents (snd (processEvents demo_emits demo_bus))) = [''x'', ''y'']"
proof -
  have b: "subscribers demo_bus = [(''e'', [0, 1])]"
    "pendingEvents demo_bus = [\<lparr>ev_name = ''e'', ev_data = ''x''\<rparr>, \<lparr>ev_name = ''e'', ev_data = ''y''\<rparr>]"
    by (simp_all add: demo_bus_def publish_def subscribe_def new_EventBus_def um_get_def)
  have log: "expected (subscribers demo_bus) (pendingEvents demo_bus) = [(0, ''x''), (1, ''x''), (0, ''y''), (1, ''y'')]"
    by (simp add: b expected_def um_get_def)
  note r = process_events_order [OF prod.collapse [symmetric], of demo_emits demo_bus, unfolded log]
  show ?thesis
    unfolding r [THEN conjunct2, THEN conjunct1] r [THEN conjunct1]
    by (simp add: emitted_def demo_emits_def)
qed

end
