(* ===== verification/Char_Class.thy ===== *)
theory Char_Class
  imports Prelude "HOL-Library.Sublist"
begin

text \<open>
  The character classes and string searches of the C++ standard library that several
  components use, in the "C" locale: \<open>tolower\<close>, \<open>isalnum\<close>, \<open>isspace\<close>, \<open>isdigit\<close>, and
  \<open>find\<close>, \<open>starts_with\<close> tests on strings. Bytes above 127 are in no class and map to themselves.
\<close>

definition code_of :: "char \<Rightarrow> nat" where
  "code_of c = of_char c"

definition isupper :: "char \<Rightarrow> bool" where
  "isupper c \<longleftrightarrow> 65 \<le> code_of c \<and> code_of c \<le> 90"

definition islower :: "char \<Rightarrow> bool" where
  "islower c \<longleftrightarrow> 97 \<le> code_of c \<and> code_of c \<le> 122"

definition isdigit :: "char \<Rightarrow> bool" where
  "isdigit c \<longleftrightarrow> 48 \<le> code_of c \<and> code_of c \<le> 57"

definition isalnum :: "char \<Rightarrow> bool" where
  "isalnum c \<longleftrightarrow> isupper c \<or> islower c \<or> isdigit c"

text \<open>Space, and the codes 9 to 13 (tab, newline, vertical tab, form feed, return).\<close>

definition isspace :: "char \<Rightarrow> bool" where
  "isspace c \<longleftrightarrow> code_of c = 32 \<or> (9 \<le> code_of c \<and> code_of c \<le> 13)"

definition tolower :: "char \<Rightarrow> char" where
  "tolower c = (if isupper c then char_of (code_of c + 32) else c)"

definition lower :: "string \<Rightarrow> string" where
  "lower s = map tolower s"

text \<open>\<open>s.find(t) != npos\<close> and \<open>s.rfind(t, 0) == 0\<close>.\<close>

definition contains :: "string \<Rightarrow> string \<Rightarrow> bool" where
  "contains s t = sublist t s"

definition starts_with :: "string \<Rightarrow> string \<Rightarrow> bool" where
  "starts_with s t = prefix t s"

lemma code_of_less [simp]: "code_of c < 256"
  by (simp add: code_of_def)

lemma code_of_char [simp]: "n < 256 \<Longrightarrow> code_of (char_of n) = n"
  by (simp add: code_of_def)

lemma tolower_idem [simp]: "tolower (tolower c) = tolower c"
  by (auto simp: tolower_def isupper_def)

lemma lower_idem [simp]: "lower (lower s) = lower s"
  by (simp add: lower_def)

lemma isalnum_tolower [simp]: "isalnum (tolower c) = isalnum c"
  by (auto simp: tolower_def isalnum_def isupper_def islower_def isdigit_def)

lemma contains_empty [simp]: "contains s []"
  by (simp add: contains_def)

lemma contains_refl [simp]: "contains s s"
  by (simp add: contains_def)

subsection \<open>Trimming and lines\<close>

text \<open>The two loops of the local \<open>trim\<close>: skip space at the front, then at the back.\<close>

definition trim :: "string \<Rightarrow> string" where
  "trim s = rev (dropWhile isspace (rev (dropWhile isspace s)))"

abbreviation newline :: char where
  "newline \<equiv> CHR 0x0A"

text \<open>
  Repeated \<open>std::getline\<close> until it fails: the pieces between newlines, and the text after the
  last newline when there is some.
\<close>

fun getlines :: "string \<Rightarrow> string \<Rightarrow> string list" where
  "getlines acc [] = (if acc = [] then [] else [acc])"
| "getlines acc (c # cs) = (if c = newline then acc # getlines [] cs else getlines (acc @ [c]) cs)"

lemma getlines_line: "newline \<notin> set l \<Longrightarrow> getlines acc (l @ newline # cs) = (acc @ l) # getlines [] cs"
  by (induction l arbitrary: acc) auto

lemma getlines_lines:
  "newline \<notin> \<Union> (set ` set ls) \<Longrightarrow> getlines [] (concat (map (\<lambda>l. l @ [newline]) ls)) = ls"
  by (induction ls) (simp_all add: getlines_line)

text \<open>\<open>if (!line.empty() && line.back() == '\r') line.pop_back();\<close>\<close>

definition strip_cr :: "string \<Rightarrow> string" where
  "strip_cr l = (if l \<noteq> [] \<and> last l = CHR 0x0D then butlast l else l)"

lemma trim_Nil_iff: "trim s = [] \<longleftrightarrow> list_all isspace s"
proof -
  have "trim s = [] \<longleftrightarrow> (\<forall>c \<in> set (dropWhile isspace s). isspace c)"
    by (simp add: trim_def del: dropWhile_eq_Nil_conv add: dropWhile_eq_Nil_conv)
  also have "\<dots> \<longleftrightarrow> list_all isspace s"
    by (induction s) auto
  finally show ?thesis .
qed

subsection \<open>Numbers as text\<close>

text \<open>\<open>std::to_string\<close>, and \<open><<\<close> of an integer.\<close>

definition digit_char :: "nat \<Rightarrow> char" where
  "digit_char d = char_of (48 + d)"

fun nat_string :: "nat \<Rightarrow> string" where
  "nat_string n = (if n < 10 then [digit_char n] else nat_string (n div 10) @ [digit_char (n mod 10)])"

declare nat_string.simps [simp del]

definition int_string :: "int \<Rightarrow> string" where
  "int_string i = (if i < 0 then CHR ''-'' # nat_string (nat (- i)) else nat_string (nat i))"

end
