(* ===== verification/Knowledge_Graph.thy ===== *)
theory Knowledge_Graph
  imports Complex_Main Char_Class
begin

text \<open>
  The knowledge graph of \<open>src/src/knowledge/KnowledgeGraph.h\<close> and \<open>KnowledgeGraph.cpp\<close>: entities,
  typed relations stored twice (at their source and at their target), and the queries, the
  bounded breadth-first search \<open>findRelatedEntities\<close> among them. An edge may name entities the
  graph does not have; the search walks over such ids and does not report them.

  The export to JSON and the import from it are not modelled.
\<close>

subsection \<open>Data and operations\<close>

datatype EntityType = Symbol | BugFix | ArchitectureDecision | UserPreference | ProjectTask

datatype RelationType = Calls | Implements | Fixes | DependsOn | Prefers | Violates | RelatedTo

record KnowledgeNode =
  kn_id :: string
  kn_name :: string
  kn_type :: EntityType
  kn_description :: string
  kn_properties :: "(string, string) umap"
  kn_created_at :: int

record KnowledgeEdge =
  from_id :: string
  to_id :: string
  relation :: RelationType
  weight :: real
  edge_description :: string

record KnowledgeGraph =
  kg_nodes :: "(string, KnowledgeNode) umap"
  outgoing_edges :: "(string, KnowledgeEdge list) umap"
  incoming_edges :: "(string, KnowledgeEdge list) umap"

definition clear_graph :: "KnowledgeGraph \<Rightarrow> KnowledgeGraph" where
  "clear_graph g = g\<lparr>kg_nodes := [], outgoing_edges := [], incoming_edges := []\<rparr>"

definition empty_graph :: KnowledgeGraph where
  "empty_graph = \<lparr>kg_nodes = [], outgoing_edges = [], incoming_edges = []\<rparr>"

definition addEntity :: "KnowledgeNode \<Rightarrow> KnowledgeGraph \<Rightarrow> bool \<times> KnowledgeGraph" where
  "addEntity n g = (True, g\<lparr>kg_nodes := AList.update (kn_id n) n (kg_nodes g)\<rparr>)"

definition getEntity :: "string \<Rightarrow> KnowledgeGraph \<Rightarrow> KnowledgeNode option" where
  "getEntity i g = map_of (kg_nodes g) i"

definition removeEntity :: "string \<Rightarrow> KnowledgeGraph \<Rightarrow> bool \<times> KnowledgeGraph" where
  "removeEntity i g = (True, g\<lparr>
     kg_nodes := AList.delete i (kg_nodes g),
     outgoing_edges := map (\<lambda>(k, es). (k, filter (\<lambda>e. to_id e \<noteq> i) es)) (AList.delete i (outgoing_edges g)),
     incoming_edges := map (\<lambda>(k, es). (k, filter (\<lambda>e. from_id e \<noteq> i) es)) (AList.delete i (incoming_edges g))\<rparr>)"

definition getNodesByType :: "EntityType \<Rightarrow> KnowledgeGraph \<Rightarrow> KnowledgeNode list" where
  "getNodesByType t g = filter (\<lambda>n. kn_type n = t) (map snd (kg_nodes g))"

definition push_edge :: "string \<Rightarrow> KnowledgeEdge \<Rightarrow> (string, KnowledgeEdge list) umap \<Rightarrow> (string, KnowledgeEdge list) umap" where
  "push_edge k e m = AList.update k (um_get [] m k @ [e]) m"

definition addEdge :: "KnowledgeEdge \<Rightarrow> KnowledgeGraph \<Rightarrow> bool \<times> KnowledgeGraph" where
  "addEdge e g = (True, g\<lparr>outgoing_edges := push_edge (from_id e) e (outgoing_edges g),
     incoming_edges := push_edge (to_id e) e (incoming_edges g)\<rparr>)"

definition addRelation :: "string \<Rightarrow> string \<Rightarrow> RelationType \<Rightarrow> real \<Rightarrow> string \<Rightarrow> KnowledgeGraph \<Rightarrow> bool \<times> KnowledgeGraph" where
  "addRelation a b r w d g =
     addEdge \<lparr>from_id = a, to_id = b, relation = r, weight = w, edge_description = d\<rparr> g"

definition getOutgoingEdges :: "string \<Rightarrow> KnowledgeGraph \<Rightarrow> KnowledgeEdge list" where
  "getOutgoingEdges i g = um_get [] (outgoing_edges g) i"

definition getIncomingEdges :: "string \<Rightarrow> KnowledgeGraph \<Rightarrow> KnowledgeEdge list" where
  "getIncomingEdges i g = um_get [] (incoming_edges g) i"

definition getUserPreferences :: "KnowledgeGraph \<Rightarrow> KnowledgeNode list" where
  "getUserPreferences g = getNodesByType UserPreference g"

definition getArchitectureDecisions :: "KnowledgeGraph \<Rightarrow> KnowledgeNode list" where
  "getArchitectureDecisions g = getNodesByType ArchitectureDecision g"

definition nodeCount :: "KnowledgeGraph \<Rightarrow> nat" where
  "nodeCount g = length (kg_nodes g)"

definition edgeCount :: "KnowledgeGraph \<Rightarrow> nat" where
  "edgeCount g = sum_list (map (\<lambda>(k, es). length es) (outgoing_edges g))"

definition fixes_error :: "string \<Rightarrow> KnowledgeNode \<Rightarrow> bool" where
  "fixes_error err n = (kn_type n = BugFix \<and>
     (contains err (lower (kn_name n)) \<or> contains (lower (kn_description n)) err \<or>
      contains err (lower (kn_description n))))"

definition findFixForError :: "string \<Rightarrow> KnowledgeGraph \<Rightarrow> KnowledgeNode list" where
  "findFixForError err g = filter (fixes_error (lower err)) (map snd (kg_nodes g))"

subsection \<open>The bounded search\<close>

text \<open>
  The two inner loops differ only in the end of an edge they look at (\<open>far\<close>). A visited id is
  pushed with the next depth, and reported if it is an entity. \<open>visited\<close> is an
  \<open>unordered_set\<close>: only membership in it matters.
\<close>

type_synonym bfs_state = "(string \<times> nat) list \<times> string list \<times> KnowledgeNode list"

definition keep_edge :: "RelationType option \<Rightarrow> KnowledgeEdge \<Rightarrow> bool" where
  "keep_edge flt e = (case flt of None \<Rightarrow> True | Some r \<Rightarrow> relation e = r)"

definition visit :: "(string, KnowledgeNode) umap \<Rightarrow> nat \<Rightarrow> string \<Rightarrow> bfs_state \<Rightarrow> bfs_state" where
  "visit ns depth v st = (case st of (q, vis, res) \<Rightarrow>
     if v \<in> set vis then (q, vis, res)
     else (q @ [(v, depth + 1)], v # vis,
           case map_of ns v of None \<Rightarrow> res | Some n \<Rightarrow> res @ [n]))"

fun visit_edges :: "(string, KnowledgeNode) umap \<Rightarrow> RelationType option \<Rightarrow> (KnowledgeEdge \<Rightarrow> string) \<Rightarrow> nat \<Rightarrow>
    KnowledgeEdge list \<Rightarrow> bfs_state \<Rightarrow> bfs_state" where
  "visit_edges ns flt far depth [] st = st"
| "visit_edges ns flt far depth (e # es) st =
     visit_edges ns flt far depth es (if keep_edge flt e then visit ns depth (far e) st else st)"

definition expand :: "KnowledgeGraph \<Rightarrow> RelationType option \<Rightarrow> string \<Rightarrow> nat \<Rightarrow> bfs_state \<Rightarrow> bfs_state" where
  "expand g flt u depth st =
     visit_edges (kg_nodes g) flt from_id depth (um_get [] (incoming_edges g) u)
       (visit_edges (kg_nodes g) flt to_id depth (um_get [] (outgoing_edges g) u) st)"

text \<open>The ids one edge away from \<open>u\<close>, in the order the loops look at them.\<close>

definition neighbours :: "KnowledgeGraph \<Rightarrow> RelationType option \<Rightarrow> string \<Rightarrow> string list" where
  "neighbours g flt u =
     map to_id (filter (keep_edge flt) (um_get [] (outgoing_edges g) u)) @
     map from_id (filter (keep_edge flt) (um_get [] (incoming_edges g) u))"

lemma visit_edges_fold:
  "visit_edges ns flt far depth es st = fold (visit ns depth) (map far (filter (keep_edge flt) es)) st"
  by (induction ns flt far depth es st rule: visit_edges.induct) auto

lemma expand_fold: "expand g flt u depth st = fold (visit (kg_nodes g) depth) (neighbours g flt u) st"
  by (simp add: expand_def neighbours_def visit_edges_fold)

text \<open>What a fold of visits does: the new ids, each once, in order.\<close>

fun news :: "string list \<Rightarrow> string list \<Rightarrow> string list" where
  "news vis [] = []"
| "news vis (v # vs) = (if v \<in> set vis then news vis vs else v # news (v # vis) vs)"

definition entities :: "(string, KnowledgeNode) umap \<Rightarrow> string list \<Rightarrow> KnowledgeNode list" where
  "entities ns vs = List.map_filter (map_of ns) vs"

lemma fold_visit:
  "fold (visit ns depth) vs (q, vis, res) =
     (q @ map (\<lambda>v. (v, depth + 1)) (news vis vs), rev (news vis vs) @ vis, res @ entities ns (news vis vs))"
  by (induction vs arbitrary: q vis res) (auto simp: visit_def entities_def List.map_filter_simps split: option.splits)

lemma news_props:
  "set (news vis vs) = set vs - set vis" "distinct (news vis vs)"
proof -
  have s: "set (news vis vs) = set vs - set vis" for vis vs
    by (induction vis vs rule: news.induct) auto
  then show "set (news vis vs) = set vs - set vis" .
  show "distinct (news vis vs)"
  proof (induction vis vs rule: news.induct)
    case (2 vis v vs)
    then show ?case using s [of "v # vis" vs] by (simp; blast)
  qed simp
qed

definition all_ends :: "KnowledgeGraph \<Rightarrow> string set" where
  "all_ends g = (\<Union>(k, es) \<in> set (outgoing_edges g). to_id ` set es) \<union>
     (\<Union>(k, es) \<in> set (incoming_edges g). from_id ` set es)"

lemma finite_all_ends [simp]: "finite (all_ends g)"
  by (auto simp: all_ends_def)

lemma um_get_list: "x \<in> set (um_get [] m k) \<Longrightarrow> \<exists>es. (k, es) \<in> set m \<and> x \<in> set es"
proof -
  assume x: "x \<in> set (um_get [] m k)"
  then obtain es where "map_of m k = Some es" by (cases "map_of m k") (auto simp: um_get_def)
  with x show ?thesis by (auto simp: um_get_def dest: map_of_SomeD)
qed

lemma neighbours_ends: "set (neighbours g flt u) \<subseteq> all_ends g"
  unfolding neighbours_def all_ends_def by (auto dest!: um_get_list)

function bfs :: "KnowledgeGraph \<Rightarrow> nat \<Rightarrow> RelationType option \<Rightarrow> bfs_state \<Rightarrow> KnowledgeNode list" where
  "bfs g max_depth flt (q, vis, res) =
     (case q of [] \<Rightarrow> res
      | (u, depth) # q' \<Rightarrow>
          bfs g max_depth flt (if depth \<ge> max_depth then (q', vis, res) else expand g flt u depth (q', vis, res)))"
  by pat_completeness auto

lemma expand_measure:
  assumes "expand g flt u depth (q, vis, res) = (q1, vis1, res1)"
  shows "2 * card (all_ends g - set vis1) + length q1 \<le> 2 * card (all_ends g - set vis) + length q"
proof -
  let ?n = "news vis (neighbours g flt u)"
  have q1: "length q1 = length q + length ?n" and v1: "set vis1 = set ?n \<union> set vis"
    using assms by (auto simp: expand_fold fold_visit)
  have sub: "set ?n \<subseteq> all_ends g - set vis"
    using neighbours_ends [of g flt u] by (auto simp: news_props)
  have "all_ends g - set vis1 = (all_ends g - set vis) - set ?n" using v1 by auto
  moreover have len: "length ?n = card (set ?n)"
    by (rule distinct_card [symmetric]) (rule news_props)
  ultimately have "card (all_ends g - set vis1) = card (all_ends g - set vis) - length ?n"
    using card_Diff_subset [OF _ sub] by simp
  moreover have "length ?n \<le> card (all_ends g - set vis)"
    using card_mono [OF _ sub] len by simp
  ultimately show ?thesis using q1 by simp
qed

termination bfs
proof (relation "measure (\<lambda>(g, m, flt, q, vis, res). 2 * card (all_ends g - set vis) + length q)", goal_cases)
  case (2 g max_depth flt q vis res a q' u depth)
  then show ?case
    using expand_measure [of g flt u depth q' vis res]
    by (cases "expand g flt u depth (q', vis, res)") auto
qed simp

declare bfs.simps [simp del]

definition findRelatedEntities :: "string \<Rightarrow> nat \<Rightarrow> RelationType option \<Rightarrow> KnowledgeGraph \<Rightarrow> KnowledgeNode list" where
  "findRelatedEntities start max_depth flt g = bfs g max_depth flt ([(start, 0)], [start], [])"

subsection \<open>The search finds what is near\<close>

definition linked :: "KnowledgeGraph \<Rightarrow> RelationType option \<Rightarrow> (string \<times> string) set" where
  "linked g flt = {(u, v). v \<in> set (neighbours g flt u)}"

text \<open>The ids at distance at most \<open>k\<close> from \<open>s\<close>.\<close>

fun nearby :: "KnowledgeGraph \<Rightarrow> RelationType option \<Rightarrow> string \<Rightarrow> nat \<Rightarrow> string set" where
  "nearby g flt s 0 = {s}"
| "nearby g flt s (Suc k) = nearby g flt s k \<union> linked g flt `` nearby g flt s k"

lemma nearby_mono: "j \<le> k \<Longrightarrow> nearby g flt s j \<subseteq> nearby g flt s k"
  by (induction k) (auto simp: le_Suc_eq)

lemma nearby_closed: "linked g flt `` nearby g flt s j \<subseteq> nearby g flt s j \<Longrightarrow> j \<le> k \<Longrightarrow> nearby g flt s k = nearby g flt s j"
  by (induction k) (auto simp: le_Suc_eq)

lemma nearby_relpow: "v \<in> nearby g flt s k \<longleftrightarrow> (\<exists>j \<le> k. (s, v) \<in> linked g flt ^^ j)"
proof (induction k arbitrary: v)
  case (Suc k)
  have "v \<in> nearby g flt s (Suc k) \<longleftrightarrow> (\<exists>j \<le> k. (s, v) \<in> linked g flt ^^ j) \<or>
      (\<exists>j \<le> k. (s, v) \<in> linked g flt ^^ Suc j)"
    unfolding nearby.simps Un_iff Image_iff Bex_def Suc by auto
  also have "\<dots> \<longleftrightarrow> (\<exists>j \<le> Suc k. (s, v) \<in> linked g flt ^^ j)"
    by (metis (no_types, lifting) Suc_le_mono le_SucI le_zero_eq not0_implies_Suc zero_le)
  finally show ?case .
qed auto

text \<open>
  The state of the search at depth \<open>d\<close>: first the ids \<open>cur\<close> of that depth still to be expanded,
  then the ids \<open>nxt\<close> of the next depth found so far.
\<close>

definition bfs_inv :: "KnowledgeGraph \<Rightarrow> nat \<Rightarrow> RelationType option \<Rightarrow> string \<Rightarrow> nat \<Rightarrow> string list \<Rightarrow> string list \<Rightarrow>
    bfs_state \<Rightarrow> bool" where
  "bfs_inv g m flt s d cur nxt st = (case st of (q, vis, res) \<Rightarrow>
     q = map (\<lambda>v. (v, d)) cur @ map (\<lambda>v. (v, d + 1)) nxt \<and> d \<le> m \<and> (d = m \<longrightarrow> nxt = []) \<and>
     set cur \<subseteq> nearby g flt s d \<and> set nxt \<subseteq> nearby g flt s (d + 1) \<and>
     set vis = nearby g flt s d \<union> set nxt \<and>
     (d < m \<longrightarrow> linked g flt `` (nearby g flt s d - set cur) \<subseteq> set vis) \<and>
     distinct vis \<and> (\<exists>found. vis = rev found @ [s] \<and> res = entities (kg_nodes g) found))"

lemma bfs_inv_switch:
  assumes "bfs_inv g m flt s d [] nxt st" "nxt \<noteq> []"
  shows "bfs_inv g m flt s (d + 1) nxt [] st"
proof -
  obtain q vis res where st: "st = (q, vis, res)" by (metis prod_cases3)
  have dm: "d < m" using assms by (auto simp: bfs_inv_def st)
  with assms(1) have v: "set vis = nearby g flt s d \<union> set nxt" "linked g flt `` nearby g flt s d \<subseteq> set vis"
    "set nxt \<subseteq> nearby g flt s (d + 1)"
    by (auto simp: bfs_inv_def st)
  then have eq: "set vis = nearby g flt s (d + 1)" by auto
  have "linked g flt `` (nearby g flt s (d + 1) - set nxt) \<subseteq> set vis"
    using v eq by blast
  with assms(1) dm v eq show ?thesis
    by (auto simp: bfs_inv_def st)
qed

lemma bfs_inv_expand:
  assumes inv: "bfs_inv g m flt s d (u # cur) nxt ((u, d) # q', vis, res)" and dm: "d < m"
  shows "bfs_inv g m flt s d cur (nxt @ news vis (neighbours g flt u)) (expand g flt u d (q', vis, res))"
proof -
  let ?n = "news vis (neighbours g flt u)"
  have e: "expand g flt u d (q', vis, res) =
      (q' @ map (\<lambda>v. (v, d + 1)) ?n, rev ?n @ vis, res @ entities (kg_nodes g) ?n)"
    by (simp add: expand_fold fold_visit)
  have u: "u \<in> nearby g flt s d" using inv by (auto simp: bfs_inv_def)
  have nb: "set (neighbours g flt u) = linked g flt `` {u}" by (auto simp: linked_def)
  then have n: "set ?n = linked g flt `` {u} - set vis" by (simp add: news_props)
  have near: "set ?n \<subseteq> nearby g flt s (d + 1)" using u by (auto simp: n)
  obtain found where f: "vis = rev found @ [s]" "res = entities (kg_nodes g) found"
    using inv by (auto simp: bfs_inv_def)
  have "linked g flt `` (nearby g flt s d - set cur) \<subseteq> set (rev ?n @ vis)"
  proof
    fix v assume "v \<in> linked g flt `` (nearby g flt s d - set cur)"
    then obtain w where w: "w \<in> nearby g flt s d" "w \<notin> set cur" "(w, v) \<in> linked g flt" by blast
    show "v \<in> set (rev ?n @ vis)"
    proof (cases "w = u")
      case True
      with w n show ?thesis by auto
    next
      case False
      with inv w dm have "v \<in> set vis" by (auto simp: bfs_inv_def)
      then show ?thesis by simp
    qed
  qed
  moreover have "distinct (rev ?n @ vis)"
    using inv by (auto simp: bfs_inv_def news_props)
  moreover have "\<exists>found. rev ?n @ vis = rev found @ [s] \<and> res @ entities (kg_nodes g) ?n = entities (kg_nodes g) found"
    by (rule exI [of _ "found @ ?n"]) (simp add: f entities_def List.map_filter_def)
  ultimately show ?thesis
    using inv dm near unfolding e by (auto simp: bfs_inv_def)
qed

lemma bfs_result:
  "bfs_inv g m flt s d cur nxt st \<Longrightarrow> st = (q, vis, res) \<Longrightarrow>
     \<exists>found. bfs g m flt st = entities (kg_nodes g) found \<and> distinct found \<and>
       set found = nearby g flt s m - {s}"
proof (induction g m flt st arbitrary: d cur nxt q vis res rule: bfs.induct)
  case (1 g m flt q0 vis0 res0)
  have inv: "bfs_inv g m flt s d cur nxt (q0, vis0, res0)" using 1(2) .
  \<comment> \<open>Move to the depth of the head of the queue.\<close>
  have "\<exists>d cur nxt. bfs_inv g m flt s d cur nxt (q0, vis0, res0) \<and> (cur = [] \<longrightarrow> nxt = [])"
  proof (cases "cur = [] \<and> nxt \<noteq> []")
    case True
    with inv have "bfs_inv g m flt s (d + 1) nxt [] (q0, vis0, res0)" by (blast intro: bfs_inv_switch)
    with True show ?thesis by blast
  next
    case False
    with inv show ?thesis by blast
  qed
  then obtain d cur nxt where inv: "bfs_inv g m flt s d cur nxt (q0, vis0, res0)"
    and head: "cur = [] \<Longrightarrow> nxt = []" by blast
  show ?case
  proof (cases cur)
    case Nil
    with inv head have q: "q0 = []" and vis: "set vis0 = nearby g flt s d" and "d \<le> m"
      by (auto simp: bfs_inv_def)
    have eq: "nearby g flt s m = nearby g flt s d"
    proof (cases "d = m")
      case False
      with inv Nil vis \<open>d \<le> m\<close> have "linked g flt `` nearby g flt s d \<subseteq> nearby g flt s d"
        by (auto simp: bfs_inv_def)
      then show ?thesis by (rule nearby_closed [OF _ \<open>d \<le> m\<close>])
    qed simp
    obtain found where f: "vis0 = rev found @ [s]" "res0 = entities (kg_nodes g) found" "distinct vis0"
      using inv by (auto simp: bfs_inv_def)
    have "set vis0 - {s} = set found" "distinct found" using f(1,3) by auto
    then have "set found = nearby g flt s m - {s}" using vis eq by simp
    then show ?thesis
      using q f(2) \<open>distinct found\<close> by (intro exI [of _ found]) (simp add: bfs.simps)
  next
    case (Cons u cur')
    with inv obtain q' where q: "q0 = (u, d) # q'" "q' = map (\<lambda>v. (v, d)) cur' @ map (\<lambda>v. (v, d + 1)) nxt"
      by (auto simp: bfs_inv_def)
    show ?thesis
    proof (cases "d \<ge> m")
      case True
      with inv Cons q have "bfs_inv g m flt s d cur' nxt (q', vis0, res0)" by (auto simp: bfs_inv_def)
      with 1(1) [OF q(1) refl, of d cur' nxt] True q(1) show ?thesis
        by (subst bfs.simps) simp
    next
      case False
      with bfs_inv_expand [of g m flt s d u cur' nxt q' vis0 res0] inv Cons q
      have "bfs_inv g m flt s d cur' (nxt @ news vis0 (neighbours g flt u)) (expand g flt u d (q', vis0, res0))"
        by simp
      moreover obtain a b c where "expand g flt u d (q', vis0, res0) = (a, b, c)" by (metis prod_cases3)
      ultimately show ?thesis
        using 1(1) [OF q(1) refl, of d cur' "nxt @ news vis0 (neighbours g flt u)" a b c] False q(1)
        by (subst bfs.simps) simp
    qed
  qed
qed

lemma related_result:
  "\<exists>found. findRelatedEntities s m flt g = entities (kg_nodes g) found \<and> distinct found \<and>
     set found = nearby g flt s m - {s}"
proof -
  have "bfs_inv g m flt s 0 [s] [] ([(s, 0)], [s], [])"
    by (auto simp: bfs_inv_def entities_def List.map_filter_simps intro!: exI [of _ "[]"])
  from bfs_result [OF this refl] show ?thesis by (simp add: findRelatedEntities_def)
qed

subsection \<open>The two copies of an edge\<close>

definition kg_inv :: "KnowledgeGraph \<Rightarrow> bool" where
  "kg_inv g \<longleftrightarrow> (\<forall>k n. map_of (kg_nodes g) k = Some n \<longrightarrow> kn_id n = k) \<and>
     (\<forall>k e. e \<in> set (getOutgoingEdges k g) \<longrightarrow> from_id e = k) \<and>
     (\<forall>k e. e \<in> set (getIncomingEdges k g) \<longrightarrow> to_id e = k) \<and>
     (\<forall>e. count_list (getOutgoingEdges (from_id e) g) e = count_list (getIncomingEdges (to_id e) g) e)"

lemma um_get_push_edge: "um_get [] (push_edge k e m) k' = (if k' = k then um_get [] m k' @ [e] else um_get [] m k')"
  by (simp add: push_edge_def)

lemma um_get_filtered:
  "um_get [] (map (\<lambda>(k, es). (k, filter P es)) (AList.delete i m)) k = (if k = i then [] else filter P (um_get [] m k))"
  by (auto simp: um_get_def map_of_map_snd split: option.splits)

lemma getEdges_simps:
  "getOutgoingEdges k (snd (addEdge e g)) = getOutgoingEdges k g @ (if k = from_id e then [e] else [])"
  "getIncomingEdges k (snd (addEdge e g)) = getIncomingEdges k g @ (if k = to_id e then [e] else [])"
  "getOutgoingEdges k (snd (addEntity n g)) = getOutgoingEdges k g"
  "getIncomingEdges k (snd (addEntity n g)) = getIncomingEdges k g"
  "getOutgoingEdges k (snd (removeEntity i g)) = (if k = i then [] else filter (\<lambda>e. to_id e \<noteq> i) (getOutgoingEdges k g))"
  "getIncomingEdges k (snd (removeEntity i g)) = (if k = i then [] else filter (\<lambda>e. from_id e \<noteq> i) (getIncomingEdges k g))"
  by (simp_all add: getOutgoingEdges_def getIncomingEdges_def addEdge_def addEntity_def removeEntity_def
      um_get_push_edge um_get_filtered)

lemma count_list_filter_if: "count_list (filter P xs) e = (if P e then count_list xs e else 0)"
  by (induction xs) auto

lemma kg_inv_empty: "kg_inv empty_graph"
  by (simp add: kg_inv_def empty_graph_def getOutgoingEdges_def getIncomingEdges_def)

lemma kg_inv_addEntity: "kg_inv g \<Longrightarrow> kg_inv (snd (addEntity n g))"
  unfolding kg_inv_def getEdges_simps by (simp add: addEntity_def)

lemma kg_inv_addEdge: "kg_inv g \<Longrightarrow> kg_inv (snd (addEdge e g))"
  unfolding kg_inv_def getEdges_simps by (auto simp: addEdge_def split: if_splits)

lemma kg_inv_removeEntity: "kg_inv g \<Longrightarrow> kg_inv (snd (removeEntity i g))"
  unfolding kg_inv_def getEdges_simps
  by (auto simp: removeEntity_def count_list_filter_if split: if_splits)

text \<open>
  Each edge is stored as often at its source as at its target, under the right keys, and
  each entity under its own id; adding and removing entities and adding edges keep this.
  Removing an entity removes every edge at either end of it, and no other edge.
\<close>

theorem knowledge_edges_mirrored:
  assumes "kg_inv g"
  shows "kg_inv (snd (addEntity n g)) \<and> kg_inv (snd (addEdge e g)) \<and> kg_inv (snd (removeEntity i g)) \<and>
    (\<forall>d. count_list (getOutgoingEdges (from_id d) (snd (removeEntity i g))) d =
       (if from_id d = i \<or> to_id d = i then 0 else count_list (getOutgoingEdges (from_id d) g) d)) \<and>
    getEntity i (snd (removeEntity i g)) = None"
proof -
  have "getEntity i (snd (removeEntity i g)) = None" by (simp add: getEntity_def removeEntity_def)
  then show ?thesis
    using kg_inv_addEntity [OF assms] kg_inv_addEdge [OF assms] kg_inv_removeEntity [OF assms]
    by (simp add: getEdges_simps count_list_filter_if)
qed

definition demo_entity :: "string \<Rightarrow> EntityType \<Rightarrow> string \<Rightarrow> KnowledgeNode" where
  "demo_entity i t d = \<lparr>kn_id = i, kn_name = i, kn_type = t, kn_description = d, kn_properties = [], kn_created_at = 0\<rparr>"

definition demo_relation :: "string \<Rightarrow> string \<Rightarrow> KnowledgeEdge" where
  "demo_relation a b = \<lparr>from_id = a, to_id = b, relation = Calls, weight = 1, edge_description = []\<rparr>"

text \<open>\<open>a \<rightarrow> b\<close>, \<open>c \<rightarrow> b\<close>, and \<open>c \<rightarrow> x\<close> with no entity \<open>x\<close>.\<close>

definition demo_knowledge :: KnowledgeGraph where
  "demo_knowledge = snd (addEdge (demo_relation ''c'' ''x'') (snd (addEdge (demo_relation ''c'' ''b'')
     (snd (addEdge (demo_relation ''a'' ''b'') (snd (addEntity (demo_entity ''c'' Symbol [])
     (snd (addEntity (demo_entity ''b'' Symbol []) (snd (addEntity (demo_entity ''a'' Symbol []) empty_graph)))))))))))"

lemma demo_knowledge_inv: "kg_inv demo_knowledge"
  unfolding demo_knowledge_def by (intro kg_inv_addEdge kg_inv_addEntity kg_inv_empty)

theorem knowledge_edges_mirrored_witness:
  "kg_inv (snd (removeEntity ''b'' demo_knowledge))"
  using knowledge_edges_mirrored [OF demo_knowledge_inv, of "demo_entity ''a'' Symbol []" "demo_relation ''a'' ''b''" "''b''"]
  by blast

lemma linked_iff:
  assumes "kg_inv g"
  shows "(u, v) \<in> linked g flt \<longleftrightarrow> (\<exists>e. keep_edge flt e \<and>
    (e \<in> set (getOutgoingEdges u g) \<and> to_id e = v \<or> e \<in> set (getOutgoingEdges v g) \<and> to_id e = u))"
proof -
  have "e \<in> set (getIncomingEdges u g) \<longleftrightarrow> e \<in> set (getOutgoingEdges (from_id e) g) \<and> to_id e = u" for e
  proof -
    have c: "count_list (getOutgoingEdges (from_id e) g) e = count_list (getIncomingEdges (to_id e) g) e"
      and i: "e \<in> set (getIncomingEdges u g) \<Longrightarrow> to_id e = u"
      using assms by (auto simp: kg_inv_def)
    have "e \<in> set (getOutgoingEdges (from_id e) g) \<longleftrightarrow> e \<in> set (getIncomingEdges (to_id e) g)"
      using c by (metis count_list_0_iff)
    with i show ?thesis by auto
  qed
  moreover have "e \<in> set (getOutgoingEdges k g) \<Longrightarrow> from_id e = k" for e k
    using assms by (simp add: kg_inv_def)
  moreover have "(u, v) \<in> linked g flt \<longleftrightarrow>
      (\<exists>e. keep_edge flt e \<and> e \<in> set (getOutgoingEdges u g) \<and> to_id e = v) \<or>
      (\<exists>e. keep_edge flt e \<and> e \<in> set (getIncomingEdges u g) \<and> from_id e = v)"
    by (auto simp: linked_def neighbours_def getOutgoingEdges_def getIncomingEdges_def)
  ultimately show ?thesis by blast
qed

lemma entities_iff: "n \<in> set (entities ns vs) \<longleftrightarrow> (\<exists>v \<in> set vs. map_of ns v = Some n)"
  by (induction vs) (auto simp: entities_def List.map_filter_simps split: option.splits)

lemma distinct_entities:
  assumes "\<And>k n. map_of ns k = Some n \<Longrightarrow> kn_id n = k" "distinct vs"
  shows "distinct (map kn_id (entities ns vs))"
  using assms(2)
proof (induction vs)
  case (Cons v vs)
  have "kn_id n \<in> set vs" if "n \<in> set (entities ns vs)" for n
    using that assms(1) by (auto simp: entities_iff)
  with Cons assms(1) show ?case
    by (auto simp: entities_def List.map_filter_simps split: option.splits)
qed (simp add: entities_def List.map_filter_simps)

text \<open>
  C13: \<open>findRelatedEntities\<close> returns, each once, exactly the entities other than the start that
  can be reached from it over at most \<open>max_depth\<close> edges of the wanted relation, followed in
  either direction; an id without an entity may lie on the way.
\<close>

theorem related_entities_exact:
  assumes "kg_inv g"
  shows "distinct (map kn_id (findRelatedEntities s m flt g)) \<and>
    (\<forall>n. n \<in> set (findRelatedEntities s m flt g) \<longleftrightarrow>
      getEntity (kn_id n) g = Some n \<and> kn_id n \<noteq> s \<and> (\<exists>k \<le> m. (s, kn_id n) \<in> linked g flt ^^ k))"
proof -
  obtain found where f: "findRelatedEntities s m flt g = entities (kg_nodes g) found" "distinct found"
    "set found = nearby g flt s m - {s}"
    using related_result [of s m flt g] by blast
  have own: "map_of (kg_nodes g) k = Some n \<Longrightarrow> kn_id n = k" for k n
    using assms by (simp add: kg_inv_def)
  have "n \<in> set (entities (kg_nodes g) found) \<longleftrightarrow> getEntity (kn_id n) g = Some n \<and> kn_id n \<noteq> s \<and>
      kn_id n \<in> nearby g flt s m" for n
    unfolding entities_iff f(3) getEntity_def using own by auto
  then show ?thesis
    using distinct_entities [OF own f(2)] by (simp add: f(1) nearby_relpow)
qed

theorem related_entities_exact_witness:
  "map kn_id (findRelatedEntities ''a'' 2 (Some Calls) demo_knowledge) = [''b'', ''c''] \<and>
    (\<exists>k \<le> 2. (''a'', ''c'') \<in> linked demo_knowledge (Some Calls) ^^ k)"
proof -
  have r: "map kn_id (findRelatedEntities ''a'' 2 (Some Calls) demo_knowledge) = [''b'', ''c'']"
    by code_simp
  have "''c'' \<in> kn_id ` set (findRelatedEntities ''a'' 2 (Some Calls) demo_knowledge)"
    unfolding set_map [symmetric] r by simp
  then obtain n where n: "n \<in> set (findRelatedEntities ''a'' 2 (Some Calls) demo_knowledge)" "kn_id n = ''c''" by auto
  from related_entities_exact [OF demo_knowledge_inv, of "''a''" 2 "Some Calls", THEN conjunct2, rule_format, THEN iffD1, OF n(1)]
  show ?thesis unfolding n(2) using r by blast
qed

text \<open>
  \<open>findFixForError\<close> returns every recorded bug fix whose name or description is empty, for
  every error text: the empty string is found in any text.
\<close>

theorem nameless_fix_always_found:
  assumes "n \<in> snd ` set (kg_nodes g)" "kn_type n = BugFix" "kn_name n = [] \<or> kn_description n = []"
  shows "n \<in> set (findFixForError err g)"
  using assms by (auto simp: findFixForError_def fixes_error_def lower_def)

theorem nameless_fix_always_found_witness:
  "demo_entity ''fix'' BugFix [] \<in> set (findFixForError ''segfault'' (snd (addEntity (demo_entity ''fix'' BugFix []) empty_graph)))"
  by (rule nameless_fix_always_found) (simp_all add: addEntity_def empty_graph_def demo_entity_def)

end
