(* ===== verification/Vector_Math.thy ===== *)
theory Vector_Math
  imports Complex_Main Char_Class
begin

unbundle bit_operations_syntax

text \<open>
  The numeric part of \<open>src/src/vector/VectorStore.cpp\<close>: the dot product, cosine similarity and
  normalisation, each in a scalar and an AVX2 version, and the deterministic text embedding.

  \<^item> \<open>float\<close> is modelled by \<open>real\<close>: rounding and NaN are not modelled, so the equivalences of the
    unrolled loops are those of exact arithmetic.
  \<^item> An unrolled loop has \<open>r\<close> accumulators of \<open>w\<close> lanes (\<open>w = 8\<close> for an AVX2 register, \<open>w = 1\<close> for a
    scalar): \<open>unrolled\<close> is the loop, \<open>vadd\<close>, \<open>fmadd\<close> and \<open>hsum\<close> are the intrinsics.
  \<^item> The hashes of the embedding are 64-bit words that wrap.
\<close>

subsection \<open>Unrolled loops\<close>

definition vadd :: "real list \<Rightarrow> real list \<Rightarrow> real list" where
  "vadd u v = map2 (+) u v"

definition fmadd :: "real list \<Rightarrow> real list \<Rightarrow> real list \<Rightarrow> real list" where
  "fmadd u v acc = vadd (map2 (*) u v) acc"

text \<open>One pass of the loop body: accumulator \<open>k\<close> takes lanes \<open>w * k\<close> to \<open>w * k + w - 1\<close>.\<close>

fun fmadd_all :: "nat \<Rightarrow> real list \<Rightarrow> real list \<Rightarrow> real list list \<Rightarrow> real list list" where
  "fmadd_all w a b [] = []"
| "fmadd_all w a b (acc # accs) = fmadd (take w a) (take w b) acc # fmadd_all w (drop w a) (drop w b) accs"

function unrolled :: "nat \<Rightarrow> real list \<Rightarrow> real list \<Rightarrow> real list list \<Rightarrow> real list list \<times> real list \<times> real list" where
  "unrolled w a b accs =
     (if w * length accs = 0 \<or> length a < w * length accs then (accs, a, b)
      else unrolled w (drop (w * length accs) a) (drop (w * length accs) b) (fmadd_all w a b accs))"
  by pat_completeness auto
termination
proof (relation "measure (\<lambda>(w, a, b, accs). length a)", goal_cases)
  case (2 w a b accs)
  then have "0 < w * length accs" "w * length accs \<le> length a" by simp_all
  then have "length (drop (w * length accs) a) < length a"
    unfolding length_drop by linarith
  then show ?case by simp
qed simp

declare unrolled.simps [simp del]

text \<open>The scalar tail.\<close>

fun tail_loop :: "real \<Rightarrow> real list \<Rightarrow> real list \<Rightarrow> real" where
  "tail_loop t (x # a) (y # b) = tail_loop (t + x * y) a b"
| "tail_loop t a b = t"

text \<open>\<open>_mm256_extractf128_ps\<close>, \<open>_mm_add_ps\<close>, two \<open>_mm_hadd_ps\<close> and \<open>_mm_cvtss_f32\<close>.\<close>

definition hadd :: "real list \<Rightarrow> real list" where
  "hadd v = [v ! 0 + v ! 1, v ! 2 + v ! 3, v ! 0 + v ! 1, v ! 2 + v ! 3]"

definition hsum :: "real list \<Rightarrow> real" where
  "hsum v = hadd (hadd (vadd (take 4 v) (drop 4 v))) ! 0"

definition zeros :: "nat \<Rightarrow> real list" where
  "zeros w = replicate w 0"

subsection \<open>Dot product, cosine similarity, normalisation\<close>

definition dotProductScalarInternal :: "real list \<Rightarrow> real list \<Rightarrow> real" where
  "dotProductScalarInternal a b =
     (case unrolled 1 a b [[0], [0], [0], [0]] of (s, a', b') \<Rightarrow>
        tail_loop ((s ! 0 ! 0 + s ! 1 ! 0) + (s ! 2 ! 0 + s ! 3 ! 0)) a' b')"

definition dotProductAVX2Internal :: "real list \<Rightarrow> real list \<Rightarrow> real" where
  "dotProductAVX2Internal a b =
     (case unrolled 8 a b [zeros 8, zeros 8, zeros 8, zeros 8] of (acc, a1, b1) \<Rightarrow>
      case unrolled 8 a1 b1 [acc ! 0] of (acc', a2, b2) \<Rightarrow>
        tail_loop (hsum (vadd (vadd (acc' ! 0) (acc ! 1)) (vadd (acc ! 2) (acc ! 3)))) a2 b2)"

text \<open>The overload on pointers is called with the sizes of both vectors equal.\<close>

definition dotProduct :: "bool \<Rightarrow> real list \<Rightarrow> real list \<Rightarrow> real" where
  "dotProduct avx a b =
     (if a = [] \<or> b = [] \<or> length a \<noteq> length b then 0
      else if avx then dotProductAVX2Internal a b else dotProductScalarInternal a b)"

definition cos_sum_avx :: "real list \<Rightarrow> real list \<Rightarrow> real" where
  "cos_sum_avx a b =
     (case unrolled 8 a b [zeros 8, zeros 8] of (acc, a1, b1) \<Rightarrow>
      case unrolled 8 a1 b1 [acc ! 0] of (acc', a2, b2) \<Rightarrow>
        tail_loop (hsum (vadd (acc' ! 0) (acc ! 1))) a2 b2)"

definition cos_sum_scalar :: "real list \<Rightarrow> real list \<Rightarrow> real" where
  "cos_sum_scalar a b =
     (case unrolled 1 a b [[0], [0]] of (s, a', b') \<Rightarrow> tail_loop (s ! 0 ! 0 + s ! 1 ! 0) a' b')"

text \<open>The three sums run in one loop in the code; none reads another.\<close>

definition cosineSimilarity :: "bool \<Rightarrow> real list \<Rightarrow> real list \<Rightarrow> real" where
  "cosineSimilarity avx a b =
     (if a = [] \<or> b = [] \<or> length a \<noteq> length b then 0
      else
        let f = (if avx \<and> length a \<ge> 8 then cos_sum_avx else cos_sum_scalar);
            dot = f a b; norm_a = f a a; norm_b = f b b
        in if norm_a \<le> 0 \<or> norm_b \<le> 0 then 0 else dot / (sqrt norm_a * sqrt norm_b))"

definition normalizeVector :: "bool \<Rightarrow> real list \<Rightarrow> real list" where
  "normalizeVector avx v =
     (let norm_sq = dotProduct avx v v
      in if norm_sq > 0 then map (\<lambda>x. x * (1 / sqrt norm_sq)) v else v)"

subsection \<open>The text embedding\<close>

definition FNV_OFFSET_BASIS :: "64 word" where
  "FNV_OFFSET_BASIS = 14695981039346656037"

definition FNV_PRIME :: "64 word" where
  "FNV_PRIME = 1099511628211"

definition DEFAULT_EMBEDDING_DIM :: nat where
  "DEFAULT_EMBEDDING_DIM = 128"

definition fnv_step :: "64 word \<Rightarrow> char \<Rightarrow> 64 word" where
  "fnv_step h c = (h XOR of_nat (code_of c)) * FNV_PRIME"

definition feature_index :: "64 word \<Rightarrow> nat" where
  "feature_index h = unat (h AND 127)"

definition feature_sign :: "64 word \<Rightarrow> real" where
  "feature_sign h = (if bit h 32 then 1 else -1)"

definition add_at :: "nat \<Rightarrow> real \<Rightarrow> real list \<Rightarrow> real list" where
  "add_at i x v = v[i := v ! i + x]"

definition project :: "real \<Rightarrow> 64 word \<Rightarrow> real list \<Rightarrow> real list" where
  "project scale h v = add_at (feature_index h) (scale * feature_sign h) v"

text \<open>
  The inner loop over one word: the word's hash, the window of the last three characters, how
  many there were, and the vector. It stops at the first character that is not alphanumeric.
\<close>

fun word_loop :: "string \<Rightarrow> 64 word \<Rightarrow> string \<Rightarrow> nat \<Rightarrow> real list \<Rightarrow> string \<times> 64 word \<times> real list" where
  "word_loop [] h tri n v = ([], h, v)"
| "word_loop (c # cs) h tri n v =
     (if \<not> isalnum c then (c # cs, h, v)
      else
        let l = tolower c; tri' = tl tri @ [l]; n' = n + 1;
            v' = (if n' \<ge> 3 then project (1 / 2) (fold (\<lambda>x g. fnv_step g x) tri' FNV_OFFSET_BASIS) v else v)
        in word_loop cs (fnv_step h l) tri' n' v')"

lemma word_loop_shorter: "length (fst (word_loop cs h tri n v)) \<le> length cs"
  by (induction cs arbitrary: h tri n v) (auto simp: Let_def intro: le_SucI)

definition empty_window :: string where
  "empty_window = replicate 3 (char_of (0 :: nat))"

function embed_loop :: "string \<Rightarrow> real list \<Rightarrow> real list" where
  "embed_loop cs v =
     (case dropWhile (\<lambda>c. \<not> isalnum c) cs of [] \<Rightarrow> v
      | c # cs' \<Rightarrow>
          (case word_loop (c # cs') FNV_OFFSET_BASIS empty_window 0 v of
             (rest, h, v') \<Rightarrow> embed_loop rest (project (3 / 2) h v')))"
  by pat_completeness auto

lemma word_loop_alnum:
  "isalnum c \<Longrightarrow> length (fst (word_loop (c # cs) h tri n v)) \<le> length cs"
  by (simp add: Let_def word_loop_shorter)

lemma dropWhile_head: "dropWhile P cs = c # cs' \<Longrightarrow> \<not> P c"
  by (metis hd_dropWhile list.distinct(1) list.sel(1))

lemma embed_shorter:
  assumes "dropWhile (\<lambda>c. \<not> isalnum c) cs = c # cs'" "(rest, h, v') = word_loop (c # cs') h0 tri n v"
  shows "length rest < length cs"
proof -
  have "isalnum c" using dropWhile_head [OF assms(1)] by simp
  then have "length rest \<le> length cs'"
    using word_loop_alnum [of c cs' h0 tri n v] by (simp only: assms(2) [symmetric] fst_conv)
  moreover have "length (c # cs') \<le> length cs"
    unfolding assms(1) [symmetric] by (rule length_dropWhile_le)
  ultimately show ?thesis by simp
qed

termination embed_loop
  by (relation "measure (\<lambda>(cs, v). length cs)") (auto simp del: word_loop.simps intro: embed_shorter)

declare embed_loop.simps [simp del]

definition computeDeterministicEmbedding :: "bool \<Rightarrow> string \<Rightarrow> real list" where
  "computeDeterministicEmbedding avx text =
     (if text = [] then zeros DEFAULT_EMBEDDING_DIM
      else normalizeVector avx (embed_loop text (zeros DEFAULT_EMBEDDING_DIM)))"

definition generateEmbedding :: "bool \<Rightarrow> string \<Rightarrow> real list" where
  "generateEmbedding avx text = computeDeterministicEmbedding avx text"

subsection \<open>The unrolled loops compute the plain sums\<close>

definition dot :: "real list \<Rightarrow> real list \<Rightarrow> real" where
  "dot a b = sum_list (map2 (*) a b)"

definition lanes_ok :: "nat \<Rightarrow> real list list \<Rightarrow> bool" where
  "lanes_ok w accs \<longleftrightarrow> (\<forall>acc \<in> set accs. length acc = w)"

definition total :: "real list list \<Rightarrow> real" where
  "total accs = sum_list (map sum_list accs)"

lemma sum_vadd: "length u = length v \<Longrightarrow> sum_list (vadd u v) = sum_list u + sum_list v"
  by (induction u v rule: list_induct2) (simp_all add: vadd_def)

lemma length_vadd [simp]: "length (vadd u v) = min (length u) (length v)"
  by (simp add: vadd_def)

lemma dot_split:
  assumes "length a = length b"
  shows "dot a b = dot (take k a) (take k b) + dot (drop k a) (drop k b)"
proof -
  have "map2 (*) a b = map2 (*) (take k a @ drop k a) (take k b @ drop k b)" by simp
  also have "\<dots> = map2 (*) (take k a) (take k b) @ map2 (*) (drop k a) (drop k b)"
    using assms by (subst zip_append) simp_all
  finally show ?thesis by (simp add: dot_def)
qed

lemma fmadd_all_total:
  assumes "length a = length b" "w * length accs \<le> length a" "lanes_ok w accs"
  shows "lanes_ok w (fmadd_all w a b accs) \<and> length (fmadd_all w a b accs) = length accs \<and>
    total (fmadd_all w a b accs) = total accs + dot (take (w * length accs) a) (take (w * length accs) b)"
  using assms
proof (induction w a b accs rule: fmadd_all.induct)
  case (1 w a b)
  then show ?case by (simp add: lanes_ok_def total_def dot_def)
next
  case (2 w a b acc accs)
  let ?k = "w * length accs"
  have IH: "lanes_ok w (fmadd_all w (drop w a) (drop w b) accs) \<and>
      length (fmadd_all w (drop w a) (drop w b) accs) = length accs \<and>
      total (fmadd_all w (drop w a) (drop w b) accs) = total accs + dot (take ?k (drop w a)) (take ?k (drop w b))"
  proof (rule 2(1))
    show "length (drop w a) = length (drop w b)" using 2(2) by simp
    show "?k \<le> length (drop w a)" using 2(3) by (simp add: add_mult_distrib2 add_le_imp_le_diff add.commute)
    show "lanes_ok w accs" using 2(4) by (simp add: lanes_ok_def)
  qed
  have le: "w + ?k \<le> length a" "w + ?k \<le> length b" and acc: "length acc = w"
    using 2(2-4) by (simp_all add: lanes_ok_def mult_Suc_right)
  have wl: "length (take w a) = w" "length (take w b) = w"
    using le by simp_all
  have "sum_list (fmadd (take w a) (take w b) acc) = dot (take w a) (take w b) + sum_list acc"
    unfolding fmadd_def dot_def by (subst sum_vadd) (simp_all only: length_map length_zip wl acc min.idem)
  moreover have "dot (take (w + ?k) a) (take (w + ?k) b) =
      dot (take w a) (take w b) + dot (take ?k (drop w a)) (take ?k (drop w b))"
  proof -
    have e: "take w (take (w + ?k) x) = take w x" "drop w (take (w + ?k) x) = take ?k (drop w x)"
      for x :: "real list"
      by (simp_all add: drop_take)
    have "length (take (w + ?k) a) = length (take (w + ?k) b)" using 2(2) by simp
    from dot_split [OF this, of w] show ?thesis unfolding e .
  qed
  moreover have "length (fmadd (take w a) (take w b) acc) = w"
    by (simp only: fmadd_def length_vadd length_map length_zip wl acc min.idem)
  ultimately have f: "sum_list (fmadd (take w a) (take w b) acc) = dot (take w a) (take w b) + sum_list acc"
    "dot (take (w + ?k) a) (take (w + ?k) b) = dot (take w a) (take w b) + dot (take ?k (drop w a)) (take ?k (drop w b))"
    "length (fmadd (take w a) (take w b) acc) = w" by blast+
  have m: "w * (length accs + Suc 0) = w + ?k" by simp
  have t: "total (y # ys) = sum_list y + total ys" for y ys by (simp add: total_def)
  have l: "lanes_ok w (y # ys) \<longleftrightarrow> length y = w \<and> lanes_ok w ys" for y ys by (simp add: lanes_ok_def)
  from IH obtain g: "lanes_ok w (fmadd_all w (drop w a) (drop w b) accs)"
    "length (fmadd_all w (drop w a) (drop w b) accs) = length accs"
    "total (fmadd_all w (drop w a) (drop w b) accs) = total accs + dot (take ?k (drop w a)) (take ?k (drop w b))"
    by blast
  show ?case
    unfolding fmadd_all.simps t l list.size m f g by (intro conjI refl g(1) TrueI) (simp only: ac_simps)
qed

lemma unrolled_total:
  "unrolled w a b accs = (accs', a', b') \<Longrightarrow> length a = length b \<Longrightarrow> lanes_ok w accs \<Longrightarrow>
     length a' = length b' \<and> lanes_ok w accs' \<and> length accs' = length accs \<and>
     total accs' + dot a' b' = total accs + dot a b"
proof (induction w a b accs rule: unrolled.induct)
  case (1 w a b accs)
  let ?k = "w * length accs"
  show ?case
  proof (cases "?k = 0 \<or> length a < ?k")
    case True
    with 1(2-4) show ?thesis by (subst (asm) unrolled.simps) auto
  next
    case False
    from 1(2) False have r: "unrolled w (drop ?k a) (drop ?k b) (fmadd_all w a b accs) = (accs', a', b')"
      by (subst (asm) unrolled.simps) simp
    have f: "lanes_ok w (fmadd_all w a b accs) \<and> length (fmadd_all w a b accs) = length accs \<and>
        total (fmadd_all w a b accs) = total accs + dot (take ?k a) (take ?k b)"
      using 1(3,4) False by (intro fmadd_all_total) auto
    from 1(1) [OF False r] 1(3) f dot_split [OF 1(3), of ?k] show ?thesis by simp
  qed
qed

lemma tail_loop_dot: "length a = length b \<Longrightarrow> tail_loop t a b = t + dot a b"
  by (induction t a b rule: tail_loop.induct) (simp_all add: dot_def)

lemma length_1_eq: "length xs = Suc 0 \<Longrightarrow> xs ! 0 = sum_list xs"
  by (cases xs) auto

lemma hsum_sum:
  assumes "length v = 8"
  shows "hsum v = sum_list v"
proof -
  obtain a b c d e f g h where "v = [a, b, c, d, e, f, g, h]"
    using assms by (auto simp: numeral_eq_Suc length_Suc_conv)
  then show ?thesis by (simp add: hsum_def hadd_def vadd_def)
qed

lemma accs_2: "length accs = 2 \<Longrightarrow> total accs = sum_list (accs ! 0) + sum_list (accs ! 1)"
  by (auto simp: numeral_eq_Suc length_Suc_conv total_def)

lemma accs_4: "length accs = 4 \<Longrightarrow>
    total accs = sum_list (accs ! 0) + sum_list (accs ! 1) + sum_list (accs ! 2) + sum_list (accs ! 3)"
  by (auto simp: numeral_eq_Suc length_Suc_conv total_def)

lemma lanes_nth: "lanes_ok w accs \<Longrightarrow> k < length accs \<Longrightarrow> length (accs ! k) = w"
  by (simp add: lanes_ok_def)

lemma zeros_simps [simp]: "length (zeros w) = w" "sum_list (zeros w) = 0"
  by (simp_all add: zeros_def sum_list_replicate)

lemma dot_scalar: "length a = length b \<Longrightarrow> dotProductScalarInternal a b = dot a b"
proof -
  assume l: "length a = length b"
  obtain s a' b' where u: "unrolled 1 a b [[0], [0], [0], [0]] = (s, a', b')" by (metis prod_cases3)
  from unrolled_total [OF u l] have r: "length a' = length b'" "lanes_ok 1 s" "length s = 4"
    "total s + dot a' b' = dot a b"
    by (auto simp: lanes_ok_def total_def)
  have "s ! k ! 0 = sum_list (s ! k)" if "k < 4" for k
    using length_1_eq lanes_nth [OF r(2), of k] r(3) that by simp
  then show ?thesis
    using r(4) accs_4 [OF r(3)] by (simp add: dotProductScalarInternal_def u tail_loop_dot [OF r(1)] del: One_nat_def)
qed

lemma dot_avx: "length a = length b \<Longrightarrow> dotProductAVX2Internal a b = dot a b"
proof -
  assume l: "length a = length b"
  obtain s a1 b1 where u: "unrolled 8 a b [zeros 8, zeros 8, zeros 8, zeros 8] = (s, a1, b1)" by (metis prod_cases3)
  from unrolled_total [OF u l] have r: "length a1 = length b1" "lanes_ok 8 s" "length s = 4"
    "total s + dot a1 b1 = dot a b"
    by (auto simp: lanes_ok_def total_def)
  obtain t a2 b2 where v: "unrolled 8 a1 b1 [s ! 0] = (t, a2, b2)" by (metis prod_cases3)
  have l8: "length (s ! k) = 8" if "k < 4" for k
    using lanes_nth [OF r(2), of k] r(3) that by simp
  from unrolled_total [OF v r(1)] l8 have q: "length a2 = length b2" "length t = 1" "lanes_ok 8 t"
    "total t + dot a2 b2 = sum_list (s ! 0) + dot a1 b1"
    by (auto simp: lanes_ok_def total_def)
  have t8: "length (t ! 0) = 8" "total t = sum_list (t ! 0)"
    using lanes_nth [OF q(3), of 0] q(2) by (auto simp: total_def length_Suc_conv)
  show ?thesis
    using r(4) q(4) accs_4 [OF r(3)] t8 l8
    by (simp add: dotProductAVX2Internal_def u v tail_loop_dot [OF q(1)] hsum_sum sum_vadd)
qed

lemma cos_scalar: "length a = length b \<Longrightarrow> cos_sum_scalar a b = dot a b"
proof -
  assume l: "length a = length b"
  obtain s a' b' where u: "unrolled 1 a b [[0], [0]] = (s, a', b')" by (metis prod_cases3)
  from unrolled_total [OF u l] have r: "length a' = length b'" "lanes_ok 1 s" "length s = 2"
    "total s + dot a' b' = dot a b"
    by (auto simp: lanes_ok_def total_def)
  have "s ! k ! 0 = sum_list (s ! k)" if "k < 2" for k
    using length_1_eq lanes_nth [OF r(2), of k] r(3) that by simp
  then show ?thesis
    using r(4) accs_2 [OF r(3)] by (simp add: cos_sum_scalar_def u tail_loop_dot [OF r(1)] del: One_nat_def)
qed

lemma cos_avx: "length a = length b \<Longrightarrow> cos_sum_avx a b = dot a b"
proof -
  assume l: "length a = length b"
  obtain s a1 b1 where u: "unrolled 8 a b [zeros 8, zeros 8] = (s, a1, b1)" by (metis prod_cases3)
  from unrolled_total [OF u l] have r: "length a1 = length b1" "lanes_ok 8 s" "length s = 2"
    "total s + dot a1 b1 = dot a b"
    by (auto simp: lanes_ok_def total_def)
  obtain t a2 b2 where v: "unrolled 8 a1 b1 [s ! 0] = (t, a2, b2)" by (metis prod_cases3)
  have l8: "length (s ! k) = 8" if "k < 2" for k
    using lanes_nth [OF r(2), of k] r(3) that by simp
  from unrolled_total [OF v r(1)] l8 have q: "length a2 = length b2" "length t = 1" "lanes_ok 8 t"
    "total t + dot a2 b2 = sum_list (s ! 0) + dot a1 b1"
    by (auto simp: lanes_ok_def total_def)
  have t8: "length (t ! 0) = 8" "total t = sum_list (t ! 0)"
    using lanes_nth [OF q(3), of 0] q(2) by (auto simp: total_def length_Suc_conv)
  show ?thesis
    using r(4) q(4) accs_2 [OF r(3)] t8 l8
    by (simp add: cos_sum_avx_def u v tail_loop_dot [OF q(1)] hsum_sum sum_vadd)
qed

lemma dotProduct_dot: "length a = length b \<Longrightarrow> dotProduct avx a b = dot a b"
  by (cases "a = []") (auto simp: dotProduct_def dot_scalar dot_avx dot_def [of "[]"])

subsection \<open>Bounds\<close>

lemma feature_index_less: "feature_index h < 128"
proof -
  have "h AND 127 = take_bit 7 h"
    using take_bit_eq_mask [of 7 h] by (simp add: mask_eq_exp_minus_1)
  then have "unat (h AND 127) < 2 ^ 7"
    by (simp only: unsigned_take_bit_eq take_bit_nat_less_exp)
  then show ?thesis by (simp add: feature_index_def)
qed

lemma length_project [simp]: "length (project x h v) = length v"
  by (simp add: project_def add_at_def)

lemma length_word_loop: "length (snd (snd (word_loop cs h tri n v))) = length v"
  by (induction cs arbitrary: h tri n v) (auto simp: Let_def)

lemma embed_loop_Nil: "dropWhile (\<lambda>c. \<not> isalnum c) cs = [] \<Longrightarrow> embed_loop cs v = v"
  by (subst embed_loop.simps) (simp del: dropWhile_eq_Nil_conv)

lemma embed_loop_Cons:
  "dropWhile (\<lambda>c. \<not> isalnum c) cs = c # cs' \<Longrightarrow>
     word_loop (c # cs') FNV_OFFSET_BASIS empty_window 0 v = (rest, h, v') \<Longrightarrow>
     embed_loop cs v = embed_loop rest (project (3 / 2) h v')"
  by (subst embed_loop.simps) (simp del: word_loop.simps)

lemma length_embed_loop: "length (embed_loop cs v) = length v"
proof (induction cs v rule: embed_loop.induct)
  case (1 cs v)
  show ?case
  proof (cases "dropWhile (\<lambda>c. \<not> isalnum c) cs")
    case Nil
    then show ?thesis by (simp only: embed_loop_Nil)
  next
    case (Cons c cs')
    obtain rest h v' where w: "word_loop (c # cs') FNV_OFFSET_BASIS empty_window 0 v = (rest, h, v')"
      by (metis prod_cases3)
    then have "length v' = length v"
      using length_word_loop [of "c # cs'" FNV_OFFSET_BASIS empty_window 0 v] by (simp only: w snd_conv)
    with 1 [OF Cons w [symmetric] refl] show ?thesis
      by (simp add: embed_loop_Cons [OF Cons w])
  qed
qed

lemma length_normalize [simp]: "length (normalizeVector avx v) = length v"
  by (simp add: normalizeVector_def Let_def)

lemma length_embedding: "length (computeDeterministicEmbedding avx text) = DEFAULT_EMBEDDING_DIM"
  by (simp add: computeDeterministicEmbedding_def length_embed_loop)

lemma dot_self_nonneg: "0 \<le> dot v v"
proof -
  have "0 \<le> x" if "x \<in> set (map2 (*) v v)" for x
    using that by (auto simp: zip_same)
  then show ?thesis unfolding dot_def by (rule sum_list_nonneg)
qed

lemma dot_Cons [simp]: "dot (x # a) (y # b) = x * y + dot a b" "dot [] b = 0" "dot a [] = 0"
  by (simp_all add: dot_def)

lemma dot_scale: "dot (map (\<lambda>x. x * c) a) (map (\<lambda>x. x * d) b) = (c * d) * dot a b"
  by (induction a b rule: list_induct2') (simp_all add: algebra_simps)

lemma dot_comm: "dot a b = dot b a"
  by (induction a b rule: list_induct2') simp_all

lemma normalized_norm:
  "dot (normalizeVector avx v) (normalizeVector avx v) = (if dot v v = 0 then 0 else 1)"
proof (cases "dot v v = 0")
  case True
  then show ?thesis by (simp add: normalizeVector_def dotProduct_dot Let_def)
next
  case False
  then have pos: "dot v v > 0" using dot_self_nonneg [of v] by simp
  then have n: "normalizeVector avx v = map (\<lambda>x. x * (1 / sqrt (dot v v))) v"
    unfolding normalizeVector_def Let_def dotProduct_dot [OF refl] by simp
  have "(1 / sqrt (dot v v)) * (1 / sqrt (dot v v)) * dot v v = 1"
    using pos by simp
  with pos show ?thesis
    unfolding n dot_scale by simp
qed

text \<open>Cauchy-Schwarz, in the form that bounds a product of normalised vectors.\<close>

lemma dot_half_sum: "length a = length b \<Longrightarrow> 2 * \<bar>dot a b\<bar> \<le> dot a a + dot b b"
proof (induction a b rule: list_induct2)
  case (Cons x a y b)
  have "2 * \<bar>x * y\<bar> \<le> x * x + y * y"
    using sum_squares_bound [of "\<bar>x\<bar>" "\<bar>y\<bar>"] by (simp add: power2_eq_square abs_mult)
  with Cons show ?case
    using abs_triangle_ineq [of "x * y" "dot a b"] by simp
qed simp

lemma normalized_dot_bound:
  assumes "length a = length b"
  shows "\<bar>dot (normalizeVector avx a) (normalizeVector avx b)\<bar> \<le> 1"
proof -
  have "2 * \<bar>dot (normalizeVector avx a) (normalizeVector avx b)\<bar> \<le> 1 + 1"
    using dot_half_sum [of "normalizeVector avx a" "normalizeVector avx b"] assms
    by (simp add: normalized_norm split: if_splits)
  then show ?thesis by simp
qed

subsection \<open>Upper and lower case\<close>

lemma word_loop_lower:
  "word_loop (lower cs) h tri n v = (case word_loop cs h tri n v of (rest, h', v') \<Rightarrow> (lower rest, h', v'))"
  by (induction cs arbitrary: h tri n v) (auto simp: lower_def Let_def)

lemma dropWhile_lower: "dropWhile (\<lambda>c. \<not> isalnum c) (lower cs) = lower (dropWhile (\<lambda>c. \<not> isalnum c) cs)"
  by (induction cs) (auto simp: lower_def)

lemma embed_loop_lower: "embed_loop (lower cs) v = embed_loop cs v"
proof (induction cs v rule: embed_loop.induct)
  case (1 cs v)
  show ?case
  proof (cases "dropWhile (\<lambda>c. \<not> isalnum c) cs")
    case Nil
    then have "dropWhile (\<lambda>c. \<not> isalnum c) (lower cs) = []"
      unfolding dropWhile_lower by (simp add: lower_def)
    with Nil show ?thesis by (simp only: embed_loop_Nil)
  next
    case (Cons c cs')
    obtain rest h v' where w: "word_loop (c # cs') FNV_OFFSET_BASIS empty_window 0 v = (rest, h, v')"
      by (metis prod_cases3)
    have l: "lower (c # cs') = tolower c # lower cs'" by (simp add: lower_def)
    have "word_loop (lower (c # cs')) FNV_OFFSET_BASIS empty_window 0 v = (lower rest, h, v')"
      by (simp only: word_loop_lower w prod.case)
    moreover have "dropWhile (\<lambda>c. \<not> isalnum c) (lower cs) = tolower c # lower cs'"
      unfolding dropWhile_lower Cons l ..
    ultimately have "embed_loop (lower cs) v = embed_loop (lower rest) (project (3 / 2) h v')"
      unfolding l by (rule embed_loop_Cons [rotated])
    with 1 [OF Cons w [symmetric] refl] show ?thesis
      by (simp only: embed_loop_Cons [OF Cons w])
  qed
qed

lemma embedding_lower:
  "computeDeterministicEmbedding avx (lower text) = computeDeterministicEmbedding avx text"
  by (simp add: computeDeterministicEmbedding_def embed_loop_lower) (simp add: lower_def)

end
