(* ===== verification/Vector_Store.thy ===== *)
theory Vector_Store
  imports Vector_Math
begin

text \<open>
  The document store of \<open>src/src/vector/VectorStore.h\<close> and \<open>VectorStore.cpp\<close>: a table of
  documents, the list of their ids in row order, and one flat matrix with a row of
  \<open>DEFAULT_EMBEDDING_DIM\<close> floats per document. Removal moves the last row into the hole.
  \<open>store_view\<close> is the abstract store (id to text, metadata and vector) that the operations are
  shown to implement.

  The search keeps the best \<open>top_k\<close> scores in a \<open>priority_queue\<close>. Which of several equally bad
  entries the heap has on top is not specified, so \<open>pick\<close> is a parameter with the contract of
  the locale \<open>score_heap\<close>.
\<close>

subsection \<open>Data\<close>

record VectorDocument =
  vd_id :: string
  vd_text :: string
  vd_metadata :: "(string, string) umap"
  matrix_index :: nat

definition zero_document :: VectorDocument where
  "zero_document = \<lparr>vd_id = [], vd_text = [], vd_metadata = [], matrix_index = 0\<rparr>"

record VectorSearchResult =
  sr_id :: string
  sr_text :: string
  sr_metadata :: "(string, string) umap"
  similarity :: real

definition zero_result :: VectorSearchResult where
  "zero_result = \<lparr>sr_id = [], sr_text = [], sr_metadata = [], similarity = 0\<rparr>"

record VectorStore =
  documents :: "(string, VectorDocument) umap"
  doc_ids :: "string list"
  matrix :: "real list"

definition new_VectorStore :: VectorStore where
  "new_VectorStore = \<lparr>documents = [], doc_ids = [], matrix = []\<rparr>"

abbreviation DIM :: nat where
  "DIM \<equiv> DEFAULT_EMBEDDING_DIM"

definition row :: "nat \<Rightarrow> real list \<Rightarrow> real list" where
  "row i m = take DIM (drop (i * DIM) m)"

text \<open>\<open>memcpy(&matrix_[i * DIM], v, ...)\<close>.\<close>

definition put_row :: "nat \<Rightarrow> real list \<Rightarrow> real list \<Rightarrow> real list" where
  "put_row i v m = take (i * DIM) m @ v @ drop (i * DIM + DIM) m"

definition resize :: "nat \<Rightarrow> real list \<Rightarrow> real list" where
  "resize n m = take n m @ zeros (n - length m)"

text \<open>\<open>memcpy\<close> of at most \<open>DIM\<close> floats, the rest zero.\<close>

definition fit_row :: "real list \<Rightarrow> real list" where
  "fit_row v = resize DIM v"

subsection \<open>Operations\<close>

definition addDocument :: "bool \<Rightarrow> string \<Rightarrow> string \<Rightarrow> (string, string) umap \<Rightarrow> real list \<Rightarrow> VectorStore \<Rightarrow> bool \<times> VectorStore" where
  "addDocument avx i text meta custom s =
     (let (idx, ids, m) =
            (case map_of (documents s) i of
               Some d \<Rightarrow> (matrix_index d, doc_ids s, matrix s)
             | None \<Rightarrow> (length (doc_ids s), doc_ids s @ [i], resize ((length (doc_ids s) + 1) * DIM) (matrix s)));
          v = (if custom \<noteq> [] then normalizeVector avx (fit_row custom)
               else computeDeterministicEmbedding avx text)
      in (True, s\<lparr>doc_ids := ids, matrix := put_row idx v m,
            documents := AList.update i
              \<lparr>vd_id = i, vd_text = text, vd_metadata = meta, matrix_index = idx\<rparr> (documents s)\<rparr>))"

definition removeDocument :: "string \<Rightarrow> VectorStore \<Rightarrow> bool \<times> VectorStore" where
  "removeDocument i s =
     (case map_of (documents s) i of None \<Rightarrow> (False, s)
      | Some d \<Rightarrow>
          let remove_idx = matrix_index d; last_idx = length (doc_ids s) - 1;
              (ids, docs, m) =
                (if remove_idx \<noteq> last_idx
                 then let last_id = doc_ids s ! last_idx
                      in ((doc_ids s)[remove_idx := last_id],
                          AList.update last_id
                            ((um_get zero_document (documents s) last_id)\<lparr>matrix_index := remove_idx\<rparr>) (documents s),
                          put_row remove_idx (row last_idx (matrix s)) (matrix s))
                 else (doc_ids s, documents s, matrix s))
          in (True, s\<lparr>doc_ids := butlast ids, matrix := resize (length (butlast ids) * DIM) m,
                documents := AList.delete i docs\<rparr>))"

definition getDocument :: "string \<Rightarrow> VectorStore \<Rightarrow> VectorDocument option" where
  "getDocument i s = map_of (documents s) i"

definition clear_store :: "VectorStore \<Rightarrow> VectorStore" where
  "clear_store s = s\<lparr>documents := [], doc_ids := [], matrix := []\<rparr>"

definition store_size :: "VectorStore \<Rightarrow> nat" where
  "store_size s = length (documents s)"

subsection \<open>Search\<close>

type_synonym score = "real \<times> nat"

fun score_loop :: "(score list \<Rightarrow> score) \<Rightarrow> nat \<Rightarrow> real \<Rightarrow> (nat \<Rightarrow> real) \<Rightarrow> nat list \<Rightarrow> score list \<Rightarrow> score list" where
  "score_loop pick k min_sim sim [] heap = heap"
| "score_loop pick k min_sim sim (i # is) heap =
     score_loop pick k min_sim sim is
       (if sim i \<ge> min_sim
        then if length heap < k then (sim i, i) # heap
             else if sim i > fst (pick heap) then (sim i, i) # remove1 (pick heap) heap
             else heap
        else heap)"

definition score_result :: "VectorStore \<Rightarrow> score \<Rightarrow> VectorSearchResult" where
  "score_result s e =
     (let doc_id = doc_ids s ! snd e
      in case map_of (documents s) doc_id of None \<Rightarrow> zero_result
         | Some d \<Rightarrow> \<lparr>sr_id = doc_id, sr_text = vd_text d, sr_metadata = vd_metadata d, similarity = fst e\<rparr>)"

text \<open>Popping fills the results from back to front.\<close>

fun drain :: "(score list \<Rightarrow> score) \<Rightarrow> nat \<Rightarrow> score list \<Rightarrow> score list \<Rightarrow> score list" where
  "drain pick 0 heap acc = acc"
| "drain pick (Suc n) heap acc = drain pick n (remove1 (pick heap) heap) (pick heap # acc)"

definition row_similarity :: "bool \<Rightarrow> real list \<Rightarrow> VectorStore \<Rightarrow> nat \<Rightarrow> real" where
  "row_similarity avx q s i = dotProduct avx q (row i (matrix s))"

definition searchByVector :: "(score list \<Rightarrow> score) \<Rightarrow> bool \<Rightarrow> real list \<Rightarrow> nat \<Rightarrow> real \<Rightarrow> VectorStore \<Rightarrow> VectorSearchResult list" where
  "searchByVector pick avx query top_k min_sim s =
     (if query = [] \<or> top_k = 0 then []
      else if documents s = [] then []
      else
        let q = normalizeVector avx (fit_row query);
            heap = score_loop pick top_k min_sim (row_similarity avx q s) [0..<length (doc_ids s)] []
        in map (score_result s) (drain pick (length heap) heap []))"

definition search :: "(score list \<Rightarrow> score) \<Rightarrow> bool \<Rightarrow> string \<Rightarrow> nat \<Rightarrow> real \<Rightarrow> VectorStore \<Rightarrow> VectorSearchResult list" where
  "search pick avx query top_k min_sim s =
     searchByVector pick avx (computeDeterministicEmbedding avx query) top_k min_sim s"

subsection \<open>Rows\<close>

lemma row_put_row:
  assumes "length v = DIM" "i < n" "j < n" "length m = n * DIM"
  shows "row j (put_row i v m) = (if j = i then v else row j m)"
proof -
  have le: "i * DIM + DIM \<le> length m" "j * DIM + DIM \<le> length m"
    using assms(2-4) mult_le_mono1 [of "Suc i" n DIM] mult_le_mono1 [of "Suc j" n DIM] by simp_all
  consider "j = i" | "j < i" | "i < j" by linarith
  then show ?thesis
  proof cases
    case 1
    then show ?thesis using assms(1) le by (simp add: row_def put_row_def)
  next
    case 2
    then have "j * DIM + DIM \<le> i * DIM" using mult_le_mono1 [of "Suc j" i DIM] by simp
    then have "take DIM (drop (j * DIM) (take (i * DIM) m)) = take DIM (drop (j * DIM) m)"
      by (simp add: drop_take min_def)
    moreover have "DIM \<le> length (drop (j * DIM) (take (i * DIM) m))"
      using \<open>j * DIM + DIM \<le> i * DIM\<close> le by simp
    ultimately show ?thesis
      using 2 le by (simp add: row_def put_row_def)
  next
    case 3
    then have "i * DIM + DIM \<le> j * DIM" using mult_le_mono1 [of "Suc i" j DIM] by simp
    then obtain k where k: "j * DIM = i * DIM + DIM + k" by (metis le_Suc_ex)
    then show ?thesis
      using 3 le assms(1) by (simp add: row_def put_row_def add.commute)
  qed
qed

lemma length_put_row:
  "length v = DIM \<Longrightarrow> i * DIM + DIM \<le> length m \<Longrightarrow> length (put_row i v m) = length m"
  by (simp add: put_row_def)

lemma length_resize [simp]: "length (resize n m) = n"
  by (simp add: resize_def)

lemma row_resize:
  assumes "j * DIM + DIM \<le> length m" "j * DIM + DIM \<le> n"
  shows "row j (resize n m) = row j m"
proof -
  have d: "DIM \<le> length m - j * DIM" "DIM \<le> n - j * DIM" using assms by linarith+
  then show ?thesis using assms by (simp add: row_def resize_def drop_take)
qed

subsection \<open>The representation invariant and the abstract store\<close>

definition vs_inv :: "VectorStore \<Rightarrow> bool" where
  "vs_inv s \<longleftrightarrow> distinct (um_keys (documents s)) \<and> length (matrix s) = length (doc_ids s) * DIM \<and>
     (\<forall>k d. map_of (documents s) k = Some d \<longrightarrow>
        vd_id d = k \<and> matrix_index d < length (doc_ids s) \<and> doc_ids s ! matrix_index d = k) \<and>
     (\<forall>i < length (doc_ids s). \<exists>d. map_of (documents s) (doc_ids s ! i) = Some d \<and> matrix_index d = i)"

definition store_view :: "VectorStore \<Rightarrow> string \<Rightarrow> (string \<times> (string, string) umap \<times> real list) option" where
  "store_view s k = (case map_of (documents s) k of None \<Rightarrow> None
     | Some d \<Rightarrow> Some (vd_text d, vd_metadata d, row (matrix_index d) (matrix s)))"

lemma vs_inv_index:
  assumes "vs_inv s" "map_of (documents s) k = Some d"
  shows "vd_id d = k" "matrix_index d < length (doc_ids s)" "doc_ids s ! matrix_index d = k"
  using assms unfolding vs_inv_def by blast+

lemma vs_inv_row:
  assumes "vs_inv s" "i < length (doc_ids s)"
  shows "\<exists>d. map_of (documents s) (doc_ids s ! i) = Some d \<and> matrix_index d = i"
  using assms unfolding vs_inv_def by blast

lemma vs_inv_length: "vs_inv s \<Longrightarrow> length (matrix s) = length (doc_ids s) * DIM"
  by (simp add: vs_inv_def)

lemma index_inject:
  assumes "vs_inv s" "map_of (documents s) k = Some d" "map_of (documents s) k' = Some d'"
    "matrix_index d = matrix_index d'"
  shows "k = k'"
  using vs_inv_index(3) [OF assms(1,2)] vs_inv_index(3) [OF assms(1,3)] assms(4) by simp

lemma vs_inv_clear: "vs_inv (clear_store s)" "store_view (clear_store s) k = None"
  by (simp_all add: vs_inv_def clear_store_def store_view_def)

lemma store_view_eqI:
  assumes "vs_inv s" "length v = DIM"
    and "map_of (documents s') = (map_of (documents s))(i \<mapsto> d)" "row (matrix_index d) (matrix s') = v"
    and "\<And>k e. k \<noteq> i \<Longrightarrow> map_of (documents s) k = Some e \<Longrightarrow> row (matrix_index e) (matrix s') = row (matrix_index e) (matrix s)"
  shows "store_view s' = (store_view s)(i \<mapsto> (vd_text d, vd_metadata d, v))"
  using assms by (auto simp: fun_eq_iff store_view_def split: option.splits)

lemma le_length: "i < n \<Longrightarrow> i * DIM + DIM \<le> n * DIM"
  using mult_le_mono1 [of "Suc i" n DIM] by simp

lemma addDocument_new:
  assumes inv: "vs_inv s" and none: "map_of (documents s) i = None"
    and v: "v = (if custom \<noteq> [] then normalizeVector avx (fit_row custom) else computeDeterministicEmbedding avx text)"
    and s': "s' = snd (addDocument avx i text meta custom s)"
  shows "vs_inv s' \<and> store_view s' = (store_view s)(i \<mapsto> (text, meta, v))"
proof -
  let ?n = "length (doc_ids s)"
  let ?d = "\<lparr>vd_id = i, vd_text = text, vd_metadata = meta, matrix_index = ?n\<rparr>"
  have lv: "length v = DIM" by (simp add: v length_embedding fit_row_def)
  have f: "documents s' = AList.update i ?d (documents s)" "doc_ids s' = doc_ids s @ [i]"
    "matrix s' = put_row ?n v (resize ((?n + 1) * DIM) (matrix s))"
    using none by (simp_all add: s' addDocument_def Let_def v)
  have len: "length (matrix s') = (?n + 1) * DIM"
    unfolding f(3) by (subst length_put_row [OF lv]) simp_all
  have nk: "k \<noteq> i" if "map_of (documents s) k = Some e" for k e using none that by auto
  have ni: "doc_ids s ! j \<noteq> i" if "j < ?n" for j using vs_inv_row [OF inv that] nk by auto
  have rows: "row j (matrix s') = (if j = ?n then v else row j (matrix s))" if "j \<le> ?n" for j
    unfolding f(3)
    using row_put_row [OF lv, of ?n "?n + 1" j] row_resize [of j "matrix s" "(?n + 1) * DIM"] that
      vs_inv_length [OF inv] le_length [of j ?n] le_length [of j "?n + 1"] by simp
  have "vs_inv s'"
    unfolding vs_inv_def
  proof (intro conjI allI impI)
    show "distinct (um_keys (documents s'))" using inv by (simp add: f vs_inv_def)
    show "length (matrix s') = length (doc_ids s') * DIM" using len by (simp add: f)
  next
    fix k d assume k: "map_of (documents s') k = Some d"
    then show "vd_id d = k" "matrix_index d < length (doc_ids s')" "doc_ids s' ! matrix_index d = k"
      using vs_inv_index [OF inv, of k d] by (auto simp: f nth_append split: if_splits)
  next
    fix j assume "j < length (doc_ids s')"
    then show "\<exists>d. map_of (documents s') (doc_ids s' ! j) = Some d \<and> matrix_index d = j"
      using vs_inv_row [OF inv, of j] ni [of j] by (auto simp: f nth_append)
  qed
  moreover have "store_view s' = (store_view s)(i \<mapsto> (vd_text ?d, vd_metadata ?d, v))"
  proof (rule store_view_eqI [OF inv lv])
    show "map_of (documents s') = (map_of (documents s))(i \<mapsto> ?d)" by (simp add: f)
    show "row (matrix_index ?d) (matrix s') = v" by (simp add: rows)
    show "row (matrix_index e) (matrix s') = row (matrix_index e) (matrix s)"
      if "map_of (documents s) k = Some e" for k e
      using vs_inv_index(2) [OF inv that] rows [of "matrix_index e"] by simp
  qed
  ultimately show ?thesis by simp
qed

lemma addDocument_old:
  assumes inv: "vs_inv s" and some: "map_of (documents s) i = Some d0"
    and v: "v = (if custom \<noteq> [] then normalizeVector avx (fit_row custom) else computeDeterministicEmbedding avx text)"
    and s': "s' = snd (addDocument avx i text meta custom s)"
  shows "vs_inv s' \<and> store_view s' = (store_view s)(i \<mapsto> (text, meta, v))"
proof -
  let ?n = "length (doc_ids s)" and ?j = "matrix_index d0"
  let ?d = "\<lparr>vd_id = i, vd_text = text, vd_metadata = meta, matrix_index = ?j\<rparr>"
  have lv: "length v = DIM" by (simp add: v length_embedding fit_row_def)
  note d0 = vs_inv_index [OF inv some] and len = vs_inv_length [OF inv]
  have f: "documents s' = AList.update i ?d (documents s)" "doc_ids s' = doc_ids s"
    "matrix s' = put_row ?j v (matrix s)"
    using some by (simp_all add: s' addDocument_def Let_def v)
  have len': "length (matrix s') = ?n * DIM"
    unfolding f(3) using len le_length [OF d0(2)] by (subst length_put_row [OF lv]) simp_all
  have rows: "row k (matrix s') = (if k = ?j then v else row k (matrix s))" if "k < ?n" for k
    unfolding f(3) by (rule row_put_row [OF lv d0(2) that len])
  have "vs_inv s'"
    unfolding vs_inv_def
  proof (intro conjI allI impI)
    show "distinct (um_keys (documents s'))" using inv by (simp add: f vs_inv_def)
    show "length (matrix s') = length (doc_ids s') * DIM" using len' by (simp add: f)
  next
    fix k d assume k: "map_of (documents s') k = Some d"
    then show "vd_id d = k" "matrix_index d < length (doc_ids s')" "doc_ids s' ! matrix_index d = k"
      using vs_inv_index [OF inv, of k d] d0 by (auto simp: f split: if_splits)
  next
    fix k assume "k < length (doc_ids s')"
    then show "\<exists>d. map_of (documents s') (doc_ids s' ! k) = Some d \<and> matrix_index d = k"
      using vs_inv_row [OF inv, of k] some by (auto simp: f)
  qed
  moreover have "store_view s' = (store_view s)(i \<mapsto> (vd_text ?d, vd_metadata ?d, v))"
  proof (rule store_view_eqI [OF inv lv])
    show "map_of (documents s') = (map_of (documents s))(i \<mapsto> ?d)" by (simp add: f)
    show "row (matrix_index ?d) (matrix s') = v" using rows d0(2) by simp
    show "row (matrix_index e) (matrix s') = row (matrix_index e) (matrix s)"
      if "k \<noteq> i" "map_of (documents s) k = Some e" for k e
      using vs_inv_index(2) [OF inv that(2)] rows [of "matrix_index e"] index_inject [OF inv that(2) some] that(1) by auto
  qed
  ultimately show ?thesis by simp
qed

lemma length_row: "i * DIM + DIM \<le> length m \<Longrightarrow> length (row i m) = DIM"
  by (simp add: row_def)

lemma removeDocument_last:
  assumes inv: "vs_inv s" and some: "map_of (documents s) i = Some d"
    and last: "matrix_index d = length (doc_ids s) - 1" and s': "s' = snd (removeDocument i s)"
  shows "vs_inv s' \<and> store_view s' = (store_view s)(i := None)"
proof -
  let ?n = "length (doc_ids s)"
  note d = vs_inv_index [OF inv some] and len = vs_inv_length [OF inv]
  have f: "documents s' = AList.delete i (documents s)" "doc_ids s' = butlast (doc_ids s)"
    "matrix s' = resize ((?n - 1) * DIM) (matrix s)"
    using some last by (simp_all add: s' removeDocument_def Let_def)
  have idx: "matrix_index e < ?n - 1" if "map_of (documents s) k = Some e" "k \<noteq> i" for k e
    using vs_inv_index(2) [OF inv that(1)] index_inject [OF inv that(1) some] last that(2)
    by (cases "matrix_index e = ?n - 1") auto
  have rows: "row k (matrix s') = row k (matrix s)" if "k < ?n - 1" for k
    unfolding f(3) by (rule row_resize) (use that len le_length [of k "?n - 1"] le_length [of k ?n] in simp_all)
  have "vs_inv s'"
    unfolding vs_inv_def
  proof (intro conjI allI impI)
    show "distinct (um_keys (documents s'))" using inv by (simp add: f vs_inv_def)
    show "length (matrix s') = length (doc_ids s') * DIM" by (simp add: f)
  next
    fix k e assume "map_of (documents s') k = Some e"
    then have k: "map_of (documents s) k = Some e" "k \<noteq> i" by (auto simp: f split: if_splits)
    then show "vd_id e = k" "matrix_index e < length (doc_ids s')" "doc_ids s' ! matrix_index e = k"
      using vs_inv_index [OF inv k(1)] idx [OF k] by (auto simp: f nth_butlast)
  next
    fix k assume k: "k < length (doc_ids s')"
    then obtain e where e: "map_of (documents s) (doc_ids s ! k) = Some e" "matrix_index e = k"
      using vs_inv_row [OF inv, of k] unfolding f length_butlast by fastforce
    moreover have "doc_ids s ! k \<noteq> i" using e some last k by (auto simp: f)
    ultimately show "\<exists>e. map_of (documents s') (doc_ids s' ! k) = Some e \<and> matrix_index e = k"
      using k by (auto simp: f nth_butlast)
  qed
  moreover have "store_view s' = (store_view s)(i := None)"
    using rows idx by (auto simp: fun_eq_iff store_view_def f split: option.splits)
  ultimately show ?thesis by simp
qed

lemma removeDocument_swap:
  assumes inv: "vs_inv s" and some: "map_of (documents s) i = Some d"
    and nl: "matrix_index d \<noteq> length (doc_ids s) - 1" and s': "s' = snd (removeDocument i s)"
  shows "vs_inv s' \<and> store_view s' = (store_view s)(i := None)"
proof -
  let ?n = "length (doc_ids s)" and ?r = "matrix_index d"
  let ?l = "?n - 1"
  note d = vs_inv_index [OF inv some] and len = vs_inv_length [OF inv]
  have rl: "?r < ?l" "?l < ?n" using d(2) nl by linarith+
  obtain dl where dl: "map_of (documents s) (doc_ids s ! ?l) = Some dl" "matrix_index dl = ?l"
    using vs_inv_row [OF inv rl(2)] by blast
  let ?last = "doc_ids s ! ?l" and ?m = "put_row ?r (row ?l (matrix s)) (matrix s)"
  have li: "?last \<noteq> i" using dl some nl by auto
  have f: "documents s' = AList.delete i (AList.update ?last (dl\<lparr>matrix_index := ?r\<rparr>) (documents s))"
    "doc_ids s' = butlast ((doc_ids s)[?r := ?last])" "matrix s' = resize (?l * DIM) ?m"
    using some nl dl by (simp_all add: s' removeDocument_def Let_def um_get_def)
  have ids: "doc_ids s' ! k = (if k = ?r then ?last else doc_ids s ! k)" if "k < ?l" for k
    using that by (simp add: f nth_butlast)
  have nids: "length (doc_ids s') = ?l" by (simp add: f)
  have lrow: "length (row ?l (matrix s)) = DIM"
    by (rule length_row) (use len le_length [OF rl(2)] in simp)
  have "length ?m = ?n * DIM"
    using length_put_row [OF lrow, of ?r "matrix s"] len le_length [OF d(2)] by simp
  then have rows: "row k (matrix s') = (if k = ?r then row ?l (matrix s) else row k (matrix s))" if "k < ?l" for k
    unfolding f(3) using row_resize [of k ?m "?l * DIM"] le_length [of k ?l] le_length [of k ?n] that
      row_put_row [OF lrow d(2) _ len, of k] by simp
  have idx: "matrix_index e < ?l \<and> matrix_index e \<noteq> ?r"
    if "map_of (documents s) k = Some e" "k \<noteq> i" "k \<noteq> ?last" for k e
    using vs_inv_index(2) [OF inv that(1)] index_inject [OF inv that(1) some] index_inject [OF inv that(1) dl(1)]
      dl(2) that by (cases "matrix_index e = ?l") auto
  have docs: "map_of (documents s') k = (if k = i then None else if k = ?last then Some (dl\<lparr>matrix_index := ?r\<rparr>)
      else map_of (documents s) k)" for k
    using li by (simp add: f)
  have "vs_inv s'"
    unfolding vs_inv_def nids
  proof (intro conjI allI impI)
    show "distinct (um_keys (documents s'))" using inv by (simp add: f vs_inv_def)
    show "length (matrix s') = ?l * DIM" by (simp add: f)
  next
    fix k e assume k: "map_of (documents s') k = Some e"
    show "vd_id e = k" "matrix_index e < ?l" "doc_ids s' ! matrix_index e = k"
    proof (atomize (full), cases "k = ?last")
      case True
      with k li rl(1) ids [of ?r] vs_inv_index(1) [OF inv dl(1)]
      show "vd_id e = k \<and> matrix_index e < ?l \<and> doc_ids s' ! matrix_index e = k"
        by (auto simp: docs)
    next
      case False
      with k have e: "map_of (documents s) k = Some e" "k \<noteq> i" by (auto simp: docs split: if_splits)
      with False idx [OF e] vs_inv_index [OF inv e(1)] ids [of "matrix_index e"]
      show "vd_id e = k \<and> matrix_index e < ?l \<and> doc_ids s' ! matrix_index e = k" by auto
    qed
  next
    fix k assume k: "k < ?l"
    show "\<exists>e. map_of (documents s') (doc_ids s' ! k) = Some e \<and> matrix_index e = k"
    proof (cases "k = ?r")
      case True
      with k ids li show ?thesis by (auto simp: docs)
    next
      case False
      obtain e where e: "map_of (documents s) (doc_ids s ! k) = Some e" "matrix_index e = k"
        using vs_inv_row [OF inv, of k] k by fastforce
      moreover have "doc_ids s ! k \<noteq> i" "doc_ids s ! k \<noteq> ?last"
        using e some dl False k by auto
      ultimately show ?thesis using False k ids by (simp add: docs)
    qed
  qed
  moreover have "store_view s' k = ((store_view s)(i := None)) k" for k
  proof (cases "k = ?last")
    case True
    then show ?thesis using li dl rows [of ?r] rl(1) by (simp add: store_view_def docs)
  next
    case False
    show ?thesis
    proof (cases "map_of (documents s) k")
      case (Some e)
      with False idx [OF Some] rows [of "matrix_index e"] show ?thesis
        by (auto simp: store_view_def docs)
    qed (use False in \<open>simp add: store_view_def docs\<close>)
  qed
  ultimately show ?thesis by (simp add: fun_eq_iff)
qed

lemma removeDocument_refines:
  assumes "vs_inv s"
  shows "vs_inv (snd (removeDocument i s)) \<and> store_view (snd (removeDocument i s)) = (store_view s)(i := None) \<and>
    (fst (removeDocument i s) \<longleftrightarrow> store_view s i \<noteq> None)"
proof (cases "map_of (documents s) i")
  case None
  with assms show ?thesis by (simp add: removeDocument_def store_view_def fun_eq_iff)
next
  case (Some d)
  have "fst (removeDocument i s)" using Some by (simp add: removeDocument_def Let_def split: prod.splits)
  with Some removeDocument_last [OF assms Some _ refl] removeDocument_swap [OF assms Some _ refl]
  show ?thesis by (cases "matrix_index d = length (doc_ids s) - 1") (simp_all add: store_view_def)
qed

lemma addDocument_refines:
  assumes "vs_inv s"
    and "v = (if custom \<noteq> [] then normalizeVector avx (fit_row custom) else computeDeterministicEmbedding avx text)"
  shows "vs_inv (snd (addDocument avx i text meta custom s)) \<and>
    store_view (snd (addDocument avx i text meta custom s)) = (store_view s)(i \<mapsto> (text, meta, v))"
  using addDocument_new [OF assms(1) _ assms(2) refl] addDocument_old [OF assms(1) _ assms(2) refl]
  by (cases "map_of (documents s) i") blast+

lemma vs_inv_new: "vs_inv new_VectorStore"
  by (simp add: vs_inv_def new_VectorStore_def)

subsection \<open>The bounded heap keeps the best scores\<close>

locale score_heap =
  fixes pick :: "score list \<Rightarrow> score"
  assumes pick_in: "h \<noteq> [] \<Longrightarrow> pick h \<in> set h"
    and pick_le: "e \<in> set h \<Longrightarrow> fst (pick h) \<le> fst e"
begin

definition candidates :: "real \<Rightarrow> (nat \<Rightarrow> real) \<Rightarrow> nat set \<Rightarrow> score set" where
  "candidates min_sim sim I = (\<lambda>i. (sim i, i)) ` {i \<in> I. sim i \<ge> min_sim}"

definition best_of :: "nat \<Rightarrow> score set \<Rightarrow> score list \<Rightarrow> bool" where
  "best_of k C heap \<longleftrightarrow> distinct heap \<and> set heap \<subseteq> C \<and> length heap = min k (card C) \<and>
     (\<forall>c \<in> C - set heap. \<forall>h \<in> set heap. fst c \<le> fst h)"

lemma best_of_insert:
  assumes b: "best_of k C heap" and fin: "finite C" and e: "e \<notin> C" and k: "0 < k"
  shows "best_of k (insert e C) (if length heap < k then e # heap
    else if fst e > fst (pick heap) then e # remove1 (pick heap) heap else heap)"
proof (cases "length heap < k")
  case True
  with b have "length heap = card C" by (auto simp: best_of_def)
  moreover have "card (set heap) = length heap" using b by (simp add: best_of_def distinct_card)
  ultimately have "set heap = C" using b fin by (intro card_subset_eq) (auto simp: best_of_def)
  with True b e fin show ?thesis
    by (auto simp: best_of_def)
next
  case False
  with b have len: "length heap = k" "k \<le> card C" by (auto simp: best_of_def)
  then have ne: "heap \<noteq> []" using k by auto
  note p = pick_in [OF ne]
  have d: "distinct heap" "set heap \<subseteq> C" and out: "\<And>c h. c \<in> C - set heap \<Longrightarrow> h \<in> set heap \<Longrightarrow> fst c \<le> fst h"
    using b by (auto simp: best_of_def)
  have card: "card (insert e C) = Suc (card C)" using e fin by simp
  show ?thesis
  proof (cases "fst e > fst (pick heap)")
    case True
    let ?h = "e # remove1 (pick heap) heap"
    have "distinct ?h" "set ?h \<subseteq> insert e C" using d e by (auto dest: notin_set_remove1 set_remove1_subset [THEN subsetD])
    moreover have "length ?h = min k (card (insert e C))"
      using len p card k by (simp add: length_remove1)
    moreover have "fst c \<le> fst h" if c: "c \<in> insert e C - set ?h" and h: "h \<in> set ?h" for c h
    proof -
      have "c \<in> C - set heap \<or> c = pick heap" using c d(1) by auto
      then have cp: "fst c \<le> fst (pick heap)"
      proof
        assume "c \<in> C - set heap"
        then show ?thesis by (rule out [OF _ p])
      qed simp
      show ?thesis
      proof (cases "h = e")
        case False
        with h have "h \<in> set heap" by (auto dest: set_remove1_subset [THEN subsetD])
        with cp pick_le show ?thesis by (meson order_trans)
      qed (use cp True in simp)
    qed
    ultimately show ?thesis using False True by (simp add: best_of_def)
  next
    case le: False
    have "fst c \<le> fst h" if c: "c \<in> insert e C - set heap" and h: "h \<in> set heap" for c h
    proof (cases "c = e")
      case True
      then show ?thesis using le pick_le [OF h] by simp
    next
      case False
      with c have "c \<in> C - set heap" by blast
      then show ?thesis by (rule out [OF _ h])
    qed
    with False le d len card show ?thesis by (auto simp: best_of_def)
  qed
qed

lemma score_loop_best:
  assumes "best_of k (candidates min_sim sim I) heap" "finite I" "set is \<inter> I = {}" "distinct is" "0 < k"
  shows "best_of k (candidates min_sim sim (I \<union> set is)) (score_loop pick k min_sim sim is heap)"
  using assms
proof (induction "is" arbitrary: I heap)
  case (Cons i js)
  let ?h = "if sim i \<ge> min_sim
        then if length heap < k then (sim i, i) # heap
             else if sim i > fst (pick heap) then (sim i, i) # remove1 (pick heap) heap
             else heap
        else heap"
  have "best_of k (candidates min_sim sim (insert i I)) ?h"
  proof (cases "sim i \<ge> min_sim")
    case True
    then have c: "candidates min_sim sim (insert i I) = insert (sim i, i) (candidates min_sim sim I)"
      by (auto simp: candidates_def)
    have "(sim i, i) \<notin> candidates min_sim sim I" "finite (candidates min_sim sim I)"
      using Cons.prems by (auto simp: candidates_def)
    from best_of_insert [OF Cons.prems(1) this(2,1) Cons.prems(5)] True show ?thesis
      unfolding c by (simp only: fst_conv if_True)
  next
    case False
    then have "candidates min_sim sim (insert i I) = candidates min_sim sim I"
      by (auto simp: candidates_def)
    with False Cons.prems(1) show ?thesis by simp
  qed
  from Cons.IH [OF this] Cons.prems show ?case by simp
qed simp

lemma drain_sorted:
  assumes "length h = n" "\<And>x y. x \<in> set h \<Longrightarrow> y \<in> set acc \<Longrightarrow> fst y \<le> fst x"
    and "sorted_wrt (\<lambda>x y. fst x \<ge> fst y) acc"
  shows "mset (drain pick n h acc) = mset h + mset acc \<and> sorted_wrt (\<lambda>x y. fst x \<ge> fst y) (drain pick n h acc)"
  using assms
proof (induction n arbitrary: h acc)
  case (Suc n)
  then have ne: "h \<noteq> []" by auto
  note p = pick_in [OF ne]
  have "mset (drain pick n (remove1 (pick h) h) (pick h # acc)) = mset (remove1 (pick h) h) + mset (pick h # acc) \<and>
      sorted_wrt (\<lambda>x y. fst x \<ge> fst y) (drain pick n (remove1 (pick h) h) (pick h # acc))"
  proof (rule Suc.IH)
    show "length (remove1 (pick h) h) = n" using Suc.prems(1) p by (simp add: length_remove1)
    show "sorted_wrt (\<lambda>x y. fst x \<ge> fst y) (pick h # acc)" using Suc.prems(2,3) p by simp
    show "fst y \<le> fst x" if "x \<in> set (remove1 (pick h) h)" "y \<in> set (pick h # acc)" for x y
      using that Suc.prems(2) [of x y] pick_le [of x h] set_remove1_subset [of "pick h" h] by auto
  qed
  with p show ?case by simp
qed simp

text \<open>The scores a search returns, best first.\<close>

lemma search_scores:
  assumes "0 < k" and heap_def: "heap = score_loop pick k min_sim sim [0..<n] []"
    and scores_def: "scores = drain pick (length heap) heap []"
  shows "best_of k (candidates min_sim sim {..<n}) scores \<and> sorted_wrt (\<lambda>x y. fst x \<ge> fst y) scores"
proof -
  have "best_of k (candidates min_sim sim {}) []" by (simp add: best_of_def candidates_def)
  from score_loop_best [OF this, of "[0..<n]"] assms(1)
  have h: "best_of k (candidates min_sim sim {..<n}) heap"
    by (simp add: heap_def atLeast0LessThan)
  have s: "mset scores = mset heap" "sorted_wrt (\<lambda>x y. fst x \<ge> fst y) scores"
    using drain_sorted [of heap "length heap" "[]"] by (simp_all add: scores_def)
  have "set scores = set heap" "length scores = length heap" "distinct scores = distinct heap"
    using s(1) by (metis mset_eq_setD, metis size_mset, metis mset_eq_imp_distinct_iff)
  with h s(2) show ?thesis by (simp add: best_of_def)
qed

end

text \<open>One heap that meets the contract: the first of the least scores.\<close>

fun first_min :: "score list \<Rightarrow> score" where
  "first_min [] = (0, 0)"
| "first_min [e] = e"
| "first_min (e # f # h) = (let m = first_min (f # h) in if fst e \<le> fst m then e else m)"

interpretation fm: score_heap first_min
proof
  show "h \<noteq> [] \<Longrightarrow> first_min h \<in> set h" for h
    by (induction h rule: first_min.induct) (auto simp: Let_def)
  show "e \<in> set h \<Longrightarrow> fst (first_min h) \<le> fst e" for e h
    by (induction h rule: first_min.induct) (auto simp: Let_def)
qed

end
