(* ===== verification/Vector_Properties.thy ===== *)
theory Vector_Properties
  imports Vector_Store
begin

text \<open>
  The properties of the vector store: the SIMD kernels compute the plain sums, the operations
  implement a map from ids to documents, and a search returns the best documents in order.
\<close>

subsection \<open>Search over the abstract store\<close>

text \<open>The similarity of a query to the stored vector of an id, in terms of the abstract store.\<close>

definition view_similarity :: "bool \<Rightarrow> real list \<Rightarrow> VectorStore \<Rightarrow> string \<Rightarrow> real" where
  "view_similarity avx query s k =
     (case store_view s k of None \<Rightarrow> 0 | Some (_, _, v) \<Rightarrow> dot (normalizeVector avx (fit_row query)) v)"

definition admitted :: "bool \<Rightarrow> real list \<Rightarrow> real \<Rightarrow> VectorStore \<Rightarrow> string set" where
  "admitted avx query min_sim s = {k. store_view s k \<noteq> None \<and> view_similarity avx query s k \<ge> min_sim}"

lemma length_fit_row [simp]: "length (fit_row v) = DIM"
  by (simp add: fit_row_def)

lemma view_similarity_row:
  assumes "vs_inv s" "i < length (doc_ids s)"
  shows "row_similarity avx (normalizeVector avx (fit_row query)) s i = view_similarity avx query s (doc_ids s ! i)"
proof -
  obtain d where d: "map_of (documents s) (doc_ids s ! i) = Some d" "matrix_index d = i"
    using vs_inv_row [OF assms] by blast
  have "length (row i (matrix s)) = DIM"
    using le_length [OF assms(2)] by (intro length_row) (simp add: vs_inv_length [OF assms(1)])
  with d show ?thesis
    by (simp add: row_similarity_def view_similarity_def store_view_def dotProduct_dot)
qed

lemma doc_ids_distinct:
  assumes "vs_inv s"
  shows "distinct (doc_ids s)"
  unfolding distinct_conv_nth
proof (intro allI impI notI)
  fix i j assume h: "i < length (doc_ids s)" "j < length (doc_ids s)" "i \<noteq> j" "doc_ids s ! i = doc_ids s ! j"
  obtain d where d: "map_of (documents s) (doc_ids s ! i) = Some d" "matrix_index d = i"
    using vs_inv_row [OF assms h(1)] by blast
  obtain e where e: "map_of (documents s) (doc_ids s ! j) = Some e" "matrix_index e = j"
    using vs_inv_row [OF assms h(2)] by blast
  have "d = e" using d(1) e(1) unfolding h(4) by simp
  with d(2) e(2) h(3) show False by simp
qed

lemma stored_iff:
  assumes "vs_inv s"
  shows "store_view s k \<noteq> None \<longleftrightarrow> (\<exists>i < length (doc_ids s). doc_ids s ! i = k)"
proof
  assume "store_view s k \<noteq> None"
  then obtain d where "map_of (documents s) k = Some d" by (auto simp: store_view_def split: option.splits)
  from vs_inv_index [OF assms this] show "\<exists>i < length (doc_ids s). doc_ids s ! i = k" by blast
next
  assume "\<exists>i < length (doc_ids s). doc_ids s ! i = k"
  then obtain i where i: "i < length (doc_ids s)" "doc_ids s ! i = k" by blast
  from vs_inv_row [OF assms i(1)] show "store_view s k \<noteq> None" unfolding i(2) by (auto simp: store_view_def)
qed

lemma documents_empty:
  assumes "vs_inv s" "documents s = []"
  shows "doc_ids s = []"
proof -
  have "\<not> 0 < length (doc_ids s)" using vs_inv_row [OF assms(1), of 0] assms(2) by auto
  then show ?thesis by simp
qed

lemma score_result_id:
  assumes "vs_inv s" "i < length (doc_ids s)"
  shows "sr_id (score_result s (x, i)) = doc_ids s ! i" "similarity (score_result s (x, i)) = x"
    "\<exists>v. store_view s (doc_ids s ! i) =
       Some (sr_text (score_result s (x, i)), sr_metadata (score_result s (x, i)), v)"
  using vs_inv_row [OF assms] by (auto simp: score_result_def store_view_def)

lemma searchByVector_unfold:
  assumes "query \<noteq> []" "0 < k" "vs_inv s"
    and "heap = score_loop pick k min_sim (row_similarity avx (normalizeVector avx (fit_row query)) s)
           [0..<length (doc_ids s)] []"
  shows "searchByVector pick avx query k min_sim s = map (score_result s) (drain pick (length heap) heap [])"
proof (cases "documents s = []")
  case True
  from documents_empty [OF assms(3) True] assms(4) have "heap = []" by simp
  with True show ?thesis by (simp add: searchByVector_def)
next
  case False
  with assms show ?thesis by (simp add: searchByVector_def Let_def)
qed

context score_heap begin

text \<open>The candidates of the loop are the admitted ids, one row each.\<close>

lemma candidate_ids:
  assumes inv: "vs_inv s"
    and C: "C = candidates min_sim (row_similarity avx (normalizeVector avx (fit_row query)) s) {..<length (doc_ids s)}"
  shows "inj_on (\<lambda>e. doc_ids s ! snd e) C" "(\<lambda>e. doc_ids s ! snd e) ` C = admitted avx query min_sim s"
    "e \<in> C \<Longrightarrow> snd e < length (doc_ids s) \<and> fst e = view_similarity avx query s (doc_ids s ! snd e)"
proof -
  let ?sim = "row_similarity avx (normalizeVector avx (fit_row query)) s"
  have C: "C = (\<lambda>i. (?sim i, i)) ` {i \<in> {..<length (doc_ids s)}. ?sim i \<ge> min_sim}"
    by (simp add: C candidates_def)
  show "inj_on (\<lambda>e. doc_ids s ! snd e) C"
    unfolding C by (rule inj_onI) (auto simp: nth_eq_iff_index_eq [OF doc_ids_distinct [OF inv]])
  show "(\<lambda>e. doc_ids s ! snd e) ` C = admitted avx query min_sim s"
  proof (rule set_eqI)
    fix k
    have "k \<in> (\<lambda>e. doc_ids s ! snd e) ` C \<longleftrightarrow> (\<exists>i < length (doc_ids s). ?sim i \<ge> min_sim \<and> k = doc_ids s ! i)"
      unfolding C by force
    also have "\<dots> \<longleftrightarrow> k \<in> admitted avx query min_sim s"
      unfolding admitted_def mem_Collect_eq stored_iff [OF inv] using view_similarity_row [OF inv, of _ avx query] by metis
    finally show "k \<in> (\<lambda>e. doc_ids s ! snd e) ` C \<longleftrightarrow> k \<in> admitted avx query min_sim s" .
  qed
  show "e \<in> C \<Longrightarrow> snd e < length (doc_ids s) \<and> fst e = view_similarity avx query s (doc_ids s ! snd e)"
    unfolding C using view_similarity_row [OF inv, of _ avx query] by auto
qed

lemma search_best:
  assumes inv: "vs_inv s" and q: "query \<noteq> []" "0 < k"
    and res: "res = searchByVector pick avx query k min_sim s"
  shows "sorted_wrt (\<lambda>x y. similarity x \<ge> similarity y) res \<and> distinct (map sr_id res) \<and>
    length res = min k (card (admitted avx query min_sim s)) \<and>
    (\<forall>r \<in> set res. sr_id r \<in> admitted avx query min_sim s \<and>
       similarity r = view_similarity avx query s (sr_id r) \<and>
       (\<exists>v. store_view s (sr_id r) = Some (sr_text r, sr_metadata r, v)) \<and>
       (\<forall>i \<in> admitted avx query min_sim s - sr_id ` set res. view_similarity avx query s i \<le> similarity r))"
proof -
  let ?sim = "row_similarity avx (normalizeVector avx (fit_row query)) s"
  define C where "C = candidates min_sim ?sim {..<length (doc_ids s)}"
  define scores where "scores = (let heap = score_loop pick k min_sim ?sim [0..<length (doc_ids s)] [] in drain pick (length heap) heap [])"
  have r: "res = map (score_result s) scores"
    using searchByVector_unfold [OF q inv refl] by (simp add: res scores_def Let_def)
  have b: "best_of k C scores" "sorted_wrt (\<lambda>x y. fst x \<ge> fst y) scores"
    using search_scores [OF q(2) refl refl, of min_sim ?sim "length (doc_ids s)"] by (simp_all add: C_def scores_def Let_def)
  note ids = candidate_ids [OF inv C_def]
  have sub: "set scores \<subseteq> C" and dist: "distinct scores" and len: "length scores = min k (card C)"
    and out: "\<And>c h. c \<in> C - set scores \<Longrightarrow> h \<in> set scores \<Longrightarrow> fst c \<le> fst h"
    using b(1) by (auto simp: best_of_def)
  have sid: "sr_id (score_result s e) = doc_ids s ! snd e" "similarity (score_result s e) = fst e"
    "\<exists>v. store_view s (doc_ids s ! snd e) = Some (sr_text (score_result s e), sr_metadata (score_result s e), v)"
    if "e \<in> C" for e
    using score_result_id [OF inv ids(3) [OF that, THEN conjunct1], of "fst e"] unfolding prod.collapse by blast+
  have map_ids: "map sr_id res = map (\<lambda>e. doc_ids s ! snd e) scores"
    using sub sid(1) by (auto simp: r)
  have "sorted_wrt (\<lambda>x y. similarity x \<ge> similarity y) res"
    unfolding r sorted_wrt_map by (rule sorted_wrt_mono_rel [OF _ b(2)]) (use sub in \<open>auto simp del: split_paired_All simp: sid(2) subset_iff\<close>)
  moreover have "distinct (map sr_id res)"
    unfolding map_ids distinct_map using dist inj_on_subset [OF ids(1) sub] by blast
  moreover have "length res = min k (card (admitted avx query min_sim s))"
    using len card_image [OF ids(1)] by (simp add: r ids(2))
  moreover have "view_similarity avx query s i \<le> similarity (score_result s e)"
    if e: "e \<in> set scores" and i: "i \<in> admitted avx query min_sim s" "i \<notin> sr_id ` set res" for e i
  proof -
    from i(1) obtain c where c: "c \<in> C" "i = doc_ids s ! snd c" unfolding ids(2) [symmetric] by blast
    have "c \<notin> set scores"
    proof
      assume "c \<in> set scores"
      then have "sr_id (score_result s c) \<in> sr_id ` set res" unfolding r by simp
      with i(2) c sid(1) [OF c(1)] show False by simp
    qed
    moreover have "e \<in> C" using e sub by blast
    ultimately show ?thesis using out [OF _ e, of c] c ids(3) [OF c(1)] sid(2) [of e] by simp
  qed
  moreover have "sr_id (score_result s e) \<in> admitted avx query min_sim s \<and>
      similarity (score_result s e) = view_similarity avx query s (sr_id (score_result s e)) \<and>
      (\<exists>v. store_view s (sr_id (score_result s e)) = Some (sr_text (score_result s e), sr_metadata (score_result s e), v))"
    if "e \<in> set scores" for e
  proof -
    have e: "e \<in> C" using that sub by blast
    then show ?thesis using sid [OF e] ids(3) [OF e] unfolding ids(2) [symmetric] by auto
  qed
  ultimately show ?thesis by (simp add: r)
qed

end

lemma embedding_normalized: "\<exists>v. length v = DIM \<and> computeDeterministicEmbedding avx t = normalizeVector avx v"
proof (cases "t = []")
  case True
  have "dot (zeros n) (zeros n) = 0" for n by (induction n) (simp_all add: zeros_def)
  then have "normalizeVector avx (zeros DIM) = zeros DIM"
    by (simp add: normalizeVector_def Let_def dotProduct_dot)
  with True show ?thesis by (intro exI [of _ "zeros DIM"]) (simp add: computeDeterministicEmbedding_def)
next
  case False
  then show ?thesis
    by (intro exI [of _ "embed_loop t (zeros DIM)"]) (simp add: computeDeterministicEmbedding_def length_embed_loop)
qed

subsection \<open>Properties\<close>

text \<open>
  C17: for vectors of equal length the AVX2 kernels (accumulators over 32 or 16 floats, blocks of
  8, a horizontal sum and a scalar tail) and the unrolled scalar loops compute one and the same
  sum of products over exact arithmetic, and so does the pass that feeds the cosine.
\<close>

theorem vector_kernels_agree:
  assumes "length a = length b"
  shows "dotProduct True a b = dot a b \<and> dotProduct False a b = dot a b \<and>
    cos_sum_avx a b = dot a b \<and> cos_sum_scalar a b = dot a b \<and>
    cosineSimilarity True a b = cosineSimilarity False a b"
  using assms by (simp add: dotProduct_dot cos_avx cos_scalar cosineSimilarity_def Let_def)

theorem vector_kernels_agree_witness:
  "dotProduct True (map real [0..<43]) (replicate 43 2) = dot (map real [0..<43]) (replicate 43 2) \<and>
   dot (map real [0..<43]) (replicate 43 2) = 1806"
proof
  show "dotProduct True (map real [0..<43]) (replicate 43 2) = dot (map real [0..<43]) (replicate 43 2)"
    by (rule vector_kernels_agree [THEN conjunct1]) simp
  show "dot (map real [0..<43]) (replicate 43 2) = 1806"
    by (simp add: numeral_eq_Suc upt_conv_Cons)
qed

text \<open>
  C11: the store implements a map from ids to text, metadata and vector. Adding a document sets
  its entry to the normalised given vector or to the embedding of the text, also when the id
  is present; removing one deletes its entry alone, although it moves the last row of the matrix
  into the hole, and reports whether the id was there; clearing empties the map. The invariant
  of rows, ids and indices is kept.
\<close>

theorem store_refines_map:
  assumes "vs_inv s"
  shows "vs_inv (snd (addDocument avx i text meta custom s)) \<and>
    store_view (snd (addDocument avx i text meta custom s)) = (store_view s)(i \<mapsto> (text, meta,
      if custom \<noteq> [] then normalizeVector avx (fit_row custom) else computeDeterministicEmbedding avx text)) \<and>
    vs_inv (snd (removeDocument i s)) \<and> store_view (snd (removeDocument i s)) = (store_view s)(i := None) \<and>
    (fst (removeDocument i s) \<longleftrightarrow> store_view s i \<noteq> None) \<and>
    vs_inv (clear_store s) \<and> store_view (clear_store s) = Map.empty"
  using addDocument_refines [OF assms refl] removeDocument_refines [OF assms]
  by (simp add: vs_inv_clear fun_eq_iff)

definition demo_store :: VectorStore where
  "demo_store = snd (addDocument False ''b'' ''y'' [] [0, 2] (snd (addDocument False ''a'' ''x'' [] [1] new_VectorStore)))"

theorem store_refines_map_witness:
  "vs_inv demo_store \<and> store_view (snd (removeDocument ''a'' demo_store)) ''a'' = None"
proof -
  have "vs_inv demo_store"
    unfolding demo_store_def
    by (rule store_refines_map [THEN conjunct1, OF store_refines_map [THEN conjunct1, OF vs_inv_new]])
  then show ?thesis using store_refines_map [of demo_store False "''a''" "[]" "[]" "[]"] by simp
qed

text \<open>
  C12: with any heap that keeps a least score on top, a search returns each document at most once,
  best first, exactly \<open>min top_k n\<close> of the \<open>n\<close> documents whose similarity reaches the threshold,
  each with its own text, metadata and similarity, and no document left out is better than one
  returned.
\<close>

theorem search_returns_best:
  assumes "score_heap pick" "vs_inv s" "query \<noteq> []" "0 < k"
    and "res = searchByVector pick avx query k min_sim s"
  shows "sorted_wrt (\<lambda>x y. similarity x \<ge> similarity y) res \<and> distinct (map sr_id res) \<and>
    length res = min k (card (admitted avx query min_sim s)) \<and>
    (\<forall>r \<in> set res. sr_id r \<in> admitted avx query min_sim s \<and>
       similarity r = view_similarity avx query s (sr_id r) \<and>
       (\<exists>v. store_view s (sr_id r) = Some (sr_text r, sr_metadata r, v)) \<and>
       (\<forall>i \<in> admitted avx query min_sim s - sr_id ` set res. view_similarity avx query s i \<le> similarity r))"
  using assms by (rule score_heap.search_best)

lemma demo_store_inv: "vs_inv demo_store"
  by (simp add: demo_store_def addDocument_refines vs_inv_new)

theorem search_returns_best_witness:
  "sorted_wrt (\<lambda>x y. similarity x \<ge> similarity y) (searchByVector first_min True [1] 1 0 demo_store) \<and>
   length (searchByVector first_min True [1] 1 0 demo_store) = min 1 (card (admitted True [1] 0 demo_store))"
  using search_returns_best [OF fm.score_heap_axioms demo_store_inv, of "[1]" 1 _ True 0, OF _ _ refl] by simp

text \<open>
  the embedding does not depend on the case of the text, has 128 entries, and is a unit
  vector unless no feature is left in it; so the similarity of two embeddings, which the
  comment on the result type gives as 0 to 1, lies between -1 and 1.
\<close>

theorem embedding_right:
  "computeDeterministicEmbedding avx (lower text) = computeDeterministicEmbedding avx text \<and>
   length (computeDeterministicEmbedding avx text) = 128 \<and>
   dot (computeDeterministicEmbedding avx text) (computeDeterministicEmbedding avx text) \<in> {0, 1} \<and>
   \<bar>dotProduct avx (computeDeterministicEmbedding avx text) (computeDeterministicEmbedding avx other)\<bar> \<le> 1"
proof (intro conjI)
  let ?e = "computeDeterministicEmbedding avx"
  obtain v w where e: "?e text = normalizeVector avx v" "?e other = normalizeVector avx w" "length v = length w"
    using embedding_normalized [of avx "text"] embedding_normalized [of avx other] by metis
  show "?e (lower text) = ?e text" by (rule embedding_lower)
  show "length (?e text) = 128" by (simp add: length_embedding DEFAULT_EMBEDDING_DIM_def)
  show "dot (?e text) (?e text) \<in> {0, 1}"
    unfolding e by (simp add: normalized_norm)
  show "\<bar>dotProduct avx (?e text) (?e other)\<bar> \<le> 1"
    using normalized_dot_bound [OF e(3), of avx] e(3) unfolding e(1,2) by (simp add: dotProduct_dot)
qed

end
