(* ===== verification/Line_Reader.thy ===== *)
theory Line_Reader
  imports Char_Class
begin

text \<open>
  The line reader of \<open>src/src/cli/LineReader.h\<close> and \<open>LineReader.cpp\<close>: the history and its file,
  multi-line input, and the line editor with its key bindings.

  \<^item> The file is its content, \<open>None\<close> when it cannot be opened; standard input is the list of the
    lines still to be read; the keyboard is the list of the codes \<open>_getch\<close> will return. What is
    drawn on the terminal is left out.
  \<^item> \<open>std::string::insert\<close> and \<open>erase\<close> throw when the position is beyond the end, and an index out
    of range of the history is undefined: both are \<open>None\<close>, and the editor's outcome is \<open>Threw\<close>.
\<close>

subsection \<open>History\<close>

record LineReader =
  history_file :: string
  history :: "string list"
  max_history_size :: nat
  multiline_mode :: bool

definition getDefaultHistoryFilePath :: "(string \<Rightarrow> string option) \<Rightarrow> string" where
  "getDefaultHistoryFilePath env =
     (case env ''AIOS_HISTORY_FILE'' of
        Some (c # p) \<Rightarrow> c # p
      | _ \<Rightarrow> (case env ''HOME'' of
                Some (c # p) \<Rightarrow> (c # p) @ ''/.aios_history''
              | _ \<Rightarrow> ''.aios_history''))"

fun load_lines :: "string list \<Rightarrow> string list \<Rightarrow> string list" where
  "load_lines [] h = h"
| "load_lines (l # ls) h =
     (let line = strip_cr l
      in load_lines ls
           (if trim line = [] then h
            else if h = [] \<or> last h \<noteq> line then h @ [line] else h))"

definition loadHistory :: "string option \<Rightarrow> LineReader \<Rightarrow> LineReader" where
  "loadHistory content r =
     (case content of None \<Rightarrow> r\<lparr>history := []\<rparr>
      | Some c \<Rightarrow>
          let h = load_lines (getlines [] c) []
          in r\<lparr>history := (if length h > max_history_size r then drop (length h - max_history_size r) h else h)\<rparr>)"

text \<open>The content of the file afterwards; \<open>opens\<close> says whether it can be opened for writing.\<close>

definition saveHistory :: "bool \<Rightarrow> LineReader \<Rightarrow> string option \<Rightarrow> string option" where
  "saveHistory opens r old =
     (if history_file r = [] then old
      else if \<not> opens then old
      else Some (concat (map (\<lambda>line. line @ [newline]) (history r))))"

definition new_LineReader :: "(string \<Rightarrow> string option) \<Rightarrow> string \<Rightarrow> string option \<Rightarrow> LineReader" where
  "new_LineReader env path content =
     loadHistory content
       \<lparr>history_file = (if path = [] then getDefaultHistoryFilePath env else path), history = [],
        max_history_size = 10000, multiline_mode = False\<rparr>"

definition addHistory :: "string \<Rightarrow> LineReader \<Rightarrow> LineReader" where
  "addHistory line r =
     (if trim line = [] then r
      else if history r \<noteq> [] \<and> last (history r) = line then r
      else let h = history r @ [line]
           in r\<lparr>history := (if length h > max_history_size r then tl h else h)\<rparr>)"

definition getHistory :: "nat \<Rightarrow> LineReader \<Rightarrow> string list" where
  "getHistory limit r =
     (if history r = [] \<or> limit = 0 then []
      else drop (length (history r) - min limit (length (history r))) (history r))"

definition clearHistory :: "bool \<Rightarrow> LineReader \<Rightarrow> string option \<Rightarrow> LineReader \<times> string option" where
  "clearHistory opens r old = (let r' = r\<lparr>history := []\<rparr> in (r', saveHistory opens r' old))"

subsection \<open>Multi-line input\<close>

fun readMultiline :: "string list \<Rightarrow> bool \<Rightarrow> string \<Rightarrow> string \<times> string list" where
  "readMultiline [] first out = (out, [])"
| "readMultiline (l # ls) first out =
     (let line = strip_cr l
      in if trim line = ''.'' then (out, ls)
         else readMultiline ls False (out @ (if first then [] else [newline]) @ line))"

subsection \<open>The line editor\<close>

record edit_state =
  buffer :: string
  cursor :: nat
  history_index :: nat
  temp_buffer :: string

definition edit_start :: "string list \<Rightarrow> edit_state" where
  "edit_start h = \<lparr>buffer = [], cursor = 0, history_index = length h, temp_buffer = []\<rparr>"

definition str_insert :: "nat \<Rightarrow> char \<Rightarrow> string \<Rightarrow> string option" where
  "str_insert i c s = (if i > length s then None else Some (take i s @ c # drop i s))"

definition str_erase :: "nat \<Rightarrow> string \<Rightarrow> string option" where
  "str_erase i s = (if i > length s then None else Some (take i s @ drop (i + 1) s))"

definition list_at :: "'a list \<Rightarrow> nat \<Rightarrow> 'a option" where
  "list_at xs i = (if i < length xs then Some (xs ! i) else None)"

definition show_line :: "string \<Rightarrow> edit_state \<Rightarrow> edit_state" where
  "show_line b e = e\<lparr>buffer := b, cursor := length b\<rparr>"

definition key_up :: "string list \<Rightarrow> edit_state \<Rightarrow> edit_state option" where
  "key_up h e =
     (if history_index e > 0 then
        let e1 = (if history_index e = length h then e\<lparr>temp_buffer := buffer e\<rparr> else e);
            i = history_index e - 1
        in map_option (\<lambda>b. show_line b (e1\<lparr>history_index := i\<rparr>)) (list_at h i)
      else Some e)"

definition key_down :: "string list \<Rightarrow> edit_state \<Rightarrow> edit_state option" where
  "key_down h e =
     (if history_index e < length h then
        let i = history_index e + 1; e1 = e\<lparr>history_index := i\<rparr>
        in if i = length h then Some (show_line (temp_buffer e) e1)
           else map_option (\<lambda>b. show_line b e1) (list_at h i)
      else Some e)"

text \<open>The second code of an extended key: arrows, Home, End, Delete.\<close>

definition ext_key :: "string list \<Rightarrow> int \<Rightarrow> edit_state \<Rightarrow> edit_state option" where
  "ext_key h ext e =
     (if ext = 72 then key_up h e
      else if ext = 80 then key_down h e
      else if ext = 75 then Some (if cursor e > 0 then e\<lparr>cursor := cursor e - 1\<rparr> else e)
      else if ext = 77 then Some (if cursor e < length (buffer e) then e\<lparr>cursor := cursor e + 1\<rparr> else e)
      else if ext = 71 then Some (e\<lparr>cursor := 0\<rparr>)
      else if ext = 79 then Some (e\<lparr>cursor := length (buffer e)\<rparr>)
      else if ext = 83 then
        (if cursor e < length (buffer e)
         then map_option (\<lambda>b. e\<lparr>buffer := b\<rparr>) (str_erase (cursor e) (buffer e)) else Some e)
      else Some e)"

text \<open>Backspace, Tab, Ctrl+A, Ctrl+E, Ctrl+U, Ctrl+C and the printable characters.\<close>

definition plain_key :: "(string \<Rightarrow> string list) option \<Rightarrow> int \<Rightarrow> edit_state \<Rightarrow> edit_state option" where
  "plain_key complete ch e =
     (if ch = 8 then
        (if cursor e > 0
         then map_option (\<lambda>b. e\<lparr>buffer := b, cursor := cursor e - 1\<rparr>) (str_erase (cursor e - 1) (buffer e))
         else Some e)
      else if ch = 9 then
        Some (case complete of None \<Rightarrow> e
              | Some f \<Rightarrow> (case f (buffer e) of [c] \<Rightarrow> show_line c e | _ \<Rightarrow> e))
      else if ch = 1 then Some (e\<lparr>cursor := 0\<rparr>)
      else if ch = 5 then Some (e\<lparr>cursor := length (buffer e)\<rparr>)
      else if ch = 21 then Some (e\<lparr>buffer := [], cursor := 0\<rparr>)
      else if ch = 3 then Some (e\<lparr>buffer := [], cursor := 0\<rparr>)
      else if ch = 4 then Some e
      else if 32 \<le> ch \<and> ch \<le> 126 then
        map_option (\<lambda>b. e\<lparr>buffer := b, cursor := cursor e + 1\<rparr>)
          (str_insert (cursor e) (char_of (nat ch)) (buffer e))
      else Some e)"

text \<open>The last entry before index \<open>i\<close> that contains the query.\<close>

fun find_before :: "string list \<Rightarrow> string \<Rightarrow> nat \<Rightarrow> nat option" where
  "find_before h q 0 = None"
| "find_before h q (Suc i) = (if contains (h ! i) q then Some i else find_before h q i)"

definition update_search :: "string list \<Rightarrow> string \<Rightarrow> nat \<Rightarrow> string \<times> nat" where
  "update_search h q idx =
     (if q = [] then ([], idx)
      else case find_before h q (length h) of None \<Rightarrow> ([], idx) | Some i \<Rightarrow> (h ! i, i))"

text \<open>The search mode: the entry it returns and the keys left, or \<open>None\<close> while it waits for more.\<close>

fun handleReverseSearch :: "string list \<Rightarrow> int list \<Rightarrow> string \<Rightarrow> string \<Rightarrow> nat \<Rightarrow> (string \<times> int list) option" where
  "handleReverseSearch h [] q m idx = None"
| "handleReverseSearch h (ch # ks) q m idx =
     (if ch = 27 \<or> ch = 3 then Some ([], ks)
      else if ch = 13 \<or> ch = 10 then Some (m, ks)
      else if ch = 8 then
        (if q \<noteq> [] then
           (case update_search h (butlast q) idx of (m', idx') \<Rightarrow> handleReverseSearch h ks (butlast q) m' idx')
         else handleReverseSearch h ks q m idx)
      else if ch = 18 then
        (if idx > 0 \<and> q \<noteq> [] then
           (case find_before h q idx of
              None \<Rightarrow> handleReverseSearch h ks q m idx
            | Some i \<Rightarrow> handleReverseSearch h ks q (h ! i) i)
         else handleReverseSearch h ks q m idx)
      else if 32 \<le> ch \<and> ch \<le> 126 then
        (let q' = q @ [char_of (nat ch)]
         in case update_search h q' idx of (m', idx') \<Rightarrow> handleReverseSearch h ks q' m' idx')
      else handleReverseSearch h ks q m idx)"

lemma search_shorter: "handleReverseSearch h ks q m idx = Some (b, ks') \<Longrightarrow> length ks' < length ks"
  by (induction h ks q m idx rule: handleReverseSearch.induct)
    (auto simp: Let_def intro: less_SucI split: if_splits prod.splits option.splits)

text \<open>
  A line, with the keys and the input lines that are left; \<open>Starved\<close> while the editor waits for
  a key.
\<close>

datatype edit_outcome = Line string "int list" "string list" | Starved | Threw

definition finish_line :: "string \<Rightarrow> int list \<Rightarrow> string list \<Rightarrow> edit_outcome" where
  "finish_line b ks input =
     (if b \<noteq> [] \<and> last b = CHR 0x5C then
        (case input of [] \<Rightarrow> Line (butlast b) ks []
         | l # ls \<Rightarrow> Line (butlast b @ newline # strip_cr l) ks ls)
      else Line b ks input)"

function (sequential) edit_loop ::
  "string list \<Rightarrow> (string \<Rightarrow> string list) option \<Rightarrow> int list \<Rightarrow> string list \<Rightarrow> edit_state \<Rightarrow> edit_outcome" where
  "edit_loop h complete [] input e = Starved"
| "edit_loop h complete (ch # ks) input e =
     (if ch = 0 \<or> ch = 224 then
        (case ks of [] \<Rightarrow> Starved
         | ext # ks' \<Rightarrow>
             (case ext_key h ext e of None \<Rightarrow> Threw | Some e' \<Rightarrow> edit_loop h complete ks' input e'))
      else if ch = 13 \<or> ch = 10 then finish_line (buffer e) ks input
      else if ch = 18 then
        (case handleReverseSearch h ks [] [] (length h) of None \<Rightarrow> Starved
         | Some (m, ks') \<Rightarrow> edit_loop h complete ks' input (if m \<noteq> [] then show_line m e else e))
      else if ch = 4 \<and> buffer e = [] then Line ''/exit'' ks input
      else (case plain_key complete ch e of None \<Rightarrow> Threw | Some e' \<Rightarrow> edit_loop h complete ks input e'))"
  by pat_completeness auto
termination
  by (relation "measure (\<lambda>(h, complete, ks, input, e). length ks)") (auto dest: search_shorter)

declare edit_loop.simps [simp del]

text \<open>Without a terminal, and in the POSIX build, a line is read as it is.\<close>

definition plain_line :: "int list \<Rightarrow> string list \<Rightarrow> edit_outcome" where
  "plain_line ks input = (case input of [] \<Rightarrow> Line [] ks [] | l # ls \<Rightarrow> Line (strip_cr l) ks ls)"

definition readLine :: "bool \<Rightarrow> bool \<Rightarrow> (string \<Rightarrow> string list) option \<Rightarrow> int list \<Rightarrow> string list \<Rightarrow> LineReader \<Rightarrow> edit_outcome" where
  "readLine windows tty complete ks input r =
     (if multiline_mode r then (case readMultiline input True [] of (out, ls) \<Rightarrow> Line out ks ls)
      else if \<not> tty then plain_line ks input
      else if windows then edit_loop (history r) complete ks input (edit_start (history r))
      else plain_line ks input)"

end
