(* ===== verification/Line_Reader_Properties.thy ===== *)
theory Line_Reader_Properties
  imports Line_Reader
begin

text \<open>
  The properties of the line reader: the editor never reads or writes outside its buffer or the
  history, the history is bounded and has no repetition, its file gives it back, and browsing the
  history does not lose what was typed.
\<close>

subsection \<open>Positions stay in range\<close>

definition edit_ok :: "string list \<Rightarrow> edit_state \<Rightarrow> bool" where
  "edit_ok h e \<longleftrightarrow> cursor e \<le> length (buffer e) \<and> history_index e \<le> length h"

lemma show_line_simps [simp]:
  "buffer (show_line b e) = b" "cursor (show_line b e) = length b" "history_index (show_line b e) = history_index e"
  "temp_buffer (show_line b e) = temp_buffer e"
  by (simp_all add: show_line_def)

lemma edit_okI: "cursor e \<le> length (buffer e) \<Longrightarrow> history_index e \<le> length h \<Longrightarrow> edit_ok h e"
  by (simp add: edit_ok_def)

definition edit_good :: "string list \<Rightarrow> edit_state option \<Rightarrow> bool" where
  "edit_good h r \<longleftrightarrow> (\<exists>e. r = Some e \<and> edit_ok h e)"

lemma edit_good_intros:
  "edit_ok h e \<Longrightarrow> edit_good h (Some e)"
  "(P \<Longrightarrow> edit_good h x) \<Longrightarrow> (\<not> P \<Longrightarrow> edit_good h y) \<Longrightarrow> edit_good h (if P then x else y)"
  "i < length xs \<Longrightarrow> edit_ok h (f (xs ! i)) \<Longrightarrow> edit_good h (map_option f (list_at xs i))"
  "i \<le> length b \<Longrightarrow> edit_ok h (f (take i b @ drop (i + 1) b)) \<Longrightarrow> edit_good h (map_option f (str_erase i b))"
  "i \<le> length b \<Longrightarrow> edit_ok h (f (take i b @ c # drop i b)) \<Longrightarrow> edit_good h (map_option f (str_insert i c b))"
  by (auto simp: edit_good_def list_at_def str_erase_def str_insert_def)

lemma ext_key_ok:
  assumes "edit_ok h e"
  shows "edit_good h (ext_key h ext e)"
  unfolding ext_key_def key_up_def key_down_def Let_def
  by (intro edit_good_intros) (use assms in \<open>auto simp: edit_ok_def\<close>)

lemma plain_key_ok:
  assumes "edit_ok h e"
  shows "edit_good h (plain_key complete ch e)"
  unfolding plain_key_def
  by (intro edit_good_intros) (use assms in \<open>auto simp: edit_ok_def split: option.split list.split\<close>)

lemma edit_loop_in_range: "edit_ok h e \<Longrightarrow> edit_loop h complete ks input e \<noteq> Threw"
proof (induction h complete ks input e rule: edit_loop.induct)
  case (1 h complete input e)
  show ?case by (simp add: edit_loop.simps)
next
  case (2 h complete ch ks input e)
  obtain e1 where p: "plain_key complete ch e = Some e1" "edit_ok h e1"
    using plain_key_ok [OF "2.prems"] unfolding edit_good_def by blast
  have x: "\<exists>e'. ext_key h ext e = Some e' \<and> edit_ok h e'" for ext
    using ext_key_ok [OF "2.prems"] unfolding edit_good_def by blast
  have s: "edit_ok h (if m \<noteq> [] then show_line m e else e)" for m
    using "2.prems" by (simp add: edit_ok_def)
  show ?case
  proof (cases "ch = 0 \<or> ch = 224")
    case True
    then show ?thesis
    proof (cases ks)
      case Nil
      with True show ?thesis by (simp add: edit_loop.simps)
    next
      case (Cons ext ks')
      from x [of ext] obtain e' where e': "ext_key h ext e = Some e'" "edit_ok h e'" by blast
      with "2.IH"(1) [OF True Cons e'(1) e'(2)] True Cons show ?thesis by (simp add: edit_loop.simps)
    qed
  next
    case ext: False
    show ?thesis
    proof (cases "ch = 13 \<or> ch = 10")
      case True
      with ext show ?thesis by (simp add: edit_loop.simps finish_line_def split: list.splits)
    next
      case enter: False
      show ?thesis
      proof (cases "ch = 18")
        case True
        then show ?thesis
          using ext enter "2.IH"(2) [OF ext enter True _ _ s]
          by (simp add: edit_loop.simps split: option.splits prod.splits)
      next
        case False
        with ext enter p "2.IH"(3) [OF ext enter False _ p(1) p(2)] show ?thesis
          by (simp add: edit_loop.simps)
      qed
    qed
  qed
qed

text \<open>
  Whatever keys are pressed, with any completion handler and any history, the editor never
  throws: every position it passes to \<open>insert\<close> and \<open>erase\<close>, and every index into the history, is in
  range. It returns a line or waits for the next key.
\<close>

theorem editor_never_throws:
  "readLine windows tty complete ks input r \<noteq> Threw"
  using edit_loop_in_range [of "history r" "edit_start (history r)" complete ks input]
  by (auto simp: readLine_def plain_line_def edit_ok_def edit_start_def split: prod.splits list.splits)

subsection \<open>The history\<close>

definition hist_ok :: "nat \<Rightarrow> string list \<Rightarrow> bool" where
  "hist_ok m h \<longleftrightarrow> length h \<le> m \<and> distinct_adj h \<and> (\<forall>l \<in> set h. trim l \<noteq> [])"

lemma distinct_adj_tl: "distinct_adj xs \<Longrightarrow> distinct_adj (tl xs)"
  by (cases xs) (auto simp: distinct_adj_Cons)

lemma distinct_adj_drop: "distinct_adj xs \<Longrightarrow> distinct_adj (drop k xs)"
proof (induction k)
  case (Suc k)
  then show ?case using distinct_adj_tl [of "drop k xs"] by (simp add: drop_Suc tl_drop)
qed simp

lemma distinct_adj_snoc: "distinct_adj (xs @ [x]) \<longleftrightarrow> distinct_adj xs \<and> (xs = [] \<or> last xs \<noteq> x)"
  by (auto simp: distinct_adj_append_iff)

lemma load_lines_ok:
  assumes "distinct_adj h" "\<forall>l \<in> set h. trim l \<noteq> []"
  shows "distinct_adj (load_lines ls h) \<and> (\<forall>l \<in> set (load_lines ls h). trim l \<noteq> [])"
  using assms
proof (induction ls arbitrary: h)
  case (Cons l ls)
  let ?l = "strip_cr l"
  let ?h = "if trim ?l = [] then h else if h = [] \<or> last h \<noteq> ?l then h @ [?l] else h"
  have "distinct_adj ?h" using Cons.prems(1) by (simp add: distinct_adj_snoc)
  moreover have "\<forall>l \<in> set ?h. trim l \<noteq> []" using Cons.prems(2) by simp
  ultimately show ?case unfolding load_lines.simps Let_def by (rule Cons.IH)
qed simp

lemma last_tl_snoc: "xs \<noteq> [] \<Longrightarrow> last (tl (xs @ [x])) = x"
  by (cases xs) auto

lemma last_drop_one: "xs \<noteq> [] \<Longrightarrow> last (drop (length xs - Suc 0) xs) = last xs"
  by (cases xs rule: rev_cases) auto

lemma set_tl_subset: "set (tl xs) \<subseteq> set xs"
  by (cases xs) auto

lemma load_lines_clean:
  "distinct_adj (h @ ls) \<Longrightarrow> \<forall>l \<in> set ls. trim l \<noteq> [] \<and> strip_cr l = l \<Longrightarrow> load_lines ls h = h @ ls"
proof (induction ls arbitrary: h)
  case (Cons l ls)
  from Cons.prems(1) have "distinct_adj (h @ [l])"
    unfolding distinct_adj_append_iff by (auto simp: distinct_adj_Cons)
  then have "h = [] \<or> last h \<noteq> l" by (simp add: distinct_adj_snoc)
  with Cons.IH [of "h @ [l]"] Cons.prems show ?case by (auto simp: Let_def)
qed simp

text \<open>
  The history never has more than \<open>max_history_size\<close> entries, two equal entries in a row or
  a blank entry: loading any file establishes this and \<open>addHistory\<close> keeps it. A line that is
  added is the last entry afterwards unless it is blank.
\<close>

theorem history_bounded:
  assumes "hist_ok (max_history_size r) (history r)" "0 < max_history_size r"
  shows "hist_ok (max_history_size r) (history (addHistory l r)) \<and>
    (trim l \<noteq> [] \<longrightarrow> last (getHistory 1 (addHistory l r)) = l) \<and>
    hist_ok (max_history_size r) (history (loadHistory content r))"
proof (intro conjI impI)
  have l: "length (history r) \<le> max_history_size r" "distinct_adj (history r)" "\<forall>l \<in> set (history r). trim l \<noteq> []"
    using assms(1) by (simp_all add: hist_ok_def)
  have s: "distinct_adj (history r @ [l])" if "history r = [] \<or> last (history r) \<noteq> l"
    using l(2) that by (auto simp: distinct_adj_snoc)
  show "hist_ok (max_history_size r) (history (addHistory l r))"
    using l s distinct_adj_tl [OF s] set_tl_subset [of "history r @ [l]"]
    by (auto simp: addHistory_def hist_ok_def Let_def)
  show "last (getHistory 1 (addHistory l r)) = l" if "trim l \<noteq> []"
    using that assms(2) l(1) last_tl_snoc [of "history r" l]
    by (cases "history r = []") (auto simp: addHistory_def getHistory_def Let_def last_drop_one)
  show "hist_ok (max_history_size r) (history (loadHistory content r))"
    using load_lines_ok [of "[]"] distinct_adj_drop
    by (auto simp: loadHistory_def hist_ok_def Let_def split: option.splits dest: in_set_dropD)
qed

definition demo_reader :: LineReader where
  "demo_reader = \<lparr>history_file = ''h'', history = [''/run x'', ''/help''], max_history_size = 2, multiline_mode = False\<rparr>"

theorem history_bounded_witness:
  "hist_ok 2 (history (addHistory ''/exit'' demo_reader)) \<and> history (addHistory ''/exit'' demo_reader) = [''/help'', ''/exit'']"
proof -
  have ok: "hist_ok (max_history_size demo_reader) (history demo_reader)" "0 < max_history_size demo_reader"
    by code_simp+
  have "history (addHistory ''/exit'' demo_reader) = [''/help'', ''/exit'']" "max_history_size demo_reader = 2"
    by code_simp+
  with history_bounded [OF ok, of "''/exit''"] show ?thesis by simp
qed

text \<open>
  Saving the history and loading it again gives it back when no entry has a line break in it
  or ends in a carriage return. An entry with a line break, which the editor produces when a line
  ends in a backslash, comes back as two entries.
\<close>

theorem history_roundtrip:
  assumes "history_file r \<noteq> []"
  shows "(hist_ok (max_history_size r) (history r) \<longrightarrow> (\<forall>l \<in> set (history r). newline \<notin> set l \<and> strip_cr l = l) \<longrightarrow>
      loadHistory (saveHistory True r old) r = r) \<and>
    (history r = [a @ newline # b] \<and> trim a \<noteq> [] \<and> trim b \<noteq> [] \<and> a \<noteq> b \<and> 2 \<le> max_history_size r \<and>
      newline \<notin> set (a @ b) \<and> strip_cr a = a \<and> strip_cr b = b \<longrightarrow>
      history (loadHistory (saveHistory True r old) r) = [a, b])"
proof (intro conjI impI)
  assume ok: "hist_ok (max_history_size r) (history r)" and c: "\<forall>l \<in> set (history r). newline \<notin> set l \<and> strip_cr l = l"
  have "getlines [] (concat (map (\<lambda>l. l @ [newline]) (history r))) = history r"
    by (rule getlines_lines) (use c in blast)
  moreover have "load_lines (history r) [] = history r"
    using load_lines_clean [of "[]" "history r"] ok c by (simp add: hist_ok_def)
  ultimately show "loadHistory (saveHistory True r old) r = r"
    using ok assms by (simp add: loadHistory_def saveHistory_def hist_ok_def)
next
  assume h: "history r = [a @ newline # b] \<and> trim a \<noteq> [] \<and> trim b \<noteq> [] \<and> a \<noteq> b \<and> 2 \<le> max_history_size r \<and>
      newline \<notin> set (a @ b) \<and> strip_cr a = a \<and> strip_cr b = b"
  then have "getlines [] (concat (map (\<lambda>l. l @ [newline]) (history r))) = [a, b]"
    using getlines_line [of a "[]" "b @ [newline]"] getlines_line [of b "[]" "[]"] by simp
  with h assms show "history (loadHistory (saveHistory True r old) r) = [a, b]"
    by (simp add: loadHistory_def saveHistory_def)
qed

theorem history_roundtrip_witness:
  "loadHistory (saveHistory True demo_reader None) demo_reader = demo_reader \<and>
   history (loadHistory (saveHistory True (demo_reader\<lparr>history := [''x'' @ newline # ''y'']\<rparr>) None)
     (demo_reader\<lparr>history := [''x'' @ newline # ''y'']\<rparr>)) = [''x'', ''y'']"
proof
  have ok: "hist_ok (max_history_size demo_reader) (history demo_reader)" "history_file demo_reader \<noteq> []"
    "\<forall>l \<in> set (history demo_reader). newline \<notin> set l \<and> strip_cr l = l"
    by code_simp+
  with history_roundtrip [of demo_reader] show "loadHistory (saveHistory True demo_reader None) demo_reader = demo_reader"
    by blast
  let ?r = "demo_reader\<lparr>history := [''x'' @ newline # ''y'']\<rparr>"
  have "history_file ?r \<noteq> []" "history ?r = [''x'' @ newline # ''y''] \<and> trim ''x'' \<noteq> [] \<and> trim ''y'' \<noteq> [] \<and> ''x'' \<noteq> ''y'' \<and>
      2 \<le> max_history_size ?r \<and> newline \<notin> set (''x'' @ ''y'') \<and> strip_cr ''x'' = ''x'' \<and> strip_cr ''y'' = ''y''"
    by code_simp+
  with history_roundtrip [of ?r, where a = "''x''" and b = "''y''"] show "history (loadHistory (saveHistory True ?r None) ?r) = [''x'', ''y'']"
    by blast
qed

subsection \<open>Typing and browsing\<close>

definition key_of :: "char \<Rightarrow> int" where
  "key_of c = int (code_of c)"

definition printable :: "char \<Rightarrow> bool" where
  "printable c \<longleftrightarrow> 32 \<le> code_of c \<and> code_of c \<le> 126"

lemma char_of_code [simp]: "char_of (code_of c) = c"
  by (simp add: code_of_def)

lemma edit_type:
  assumes "list_all printable t" "cursor e = length (buffer e)"
  shows "edit_loop h complete (map key_of t @ ks) input e =
    edit_loop h complete ks input (e\<lparr>buffer := buffer e @ t, cursor := length (buffer e @ t)\<rparr>)"
  using assms
proof (induction t arbitrary: e)
  case (Cons c t)
  let ?e = "e\<lparr>buffer := buffer e @ [c], cursor := Suc (length (buffer e))\<rparr>"
  have "plain_key complete (key_of c) e = Some ?e"
    using Cons.prems by (simp add: plain_key_def key_of_def printable_def str_insert_def)
  then have "edit_loop h complete (map key_of (c # t) @ ks) input e = edit_loop h complete (map key_of t @ ks) input ?e"
    using Cons.prems by (simp add: edit_loop.simps key_of_def printable_def)
  with Cons.IH [of ?e] Cons.prems show ?case by simp
next
  case Nil
  then have "e\<lparr>buffer := buffer e @ [], cursor := length (buffer e @ [])\<rparr> = e"
    by (intro edit_state.equality) simp_all
  then show ?case by simp
qed

lemma key_up_eq:
  assumes "0 < history_index e" "history_index e \<le> length h"
  shows "key_up h e = Some (e\<lparr>buffer := h ! (history_index e - 1), cursor := length (h ! (history_index e - 1)),
    history_index := history_index e - 1,
    temp_buffer := (if history_index e = length h then buffer e else temp_buffer e)\<rparr>)"
  using assms by (auto simp: key_up_def list_at_def show_line_def Let_def intro!: edit_state.equality)

lemma key_down_eq:
  assumes "history_index e < length h"
  shows "key_down h e = Some (let b = (if Suc (history_index e) = length h then temp_buffer e else h ! Suc (history_index e))
    in e\<lparr>buffer := b, cursor := length b, history_index := Suc (history_index e)\<rparr>)"
  using assms by (auto simp: key_down_def list_at_def show_line_def Let_def intro!: edit_state.equality)

lemma edit_arrow:
  "edit_loop h complete (0 # ext # ks) input e =
     (case ext_key h ext e of None \<Rightarrow> Threw | Some e' \<Rightarrow> edit_loop h complete ks input e')"
  "edit_loop h complete (224 # ext # ks) input e =
     (case ext_key h ext e of None \<Rightarrow> Threw | Some e' \<Rightarrow> edit_loop h complete ks input e')"
  by (simp_all add: edit_loop.simps)

lemma ext_key_arrows: "ext_key h 72 e = key_up h e" "ext_key h 80 e = key_down h e"
  by (simp_all add: ext_key_def)

lemma edit_ups:
  assumes "k < length h" "history_index e = length h"
  shows "edit_loop h complete (concat (replicate (Suc k) [0, 72]) @ ks) input e =
    edit_loop h complete ks input (e\<lparr>buffer := h ! (length h - Suc k), cursor := length (h ! (length h - Suc k)),
      history_index := length h - Suc k, temp_buffer := buffer e\<rparr>)"
  using assms(1)
proof (induction k arbitrary: ks)
  case 0
  then show ?case
    by (simp add: edit_arrow ext_key_arrows key_up_eq assms(2))
next
  case (Suc k)
  have "concat (replicate (Suc (Suc k)) [0, 72]) @ ks = concat (replicate (Suc k) [0, 72]) @ 0 # 72 # ks"
    by (simp only: replicate_append_same [symmetric] replicate_Suc [of "Suc k"]) simp
  then have "edit_loop h complete (concat (replicate (Suc (Suc k)) [0, 72]) @ ks) input e =
      edit_loop h complete (0 # 72 # ks) input (e\<lparr>buffer := h ! (length h - Suc k),
        cursor := length (h ! (length h - Suc k)), history_index := length h - Suc k, temp_buffer := buffer e\<rparr>)"
    using Suc.IH [of "0 # 72 # ks"] Suc.prems by (simp only: Suc_lessD)
  moreover have "length h - Suc k - 1 = length h - Suc (Suc k)" "length h - Suc k > 0" "length h - Suc k \<noteq> length h"
    using Suc.prems by simp_all
  ultimately show ?case
    by (simp add: edit_arrow ext_key_arrows key_up_eq del: replicate_Suc)
qed

lemma edit_downs:
  "history_index e + Suc k = length h \<Longrightarrow> edit_loop h complete (concat (replicate (Suc k) [224, 80]) @ ks) input e =
    edit_loop h complete ks input (e\<lparr>buffer := temp_buffer e, cursor := length (temp_buffer e), history_index := length h\<rparr>)"
proof (induction k arbitrary: e)
  case 0
  then show ?case by (simp add: edit_arrow ext_key_arrows key_down_eq Let_def)
next
  case (Suc k)
  let ?i = "Suc (history_index e)"
  let ?e = "e\<lparr>buffer := h ! ?i, cursor := length (h ! ?i), history_index := ?i\<rparr>"
  have "edit_loop h complete (concat (replicate (Suc (Suc k)) [224, 80]) @ ks) input e =
      edit_loop h complete (concat (replicate (Suc k) [224, 80]) @ ks) input ?e"
    using Suc.prems by (subst replicate_Suc) (simp add: edit_arrow ext_key_arrows key_down_eq Let_def)
  with Suc.IH [of ?e] Suc.prems show ?case by simp
qed

text \<open>
  Text that is typed, with any excursion into the history after it (some presses of Up and as
  many of Down), is what Enter returns.
\<close>

theorem draft_survives_browsing:
  assumes "list_all printable t" "t = [] \<or> last t \<noteq> CHR 0x5C" "k \<le> length h"
  shows "edit_loop h complete
      (map key_of t @ concat (replicate k [0, 72]) @ concat (replicate k [224, 80]) @ 13 # ks) input (edit_start h) =
    Line t ks input"
proof -
  let ?e = "(edit_start h)\<lparr>buffer := t, cursor := length t\<rparr>"
  have enter: "edit_loop h complete (13 # ks) input e = Line t ks input" if "buffer e = t" for e
    using that assms(2) by (auto simp: edit_loop.simps finish_line_def)
  have "edit_loop h complete (concat (replicate k [0, 72]) @ concat (replicate k [224, 80]) @ 13 # ks) input ?e = Line t ks input"
  proof (cases k)
    case 0
    then show ?thesis by (simp add: enter)
  next
    case (Suc j)
    then have j: "j < length h" using assms(3) by simp
    have "edit_loop h complete (concat (replicate k [0, 72]) @ concat (replicate k [224, 80]) @ 13 # ks) input ?e =
        edit_loop h complete (concat (replicate k [224, 80]) @ 13 # ks) input
          (?e\<lparr>buffer := h ! (length h - k), cursor := length (h ! (length h - k)),
            history_index := length h - k, temp_buffer := t\<rparr>)"
      unfolding Suc using edit_ups [OF j, of ?e] by (simp add: edit_start_def del: replicate_Suc)
    also have "\<dots> = Line t ks input"
      unfolding Suc by (subst edit_downs) (use j in \<open>simp_all add: enter\<close>)
    finally show ?thesis .
  qed
  moreover have "cursor (edit_start h) = length (buffer (edit_start h))" by (simp add: edit_start_def)
  ultimately show ?thesis
    using edit_type [OF assms(1), of "edit_start h" h complete] by (simp add: edit_start_def)
qed

theorem draft_survives_browsing_witness:
  "edit_loop [''old''] None (map key_of ''new'' @ [0, 72] @ [224, 80] @ [13]) [] (edit_start [''old'']) = Line ''new'' [] []"
  using draft_survives_browsing [of "''new''" 1 "[''old'']" None "[]" "[]"]
  by (simp add: printable_def code_of_def)

end
