(* ===== verification/Command_Registry.thy ===== *)
theory Command_Registry
  imports Char_Class TaskGraph
begin

text \<open>
  The command registry of \<open>src/src/cli/SlashCommand.h\<close>, \<open>CommandRegistry.h\<close> and the last part of
  \<open>CommandRegistry.cpp\<close>: registration under a name and aliases, the tokenizer of the command line,
  the flag parser, dispatch and completion. A command is its name, aliases and category with
  what it does as functions: \<open>cmd_execute\<close> of the context and \<open>cmd_completions\<close>. The kernel, session and
  renderer that the context carries to the commands are left out.
\<close>

subsection \<open>Data\<close>

record CommandContext =
  raw_line :: string
  command_name :: string
  args :: "string list"
  flags :: "(string, string) umap"

record CommandResult =
  cr_success :: bool
  cr_output :: string
  cr_error_message :: string
  exit_code :: int
  should_exit :: bool

definition result_ok :: "string \<Rightarrow> CommandResult" where
  "result_ok out = \<lparr>cr_success = True, cr_output = out, cr_error_message = [], exit_code = 0, should_exit = False\<rparr>"

definition result_error :: "string \<Rightarrow> int \<Rightarrow> CommandResult" where
  "result_error err code =
     \<lparr>cr_success = False, cr_output = [], cr_error_message = err, exit_code = code, should_exit = False\<rparr>"

definition result_exit :: CommandResult where
  "result_exit = (result_ok [])\<lparr>should_exit := True\<rparr>"

record SlashCommand =
  getName :: string
  getAliases :: "string list"
  getCategory :: string
  cmd_execute :: "CommandContext \<Rightarrow> CommandResult"
  cmd_completions :: "string list \<Rightarrow> nat \<Rightarrow> string list"

record CommandRegistry =
  commands :: "(string, SlashCommand) umap"
  alias_map :: "(string, string) umap"

definition new_CommandRegistry :: CommandRegistry where
  "new_CommandRegistry = \<lparr>commands = [], alias_map = []\<rparr>"

subsection \<open>Registration and lookup\<close>

fun add_aliases :: "string \<Rightarrow> string list \<Rightarrow> (string, string) umap \<Rightarrow> (string, string) umap" where
  "add_aliases n [] m = m"
| "add_aliases n (a # as) m = add_aliases n as (AList.update (lower a) n m)"

text \<open>\<open>None\<close> is the null pointer.\<close>

definition registerCommand :: "SlashCommand option \<Rightarrow> CommandRegistry \<Rightarrow> CommandRegistry" where
  "registerCommand cmd r =
     (case cmd of None \<Rightarrow> r
      | Some c \<Rightarrow>
          let name = lower (getName c)
          in r\<lparr>commands := AList.update name c (commands r),
               alias_map := add_aliases name (getAliases c) (alias_map r)\<rparr>)"

definition getCommand :: "string \<Rightarrow> CommandRegistry \<Rightarrow> SlashCommand option" where
  "getCommand name r =
     (let key = lower name
      in case map_of (commands r) key of
           Some c \<Rightarrow> Some c
         | None \<Rightarrow> (case map_of (alias_map r) key of
               None \<Rightarrow> None
             | Some n \<Rightarrow> map_of (commands r) n))"

definition getAllCommands :: "CommandRegistry \<Rightarrow> SlashCommand list" where
  "getAllCommands r = map snd (commands r)"

definition getCommandsByCategory :: "string \<Rightarrow> CommandRegistry \<Rightarrow> SlashCommand list" where
  "getCommandsByCategory k r = filter (\<lambda>c. getCategory c = k) (map snd (commands r))"

text \<open>
  The commands that \<open>registerBuiltinCommands\<close> registers, in its order: name, aliases, category.
\<close>

definition builtin_commands :: "(string \<times> string list \<times> string) list" where
  "builtin_commands = [
     (''help'', [''h'', ''?''], ''Core''),
     (''run'', [''r''], ''Workflow''),
     (''task'', [''t''], ''Workflow''),
     (''model'', [''m''], ''Model''),
     (''memory'', [''mem''], ''Core''),
     (''workspace'', [''ws''], ''Workspace''),
     (''test'', [], ''Testing''),
     (''status'', [''st''], ''System''),
     (''checkpoint'', [''cp''], ''Workspace''),
     (''rollback'', [''rb''], ''Workspace''),
     (''diff'', [''d''], ''Workspace''),
     (''history'', [''hist''], ''Core''),
     (''config'', [''cfg''], ''System''),
     (''tools'', [''tool''], ''System''),
     (''clear'', [''cls''], ''Core''),
     (''multiline'', [''multi''], ''Core''),
     (''session'', [''s''], ''Core''),
     (''exit'', [''quit'', ''q''], ''Core'')]"

text \<open>What they do and complete is a parameter, by name.\<close>

definition builtin_command :: "(string \<Rightarrow> CommandContext \<Rightarrow> CommandResult) \<Rightarrow> (string \<Rightarrow> string list \<Rightarrow> nat \<Rightarrow> string list) \<Rightarrow>
    string \<times> string list \<times> string \<Rightarrow> SlashCommand" where
  "builtin_command exec cpl b = (case b of (n, as, k) \<Rightarrow>
     \<lparr>getName = n, getAliases = as, getCategory = k, cmd_execute = exec n, cmd_completions = cpl n\<rparr>)"

definition registerBuiltinCommands :: "(string \<Rightarrow> CommandContext \<Rightarrow> CommandResult) \<Rightarrow>
    (string \<Rightarrow> string list \<Rightarrow> nat \<Rightarrow> string list) \<Rightarrow> CommandRegistry \<Rightarrow> CommandRegistry" where
  "registerBuiltinCommands exec cpl r =
     fold (\<lambda>b. registerCommand (Some (builtin_command exec cpl b))) builtin_commands r"

definition parseAgentType :: "string \<Rightarrow> AgentType" where
  "parseAgentType str =
     (let s = lower str
      in if s = ''planner'' then Planner
         else if s = ''researcher'' then Researcher
         else if s = ''coder'' then Coder
         else if s = ''tester'' then Tester
         else if s = ''reviewer'' then Reviewer
         else if s = ''debugger'' then Debugger
         else if s = ''security'' \<or> s = ''securityauditor'' then SecurityAuditor
         else if s = ''doc'' \<or> s = ''documentationwriter'' then DocumentationWriter
         else if s = ''refactorer'' then Refactorer
         else Generic)"

subsection \<open>The tokenizer\<close>

record tok_state =
  tokens :: "string list"
  current :: string
  in_single_quote :: bool
  in_double_quote :: bool
  escaped :: bool

abbreviation squote :: char where "squote \<equiv> CHR 0x27"
abbreviation dquote :: char where "dquote \<equiv> CHR 0x22"
abbreviation backslash :: char where "backslash \<equiv> CHR 0x5C"

definition tok_char :: "char \<Rightarrow> tok_state \<Rightarrow> tok_state" where
  "tok_char c t =
     (if escaped t then t\<lparr>current := current t @ [c], escaped := False\<rparr>
      else if c = backslash \<and> \<not> in_single_quote t then t\<lparr>escaped := True\<rparr>
      else if c = squote \<and> \<not> in_double_quote t then t\<lparr>in_single_quote := \<not> in_single_quote t\<rparr>
      else if c = dquote \<and> \<not> in_single_quote t then t\<lparr>in_double_quote := \<not> in_double_quote t\<rparr>
      else if isspace c \<and> \<not> in_single_quote t \<and> \<not> in_double_quote t then
        (if current t \<noteq> [] then t\<lparr>tokens := tokens t @ [current t], current := []\<rparr> else t)
      else t\<lparr>current := current t @ [c]\<rparr>)"

fun tok_loop :: "string \<Rightarrow> tok_state \<Rightarrow> tok_state" where
  "tok_loop [] t = t"
| "tok_loop (c # cs) t = tok_loop cs (tok_char c t)"

definition tok_start :: tok_state where
  "tok_start = \<lparr>tokens = [], current = [], in_single_quote = False, in_double_quote = False, escaped = False\<rparr>"

definition tokenize :: "string \<Rightarrow> string list" where
  "tokenize line =
     (let t = tok_loop line tok_start
      in if current t \<noteq> [] then tokens t @ [current t] else tokens t)"

subsection \<open>Flags\<close>

text \<open>\<open>s.substr(0, s.find(c))\<close> and the rest after it, when \<open>c\<close> is in \<open>s\<close>.\<close>

definition split_at :: "char \<Rightarrow> string \<Rightarrow> (string \<times> string) option" where
  "split_at c s = (if c \<in> set s then Some (takeWhile (\<lambda>x. x \<noteq> c) s, tl (dropWhile (\<lambda>x. x \<noteq> c) s)) else None)"

type_synonym parsed_args = "string list \<times> (string, string) umap"

function parse_loop :: "string list \<Rightarrow> parsed_args \<Rightarrow> parsed_args" where
  "parse_loop [] p = p"
| "parse_loop (tok # ts) (pos, fl) =
     (let with_value = (\<lambda>k. case ts of
            v # ts' \<Rightarrow> if starts_with v ''-'' then (ts, AList.update k ''true'' fl) else (ts', AList.update k v fl)
          | [] \<Rightarrow> ([], AList.update k ''true'' fl))
      in if starts_with tok ''--'' then
           (let flag_expr = drop 2 tok
            in case split_at CHR ''='' flag_expr of
                 Some (k, v) \<Rightarrow> parse_loop ts (pos, AList.update k v fl)
               | None \<Rightarrow> (case with_value flag_expr of (ts', fl') \<Rightarrow> parse_loop ts' (pos, fl')))
         else if starts_with tok ''-'' \<and> length tok > 1 then
           (case with_value (drop 1 tok) of (ts', fl') \<Rightarrow> parse_loop ts' (pos, fl'))
         else parse_loop ts (pos @ [tok], fl))"
  by pat_completeness auto
termination
  by (relation "measure (\<lambda>(ts, p). length ts)") (auto split: list.splits if_splits)

definition parseFlags :: "string list \<Rightarrow> parsed_args" where
  "parseFlags ts = parse_loop ts ([], [])"

subsection \<open>Dispatch and completion\<close>

definition dispatch :: "string \<Rightarrow> CommandRegistry \<Rightarrow> CommandContext \<Rightarrow> CommandResult \<times> CommandContext" where
  "dispatch line r ctx =
     (let ctx0 = ctx\<lparr>raw_line := line\<rparr>; ts = tokenize line
      in case ts of
           [] \<Rightarrow> (result_ok [], ctx0)
         | first # rest \<Rightarrow>
             if hd first \<noteq> CHR ''/'' then
               (case getCommand ''run'' r of
                  Some c \<Rightarrow>
                    let ctx1 = ctx0\<lparr>command_name := ''run'', args := ts, flags := []\<rparr>
                    in (cmd_execute c ctx1, ctx1)
                | None \<Rightarrow> (result_error ''No run command registered for natural language prompt.'' 1, ctx0))
             else
               let name = tl first; (pos, fl) = parseFlags rest;
                   ctx1 = ctx0\<lparr>command_name := name, args := pos, flags := fl\<rparr>
               in (case getCommand name r of
                     None \<Rightarrow> (result_error (''Unknown command: /'' @ name @ ''. Type /help for a list of available commands.'') 1, ctx1)
                   | Some c \<Rightarrow> (cmd_execute c ctx1, ctx1)))"

definition getCompletions :: "string \<Rightarrow> CommandRegistry \<Rightarrow> string list" where
  "getCompletions pre r =
     (if pre = [] then []
      else if hd pre = CHR ''/'' then
        (let sub = tl pre
         in case split_at CHR '' '' sub of
              None \<Rightarrow> map (\<lambda>n. CHR ''/'' # n) (filter (\<lambda>n. starts_with n (lower sub)) (um_keys (commands r)))
            | Some (name, arg_part) \<Rightarrow>
                (case getCommand name r of None \<Rightarrow> []
                 | Some c \<Rightarrow>
                     let ts = tokenize arg_part;
                         i = (if ts = [] then 0 else if last arg_part = CHR '' '' then length ts else length ts - 1)
                     in cmd_completions c ts i))
      else [])"

end
