(* ===== verification/Command_Properties.thy ===== *)
theory Command_Properties
  imports Command_Registry
begin

text \<open>
  The properties of the command registry: quoted text comes out of the tokenizer as it went in,
  flags and positional arguments are told apart, and every name and alias finds its command.
\<close>

subsection \<open>Quoting\<close>

definition escape :: "string \<Rightarrow> string" where
  "escape t = concat (map (\<lambda>c. if c = dquote \<or> c = backslash then [backslash, c] else [c]) t)"

definition quote :: "string \<Rightarrow> string" where
  "quote t = dquote # escape t @ [dquote]"

fun quoted_line :: "string list \<Rightarrow> string" where
  "quoted_line [] = []"
| "quoted_line [t] = quote t"
| "quoted_line (t # u # ts) = quote t @ CHR '' '' # quoted_line (u # ts)"

lemma tok_loop_escape:
  assumes "in_double_quote st" "\<not> in_single_quote st" "\<not> escaped st"
  shows "tok_loop (escape t @ cs) st = tok_loop cs (st\<lparr>current := current st @ t\<rparr>)"
  using assms
proof (induction t arbitrary: st)
  case Nil
  then show ?case by (simp add: escape_def)
next
  case (Cons c t)
  let ?st = "st\<lparr>current := current st @ [c]\<rparr>"
  have "tok_loop (escape (c # t) @ cs) st = tok_loop (escape t @ cs) ?st"
  proof -
    have noop: "st\<lparr>current := x, escaped := False\<rparr> = st\<lparr>current := x\<rparr>" for x
      using Cons.prems(3) by (intro tok_state.equality) simp_all
    show ?thesis using Cons.prems by (auto simp: escape_def tok_char_def noop)
  qed
  with Cons.IH [of ?st] Cons.prems show ?case by simp
qed

definition plain :: "tok_state \<Rightarrow> bool" where
  "plain st \<longleftrightarrow> \<not> in_double_quote st \<and> \<not> in_single_quote st \<and> \<not> escaped st"

lemma tok_loop_quote:
  assumes "plain st"
  shows "tok_loop (quote t @ cs) st = tok_loop cs (st\<lparr>current := current st @ t\<rparr>)"
proof -
  let ?st = "st\<lparr>in_double_quote := True\<rparr>"
  have "tok_loop (quote t @ cs) st = tok_loop (escape t @ dquote # cs) ?st"
    using assms by (simp add: quote_def tok_char_def plain_def)
  also have "\<dots> = tok_loop cs (tok_char dquote (?st\<lparr>current := current st @ t\<rparr>))"
    using assms by (simp add: tok_loop_escape plain_def)
  also have "tok_char dquote (?st\<lparr>current := current st @ t\<rparr>) = st\<lparr>current := current st @ t\<rparr>"
    using assms by (auto simp: tok_char_def plain_def intro: tok_state.equality)
  finally show ?thesis .
qed

lemma tok_loop_quoted_line:
  assumes "plain st" "current st = []"
  shows "(let t = tok_loop (quoted_line ts) st in if current t \<noteq> [] then tokens t @ [current t] else tokens t) =
    tokens st @ filter (\<lambda>t. t \<noteq> []) ts"
  using assms
proof (induction ts arbitrary: st rule: quoted_line.induct)
  case 1
  then show ?case by (simp add: Let_def)
next
  case (2 t)
  then show ?case using tok_loop_quote [of st t "[]"] by (simp add: Let_def)
next
  case (3 t u ts)
  let ?st = "st\<lparr>tokens := tokens st @ filter (\<lambda>t. t \<noteq> []) [t]\<rparr>"
  have "tok_char CHR '' '' (st\<lparr>current := t\<rparr>) = ?st"
    using "3.prems" by (auto simp: tok_char_def plain_def isspace_def code_of_def intro: tok_state.equality)
  then have "tok_loop (quoted_line (t # u # ts)) st = tok_loop (quoted_line (u # ts)) ?st"
    using "3.prems" by (simp add: tok_loop_quote)
  moreover have "plain ?st" "current ?st = []" using "3.prems" by (simp_all add: plain_def)
  ultimately show ?case using "3.IH" [of ?st] by simp
qed

lemma tokenize_line: "tokenize (quoted_line ts) = filter (\<lambda>t. t \<noteq> []) ts"
  using tok_loop_quoted_line [of tok_start ts] by (simp add: tokenize_def tok_start_def plain_def Let_def)

text \<open>
  A line of texts in double quotes, with a backslash before each quote and backslash in them
  and a space between them, is tokenized into exactly these texts, whatever characters they have,
  except that the empty ones are dropped: an empty argument cannot be given.
\<close>

theorem tokenize_quoted:
  "tokenize (quoted_line ts) = filter (\<lambda>t. t \<noteq> []) ts"
  by (rule tokenize_line)

subsection \<open>Flags and positional arguments\<close>

datatype cli_arg = Positional string | Flag string string

fun render_arg :: "cli_arg \<Rightarrow> string" where
  "render_arg (Positional p) = p"
| "render_arg (Flag k v) = ''--'' @ k @ ''='' @ v"

fun arg_ok :: "cli_arg \<Rightarrow> bool" where
  "arg_ok (Positional p) = (p \<noteq> [] \<and> hd p \<noteq> CHR ''-'')"
| "arg_ok (Flag k v) = (CHR ''='' \<notin> set k)"

fun positionals :: "cli_arg list \<Rightarrow> string list" where
  "positionals [] = []"
| "positionals (Positional p # as) = p # positionals as"
| "positionals (Flag k v # as) = positionals as"

fun flag_map :: "cli_arg list \<Rightarrow> (string, string) umap \<Rightarrow> (string, string) umap" where
  "flag_map [] m = m"
| "flag_map (Positional p # as) m = flag_map as m"
| "flag_map (Flag k v # as) m = flag_map as (AList.update k v m)"

lemma split_at_first: "c \<notin> set k \<Longrightarrow> split_at c (k @ c # v) = Some (k, v)"
proof -
  assume "c \<notin> set k"
  then have "takeWhile (\<lambda>x. x \<noteq> c) (k @ c # v) = k" "dropWhile (\<lambda>x. x \<noteq> c) (k @ c # v) = c # v"
    by (induction k) auto
  then show ?thesis by (simp add: split_at_def)
qed

lemma parse_loop_render:
  "list_all arg_ok as \<Longrightarrow> parse_loop (map render_arg as) (pos, fl) = (pos @ positionals as, flag_map as fl)"
proof (induction as arbitrary: pos fl)
  case Nil
  show ?case by simp
next
  case (Cons a as)
  show ?case
  proof (cases a)
    case (Positional p)
    with Cons show ?thesis by (cases p) (auto simp: starts_with_def Let_def)
  next
    case (Flag k v)
    with Cons show ?thesis by (simp add: starts_with_def split_at_first Let_def)
  qed
qed

lemma render_nonempty: "arg_ok a \<Longrightarrow> render_arg a \<noteq> []"
  by (cases a) auto

subsection \<open>Names and aliases\<close>

definition all_names :: "SlashCommand \<Rightarrow> string list" where
  "all_names c = map lower (getName c # getAliases c)"

definition registers :: "SlashCommand list \<Rightarrow> CommandRegistry \<Rightarrow> CommandRegistry" where
  "registers cs r = fold (\<lambda>c. registerCommand (Some c)) cs r"

lemma map_of_add_aliases:
  "map_of (add_aliases n as m) k = (if k \<in> lower ` set as then Some n else map_of m k)"
  by (induction as arbitrary: m) auto

lemma getCommand_lower [simp]: "getCommand (lower n) r = getCommand n r"
  by (simp add: getCommand_def)

lemma registers_other:
  "k \<notin> set (concat (map all_names cs)) \<Longrightarrow>
     map_of (commands (registers cs r)) k = map_of (commands r) k \<and>
     map_of (alias_map (registers cs r)) k = map_of (alias_map r) k"
proof (induction cs arbitrary: r)
  case (Cons c cs)
  from Cons.IH [of "registerCommand (Some c) r"] Cons.prems show ?case
    by (auto simp: registers_def registerCommand_def all_names_def map_of_add_aliases Let_def)
qed (simp add: registers_def)

lemma registers_found:
  assumes "distinct (concat (map all_names cs))" "c \<in> set cs" "lower n \<in> set (all_names c)"
    and "\<And>k. k \<in> set (concat (map all_names cs)) \<Longrightarrow> map_of (commands r) k = None"
  shows "getCommand n (registers cs r) = Some c"
  using assms
proof (induction cs arbitrary: r)
  case (Cons d cs)
  let ?r = "registerCommand (Some d) r"
  have step: "registers (d # cs) r = registers cs ?r" by (simp add: registers_def)
  show ?case
  proof (cases "c = d")
    case True
    have out: "k \<notin> set (concat (map all_names cs))" if "k \<in> set (all_names d)" for k
      using that Cons.prems(1) by auto
    have name: "lower (getName d) \<in> set (all_names d)" by (simp add: all_names_def)
    have unused: "map_of (commands r) (lower n) = None" using Cons.prems(3,4) True by auto
    show ?thesis
      unfolding step getCommand_def Let_def
      using registers_other [OF out [OF name], of ?r] registers_other [OF out [OF Cons.prems(3) [unfolded True]], of ?r]
        Cons.prems(3) unused
      by (auto simp: True registerCommand_def all_names_def map_of_add_aliases Let_def)
  next
    case False
    with Cons.prems(2) have c: "c \<in> set cs" by simp
    have "map_of (commands ?r) k = None" if "k \<in> set (concat (map all_names cs))" for k
    proof -
      have "lower (getName d) \<in> set (all_names d)" by (simp add: all_names_def)
      with Cons.prems(1) that have "k \<noteq> lower (getName d)" by auto
      with Cons.prems(4) [of k] that show ?thesis by (simp add: registerCommand_def Let_def)
    qed
    with Cons.IH [of ?r] Cons.prems(1,3) c show ?thesis unfolding step by simp
  qed
qed simp

lemma builtins_distinct: "distinct (concat (map (\<lambda>(n, as, k). map lower (n # as)) builtin_commands))"
  by code_simp

lemma builtin_found:
  assumes "(n, as, k) \<in> set builtin_commands" "lower q \<in> lower ` set (n # as)"
  shows "getCommand q (registerBuiltinCommands exec cpl new_CommandRegistry) = Some (builtin_command exec cpl (n, as, k))"
proof -
  let ?f = "builtin_command exec cpl"
  have names: "all_names (?f b) = (\<lambda>(n, as, k). map lower (n # as)) b" for b
    by (simp add: all_names_def builtin_command_def split: prod.splits)
  have "registerBuiltinCommands exec cpl new_CommandRegistry = registers (map ?f builtin_commands) new_CommandRegistry"
    by (simp add: registerBuiltinCommands_def registers_def fold_map comp_def)
  moreover have "getCommand q (registers (map ?f builtin_commands) new_CommandRegistry) = Some (?f (n, as, k))"
  proof (rule registers_found)
    have "map all_names (map ?f builtin_commands) = map (\<lambda>(n, as, k). map lower (n # as)) builtin_commands"
      by (simp only: map_map comp_def names)
    then show "distinct (concat (map all_names (map ?f builtin_commands)))"
      using builtins_distinct by (simp only:)
    show "?f (n, as, k) \<in> set (map ?f builtin_commands)" using imageI [OF assms(1), of ?f] by (simp only: set_map)
    show "lower q \<in> set (all_names (?f (n, as, k)))" using assms(2) by (auto simp: names)
  qed (simp add: new_CommandRegistry_def)
  ultimately show ?thesis by simp
qed

text \<open>
  The built-in commands do not get into each other's way: each of them is found under its own
  name and under every alias it has, in any mixture of upper and lower case.
\<close>

theorem builtin_lookup:
  assumes "(n, as, k) \<in> set builtin_commands" "lower q \<in> lower ` set (n # as)"
  shows "getCommand q (registerBuiltinCommands exec cpl new_CommandRegistry) = Some (builtin_command exec cpl (n, as, k))"
  using assms by (rule builtin_found)

theorem builtin_lookup_witness:
  "getCommand ''QuiT'' (registerBuiltinCommands (\<lambda>n ctx. result_ok n) (\<lambda>n as i. []) new_CommandRegistry) =
     Some (builtin_command (\<lambda>n ctx. result_ok n) (\<lambda>n as i. []) (''exit'', [''quit'', ''q''], ''Core''))"
proof (rule builtin_lookup)
  show "(''exit'', [''quit'', ''q''], ''Core'') \<in> set builtin_commands" by (simp add: builtin_commands_def)
  have "lower ''QuiT'' = ''quit''" "lower ''quit'' = ''quit''" by code_simp+
  then show "lower ''QuiT'' \<in> lower ` set (''exit'' # [''quit'', ''q''])" by simp
qed

subsection \<open>From the line to the command\<close>

text \<open>
  C19: A command line made of \<open>/\<close> and a name or alias, then positional arguments and \<open>--key=value\<close>
  flags in any order, all quoted, runs the command of that name, with the positional arguments in
  their order and every flag at its last value.
\<close>

theorem dispatch_runs_command:
  assumes "getCommand n r = Some c" "list_all arg_ok as"
    and "ctx' = ctx\<lparr>raw_line := quoted_line ((CHR ''/'' # n) # map render_arg as), command_name := n,
      args := positionals as, flags := flag_map as []\<rparr>"
  shows "dispatch (quoted_line ((CHR ''/'' # n) # map render_arg as)) r ctx = (cmd_execute c ctx', ctx')"
proof -
  have "filter (\<lambda>t. t \<noteq> []) (map render_arg as) = map render_arg as"
    using assms(2) render_nonempty by (auto simp: filter_id_conv list_all_iff)
  then have "tokenize (quoted_line ((CHR ''/'' # n) # map render_arg as)) = (CHR ''/'' # n) # map render_arg as"
    unfolding tokenize_line by simp
  with assms parse_loop_render [OF assms(2), of "[]" "[]"] show ?thesis
    by (simp add: dispatch_def parseFlags_def Let_def)
qed

theorem dispatch_runs_command_witness:
  "fst (dispatch (quoted_line [''/Q'', ''now'', ''--code=3'']) (registerBuiltinCommands (\<lambda>n ctx. result_ok n) (\<lambda>n as i. []) new_CommandRegistry)
     \<lparr>raw_line = [], command_name = [], args = [], flags = []\<rparr>) = result_ok ''exit''"
proof -
  let ?r = "registerBuiltinCommands (\<lambda>n ctx. result_ok n) (\<lambda>n as i. []) new_CommandRegistry"
  have c: "getCommand ''Q'' ?r = Some (builtin_command (\<lambda>n ctx. result_ok n) (\<lambda>n as i. []) (''exit'', [''quit'', ''q''], ''Core''))"
  proof (rule builtin_found)
    show "(''exit'', [''quit'', ''q''], ''Core'') \<in> set builtin_commands" by (simp add: builtin_commands_def)
    have "lower ''Q'' = ''q''" "lower ''q'' = ''q''" by code_simp+
    then show "lower ''Q'' \<in> lower ` set (''exit'' # [''quit'', ''q''])" by simp
  qed
  from dispatch_runs_command [OF c _ refl, of "[Positional ''now'', Flag ''code'' ''3'']"]
  show ?thesis by (simp add: builtin_command_def)
qed

end
