(* ===== verification/Path_Containment.thy ===== *)
theory Path_Containment
  imports Char_Class
begin

text \<open>
  Path containment: \<open>src/src/workspace/PathContainment.h\<close> and \<open>PathContainment.cpp\<close>, as built on POSIX
  (the branches under \<open>_WIN32\<close> are left out). It decides which paths the tools of an agent may touch.

  \<^item> A \<open>std::filesystem::path\<close> is its string. The functions of it that only look at the string
    (\<open>is_absolute\<close>, \<open>operator/\<close>, \<open>filename\<close>, \<open>lexically_normal\<close>, iteration) are defined here.
  \<^item> Those that ask the operating system are the fields of \<open>file_system\<close>, a parameter; a result
    with an error code is \<open>None\<close>.
\<close>

subsection \<open>Strings and patterns\<close>

definition normalizeSeparators :: "string \<Rightarrow> string" where
  "normalizeSeparators p =
     (let s = map (\<lambda>c. if c = CHR 0x5C then CHR ''/'' else c) p;
          t = rev (dropWhile (\<lambda>c. c = CHR ''/'') (rev s))
      in if s \<noteq> [] \<and> t = [] then ''/'' else t)"

text \<open>
  The loop of \<open>globMatch\<close>: what is left of the pattern and of the string, and, after a star, what
  was left of both behind it.
\<close>

function glob_loop :: "string \<Rightarrow> string \<Rightarrow> (string \<times> string) option \<Rightarrow> bool" where
  "glob_loop p [] star = list_all (\<lambda>c. c = CHR ''*'') p"
| "glob_loop p (c # s) star =
     (if p \<noteq> [] \<and> (hd p = CHR ''?'' \<or> hd p = c) then glob_loop (tl p) s star
      else if p \<noteq> [] \<and> hd p = CHR ''*'' then glob_loop (tl p) (c # s) (Some (tl p, c # s))
      else case star of
          Some (star_p, d # star_s) \<Rightarrow> glob_loop star_p star_s (Some (star_p, star_s))
        | _ \<Rightarrow> False)"
  by pat_completeness auto
termination
proof (relation "inv_image (less_than <*lex*> less_than <*lex*> less_than)
      (\<lambda>(p, s, star). case star of
         None \<Rightarrow> (Suc (length p), 0, length s)
       | Some (ps, ss) \<Rightarrow> (max (length p) (length ps), length ss, length s))", goal_cases)
  case (3 p c s star)
  then show ?case by (cases p; cases star) (auto simp: max_def)
qed (auto split: option.splits simp: max_def)

declare glob_loop.simps [simp del]

definition globMatch :: "string \<Rightarrow> string \<Rightarrow> bool" where
  "globMatch pattern str = glob_loop pattern str None"

subsection \<open>Paths\<close>

definition is_absolute :: "string \<Rightarrow> bool" where
  "is_absolute p \<longleftrightarrow> p \<noteq> [] \<and> hd p = CHR ''/''"

definition path_join :: "string \<Rightarrow> string \<Rightarrow> string" where
  "path_join base t =
     (if is_absolute t then t
      else if base = [] \<or> last base = CHR ''/'' then base @ t
      else base @ CHR ''/'' # t)"

definition filename :: "string \<Rightarrow> string" where
  "filename p = rev (takeWhile (\<lambda>c. c \<noteq> CHR ''/'') (rev p))"

fun split_path :: "string \<Rightarrow> string \<Rightarrow> string list" where
  "split_path acc [] = [acc]"
| "split_path acc (c # cs) = (if c = CHR ''/'' then acc # split_path [] cs else split_path (acc @ [c]) cs)"

text \<open>
  \<open>lexically_normal\<close>: the names kept so far (the last one first), and whether the last part
  that was read leaves a separator behind.
\<close>

fun normal_parts :: "bool \<Rightarrow> string list \<Rightarrow> string list \<Rightarrow> bool \<Rightarrow> string list \<times> bool" where
  "normal_parts rooted [] st sep = (st, sep)"
| "normal_parts rooted (x # xs) st sep =
     (if x = [] \<or> x = ''.'' then normal_parts rooted xs st True
      else if x = ''..'' then
        (case st of
           y # st' \<Rightarrow> if y \<noteq> ''..'' then normal_parts rooted xs st' True
                      else normal_parts rooted xs (''..'' # st) False
         | [] \<Rightarrow> if rooted then normal_parts rooted xs [] True
                 else normal_parts rooted xs [''..''] False)
      else normal_parts rooted xs (x # st) False)"

fun join_parts :: "string list \<Rightarrow> string" where
  "join_parts [] = []"
| "join_parts [x] = x"
| "join_parts (x # y # xs) = x @ CHR ''/'' # join_parts (y # xs)"

definition lexically_normal :: "string \<Rightarrow> string" where
  "lexically_normal p =
     (if p = [] then []
      else case normal_parts (is_absolute p) (split_path [] p) [] False of (st, sep) \<Rightarrow>
        let body = join_parts (rev st) @ (if sep \<and> st \<noteq> [] \<and> hd st \<noteq> ''..'' then ''/'' else []);
            full = (if is_absolute p then CHR ''/'' # body else body)
        in if full = [] then ''.'' else full)"

record file_system =
  weakly_canonical :: "string \<Rightarrow> string option"
  canonical :: "string \<Rightarrow> string option"
  path_exists :: "string \<Rightarrow> bool"
  is_symlink :: "string \<Rightarrow> bool"
  relative :: "string \<Rightarrow> string \<Rightarrow> string option"

definition resolveWeakly :: "file_system \<Rightarrow> string \<Rightarrow> string \<Rightarrow> string" where
  "resolveWeakly fs base target =
     (let full = (if is_absolute target then target else path_join base target)
      in case weakly_canonical fs full of
           Some (c # cs) \<Rightarrow> normalizeSeparators (c # cs)
         | _ \<Rightarrow> normalizeSeparators (lexically_normal full))"

subsection \<open>The component\<close>

datatype AccessMode = ReadOnly | ReadWrite | Execute

record PathContainment =
  workspace_root :: string
  canonical_root :: string
  protected_patterns :: "string list"
  allowed_external_paths :: "(string, AccessMode) umap"

record PathValidationResult =
  is_valid :: bool
  canonical_path :: string
  relative_path :: string
  is_protected :: bool
  violation_reason :: string

definition default_patterns :: "string list" where
  "default_patterns = [''.git'', ''.git/*'', ''*/.git'', ''*/.git/*'', ''.env'', ''.env.*'', ''*/.env'', ''*/.env.*'',
     ''*credentials*'', ''*.pem'', ''*.key'', ''id_rsa'', ''*/id_rsa'', ''id_ed25519'', ''*/id_ed25519'',
     ''.aios/config.json'', ''*/.aios/config.json'', ''/etc/*'', ''/usr/*'', ''/bin/*'', ''/sbin/*'',
     ''C:/Windows/*'', ''C:/Program Files/*'', ''C:/Program Files (x86)/*'']"

definition new_PathContainment :: "file_system \<Rightarrow> string \<Rightarrow> PathContainment" where
  "new_PathContainment fs root =
     (let c1 = (if path_exists fs root then (case canonical fs root of None \<Rightarrow> [] | Some c \<Rightarrow> c) else []);
          c2 = (if c1 = [] then (case weakly_canonical fs root of None \<Rightarrow> [] | Some c \<Rightarrow> c) else c1)
      in \<lparr>workspace_root = root, canonical_root = c2, protected_patterns = default_patterns,
          allowed_external_paths = []\<rparr>)"

definition addProtectedPattern :: "string \<Rightarrow> PathContainment \<Rightarrow> PathContainment" where
  "addProtectedPattern g c = c\<lparr>protected_patterns := protected_patterns c @ [g]\<rparr>"

definition addAllowedExternalPath :: "file_system \<Rightarrow> string \<Rightarrow> AccessMode \<Rightarrow> PathContainment \<Rightarrow> PathContainment" where
  "addAllowedExternalPath fs p m c =
     (let canon = (case weakly_canonical fs p of None \<Rightarrow> [] | Some q \<Rightarrow> q)
      in c\<lparr>allowed_external_paths := AList.update (normalizeSeparators canon) m (allowed_external_paths c)\<rparr>)"

definition matchesPattern :: "string \<Rightarrow> string \<Rightarrow> bool" where
  "matchesPattern path_str pattern =
     (let norm_path = normalizeSeparators path_str; norm_pat = normalizeSeparators pattern
      in globMatch norm_pat norm_path \<or> globMatch norm_pat (filename norm_path))"

definition getRelativeString :: "file_system \<Rightarrow> PathContainment \<Rightarrow> string \<Rightarrow> string" where
  "getRelativeString fs c target =
     (let resolved = resolveWeakly fs (workspace_root c) target
      in case relative fs resolved (canonical_root c) of
           Some (x # xs) \<Rightarrow> normalizeSeparators (x # xs)
         | _ \<Rightarrow> normalizeSeparators resolved)"

definition isProtected :: "file_system \<Rightarrow> PathContainment \<Rightarrow> string \<Rightarrow> bool" where
  "isProtected fs c target =
     (let rel_str = getRelativeString fs c target; target_str = normalizeSeparators target
      in list_ex (\<lambda>g. matchesPattern rel_str g \<or> matchesPattern target_str g) (protected_patterns c) \<or>
         list_ex (\<lambda>part. part = ''.git'') (split_path [] (normalizeSeparators rel_str)))"

text \<open>The resolution with the check for a symbolic link that \<open>isContained\<close> and \<open>validate\<close> begin with.\<close>

definition resolve_target :: "file_system \<Rightarrow> PathContainment \<Rightarrow> string \<Rightarrow> string" where
  "resolve_target fs c target =
     (let resolved = resolveWeakly fs (workspace_root c) target
      in if path_exists fs resolved \<and> is_symlink fs resolved
         then (case canonical fs resolved of
                 Some (x # xs) \<Rightarrow> normalizeSeparators (x # xs)
               | _ \<Rightarrow> resolved)
         else resolved)"

text \<open>
  Equal to a directory, or longer than it with a separator at its end. (\<open>back()\<close> of an empty string is
  undefined, as \<open>last []\<close> is unspecified.)
\<close>

definition at_or_below :: "string \<Rightarrow> string \<Rightarrow> bool" where
  "at_or_below dir p \<longleftrightarrow> p = dir \<or>
     (length p > length dir \<and> prefix dir p \<and> (last dir = CHR ''/'' \<or> p ! length dir = CHR ''/''))"

definition isContained :: "file_system \<Rightarrow> PathContainment \<Rightarrow> string \<Rightarrow> bool" where
  "isContained fs c target =
     (let resolved_str = normalizeSeparators (resolve_target fs c target);
          root_str = normalizeSeparators (canonical_root c)
      in if at_or_below root_str resolved_str then True
         else list_ex (\<lambda>(ext, m). at_or_below (normalizeSeparators ext) resolved_str) (allowed_external_paths c))"

text \<open>The last loop of \<open>validate\<close>: some external path that begins the string forbids the write.\<close>

definition read_only_external :: "PathContainment \<Rightarrow> string \<Rightarrow> AccessMode \<Rightarrow> bool" where
  "read_only_external c resolved mode =
     list_ex (\<lambda>(ext, allowed_mode). starts_with (normalizeSeparators resolved) (normalizeSeparators ext) \<and>
       mode = ReadWrite \<and> allowed_mode = ReadOnly) (allowed_external_paths c)"

definition validate :: "file_system \<Rightarrow> PathContainment \<Rightarrow> string \<Rightarrow> AccessMode \<Rightarrow> PathValidationResult" where
  "validate fs c target mode =
     (let resolved = resolve_target fs c target;
          rel = getRelativeString fs c resolved;
          res = \<lparr>is_valid = False, canonical_path = resolved, relative_path = rel, is_protected = False, violation_reason = []\<rparr>
      in if \<not> isContained fs c resolved then
           res\<lparr>violation_reason := ''Path traversal violation: target path '' @ [CHR 0x27] @ target @ [CHR 0x27] @
             '' escapes workspace root '' @ [CHR 0x27] @ workspace_root c @ [CHR 0x27]\<rparr>
         else
           let is_prot = isProtected fs c resolved; res1 = res\<lparr>is_protected := is_prot\<rparr>
           in if is_prot \<and> (mode = ReadWrite \<or> mode = Execute) then
                res1\<lparr>violation_reason := ''Access denied: target path '' @ [CHR 0x27] @ rel @ [CHR 0x27] @
                  '' is a protected system or repository file''\<rparr>
              else if read_only_external c resolved mode then
                res1\<lparr>violation_reason := ''Access denied: external path is configured as ReadOnly''\<rparr>
              else res1\<lparr>is_valid := True\<rparr>)"

definition sanitize :: "file_system \<Rightarrow> PathContainment \<Rightarrow> string \<Rightarrow> string" where
  "sanitize fs c raw = resolveWeakly fs (workspace_root c) raw"

end
