(* ===== verification/Path_Properties.thy ===== *)
theory Path_Properties
  imports Path_Containment
begin

text \<open>
  What the path containment promises: the iterative matcher of the protected patterns against the
  usual definition of a glob, containment against the tree of directory names, and what a valid
  answer of \<open>validate\<close> guarantees. A directory is the list of the names that lead to it.
\<close>

subsection \<open>The matcher against the definition of a glob\<close>

fun glob :: "string \<Rightarrow> string \<Rightarrow> bool" where
  "glob [] s \<longleftrightarrow> s = []"
| "glob (c # p) [] \<longleftrightarrow> c = CHR ''*'' \<and> glob p []"
| "glob (c # p) (d # s) \<longleftrightarrow>
     (if c = CHR ''*'' then glob p (d # s) \<or> glob (c # p) s else (c = CHR ''?'' \<or> c = d) \<and> glob p s)"

lemma glob_Nil_iff: "glob p [] \<longleftrightarrow> list_all (\<lambda>c. c = CHR ''*'') p"
  by (induction p) auto

lemma glob_star_here: "glob p s \<Longrightarrow> glob (CHR ''*'' # p) s"
  by (cases s) auto

lemma glob_star_skip: "glob (CHR ''*'' # p) s \<Longrightarrow> glob (CHR ''*'' # p) (d # s)"
  by simp

lemma glob_star_suffix: "glob (CHR ''*'' # p) s \<longleftrightarrow> (\<exists>u v. s = u @ v \<and> glob p v)"
proof (induction s)
  case Nil
  then show ?case by simp
next
  case (Cons d s)
  show ?case
  proof
    assume "glob (CHR ''*'' # p) (d # s)"
    then show "\<exists>u v. d # s = u @ v \<and> glob p v"
      using Cons.IH by (metis append_Cons append_Nil glob.simps(3))
  next
    assume "\<exists>u v. d # s = u @ v \<and> glob p v"
    then obtain u v where "d # s = u @ v" "glob p v" by blast
    then show "glob (CHR ''*'' # p) (d # s)"
      using Cons.IH by (cases u) auto
  qed
qed

lemma glob_starfree_append:
  "CHR ''*'' \<notin> set q \<Longrightarrow> glob (q @ p) s \<Longrightarrow> length q \<le> length s \<and> glob p (drop (length q) s)"
proof (induction q arbitrary: s)
  case Nil
  then show ?case by simp
next
  case (Cons c q)
  then show ?case by (cases s) auto
qed

text \<open>What the saved star still offers: one more character skipped.\<close>

definition retry_glob :: "(string \<times> string) option \<Rightarrow> bool" where
  "retry_glob star = (case star of
      Some (ps, d # ss) \<Rightarrow> glob (CHR ''*'' # ps) ss
    | _ \<Rightarrow> False)"

lemma retry_glob_simps [simp]:
  "\<not> retry_glob None" "\<not> retry_glob (Some (ps, []))"
  "retry_glob (Some (ps, d # ss)) = glob (CHR ''*'' # ps) ss"
  by (simp_all add: retry_glob_def)

lemma retry_globE:
  assumes "retry_glob star"
  obtains ps d ss where "star = Some (ps, d # ss)" "glob (CHR ''*'' # ps) ss"
proof (cases star)
  case (Some x)
  with assms show ?thesis using that by (cases x; cases "snd x") auto
qed (use assms in simp)

text \<open>The three moves of the loop before the string ends.\<close>

lemma glob_loop_take: "p \<noteq> [] \<and> (hd p = CHR ''?'' \<or> hd p = c) \<Longrightarrow> glob_loop p (c # s) star = glob_loop (tl p) s star"
  by (simp add: glob_loop.simps(2))

lemma glob_loop_star: "\<not> (p \<noteq> [] \<and> (hd p = CHR ''?'' \<or> hd p = c)) \<Longrightarrow> p \<noteq> [] \<and> hd p = CHR ''*'' \<Longrightarrow>
   glob_loop p (c # s) star = glob_loop (tl p) (c # s) (Some (tl p, c # s))"
  unfolding glob_loop.simps(2) [of p] by (simp only: if_False if_True simp_thms)

lemma glob_loop_retry: "\<not> (p \<noteq> [] \<and> (hd p = CHR ''?'' \<or> hd p = c)) \<Longrightarrow> \<not> (p \<noteq> [] \<and> hd p = CHR ''*'') \<Longrightarrow>
   glob_loop p (c # s) (Some (ps, d # ss)) = glob_loop ps ss (Some (ps, ss))"
  unfolding glob_loop.simps(2) [of p] by (simp only: if_False option.case prod.case list.case)

lemma glob_loop_sound: "glob_loop p s star \<Longrightarrow> glob p s \<or> retry_glob star"
proof (induction p s star rule: glob_loop.induct)
  case (1 p star)
  then show ?case by (simp add: glob_loop.simps(1) glob_Nil_iff)
next
  case (2 p c s star)
  show ?case
  proof (cases "p \<noteq> [] \<and> (hd p = CHR ''?'' \<or> hd p = c)")
    case True
    then obtain p' where "p = hd p # p'" by (cases p) auto
    with 2 True show ?thesis
      by (cases p) (auto simp: glob_loop.simps(2) intro: glob_star_here)
  next
    case no: False
    show ?thesis
    proof (cases "p \<noteq> [] \<and> hd p = CHR ''*''")
      case True
      with 2 no have "glob (tl p) (c # s) \<or> retry_glob (Some (tl p, c # s))"
        by (simp add: glob_loop.simps(2))
      with True show ?thesis by (cases p) auto
    next
      case False
      with no 2(4) obtain ps d ss where star: "star = Some (ps, d # ss)"
        and loop: "glob_loop ps ss (Some (ps, ss))"
        by (auto simp: glob_loop.simps(2) split: option.splits list.splits)
      with 2(3) no False have "glob ps ss \<or> retry_glob (Some (ps, ss))" by blast
      with star show ?thesis
        by (cases ss) (auto intro: glob_star_here)
    qed
  qed
qed

text \<open>The part of the pattern since the saved star has no star and has taken one character each.\<close>

definition star_ok :: "string \<Rightarrow> string \<Rightarrow> (string \<times> string) option \<Rightarrow> bool" where
  "star_ok p s star = (case star of None \<Rightarrow> True
    | Some (ps, ss) \<Rightarrow> \<exists>q m. ps = q @ p \<and> ss = m @ s \<and> length q = length m \<and> CHR ''*'' \<notin> set q)"

lemma star_ok_step:
  assumes "star_ok (a # p) (c # s) star" "a \<noteq> CHR ''*''"
  shows "star_ok p s star"
proof (cases star)
  case (Some x)
  obtain ps ss where x: "x = (ps, ss)" by fastforce
  with assms Some obtain q m where "ps = q @ a # p" "ss = m @ c # s" "length q = length m" "CHR ''*'' \<notin> set q"
    by (auto simp: star_ok_def)
  with assms(2) have "ps = (q @ [a]) @ p \<and> ss = (m @ [c]) @ s \<and> length (q @ [a]) = length (m @ [c]) \<and>
      CHR ''*'' \<notin> set (q @ [a])" by simp
  with Some x show ?thesis by (auto simp: star_ok_def)
qed (simp add: star_ok_def)

text \<open>A later star makes the earlier one superfluous: the leftmost match of what is between is enough.\<close>

lemma retry_glob_later_star:
  assumes ok: "star_ok (CHR ''*'' # p) s star" and retry: "retry_glob star"
  shows "glob (CHR ''*'' # p) s"
proof -
  from retry obtain ps d ss where star: "star = Some (ps, d # ss)" and g: "glob (CHR ''*'' # ps) ss"
    by (rule retry_globE)
  from ok star obtain q m where q: "ps = q @ CHR ''*'' # p" "d # ss = m @ s" "length q = length m" "CHR ''*'' \<notin> set q"
    by (auto simp: star_ok_def)
  from g obtain u v where v: "ss = u @ v" "glob ps v"
    by (auto simp: glob_star_suffix)
  with q glob_starfree_append [of q "CHR ''*'' # p" v] have len: "length q \<le> length v"
    and "glob (CHR ''*'' # p) (drop (length q) v)" by auto
  then obtain u' w where w: "drop (length q) v = u' @ w" "glob p w"
    by (auto simp: glob_star_suffix)
  define x where "x = d # u @ take (length q) v @ u'"
  have "d # ss = x @ w"
    using v(1) w(1) by (metis x_def append_assoc append_Cons append_take_drop_id)
  with q(2) have "x @ w = m @ s" by simp
  moreover have "length m \<le> length x"
    using q(3) len by (simp add: x_def)
  ultimately have "s = drop (length m) x @ w"
    by (metis append_eq_conv_conj drop_append diff_is_0_eq drop0)
  with w(2) show ?thesis by (auto simp: glob_star_suffix)
qed

lemma retry_glob_end:
  assumes ok: "star_ok p [] star" and retry: "retry_glob star"
  shows False
proof -
  from retry obtain ps d ss where star: "star = Some (ps, d # ss)" and g: "glob (CHR ''*'' # ps) ss"
    by (rule retry_globE)
  from ok star obtain q m where q: "ps = q @ p" "d # ss = m" "length q = length m" "CHR ''*'' \<notin> set q"
    by (auto simp: star_ok_def)
  from g obtain u v where v: "ss = u @ v" "glob ps v"
    by (auto simp: glob_star_suffix)
  with q glob_starfree_append [of q p v] have "length q \<le> length v" by auto
  with q v(1) show False by auto
qed

lemma glob_loop_complete:
  "CHR ''*'' \<notin> set s \<Longrightarrow> star_ok p s star \<Longrightarrow>
   (case star of None \<Rightarrow> True | Some (ps, ss) \<Rightarrow> CHR ''*'' \<notin> set ss) \<Longrightarrow>
   glob p s \<or> retry_glob star \<Longrightarrow> glob_loop p s star"
proof (induction p s star rule: glob_loop.induct)
  case (1 p star)
  then show ?case
    using retry_glob_end by (auto simp: glob_loop.simps(1) glob_Nil_iff)
next
  case (2 p c s star)
  have c: "c \<noteq> CHR ''*''" and s: "CHR ''*'' \<notin> set s" using 2(4) by auto
  show ?case
  proof (cases "p \<noteq> [] \<and> (hd p = CHR ''?'' \<or> hd p = c)")
    case True
    then obtain a p' where p: "p = a # p'" "a \<noteq> CHR ''*''" using c by (cases p) auto
    have "glob_loop (tl p) s star"
      using 2(1) [OF True s] 2(5,6,7) star_ok_step [of a p' c s star] p by auto
    then show ?thesis
      unfolding glob_loop_take [OF True] .
  next
    case no: False
    show ?thesis
    proof (cases "p \<noteq> [] \<and> hd p = CHR ''*''")
      case True
      then obtain p' where p: "p = CHR ''*'' # p'" by (cases p) auto
      have "glob p (c # s)"
        using 2(5,7) retry_glob_later_star p by blast
      then have "glob_loop (tl p) (c # s) (Some (tl p, c # s))"
        using 2(2) [OF no True] 2(4) p by (auto simp: star_ok_def)
      then show ?thesis
        unfolding glob_loop_star [OF no True] .
    next
      case False
      have "\<not> glob p (c # s)" using no False by (cases p) auto
      with 2(7) obtain ps d ss where star: "star = Some (ps, d # ss)" and g: "glob (CHR ''*'' # ps) ss"
        by (auto elim: retry_globE)
      have "glob ps ss \<or> retry_glob (Some (ps, ss))"
        using g by (cases ss) auto
      then have "glob_loop ps ss (Some (ps, ss))"
        using 2(3) [OF no False star] 2(6) star by (auto simp: star_ok_def)
      then show ?thesis
        unfolding star glob_loop_retry [OF no False] .
    qed
  qed
qed

text \<open>
  \<open>globMatch\<close> never accepts what the pattern does not describe, and for a string without a star
  it accepts everything the pattern describes: remembering the last star only is enough.
  A star in the string itself is taken for the star of the pattern, so the name \<open>*x.pem\<close> escapes the
  protected pattern \<open>*.pem\<close>.
\<close>

theorem globMatch_right:
  "(globMatch p s \<longrightarrow> glob p s) \<and> (CHR ''*'' \<notin> set s \<longrightarrow> globMatch p s = glob p s) \<and>
   glob ''*.pem'' ''*x.pem'' \<and> \<not> globMatch ''*.pem'' ''*x.pem''"
proof (intro conjI impI)
  show sound: "globMatch p s \<Longrightarrow> glob p s"
    using glob_loop_sound [of p s None] by (auto simp: globMatch_def)
  show "CHR ''*'' \<notin> set s \<Longrightarrow> globMatch p s = glob p s"
    using sound glob_loop_complete [of s p None] by (auto simp: globMatch_def star_ok_def)
qed (simp_all add: globMatch_def glob_loop.simps)

theorem globMatch_right_witness:
  "globMatch ''*a?b*c'' ''aababdbac'' \<and> glob ''*a?b*c'' ''aababdbac''"
proof -
  have "CHR ''*'' \<notin> set ''aababdbac''" and m: "globMatch ''*a?b*c'' ''aababdbac''"
    by (simp_all add: globMatch_def glob_loop.simps)
  with globMatch_right [of "''*a?b*c''" "''aababdbac''"] show ?thesis by blast
qed

subsection \<open>Directories as lists of names\<close>

definition plain_name :: "string \<Rightarrow> bool" where
  "plain_name x \<longleftrightarrow> x \<noteq> [] \<and> CHR ''/'' \<notin> set x \<and> CHR 0x5C \<notin> set x"

definition render_path :: "string list \<Rightarrow> string" where
  "render_path xs = (if xs = [] then ''/'' else concat (map (\<lambda>x. CHR ''/'' # x) xs))"

lemma normalizeSeparators_id:
  assumes "CHR 0x5C \<notin> set p" "p = ''/'' \<or> p = [] \<or> last p \<noteq> CHR ''/''"
  shows "normalizeSeparators p = p"
proof -
  have same: "map (\<lambda>c. if c = CHR 0x5C then CHR ''/'' else c) p = p"
    using assms(1) by (induction p) auto
  have keep: "rev (dropWhile (\<lambda>c. c = CHR ''/'') (rev p)) = p" if "p \<noteq> []" "last p \<noteq> CHR ''/''"
    using that by (cases p rule: rev_cases) auto
  from assms(2) consider "p = ''/''" | "p = []" | "p \<noteq> []" "last p \<noteq> CHR ''/''" by blast
  then show ?thesis
    unfolding normalizeSeparators_def same Let_def
    by cases (simp_all add: keep)
qed

lemma strip_end_shape:
  assumes "t = rev (dropWhile P (rev xs))"
  shows "set t \<subseteq> set xs" "t \<noteq> [] \<Longrightarrow> \<not> P (last t)"
proof -
  show "set t \<subseteq> set xs"
    using assms by (auto dest: set_dropWhileD)
  show "\<not> P (last t)" if "t \<noteq> []"
    using that assms hd_dropWhile [of P "rev xs"] by (simp add: last_rev)
qed

lemma normalizeSeparators_shape:
  "CHR 0x5C \<notin> set (normalizeSeparators p) \<and>
   (normalizeSeparators p = ''/'' \<or> normalizeSeparators p = [] \<or> last (normalizeSeparators p) \<noteq> CHR ''/'')"
proof -
  let ?s = "map (\<lambda>c. if c = CHR 0x5C then CHR ''/'' else c) p"
  let ?t = "rev (dropWhile (\<lambda>c. c = CHR ''/'') (rev ?s))"
  have s: "CHR 0x5C \<notin> set ?s" by auto
  have t: "CHR 0x5C \<notin> set ?t" "?t \<noteq> [] \<Longrightarrow> last ?t \<noteq> CHR ''/''"
    using s strip_end_shape(1) [OF refl, of "\<lambda>c. c = CHR ''/''" ?s]
      strip_end_shape(2) [OF refl, of "\<lambda>c. c = CHR ''/''" ?s] by blast+
  have eq: "normalizeSeparators p = (if ?s \<noteq> [] \<and> ?t = [] then ''/'' else ?t)"
    by (simp only: normalizeSeparators_def Let_def)
  show ?thesis
  proof (cases "?s \<noteq> [] \<and> ?t = []")
    case True
    then have "normalizeSeparators p = ''/''" unfolding eq by (rule if_P)
    then show ?thesis by simp
  next
    case False
    then have "normalizeSeparators p = ?t" unfolding eq by (rule if_not_P)
    with t show ?thesis by metis
  qed
qed

lemma normalizeSeparators_idem [simp]: "normalizeSeparators (normalizeSeparators p) = normalizeSeparators p"
  using normalizeSeparators_shape normalizeSeparators_id by blast

lemma normalizeSeparators_render:
  assumes "list_all plain_name xs"
  shows "normalizeSeparators (render_path xs) = render_path xs"
proof (rule normalizeSeparators_id)
  show "CHR 0x5C \<notin> set (render_path xs)"
    using assms by (auto simp: render_path_def plain_name_def list_all_iff)
  show "render_path xs = ''/'' \<or> render_path xs = [] \<or> last (render_path xs) \<noteq> CHR ''/''"
  proof (cases xs rule: rev_cases)
    case (snoc ys y)
    with assms have "y \<noteq> []" "last y \<noteq> CHR ''/''"
      using last_in_set by (fastforce simp: plain_name_def)+
    with snoc show ?thesis by (simp add: render_path_def)
  qed (simp add: render_path_def)
qed

text \<open>A name ends at the next separator, so equal strings have equal first names.\<close>

lemma name_unique:
  assumes "CHR ''/'' \<notin> set x" "CHR ''/'' \<notin> set y" "x @ s = y @ t"
    "s = [] \<or> hd s = CHR ''/''" "t = [] \<or> hd t = CHR ''/''"
  shows "x = y \<and> s = t"
proof -
  have cut: "takeWhile (\<lambda>c. c \<noteq> CHR ''/'') (z @ w) = z" if "CHR ''/'' \<notin> set z" "w = [] \<or> hd w = CHR ''/''" for z w
    using that by (cases w) (auto simp: takeWhile_append takeWhile_eq_all_conv)
  from assms have "x = y" using cut [of x s] cut [of y t] by simp
  with assms(3) show ?thesis by simp
qed

abbreviation names_string :: "string list \<Rightarrow> string" where
  "names_string xs \<equiv> concat (map (\<lambda>x. CHR ''/'' # x) xs)"

lemma names_string_start: "names_string xs = [] \<or> hd (names_string xs) = CHR ''/''"
  by (cases xs) auto

lemma names_string_prefix:
  "list_all plain_name rs \<Longrightarrow> list_all plain_name ps \<Longrightarrow> w = [] \<or> hd w = CHR ''/'' \<Longrightarrow>
   names_string ps = names_string rs @ w \<Longrightarrow> prefix rs ps"
proof (induction rs arbitrary: ps)
  case Nil
  then show ?case by simp
next
  case (Cons r rs)
  then obtain p ps' where ps: "ps = p # ps'" by (cases ps) auto
  have start: "names_string rs @ w = [] \<or> hd (names_string rs @ w) = CHR ''/''"
    using names_string_start [of rs] Cons.prems(3) by (cases "names_string rs") auto
  have "p @ names_string ps' = r @ names_string rs @ w"
    using Cons.prems(4) ps by simp
  with start names_string_start [of ps'] have "p = r \<and> names_string ps' = names_string rs @ w"
    using Cons.prems(1,2) ps by (intro name_unique) (auto simp: plain_name_def)
  with Cons.IH [of ps'] Cons.prems ps show ?case by simp
qed

lemma last_names_string: "list_all plain_name xs \<Longrightarrow> xs \<noteq> [] \<Longrightarrow> last (names_string xs) \<noteq> CHR ''/''"
  by (cases xs rule: rev_cases) (use last_in_set in \<open>fastforce simp: plain_name_def\<close>)+

lemma at_or_below_render:
  assumes "list_all plain_name rs" "list_all plain_name ps"
  shows "at_or_below (render_path rs) (render_path ps) \<longleftrightarrow> prefix rs ps"
proof (cases "rs = []")
  case True
  then show ?thesis
    using assms(2) by (cases ps) (auto simp: at_or_below_def render_path_def plain_name_def)
next
  case rs: False
  show ?thesis
  proof
    assume below: "at_or_below (render_path rs) (render_path ps)"
    have len: "length (render_path rs) > 1"
      using rs assms(1) by (cases rs) (auto simp: render_path_def plain_name_def)
    have ps: "ps \<noteq> []"
      using below len by (auto simp: at_or_below_def render_path_def)
    obtain w where w: "names_string ps = names_string rs @ w" "w = [] \<or> hd w = CHR ''/''"
    proof (cases "render_path ps = render_path rs")
      case True
      with that [of "[]"] rs ps show ?thesis by (simp add: render_path_def)
    next
      case False
      with below rs ps last_names_string [OF assms(1) rs]
      have "prefix (names_string rs) (names_string ps)" "length (names_string rs) < length (names_string ps)"
        "names_string ps ! length (names_string rs) = CHR ''/''"
        by (auto simp: at_or_below_def render_path_def)
      then obtain v where v: "names_string ps = names_string rs @ v" "v \<noteq> []"
        by (auto simp: prefix_def)
      with \<open>names_string ps ! length (names_string rs) = CHR ''/''\<close> have "hd v = CHR ''/''"
        by (simp add: hd_conv_nth nth_append)
      with v that show ?thesis by blast
    qed
    show "prefix rs ps" using names_string_prefix [OF assms w(2) w(1)] .
  next
    assume "prefix rs ps"
    then obtain qs where ps: "ps = rs @ qs" by (auto simp: prefix_def)
    with rs show "at_or_below (render_path rs) (render_path ps)"
      by (cases qs) (auto simp: at_or_below_def render_path_def nth_append)
  qed
qed

subsection \<open>Containment and validation\<close>

text \<open>The roots of a component whose directories are all given by plain names.\<close>

definition roots_are :: "PathContainment \<Rightarrow> string list \<Rightarrow> (string list \<times> AccessMode) list \<Rightarrow> bool" where
  "roots_are c rs exts \<longleftrightarrow> canonical_root c = render_path rs \<and> list_all plain_name rs \<and>
     allowed_external_paths c = map (\<lambda>(es, m). (render_path es, m)) exts \<and>
     list_all (\<lambda>(es, m). list_all plain_name es) exts"

definition inside :: "string list \<Rightarrow> (string list \<times> AccessMode) list \<Rightarrow> string list \<Rightarrow> bool" where
  "inside rs exts ps \<longleftrightarrow> prefix rs ps \<or> list_ex (\<lambda>(es, m). prefix es ps) exts"

lemma isContained_inside:
  assumes "roots_are c rs exts" "list_all plain_name ps" "resolve_target fs c target = render_path ps"
  shows "isContained fs c target = inside rs exts ps"
proof -
  have ext: "list_ex (\<lambda>(ext, m). at_or_below (normalizeSeparators ext) (render_path ps)) (map (\<lambda>(es, m). (render_path es, m)) xs) =
      list_ex (\<lambda>(es, m). prefix es ps) xs" if "list_all (\<lambda>(es, m). list_all plain_name es) xs" for xs
    using that assms(2)
    by (induction xs) (auto simp: normalizeSeparators_render at_or_below_render)
  from assms(1) have "isContained fs c target \<longleftrightarrow> prefix rs ps \<or>
      list_ex (\<lambda>(ext, m). at_or_below (normalizeSeparators ext) (render_path ps)) (map (\<lambda>(es, m). (render_path es, m)) exts)"
    using assms(2,3)
    by (simp add: isContained_def roots_are_def normalizeSeparators_render at_or_below_render)
  with ext [of exts] assms(1) show ?thesis
    by (simp only: inside_def roots_are_def)
qed

text \<open>
  When the workspace root, the external paths and the resolved target are made of plain names,
  \<open>isContained\<close> holds exactly when the names of the root, or of an external path, begin the names of
  the target. A sibling whose name merely begins like the root's is not contained.
\<close>

theorem isContained_right:
  assumes "roots_are c rs exts" "list_all plain_name ps" "resolve_target fs c target = render_path ps"
  shows "isContained fs c target \<longleftrightarrow> prefix rs ps \<or> (\<exists>(es, m) \<in> set exts. prefix es ps)"
  using isContained_inside [OF assms] by (simp add: inside_def list_ex_iff)

text \<open>A machine without files: every path is canonical once it is lexically normal.\<close>

definition bare_fs :: file_system where
  "bare_fs = \<lparr>weakly_canonical = (\<lambda>p. Some (lexically_normal p)), canonical = (\<lambda>p. None),
     path_exists = (\<lambda>p. False), is_symlink = (\<lambda>p. False), relative = (\<lambda>p base. None)\<rparr>"

definition ws_example :: PathContainment where
  "ws_example = addAllowedExternalPath bare_fs ''/data'' ReadOnly (new_PathContainment bare_fs ''/data2/ws'')"

lemmas path_eval = ws_example_def addAllowedExternalPath_def new_PathContainment_def bare_fs_def resolve_target_def
  resolveWeakly_def is_absolute_def path_join_def lexically_normal_def normalizeSeparators_def render_path_def
  plain_name_def roots_are_def inside_def

lemma ws_example_roots: "roots_are ws_example [''data2'', ''ws''] [([''data''], ReadOnly)]"
  by (simp add: path_eval)

theorem isContained_right_witness:
  "isContained bare_fs ws_example ''src/../a.c'' \<and> \<not> isContained bare_fs ws_example ''../ws2/a.c''"
proof -
  have "resolve_target bare_fs ws_example ''src/../a.c'' = render_path [''data2'', ''ws'', ''a.c'']"
    "resolve_target bare_fs ws_example ''../ws2/a.c'' = render_path [''data2'', ''ws2'', ''a.c'']"
    "list_all plain_name [''data2'', ''ws'', ''a.c'']" "list_all plain_name [''data2'', ''ws2'', ''a.c'']"
    by (simp_all add: path_eval)
  with isContained_right [OF ws_example_roots, of "[''data2'', ''ws'', ''a.c'']" bare_fs "''src/../a.c''"]
    isContained_right [OF ws_example_roots, of "[''data2'', ''ws2'', ''a.c'']" bare_fs "''../ws2/a.c''"]
  show ?thesis by simp
qed

text \<open>A string that some protected pattern describes, or whose last component does.\<close>

definition protected_string :: "string list \<Rightarrow> string \<Rightarrow> bool" where
  "protected_string pats s \<longleftrightarrow>
     list_ex (\<lambda>g. glob (normalizeSeparators g) s \<or> glob (normalizeSeparators g) (filename s)) pats"

lemma set_filename: "set (filename s) \<subseteq> set s"
  by (auto simp: filename_def dest: set_takeWhileD)

lemma matchesPattern_glob:
  assumes "normalizeSeparators s = s" "CHR ''*'' \<notin> set s"
  shows "matchesPattern s g \<longleftrightarrow> glob (normalizeSeparators g) s \<or> glob (normalizeSeparators g) (filename s)"
proof -
  have match: "globMatch p t = glob p t" if "CHR ''*'' \<notin> set t" for p t
    using that glob_loop_sound [of p t None] glob_loop_complete [of t p None]
    by (auto simp: globMatch_def star_ok_def)
  have "CHR ''*'' \<notin> set (filename s)" using assms(2) set_filename by blast
  then show ?thesis
    unfolding matchesPattern_def assms(1) Let_def by (simp add: match assms(2))
qed

lemma isProtected_glob:
  assumes "getRelativeString fs c s = rel" "normalizeSeparators s = s" "CHR ''*'' \<notin> set s" "CHR ''*'' \<notin> set rel"
  shows "isProtected fs c s \<longleftrightarrow> protected_string (protected_patterns c) rel \<or>
    protected_string (protected_patterns c) s \<or> ''.git'' \<in> set (split_path [] rel)"
proof -
  have rel: "normalizeSeparators rel = rel"
    using assms(1) by (auto simp: getRelativeString_def Let_def split: option.splits list.splits)
  have "list_ex (\<lambda>g. matchesPattern rel g \<or> matchesPattern s g) pats \<longleftrightarrow>
      protected_string pats rel \<or> protected_string pats s" for pats
    using assms rel
    by (induction pats) (auto simp: protected_string_def matchesPattern_glob)
  then show ?thesis
    using assms(1,2) rel by (simp add: isProtected_def list_ex_iff)
qed

text \<open>
  C18: \<open>validate\<close> accepts a target exactly when it lies inside the root or an external path, and, for
  writing or executing, neither its relative name nor its full name is described by a protected
  pattern or goes through \<open>.git\<close>, and, for writing, no read-only external path begins it as a string.
  The target it reports is the resolved one. (Hypotheses: resolving a resolved path leaves it, the
  names are plain and hold no star.)
\<close>

theorem validate_right:
  assumes roots: "roots_are c rs exts"
    and res: "resolve_target fs c target = render_path ps" "resolve_target fs c (render_path ps) = render_path ps"
    and plain: "list_all plain_name ps" "CHR ''*'' \<notin> set (render_path ps)"
    and rel: "getRelativeString fs c (render_path ps) = rel" "CHR ''*'' \<notin> set rel"
  shows "canonical_path (validate fs c target mode) = render_path ps \<and>
    (is_valid (validate fs c target mode) \<longleftrightarrow>
      inside rs exts ps \<and>
      (mode = ReadOnly \<or> \<not> (protected_string (protected_patterns c) rel \<or>
         protected_string (protected_patterns c) (render_path ps) \<or> ''.git'' \<in> set (split_path [] rel))) \<and>
      (mode = ReadWrite \<longrightarrow> \<not> (\<exists>(es, m) \<in> set exts. m = ReadOnly \<and> prefix (render_path es) (render_path ps))))"
proof -
  have norm: "normalizeSeparators (render_path ps) = render_path ps"
    using plain(1) by (rule normalizeSeparators_render)
  have ro: "list_ex (\<lambda>(ext, a). starts_with (render_path ps) (normalizeSeparators ext) \<and> mode = ReadWrite \<and> a = ReadOnly)
      (map (\<lambda>(es, m). (render_path es, m)) xs) \<longleftrightarrow>
      mode = ReadWrite \<and> (\<exists>(es, m) \<in> set xs. m = ReadOnly \<and> prefix (render_path es) (render_path ps))"
    if "list_all (\<lambda>(es, m). list_all plain_name es) xs" for xs
    using that by (induction xs) (auto simp: starts_with_def normalizeSeparators_render)
  have ro: "read_only_external c (render_path ps) mode \<longleftrightarrow>
      mode = ReadWrite \<and> (\<exists>(es, m) \<in> set exts. m = ReadOnly \<and> prefix (render_path es) (render_path ps))"
    using roots ro [of exts] unfolding roots_are_def read_only_external_def norm by presburger
  have m: "mode = ReadWrite \<or> mode = Execute \<longleftrightarrow> mode \<noteq> ReadOnly"
    by (cases mode) auto
  show ?thesis
    unfolding validate_def Let_def res isContained_inside [OF roots plain(1) res(2)] ro
      isProtected_glob [OF rel(1) norm plain(2) rel(2)] m
    by (auto simp del: split_paired_Ex)
qed

theorem validate_right_witness:
  "is_valid (validate bare_fs ws_example ''src/a.c'' ReadOnly) \<and>
   \<not> is_valid (validate bare_fs ws_example ''src/a.c'' ReadWrite)"
proof -
  let ?ps = "[''data2'', ''ws'', ''src'', ''a.c'']"
  have "resolve_target bare_fs ws_example ''src/a.c'' = render_path ?ps"
    "resolve_target bare_fs ws_example (render_path ?ps) = render_path ?ps"
    "list_all plain_name ?ps" "CHR ''*'' \<notin> set (render_path ?ps)"
    "getRelativeString bare_fs ws_example (render_path ?ps) = render_path ?ps"
    by (simp_all add: path_eval getRelativeString_def)
  note valid = validate_right [OF ws_example_roots this(1-5) this(4)]
  show ?thesis
    using valid [of ReadOnly] valid [of ReadWrite] by (simp add: inside_def render_path_def)
qed

text \<open>
  \<open>isContained\<close> turns the backslashes of an already resolved path into separators and does not
  resolve it again. A name with backslashes, which POSIX allows, is therefore contained although the
  path that \<open>sanitize\<close> returns for it leads out of the workspace.
\<close>

theorem backslash_escapes:
  "isContained bare_fs ws_example (''a'' @ [CHR 0x5C] @ ''..'' @ [CHR 0x5C] @ ''..'' @ [CHR 0x5C] @ ''etc'') \<and>
   \<not> isContained bare_fs ws_example
       (sanitize bare_fs ws_example (''a'' @ [CHR 0x5C] @ ''..'' @ [CHR 0x5C] @ ''..'' @ [CHR 0x5C] @ ''etc''))"
  by (simp add: path_eval isContained_def sanitize_def at_or_below_def)

end
