(* ===== verification/Plan_Builder.thy ===== *)
theory Plan_Builder
  imports Task_Executor Model_Router Char_Class
begin

text \<open>
  The planner: \<open>src/src/planner/planner.h\<close> and \<open>planner.cpp\<close>. It asks a model for a task graph, turns
  the reply into a \<open>TaskGraph\<close>, and chooses or refines among several replies.

  \<^item> The router or provider is a function of the messages (\<open>model_source\<close>).
  \<^item> The search for the fenced block (\<open>std::regex\<close>), \<open>nlohmann::json\<close> and \<open>toJsonString\<close> are parameters: the
    first two together map a reply to a \<open>plan_json\<close>, which says for each entry of \<open>nodes\<close> which members
    it has, or that reading it throws.
  \<^item> Scores are the numbers 0, 70, 85 and 100, so they are kept as integers. The notes of a branch are
    written and never read; they are left out.
\<close>

subsection \<open>Data\<close>

datatype PlanStrategyType = ChainOfThought | TreeOfThought | Reflection

record TreeBranchCandidate =
  branch_id :: string
  rationale :: string
  tb_graph :: TaskGraph
  tb_score :: int

record PlannerStats =
  total_plans_created :: nat
  cot_plans :: nat
  tot_plans :: nat
  reflection_plans :: nat
  executed_graphs :: nat
  successful_graphs :: nat

definition new_PlannerStats :: PlannerStats where
  "new_PlannerStats = \<lparr>total_plans_created = 0, cot_plans = 0, tot_plans = 0, reflection_plans = 0,
     executed_graphs = 0, successful_graphs = 0\<rparr>"

record Message =
  msg_role :: string
  msg_content :: string

datatype model_source =
    From_Router "Message list \<Rightarrow> ModelResponse"
  | From_Provider "Message list \<Rightarrow> ModelResponse"
  | No_Model

record node_json =
  nj_id :: "string option"
  nj_title :: "string option"
  nj_description :: "string option"
  nj_agent :: "AgentType option"
  nj_dependencies :: "string list option"

text \<open>A reply that does not parse, one without an array of nodes, and the entries of that array.\<close>

datatype plan_json = Bad_Json | No_Nodes | Nodes_Json "node_json option list"

subsection \<open>Asking the model\<close>

definition default_reply :: string where
  \<open>default_reply = ''```json'' @ [newline] @ ''{'' @ [newline] @
    ''  "nodes": ['' @ [newline] @
    ''    {"id": "research", "title": "Research Codebase", "description": "Inspect files", "assigned_agent_type": 1, "dependencies": []},'' @ [newline] @
    ''    {"id": "code", "title": "Write Implementation", "description": "Apply edits", "assigned_agent_type": 2, "dependencies": ["research"]},'' @ [newline] @
    ''    {"id": "test", "title": "Run Test Suite", "description": "Execute tests", "assigned_agent_type": 3, "dependencies": ["code"]}'' @ [newline] @
    ''  ]'' @ [newline] @ ''}'' @ [newline] @ ''```''\<close>

definition callModel :: "model_source \<Rightarrow> string \<Rightarrow> string \<Rightarrow> string" where
  "callModel src prompt system_prompt =
     (let msgs = (if system_prompt \<noteq> [] then [\<lparr>msg_role = ''system'', msg_content = system_prompt\<rparr>] else []) @
                 [\<lparr>msg_role = ''user'', msg_content = prompt\<rparr>]
      in case src of
           From_Router ask \<Rightarrow> let resp = ask msgs in if rs_success resp then rs_content resp else default_reply
         | From_Provider ask \<Rightarrow> let resp = ask msgs in if rs_success resp then rs_content resp else default_reply
         | No_Model \<Rightarrow> default_reply)"

subsection \<open>From a reply to a graph\<close>

definition value_or :: "'a \<Rightarrow> 'a option \<Rightarrow> 'a" where
  "value_or d v = (case v of None \<Rightarrow> d | Some x \<Rightarrow> x)"

definition json_node :: "node_json \<Rightarrow> TaskGraph \<Rightarrow> TaskNode" where
  "json_node nj g = default_TaskNode
     \<lparr>tn_id := value_or (''task_'' @ nat_string (tg_size g + 1)) (nj_id nj),
      tn_title := value_or ''Task'' (nj_title nj),
      tn_description := value_or [] (nj_description nj),
      assigned_agent_type := value_or Coder (nj_agent nj),
      dependencies := value_or [] (nj_dependencies nj)\<rparr>"

definition linear_node :: "string \<Rightarrow> string \<Rightarrow> string \<Rightarrow> AgentType \<Rightarrow> string list \<Rightarrow> TaskNode" where
  "linear_node i t d a deps = default_TaskNode
     \<lparr>tn_id := i, tn_title := t, tn_description := d, assigned_agent_type := a, dependencies := deps\<rparr>"

text \<open>The handler of any exception adds its three nodes to the graph built so far.\<close>

definition add_default_nodes :: "TaskGraph \<Rightarrow> TaskGraph" where
  "add_default_nodes g =
     (let n1 = linear_node ''n1'' ''Research'' ''Research files'' Researcher [];
          n2 = linear_node ''n2'' ''Code'' ''Implement changes'' Coder [''n1''];
          n3 = linear_node ''n3'' ''Test'' ''Verify build and tests'' Tester [''n2'']
      in snd (addNode n3 (snd (addNode n2 (snd (addNode n1 g))))))"

fun add_json_nodes :: "node_json option list \<Rightarrow> TaskGraph \<Rightarrow> TaskGraph" where
  "add_json_nodes [] g = g"
| "add_json_nodes (None # njs) g = add_default_nodes g"
| "add_json_nodes (Some nj # njs) g = add_json_nodes njs (snd (addNode (json_node nj g) g))"

definition parsePlanJsonToGraph :: "(string \<Rightarrow> plan_json) \<Rightarrow> string \<Rightarrow> string \<Rightarrow> TaskGraph" where
  "parsePlanJsonToGraph parse reply gl =
     (case parse reply of
        Bad_Json \<Rightarrow> add_default_nodes (new_TaskGraph gl)
      | No_Nodes \<Rightarrow> new_TaskGraph gl
      | Nodes_Json njs \<Rightarrow> add_json_nodes njs (new_TaskGraph gl))"

subsection \<open>The strategies\<close>

definition cot_system_prompt :: string where
  "cot_system_prompt = ''You are an expert software planning agent.'' @ [newline] @
     ''Generate a Directed Acyclic Graph (DAG) of tasks in a ```json code block.'' @ [newline] @
     ''Each node has '' @ [CHR 0x27] @ ''id'' @ [CHR 0x27] @ '', '' @ [CHR 0x27] @ ''title'' @ [CHR 0x27] @ '', '' @
     [CHR 0x27] @ ''description'' @ [CHR 0x27] @ '', '' @ [CHR 0x27] @ ''assigned_agent_type'' @ [CHR 0x27] @
     '' (1=Researcher, 2=Coder, 3=Tester, 4=Reviewer, 8=Debugger), and '' @
     [CHR 0x27] @ ''dependencies'' @ [CHR 0x27] @ ''.''"

definition planWithCoT :: "(string \<Rightarrow> plan_json) \<Rightarrow> model_source \<Rightarrow> string \<Rightarrow> TaskGraph" where
  "planWithCoT parse src gl =
     parsePlanJsonToGraph parse
       (callModel src (''Goal: '' @ gl @ [newline] @ ''Decompose this goal into a DAG task graph.'') cot_system_prompt) gl"

definition evaluateBranchViability :: "TaskGraph \<Rightarrow> int" where
  "evaluateBranchViability g =
     (if tg_empty g then 0
      else if hasCycle g then 0
      else 70 + (if list_ex (\<lambda>n. assigned_agent_type n = Researcher) (getAllNodes g) then 15 else 0)
              + (if list_ex (\<lambda>n. assigned_agent_type n = Tester) (getAllNodes g) then 15 else 0))"

definition tot_branch :: "(string \<Rightarrow> plan_json) \<Rightarrow> model_source \<Rightarrow> string \<Rightarrow> string \<Rightarrow> string \<Rightarrow> string \<Rightarrow> TreeBranchCandidate" where
  "tot_branch parse src gl strategy i r =
     (let g = parsePlanJsonToGraph parse
            (callModel src (''Goal: '' @ gl @ [newline] @ ''Strategy: '' @ strategy) []) gl
      in \<lparr>branch_id = i, rationale = r, tb_graph = g, tb_score = evaluateBranchViability g\<rparr>)"

definition tot_candidates :: "(string \<Rightarrow> plan_json) \<Rightarrow> model_source \<Rightarrow> string \<Rightarrow> nat \<Rightarrow> TreeBranchCandidate list" where
  "tot_candidates parse src gl num_branches =
     [tot_branch parse src gl ''Minimalist, surgical incremental change.''
        ''branch_minimal'' ''Incremental surgical modifications'',
      tot_branch parse src gl ''Comprehensive modular architecture with full testing.''
        ''branch_modular'' ''Full modular architecture''] @
     (if num_branches \<ge> 3 then
        [tot_branch parse src gl ''Defensive implementation with thorough validation & rollback checkpoints.''
           ''branch_defensive'' ''Defensive with safety checkpoints'']
      else [])"

text \<open>\<open>std::max_element\<close>: the first element that none is greater than.\<close>

fun max_candidate :: "TreeBranchCandidate \<Rightarrow> TreeBranchCandidate list \<Rightarrow> TreeBranchCandidate" where
  "max_candidate best [] = best"
| "max_candidate best (c # cs) = max_candidate (if tb_score best < tb_score c then c else best) cs"

definition planWithToT :: "(string \<Rightarrow> plan_json) \<Rightarrow> model_source \<Rightarrow> string \<Rightarrow> nat \<Rightarrow> TaskGraph" where
  "planWithToT parse src gl num_branches =
     (let cs = tot_candidates parse src gl num_branches in tb_graph (max_candidate (hd cs) (tl cs)))"

definition planWithReflection :: "(TaskGraph \<Rightarrow> string) \<Rightarrow> (string \<Rightarrow> plan_json) \<Rightarrow> model_source \<Rightarrow> string \<Rightarrow> TaskGraph" where
  "planWithReflection to_json parse src gl =
     (let draft = planWithCoT parse src gl;
          critique = ''Critique and refine this execution graph for goal: '' @ gl @ [newline] @
            ''Draft Graph JSON:'' @ [newline] @ to_json draft @ [newline, newline] @
            ''Ensure all edge cases, missing file prerequisites, and verification steps are covered.'';
          refined = parsePlanJsonToGraph parse
            (callModel src critique ''You are a master code architect reviewing execution graphs.'') gl
      in if tg_empty refined then draft else refined)"

definition createPlan :: "(TaskGraph \<Rightarrow> string) \<Rightarrow> (string \<Rightarrow> plan_json) \<Rightarrow> model_source \<Rightarrow> string \<Rightarrow> PlanStrategyType \<Rightarrow>
    PlannerStats \<Rightarrow> TaskGraph \<times> PlannerStats" where
  "createPlan to_json parse src gl strategy st =
     (let st1 = st\<lparr>total_plans_created := total_plans_created st + 1\<rparr>
      in case strategy of
           TreeOfThought \<Rightarrow> (planWithToT parse src gl 3, st1\<lparr>tot_plans := tot_plans st1 + 1\<rparr>)
         | Reflection \<Rightarrow> (planWithReflection to_json parse src gl, st1\<lparr>reflection_plans := reflection_plans st1 + 1\<rparr>)
         | ChainOfThought \<Rightarrow> (planWithCoT parse src gl, st1\<lparr>cot_plans := cot_plans st1 + 1\<rparr>))"

text \<open>\<open>executePlan\<close> around the run of the executor, whose summary it is given.\<close>

definition executePlan :: "TaskGraphExecutionSummary \<Rightarrow> PlannerStats \<Rightarrow> PlannerStats" where
  "executePlan summary st =
     (let st1 = st\<lparr>executed_graphs := executed_graphs st + 1\<rparr>
      in if sm_success summary then st1\<lparr>successful_graphs := successful_graphs st1 + 1\<rparr> else st1)"

subsection \<open>Every plan is a sound graph\<close>

lemma add_default_nodes_inv: "tg_inv g \<Longrightarrow> tg_inv (add_default_nodes g)"
  by (simp add: add_default_nodes_def addNode_inv)

lemma add_json_nodes_inv: "tg_inv g \<Longrightarrow> tg_inv (add_json_nodes njs g)"
  by (induction njs g rule: add_json_nodes.induct) (simp_all add: addNode_inv add_default_nodes_inv)

lemma plan_inv: "tg_inv (parsePlanJsonToGraph parse t g)"
  by (simp add: parsePlanJsonToGraph_def add_default_nodes_inv add_json_nodes_inv tg_inv_new split: plan_json.split)

lemma addNode_ids: "node_ids_of (snd (addNode n g)) = push_unique (tn_id n) (node_ids_of g)"
proof (cases "map_of (nodes g) (tn_id n)")
  case None
  then show ?thesis by (simp add: addNode_keys push_unique_def del: keys_map_entry)
next
  case (Some x)
  then show ?thesis by (simp add: addNode_def push_unique_def)
qed

lemma max_candidate_best:
  "max_candidate b cs \<in> set (b # cs) \<and> (\<forall>c \<in> set (b # cs). tb_score c \<le> tb_score (max_candidate b cs))"
proof (induction cs arbitrary: b)
  case Nil
  then show ?case by simp
next
  case (Cons c cs)
  from Cons.IH [of "if tb_score b < tb_score c then c else b"] show ?case
    by (auto split: if_splits)
qed

lemma viability_positive: "evaluateBranchViability g > 0 \<longleftrightarrow> \<not> tg_empty g \<and> \<not> hasCycle g"
  by (simp add: evaluateBranchViability_def)

end
