(* ===== verification/Plan_Properties.thy ===== *)
theory Plan_Properties
  imports Plan_Builder
begin

text \<open>
  What the planner promises: a reply becomes the graph it declares, whatever order its nodes come in,
  and the tree of thought hands out the first of the best branches.
\<close>

subsection \<open>The graph a reply declares\<close>

text \<open>A declared node: its id and the ids it depends on.\<close>

type_synonym decl = "string \<times> string list"

definition declared :: "decl list \<Rightarrow> string \<Rightarrow> string \<Rightarrow> bool" where
  "declared ds a b \<longleftrightarrow> (\<exists>l. (b, l) \<in> set ds \<and> a \<in> set l)"

text \<open>
  While the nodes are added, the graph names every declared dependency, and the reverse direction is
  there for each prerequisite that has been added already.
\<close>

definition graph_of :: "TaskGraph \<Rightarrow> decl list \<Rightarrow> bool" where
  "graph_of g ds \<longleftrightarrow> node_ids_of g = map fst ds \<and>
     (\<forall>a b. names_dependency (nodes g) a b \<longleftrightarrow> declared ds a b) \<and>
     (\<forall>a b. names_dependent (nodes g) a b \<longleftrightarrow> a \<in> fst ` set ds \<and> declared ds a b)"

lemma graph_of_add:
  assumes g: "graph_of g ds" and new: "tn_id n \<notin> fst ` set ds" and ni: "dependents n = []"
  shows "graph_of (snd (addNode n g)) (ds @ [(tn_id n, dependencies n)])"
proof -
  let ?i = "tn_id n"
  have ids: "set (node_ids_of g) = fst ` set ds"
    using g by (simp add: graph_of_def del: in_um_keys)
  with new have fresh: "map_of (nodes g) ?i = None"
    using in_um_keys [of ?i "nodes g"] by blast
  have dep: "names_dependency (nodes g) a b \<longleftrightarrow> declared ds a b"
    and rev: "names_dependent (nodes g) a b \<longleftrightarrow> a \<in> fst ` set ds \<and> declared ds a b" for a b
    using g by (simp_all add: graph_of_def)
  have none: "\<not> declared ds a ?i" for a
    using new by (force simp: declared_def)
  have more: "declared (ds @ [(?i, dependencies n)]) a b \<longleftrightarrow>
      (if b = ?i then a \<in> set (dependencies n) else declared ds a b)" for a b
    using none [of a] by (auto simp: declared_def)
  have in_ds: "declared ds a b \<Longrightarrow> b \<in> fst ` set ds" for a b
    by (force simp: declared_def)
  show ?thesis
    unfolding graph_of_def addNode_keys [OF fresh] addNode_names [OF fresh] dep rev more ids ni
    using g none new in_ds by (auto simp: graph_of_def)
qed

definition decl_of :: "node_json \<Rightarrow> decl" where
  "decl_of nj = (value_or [] (nj_id nj), value_or [] (nj_dependencies nj))"

lemma graph_of_json:
  "graph_of g ds \<Longrightarrow> list_all (\<lambda>nj. nj_id nj \<noteq> None) njs \<Longrightarrow>
   distinct (map fst ds @ map (fst \<circ> decl_of) njs) \<Longrightarrow>
   graph_of (add_json_nodes (map Some njs) g) (ds @ map decl_of njs)"
proof (induction njs arbitrary: g ds)
  case Nil
  then show ?case by simp
next
  case (Cons nj njs)
  let ?n = "json_node nj g"
  from Cons.prems(2) obtain i where i: "nj_id nj = Some i" by auto
  have n: "tn_id ?n = fst (decl_of nj)" "dependencies ?n = snd (decl_of nj)" "dependents ?n = []"
    using i by (simp_all add: json_node_def decl_of_def value_or_def default_TaskNode_def)
  have "graph_of (snd (addNode ?n g)) (ds @ [decl_of nj])"
    using graph_of_add [OF Cons.prems(1), of ?n] Cons.prems(3) n by auto
  from Cons.IH [OF this] Cons.prems show ?case by simp
qed

lemma graph_of_edges:
  "graph_of g ds \<Longrightarrow> tg_edges g = {(a, b). a \<in> fst ` set ds \<and> declared ds a b}"
  by (auto simp: tg_edges_def graph_of_def declared_def simp del: in_um_keys intro: rev_image_eqI)

text \<open>The ids and dependencies of the entries, read back from the declarations.\<close>

lemma decl_ids: "list_all (\<lambda>nj. nj_id nj \<noteq> None) njs \<Longrightarrow> map Some (map (fst \<circ> decl_of) njs) = map nj_id njs"
  by (induction njs) (auto simp: decl_of_def value_or_def)

lemma listed_ids:
  assumes "list_all (\<lambda>nj. nj_id nj \<noteq> None) njs"
  shows "d \<in> fst ` set (map decl_of njs) \<longleftrightarrow> Some d \<in> nj_id ` set njs"
proof -
  have "nj_id ` set njs = Some ` fst ` set (map decl_of njs)"
    using arg_cong [OF decl_ids [OF assms], of set] by (simp add: image_image)
  then show ?thesis by auto
qed

lemma declared_json:
  "list_all (\<lambda>nj. nj_id nj \<noteq> None) njs \<Longrightarrow> declared (map decl_of njs) d i \<longleftrightarrow>
     (\<exists>nj \<in> set njs. nj_id nj = Some i \<and> d \<in> set (value_or [] (nj_dependencies nj)))"
proof (induction njs)
  case Nil
  then show ?case by (simp add: declared_def)
next
  case (Cons nj njs)
  then have "declared (map decl_of (nj # njs)) d i \<longleftrightarrow>
      nj_id nj = Some i \<and> d \<in> set (value_or [] (nj_dependencies nj)) \<or> declared (map decl_of njs) d i"
    by (auto simp: declared_def decl_of_def value_or_def [of _ "nj_id nj"])
  with Cons show ?case by simp
qed

lemma parsed_prefix:
  assumes "list_all (\<lambda>nj. nj_id nj \<noteq> None) njs" "distinct (map nj_id njs)"
  shows "graph_of (add_json_nodes (map Some njs) (new_TaskGraph gl)) (map decl_of njs)"
proof -
  have "distinct (map (fst \<circ> decl_of) njs)"
    using assms(2) decl_ids [OF assms(1)] by (metis distinct_map)
  moreover have "graph_of (new_TaskGraph gl) []"
    by (simp add: graph_of_def new_TaskGraph_def declared_def names_dependency_def names_dependent_def)
  ultimately show ?thesis
    using graph_of_json [of "new_TaskGraph gl" "[]" njs] assms(1) by simp
qed

text \<open>
  When the reply lists nodes with different ids, the plan has exactly these nodes in this order, and
  its edges are exactly the declared dependencies on listed nodes, also when the prerequisite is listed
  after the node that names it; names of unlisted nodes give no edge.
\<close>

theorem plan_graph_exact:
  assumes "parse reply = Nodes_Json (map Some njs)" "list_all (\<lambda>nj. nj_id nj \<noteq> None) njs"
    "distinct (map nj_id njs)" "g = parsePlanJsonToGraph parse reply gl"
  shows "map Some (node_ids_of g) = map nj_id njs \<and>
    tg_edges g = {(d, i). \<exists>nj \<in> set njs. nj_id nj = Some i \<and> d \<in> set (value_or [] (nj_dependencies nj)) \<and>
      Some d \<in> nj_id ` set njs}"
proof -
  have g: "graph_of g (map decl_of njs)"
    using parsed_prefix [OF assms(2,3)] assms(1,4) by (simp add: parsePlanJsonToGraph_def)
  have "tg_edges g = {(d, i). \<exists>nj \<in> set njs. nj_id nj = Some i \<and> d \<in> set (value_or [] (nj_dependencies nj)) \<and>
      Some d \<in> nj_id ` set njs}"
    unfolding graph_of_edges [OF g] listed_ids [OF assms(2)] declared_json [OF assms(2)] by auto
  moreover have "map Some (node_ids_of g) = map nj_id njs"
    using g decl_ids [OF assms(2)] by (simp add: graph_of_def)
  ultimately show ?thesis by blast
qed

text \<open>The three nodes of the handler, as declarations.\<close>

definition default_decls :: "decl list" where
  "default_decls = [(''n1'', []), (''n2'', [''n1'']), (''n3'', [''n2''])]"

lemma add_json_nodes_break: "add_json_nodes (map Some njs @ None # rest) g = add_default_nodes (add_json_nodes (map Some njs) g)"
  by (induction njs arbitrary: g) simp_all

lemma graph_of_default:
  assumes "graph_of g ds" "fst ` set ds \<inter> {''n1'', ''n2'', ''n3''} = {}"
  shows "graph_of (add_default_nodes g) (ds @ default_decls)"
proof -
  have node: "tn_id (linear_node i t d a l) = i" "dependencies (linear_node i t d a l) = l"
    "dependents (linear_node i t d a l) = []" for i t d a l
    by (simp_all add: linear_node_def default_TaskNode_def)
  have add: "graph_of h es \<Longrightarrow> i \<notin> fst ` set es \<Longrightarrow>
      graph_of (snd (addNode (linear_node i t d a l) h)) (es @ [(i, l)])" for h es i t d a l
    using graph_of_add [of h es "linear_node i t d a l"] by (simp add: node)
  have "graph_of (add_default_nodes g) (((ds @ [(''n1'', [])]) @ [(''n2'', [''n1''])]) @ [(''n3'', [''n2''])])"
    unfolding add_default_nodes_def Let_def
    using assms by (intro add) auto
  then show ?thesis by (simp add: default_decls_def)
qed

text \<open>
  A reply whose reading throws at some entry does not give the default plan: the nodes before that
  entry stay, the default chain n1, n2, n3 is added behind them, and everything after it is lost.
\<close>

theorem plan_broken_reply:
  assumes "parse reply = Nodes_Json (map Some njs @ None # rest)" "list_all (\<lambda>nj. nj_id nj \<noteq> None) njs"
    "distinct (map nj_id njs)" "\<forall>nj \<in> set njs. nj_id nj \<notin> {Some ''n1'', Some ''n2'', Some ''n3''}"
    "g = parsePlanJsonToGraph parse reply gl"
  shows "map Some (node_ids_of g) = map nj_id njs @ [Some ''n1'', Some ''n2'', Some ''n3''] \<and>
    (\<forall>d i. (d, i) \<in> tg_edges g \<longleftrightarrow>
      d \<in> set (node_ids_of g) \<and> declared (map decl_of njs @ default_decls) d i)"
proof -
  have "d \<notin> fst ` set (map decl_of njs)" if "d \<in> {''n1'', ''n2'', ''n3''}" for d
    using that assms(4) unfolding listed_ids [OF assms(2)] by (auto simp: image_iff)
  then have "fst ` set (map decl_of njs) \<inter> {''n1'', ''n2'', ''n3''} = {}"
    by blast
  then have g: "graph_of g (map decl_of njs @ default_decls)"
    using graph_of_default [OF parsed_prefix [OF assms(2,3)]] assms(1,5) by (simp add: parsePlanJsonToGraph_def add_json_nodes_break)
  then have keys: "node_ids_of g = map fst (map decl_of njs @ default_decls)"
    by (simp add: graph_of_def)
  then have "set (node_ids_of g) = fst ` set (map decl_of njs @ default_decls)"
    by (simp only: set_map)
  with graph_of_edges [OF g]
  have "(d, i) \<in> tg_edges g \<longleftrightarrow> d \<in> set (node_ids_of g) \<and> declared (map decl_of njs @ default_decls) d i" for d i
    by (simp del: in_um_keys)
  with keys decl_ids [OF assms(2)] show ?thesis by (simp add: default_decls_def)
qed

text \<open>A plan of two steps, the later one listed first; and a reply that breaks off after one node.\<close>

definition step_json :: "string \<Rightarrow> AgentType \<Rightarrow> string list \<Rightarrow> node_json" where
  "step_json i a ds = \<lparr>nj_id = Some i, nj_title = None, nj_description = None, nj_agent = Some a, nj_dependencies = Some ds\<rparr>"

definition two_steps :: "node_json list" where
  "two_steps = [step_json ''test'' Tester [''code'', ''lint''], step_json ''code'' Coder []]"

definition demo_parse :: "string \<Rightarrow> plan_json" where
  "demo_parse t =
     (if t = ''two'' then Nodes_Json (map Some two_steps)
      else if t = ''cyclic'' then Nodes_Json [Some (step_json ''a'' Coder [''a''])]
      else if t = ''half'' then Nodes_Json [Some (step_json ''test'' Tester [''code'']), None]
      else if t = ''none'' then No_Nodes
      else Bad_Json)"

theorem plan_graph_exact_witness:
  "tg_edges (parsePlanJsonToGraph demo_parse ''two'' ''ship'') = {(''code'', ''test'')}"
proof -
  have "demo_parse ''two'' = Nodes_Json (map Some two_steps)" "list_all (\<lambda>nj. nj_id nj \<noteq> None) two_steps"
    "distinct (map nj_id two_steps)"
    by (simp_all add: demo_parse_def two_steps_def step_json_def)
  note exact = plan_graph_exact [where parse = demo_parse and reply = "''two''" and gl = "''ship''", OF this refl]
  show ?thesis
    using conjunct2 [OF exact]
    by (auto simp: two_steps_def step_json_def value_or_def)
qed

theorem plan_broken_reply_witness:
  "node_ids_of (parsePlanJsonToGraph demo_parse ''half'' ''ship'') = [''test'', ''n1'', ''n2'', ''n3'']"
proof -
  let ?njs = "[step_json ''test'' Tester [''code'']]"
  have "demo_parse ''half'' = Nodes_Json (map Some ?njs @ None # [])" "list_all (\<lambda>nj. nj_id nj \<noteq> None) ?njs"
    "distinct (map nj_id ?njs)" "\<forall>nj \<in> set ?njs. nj_id nj \<notin> {Some ''n1'', Some ''n2'', Some ''n3''}"
    by (simp_all add: demo_parse_def step_json_def)
  note broken = plan_broken_reply [where parse = demo_parse and reply = "''half''" and gl = "''ship''", OF this refl]
  show ?thesis
    using conjunct1 [OF broken]
    by (simp add: step_json_def map_eq_Cons_conv)
qed

subsection \<open>The choice of a branch\<close>

lemma max_candidate_first:
  "\<exists>i < length (b # cs). max_candidate b cs = (b # cs) ! i \<and>
     (\<forall>j < i. tb_score ((b # cs) ! j) < tb_score (max_candidate b cs))"
proof (induction cs arbitrary: b)
  case Nil
  then show ?case by simp
next
  case (Cons c cs)
  show ?case
  proof (cases "tb_score b < tb_score c")
    case True
    with Cons.IH [of c] obtain i where i: "i < length (c # cs)" "max_candidate c cs = (c # cs) ! i"
      "\<forall>j < i. tb_score ((c # cs) ! j) < tb_score (max_candidate c cs)" by blast
    have "tb_score b < tb_score (max_candidate c cs)"
      using True max_candidate_best [of c cs] by fastforce
    with i have "\<forall>j < Suc i. tb_score ((b # c # cs) ! j) < tb_score (max_candidate c cs)"
      by (auto simp: less_Suc_eq_0_disj)
    with i True show ?thesis by (intro exI [of _ "Suc i"]) simp
  next
    case False
    with Cons.IH [of b] obtain i where i: "i < length (b # cs)" "max_candidate b cs = (b # cs) ! i"
      "\<forall>j < i. tb_score ((b # cs) ! j) < tb_score (max_candidate b cs)" by blast
    show ?thesis
    proof (cases i)
      case 0
      with i False show ?thesis by (intro exI [of _ 0]) simp
    next
      case (Suc k)
      from i(3) Suc have b: "tb_score b < tb_score (max_candidate b cs)" by force
      from Suc i(3) b False have "\<forall>j < Suc (Suc k). tb_score ((b # c # cs) ! j) < tb_score (max_candidate b cs)"
        by (auto simp: less_Suc_eq_0_disj)
      with Suc i False show ?thesis by (intro exI [of _ "Suc (Suc k)"]) simp
    qed
  qed
qed

text \<open>
  The tree of thought builds two branches, or three when three are asked for, and returns the graph
  of the first one whose score is the highest. Every branch graph keeps the invariant of task graphs, and
  when some branch has nodes and no cycle, so has the result.
\<close>

theorem tot_best_branch:
  assumes "cs = tot_candidates parse src gl k"
  shows "length cs = (if k < 3 then 2 else 3) \<and>
    (\<exists>i < length cs. planWithToT parse src gl k = tb_graph (cs ! i) \<and>
      (\<forall>j < length cs. tb_score (cs ! j) \<le> tb_score (cs ! i)) \<and> (\<forall>j < i. tb_score (cs ! j) < tb_score (cs ! i))) \<and>
    tg_inv (planWithToT parse src gl k) \<and>
    ((\<exists>c \<in> set cs. \<not> tg_empty (tb_graph c) \<and> \<not> hasCycle (tb_graph c)) \<longrightarrow>
      \<not> tg_empty (planWithToT parse src gl k) \<and> \<not> hasCycle (planWithToT parse src gl k))"
proof -
  let ?m = "max_candidate (hd cs) (tl cs)"
  have len: "length cs = (if k < 3 then 2 else 3)" and ne: "cs = hd cs # tl cs"
    using assms by (simp_all add: tot_candidates_def)
  have plan: "planWithToT parse src gl k = tb_graph ?m"
    by (simp add: planWithToT_def assms Let_def)
  have sound: "tb_score c = evaluateBranchViability (tb_graph c) \<and> tg_inv (tb_graph c)" if "c \<in> set cs" for c
    using that assms by (auto simp: tot_candidates_def tot_branch_def Let_def plan_inv split: if_splits)
  have best: "?m \<in> set cs" "\<And>c. c \<in> set cs \<Longrightarrow> tb_score c \<le> tb_score ?m"
    using max_candidate_best [of "hd cs" "tl cs"] ne by auto
  obtain i where i: "i < length cs" "?m = cs ! i" "\<forall>j < i. tb_score (cs ! j) < tb_score ?m"
    using max_candidate_first [of "hd cs" "tl cs"] ne by auto
  have "\<exists>i < length cs. tb_graph ?m = tb_graph (cs ! i) \<and>
      (\<forall>j < length cs. tb_score (cs ! j) \<le> tb_score (cs ! i)) \<and> (\<forall>j < i. tb_score (cs ! j) < tb_score (cs ! i))"
    using i best(2) by (intro exI [of _ i]) auto
  moreover have "\<not> tg_empty (tb_graph ?m) \<and> \<not> hasCycle (tb_graph ?m)"
    if c: "c \<in> set cs" "\<not> tg_empty (tb_graph c) \<and> \<not> hasCycle (tb_graph c)" for c
  proof -
    have "0 < tb_score c" using sound [OF c(1)] c(2) viability_positive by simp
    with best(2) [OF c(1)] have "0 < tb_score ?m" by simp
    with sound [OF best(1)] show ?thesis using viability_positive by simp
  qed
  ultimately show ?thesis
    unfolding plan using len sound [OF best(1)] by blast
qed

text \<open>A model that answers the second prompt with a plan, the first with a cycle and the third with nothing.\<close>

definition demo_model :: model_source where
  "demo_model = From_Router (\<lambda>ms. empty_response\<lparr>rs_success := True, rs_content :=
     (let p = msg_content (last ms) in
      if contains p ''Minimalist'' then ''cyclic'' else if contains p ''Comprehensive'' then ''two'' else ''none'')\<rparr>)"

theorem tot_best_branch_witness:
  "\<not> hasCycle (planWithToT demo_parse demo_model ''ship'' 3) \<and> tg_inv (planWithToT demo_parse demo_model ''ship'' 3)"
proof -
  have "\<exists>c \<in> set (tot_candidates demo_parse demo_model ''ship'' 3). \<not> tg_empty (tb_graph c) \<and> \<not> hasCycle (tb_graph c)"
    by code_simp
  with tot_best_branch [OF refl, of demo_parse demo_model "''ship''" 3] show ?thesis by blast
qed

end
