(* ===== verification/Sha256_Vector.thy ===== *)
theory Sha256_Vector
  imports Sha256
begin

text \<open>
  The routine evaluated on the test vector \<open>abc\<close> of the standard, in pieces: the words of its one block,
  and the 64 rounds in four quarters.
\<close>

definition abc_words :: "32 word list" where
  "abc_words = [0x61626380, 0x00000000, 0x00000000, 0x00000000, 0x00000000, 0x00000000, 0x00000000, 0x00000000,
    0x00000000, 0x00000000, 0x00000000, 0x00000000, 0x00000000, 0x00000000, 0x00000000, 0x00000018,
    0x61626380, 0x000f0000, 0x7da86405, 0x600003c6, 0x3e9d7b78, 0x0183fc00, 0x12dcbfdb, 0xe2e2c38e,
    0xc8215c1a, 0xb73679a2, 0xe5bc3909, 0x32663c5b, 0x9d209d67, 0xec8726cb, 0x702138a4, 0xd3b7973b,
    0x93f5997f, 0x3b68ba73, 0xaff4ffc1, 0xf10a5c62, 0x0a8b3996, 0x72af830a, 0x9409e33e, 0x24641522,
    0x9f47bf94, 0xf0a64f5a, 0x3e246a79, 0x27333ba3, 0x0c4763f2, 0x840abf27, 0x7a290d5d, 0x065c43da,
    0xfb3e89cb, 0xcc7617db, 0xb9e66c34, 0xa9993667, 0x84badedd, 0xc21462bc, 0x1487472c, 0xb20f7a99,
    0xef57b9cd, 0xebe6b238, 0x9fe3095e, 0x78bc8d4b, 0xa43fcf15, 0x668b2ff8, 0xeeaba2cc, 0x12b1edeb]"

lemma abc_first: "first_words (padded ''abc'') 0 = take 16 abc_words"
  by code_simp

lemma abc_schedule: "extend_words [16..<64] (take 16 abc_words) = abc_words"
  by code_simp

lemma abc_rounds_1: "hash_rounds [0..<16] abc_words (0x6a09e667, 0xbb67ae85, 0x3c6ef372, 0xa54ff53a, 0x510e527f, 0x9b05688c, 0x1f83d9ab, 0x5be0cd19) = (0xb0fa238e, 0xc0645fde, 0xd932eb16, 0x87912990, 0x07590dcd, 0x0b92f20c, 0x745a48de, 0x1e578218)"
  by code_simp

lemma abc_rounds_2: "hash_rounds [16..<32] abc_words (0xb0fa238e, 0xc0645fde, 0xd932eb16, 0x87912990, 0x07590dcd, 0x0b92f20c, 0x745a48de, 0x1e578218) = (0x73b33bf5, 0xea992a22, 0xa0060b30, 0x363482c9, 0xba591112, 0x0109ab3a, 0xade79437, 0x6112a3b7)"
  by code_simp

lemma abc_rounds_3: "hash_rounds [32..<48] abc_words (0x73b33bf5, 0xea992a22, 0xa0060b30, 0x363482c9, 0xba591112, 0x0109ab3a, 0xade79437, 0x6112a3b7) = (0x4172328d, 0xa14c14b0, 0x72ab4b91, 0x26628815, 0xfecf0bc6, 0xd57b94a9, 0xb7755da1, 0xa80f11f0)"
  by code_simp

lemma abc_rounds_4: "hash_rounds [48..<64] abc_words (0x4172328d, 0xa14c14b0, 0x72ab4b91, 0x26628815, 0xfecf0bc6, 0xd57b94a9, 0xb7755da1, 0xa80f11f0) = (0x506e3058, 0xd39a2165, 0x04d24d6c, 0xb85e2ce9, 0x5ef50f24, 0xfb121210, 0x948d25b6, 0x961f4894)"
  by code_simp

lemma hash_rounds_append: "hash_rounds (ts @ us) W x = hash_rounds us W (hash_rounds ts W x)"
  by (induction ts arbitrary: x) (simp_all add: hash_rounds.simps)

lemma abc_chunk: "hash_chunk (padded ''abc'') 0 initial_hash = (0xba7816bf, 0x8f01cfea, 0x414140de, 0x5dae2223,
    0xb00361a3, 0x96177a9c, 0xb410ff61, 0xf20015ad)"
proof -
  have "[0..<64] = [0..<16] @ [16..<32] @ [32..<48] @ [48..<(64::nat)]" by code_simp
  then have "hash_rounds [0..<64] abc_words initial_hash = (0x506e3058, 0xd39a2165, 0x04d24d6c, 0xb85e2ce9, 0x5ef50f24, 0xfb121210, 0x948d25b6, 0x961f4894)"
    unfolding initial_hash_def
    by (simp only: hash_rounds_append abc_rounds_1 abc_rounds_2 abc_rounds_3 abc_rounds_4)
  then have "hash_chunk (padded ''abc'') 0 initial_hash = hash_add initial_hash (0x506e3058, 0xd39a2165, 0x04d24d6c, 0xb85e2ce9, 0x5ef50f24, 0xfb121210, 0x948d25b6, 0x961f4894)"
    by (simp only: hash_chunk_def abc_first abc_schedule)
  also have "\<dots> = (0xba7816bf, 0x8f01cfea, 0x414140de, 0x5dae2223, 0xb00361a3, 0x96177a9c, 0xb410ff61, 0xf20015ad)"
    by code_simp
  finally show ?thesis .
qed

lemma sha256_abc: "sha256String ''abc'' = ''ba7816bf8f01cfea414140de5dae2223b00361a396177a9cb410ff61f20015ad''"
proof -
  have "length (padded ''abc'') = 64" by code_simp
  then have "chunk_loop (padded ''abc'') 0 initial_hash = hash_chunk (padded ''abc'') 0 initial_hash"
    using chunk_loop.simps [of "padded ''abc''" 0] chunk_loop.simps [of "padded ''abc''" 64] by simp
  then have "sha256String ''abc'' = concat (map hex8 (hash_list (0xba7816bf, 0x8f01cfea, 0x414140de, 0x5dae2223,
      0xb00361a3, 0x96177a9c, 0xb410ff61, 0xf20015ad)))"
    by (simp only: sha256String_def abc_chunk)
  also have "\<dots> = ''ba7816bf8f01cfea414140de5dae2223b00361a396177a9cb410ff61f20015ad''" by code_simp
  finally show ?thesis .
qed

end
