(* ===== verification/Sha256_Properties.thy ===== *)
theory Sha256_Properties
  imports Sha256_Vector
begin

text \<open>
  The routine against the definition of the standard (FIPS 180-4): the padding by a formula for the number
  of zeros, the message cut into blocks of 64 bytes, the schedule of a block by recursion on its index.
\<close>

subsection \<open>The definition of the standard\<close>








subsection \<open>Padding\<close>




subsection \<open>Schedule and rounds\<close>








end
