(* ===== verification/Diff_Engine.thy ===== *)
theory Diff_Engine
  imports Char_Class
begin

text \<open>
  The difference of two texts, from \<open>src/src/workspace/SnapshotManager.cpp\<close>: lines, the table of longest
  common subsequences, the walk back through it, the hunks with their context, and the report. Line
  numbers and counts are \<open>int\<close> in the code and far below its bound.
\<close>

subsection \<open>Lines\<close>

fun split_loop :: "string \<Rightarrow> string list \<Rightarrow> string \<Rightarrow> string list \<times> string" where
  "split_loop [] lines line = (lines, line)"
| "split_loop (c # cs) lines line =
     (if c = CHR 0x0D then split_loop cs lines line
      else if c = newline then split_loop cs (lines @ [line]) []
      else split_loop cs lines (line @ [c]))"

definition splitLines :: "string \<Rightarrow> string list" where
  "splitLines t =
     (case split_loop t [] [] of (lines, line) \<Rightarrow>
        if line \<noteq> [] \<or> (t \<noteq> [] \<and> last t = newline) then lines @ [line] else lines)"

subsection \<open>Edits\<close>

datatype EditType = Unchanged | Added | Deleted

record EditItem =
  ed_type :: EditType
  ed_text :: string
  old_line_idx :: nat
  new_line_idx :: nat

text \<open>
  A row of the table from the row before it: \<open>d\<close> and \<open>u\<close> are the cells at \<open>j - 1\<close> and \<open>j\<close> of the row
  before, \<open>left\<close> the cell at \<open>j - 1\<close> of the row itself.
\<close>

fun dp_cells :: "string \<Rightarrow> string list \<Rightarrow> nat list \<Rightarrow> nat \<Rightarrow> nat list" where
  "dp_cells x (y # ys) (d # u # prev) left =
     (let c = (if x = y then d + 1 else max u left) in c # dp_cells x ys (u # prev) c)"
| "dp_cells x ys prev left = []"

definition dp_row :: "string \<Rightarrow> string list \<Rightarrow> nat list \<Rightarrow> nat list" where
  "dp_row x ys prev = 0 # dp_cells x ys prev 0"

fun dp_rows :: "string list \<Rightarrow> string list \<Rightarrow> nat list \<Rightarrow> nat list list" where
  "dp_rows [] ys prev = []"
| "dp_rows (x # xs) ys prev = dp_row x ys prev # dp_rows xs ys (dp_row x ys prev)"

definition dp_table :: "string list \<Rightarrow> string list \<Rightarrow> nat list list" where
  "dp_table xs ys =
     (let zeros = replicate (length ys + 1) 0 in zeros # dp_rows xs ys zeros)"

text \<open>
  The walk from the end of both texts. The last branch has the condition
  \<open>i > 0 \<and> (j = 0 \<or> dp[i][j - 1] < dp[i - 1][j])\<close> in the code, which holds whenever the others do not.
\<close>

function walk_back :: "string list \<Rightarrow> string list \<Rightarrow> nat list list \<Rightarrow> nat \<Rightarrow> nat \<Rightarrow> EditItem list" where
  "walk_back xs ys dp i j =
     (if i = 0 \<and> j = 0 then []
      else if i > 0 \<and> j > 0 \<and> xs ! (i - 1) = ys ! (j - 1) then
        \<lparr>ed_type = Unchanged, ed_text = xs ! (i - 1), old_line_idx = i, new_line_idx = j\<rparr> # walk_back xs ys dp (i - 1) (j - 1)
      else if j > 0 \<and> (i = 0 \<or> dp ! i ! (j - 1) \<ge> dp ! (i - 1) ! j) then
        \<lparr>ed_type = Added, ed_text = ys ! (j - 1), old_line_idx = 0, new_line_idx = j\<rparr> # walk_back xs ys dp i (j - 1)
      else
        \<lparr>ed_type = Deleted, ed_text = xs ! (i - 1), old_line_idx = i, new_line_idx = 0\<rparr> # walk_back xs ys dp (i - 1) j)"
  by pat_completeness auto
termination
  by (relation "measure (\<lambda>(xs, ys, dp, i, j). i + j)") auto

declare walk_back.simps [simp del]

definition computeDiffEdits :: "string list \<Rightarrow> string list \<Rightarrow> EditItem list" where
  "computeDiffEdits xs ys = rev (walk_back xs ys (dp_table xs ys) (length xs) (length ys))"

subsection \<open>Hunks\<close>

record DiffHunk =
  dh_old_start :: int
  dh_old_lines :: int
  dh_new_start :: int
  dh_new_lines :: int
  dh_lines :: "string list"

text \<open>Changed indices that are at most \<open>2 * context\<close> apart share a cluster.\<close>

fun cluster_loop :: "nat \<Rightarrow> nat \<Rightarrow> nat \<Rightarrow> nat list \<Rightarrow> (nat \<times> nat) list" where
  "cluster_loop ctx st en [] = [(st, en)]"
| "cluster_loop ctx st en (k # ks) =
     (if k - en \<le> 2 * ctx then cluster_loop ctx st k ks else (st, en) # cluster_loop ctx k k ks)"

definition hunk_step :: "EditItem \<Rightarrow> DiffHunk \<Rightarrow> DiffHunk" where
  "hunk_step e h =
     (case ed_type e of
        Unchanged \<Rightarrow> h\<lparr>dh_old_start := (if dh_old_start h = -1 then int (old_line_idx e) else dh_old_start h),
          dh_new_start := (if dh_new_start h = -1 then int (new_line_idx e) else dh_new_start h),
          dh_old_lines := dh_old_lines h + 1, dh_new_lines := dh_new_lines h + 1,
          dh_lines := dh_lines h @ [CHR '' '' # ed_text e]\<rparr>
      | Deleted \<Rightarrow> h\<lparr>dh_old_start := (if dh_old_start h = -1 then int (old_line_idx e) else dh_old_start h),
          dh_old_lines := dh_old_lines h + 1, dh_lines := dh_lines h @ [CHR ''-'' # ed_text e]\<rparr>
      | Added \<Rightarrow> h\<lparr>dh_new_start := (if dh_new_start h = -1 then int (new_line_idx e) else dh_new_start h),
          dh_new_lines := dh_new_lines h + 1, dh_lines := dh_lines h @ [CHR ''+'' # ed_text e]\<rparr>)"

definition empty_hunk :: DiffHunk where
  "empty_hunk = \<lparr>dh_old_start = -1, dh_old_lines = 0, dh_new_start = -1, dh_new_lines = 0, dh_lines = []\<rparr>"

definition finish_hunk :: "DiffHunk \<Rightarrow> DiffHunk" where
  "finish_hunk h = h\<lparr>dh_old_start := (if dh_old_start h = -1 then 1 else dh_old_start h),
     dh_new_start := (if dh_new_start h = -1 then 1 else dh_new_start h)\<rparr>"

definition hunk_range :: "EditItem list \<Rightarrow> nat \<Rightarrow> nat \<times> nat \<Rightarrow> nat \<times> nat" where
  "hunk_range edits ctx c = (case c of (c_start, c_end) \<Rightarrow>
     (if c_start \<ge> ctx then c_start - ctx else 0, min (length edits - 1) (c_end + ctx)))"

definition build_hunk :: "EditItem list \<Rightarrow> nat \<Rightarrow> nat \<times> nat \<Rightarrow> DiffHunk" where
  "build_hunk edits ctx c = (case hunk_range edits ctx c of (h_start, h_end) \<Rightarrow>
     finish_hunk (fold (\<lambda>idx. hunk_step (edits ! idx)) [h_start..<Suc h_end] empty_hunk))"

definition buildHunks :: "EditItem list \<Rightarrow> nat \<Rightarrow> DiffHunk list" where
  "buildHunks edits ctx =
     (if edits = [] then []
      else case filter (\<lambda>k. ed_type (edits ! k) \<noteq> Unchanged) [0..<length edits] of
          [] \<Rightarrow> []
        | k # ks \<Rightarrow> map (build_hunk edits ctx) (cluster_loop ctx k k ks))"

subsection \<open>The report\<close>

record FileDiff =
  fd_old_path :: string
  fd_new_path :: string
  is_new_file :: bool
  is_deleted_file :: bool
  fd_hunks :: "DiffHunk list"
  additions :: int
  deletions :: int

record UnifiedDiffReport =
  base_snapshot_or_commit :: string
  file_diffs :: "FileDiff list"
  raw_unified_diff :: string
  total_additions :: int
  total_deletions :: int
  total_files_changed :: int

definition empty_report :: UnifiedDiffReport where
  "empty_report = \<lparr>base_snapshot_or_commit = [], file_diffs = [], raw_unified_diff = [],
     total_additions = 0, total_deletions = 0, total_files_changed = 0\<rparr>"

definition line_count :: "char \<Rightarrow> DiffHunk list \<Rightarrow> int" where
  "line_count c hs = int (length (filter (\<lambda>l. l \<noteq> [] \<and> hd l = c) (concat (map dh_lines hs))))"

definition hunk_text :: "DiffHunk \<Rightarrow> string" where
  "hunk_text h = ''@@ -'' @ int_string (dh_old_start h) @ '','' @ int_string (dh_old_lines h) @
     '' +'' @ int_string (dh_new_start h) @ '','' @ int_string (dh_new_lines h) @ '' @@'' @ [newline] @
     concat (map (\<lambda>l. l @ [newline]) (dh_lines h))"

definition computeDiffBetweenContents :: "string \<Rightarrow> string \<Rightarrow> string \<Rightarrow> string \<Rightarrow> UnifiedDiffReport" where
  "computeDiffBetweenContents old_path old_content new_path new_content =
     (let xs = splitLines old_content; ys = splitLines new_content
      in if xs = ys then empty_report
         else let hunks = buildHunks (computeDiffEdits xs ys) 3;
              fd = \<lparr>fd_old_path = old_path, fd_new_path = new_path,
                is_new_file = (old_content = [] \<and> new_content \<noteq> []),
                is_deleted_file = (old_content \<noteq> [] \<and> new_content = []), fd_hunks = hunks,
                additions = line_count (CHR ''+'') hunks, deletions = line_count (CHR ''-'') hunks\<rparr>
          in empty_report\<lparr>file_diffs := [fd], total_files_changed := 1,
               total_additions := line_count (CHR ''+'') hunks, total_deletions := line_count (CHR ''-'') hunks,
               raw_unified_diff := ''--- a/'' @ old_path @ [newline] @ ''+++ b/'' @ new_path @ [newline] @
                 concat (map hunk_text hunks)\<rparr>)"

end
