(* ===== verification/Snapshot_Manager.thy ===== *)
theory Snapshot_Manager
  imports Path_Containment Sha256 Diff_Engine
begin

text \<open>
  Snapshots of the workspace: \<open>SnapshotManager\<close> of \<open>src/src/workspace/SnapshotManager.h\<close> and
  \<open>SnapshotManager.cpp\<close>, over its SHA-256 and its differences.

  \<^item> The regular files below the workspace root are a map from relative paths to contents and
    permissions; two different normal relative paths are two files. Directories are made as needed.
  \<^item> Which files can be read, written and removed is a parameter (\<open>disk_access\<close>). As in the code, a
    file that cannot be read has the content "".
  \<^item> The text of the manifest (\<open>nlohmann::json\<close>) and the clock are parameters.
\<close>

subsection \<open>The disk\<close>

record DiskFile =
  df_content :: string
  df_perms :: nat

type_synonym disk = "(string, DiskFile) umap"

record disk_access =
  can_read :: "string \<Rightarrow> bool"
  can_write :: "string \<Rightarrow> bool"
  can_remove :: "string \<Rightarrow> bool"

definition perms_all :: nat where
  "perms_all = 511"

definition file_exists :: "string \<Rightarrow> disk \<Rightarrow> bool" where
  "file_exists p d \<longleftrightarrow> map_of d p \<noteq> None"

definition readFileContent :: "disk_access \<Rightarrow> string \<Rightarrow> disk \<Rightarrow> string" where
  "readFileContent a p d = (case map_of d p of None \<Rightarrow> [] | Some f \<Rightarrow> if can_read a p then df_content f else [])"

definition writeFileContent :: "disk_access \<Rightarrow> string \<Rightarrow> string \<Rightarrow> nat \<Rightarrow> disk \<Rightarrow> bool \<times> disk" where
  "writeFileContent a p content perms d =
     (if can_write a p then (True, AList.update p \<lparr>df_content = content, df_perms = perms\<rparr> d) else (False, d))"

text \<open>\<open>std::filesystem::remove\<close>: whether a file was removed, whether there was an error.\<close>

definition remove_file :: "disk_access \<Rightarrow> string \<Rightarrow> disk \<Rightarrow> bool \<times> bool \<times> disk" where
  "remove_file a p d =
     (if map_of d p = None then (False, False, d)
      else if can_remove a p then (True, False, AList.delete p d)
      else (False, True, d))"

text \<open>
  \<open>remove_all\<close> of a directory that is given by a path from the root. Its \<open>.\<close> and \<open>..\<close> are resolved by name,
  as the system does when the directories on the way exist and are no links; a directory that does
  not exist holds no file. A path that leads above the root reaches every file below the root.
\<close>

definition below_dir :: "string \<Rightarrow> string \<Rightarrow> bool" where
  "below_dir dir p =
     (let n = normalizeSeparators (lexically_normal dir)
      in n = ''.'' \<or> starts_with n ''..'' \<or> p = n \<or> starts_with p (n @ ''/''))"

definition remove_all :: "disk_access \<Rightarrow> string \<Rightarrow> disk \<Rightarrow> disk" where
  "remove_all a dir d = filter (\<lambda>(p, f). \<not> (below_dir dir p \<and> can_remove a p)) d"

definition skipped_path :: "string \<Rightarrow> bool" where
  "skipped_path rel \<longleftrightarrow> starts_with rel ''.git'' \<or> starts_with rel ''.aios'' \<or>
     starts_with rel ''build/'' \<or> starts_with rel ''.vs/''"

definition scanWorkspaceFiles :: "disk \<Rightarrow> string list" where
  "scanWorkspaceFiles d = filter (\<lambda>p. \<not> skipped_path p) (um_keys d)"

subsection \<open>Snapshots\<close>

record FileSnapshot =
  fs_relative_path :: string
  fs_content :: string
  checksum_sha256 :: string
  size_bytes :: nat
  existed_at_snapshot :: bool
  fs_permissions :: nat

record CheckpointInfo =
  cp_id :: string
  cp_description :: string
  cp_timestamp :: int
  cp_files :: "(string, FileSnapshot) umap"
  total_size_bytes :: nat

record RollbackSummary =
  rb_success :: bool
  rb_snapshot_id :: string
  restored_files :: "string list"
  deleted_created_files :: "string list"
  failed_files :: "string list"

record SnapshotManager =
  snapshots :: "(string, CheckpointInfo) umap"
  sm_disk :: disk

definition new_SnapshotManager :: "disk \<Rightarrow> SnapshotManager" where
  "new_SnapshotManager d = \<lparr>snapshots = [], sm_disk = d\<rparr>"

definition snap_dir :: "string \<Rightarrow> string" where
  "snap_dir i = path_join ''.aios/snapshots'' i"

fun save_files :: "disk_access \<Rightarrow> string \<Rightarrow> (string \<times> FileSnapshot) list \<Rightarrow> disk \<Rightarrow> disk" where
  "save_files a dir [] d = d"
| "save_files a dir ((rel, f) # fs) d =
     save_files a dir fs (snd (writeFileContent a (path_join dir rel) (fs_content f) (fs_permissions f) d))"

definition saveDiskShadow :: "(CheckpointInfo \<Rightarrow> string) \<Rightarrow> disk_access \<Rightarrow> CheckpointInfo \<Rightarrow> disk \<Rightarrow> disk" where
  "saveDiskShadow manifest a cp d =
     (let dir = snap_dir (cp_id cp); d1 = save_files a (path_join dir ''files'') (cp_files cp) d
      in snd (writeFileContent a (path_join dir ''manifest.json'') (manifest cp) perms_all d1))"

definition file_snapshot :: "disk_access \<Rightarrow> disk \<Rightarrow> string \<Rightarrow> FileSnapshot" where
  "file_snapshot a d rel =
     (case map_of d rel of
        Some f \<Rightarrow>
          (let content = readFileContent a rel d
           in \<lparr>fs_relative_path = rel, fs_content = content, checksum_sha256 = sha256String content,
               size_bytes = length content, existed_at_snapshot = True, fs_permissions = df_perms f\<rparr>)
      | None \<Rightarrow>
          \<lparr>fs_relative_path = rel, fs_content = [], checksum_sha256 = sha256String [],
            size_bytes = 0, existed_at_snapshot = False, fs_permissions = perms_all\<rparr>)"

fun snapshot_loop :: "disk_access \<Rightarrow> disk \<Rightarrow> string list \<Rightarrow> (string, FileSnapshot) umap \<Rightarrow> nat \<Rightarrow>
    (string, FileSnapshot) umap \<times> nat" where
  "snapshot_loop a d [] files bytes_sum = (files, bytes_sum)"
| "snapshot_loop a d (rel # rels) files bytes_sum =
     (let f = file_snapshot a d rel
      in snapshot_loop a d rels (AList.update rel f files)
           (if existed_at_snapshot f then bytes_sum + size_bytes f else bytes_sum))"

definition createSnapshot :: "(CheckpointInfo \<Rightarrow> string) \<Rightarrow> disk_access \<Rightarrow> int \<Rightarrow> string \<Rightarrow> string \<Rightarrow> string list \<Rightarrow>
    SnapshotManager \<Rightarrow> (string + CheckpointInfo) \<times> SnapshotManager" where
  "createSnapshot manifest a now snapshot_id description files_to_track s =
     (if snapshot_id = [] then (Inl ''Snapshot ID cannot be empty'', s)
      else
        let target_files = (if files_to_track = [] then scanWorkspaceFiles (sm_disk s) else files_to_track)
        in case snapshot_loop a (sm_disk s) target_files [] 0 of (files, total_size) \<Rightarrow>
          let cp = \<lparr>cp_id = snapshot_id, cp_description = description, cp_timestamp = now,
                cp_files = files, total_size_bytes = total_size\<rparr>
          in (Inr cp, s\<lparr>snapshots := AList.update snapshot_id cp (snapshots s),
                sm_disk := saveDiskShadow manifest a cp (sm_disk s)\<rparr>))"

definition deleteSnapshot :: "disk_access \<Rightarrow> string \<Rightarrow> SnapshotManager \<Rightarrow> SnapshotManager" where
  "deleteSnapshot a snapshot_id s =
     s\<lparr>snapshots := AList.delete snapshot_id (snapshots s), sm_disk := remove_all a (snap_dir snapshot_id) (sm_disk s)\<rparr>"

definition getSnapshot :: "string \<Rightarrow> SnapshotManager \<Rightarrow> CheckpointInfo option" where
  "getSnapshot snapshot_id s = map_of (snapshots s) snapshot_id"

definition listSnapshots :: "SnapshotManager \<Rightarrow> CheckpointInfo list" where
  "listSnapshots s = sort_key cp_timestamp (map snd (snapshots s))"

definition clearSnapshots :: "disk_access \<Rightarrow> SnapshotManager \<Rightarrow> SnapshotManager" where
  "clearSnapshots a s = s\<lparr>snapshots := [], sm_disk := remove_all a ''.aios/snapshots'' (sm_disk s)\<rparr>"

subsection \<open>Rollback\<close>

definition snapshot_missing :: "string \<Rightarrow> string" where
  "snapshot_missing i = ''Snapshot '' @ [CHR 0x27] @ i @ [CHR 0x27] @ '' not found''"

text \<open>First the files on disk that the snapshot does not have.\<close>

definition remove_untracked :: "disk_access \<Rightarrow> CheckpointInfo \<Rightarrow> string \<Rightarrow> RollbackSummary \<times> disk \<Rightarrow> RollbackSummary \<times> disk" where
  "remove_untracked a cp cur_rel sd = (case sd of (rs, d) \<Rightarrow>
     if map_of (cp_files cp) cur_rel = None then
       case remove_file a cur_rel d of (removed, ec, d') \<Rightarrow>
         if removed then (rs\<lparr>deleted_created_files := deleted_created_files rs @ [cur_rel]\<rparr>, d')
         else if ec then (rs\<lparr>failed_files := failed_files rs @ [cur_rel], rb_success := False\<rparr>, d')
         else (rs, d')
     else (rs, d))"

text \<open>Then the tracked files.\<close>

definition restore_file :: "disk_access \<Rightarrow> string \<times> FileSnapshot \<Rightarrow> RollbackSummary \<times> disk \<Rightarrow> RollbackSummary \<times> disk" where
  "restore_file a rf sd = (case rf of (rel, f) \<Rightarrow> case sd of (rs, d) \<Rightarrow>
     if existed_at_snapshot f then
       case writeFileContent a rel (fs_content f) (fs_permissions f) d of (ok, d') \<Rightarrow>
         if ok then (rs\<lparr>restored_files := restored_files rs @ [rel]\<rparr>, d')
         else (rs\<lparr>failed_files := failed_files rs @ [rel], rb_success := False\<rparr>, d')
     else if file_exists rel d then
       (rs\<lparr>deleted_created_files := deleted_created_files rs @ [rel]\<rparr>, snd (snd (remove_file a rel d)))
     else (rs, d))"

definition rollbackSnapshot :: "disk_access \<Rightarrow> string \<Rightarrow> SnapshotManager \<Rightarrow> (string + RollbackSummary) \<times> SnapshotManager" where
  "rollbackSnapshot a snapshot_id s =
     (case map_of (snapshots s) snapshot_id of
        None \<Rightarrow> (Inl (snapshot_missing snapshot_id), s)
      | Some cp \<Rightarrow>
          (let rs = \<lparr>rb_success = True, rb_snapshot_id = snapshot_id, restored_files = [],
                 deleted_created_files = [], failed_files = []\<rparr>;
               removed = fold (remove_untracked a cp) (scanWorkspaceFiles (sm_disk s)) (rs, sm_disk s)
           in case fold (restore_file a) (cp_files cp) removed of (rs2, d') \<Rightarrow>
                (Inr rs2, s\<lparr>sm_disk := d'\<rparr>)))"

definition rollbackFile :: "disk_access \<Rightarrow> string \<Rightarrow> string \<Rightarrow> SnapshotManager \<Rightarrow> (string + bool) \<times> SnapshotManager" where
  "rollbackFile a snapshot_id rel_path s =
     (case map_of (snapshots s) snapshot_id of
        None \<Rightarrow> (Inl (snapshot_missing snapshot_id), s)
      | Some cp \<Rightarrow>
          (case map_of (cp_files cp) rel_path of
             None \<Rightarrow> (Inl (''File '' @ [CHR 0x27] @ rel_path @ [CHR 0x27] @ '' not found in snapshot '' @
               [CHR 0x27] @ snapshot_id @ [CHR 0x27]), s)
           | Some f \<Rightarrow>
               if existed_at_snapshot f then
                 (case writeFileContent a rel_path (fs_content f) (fs_permissions f) (sm_disk s) of (ok, d') \<Rightarrow>
                    if ok then (Inr True, s\<lparr>sm_disk := d'\<rparr>)
                    else (Inl (''Failed to write restored file content for '' @ [CHR 0x27] @ rel_path @ [CHR 0x27]), s\<lparr>sm_disk := d'\<rparr>))
               else if file_exists rel_path (sm_disk s) then
                 (Inr True, s\<lparr>sm_disk := snd (snd (remove_file a rel_path (sm_disk s)))\<rparr>)
               else (Inr True, s)))"

subsection \<open>Differences between snapshots\<close>

text \<open>The report of one file is added to the full report when it has a file difference.\<close>

definition add_diff :: "UnifiedDiffReport \<Rightarrow> UnifiedDiffReport \<Rightarrow> UnifiedDiffReport" where
  "add_diff single full =
     (case file_diffs single of
        [] \<Rightarrow> full
      | fd # _ \<Rightarrow> full\<lparr>file_diffs := file_diffs full @ [fd],
          total_additions := total_additions full + total_additions single,
          total_deletions := total_deletions full + total_deletions single,
          total_files_changed := total_files_changed full + 1,
          raw_unified_diff := raw_unified_diff full @ raw_unified_diff single\<rparr>)"

definition diff_file :: "string \<Rightarrow> string \<Rightarrow> string \<Rightarrow> UnifiedDiffReport \<Rightarrow> UnifiedDiffReport" where
  "diff_file rel old new full =
     (if new \<noteq> old then add_diff (computeDiffBetweenContents rel old rel new) full else full)"

definition diff_created :: "string \<Rightarrow> string \<Rightarrow> UnifiedDiffReport \<Rightarrow> UnifiedDiffReport" where
  "diff_created rel new full = add_diff (computeDiffBetweenContents rel [] rel new) full"

definition generateDiffFromSnapshot :: "disk_access \<Rightarrow> string \<Rightarrow> SnapshotManager \<Rightarrow> string + UnifiedDiffReport" where
  "generateDiffFromSnapshot a snapshot_id s =
     (case map_of (snapshots s) snapshot_id of
        None \<Rightarrow> Inl (snapshot_missing snapshot_id)
      | Some cp \<Rightarrow>
          (let d = sm_disk s;
               full = empty_report\<lparr>base_snapshot_or_commit := snapshot_id\<rparr>;
               full1 = fold (\<lambda>(rel, f). diff_file rel (fs_content f)
                         (if file_exists rel d then readFileContent a rel d else [])) (cp_files cp) full
           in Inr (fold (\<lambda>rel. if map_of (cp_files cp) rel = None then diff_created rel (readFileContent a rel d) else id)
                (scanWorkspaceFiles d) full1)))"

definition generateDiffBetweenSnapshots :: "string \<Rightarrow> string \<Rightarrow> SnapshotManager \<Rightarrow> string + UnifiedDiffReport" where
  "generateDiffBetweenSnapshots old_id new_id s =
     (case map_of (snapshots s) old_id of
        None \<Rightarrow> Inl (snapshot_missing old_id)
      | Some old_cp \<Rightarrow>
          (case map_of (snapshots s) new_id of
             None \<Rightarrow> Inl (snapshot_missing new_id)
           | Some new_cp \<Rightarrow>
               (let full = empty_report\<lparr>base_snapshot_or_commit := old_id\<rparr>;
                    full1 = fold (\<lambda>(rel, f). diff_file rel (fs_content f)
                        (case map_of (cp_files new_cp) rel of
                           Some g \<Rightarrow> if existed_at_snapshot g then fs_content g else []
                         | None \<Rightarrow> [])) (cp_files old_cp) full
                in Inr (fold (\<lambda>(rel, f). if map_of (cp_files old_cp) rel = None \<and> existed_at_snapshot f
                       then diff_created rel (fs_content f) else id) (cp_files new_cp) full1))))"

end
