(* ===== verification/Diff_Properties.thy ===== *)
theory Diff_Properties
  imports Diff_Engine
begin

text \<open>
  What a difference promises: the lines determine the text, the edits turn the old lines into the new ones
  and keep as many lines as any common subsequence has, and a reader who applies the hunks to the old
  lines gets the new lines.
\<close>

subsection \<open>Lines and text\<close>

fun join_lines :: "string list \<Rightarrow> string" where
  "join_lines [] = []"
| "join_lines [l] = l"
| "join_lines (l # m # ls) = l @ newline # join_lines (m # ls)"

lemma join_lines_snoc: "ls \<noteq> [] \<Longrightarrow> join_lines (ls @ [l]) = join_lines ls @ newline # l"
  by (induction ls rule: join_lines.induct) auto

lemma join_lines_extend: "join_lines (ls @ [l @ m]) = join_lines (ls @ [l]) @ m"
  by (cases "ls = []") (simp_all add: join_lines_snoc)

lemma split_loop_join:
  "CHR 0x0D \<notin> set t \<Longrightarrow> split_loop t ls l = (ls', l') \<Longrightarrow> join_lines (ls' @ [l']) = join_lines (ls @ [l]) @ t"
proof (induction t ls l rule: split_loop.induct)
  case (1 ls l)
  then show ?case by simp
next
  case (2 c cs ls l)
  then show ?case
    using join_lines_extend [of ls l "[c]"] join_lines_snoc [of "ls @ [l]" "[]"]
    by (auto split: if_splits)
qed

lemma split_loop_last:
  "CHR 0x0D \<notin> set t \<Longrightarrow> split_loop t ls l = (ls', l') \<Longrightarrow> l' = [] \<Longrightarrow> (t = [] \<and> ls' = ls \<and> l = []) \<or> (t \<noteq> [] \<and> last t = newline)"
proof (induction t ls l rule: split_loop.induct)
  case (1 ls l)
  then show ?case by simp
next
  case (2 c cs ls l)
  then show ?case by (auto split: if_splits)
qed

lemma join_splitLines:
  assumes "CHR 0x0D \<notin> set t"
  shows "join_lines (splitLines t) = t"
proof -
  obtain ls l where s: "split_loop t [] [] = (ls, l)" by fastforce
  with split_loop_join [OF assms s] have "join_lines (ls @ [l]) = t" by simp
  moreover have "l = [] \<Longrightarrow> \<not> (t \<noteq> [] \<and> last t = newline) \<Longrightarrow> t = [] \<and> ls = []"
    using split_loop_last [OF assms s] by auto
  ultimately show ?thesis
    using s by (auto simp: splitLines_def)
qed

text \<open>
  For texts without carriage returns the report is empty exactly when the texts are equal. Carriage
  returns do not count: a change of the line ends alone gives an empty report.
\<close>

theorem diff_empty_iff:
  "(CHR 0x0D \<notin> set old \<and> CHR 0x0D \<notin> set new \<longrightarrow>
     (file_diffs (computeDiffBetweenContents p old q new) = [] \<longleftrightarrow> old = new)) \<and>
   file_diffs (computeDiffBetweenContents p (''a'' @ [CHR 0x0D, newline]) q (''a'' @ [newline])) = []"
proof (intro conjI impI)
  assume "CHR 0x0D \<notin> set old \<and> CHR 0x0D \<notin> set new"
  then have "splitLines old = splitLines new \<longleftrightarrow> old = new"
    using join_splitLines by metis
  then show "file_diffs (computeDiffBetweenContents p old q new) = [] \<longleftrightarrow> old = new"
    by (simp add: computeDiffBetweenContents_def Let_def empty_report_def)
qed (simp add: computeDiffBetweenContents_def Let_def empty_report_def splitLines_def)

theorem diff_empty_iff_witness:
  "file_diffs (computeDiffBetweenContents ''p'' ''x'' ''p'' (''x'' @ [newline])) \<noteq> []"
proof -
  have "CHR 0x0D \<notin> set ''x'' \<and> CHR 0x0D \<notin> set (''x'' @ [newline])" by simp
  with diff_empty_iff [of "''x''" "''x'' @ [newline]" "''p''" "''p''"] show ?thesis by blast
qed

subsection \<open>The table\<close>

fun lcs_at :: "'a list \<Rightarrow> 'a list \<Rightarrow> nat \<Rightarrow> nat \<Rightarrow> nat" where
  "lcs_at xs ys 0 j = 0"
| "lcs_at xs ys (Suc i) 0 = 0"
| "lcs_at xs ys (Suc i) (Suc j) =
     (if xs ! i = ys ! j then lcs_at xs ys i j + 1 else max (lcs_at xs ys i (Suc j)) (lcs_at xs ys (Suc i) j))"

lemma lcs_at_0 [simp]: "lcs_at xs ys i 0 = 0"
  by (cases i) simp_all

lemma dp_cells_lcs:
  "j \<le> length ys \<Longrightarrow>
   dp_cells (xs ! i) (drop j ys) (map (lcs_at xs ys i) [j..<Suc (length ys)]) (lcs_at xs ys (Suc i) j) =
     map (lcs_at xs ys (Suc i)) [Suc j..<Suc (length ys)]"
proof (induction j rule: inc_induct)
  case base
  then show ?case by simp
next
  case (step j)
  have "drop j ys = ys ! j # drop (Suc j) ys"
    using step.hyps by (simp add: Cons_nth_drop_Suc)
  moreover have "[j..<Suc (length ys)] = j # Suc j # [Suc (Suc j)..<Suc (length ys)]"
    "[Suc j..<Suc (length ys)] = Suc j # [Suc (Suc j)..<Suc (length ys)]"
    using step.hyps by (simp_all add: upt_rec del: upt_Suc)
  ultimately show ?case
    using step.IH by (simp add: Let_def del: upt_Suc)
qed

lemma dp_row_lcs:
  "dp_row (xs ! i) ys (map (lcs_at xs ys i) [0..<Suc (length ys)]) = map (lcs_at xs ys (Suc i)) [0..<Suc (length ys)]"
proof -
  have "[0..<Suc (length ys)] = 0 # [Suc 0..<Suc (length ys)]"
    by (simp add: upt_rec del: upt_Suc)
  with dp_cells_lcs [of 0 ys xs i] show ?thesis
    by (simp add: dp_row_def del: upt_Suc)
qed

lemma dp_rows_lcs:
  "i \<le> length xs \<Longrightarrow>
   dp_rows (drop i xs) ys (map (lcs_at xs ys i) [0..<Suc (length ys)]) =
     map (\<lambda>i. map (lcs_at xs ys i) [0..<Suc (length ys)]) [Suc i..<Suc (length xs)]"
proof (induction i rule: inc_induct)
  case base
  then show ?case by simp
next
  case (step i)
  have "drop i xs = xs ! i # drop (Suc i) xs"
    using step.hyps by (simp add: Cons_nth_drop_Suc)
  moreover have "[Suc i..<Suc (length xs)] = Suc i # [Suc (Suc i)..<Suc (length xs)]"
    using step.hyps by (simp add: upt_rec del: upt_Suc)
  ultimately show ?case
    using step.IH by (simp add: dp_row_lcs del: upt_Suc)
qed

lemma dp_table_lcs:
  assumes "i \<le> length xs" "j \<le> length ys"
  shows "dp_table xs ys ! i ! j = lcs_at xs ys i j"
proof -
  have zeros: "replicate (length ys + 1) 0 = map (lcs_at xs ys 0) [0..<Suc (length ys)]"
    by (rule nth_equalityI) (simp_all del: upt_Suc replicate_Suc)
  have "[0..<Suc (length xs)] = 0 # [Suc 0..<Suc (length xs)]"
    by (simp add: upt_rec del: upt_Suc)
  then have "dp_table xs ys = map (\<lambda>i. map (lcs_at xs ys i) [0..<Suc (length ys)]) [0..<Suc (length xs)]"
    using dp_rows_lcs [of 0 xs ys] unfolding dp_table_def Let_def zeros by (simp del: upt_Suc)
  with assms show ?thesis by (simp del: upt_Suc)
qed

text \<open>No common subsequence of two prefixes is longer than their cell.\<close>

lemma subseq_snoc: "subseq zs (xs @ [x]) \<Longrightarrow> subseq zs xs \<or> (\<exists>us. zs = us @ [x] \<and> subseq us xs)"
proof -
  assume "subseq zs (xs @ [x])"
  then obtain us vs where "zs = us @ vs" "subseq us xs" "subseq vs [x]"
    by (auto simp: subseq_append_iff elim: list_emb_append2)
  moreover from this(3) have "vs = [] \<or> vs = [x]"
    by (cases vs) (auto split: if_splits)
  ultimately show ?thesis by auto
qed

lemma lcs_at_upper:
  "i \<le> length xs \<Longrightarrow> j \<le> length ys \<Longrightarrow> subseq zs (take i xs) \<Longrightarrow> subseq zs (take j ys) \<Longrightarrow> length zs \<le> lcs_at xs ys i j"
proof (induction xs ys i j arbitrary: zs rule: lcs_at.induct)
  case (3 xs ys i j)
  have x: "take (Suc i) xs = take i xs @ [xs ! i]" and y: "take (Suc j) ys = take j ys @ [ys ! j]"
    using 3(4,5) by (simp_all add: take_Suc_conv_app_nth)
  from 3(6) x consider "subseq zs (take i xs)" | us where "zs = us @ [xs ! i]" "subseq us (take i xs)"
    using subseq_snoc by metis
  note xc = this
  from 3(7) y consider "subseq zs (take j ys)" | vs where "zs = vs @ [ys ! j]" "subseq vs (take j ys)"
    using subseq_snoc by metis
  note yc = this
  show ?case
  proof (cases "xs ! i = ys ! j")
    case True
    have bound: "length us \<le> lcs_at xs ys i j" if "subseq us (take i xs)" "subseq us (take j ys)" for us
      using 3(1) [OF True _ _ that] 3(4,5) by simp
    obtain us where "length zs \<le> length us + 1" "subseq us (take i xs)" "subseq us (take j ys)"
    proof (cases zs rule: rev_cases)
      case Nil
      then show ?thesis using that [of "[]"] by simp
    next
      case (snoc us z)
      then have "subseq us zs" by (simp add: subseq_append_iff) (metis list_emb_Nil subseq_append_iff subseq_order.order_refl append_Nil2)
      have "subseq us (take i xs)"
        using xc snoc \<open>subseq us zs\<close> by cases (auto intro: subseq_order.trans)
      moreover have "subseq us (take j ys)"
        using yc snoc \<open>subseq us zs\<close> by cases (auto intro: subseq_order.trans)
      ultimately show ?thesis using that [of us] snoc by simp
    qed
    with bound True show ?thesis by fastforce
  next
    case False
    have "subseq zs (take i xs) \<or> subseq zs (take j ys)"
    proof (rule ccontr)
      assume "\<not> ?thesis"
      then obtain us vs where "zs = us @ [xs ! i]" "zs = vs @ [ys ! j]"
        using xc yc by metis
      with False show False by simp
    qed
    then show ?thesis
    proof
      assume "subseq zs (take i xs)"
      with 3(2) [OF False _ _ this] 3(4,5,7) show ?thesis using False by simp
    next
      assume "subseq zs (take j ys)"
      with 3(3) [OF False _ _ 3(6) this] 3(4,5) show ?thesis using False by simp
    qed
  qed
qed simp_all

subsection \<open>The edits\<close>

definition olds :: "EditItem list \<Rightarrow> string list" where
  "olds es = map ed_text (filter (\<lambda>e. ed_type e \<noteq> Added) es)"

definition news :: "EditItem list \<Rightarrow> string list" where
  "news es = map ed_text (filter (\<lambda>e. ed_type e \<noteq> Deleted) es)"

definition kept :: "EditItem list \<Rightarrow> string list" where
  "kept es = map ed_text (filter (\<lambda>e. ed_type e = Unchanged) es)"

lemma project_simps [simp]:
  "olds [] = []" "news [] = []" "kept [] = []"
  "olds (es @ fs) = olds es @ olds fs" "news (es @ fs) = news es @ news fs" "kept (es @ fs) = kept es @ kept fs"
  "olds (e # es) = (if ed_type e \<noteq> Added then [ed_text e] else []) @ olds es"
  "news (e # es) = (if ed_type e \<noteq> Deleted then [ed_text e] else []) @ news es"
  "kept (e # es) = (if ed_type e = Unchanged then [ed_text e] else []) @ kept es"
  by (simp_all add: olds_def news_def kept_def)

text \<open>Each edit carries the numbers of its lines, counted from 1.\<close>

definition numbered :: "EditItem list \<Rightarrow> bool" where
  "numbered es \<longleftrightarrow> (\<forall>us e vs. es = us @ e # vs \<longrightarrow>
     (ed_type e \<noteq> Added \<longrightarrow> old_line_idx e = Suc (length (olds us))) \<and>
     (ed_type e \<noteq> Deleted \<longrightarrow> new_line_idx e = Suc (length (news us))))"

lemma numbered_snoc:
  assumes "numbered es" "ed_type e \<noteq> Added \<longrightarrow> old_line_idx e = Suc (length (olds es))"
    "ed_type e \<noteq> Deleted \<longrightarrow> new_line_idx e = Suc (length (news es))"
  shows "numbered (es @ [e])"
  unfolding numbered_def
proof (intro allI impI)
  fix us f vs
  assume split: "es @ [e] = us @ f # vs"
  show "(ed_type f \<noteq> Added \<longrightarrow> old_line_idx f = Suc (length (olds us))) \<and>
     (ed_type f \<noteq> Deleted \<longrightarrow> new_line_idx f = Suc (length (news us)))"
  proof (cases vs rule: rev_cases)
    case Nil
    with split assms(2,3) show ?thesis by simp
  next
    case (snoc ws w)
    with split have "es = us @ f # ws" by simp
    with assms(1) show ?thesis by (auto simp: numbered_def)
  qed
qed

definition walk_ok :: "string list \<Rightarrow> string list \<Rightarrow> nat \<Rightarrow> nat \<Rightarrow> EditItem list \<Rightarrow> bool" where
  "walk_ok xs ys i j es \<longleftrightarrow> olds es = take i xs \<and> news es = take j ys \<and>
     length (kept es) = lcs_at xs ys i j \<and> numbered es"

lemma walk_ok_snoc:
  assumes "walk_ok xs ys i' j' es" "i' \<le> length xs" "j' \<le> length ys"
    "olds es @ olds [e] = take i xs" "news es @ news [e] = take j ys"
    "lcs_at xs ys i j = lcs_at xs ys i' j' + (if ed_type e = Unchanged then 1 else 0)"
    "ed_type e \<noteq> Added \<longrightarrow> old_line_idx e = Suc i'" "ed_type e \<noteq> Deleted \<longrightarrow> new_line_idx e = Suc j'"
  shows "walk_ok xs ys i j (es @ [e])"
  using assms numbered_snoc [of es e] by (simp add: walk_ok_def)

lemma walk_back_ok:
  "i \<le> length xs \<Longrightarrow> j \<le> length ys \<Longrightarrow> walk_ok xs ys i j (rev (walk_back xs ys (dp_table xs ys) i j))"
proof (induction "i + j" arbitrary: i j rule: less_induct)
  case less
  have rest: "walk_ok xs ys i' j' (rev (walk_back xs ys (dp_table xs ys) i' j'))" if "i' + j' < i + j" "i' \<le> i" "j' \<le> j" for i' j'
    using less.hyps [OF that(1)] less.prems that by simp
  have tx: "take i xs = take (i - 1) xs @ [xs ! (i - 1)]" if "i > 0"
    using that less.prems(1) take_Suc_conv_app_nth [of "i - 1" xs] by simp
  have ty: "take j ys = take (j - 1) ys @ [ys ! (j - 1)]" if "j > 0"
    using that less.prems(2) take_Suc_conv_app_nth [of "j - 1" ys] by simp
  have cells: "dp_table xs ys ! i ! (j - 1) = lcs_at xs ys i (j - 1)" "dp_table xs ys ! (i - 1) ! j = lcs_at xs ys (i - 1) j"
    using less.prems by (simp_all add: dp_table_lcs)
  consider "i = 0 \<and> j = 0"
    | "i > 0 \<and> j > 0 \<and> xs ! (i - 1) = ys ! (j - 1)"
    | "\<not> (i > 0 \<and> j > 0 \<and> xs ! (i - 1) = ys ! (j - 1))" "j > 0 \<and> (i = 0 \<or> dp_table xs ys ! i ! (j - 1) \<ge> dp_table xs ys ! (i - 1) ! j)"
    | "\<not> (i = 0 \<and> j = 0)" "\<not> (i > 0 \<and> j > 0 \<and> xs ! (i - 1) = ys ! (j - 1))" "\<not> (j > 0 \<and> (i = 0 \<or> dp_table xs ys ! i ! (j - 1) \<ge> dp_table xs ys ! (i - 1) ! j))"
    by blast
  then show ?case
  proof cases
    case 1
    then show ?thesis by (simp add: walk_back.simps walk_ok_def numbered_def)
  next
    case 2
    have "lcs_at xs ys i j = lcs_at xs ys (i - 1) (j - 1) + 1"
      using 2 by (cases i; cases j) auto
    then show ?thesis
      unfolding walk_back.simps [of xs ys _ i j] using 2 less.prems tx ty rest [of "i - 1" "j - 1"]
      by (simp, intro walk_ok_snoc [of _ _ "i - 1" "j - 1"]) (simp_all add: walk_ok_def)
  next
    case 3
    have "lcs_at xs ys i j = lcs_at xs ys i (j - 1)"
      using 3 unfolding cells by (cases i; cases j) auto
    moreover have "walk_back xs ys (dp_table xs ys) i j =
        \<lparr>ed_type = Added, ed_text = ys ! (j - 1), old_line_idx = 0, new_line_idx = j\<rparr> # walk_back xs ys (dp_table xs ys) i (j - 1)"
      using 3 by (subst walk_back.simps) (simp only: if_False if_True simp_thms neq0_conv [symmetric])
    ultimately show ?thesis
      using 3(2) less.prems ty rest [of i "j - 1"]
      by (simp, intro walk_ok_snoc [of _ _ i "j - 1"]) (simp_all add: walk_ok_def)
  next
    case 4
    then have i: "i > 0" by auto
    have "lcs_at xs ys i j = lcs_at xs ys (i - 1) j"
      using 4 i unfolding cells by (cases i; cases j) auto
    moreover have "walk_back xs ys (dp_table xs ys) i j =
        \<lparr>ed_type = Deleted, ed_text = xs ! (i - 1), old_line_idx = i, new_line_idx = 0\<rparr> # walk_back xs ys (dp_table xs ys) (i - 1) j"
      using 4 by (subst walk_back.simps) (simp only: if_False)
    ultimately show ?thesis
      using i less.prems tx rest [of "i - 1" j]
      by (simp, intro walk_ok_snoc [of _ _ "i - 1" j]) (simp_all add: walk_ok_def)
  qed
qed

lemma edits_ok: "walk_ok xs ys (length xs) (length ys) (computeDiffEdits xs ys)"
  unfolding computeDiffEdits_def by (rule walk_back_ok) simp_all

lemma kept_subseq: "subseq (kept es) (olds es)" "subseq (kept es) (news es)"
  by (induction es) auto

text \<open>
  C10: The edits read without the added lines are the old lines, without the deleted lines the new ones,
  every edit carries the right line numbers, and the unchanged lines are a longest common subsequence:
  no difference of the two texts is shorter.
\<close>

theorem edits_minimal:
  "olds (computeDiffEdits xs ys) = xs \<and> news (computeDiffEdits xs ys) = ys \<and> numbered (computeDiffEdits xs ys) \<and>
   subseq (kept (computeDiffEdits xs ys)) xs \<and> subseq (kept (computeDiffEdits xs ys)) ys \<and>
   (\<forall>zs. subseq zs xs \<and> subseq zs ys \<longrightarrow> length zs \<le> length (kept (computeDiffEdits xs ys)))"
proof -
  have ok: "olds (computeDiffEdits xs ys) = xs" "news (computeDiffEdits xs ys) = ys" "numbered (computeDiffEdits xs ys)"
    "length (kept (computeDiffEdits xs ys)) = lcs_at xs ys (length xs) (length ys)"
    using edits_ok [of xs ys] by (simp_all add: walk_ok_def)
  then show ?thesis
    using kept_subseq [of "computeDiffEdits xs ys"] lcs_at_upper [of "length xs" xs "length ys" ys] by simp
qed

theorem edits_minimal_witness:
  "length (kept (computeDiffEdits [''a'', ''b'', ''c'', ''d''] [''b'', ''x'', ''d''])) \<ge> 2"
proof -
  have "subseq [''b'', ''d''] [''a'', ''b'', ''c'', ''d'']" "subseq [''b'', ''d''] [''b'', ''x'', ''d'']"
    by simp_all
  with edits_minimal [of "[''a'', ''b'', ''c'', ''d'']" "[''b'', ''x'', ''d'']"]
  have "length [''b'', ''d''] \<le> length (kept (computeDiffEdits [''a'', ''b'', ''c'', ''d''] [''b'', ''x'', ''d'']))"
    by blast
  then show ?thesis by simp
qed

subsection \<open>Applying hunks\<close>

text \<open>
  A reader of the hunks: goes to the first old line of the hunk, then copies, removes or adds line by line,
  and fails when a line to be copied or removed is not the one in the text.
\<close>

fun apply_lines :: "string list \<Rightarrow> string list \<Rightarrow> (string list \<times> string list) option" where
  "apply_lines [] rest = Some ([], rest)"
| "apply_lines ([] # ls) rest = None"
| "apply_lines ((c # t) # ls) rest =
     (if c = CHR ''+'' then map_option (\<lambda>(out, r). (t # out, r)) (apply_lines ls rest)
      else if rest = [] \<or> hd rest \<noteq> t then None
      else if c = CHR '' '' then map_option (\<lambda>(out, r). (t # out, r)) (apply_lines ls (tl rest))
      else if c = CHR ''-'' then apply_lines ls (tl rest)
      else None)"

fun apply_hunks :: "nat \<Rightarrow> string list \<Rightarrow> DiffHunk list \<Rightarrow> string list option" where
  "apply_hunks pos rest [] = Some rest"
| "apply_hunks pos rest (h # hs) =
     (let n = nat (dh_old_start h - 1 - int pos)
      in if dh_old_start h \<le> int pos \<or> length rest < n then None
         else case apply_lines (dh_lines h) (drop n rest) of None \<Rightarrow> None
           | Some (out, r) \<Rightarrow> map_option (\<lambda>o'. take n rest @ out @ o') (apply_hunks (pos + n + nat (dh_old_lines h)) r hs))"

definition mark :: "EditItem \<Rightarrow> string" where
  "mark e = (case ed_type e of Unchanged \<Rightarrow> CHR '' '' | Added \<Rightarrow> CHR ''+'' | Deleted \<Rightarrow> CHR ''-'') # ed_text e"

lemma apply_marked: "apply_lines (map mark es) (olds es @ r) = Some (news es, r)"
  by (induction es) (auto simp: mark_def split: EditType.split)

subsection \<open>What a hunk holds\<close>

definition first_old :: "EditItem list \<Rightarrow> int" where
  "first_old es = (case filter (\<lambda>e. ed_type e \<noteq> Added) es of [] \<Rightarrow> -1 | e # _ \<Rightarrow> int (old_line_idx e))"

definition first_new :: "EditItem list \<Rightarrow> int" where
  "first_new es = (case filter (\<lambda>e. ed_type e \<noteq> Deleted) es of [] \<Rightarrow> -1 | e # _ \<Rightarrow> int (new_line_idx e))"

lemma hunk_step_fields:
  "dh_lines (hunk_step e h) = dh_lines h @ [mark e]"
  "dh_old_lines (hunk_step e h) = dh_old_lines h + (if ed_type e \<noteq> Added then 1 else 0)"
  "dh_new_lines (hunk_step e h) = dh_new_lines h + (if ed_type e \<noteq> Deleted then 1 else 0)"
  "dh_old_start (hunk_step e h) =
     (if dh_old_start h = -1 \<and> ed_type e \<noteq> Added then int (old_line_idx e) else dh_old_start h)"
  "dh_new_start (hunk_step e h) =
     (if dh_new_start h = -1 \<and> ed_type e \<noteq> Deleted then int (new_line_idx e) else dh_new_start h)"
  by (cases "ed_type e"; simp add: hunk_step_def mark_def)+

lemma hunk_fold:
  "dh_lines (fold hunk_step es h) = dh_lines h @ map mark es \<and>
   dh_old_lines (fold hunk_step es h) = dh_old_lines h + int (length (olds es)) \<and>
   dh_new_lines (fold hunk_step es h) = dh_new_lines h + int (length (news es)) \<and>
   dh_old_start (fold hunk_step es h) = (if dh_old_start h = -1 then first_old es else dh_old_start h) \<and>
   dh_new_start (fold hunk_step es h) = (if dh_new_start h = -1 then first_new es else dh_new_start h)"
proof (induction es arbitrary: h)
  case Nil
  then show ?case by (simp add: first_old_def first_new_def)
next
  case (Cons e es)
  show ?case
    using Cons.IH [of "hunk_step e h"]
    by (auto simp: hunk_step_fields first_old_def first_new_def)
qed

lemma first_old_numbered:
  assumes "numbered (us @ es @ vs)"
  shows "first_old es = -1 \<and> olds es = [] \<or> first_old es = int (Suc (length (olds us)))"
proof (cases "filter (\<lambda>e. ed_type e \<noteq> Added) es")
  case Nil
  then show ?thesis by (simp add: first_old_def olds_def)
next
  case (Cons e ws)
  then obtain as bs where es: "es = as @ e # bs" "\<forall>x \<in> set as. ed_type x = Added" "ed_type e \<noteq> Added"
    by (auto simp: filter_eq_Cons_iff)
  then have "olds as = []" by (simp add: olds_def)
  with assms es have "old_line_idx e = Suc (length (olds us))"
    unfolding numbered_def by (metis append_Cons append_assoc append_Nil2 project_simps(4))
  with Cons show ?thesis by (simp add: first_old_def)
qed

lemma first_new_numbered:
  assumes "numbered (us @ es @ vs)"
  shows "first_new es = -1 \<and> news es = [] \<or> first_new es = int (Suc (length (news us)))"
proof (cases "filter (\<lambda>e. ed_type e \<noteq> Deleted) es")
  case Nil
  then show ?thesis by (simp add: first_new_def news_def)
next
  case (Cons e ws)
  then obtain as bs where es: "es = as @ e # bs" "\<forall>x \<in> set as. ed_type x = Deleted" "ed_type e \<noteq> Deleted"
    by (auto simp: filter_eq_Cons_iff)
  then have "news as = []" by (simp add: news_def)
  with assms es have "new_line_idx e = Suc (length (news us))"
    unfolding numbered_def by (metis append_Cons append_assoc append_Nil2 project_simps(5))
  with Cons show ?thesis by (simp add: first_new_def)
qed

subsection \<open>All hunks together\<close>

definition seg :: "'a list \<Rightarrow> nat \<Rightarrow> nat \<Rightarrow> 'a list" where
  "seg xs a b = take (b - a) (drop a xs)"

lemma seg_split:
  assumes "a \<le> b" "b \<le> c"
  shows "seg xs a c = seg xs a b @ seg xs b c"
proof -
  have "c - a = (b - a) + (c - b)" "(b - a) + a = b" using assms by simp_all
  then show ?thesis by (simp only: seg_def take_add drop_drop)
qed

lemma take_seg: "a \<le> b \<Longrightarrow> take b xs = take a xs @ seg xs a b"
  using take_add [of a "b - a" xs] by (simp add: seg_def)

lemma drop_seg:
  assumes "a \<le> b"
  shows "drop a xs = seg xs a b @ drop b xs"
proof -
  have "(b - a) + a = b" using assms by simp
  then show ?thesis
    using append_take_drop_id [of "b - a" "drop a xs"] by (simp only: seg_def drop_drop)
qed

lemma map_nth_seg: "b \<le> length xs \<Longrightarrow> map ((!) xs) [a..<b] = seg xs a b"
  by (rule nth_equalityI) (auto simp: seg_def)

lemma set_seg: "b \<le> length xs \<Longrightarrow> x \<in> set (seg xs a b) \<longleftrightarrow> (\<exists>k. a \<le> k \<and> k < b \<and> x = xs ! k)"
  by (subst map_nth_seg [symmetric]) auto

abbreviation changed :: "EditItem \<Rightarrow> bool" where
  "changed e \<equiv> ed_type e \<noteq> Unchanged"

text \<open>The lines of the hunks that are not context.\<close>

definition change_lines :: "DiffHunk list \<Rightarrow> string list" where
  "change_lines hs = filter (\<lambda>l. l \<noteq> [] \<and> hd l \<noteq> CHR '' '') (concat (map dh_lines hs))"

lemma change_lines_marks: "filter (\<lambda>l. l \<noteq> [] \<and> hd l \<noteq> CHR '' '') (map mark es) = map mark (filter changed es)"
proof (induction es)
  case Nil
  then show ?case by simp
next
  case (Cons e es)
  then show ?case by (cases "ed_type e") (simp_all add: mark_def)
qed

lemma unchanged_segment:
  assumes "\<forall>x \<in> set es. ed_type x = Unchanged"
  shows "news es = olds es \<and> filter changed es = []"
  using assms by (induction es) auto

text \<open>One hunk over \<open>[s, b)\<close>, reached over unchanged edits from \<open>p\<close>.\<close>

lemma hunk_apply:
  assumes num: "numbered E" and ps: "p \<le> s" "s < b" "b \<le> length E"
    and gap: "\<forall>k. p \<le> k \<and> k < s \<longrightarrow> \<not> changed (E ! k)"
    and anchor: "s = 0 \<or> (\<exists>x \<in> set (seg E s b). ed_type x = Unchanged)"
    and h: "h = finish_hunk (fold hunk_step (seg E s b) empty_hunk)"
  shows "apply_hunks (length (olds (take p E))) (olds (drop p E)) (h # hs) =
      map_option (\<lambda>out. news (seg E p b) @ out) (apply_hunks (length (olds (take b E))) (olds (drop b E)) hs)"
    and "change_lines (h # hs) = map mark (filter changed (seg E p b)) @ change_lines hs"
proof -
  have "ed_type x = Unchanged" if "x \<in> set (seg E p s)" for x
  proof -
    have "s \<le> length E" using ps by simp
    with that obtain k where "p \<le> k" "k < s" "x = E ! k" by (auto simp: set_seg)
    with gap show ?thesis by simp
  qed
  then have "news (seg E p s) = olds (seg E p s) \<and> filter changed (seg E p s) = []"
    by (intro unchanged_segment) simp
  then have quiet: "news (seg E p s) = olds (seg E p s)" "filter changed (seg E p s) = []"
    by simp_all
  have split: "seg E p b = seg E p s @ seg E s b"
    using ps seg_split [of p s b E] by simp
  have E: "E = take s E @ seg E s b @ drop b E"
    using ps drop_seg [of s b E] append_take_drop_id [of s E] by simp
  have f: "dh_lines h = map mark (seg E s b)" "dh_old_lines h = int (length (olds (seg E s b)))"
    "dh_old_start h = (if first_old (seg E s b) = -1 then 1 else first_old (seg E s b))"
    using hunk_fold [of "seg E s b" empty_hunk] by (simp_all add: h finish_hunk_def empty_hunk_def)
  have "first_old (seg E s b) = -1 \<and> olds (seg E s b) = [] \<or> first_old (seg E s b) = int (Suc (length (olds (take s E))))"
    using first_old_numbered [of "take s E" "seg E s b" "drop b E"] num E by simp
  moreover have "s = 0" if "olds (seg E s b) = []"
    using anchor that by (auto simp: olds_def filter_empty_conv)
  ultimately have start: "dh_old_start h = int (Suc (length (olds (take s E))))"
    using f(3) by auto
  have take_s: "olds (take s E) = olds (take p E) @ olds (seg E p s)"
    and take_b: "olds (take b E) = olds (take s E) @ olds (seg E s b)"
    using ps take_seg [of p s E] take_seg [of s b E] by simp_all
  have rest: "olds (drop p E) = olds (seg E p s) @ olds (seg E s b) @ olds (drop b E)"
    using ps drop_seg [of p s E] drop_seg [of s b E] by simp
  show "apply_hunks (length (olds (take p E))) (olds (drop p E)) (h # hs) =
      map_option (\<lambda>out. news (seg E p b) @ out) (apply_hunks (length (olds (take b E))) (olds (drop b E)) hs)"
    unfolding rest split take_b take_s
    by (simp add: start f apply_marked take_s quiet Let_def add.assoc)
  show "change_lines (h # hs) = map mark (filter changed (seg E p b)) @ change_lines hs"
    using change_lines_marks [of "seg E s b"] by (simp add: change_lines_def f split quiet)
qed

lemma build_hunk_seg:
  assumes "hunk_range E ctx c = (s, e)" "Suc e \<le> length E"
  shows "build_hunk E ctx c = finish_hunk (fold hunk_step (seg E s (Suc e)) empty_hunk)"
  using assms map_nth_seg [of "Suc e" E s] fold_map [of hunk_step "(!) E" "[s..<Suc e]"]
  by (simp add: build_hunk_def comp_def del: upt_Suc)

lemma filter_upt_Cons:
  "filter P [a..<n] = k # ks \<Longrightarrow>
   a \<le> k \<and> k < n \<and> P k \<and> (\<forall>x. a \<le> x \<and> x < k \<longrightarrow> \<not> P x) \<and> filter P [Suc k..<n] = ks"
proof (induction "n - a" arbitrary: a)
  case 0
  then show ?case by simp
next
  case (Suc d)
  have a: "a < n" using Suc.hyps(2) by simp
  then have an: "[a..<n] = a # [Suc a..<n]" by (rule upt_conv_Cons)
  show ?case
  proof (cases "P a")
    case True
    have "a # filter P [Suc a..<n] = k # ks"
      using Suc.prems unfolding an filter.simps if_P [OF True] .
    then show ?thesis using True a by force
  next
    case False
    with Suc.prems have next_a: "filter P [Suc a..<n] = k # ks" unfolding an by simp
    have "d = n - Suc a" using Suc.hyps(2) by simp
    from Suc.hyps(1) [OF this next_a]
    have IH: "Suc a \<le> k" "k < n" "P k" "\<forall>x. Suc a \<le> x \<and> x < k \<longrightarrow> \<not> P x" "filter P [Suc k..<n] = ks" by blast+
    have "\<not> P x" if "a \<le> x" "x < k" for x
      using IH(4) False that by (cases "x = a") auto
    with IH show ?thesis by simp
  qed
qed

text \<open>The hunk of a cluster \<open>[st, en]\<close>, reached from \<open>p\<close>.\<close>

lemma cluster_hunk_apply:
  assumes num: "numbered E" and ctx: "1 \<le> ctx" and p: "p = 0 \<or> p + ctx \<le> st" "p \<le> st" "st \<le> en" "en < length E"
    and gap: "\<forall>k. p \<le> k \<and> k < st \<longrightarrow> \<not> changed (E ! k)"
    and b: "b = Suc (min (length E - 1) (en + ctx))"
  shows "apply_hunks (length (olds (take p E))) (olds (drop p E)) (build_hunk E ctx (st, en) # hs) =
      map_option (\<lambda>out. news (seg E p b) @ out) (apply_hunks (length (olds (take b E))) (olds (drop b E)) hs)"
    and "change_lines (build_hunk E ctx (st, en) # hs) = map mark (filter changed (seg E p b)) @ change_lines hs"
proof -
  let ?s = "st - ctx"
  have range: "hunk_range E ctx (st, en) = (?s, b - 1)" "Suc (b - 1) = b" "b \<le> length E" "en < b"
    using p b by (auto simp: hunk_range_def)
  have ps: "p \<le> ?s" "?s < b" using p range by auto
  have anchor: "?s = 0 \<or> (\<exists>x \<in> set (seg E ?s b). ed_type x = Unchanged)"
  proof (cases "?s = 0")
    case False
    with ctx have "?s \<le> st - 1" "st - 1 < b" "p \<le> st - 1" "st - 1 < st"
      using ps p range by auto
    then have "E ! (st - 1) \<in> set (seg E ?s b)" "ed_type (E ! (st - 1)) = Unchanged"
      using range gap by (auto simp: set_seg)
    then show ?thesis by blast
  qed simp
  have h: "build_hunk E ctx (st, en) = finish_hunk (fold hunk_step (seg E ?s b) empty_hunk)"
    using build_hunk_seg [of E ctx "(st, en)" ?s "b - 1"] range by simp
  have "\<forall>k. p \<le> k \<and> k < ?s \<longrightarrow> \<not> changed (E ! k)"
    using gap less_le_trans [OF _ diff_le_self [of st ctx]] by blast
  note one = hunk_apply [OF num ps range(3) this anchor h, of hs]
  show "apply_hunks (length (olds (take p E))) (olds (drop p E)) (build_hunk E ctx (st, en) # hs) =
      map_option (\<lambda>out. news (seg E p b) @ out) (apply_hunks (length (olds (take b E))) (olds (drop b E)) hs)"
    by (rule one(1))
  show "change_lines (build_hunk E ctx (st, en) # hs) = map mark (filter changed (seg E p b)) @ change_lines hs"
    by (rule one(2))
qed

text \<open>
  The clusters from the first changed index \<open>st\<close> at or after \<open>p\<close>, with a distance of the context to it.
\<close>

lemma clusters_apply:
  assumes num: "numbered E"
  shows "1 \<le> ctx \<Longrightarrow> p = 0 \<or> p + ctx \<le> st \<Longrightarrow> p \<le> st \<Longrightarrow> st \<le> en \<Longrightarrow> en < length E \<Longrightarrow>
    \<forall>k. p \<le> k \<and> k < st \<longrightarrow> \<not> changed (E ! k) \<Longrightarrow>
    filter (\<lambda>k. changed (E ! k)) [Suc en..<length E] = ks \<Longrightarrow>
    apply_hunks (length (olds (take p E))) (olds (drop p E)) (map (build_hunk E ctx) (cluster_loop ctx st en ks)) =
      Some (news (drop p E)) \<and>
    change_lines (map (build_hunk E ctx) (cluster_loop ctx st en ks)) = map mark (filter changed (drop p E))"
proof (induction ctx st en ks arbitrary: p rule: cluster_loop.induct)
  case (1 ctx st en)
  define b where "b = Suc (min (length E - 1) (en + ctx))"
  have b: "en < b" "b \<le> length E" "p \<le> b" using 1 by (auto simp: b_def)
  have "\<not> changed (E ! k)" if "b \<le> k" "k < length E" for k
  proof -
    have "k \<in> set [Suc en..<length E]" using that b by simp
    with 1(7) show ?thesis unfolding filter_empty_conv by blast
  qed
  then have "\<forall>x \<in> set (drop b E). ed_type x = Unchanged"
    by (auto simp: in_set_conv_nth)
  then have "news (drop b E) = olds (drop b E) \<and> filter changed (drop b E) = []"
    by (rule unchanged_segment)
  then show ?case
    using cluster_hunk_apply [OF num 1(1-6) b_def, of "[]"] drop_seg [OF b(3), of E]
    by (simp add: change_lines_def)
next
  case (2 ctx st en k ks)
  note next_k = filter_upt_Cons [OF 2(9)]
  show ?case
  proof (cases "k - en \<le> 2 * ctx")
    case True
    then show ?thesis
      using 2(1) [OF True 2(3-5) _ _ 2(8)] next_k 2(6) by simp
  next
    case False
    define b where "b = Suc (min (length E - 1) (en + ctx))"
    have b: "b = Suc (en + ctx)" "p \<le> b" using next_k False 2(5,6) by (auto simp: b_def)
    have "apply_hunks (length (olds (take b E))) (olds (drop b E)) (map (build_hunk E ctx) (cluster_loop ctx k k ks)) =
        Some (news (drop b E)) \<and>
      change_lines (map (build_hunk E ctx) (cluster_loop ctx k k ks)) = map mark (filter changed (drop b E))"
      using next_k False b by (intro 2(2) [OF False 2(3)]) auto
    then show ?thesis
      using cluster_hunk_apply [OF num 2(3-8) b_def, of "map (build_hunk E ctx) (cluster_loop ctx k k ks)"]
        drop_seg [OF b(2), of E] False by simp
  qed
qed

lemma hunks_apply:
  assumes "numbered E" "1 \<le> ctx"
  shows "apply_hunks 0 (olds E) (buildHunks E ctx) = Some (news E)"
    and "change_lines (buildHunks E ctx) = map mark (filter changed E)"
proof -
  have "apply_hunks 0 (olds E) (buildHunks E ctx) = Some (news E) \<and>
    change_lines (buildHunks E ctx) = map mark (filter changed E)"
  proof (cases "filter (\<lambda>k. changed (E ! k)) [0..<length E]")
    case Nil
    then have "\<forall>x \<in> set E. ed_type x = Unchanged"
      by (auto simp: filter_empty_conv in_set_conv_nth)
    then have "news E = olds E \<and> filter changed E = []" by (rule unchanged_segment)
    with Nil show ?thesis by (simp add: buildHunks_def change_lines_def)
  next
    case (Cons k ks)
    note first = filter_upt_Cons [OF Cons]
    then have "E \<noteq> []" by auto
    with Cons have "buildHunks E ctx = map (build_hunk E ctx) (cluster_loop ctx k k ks)"
      by (simp add: buildHunks_def)
    with clusters_apply [OF assms, of 0 k k ks] first show ?thesis by simp
  qed
  then show "apply_hunks 0 (olds E) (buildHunks E ctx) = Some (news E)"
    and "change_lines (buildHunks E ctx) = map mark (filter changed E)" by blast+
qed

text \<open>
  C9: Whoever applies the hunks of the report to the old lines gets the new lines, with every copied and
  removed line found where its hunk says; the lines of the hunks that are not context are exactly the
  changes, so the counts of additions and deletions are exact and as small as for any common subsequence.
\<close>

theorem report_is_patch:
  assumes "r = computeDiffBetweenContents p old q new" "es = computeDiffEdits (splitLines old) (splitLines new)"
  shows "apply_hunks 0 (splitLines old) (concat (map fd_hunks (file_diffs r))) = Some (splitLines new) \<and>
    (splitLines old \<noteq> splitLines new \<longrightarrow>
      change_lines (concat (map fd_hunks (file_diffs r))) = map mark (filter (\<lambda>e. ed_type e \<noteq> Unchanged) es) \<and>
      total_additions r = int (length (splitLines new)) - int (length (kept es)) \<and>
      total_deletions r = int (length (splitLines old)) - int (length (kept es)))"
proof (cases "splitLines old = splitLines new")
  case True
  then show ?thesis by (simp add: assms(1) computeDiffBetweenContents_def empty_report_def)
next
  case False
  let ?hs = "buildHunks es 3"
  have es: "olds es = splitLines old" "news es = splitLines new" "numbered es"
    using edits_ok [of "splitLines old" "splitLines new"] assms(2) by (simp_all add: walk_ok_def)
  have hs: "concat (map fd_hunks (file_diffs r)) = ?hs" "total_additions r = line_count (CHR ''+'') ?hs"
    "total_deletions r = line_count (CHR ''-'') ?hs"
    using False by (simp_all add: assms computeDiffBetweenContents_def Let_def)
  have app: "apply_hunks 0 (olds es) ?hs = Some (news es)"
    and changes: "change_lines ?hs = map mark (filter changed es)"
    using hunks_apply [OF es(3), of 3] by simp_all
  have count: "line_count c ?hs = int (length (filter (\<lambda>l. hd l = c) (map mark (filter changed es))))"
    if "c \<noteq> CHR '' ''" for c
  proof -
    have "filter (\<lambda>l. l \<noteq> [] \<and> hd l = c) (concat (map dh_lines ?hs)) = filter (\<lambda>l. hd l = c) (change_lines ?hs)"
      unfolding change_lines_def filter_filter by (rule filter_cong) (use that in auto)
    with changes show ?thesis by (simp add: line_count_def)
  qed
  have plus: "length (filter (\<lambda>l. hd l = CHR ''+'') (map mark (filter changed fs))) + length (kept fs) = length (news fs)"
    and minus: "length (filter (\<lambda>l. hd l = CHR ''-'') (map mark (filter changed fs))) + length (kept fs) = length (olds fs)" for fs
    by (induction fs) (auto simp: mark_def split: EditType.splits)
  show ?thesis
    using app changes count [of "CHR ''+''"] count [of "CHR ''-''"] plus [of es] minus [of es]
    unfolding hs es by simp
qed

theorem report_is_patch_witness:
  "total_additions (computeDiffBetweenContents ''f'' (''a'' @ [newline] @ ''b'') ''f'' (''b'' @ [newline] @ ''c'')) = 1"
proof -
  let ?r = "computeDiffBetweenContents ''f'' (''a'' @ [newline] @ ''b'') ''f'' (''b'' @ [newline] @ ''c'')"
  let ?es = "computeDiffEdits (splitLines (''a'' @ [newline] @ ''b'')) (splitLines (''b'' @ [newline] @ ''c''))"
  have "splitLines (''a'' @ [newline] @ ''b'') \<noteq> splitLines (''b'' @ [newline] @ ''c'')" by code_simp
  with report_is_patch [where p = "''f''" and q = "''f''" and old = "''a'' @ [newline] @ ''b''"
      and new = "''b'' @ [newline] @ ''c''", OF refl refl]
  have "total_additions ?r = int (length (splitLines (''b'' @ [newline] @ ''c''))) - int (length (kept ?es))"
    by blast
  also have "\<dots> = 1" by code_simp
  finally show ?thesis .
qed

end
