(* ===== verification/Snapshot_Properties.thy ===== *)
theory Snapshot_Properties
  imports Snapshot_Manager Diff_Properties
begin

text \<open>
  What snapshots promise: a rollback to a snapshot of the whole workspace restores it exactly, whatever
  happened in between, and the report against a snapshot names the files that differ. And what a
  rollback to a snapshot of some files does to the others.
\<close>

subsection \<open>What a snapshot holds\<close>

lemma snapshot_loop_files:
  "snapshot_loop a d rels files n = (files', n') \<Longrightarrow>
   map_of files' p = (if p \<in> set rels then Some (file_snapshot a d p) else map_of files p) \<and>
   (distinct (um_keys files) \<longrightarrow> distinct (um_keys files'))"
proof (induction a d rels files n arbitrary: files' n' rule: snapshot_loop.induct)
  case (1 a d files n)
  then show ?case by simp
next
  case (2 a d rel rels files n)
  then have "snapshot_loop a d rels (AList.update rel (file_snapshot a d rel) files)
      (if existed_at_snapshot (file_snapshot a d rel) then n + size_bytes (file_snapshot a d rel) else n) = (files', n')"
    by (simp only: snapshot_loop.simps Let_def)
  from 2(1) [OF refl this] show ?case by auto
qed

lemma createSnapshot_files:
  assumes "createSnapshot manifest a now i desc track s = (Inr cp, s')"
  shows "map_of (cp_files cp) p =
      (if p \<in> set (if track = [] then scanWorkspaceFiles (sm_disk s) else track)
       then Some (file_snapshot a (sm_disk s) p) else None)"
    and "distinct (um_keys (cp_files cp))" and "map_of (snapshots s') i = Some cp"
proof -
  define rels where "rels = (if track = [] then scanWorkspaceFiles (sm_disk s) else track)"
  obtain files n where l: "snapshot_loop a (sm_disk s) rels [] 0 = (files, n)" by fastforce
  then have cp: "cp_files cp = files" "map_of (snapshots s') i = Some cp"
    using assms by (auto simp: createSnapshot_def Let_def rels_def split: if_splits)
  show "map_of (cp_files cp) p = (if p \<in> set (if track = [] then scanWorkspaceFiles (sm_disk s) else track)
       then Some (file_snapshot a (sm_disk s) p) else None)"
    using snapshot_loop_files [OF l, of p] unfolding cp rels_def [symmetric] by simp
  show "distinct (um_keys (cp_files cp))"
    using snapshot_loop_files [OF l] unfolding cp by simp
  show "map_of (snapshots s') i = Some cp" by (rule cp(2))
qed

lemma in_scan [simp]: "p \<in> set (scanWorkspaceFiles d) \<longleftrightarrow> map_of d p \<noteq> None \<and> \<not> skipped_path p"
  unfolding scanWorkspaceFiles_def set_filter mem_Collect_eq in_um_keys by blast

subsection \<open>What a rollback does\<close>

text \<open>Nothing on the disk refuses to be written or removed.\<close>

definition may_change :: "disk_access \<Rightarrow> bool" where
  "may_change a \<longleftrightarrow> (\<forall>p. can_write a p \<and> can_remove a p)"

definition clean_summary :: "RollbackSummary \<Rightarrow> bool" where
  "clean_summary rs \<longleftrightarrow> rb_success rs \<and> failed_files rs = []"

lemma remove_untracked_fold:
  assumes "may_change a"
  shows "clean_summary rs \<Longrightarrow> fold (remove_untracked a cp) ps (rs, d) = (rs', d') \<Longrightarrow>
    clean_summary rs' \<and>
    map_of d' p = (if p \<in> set ps \<and> map_of (cp_files cp) p = None then None else map_of d p)"
proof (induction ps arbitrary: rs d)
  case Nil
  then show ?case by simp
next
  case (Cons q ps)
  obtain rs1 d1 where one: "remove_untracked a cp q (rs, d) = (rs1, d1)" by fastforce
  with assms Cons.prems(1) have "clean_summary rs1"
    and d1: "map_of d1 p = (if p = q \<and> map_of (cp_files cp) p = None then None else map_of d p)" for p
    by (auto simp: remove_untracked_def remove_file_def may_change_def clean_summary_def split: if_splits)
  with Cons.IH [of rs1 d1] Cons.prems(2) one show ?case by auto
qed

definition restored_as :: "(string, FileSnapshot) umap \<Rightarrow> disk \<Rightarrow> string \<Rightarrow> DiskFile option" where
  "restored_as files d p = (case map_of files p of
     None \<Rightarrow> map_of d p
   | Some f \<Rightarrow> if existed_at_snapshot f then Some \<lparr>df_content = fs_content f, df_perms = fs_permissions f\<rparr> else None)"

lemma restore_file_fold:
  assumes "may_change a"
  shows "clean_summary rs \<Longrightarrow> distinct (um_keys files) \<Longrightarrow> fold (restore_file a) files (rs, d) = (rs', d') \<Longrightarrow>
    clean_summary rs' \<and> map_of d' p = restored_as files d p"
proof (induction files arbitrary: rs d)
  case Nil
  then show ?case by (simp add: restored_as_def)
next
  case (Cons x files)
  obtain rel f where x: "x = (rel, f)" by fastforce
  obtain rs1 d1 where one: "restore_file a (rel, f) (rs, d) = (rs1, d1)" by fastforce
  with assms Cons.prems(1) have c1: "clean_summary rs1"
    and d1: "map_of d1 p = (if p = rel then restored_as [(rel, f)] d p else map_of d p)" for p
    by (auto simp: restore_file_def remove_file_def writeFileContent_def may_change_def clean_summary_def
        restored_as_def file_exists_def split: if_splits)
  have "map_of files rel = None"
    using Cons.prems(2) in_um_keys [of rel files] unfolding x by simp
  moreover have "clean_summary rs' \<and> map_of d' p = restored_as files d1 p"
    using Cons.IH [OF c1, of d1] Cons.prems(2,3) one x by simp
  ultimately show ?case
    using d1 [of p] x by (cases "p = rel"; cases "map_of files p") (auto simp: restored_as_def)
qed

lemma rollback_effect:
  assumes "may_change a" "map_of (snapshots s) i = Some cp" "distinct (um_keys (cp_files cp))"
    "rollbackSnapshot a i s = (r, s')"
  shows "(\<exists>rs. r = Inr rs \<and> rb_success rs \<and> failed_files rs = []) \<and>
    map_of (sm_disk s') p = (case map_of (cp_files cp) p of
       Some f \<Rightarrow> if existed_at_snapshot f then Some \<lparr>df_content = fs_content f, df_perms = fs_permissions f\<rparr> else None
     | None \<Rightarrow> if skipped_path p then map_of (sm_disk s) p else None)"
proof -
  let ?rs = "\<lparr>rb_success = True, rb_snapshot_id = i, restored_files = [], deleted_created_files = [], failed_files = []\<rparr>"
  obtain rs1 d1 where one: "fold (remove_untracked a cp) (scanWorkspaceFiles (sm_disk s)) (?rs, sm_disk s) = (rs1, d1)"
    by fastforce
  obtain rs2 d2 where two: "fold (restore_file a) (cp_files cp) (rs1, d1) = (rs2, d2)" by fastforce
  from remove_untracked_fold [OF assms(1) _ one]
  have c1: "clean_summary rs1"
    and d1: "map_of d1 p = (if p \<in> set (scanWorkspaceFiles (sm_disk s)) \<and> map_of (cp_files cp) p = None then None else map_of (sm_disk s) p)" for p
    by (auto simp: clean_summary_def)
  from restore_file_fold [OF assms(1) c1 assms(3) two]
  have c2: "clean_summary rs2" and d2: "map_of d2 p = restored_as (cp_files cp) d1 p" for p by auto
  have "r = Inr rs2" "sm_disk s' = d2"
    using assms(2,4) one two by (auto simp: rollbackSnapshot_def Let_def)
  with c2 show ?thesis
    by (auto simp: d2 restored_as_def d1 clean_summary_def split: option.split)
qed

text \<open>
  C8: Take a snapshot of the whole workspace while every file can be read; then change the disk in any way;
  then roll back while nothing refuses to be written or removed. The rollback succeeds without a failed
  file, every file of the workspace has its old content and permissions, every file created since is
  gone, and the skipped directories are as they were before the rollback.
\<close>

theorem rollback_restores:
  assumes "createSnapshot manifest a now i desc [] s = (Inr cp, s1)" "\<forall>p. can_read a p"
    and "map_of (snapshots s2) i = Some cp" "may_change b" "rollbackSnapshot b i s2 = (r, s3)"
  shows "(\<exists>rs. r = Inr rs \<and> rb_success rs \<and> failed_files rs = []) \<and>
    map_of (sm_disk s3) p = (if skipped_path p then map_of (sm_disk s2) p else map_of (sm_disk s) p)"
proof -
  note files = createSnapshot_files [OF assms(1)]
  have "map_of (cp_files cp) p = (if map_of (sm_disk s) p \<noteq> None \<and> \<not> skipped_path p
      then Some (file_snapshot a (sm_disk s) p) else None)"
    using files(1) [of p] by (simp only: in_scan if_True simp_thms)
  moreover have "existed_at_snapshot (file_snapshot a (sm_disk s) p) \<and>
      \<lparr>df_content = fs_content (file_snapshot a (sm_disk s) p), df_perms = fs_permissions (file_snapshot a (sm_disk s) p)\<rparr> = f"
    if "map_of (sm_disk s) p = Some f" for f
    using that assms(2) by (simp add: file_snapshot_def readFileContent_def Let_def)
  ultimately show ?thesis
    using rollback_effect [OF assms(4,3) files(2) assms(5), of p]
    by (cases "map_of (sm_disk s) p") auto
qed

text \<open>
  A snapshot of a list of files is no safe point for the rest: rolling back to it removes every other
  file of the workspace, although the files were there when the snapshot was taken.
\<close>

theorem partial_rollback_removes:
  assumes "createSnapshot manifest a now i desc (t # ts) s = (Inr cp, s1)" "may_change b"
    and "rollbackSnapshot b i s1 = (r, s2)" "p \<notin> set (t # ts)" "\<not> skipped_path p"
  shows "map_of (sm_disk s2) p = None"
proof -
  note files = createSnapshot_files [OF assms(1)]
  have "map_of (cp_files cp) p = None"
    using files(1) [of p] assms(4) by simp
  with rollback_effect [OF assms(2) files(3,2) assms(3), of p] assms(5) show ?thesis by simp
qed

subsection \<open>The report against a snapshot\<close>

definition report_paths :: "UnifiedDiffReport \<Rightarrow> string list" where
  "report_paths r = map fd_old_path (file_diffs r)"

definition totals_right :: "UnifiedDiffReport \<Rightarrow> bool" where
  "totals_right r \<longleftrightarrow> total_files_changed r = int (length (file_diffs r)) \<and>
     total_additions r = sum_list (map additions (file_diffs r)) \<and>
     total_deletions r = sum_list (map deletions (file_diffs r))"

lemma add_diff_report:
  assumes "totals_right full"
  shows "totals_right (add_diff (computeDiffBetweenContents rel old rel new) full) \<and>
    report_paths (add_diff (computeDiffBetweenContents rel old rel new) full) =
      report_paths full @ (if splitLines old \<noteq> splitLines new then [rel] else [])"
  using assms
  by (simp add: totals_right_def report_paths_def add_diff_def computeDiffBetweenContents_def Let_def empty_report_def)

lemma fold_report:
  assumes "\<And>x full. totals_right full \<Longrightarrow>
    totals_right (g x full) \<and> report_paths (g x full) = report_paths full @ (if Q x then [path x] else [])"
  shows "totals_right full \<Longrightarrow> totals_right (fold g xs full) \<and>
    report_paths (fold g xs full) = report_paths full @ map path (filter Q xs)"
  by (induction xs arbitrary: full) (simp_all add: assms)

text \<open>
  The report against a snapshot names, in this order, the tracked files whose lines differ from the
  snapshot (a missing file counts as empty) and the new files of the workspace that have a line; its totals
  are the number of these files and the sums of their additions and deletions.
\<close>

theorem diff_from_snapshot_right:
  assumes "map_of (snapshots s) i = Some cp" "generateDiffFromSnapshot a i s = Inr r"
  shows "map fd_old_path (file_diffs r) =
      map fst (filter (\<lambda>(rel, f). splitLines (fs_content f) \<noteq> splitLines (readFileContent a rel (sm_disk s))) (cp_files cp)) @
      filter (\<lambda>rel. map_of (cp_files cp) rel = None \<and> splitLines (readFileContent a rel (sm_disk s)) \<noteq> [])
        (scanWorkspaceFiles (sm_disk s)) \<and>
    total_files_changed r = int (length (file_diffs r)) \<and>
    total_additions r = sum_list (map additions (file_diffs r)) \<and>
    total_deletions r = sum_list (map deletions (file_diffs r))"
proof -
  let ?d = "sm_disk s"
  let ?g = "\<lambda>(rel, f). diff_file rel (fs_content f) (if file_exists rel ?d then readFileContent a rel ?d else [])"
  let ?h = "\<lambda>rel. if map_of (cp_files cp) rel = None then diff_created rel (readFileContent a rel ?d) else id"
  let ?full = "empty_report\<lparr>base_snapshot_or_commit := i\<rparr>"
  have now: "(if file_exists rel ?d then readFileContent a rel ?d else []) = readFileContent a rel ?d" for rel
    by (simp add: file_exists_def readFileContent_def)
  have g: "totals_right (?g x full) \<and> report_paths (?g x full) = report_paths full @
      (if (\<lambda>(rel, f). splitLines (fs_content f) \<noteq> splitLines (readFileContent a rel ?d)) x then [fst x] else [])"
    if "totals_right full" for x full
    using that add_diff_report [OF that] by (cases x) (auto simp: now diff_file_def)
  have h: "totals_right (?h x full) \<and> report_paths (?h x full) = report_paths full @
      (if map_of (cp_files cp) x = None \<and> splitLines (readFileContent a x ?d) \<noteq> [] then [id x] else [])"
    if "totals_right full" for x full
    using that add_diff_report [OF that, of x "[]" "readFileContent a x ?d"]
    by (auto simp: diff_created_def splitLines_def)
  have "totals_right ?full" "report_paths ?full = []"
    by (simp_all add: totals_right_def report_paths_def empty_report_def)
  moreover have "r = fold ?h (scanWorkspaceFiles ?d) (fold ?g (cp_files cp) ?full)"
    using assms by (simp add: generateDiffFromSnapshot_def Let_def)
  ultimately have "totals_right r \<and> report_paths r =
      map fst (filter (\<lambda>(rel, f). splitLines (fs_content f) \<noteq> splitLines (readFileContent a rel ?d)) (cp_files cp)) @
      map id (filter (\<lambda>rel. map_of (cp_files cp) rel = None \<and> splitLines (readFileContent a rel ?d) \<noteq> []) (scanWorkspaceFiles ?d))"
    using fold_report [where g = ?g and path = fst and full = ?full and xs = "cp_files cp", OF g]
      fold_report [where g = ?h and path = id and full = "fold ?g (cp_files cp) ?full" and xs = "scanWorkspaceFiles ?d", OF h]
    by simp
  then show ?thesis by (simp add: totals_right_def report_paths_def)
qed

subsection \<open>Witnesses\<close>

definition open_access :: disk_access where
  "open_access = \<lparr>can_read = (\<lambda>p. True), can_write = (\<lambda>p. True), can_remove = (\<lambda>p. True)\<rparr>"

definition demo_disk :: disk where
  "demo_disk = [(''a.c'', \<lparr>df_content = ''one'', df_perms = 420\<rparr>), (''b.c'', \<lparr>df_content = ''two'', df_perms = 420\<rparr>)]"

definition demo_snap :: "string list \<Rightarrow> (string + CheckpointInfo) \<times> SnapshotManager" where
  "demo_snap track = createSnapshot (\<lambda>cp. ''{}'') open_access 5 ''s1'' [] track (new_SnapshotManager demo_disk)"

lemma demo_snap_result: "\<exists>cp. demo_snap track = (Inr cp, snd (demo_snap track))"
  by (auto simp: demo_snap_def createSnapshot_def Let_def split: prod.splits)

lemma open_access_ok: "may_change open_access" "\<forall>p. can_read open_access p"
  by (simp_all add: open_access_def may_change_def)

text \<open>The snapshot is taken, all files are deleted and another one is made; then the rollback.\<close>

theorem rollback_restores_witness:
  "map_of (sm_disk (snd (rollbackSnapshot open_access ''s1''
     ((snd (demo_snap []))\<lparr>sm_disk := [(''new.c'', \<lparr>df_content = ''x'', df_perms = 420\<rparr>)]\<rparr>)))) ''b.c'' =
   Some \<lparr>df_content = ''two'', df_perms = 420\<rparr>"
proof -
  obtain cp where cp: "demo_snap [] = (Inr cp, snd (demo_snap []))" using demo_snap_result by blast
  then have c: "createSnapshot (\<lambda>cp. ''{}'') open_access 5 ''s1'' [] [] (new_SnapshotManager demo_disk) = (Inr cp, snd (demo_snap []))"
    by (simp add: demo_snap_def)
  let ?s2 = "(snd (demo_snap []))\<lparr>sm_disk := [(''new.c'', \<lparr>df_content = ''x'', df_perms = 420\<rparr>)]\<rparr>"
  have "map_of (snapshots ?s2) ''s1'' = Some cp"
    using createSnapshot_files(3) [OF c] by simp
  from rollback_restores [OF c open_access_ok(2) this open_access_ok(1) prod.collapse [symmetric], of "''b.c''"]
  show ?thesis
    by (simp add: new_SnapshotManager_def demo_disk_def skipped_path_def starts_with_def)
qed

theorem partial_rollback_removes_witness:
  "map_of (sm_disk (snd (rollbackSnapshot open_access ''s1'' (snd (demo_snap [''a.c'']))))) ''b.c'' = None"
proof -
  obtain cp where cp: "demo_snap [''a.c''] = (Inr cp, snd (demo_snap [''a.c'']))" using demo_snap_result by blast
  then have c: "createSnapshot (\<lambda>cp. ''{}'') open_access 5 ''s1'' [] [''a.c''] (new_SnapshotManager demo_disk) =
      (Inr cp, snd (demo_snap [''a.c'']))"
    by (simp add: demo_snap_def)
  show ?thesis
    by (rule partial_rollback_removes [OF c open_access_ok(1) prod.collapse [symmetric]])
      (simp_all add: skipped_path_def starts_with_def)
qed

text \<open>One file changed and one came in since the snapshot.\<close>

theorem diff_from_snapshot_right_witness:
  "\<exists>r. generateDiffFromSnapshot open_access ''s1'' ((snd (demo_snap []))\<lparr>sm_disk :=
       [(''b.c'', \<lparr>df_content = ''two'', df_perms = 420\<rparr>), (''new.c'', \<lparr>df_content = ''x'', df_perms = 420\<rparr>)]\<rparr>) = Inr r \<and>
     map fd_old_path (file_diffs r) = [''a.c'', ''new.c'']"
proof -
  let ?d = "[(''b.c'', \<lparr>df_content = ''two'', df_perms = 420\<rparr>), (''new.c'', \<lparr>df_content = ''x'', df_perms = 420\<rparr>)]"
  let ?s = "(snd (demo_snap []))\<lparr>sm_disk := ?d\<rparr>"
  obtain cp where cp: "map_of (snapshots ?s) ''s1'' = Some cp" "map fst (cp_files cp) = [''a.c'', ''b.c'']"
    "map (fs_content \<circ> snd) (cp_files cp) = [''one'', ''two'']"
    by (auto simp: demo_snap_def createSnapshot_def new_SnapshotManager_def demo_disk_def Let_def scanWorkspaceFiles_def
        skipped_path_def starts_with_def file_snapshot_def readFileContent_def open_access_def)
  then obtain f g where files: "cp_files cp = [(''a.c'', f), (''b.c'', g)]" "fs_content f = ''one''" "fs_content g = ''two''"
    by (auto simp: map_eq_Cons_conv)
  obtain r where r: "generateDiffFromSnapshot open_access ''s1'' ?s = Inr r"
    using cp(1) by (simp add: generateDiffFromSnapshot_def Let_def)
  have now: "readFileContent open_access ''a.c'' ?d = []" "readFileContent open_access ''b.c'' ?d = ''two''"
    "readFileContent open_access ''new.c'' ?d = ''x''" "scanWorkspaceFiles ?d = [''b.c'', ''new.c'']"
    by (simp_all add: readFileContent_def open_access_def scanWorkspaceFiles_def skipped_path_def starts_with_def)
  have lines: "splitLines ''one'' \<noteq> splitLines []" "splitLines ''x'' \<noteq> []"
    by (simp_all add: splitLines_def)
  have d: "sm_disk ?s = ?d" by simp
  note paths = conjunct1 [OF diff_from_snapshot_right [OF cp(1) r]]
  have "map fd_old_path (file_diffs r) = [''a.c'', ''new.c'']"
    unfolding paths files(1) d now(4) by (simp add: files(2,3) now lines)
  with r show ?thesis by (intro exI [of _ r] conjI)
qed

text \<open>
  The id of a snapshot is used as a path without any check: deleting the snapshot with the id \<open>../..\<close>
  deletes the whole workspace.
\<close>

theorem delete_snapshot_escapes:
  "sm_disk (deleteSnapshot open_access ''../..'' (new_SnapshotManager
     ((''.aios/snapshots/s1/manifest.json'', f) # demo_disk))) = []"
  by (simp add: deleteSnapshot_def new_SnapshotManager_def demo_disk_def remove_all_def below_dir_def snap_dir_def
      path_join_def is_absolute_def lexically_normal_def normalizeSeparators_def Let_def open_access_def)

end
