(* ===== verification/Memory_Manager.thy ===== *)
theory Memory_Manager
  imports Vector_Store Knowledge_Graph
begin

text \<open>
  The memory of the agent: \<open>src/src/memory/memory.h\<close> and \<open>memory.cpp\<close>. Entries with a limit on their total
  size, the least recently used evicted first, over the vector store, the knowledge graph and the
  database.

  \<^item> \<open>access_iterators\<close> maps each key to its position in the list \<open>access_order\<close>; it has exactly the keys
    of the list and is not a field here.
  \<^item> The calls to the database engine (SQLite) are recorded in \<open>db_calls\<close> in their order.
  \<^item> The clock, the random ids, and the text of the JSON file with its parser are parameters. Time is
    in nanoseconds. Sizes are natural numbers; every subtraction from the usage is shown to be in range.
  \<^item> \<open>initialize\<close> and \<open>shutdown\<close> hold the mutex when they call \<open>load\<close> and \<open>persist\<close>, which lock it
    again for the JSON; \<open>std::mutex\<close> is not recursive, so this is the outcome \<open>Self_Deadlock\<close>.
\<close>

subsection \<open>Data\<close>

record MemoryEntry =
  me_id :: string
  me_key :: string
  me_value :: string
  me_category :: string
  created_at :: int
  accessed_at :: int
  access_count :: nat
  me_size :: nat
  me_tags :: "string list"
  me_checksum :: string

definition default_entry :: MemoryEntry where
  "default_entry = \<lparr>me_id = [], me_key = [], me_value = [], me_category = [], created_at = 0, accessed_at = 0,
     access_count = 0, me_size = 0, me_tags = [], me_checksum = []\<rparr>"

record MemoryStats =
  st_total_entries :: nat
  st_total_size :: nat
  conversation_entries :: nat
  session_entries :: nat
  repository_entries :: nat
  long_term_entries :: nat
  st_hits :: nat
  st_misses :: nat

record DbMemoryRecord =
  db_id :: string
  db_key :: string
  db_value :: string
  db_category :: string
  db_tags :: "string list"
  db_created_at :: int
  db_accessed_at :: int

datatype db_call = Db_Initialize | Db_Shutdown | Db_Save DbMemoryRecord | Db_Delete string | Db_Clear string

record MemoryManager =
  entries :: "(string, MemoryEntry) umap"
  access_order :: "string list"
  memory_limit :: nat
  memory_usage :: nat
  mm_running :: bool
  cache_hits :: nat
  cache_misses :: nat
  persistence_path :: string
  vector_store :: VectorStore
  knowledge_graph :: KnowledgeGraph
  db_calls :: "db_call list"

definition new_MemoryManager :: MemoryManager where
  "new_MemoryManager = \<lparr>entries = [], access_order = [], memory_limit = 100 * 1024 * 1024, memory_usage = 0,
     mm_running = False, cache_hits = 0, cache_misses = 0, persistence_path = [],
     vector_store = new_VectorStore, knowledge_graph = empty_graph, db_calls = []\<rparr>"

definition computeChecksum :: "string \<Rightarrow> string" where
  "computeChecksum data = nat_string (unat (fold (\<lambda>c h. fnv_step h c) data FNV_OFFSET_BASIS))"

definition db_log :: "db_call \<Rightarrow> MemoryManager \<Rightarrow> MemoryManager" where
  "db_log c m = m\<lparr>db_calls := db_calls m @ [c]\<rparr>"

subsection \<open>The order of use and the eviction\<close>

definition updateAccessOrder :: "string \<Rightarrow> MemoryManager \<Rightarrow> MemoryManager" where
  "updateAccessOrder key m = m\<lparr>access_order := key # remove1 key (access_order m)\<rparr>"

definition removeAccessOrder :: "string \<Rightarrow> MemoryManager \<Rightarrow> MemoryManager" where
  "removeAccessOrder key m = m\<lparr>access_order := remove1 key (access_order m)\<rparr>"

definition updateAccessTime :: "int \<Rightarrow> MemoryEntry \<Rightarrow> MemoryEntry" where
  "updateAccessTime now e = e\<lparr>accessed_at := now, access_count := access_count e + 1\<rparr>"

definition evict_one :: "MemoryManager \<Rightarrow> MemoryManager" where
  "evict_one m =
     (let lru_key = last (access_order m);
          m1 = (case map_of (entries m) lru_key of
                  Some e \<Rightarrow> m\<lparr>memory_usage := memory_usage m - me_size e, entries := AList.delete lru_key (entries m)\<rparr>
                | None \<Rightarrow> m)
      in m1\<lparr>access_order := butlast (access_order m)\<rparr>)"

function evictIfNeeded :: "MemoryManager \<Rightarrow> MemoryManager" where
  "evictIfNeeded m =
     (if memory_usage m > memory_limit m \<and> access_order m \<noteq> [] then evictIfNeeded (evict_one m) else m)"
  by pat_completeness auto
termination
  by (relation "measure (\<lambda>m. length (access_order m))") (auto simp: evict_one_def Let_def)

declare evictIfNeeded.simps [simp del]

subsection \<open>Storing and retrieving\<close>

definition entry_size :: "string \<Rightarrow> string \<Rightarrow> string \<Rightarrow> string list \<Rightarrow> nat" where
  "entry_size key val category tags = length key + length val + length category + sum_list (map length tags)"

text \<open>Into the table; an existing entry keeps its id, its creation and its count of accesses.\<close>

definition put_entry :: "int \<Rightarrow> string \<Rightarrow> string \<Rightarrow> string \<Rightarrow> string \<Rightarrow> string list \<Rightarrow> MemoryManager \<Rightarrow> MemoryManager" where
  "put_entry now fresh key val category tags m =
     (let size = entry_size key val category tags
      in case map_of (entries m) key of
           Some e \<Rightarrow> updateAccessOrder key (m\<lparr>memory_usage := memory_usage m - me_size e + size,
             entries := AList.update key (e\<lparr>me_value := val, me_category := category, me_tags := tags,
               accessed_at := now, me_size := size, me_checksum := computeChecksum val\<rparr>) (entries m)\<rparr>)
         | None \<Rightarrow> updateAccessOrder key (m\<lparr>memory_usage := memory_usage m + size,
             entries := AList.update key \<lparr>me_id = fresh, me_key = key, me_value = val, me_category = category,
               created_at = now, accessed_at = now, access_count = 1, me_size = size, me_tags = tags,
               me_checksum = computeChecksum val\<rparr> (entries m)\<rparr>))"

text \<open>\<open>impl_->entries[key].id\<close> makes an empty entry when the eviction has taken the new one.\<close>

definition store :: "int \<Rightarrow> string \<Rightarrow> string \<Rightarrow> string \<Rightarrow> string \<Rightarrow> string list \<Rightarrow> MemoryManager \<Rightarrow> bool \<times> MemoryManager" where
  "store now fresh key val category tags m =
     (let m1 = evictIfNeeded (put_entry now fresh key val category tags m);
          e = um_get default_entry (entries m1) key;
          m2 = m1\<lparr>entries := (if map_of (entries m1) key = None then AList.update key default_entry (entries m1) else entries m1)\<rparr>
      in (True, db_log (Db_Save \<lparr>db_id = me_id e, db_key = key, db_value = val, db_category = category,
            db_tags = tags, db_created_at = now, db_accessed_at = now\<rparr>) m2))"

definition storeSemantic :: "bool \<Rightarrow> int \<Rightarrow> string \<Rightarrow> string \<Rightarrow> string \<Rightarrow> string \<Rightarrow> string list \<Rightarrow> MemoryManager \<Rightarrow> bool \<times> MemoryManager" where
  "storeSemantic avx now fresh key val category tags m =
     (let m1 = snd (store now fresh key val category tags m)
      in (True, m1\<lparr>vector_store := snd (addDocument avx key val [(''key'', key), (''category'', category)] [] (vector_store m1))\<rparr>))"

definition searchSemantic :: "(score list \<Rightarrow> score) \<Rightarrow> bool \<Rightarrow> string \<Rightarrow> nat \<Rightarrow> real \<Rightarrow> MemoryManager \<Rightarrow> VectorSearchResult list" where
  "searchSemantic pick avx query top_k min_similarity m = search pick avx query top_k min_similarity (vector_store m)"

definition addKnowledgeNode :: "KnowledgeNode \<Rightarrow> MemoryManager \<Rightarrow> bool \<times> MemoryManager" where
  "addKnowledgeNode n m = (case addEntity n (knowledge_graph m) of (r, g) \<Rightarrow> (r, m\<lparr>knowledge_graph := g\<rparr>))"

definition addKnowledgeEdge :: "KnowledgeEdge \<Rightarrow> MemoryManager \<Rightarrow> bool \<times> MemoryManager" where
  "addKnowledgeEdge e m = (case addEdge e (knowledge_graph m) of (r, g) \<Rightarrow> (r, m\<lparr>knowledge_graph := g\<rparr>))"

definition queryRelatedKnowledge :: "string \<Rightarrow> nat \<Rightarrow> MemoryManager \<Rightarrow> KnowledgeNode list" where
  "queryRelatedKnowledge start max_depth m = findRelatedEntities start max_depth None (knowledge_graph m)"

definition findBugFix :: "string \<Rightarrow> MemoryManager \<Rightarrow> KnowledgeNode list" where
  "findBugFix err m = findFixForError err (knowledge_graph m)"

text \<open>The hit of both overloads of \<open>retrieve\<close>, and of \<open>touch\<close>.\<close>

definition touch_entry :: "int \<Rightarrow> string \<Rightarrow> MemoryManager \<Rightarrow> MemoryManager" where
  "touch_entry now key m =
     updateAccessOrder key (m\<lparr>entries := AList.map_entry key (updateAccessTime now) (entries m)\<rparr>)"

definition retrieve :: "int \<Rightarrow> string \<Rightarrow> MemoryManager \<Rightarrow> string option \<times> MemoryManager" where
  "retrieve now key m =
     (case map_of (entries m) key of
        Some e \<Rightarrow> (Some (me_value e), touch_entry now key (m\<lparr>cache_hits := cache_hits m + 1\<rparr>))
      | None \<Rightarrow> (None, m\<lparr>cache_misses := cache_misses m + 1\<rparr>))"

definition retrieve_in :: "int \<Rightarrow> string \<Rightarrow> string \<Rightarrow> MemoryManager \<Rightarrow> string option \<times> MemoryManager" where
  "retrieve_in now key category m =
     (case map_of (entries m) key of
        Some e \<Rightarrow> if me_category e = category
          then (Some (me_value e), touch_entry now key (m\<lparr>cache_hits := cache_hits m + 1\<rparr>))
          else (None, m\<lparr>cache_misses := cache_misses m + 1\<rparr>)
      | None \<Rightarrow> (None, m\<lparr>cache_misses := cache_misses m + 1\<rparr>))"

definition touch :: "int \<Rightarrow> string \<Rightarrow> MemoryManager \<Rightarrow> MemoryManager" where
  "touch now key m = (case map_of (entries m) key of Some e \<Rightarrow> touch_entry now key m | None \<Rightarrow> m)"

subsection \<open>Removing\<close>

definition drop_entry :: "string \<Rightarrow> MemoryManager \<Rightarrow> MemoryManager" where
  "drop_entry key m =
     (case map_of (entries m) key of
        Some e \<Rightarrow> (removeAccessOrder key (m\<lparr>memory_usage := memory_usage m - me_size e\<rparr>))
          \<lparr>entries := AList.delete key (entries m)\<rparr>
      | None \<Rightarrow> m)"

definition remove :: "string \<Rightarrow> MemoryManager \<Rightarrow> bool \<times> MemoryManager" where
  "remove key m =
     (case map_of (entries m) key of
        Some e \<Rightarrow>
          (let m1 = drop_entry key m
           in (True, db_log (Db_Delete key) (m1\<lparr>vector_store := snd (removeDocument key (vector_store m1))\<rparr>)))
      | None \<Rightarrow> (False, m))"

definition keys_where :: "(MemoryEntry \<Rightarrow> bool) \<Rightarrow> MemoryManager \<Rightarrow> string list" where
  "keys_where P m = map fst (filter (\<lambda>(k, e). P e) (entries m))"

definition clearCategory :: "string \<Rightarrow> MemoryManager \<Rightarrow> bool \<times> MemoryManager" where
  "clearCategory category m =
     (True, db_log (Db_Clear category) (fold drop_entry (keys_where (\<lambda>e. me_category e = category) m) m))"

definition hour :: int where
  "hour = 3600 * 1000000000"

definition compact :: "int \<Rightarrow> MemoryManager \<Rightarrow> MemoryManager" where
  "compact now m = fold drop_entry (keys_where (\<lambda>e. (now - accessed_at e) div hour > 24 \<and> access_count e < 2 \<and>
     me_category e = ''session'') m) m"

definition setMemoryLimit :: "nat \<Rightarrow> MemoryManager \<Rightarrow> MemoryManager" where
  "setMemoryLimit limit_bytes m = evictIfNeeded (m\<lparr>memory_limit := limit_bytes\<rparr>)"

subsection \<open>Queries\<close>

text \<open>The loop that stops when a result list has reached its size; it looks only after it has added.\<close>

fun collect :: "('a \<Rightarrow> bool) \<Rightarrow> nat \<Rightarrow> 'a list \<Rightarrow> 'a list \<Rightarrow> 'a list" where
  "collect P n [] acc = acc"
| "collect P n (x # xs) acc =
     (if P x then (if length acc + 1 \<ge> n then acc @ [x] else collect P n xs (acc @ [x])) else collect P n xs acc)"

definition search_memory :: "string \<Rightarrow> string \<Rightarrow> nat \<Rightarrow> MemoryManager \<Rightarrow> MemoryEntry list" where
  "search_memory pattern category max_results m =
     map snd (collect (\<lambda>(k, e). (category = [] \<or> me_category e = category) \<and>
       (pattern = [] \<or> contains k pattern \<or> contains (me_value e) pattern)) max_results (entries m) [])"

definition searchByTags :: "string list \<Rightarrow> nat \<Rightarrow> MemoryManager \<Rightarrow> MemoryEntry list" where
  "searchByTags tags max_results m =
     map snd (collect (\<lambda>(k, e). list_all (\<lambda>t. t \<in> set (me_tags e)) tags) max_results (entries m) [])"

definition getRecent :: "nat \<Rightarrow> MemoryManager \<Rightarrow> MemoryEntry list" where
  "getRecent n m =
     map (\<lambda>k. um_get default_entry (entries m) k)
       (collect (\<lambda>k. map_of (entries m) k \<noteq> None) n (access_order m) [])"

text \<open>\<open>std::sort\<close> leaves the order of equal counts open; here it is that of the table.\<close>

definition getFrequentlyAccessed :: "nat \<Rightarrow> MemoryManager \<Rightarrow> MemoryEntry list" where
  "getFrequentlyAccessed n m = take n (sort_key (\<lambda>e. - int (access_count e)) (map snd (entries m)))"

definition contains_key :: "string \<Rightarrow> MemoryManager \<Rightarrow> bool" where
  "contains_key key m \<longleftrightarrow> map_of (entries m) key \<noteq> None"

definition getKeys :: "string \<Rightarrow> MemoryManager \<Rightarrow> string list" where
  "getKeys category m = keys_where (\<lambda>e. category = [] \<or> me_category e = category) m"

definition getStats :: "MemoryManager \<Rightarrow> MemoryStats" where
  "getStats m =
     (let number = (\<lambda>c. length (filter (\<lambda>(k, e). me_category e = c) (entries m)))
      in \<lparr>st_total_entries = length (entries m), st_total_size = memory_usage m,
          conversation_entries = number ''conversation'', session_entries = number ''session'',
          repository_entries = number ''repository'', long_term_entries = number ''long_term'',
          st_hits = cache_hits m, st_misses = cache_misses m\<rparr>)"

subsection \<open>Import, persistence, start and end\<close>

text \<open>
  An entry of the file: the members it has. Reading an entry can throw (\<open>None\<close>); the entries before it stay.
\<close>

record entry_json =
  ej_id :: "string option"
  ej_key :: "string option"
  ej_value :: "string option"
  ej_category :: "string option"
  ej_access_count :: "nat option"
  ej_size :: "nat option"
  ej_checksum :: "string option"
  ej_tags :: "string list option"

definition the_or :: "'a \<Rightarrow> 'a option \<Rightarrow> 'a" where
  "the_or d v = (case v of None \<Rightarrow> d | Some x \<Rightarrow> x)"

definition json_entry :: "int \<Rightarrow> string \<Rightarrow> entry_json \<Rightarrow> MemoryEntry" where
  "json_entry now fresh j =
     (let key = the_or [] (ej_key j); val = the_or [] (ej_value j)
      in \<lparr>me_id = the_or fresh (ej_id j), me_key = key, me_value = val, me_category = the_or ''session'' (ej_category j),
          created_at = now, accessed_at = now, access_count = the_or 1 (ej_access_count j),
          me_size = the_or (length key + length val) (ej_size j), me_tags = the_or [] (ej_tags j),
          me_checksum = the_or (computeChecksum val) (ej_checksum j)\<rparr>)"

definition import_entry :: "MemoryEntry \<Rightarrow> MemoryManager \<Rightarrow> MemoryManager" where
  "import_entry e m =
     (if me_key e \<noteq> [] then
        updateAccessOrder (me_key e) (m\<lparr>entries := AList.update (me_key e) e (entries m),
          memory_usage := memory_usage m + me_size e\<rparr>)
      else m)"

fun import_loop :: "int \<Rightarrow> (nat \<Rightarrow> string) \<Rightarrow> entry_json option list \<Rightarrow> MemoryManager \<Rightarrow> bool \<times> MemoryManager" where
  "import_loop now fresh [] m = (True, evictIfNeeded m)"
| "import_loop now fresh (None # js) m = (False, m)"
| "import_loop now fresh (Some j # js) m =
     import_loop now fresh js (import_entry (json_entry now (fresh (length js)) j) m)"

text \<open>\<open>None\<close>: the text does not parse or has no array of entries.\<close>

definition importFromJson :: "int \<Rightarrow> (nat \<Rightarrow> string) \<Rightarrow> entry_json option list option \<Rightarrow> MemoryManager \<Rightarrow> bool \<times> MemoryManager" where
  "importFromJson now fresh parsed m = (case parsed of None \<Rightarrow> (False, m) | Some js \<Rightarrow> import_loop now fresh js m)"

text \<open>\<open>load\<close> and \<open>persist\<close> called from outside; the file is its text, \<open>None\<close> when it cannot be opened.\<close>

definition load :: "(string \<Rightarrow> entry_json option list option) \<Rightarrow> int \<Rightarrow> (nat \<Rightarrow> string) \<Rightarrow> string option \<Rightarrow>
    MemoryManager \<Rightarrow> bool \<times> MemoryManager" where
  "load parse now fresh file m =
     (if persistence_path m = [] then (False, m)
      else case file of None \<Rightarrow> (False, m) | Some text \<Rightarrow> importFromJson now fresh (parse text) m)"

definition persist :: "((string, MemoryEntry) umap \<Rightarrow> string) \<Rightarrow> bool \<Rightarrow> MemoryManager \<Rightarrow> string option" where
  "persist dump can_open m = (if persistence_path m \<noteq> [] \<and> can_open then Some (dump (entries m)) else None)"

datatype 'a outcome = Returns 'a | Self_Deadlock

definition initialize :: "string option \<Rightarrow> MemoryManager \<Rightarrow> (bool \<times> MemoryManager) outcome" where
  "initialize file m =
     (if mm_running m then Returns (True, m)
      else
        let m1 = db_log Db_Initialize m
        in if persistence_path m1 \<noteq> [] \<and> file \<noteq> None then Self_Deadlock
           else Returns (True, m1\<lparr>mm_running := True\<rparr>))"

definition shutdown :: "bool \<Rightarrow> MemoryManager \<Rightarrow> MemoryManager outcome" where
  "shutdown can_open m =
     (if \<not> mm_running m then Returns m
      else if persistence_path m \<noteq> [] \<and> can_open then Self_Deadlock
      else Returns ((db_log Db_Shutdown m)\<lparr>entries := [], access_order := [], memory_usage := 0, mm_running := False\<rparr>))"

definition setPersistencePath :: "string \<Rightarrow> MemoryManager \<Rightarrow> MemoryManager" where
  "setPersistencePath path m = m\<lparr>persistence_path := path\<rparr>"

end
