(* ===== verification/Memory_Properties.thy ===== *)
theory Memory_Properties
  imports Memory_Manager
begin

text \<open>
  What the memory promises: the usage it reports is the size of its entries and stays within the limit as
  long as nothing is imported; the eviction takes the least recently used entries and no more than it
  must; and what becomes of an entry that does not fit, and of the usage after an import.
\<close>

subsection \<open>The size of a table\<close>

definition table_size :: "(string, MemoryEntry) umap \<Rightarrow> nat" where
  "table_size t = sum_list (map (\<lambda>(k, e). me_size e) t)"

definition size_at :: "(string, MemoryEntry) umap \<Rightarrow> string \<Rightarrow> nat" where
  "size_at t k = (case map_of t k of None \<Rightarrow> 0 | Some e \<Rightarrow> me_size e)"

lemma table_size_simps [simp]:
  "table_size [] = 0" "table_size ((k, e) # t) = me_size e + table_size t"
  by (simp_all add: table_size_def)

lemma size_at_le: "size_at t k \<le> table_size t"
  by (induction t) (auto simp: size_at_def)

lemma table_size_update:
  "table_size (AList.update k e t) + size_at t k = table_size t + me_size e"
  by (induction t) (auto simp: size_at_def)

lemma table_size_delete:
  "distinct (um_keys t) \<Longrightarrow> table_size (AList.delete k t) + size_at t k = table_size t"
proof (induction t)
  case Nil
  then show ?case by (simp add: size_at_def)
next
  case (Cons p t)
  obtain q e where p: "p = (q, e)" by fastforce
  show ?case
  proof (cases "q = k")
    case True
    with Cons.prems p have "map_of t k = None" using in_um_keys [of k t] by simp
    then have "AList.delete k t = t" by (simp add: delete_id map_of_eq_None_iff)
    with True p show ?thesis by (simp add: size_at_def)
  next
    case False
    with Cons p show ?thesis by (simp add: size_at_def)
  qed
qed

lemma table_size_map_entry: "(\<And>e. me_size (f e) = me_size e) \<Longrightarrow> table_size (AList.map_entry k f t) = table_size t"
  by (induction t) auto

subsection \<open>The invariant\<close>

definition mem_ok :: "MemoryManager \<Rightarrow> bool" where
  "mem_ok m \<longleftrightarrow> distinct (um_keys (entries m)) \<and> distinct (access_order m) \<and>
     (\<forall>k \<in> set (access_order m). map_of (entries m) k \<noteq> None) \<and>
     (\<forall>k. k \<notin> set (access_order m) \<longrightarrow> size_at (entries m) k = 0) \<and>
     table_size (entries m) \<le> memory_usage m"

text \<open>The usage that no entry accounts for.\<close>

definition drift :: "MemoryManager \<Rightarrow> nat" where
  "drift m = memory_usage m - table_size (entries m)"

lemma mem_ok_drift: "mem_ok m \<Longrightarrow> memory_usage m = table_size (entries m) + drift m"
  by (simp add: mem_ok_def drift_def)

lemma mem_okI:
  assumes "distinct (um_keys (entries m))" "distinct (access_order m)"
    "\<And>k. k \<in> set (access_order m) \<Longrightarrow> map_of (entries m) k \<noteq> None"
    "\<And>k. k \<notin> set (access_order m) \<Longrightarrow> size_at (entries m) k = 0"
    "memory_usage m = table_size (entries m) + d"
  shows "mem_ok m \<and> drift m = d"
  using assms by (simp add: mem_ok_def drift_def)

text \<open>Nothing but the entries, their order and the usage matters.\<close>

lemma mem_ok_cong:
  assumes "entries m' = entries m" "access_order m' = access_order m" "memory_usage m' = memory_usage m"
  shows "mem_ok m' = mem_ok m \<and> drift m' = drift m"
  using assms by (simp add: mem_ok_def drift_def)

lemma updateAccessOrder_fields [simp]:
  "entries (updateAccessOrder k m) = entries m" "memory_usage (updateAccessOrder k m) = memory_usage m"
  "memory_limit (updateAccessOrder k m) = memory_limit m"
  "access_order (updateAccessOrder k m) = k # remove1 k (access_order m)"
  by (simp_all add: updateAccessOrder_def)

lemma put_entry_ok:
  assumes ok: "mem_ok m"
  shows "mem_ok (put_entry now fresh key val c tags m) \<and> drift (put_entry now fresh key val c tags m) = drift m"
proof -
  define s where "s = entry_size key val c tags"
  obtain e where e: "entries (put_entry now fresh key val c tags m) = AList.update key e (entries m)" "me_size e = s"
    "memory_usage (put_entry now fresh key val c tags m) = memory_usage m - size_at (entries m) key + s"
    "access_order (put_entry now fresh key val c tags m) = key # remove1 key (access_order m)"
    by (cases "map_of (entries m) key") (auto simp: put_entry_def Let_def s_def size_at_def)
  have usage: "memory_usage m = table_size (entries m) + drift m" using mem_ok_drift [OF ok] .
  show ?thesis
  proof (rule mem_okI)
    show "memory_usage (put_entry now fresh key val c tags m) =
        table_size (entries (put_entry now fresh key val c tags m)) + drift m"
      using table_size_update [of key e "entries m"] size_at_le [of "entries m" key] usage by (simp add: e)
  qed (use ok in \<open>auto simp: e mem_ok_def size_at_def\<close>)
qed

lemma evict_one_ok:
  assumes ok: "mem_ok m" and ne: "access_order m \<noteq> []"
  shows "mem_ok (evict_one m) \<and> drift (evict_one m) = drift m"
    and "entries (evict_one m) = AList.delete (last (access_order m)) (entries m)"
    and "access_order (evict_one m) = butlast (access_order m)"
    and "memory_usage (evict_one m) + size_at (entries m) (last (access_order m)) = memory_usage m"
    and "memory_limit (evict_one m) = memory_limit m"
proof -
  let ?k = "last (access_order m)"
  obtain e where e: "map_of (entries m) ?k = Some e"
    using ok last_in_set [OF ne] by (auto simp: mem_ok_def)
  show f: "entries (evict_one m) = AList.delete ?k (entries m)" "access_order (evict_one m) = butlast (access_order m)"
    "memory_limit (evict_one m) = memory_limit m"
    by (simp_all add: evict_one_def Let_def e)
  have s: "size_at (entries m) ?k = me_size e" by (simp add: size_at_def e)
  have usage: "memory_usage m = table_size (entries m) + drift m" using mem_ok_drift [OF ok] .
  have u: "memory_usage (evict_one m) = memory_usage m - me_size e"
    by (simp add: evict_one_def Let_def e)
  show "memory_usage (evict_one m) + size_at (entries m) ?k = memory_usage m"
    using u s usage size_at_le [of "entries m" ?k] by simp
  have d: "distinct (um_keys (entries m))" "distinct (access_order m)" using ok by (simp_all add: mem_ok_def)
  obtain ks where order: "access_order m = ks @ [?k]"
    using ne append_butlast_last_id by metis
  then have parts: "butlast (access_order m) = ks" "distinct ks" "?k \<notin> set ks" "set (access_order m) = insert ?k (set ks)"
    using d(2) by (metis butlast_snoc, metis distinct_append, metis distinct_append disjoint_insert(1) list.simps(15), metis order set_append Un_commute insert_is_Un empty_set list.simps(15))
  show "mem_ok (evict_one m) \<and> drift (evict_one m) = drift m"
  proof (rule mem_okI)
    show "memory_usage (evict_one m) = table_size (entries (evict_one m)) + drift m"
      using table_size_delete [OF d(1), of ?k] s u usage by (simp add: f)
  qed (use ok parts in \<open>auto simp: f mem_ok_def size_at_def\<close>)
qed

subsection \<open>Eviction\<close>

definition sizes_of :: "(string, MemoryEntry) umap \<Rightarrow> string list \<Rightarrow> nat" where
  "sizes_of t ks = sum_list (map (size_at t) ks)"

lemma sizes_of_delete: "k \<notin> set ks \<Longrightarrow> sizes_of (AList.delete k t) ks = sizes_of t ks"
  unfolding sizes_of_def by (rule arg_cong [of _ _ sum_list], rule map_cong) (auto simp: size_at_def)

lemma delete_filter: "AList.delete k t = filter (\<lambda>(x, e). x \<noteq> k) t"
  by (simp add: AList.delete_eq case_prod_unfold) (rule filter_cong, auto)

definition only_evicted :: "MemoryManager \<Rightarrow> nat \<Rightarrow> MemoryManager \<Rightarrow> bool" where
  "only_evicted m k m' \<longleftrightarrow> k \<le> length (access_order m) \<and> access_order m' = take k (access_order m) \<and>
     entries m' = filter (\<lambda>(x, e). x \<notin> set (drop k (access_order m))) (entries m) \<and>
     memory_usage m' + sizes_of (entries m) (drop k (access_order m)) = memory_usage m \<and>
     memory_limit m' = memory_limit m \<and> (memory_usage m' \<le> memory_limit m \<or> k = 0) \<and>
     (\<forall>j. k < j \<and> j \<le> length (access_order m) \<longrightarrow>
        memory_usage m > memory_limit m + sizes_of (entries m) (drop j (access_order m)))"

lemma evict_exact:
  "mem_ok m \<Longrightarrow> mem_ok (evictIfNeeded m) \<and> drift (evictIfNeeded m) = drift m \<and> (\<exists>k. only_evicted m k (evictIfNeeded m))"
proof (induction m rule: evictIfNeeded.induct)
  case (1 m)
  show ?case
  proof (cases "memory_usage m > memory_limit m \<and> access_order m \<noteq> []")
    case False
    then have "evictIfNeeded m = m" unfolding evictIfNeeded.simps [of m] by (rule if_not_P)
    moreover have "only_evicted m (length (access_order m)) m"
      using False by (auto simp: only_evicted_def sizes_of_def)
    ultimately show ?thesis using 1(2) by metis
  next
    case True
    let ?m1 = "evict_one m"
    have step: "evictIfNeeded m = evictIfNeeded ?m1" unfolding evictIfNeeded.simps [of m] using True by (rule if_P)
    note one = evict_one_ok [OF 1(2)]
    define ks where "ks = butlast (access_order m)"
    define x where "x = last (access_order m)"
    have order: "access_order m = ks @ [x]" using True by (simp add: ks_def x_def)
    have f: "mem_ok ?m1" "drift ?m1 = drift m" "entries ?m1 = AList.delete x (entries m)" "access_order ?m1 = ks"
      "memory_usage ?m1 + size_at (entries m) x = memory_usage m" "memory_limit ?m1 = memory_limit m"
      using one True by (simp_all add: ks_def x_def)
    have x: "x \<notin> set ks" using 1(2) order by (simp add: mem_ok_def)
    from 1(1) [OF True f(1)] f(2) obtain k where
      IH: "mem_ok (evictIfNeeded ?m1)" "drift (evictIfNeeded ?m1) = drift m" "only_evicted ?m1 k (evictIfNeeded ?m1)" by auto
    have k: "k \<le> length ks" using IH(3) by (simp add: only_evicted_def f)
    have sz: "sizes_of (AList.delete x (entries m)) (drop j ks) = sizes_of (entries m) (drop j ks)" for j
      using x by (intro sizes_of_delete) (auto dest: in_set_dropD)
    have dr: "drop j (access_order m) = drop j ks @ [x]" "sizes_of (entries m) (drop j (access_order m)) =
        sizes_of (entries m) (drop j ks) + size_at (entries m) x" if "j \<le> length ks" for j
      using that by (simp_all add: order sizes_of_def)
    have "only_evicted m k (evictIfNeeded ?m1)"
      unfolding only_evicted_def
    proof (intro conjI allI impI)
      show "entries (evictIfNeeded ?m1) = filter (\<lambda>(y, e). y \<notin> set (drop k (access_order m))) (entries m)"
        using IH(3) unfolding only_evicted_def f dr(1) [OF k] delete_filter
        by (simp add: filter_filter) (rule filter_cong, auto)
      have "memory_usage (evictIfNeeded ?m1) + sizes_of (entries m) (drop k ks) = memory_usage ?m1"
        using IH(3) by (simp add: only_evicted_def f(3,4) sz)
      with f(5) dr(2) [OF k]
      show "memory_usage (evictIfNeeded ?m1) + sizes_of (entries m) (drop k (access_order m)) = memory_usage m"
        by linarith
      show "memory_usage m > memory_limit m + sizes_of (entries m) (drop j (access_order m))"
        if "k < j \<and> j \<le> length (access_order m)" for j
      proof (cases "j \<le> length ks")
        case True
        with IH(3) that have "memory_usage ?m1 > memory_limit m + sizes_of (entries m) (drop j ks)"
          by (simp add: only_evicted_def f sz)
        with f(5) dr(2) [OF True] show ?thesis by simp
      next
        case False
        with that have "drop j (access_order m) = []" by (simp add: order)
        with True show ?thesis by (simp add: sizes_of_def)
      qed
    qed (use IH(3) k in \<open>simp_all add: only_evicted_def f sz order\<close>)
    with IH(1,2) show ?thesis unfolding step by blast
  qed
qed

subsection \<open>Every operation keeps the invariant\<close>

lemma touch_entry_ok:
  assumes ok: "mem_ok m" and e: "map_of (entries m) key \<noteq> None"
  shows "mem_ok (touch_entry now key m) \<and> drift (touch_entry now key m) = drift m"
proof (rule mem_okI)
  have size: "size_at (AList.map_entry key (updateAccessTime now) t) k = size_at t k" for t k
    by (simp add: size_at_def updateAccessTime_def split: option.split)
  have f: "entries (touch_entry now key m) = AList.map_entry key (updateAccessTime now) (entries m)"
    "access_order (touch_entry now key m) = key # remove1 key (access_order m)"
    "memory_usage (touch_entry now key m) = memory_usage m"
    by (simp_all add: touch_entry_def)
  show "memory_usage (touch_entry now key m) = table_size (entries (touch_entry now key m)) + drift m"
    using mem_ok_drift [OF ok] by (simp add: f table_size_map_entry updateAccessTime_def)
  show "distinct (um_keys (entries (touch_entry now key m)))" "distinct (access_order (touch_entry now key m))"
    using ok by (simp_all add: f mem_ok_def)
  show "map_of (entries (touch_entry now key m)) k \<noteq> None" if "k \<in> set (access_order (touch_entry now key m))" for k
    using ok e that by (auto simp: f mem_ok_def dest: notin_set_remove1)
  show "size_at (entries (touch_entry now key m)) k = 0" if "k \<notin> set (access_order (touch_entry now key m))" for k
    using ok that by (auto simp: f size mem_ok_def)
qed

lemma drop_entry_ok:
  assumes ok: "mem_ok m"
  shows "mem_ok (drop_entry key m) \<and> drift (drop_entry key m) = drift m"
proof (cases "map_of (entries m) key")
  case None
  then show ?thesis using ok by (simp add: drop_entry_def)
next
  case (Some e)
  then have f: "entries (drop_entry key m) = AList.delete key (entries m)"
    "access_order (drop_entry key m) = remove1 key (access_order m)"
    "memory_usage (drop_entry key m) = memory_usage m - size_at (entries m) key"
    by (simp_all add: drop_entry_def removeAccessOrder_def size_at_def)
  have d: "distinct (um_keys (entries m))" "distinct (access_order m)" using ok by (simp_all add: mem_ok_def)
  show ?thesis
  proof (rule mem_okI)
    show "memory_usage (drop_entry key m) = table_size (entries (drop_entry key m)) + drift m"
      using table_size_delete [OF d(1), of key] mem_ok_drift [OF ok] by (simp add: f)
  qed (use ok d in \<open>auto simp: f mem_ok_def size_at_def\<close>)
qed

lemma drop_entries_ok: "mem_ok m \<Longrightarrow> mem_ok (fold drop_entry ks m) \<and> drift (fold drop_entry ks m) = drift m"
  by (induction ks arbitrary: m) (use drop_entry_ok in simp_all)

lemma drop_entry_usage: "memory_usage (drop_entry key m) \<le> memory_usage m \<and> memory_limit (drop_entry key m) = memory_limit m"
  by (simp add: drop_entry_def removeAccessOrder_def split: option.split)

lemma drop_entries_usage:
  "memory_usage (fold drop_entry ks m) \<le> memory_usage m \<and> memory_limit (fold drop_entry ks m) = memory_limit m"
proof (induction ks arbitrary: m)
  case (Cons k ks)
  from Cons [of "drop_entry k m"] drop_entry_usage [of k m] show ?case by simp
qed simp

lemma table_size_zero: "\<forall>k. size_at t k = 0 \<Longrightarrow> distinct (um_keys t) \<Longrightarrow> table_size t = 0"
proof (induction t)
  case Nil
  then show ?case by simp
next
  case (Cons p t)
  obtain q x where p: "p = (q, x)" by fastforce
  have q: "map_of t q = None" using Cons.prems(2) p in_um_keys [of q t] by simp
  have "size_at t k = 0" for k
    using Cons.prems(1) [rule_format, of k] p q by (cases "k = q") (simp_all add: size_at_def)
  moreover have "me_size x = 0" using Cons.prems(1) [rule_format, of q] p by (simp add: size_at_def)
  ultimately show ?case using Cons.IH Cons.prems(2) p by simp
qed

text \<open>After an eviction the usage is within the limit, up to what no entry accounts for.\<close>

lemma evict_usage:
  assumes "mem_ok m"
  shows "memory_usage (evictIfNeeded m) \<le> max (memory_limit m) (drift m)" "memory_limit (evictIfNeeded m) = memory_limit m"
proof -
  obtain k where e: "mem_ok (evictIfNeeded m)" "drift (evictIfNeeded m) = drift m" "only_evicted m k (evictIfNeeded m)"
    using evict_exact [OF assms] by blast
  show "memory_limit (evictIfNeeded m) = memory_limit m" using e(3) by (simp add: only_evicted_def)
  have "table_size (entries (evictIfNeeded m)) = 0" if "access_order (evictIfNeeded m) = []"
  proof -
    have "\<forall>k. size_at (entries (evictIfNeeded m)) k = 0" using e(1) that by (simp add: mem_ok_def)
    then have "table_size (entries (evictIfNeeded m)) = 0"
      using e(1) by (intro table_size_zero) (simp_all add: mem_ok_def)
    then show ?thesis .
  qed
  then show "memory_usage (evictIfNeeded m) \<le> max (memory_limit m) (drift m)"
    using e(3) mem_ok_drift [OF e(1)] e(2) by (auto simp: only_evicted_def)
qed

lemma store_ok:
  assumes ok: "mem_ok m"
  shows "mem_ok (snd (store now fresh key val c tags m)) \<and> drift (snd (store now fresh key val c tags m)) = drift m \<and>
    memory_usage (snd (store now fresh key val c tags m)) \<le> max (memory_limit m) (drift m) \<and>
    memory_limit (snd (store now fresh key val c tags m)) = memory_limit m"
proof -
  let ?p = "put_entry now fresh key val c tags m"
  let ?m1 = "evictIfNeeded ?p"
  have p: "mem_ok ?p" "drift ?p = drift m" "memory_limit ?p = memory_limit m"
    using put_entry_ok [OF ok] by (auto simp: put_entry_def Let_def updateAccessOrder_def split: option.split)
  have m1: "mem_ok ?m1" "drift ?m1 = drift m" using evict_exact [OF p(1)] p(2) by simp_all
  define m2 where "m2 = ?m1\<lparr>entries := (if map_of (entries ?m1) key = None then AList.update key default_entry (entries ?m1) else entries ?m1)\<rparr>"
  have m2: "mem_ok m2 \<and> drift m2 = drift m"
  proof (cases "map_of (entries ?m1) key = None")
    case True
    then have f: "entries m2 = AList.update key default_entry (entries ?m1)" "access_order m2 = access_order ?m1"
      "memory_usage m2 = memory_usage ?m1" by (simp_all add: m2_def)
    show ?thesis
    proof (rule mem_okI)
      show "memory_usage m2 = table_size (entries m2) + drift m"
        using table_size_update [of key default_entry "entries ?m1"] mem_ok_drift [OF m1(1)] m1(2) True
        by (simp add: f size_at_def default_entry_def)
    qed (use m1(1) True in \<open>auto simp: f mem_ok_def size_at_def default_entry_def\<close>)
  next
    case False
    then have "m2 = ?m1" unfolding m2_def if_not_P [OF False] by simp
    with m1 show ?thesis by simp
  qed
  define s where "s = snd (store now fresh key val c tags m)"
  have s: "entries s = entries m2" "access_order s = access_order m2" "memory_usage s = memory_usage m2" "memory_limit s = memory_limit m2"
    by (simp_all add: s_def store_def Let_def db_log_def m2_def)
  have "memory_usage m2 = memory_usage ?m1" "memory_limit m2 = memory_limit ?m1" by (simp_all add: m2_def)
  with s m2 evict_usage [OF p(1)] p mem_ok_cong [OF s(1-3)] show ?thesis by (simp add: s_def [symmetric])
qed

lemma import_entry_ok:
  assumes ok: "mem_ok m"
  shows "mem_ok (import_entry e m) \<and>
    drift (import_entry e m) = drift m + (if me_key e = [] then 0 else size_at (entries m) (me_key e))"
proof (cases "me_key e = []")
  case True
  then show ?thesis using ok by (simp add: import_entry_def)
next
  case False
  let ?k = "me_key e"
  from False have f: "entries (import_entry e m) = AList.update ?k e (entries m)"
    "access_order (import_entry e m) = ?k # remove1 ?k (access_order m)"
    "memory_usage (import_entry e m) = memory_usage m + me_size e"
    by (simp_all add: import_entry_def)
  have "mem_ok (import_entry e m) \<and> drift (import_entry e m) = drift m + size_at (entries m) ?k"
  proof (rule mem_okI)
    show "memory_usage (import_entry e m) = table_size (entries (import_entry e m)) + (drift m + size_at (entries m) ?k)"
      using table_size_update [of ?k e "entries m"] mem_ok_drift [OF ok] by (simp add: f)
  qed (use ok in \<open>auto simp: f mem_ok_def size_at_def\<close>)
  with False show ?thesis by simp
qed

lemma import_loop_ok: "mem_ok m \<Longrightarrow> mem_ok (snd (import_loop now fresh js m))"
  by (induction now fresh js m rule: import_loop.induct) (simp_all add: evict_exact import_entry_ok)

subsection \<open>Runs\<close>

datatype mem_op =
    Op_Store int string string string string "string list"
  | Op_Store_Semantic bool int string string string string "string list"
  | Op_Retrieve int string
  | Op_Retrieve_In int string string
  | Op_Touch int string
  | Op_Remove string
  | Op_Clear_Category string
  | Op_Compact int
  | Op_Set_Limit nat
  | Op_Import int "nat \<Rightarrow> string" "entry_json option list option"

fun mem_step :: "mem_op \<Rightarrow> MemoryManager \<Rightarrow> MemoryManager" where
  "mem_step (Op_Store now i k v c ts) m = snd (store now i k v c ts m)"
| "mem_step (Op_Store_Semantic avx now i k v c ts) m = snd (storeSemantic avx now i k v c ts m)"
| "mem_step (Op_Retrieve now k) m = snd (retrieve now k m)"
| "mem_step (Op_Retrieve_In now k c) m = snd (retrieve_in now k c m)"
| "mem_step (Op_Touch now k) m = touch now k m"
| "mem_step (Op_Remove k) m = snd (remove k m)"
| "mem_step (Op_Clear_Category c) m = snd (clearCategory c m)"
| "mem_step (Op_Compact now) m = compact now m"
| "mem_step (Op_Set_Limit n) m = setMemoryLimit n m"
| "mem_step (Op_Import now fresh p) m = snd (importFromJson now fresh p m)"

definition is_import :: "mem_op \<Rightarrow> bool" where
  "is_import op = (case op of Op_Import _ _ _ \<Rightarrow> True | _ \<Rightarrow> False)"

text \<open>The usage is exact and within the limit.\<close>

definition mem_exact :: "MemoryManager \<Rightarrow> bool" where
  "mem_exact m \<longleftrightarrow> mem_ok m \<and> drift m = 0 \<and> memory_usage m \<le> memory_limit m"

lemma mem_exact_cong:
  assumes "entries m' = entries m" "access_order m' = access_order m" "memory_usage m' = memory_usage m"
    "memory_limit m' = memory_limit m"
  shows "mem_exact m' = mem_exact m"
  using mem_ok_cong [OF assms(1-3)] assms(3,4) by (simp add: mem_exact_def)

lemma touch_entry_usage: "memory_usage (touch_entry now k m) = memory_usage m \<and> memory_limit (touch_entry now k m) = memory_limit m"
  by (simp add: touch_entry_def)

lemma touch_hit_ok:
  assumes "mem_ok m" "map_of (entries m) k = Some e"
  shows "mem_ok (touch_entry now k (m\<lparr>cache_hits := h\<rparr>)) \<and> drift (touch_entry now k (m\<lparr>cache_hits := h\<rparr>)) = drift m"
  using touch_entry_ok [of "m\<lparr>cache_hits := h\<rparr>" k now] mem_ok_cong [of "m\<lparr>cache_hits := h\<rparr>" m] assms by simp

lemma miss_ok: "mem_ok (m\<lparr>cache_misses := n\<rparr>) = mem_ok m" "drift (m\<lparr>cache_misses := n\<rparr>) = drift m"
  using mem_ok_cong [of "m\<lparr>cache_misses := n\<rparr>" m] by simp_all

lemma step_ok:
  assumes ok: "mem_ok m"
  shows "mem_ok (mem_step op m) \<and> (\<not> is_import op \<longrightarrow> drift (mem_step op m) = drift m \<and>
    memory_usage (mem_step op m) \<le> max (memory_limit (mem_step op m)) (max (drift m) (if memory_usage m \<le> memory_limit m then 0 else memory_usage m)))"
proof (cases op)
  case (Op_Store now i k v c ts)
  then show ?thesis using store_ok [OF ok, of now i k v c ts] by auto
next
  case (Op_Store_Semantic avx now i k v c ts)
  let ?s = "snd (store now i k v c ts m)" and ?v = "snd (storeSemantic avx now i k v c ts m)"
  have f: "entries ?v = entries ?s" "access_order ?v = access_order ?s" "memory_usage ?v = memory_usage ?s" "memory_limit ?v = memory_limit ?s"
    by (simp_all add: storeSemantic_def Let_def)
  show ?thesis using store_ok [OF ok, of now i k v c ts] mem_ok_cong [OF f(1-3)] f Op_Store_Semantic by auto
next
  case (Op_Retrieve now k)
  then show ?thesis
    using ok touch_hit_ok [OF ok] by (cases "map_of (entries m) k") (auto simp: retrieve_def miss_ok touch_entry_usage)
next
  case (Op_Retrieve_In now k c)
  then show ?thesis
    using ok touch_hit_ok [OF ok] by (cases "map_of (entries m) k") (auto simp: retrieve_in_def miss_ok touch_entry_usage)
next
  case (Op_Touch now k)
  then show ?thesis
    using ok touch_entry_ok [OF ok, of k now] by (cases "map_of (entries m) k") (auto simp: touch_def touch_entry_usage)
next
  case (Op_Remove k)
  show ?thesis
  proof (cases "map_of (entries m) k")
    case None
    then show ?thesis using ok Op_Remove by (auto simp: remove_def)
  next
    case (Some e)
    let ?r = "snd (remove k m)"
    have f: "entries ?r = entries (drop_entry k m)" "access_order ?r = access_order (drop_entry k m)"
      "memory_usage ?r = memory_usage (drop_entry k m)" "memory_limit ?r = memory_limit (drop_entry k m)"
      using Some by (simp_all add: remove_def db_log_def Let_def)
    show ?thesis
      using drop_entry_ok [OF ok, of k] drop_entry_usage [of k m] mem_ok_cong [OF f(1-3)] f Op_Remove by auto
  qed
next
  case (Op_Clear_Category c)
  let ?ks = "keys_where (\<lambda>e. me_category e = c) m"
  let ?r = "snd (clearCategory c m)"
  have f: "entries ?r = entries (fold drop_entry ?ks m)" "access_order ?r = access_order (fold drop_entry ?ks m)"
    "memory_usage ?r = memory_usage (fold drop_entry ?ks m)" "memory_limit ?r = memory_limit (fold drop_entry ?ks m)"
    by (simp_all add: clearCategory_def db_log_def)
  show ?thesis
    using drop_entries_ok [OF ok, of ?ks] drop_entries_usage [of ?ks m] mem_ok_cong [OF f(1-3)] f Op_Clear_Category by auto
next
  case (Op_Compact now)
  then obtain ks where "mem_step op m = fold drop_entry ks m" by (auto simp: compact_def)
  then show ?thesis
    using drop_entries_ok [OF ok, of ks] drop_entries_usage [of ks m] by auto
next
  case (Op_Set_Limit n)
  let ?m = "m\<lparr>memory_limit := n\<rparr>"
  have "mem_ok ?m" "drift ?m = drift m" using ok mem_ok_cong [of ?m m] by simp_all
  then show ?thesis
    using evict_exact [of ?m] evict_usage [of ?m] Op_Set_Limit by (auto simp: setMemoryLimit_def)
next
  case (Op_Import now fresh p)
  then show ?thesis using ok import_loop_ok [OF ok] by (simp add: importFromJson_def is_import_def split: option.split)
qed

lemma new_exact: "mem_exact new_MemoryManager"
  by (simp add: mem_exact_def mem_ok_def drift_def new_MemoryManager_def size_at_def)


interpretation mem_local: transition_system "\<lambda>m. m = new_MemoryManager"
  "\<lambda>op m. if is_import op then None else Some (mem_step op m)" mem_exact
proof unfold_locales
  fix m m' op
  assume "mem_exact m" "(if is_import op then None else Some (mem_step op m)) = Some m'"
  then show "mem_exact m'"
    using step_ok [of m op] by (auto simp: mem_exact_def split: if_splits)
qed (simp add: new_exact)




subsection \<open>What the eviction takes\<close>

text \<open>
  The eviction keeps the entries used most recently, and takes no more of the others than it must: what
  stays is a first part of the order of use, it fits into the limit, and with any longer part it would
  not. Entries that stay are unchanged.
\<close>

theorem evict_takes_oldest:
  assumes "distinct (um_keys (entries m))" "distinct (access_order m)"
    "\<forall>k \<in> set (access_order m). map_of (entries m) k \<noteq> None"
    "\<forall>k. k \<notin> set (access_order m) \<longrightarrow> size_at (entries m) k = 0" "memory_usage m = table_size (entries m)"
  shows "\<exists>k \<le> length (access_order m). access_order (evictIfNeeded m) = take k (access_order m) \<and>
    entries (evictIfNeeded m) = filter (\<lambda>(x, e). x \<notin> set (drop k (access_order m))) (entries m) \<and>
    memory_usage (evictIfNeeded m) = memory_usage m - sizes_of (entries m) (drop k (access_order m)) \<and>
    memory_usage (evictIfNeeded m) \<le> memory_limit m \<and>
    (\<forall>j. k < j \<and> j \<le> length (access_order m) \<longrightarrow>
      memory_usage m - sizes_of (entries m) (drop j (access_order m)) > memory_limit m)"
proof -
  have ok: "mem_ok m" "drift m = 0" using assms by (simp_all add: mem_ok_def drift_def)
  obtain k where k: "only_evicted m k (evictIfNeeded m)" using evict_exact [OF ok(1)] by blast
  have "memory_usage (evictIfNeeded m) \<le> memory_limit m"
    using evict_usage(1) [OF ok(1)] ok(2) by simp
  moreover have "memory_usage m - sizes_of (entries m) (drop j (access_order m)) > memory_limit m"
    if "k < j" "j \<le> length (access_order m)" for j
    using k that by (simp add: only_evicted_def less_diff_conv)
  moreover have "memory_usage (evictIfNeeded m) = memory_usage m - sizes_of (entries m) (drop k (access_order m))"
    using k by (auto simp: only_evicted_def)
  ultimately show ?thesis
    using k by (intro exI [of _ k]) (auto simp: only_evicted_def)
qed

definition two_entries :: MemoryManager where
  "two_entries = snd (store 2 ''i2'' ''b'' ''two'' ''x'' [] (snd (store 1 ''i1'' ''a'' ''one'' ''x'' [] new_MemoryManager)))"

lemma two_entries_fields: "map fst (entries two_entries) = [''a'', ''b'']" "map (\<lambda>(k, e). me_size e) (entries two_entries) = [5, 5]"
  "access_order two_entries = [''b'', ''a'']" "memory_usage two_entries = 10"
  by (simp_all add: two_entries_def store_def put_entry_def entry_size_def new_MemoryManager_def updateAccessOrder_def
      db_log_def evictIfNeeded.simps)

theorem evict_takes_oldest_witness:
  "access_order (evictIfNeeded (two_entries\<lparr>memory_limit := 7\<rparr>)) = [''b'']"
proof -
  let ?m = "two_entries\<lparr>memory_limit := 7\<rparr>"
  obtain e f where t: "entries two_entries = [(''a'', e), (''b'', f)]" "me_size e = 5" "me_size f = 5"
    using two_entries_fields(1,2) by (auto simp: map_eq_Cons_conv)
  have h: "distinct (um_keys (entries ?m))" "distinct (access_order ?m)" "\<forall>k \<in> set (access_order ?m). map_of (entries ?m) k \<noteq> None"
    "\<forall>k. k \<notin> set (access_order ?m) \<longrightarrow> size_at (entries ?m) k = 0" "memory_usage ?m = table_size (entries ?m)"
    by (auto simp: t two_entries_fields size_at_def)
  from evict_takes_oldest [OF h] obtain k where k: "k \<le> 2" "access_order (evictIfNeeded ?m) = take k [''b'', ''a'']"
    "10 - sizes_of (entries two_entries) (drop k [''b'', ''a'']) \<le> 7"
    "\<forall>j. k < j \<and> j \<le> 2 \<longrightarrow> 10 - sizes_of (entries two_entries) (drop j [''b'', ''a'']) > 7"
    by (auto simp: two_entries_fields numeral_2_eq_2)
  have "k \<noteq> 2" using k(3) by (auto simp: sizes_of_def)
  moreover have "k \<noteq> 0" using k(4) [rule_format, of 1] by (auto simp: sizes_of_def t size_at_def)
  ultimately have "k = 1" using k(1) by simp
  with k(2) show ?thesis by simp
qed

subsection \<open>Storing and retrieving\<close>

lemma sizes_of_order: "mem_ok m \<Longrightarrow> sizes_of (entries m) (access_order m) = table_size (entries m)"
proof -
  have sum: "sizes_of t ks = table_size t"
    if "distinct ks" "distinct (um_keys t)" "set ks \<subseteq> set (um_keys t)" "\<forall>k. k \<notin> set ks \<longrightarrow> size_at t k = 0" for ks t
  proof -
    have "sizes_of t ks = (\<Sum>k \<in> set ks. size_at t k)"
      using that(1) by (simp add: sizes_of_def sum_list_distinct_conv_sum_set)
    also have "\<dots> = (\<Sum>k \<in> set (um_keys t). size_at t k)"
      using that(3,4) by (intro sum.mono_neutral_left) auto
    also have "\<dots> = sum_list (map (size_at t) (um_keys t))"
      using that(2) by (simp add: sum_list_distinct_conv_sum_set del: in_um_keys)
    also have "\<dots> = table_size t"
      unfolding table_size_def um_keys_def map_map using that(2)
      by (intro arg_cong [of _ _ sum_list] map_cong) (auto simp: size_at_def um_keys_def)
    finally show ?thesis .
  qed
  assume "mem_ok m"
  then show ?thesis
    by (intro sum) (auto simp: mem_ok_def subset_iff simp del: in_um_keys, simp)
qed

lemma put_entry_key:
  "\<exists>e. entries (put_entry now fresh key val c tags m) = AList.update key e (entries m) \<and> me_value e = val \<and>
     me_size e = entry_size key val c tags \<and>
     access_order (put_entry now fresh key val c tags m) = key # remove1 key (access_order m) \<and>
     memory_limit (put_entry now fresh key val c tags m) = memory_limit m"
  by (cases "map_of (entries m) key") (auto simp: put_entry_def Let_def)

lemma map_of_filter_keys: "map_of (filter (\<lambda>(x, e). x \<notin> S) t) k = (if k \<in> S then None else map_of t k)"
  by (induction t) auto

lemma retrieve_value: "fst (retrieve t key m) = map_option me_value (map_of (entries m) key)"
  by (simp add: retrieve_def split: option.split)

lemma store_entries:
  "map_of (entries (snd (store now fresh key val c tags m))) k =
     (case map_of (entries (evictIfNeeded (put_entry now fresh key val c tags m))) k of
        None \<Rightarrow> if k = key then Some default_entry else None | Some e \<Rightarrow> Some e)"
  by (simp add: store_def Let_def db_log_def split: option.split)

text \<open>
  In a memory whose usage is exact, an entry that fits into the limit is there after it has been
  stored, and every other entry is unchanged or has been evicted. An entry that does not fit is stored
  with the answer true and lost: everything is evicted and \<open>retrieve\<close> finds the empty text under the key.
\<close>

theorem store_retrieve:
  assumes "mem_exact m" "m' = snd (store now fresh key val c tags m)"
  shows "(entry_size key val c tags \<le> memory_limit m \<longrightarrow> fst (retrieve t key m') = Some val \<and>
      (\<forall>k. k \<noteq> key \<longrightarrow> map_of (entries m') k = map_of (entries m) k \<or> map_of (entries m') k = None)) \<and>
    (entry_size key val c tags > memory_limit m \<longrightarrow>
      fst (store now fresh key val c tags m) \<and> fst (retrieve t key m') = Some [] \<and> access_order m' = [])"
proof -
  let ?p = "put_entry now fresh key val c tags m"
  let ?v = "evictIfNeeded ?p"
  have ok: "mem_ok m" "drift m = 0" using assms(1) by (simp_all add: mem_exact_def)
  have p: "mem_ok ?p" "drift ?p = 0" using put_entry_ok [OF ok(1)] ok(2) by simp_all
  obtain e where e: "entries ?p = AList.update key e (entries m)" "me_value e = val" "me_size e = entry_size key val c tags"
    "access_order ?p = key # remove1 key (access_order m)" "memory_limit ?p = memory_limit m"
    using put_entry_key by blast
  obtain n where n: "only_evicted ?p n ?v" and v: "mem_ok ?v" "drift ?v = 0" using evict_exact [OF p(1)] p(2) by auto
  have entries_v: "map_of (entries ?v) k = (if k \<in> set (drop n (access_order ?p)) then None else map_of (entries ?p) k)" for k
  proof -
    have "entries ?v = filter (\<lambda>(x, e). x \<notin> set (drop n (access_order ?p))) (entries ?p)"
      using n unfolding only_evicted_def by blast
    then show ?thesis by (simp only: map_of_filter_keys)
  qed
  have usage: "memory_usage ?p = sizes_of (entries ?p) (access_order ?p)"
    using sizes_of_order [OF p(1)] mem_ok_drift [OF p(1)] p(2) by simp
  have head: "sizes_of (entries ?p) (access_order ?p) = entry_size key val c tags + sizes_of (entries ?p) (drop 1 (access_order ?p))"
    by (simp add: e sizes_of_def size_at_def)
  have distinct_p: "distinct (access_order ?p)" using p(1) by (simp add: mem_ok_def)
  have order: "access_order m' = take n (access_order ?p)"
    using n assms(2) by (simp add: store_def Let_def db_log_def only_evicted_def)
  show ?thesis
  proof (intro conjI impI allI)
    assume fits: "entry_size key val c tags \<le> memory_limit m"
    have "n \<noteq> 0"
    proof
      assume "n = 0"
      with n have "memory_usage ?p > memory_limit m + sizes_of (entries ?p) (drop 1 (access_order ?p))"
        by (auto simp: only_evicted_def e(5) e(4))
      with usage head fits show False by simp
    qed
    then have "key \<notin> set (drop n (access_order ?p))"
      using distinct_p e(4) by (cases n) (auto dest: in_set_dropD)
    then show "fst (retrieve t key m') = Some val"
      using entries_v [of key] store_entries [of now fresh key val c tags m key] assms(2) by (simp add: retrieve_value e)
    show "map_of (entries m') k = map_of (entries m) k \<or> map_of (entries m') k = None" if "k \<noteq> key" for k
      using that entries_v [of k] store_entries [of now fresh key val c tags m k] assms(2)
      by (auto simp: e split: option.splits)
  next
    assume big: "entry_size key val c tags > memory_limit m"
    have "n = 0"
    proof (rule ccontr)
      assume "n \<noteq> 0"
      then have "key \<notin> set (drop n (access_order ?p))" "memory_usage ?v \<le> memory_limit m"
        using distinct_p n by (auto simp: only_evicted_def e(5)) (use distinct_p e(4) in \<open>cases n; auto dest: in_set_dropD\<close>)
      then have "size_at (entries ?v) key = entry_size key val c tags"
        using entries_v [of key] by (simp add: size_at_def e)
      with size_at_le [of "entries ?v" key] mem_ok_drift [OF v(1)] v(2) \<open>memory_usage ?v \<le> memory_limit m\<close> big
      show False by simp
    qed
    then have "map_of (entries ?v) key = None" using entries_v [of key] by (simp add: e)
    then show "fst (retrieve t key m') = Some []"
      using store_entries [of now fresh key val c tags m key] assms(2) by (simp add: retrieve_value default_entry_def)
    show "access_order m' = []" using order \<open>n = 0\<close> by simp
    show "fst (store now fresh key val c tags m)" by (simp add: store_def Let_def)
  qed
qed

theorem store_retrieve_witness:
  "fst (retrieve 9 ''k'' (snd (store 1 ''i'' ''k'' ''secret'' ''s'' [] (new_MemoryManager\<lparr>memory_limit := 5\<rparr>)))) = Some [] \<and>
   fst (retrieve 9 ''k'' (snd (store 1 ''i'' ''k'' ''secret'' ''s'' [] new_MemoryManager))) = Some ''secret''"
proof -
  have "mem_exact (new_MemoryManager\<lparr>memory_limit := 5\<rparr>)"
    using new_exact by (simp add: mem_exact_def mem_ok_def drift_def new_MemoryManager_def)
  with store_retrieve [where m = "new_MemoryManager\<lparr>memory_limit := 5\<rparr>" and key = "''k''" and val = "''secret''" and c = "''s''" and tags = "[]" and now = 1 and fresh = "''i''" and t = 9, OF this refl]
    store_retrieve [where m = new_MemoryManager and key = "''k''" and val = "''secret''" and c = "''s''" and tags = "[]" and now = 1 and fresh = "''i''" and t = 9, OF new_exact refl]
  show ?thesis by (simp add: entry_size_def) (simp add: new_MemoryManager_def)
qed

subsection \<open>Importing what was exported\<close>

text \<open>An exported entry as it is read back.\<close>

definition to_json :: "MemoryEntry \<Rightarrow> entry_json" where
  "to_json e = \<lparr>ej_id = Some (me_id e), ej_key = Some (me_key e), ej_value = Some (me_value e),
     ej_category = Some (me_category e), ej_access_count = Some (access_count e), ej_size = Some (me_size e),
     ej_checksum = Some (me_checksum e), ej_tags = Some (me_tags e)\<rparr>"

lemma json_entry_to_json [simp]:
  "me_key (json_entry now fresh (to_json e)) = me_key e" "me_size (json_entry now fresh (to_json e)) = me_size e"
  by (simp_all add: json_entry_def to_json_def the_or_def Let_def)

lemma reimport_loop:
  "memory_usage m + sum_list (map me_size es) \<le> memory_limit m \<Longrightarrow>
   \<forall>e \<in> set es. me_key e \<noteq> [] \<and> size_at (entries m) (me_key e) = me_size e \<Longrightarrow>
   fst (import_loop now fresh (map (\<lambda>e. Some (to_json e)) es) m) \<and>
   memory_usage (snd (import_loop now fresh (map (\<lambda>e. Some (to_json e)) es) m)) = memory_usage m + sum_list (map me_size es) \<and>
   table_size (entries (snd (import_loop now fresh (map (\<lambda>e. Some (to_json e)) es) m))) = table_size (entries m)"
proof (induction es arbitrary: m)
  case Nil
  then have "evictIfNeeded m = m"
    unfolding evictIfNeeded.simps [of m] by (intro if_not_P) simp
  then show ?case by simp
next
  case (Cons e es)
  let ?j = "json_entry now (fresh (length es)) (to_json e)"
  let ?m1 = "import_entry ?j m"
  have key: "me_key e \<noteq> []" "size_at (entries m) (me_key e) = me_size e" using Cons.prems(2) by simp_all
  then have f: "entries ?m1 = AList.update (me_key e) ?j (entries m)" "memory_usage ?m1 = memory_usage m + me_size e"
    "memory_limit ?m1 = memory_limit m"
    by (simp_all add: import_entry_def)
  have "size_at (entries ?m1) k = size_at (entries m) k" for k
    using key(2) by (simp add: f size_at_def)
  moreover have "table_size (entries ?m1) = table_size (entries m)"
    using table_size_update [of "me_key e" ?j "entries m"] key(2) by (simp add: f)
  ultimately show ?case
    using Cons.IH [of ?m1] Cons.prems by (simp add: f add.assoc)
qed

text \<open>
  Importing an export of the memory into itself counts every entry twice: the entries are the same ones
  and the usage has doubled, so the memory evicts as if half of its limit were gone.
\<close>

theorem reimport_doubles_usage:
  assumes "mem_exact m" "\<forall>(k, e) \<in> set (entries m). k = me_key e \<and> k \<noteq> []" "2 * memory_usage m \<le> memory_limit m"
    and "importFromJson now fresh (Some (map (\<lambda>(k, e). Some (to_json e)) (entries m))) m = (r, m')"
  shows "r \<and> memory_usage m' = 2 * memory_usage m \<and> table_size (entries m') = table_size (entries m)"
proof -
  let ?es = "map snd (entries m)"
  have ok: "mem_ok m" "memory_usage m = table_size (entries m)"
    using assms(1) mem_ok_drift [of m] by (simp_all add: mem_exact_def)
  have size: "sum_list (map me_size ?es) = table_size (entries m)"
    by (simp add: table_size_def comp_def case_prod_unfold)
  have "me_key e \<noteq> [] \<and> size_at (entries m) (me_key e) = me_size e" if "e \<in> set ?es" for e
  proof -
    from that obtain k where k: "(k, e) \<in> set (entries m)" by auto
    with assms(2) have "k = me_key e" "k \<noteq> []" by auto
    moreover have "map_of (entries m) k = Some e"
      using ok(1) k by (simp add: mem_ok_def um_keys_def)
    ultimately show ?thesis by (simp add: size_at_def)
  qed
  then have "\<forall>e \<in> set ?es. me_key e \<noteq> [] \<and> size_at (entries m) (me_key e) = me_size e" by blast
  from reimport_loop [OF _ this, of now fresh]
  have "fst (import_loop now fresh (map (\<lambda>e. Some (to_json e)) ?es) m) \<and>
    memory_usage (snd (import_loop now fresh (map (\<lambda>e. Some (to_json e)) ?es) m)) = 2 * memory_usage m \<and>
    table_size (entries (snd (import_loop now fresh (map (\<lambda>e. Some (to_json e)) ?es) m))) = table_size (entries m)"
    using assms(3) ok(2) size by simp
  moreover have "import_loop now fresh (map (\<lambda>e. Some (to_json e)) ?es) m = (r, m')"
    using assms(4) by (simp add: importFromJson_def comp_def case_prod_unfold)
  ultimately show ?thesis by simp
qed

theorem reimport_doubles_usage_witness:
  "memory_usage (snd (importFromJson 3 (\<lambda>n. ''f'') (Some (map (\<lambda>(k, e). Some (to_json e)) (entries two_entries))) two_entries)) = 20"
proof -
  have exact: "mem_exact two_entries"
    unfolding two_entries_def
    using mem_local.inv_run [of new_MemoryManager "[Op_Store 1 ''i1'' ''a'' ''one'' ''x'' [], Op_Store 2 ''i2'' ''b'' ''two'' ''x'' []]"]
      new_exact by (simp add: is_import_def)
  have keys: "\<forall>(k, e) \<in> set (entries two_entries). k = me_key e \<and> k \<noteq> []"
    by (simp add: two_entries_def store_def put_entry_def entry_size_def new_MemoryManager_def updateAccessOrder_def
        db_log_def evictIfNeeded.simps)
  have limit: "2 * memory_usage two_entries \<le> memory_limit two_entries"
    by (simp add: two_entries_def store_def put_entry_def entry_size_def new_MemoryManager_def updateAccessOrder_def
        db_log_def evictIfNeeded.simps)
  from reimport_doubles_usage [OF exact keys limit prod.collapse [symmetric]] show ?thesis
    by (simp add: two_entries_fields)
qed

end
