(* ===== verification/Builtin_Tools.thy ===== *)
theory Builtin_Tools
  imports Char_Class Complex_Main
begin

text \<open>
  The tools of \<open>src/src/tools/ToolRegistry.h\<close> and the first thousand lines of \<open>ToolRegistry.cpp\<close>: results,
  permissions, definitions, the statistics that \<open>Tool::recordCall\<close> keeps, and the operations of the ten
  tool classes of that file.

  \<^item> The services a tool is constructed with are never called by it: an operation is a function of its
    parameters alone and has no effect but its result and the recorded call.
  \<^item> Durations are milliseconds from the environment. The exception of \<open>std::stoi\<close> is \<open>None\<close>.
  \<^item> Tools of other files (\<open>OtherTool\<close>) are parameters.
\<close>

subsection \<open>Data\<close>

datatype ToolResultValue =
    Str_Value string
  | Int_Value int
  | LongLong_Value int
  | Double_Value real
  | Bool_Value bool
  | List_Value "string list"
  | Map_Value "(string, string) umap"

record ToolResult =
  tr_success :: bool
  tr_output :: string
  tr_error_message :: string
  tr_data :: "(string, ToolResultValue) umap"
  tr_execution_time :: nat
  tr_exit_code :: int

definition result_ok :: "string \<Rightarrow> ToolResult" where
  "result_ok out = \<lparr>tr_success = True, tr_output = out, tr_error_message = [], tr_data = [],
     tr_execution_time = 0, tr_exit_code = 0\<rparr>"

definition result_error :: "string \<Rightarrow> ToolResult" where
  "result_error message = \<lparr>tr_success = False, tr_output = [], tr_error_message = message, tr_data = [],
     tr_execution_time = 0, tr_exit_code = -1\<rparr>"

datatype ToolCategory = Filesystem_Cat | Terminal_Cat | Git_Cat | Search_Cat | LSP_Cat | Network_Cat | CodeAnalysis_Cat
  | Testing_Cat | Build_Cat | Database_Cat | Memory_Cat | Context_Cat | Agent_Cat | System_Cat

datatype ToolPermission = Perm_Read | Perm_Write | Perm_Execute | Perm_Network | Perm_Dangerous

text \<open>\<open>static_cast<int>\<close> of a permission.\<close>

fun permission_number :: "ToolPermission \<Rightarrow> nat" where
  "permission_number Perm_Read = 0"
| "permission_number Perm_Write = 1"
| "permission_number Perm_Execute = 2"
| "permission_number Perm_Network = 3"
| "permission_number Perm_Dangerous = 4"

record ToolDefinition =
  td_name :: string
  td_description :: string
  td_category :: ToolCategory
  td_required_permissions :: "ToolPermission list"
  td_parameters :: "string list"
  td_parameter_descriptions :: "(string, string) umap"
  td_parameter_required :: "(string, bool) umap"
  td_is_dangerous :: bool

record ToolStats =
  ts_total_calls :: nat
  ts_successful_calls :: nat
  ts_failed_calls :: nat
  ts_total_execution_time :: nat
  ts_average_execution_time :: nat
  ts_min_execution_time :: nat
  ts_max_execution_time :: nat

definition zero_stats :: ToolStats where
  "zero_stats = \<lparr>ts_total_calls = 0, ts_successful_calls = 0, ts_failed_calls = 0, ts_total_execution_time = 0,
     ts_average_execution_time = 0, ts_min_execution_time = 0, ts_max_execution_time = 0\<rparr>"

type_synonym params = "(string, string) umap"

subsection \<open>The base class\<close>

definition recordCall :: "bool \<Rightarrow> nat \<Rightarrow> ToolStats \<Rightarrow> ToolStats" where
  "recordCall success d s =
     (let n = ts_total_calls s + 1; t = ts_total_execution_time s + d
      in s\<lparr>ts_total_calls := n,
           ts_successful_calls := ts_successful_calls s + (if success then 1 else 0),
           ts_failed_calls := ts_failed_calls s + (if success then 0 else 1),
           ts_total_execution_time := t,
           ts_average_execution_time := t div n,
           ts_min_execution_time := (if ts_min_execution_time s = 0 \<or> d < ts_min_execution_time s then d else ts_min_execution_time s),
           ts_max_execution_time := (if d > ts_max_execution_time s then d else ts_max_execution_time s)\<rparr>)"

definition validateParams :: "ToolDefinition \<Rightarrow> params \<Rightarrow> bool" where
  "validateParams def ps = list_all (\<lambda>(k, required). required \<longrightarrow> map_of ps k \<noteq> None) (td_parameter_required def)"

subsection \<open>Text and numbers\<close>

abbreviation nl :: string where
  "nl \<equiv> [CHR 0x0A]"

definition quoted :: "string \<Rightarrow> string" where
  "quoted s = CHR 0x27 # s @ [CHR 0x27]"

text \<open>The error for a missing parameter, and \<open>(it != end) ? it->second : d\<close>.\<close>

definition missing :: "string \<Rightarrow> ToolResult" where
  "missing what = result_error (''Missing '' @ what @ '' parameter'')"

definition param_or :: "string \<Rightarrow> string \<Rightarrow> params \<Rightarrow> string" where
  "param_or d k ps = (case map_of ps k of None \<Rightarrow> d | Some v \<Rightarrow> v)"

text \<open>\<open>std::stoi\<close>: leading space, a sign, digits; the rest is ignored. It throws without a digit or out of range.\<close>

definition digits_value :: "string \<Rightarrow> int" where
  "digits_value ds = fold (\<lambda>c n. 10 * n + (int (code_of c) - 48)) ds 0"

definition stoi :: "string \<Rightarrow> int option" where
  "stoi s =
     (let t = dropWhile isspace s;
          (sign, u) = (case t of c # r \<Rightarrow> if c = CHR ''-'' then (-1, r) else if c = CHR ''+'' then (1, r) else (1, t)
                       | [] \<Rightarrow> (1, []));
          ds = takeWhile isdigit u;
          n = sign * digits_value ds
      in if ds = [] \<or> n < - 2147483648 \<or> n > 2147483647 then None else Some n)"

subsection \<open>Filesystem\<close>

definition fs_readFile :: "params \<Rightarrow> ToolResult" where
  "fs_readFile ps = (case map_of ps ''path'' of None \<Rightarrow> missing (quoted ''path'')
     | Some path \<Rightarrow> result_ok (''[File content would be read from: '' @ path @ '']''))"

definition fs_writeFile :: "params \<Rightarrow> ToolResult" where
  "fs_writeFile ps = (case (map_of ps ''path'', map_of ps ''content'') of
       (Some path, Some content) \<Rightarrow> result_ok (''[File written to: '' @ path @ '']'')
     | _ \<Rightarrow> missing (quoted ''path'' @ '' or '' @ quoted ''content''))"

definition fs_deleteFile :: "params \<Rightarrow> ToolResult" where
  "fs_deleteFile ps = (case map_of ps ''path'' of None \<Rightarrow> missing (quoted ''path'')
     | Some path \<Rightarrow> result_ok (''[File deleted: '' @ path @ '']''))"

definition fs_listDirectory :: "params \<Rightarrow> ToolResult" where
  "fs_listDirectory ps = result_ok (''[Directory listing for: '' @ param_or ''.'' ''path'' ps @ '']'' @ nl @
     ''- file1.cpp'' @ nl @ ''- file2.h'' @ nl @ ''- subdir/'')"

definition fs_createDirectory :: "params \<Rightarrow> ToolResult" where
  "fs_createDirectory ps = (case map_of ps ''path'' of None \<Rightarrow> missing (quoted ''path'')
     | Some path \<Rightarrow> result_ok (''[Directory created: '' @ path @ '']''))"

definition fs_fileExists :: "params \<Rightarrow> ToolResult" where
  "fs_fileExists ps = (case map_of ps ''path'' of None \<Rightarrow> missing (quoted ''path'')
     | Some path \<Rightarrow> (result_ok ''true'')\<lparr>tr_data := [(''exists'', Bool_Value True)]\<rparr>)"

definition fs_getFileSize :: "params \<Rightarrow> ToolResult" where
  "fs_getFileSize ps = (case map_of ps ''path'' of None \<Rightarrow> missing (quoted ''path'')
     | Some path \<Rightarrow> (result_ok ''1024'')\<lparr>tr_data := [(''size'', LongLong_Value 1024)]\<rparr>)"

definition fs_copyFile :: "params \<Rightarrow> ToolResult" where
  "fs_copyFile ps = (case (map_of ps ''source'', map_of ps ''destination'') of
       (Some src, Some dst) \<Rightarrow> result_ok (''[File copied: '' @ src @ '' -> '' @ dst @ '']'')
     | _ \<Rightarrow> missing (quoted ''source'' @ '' or '' @ quoted ''destination''))"

definition fs_moveFile :: "params \<Rightarrow> ToolResult" where
  "fs_moveFile ps = (case (map_of ps ''source'', map_of ps ''destination'') of
       (Some src, Some dst) \<Rightarrow> result_ok (''[File moved: '' @ src @ '' -> '' @ dst @ '']'')
     | _ \<Rightarrow> missing (quoted ''source'' @ '' or '' @ quoted ''destination''))"

definition fs_searchFiles :: "params \<Rightarrow> ToolResult" where
  "fs_searchFiles ps =
     (let path = param_or ''.'' ''path'' ps
      in result_ok (''[Search results for '' @ quoted (param_or ''*'' ''pattern'' ps) @ '' in '' @ path @ '']'' @ nl @
           ''- '' @ path @ ''/main.cpp'' @ nl @ ''- '' @ path @ ''/utils.cpp''))"

subsection \<open>Git\<close>

definition git_getStatus :: "params \<Rightarrow> ToolResult" where
  "git_getStatus ps = result_ok (''On branch main'' @ nl @ ''Your branch is up to date.'' @ nl @ nl @
     ''Changes not staged for commit:'' @ nl @ ''  modified:   src/main.cpp'')"

definition git_getDiff :: "params \<Rightarrow> ToolResult" where
  "git_getDiff ps = result_ok (''diff --git a/src/main.cpp b/src/main.cpp'' @ nl @ ''index abc123..def456 100644'' @ nl @
     ''--- a/src/main.cpp'' @ nl @ ''+++ b/src/main.cpp'' @ nl @ ''@@ -1,3 +1,4 @@'' @ nl @
     ''+#include <iostream>'' @ nl @ '' #include <string>'')"

definition git_commit :: "params \<Rightarrow> ToolResult" where
  "git_commit ps = (case map_of ps ''message'' of None \<Rightarrow> missing (quoted ''message'')
     | Some msg \<Rightarrow> result_ok (''[main abc123] '' @ msg))"

definition git_push :: "params \<Rightarrow> ToolResult" where
  "git_push ps = result_ok (''Enumerating objects: 5, done.'' @ nl @ ''Counting objects: 100% (5/5), done.'' @ nl @
     ''To github.com:user/repo.git'' @ nl @ ''   abc123..def456  main -> main'')"

definition git_pull :: "params \<Rightarrow> ToolResult" where
  "git_pull ps = result_ok ''Already up to date.''"

definition git_checkout :: "params \<Rightarrow> ToolResult" where
  "git_checkout ps = result_ok (''Switched to branch '' @ quoted (param_or ''main'' ''branch'' ps))"

definition git_createBranch :: "params \<Rightarrow> ToolResult" where
  "git_createBranch ps = (case map_of ps ''name'' of None \<Rightarrow> missing (quoted ''name'')
     | Some name \<Rightarrow> result_ok (''Switched to a new branch '' @ quoted name))"

definition git_mergeBranch :: "params \<Rightarrow> ToolResult" where
  "git_mergeBranch ps = (case map_of ps ''branch'' of None \<Rightarrow> missing (quoted ''branch'')
     | Some branch \<Rightarrow> result_ok (''Merge made by the '' @ quoted ''ort'' @ '' strategy.'' @ nl @ ''Merged '' @ branch @ '' into main''))"

text \<open>The count is read (which can throw) and then not used.\<close>

definition git_getLog :: "params \<Rightarrow> ToolResult option" where
  "git_getLog ps =
     (case (case map_of ps ''count'' of None \<Rightarrow> Some 5 | Some c \<Rightarrow> stoi c) of
        None \<Rightarrow> None
      | Some n \<Rightarrow> Some (result_ok (''commit abc123def456'' @ nl @ ''Author: Developer <dev@example.com>'' @ nl @
          ''Date:   Mon Jan 1 12:00:00 2024 +0000'' @ nl @ nl @ ''    Add new feature'' @ nl @ nl)))"

definition git_stash :: "params \<Rightarrow> ToolResult" where
  "git_stash ps = result_ok ''Saved working directory and index state WIP on main: abc123 Add new feature''"

subsection \<open>Search\<close>

definition search_grep :: "params \<Rightarrow> ToolResult" where
  "search_grep ps = (case map_of ps ''pattern'' of None \<Rightarrow> missing (quoted ''pattern'')
     | Some pattern \<Rightarrow> result_ok (''src/main.cpp:10:void process() {'' @ nl @ ''src/utils.cpp:25:void process() {''))"

definition search_regex :: "params \<Rightarrow> ToolResult" where
  "search_regex ps = (case map_of ps ''pattern'' of None \<Rightarrow> missing (quoted ''pattern'')
     | Some pattern \<Rightarrow> result_ok (''Found 5 matches for pattern '' @ quoted pattern))"

definition search_findFiles :: "params \<Rightarrow> ToolResult" where
  "search_findFiles ps = result_ok (''src/main.cpp'' @ nl @ ''src/utils.cpp'' @ nl @ ''src/helper.h'')"

definition search_findSymbol :: "params \<Rightarrow> ToolResult" where
  "search_findSymbol ps = (case map_of ps ''symbol'' of None \<Rightarrow> missing (quoted ''symbol'')
     | Some symbol \<Rightarrow> result_ok (''Symbol '' @ quoted symbol @ '' found in:'' @ nl @ ''- src/main.cpp:10 (definition)'' @ nl @
         ''- src/utils.cpp:25 (usage)''))"

subsection \<open>Language server\<close>

definition lsp_goToDefinition :: "params \<Rightarrow> ToolResult" where
  "lsp_goToDefinition ps = (case map_of ps ''file'' of None \<Rightarrow> missing (quoted ''file'')
     | Some file \<Rightarrow> result_ok (''Definition found at '' @ file @ '':'' @ param_or ''0'' ''line'' ps))"

definition lsp_findReferences :: "params \<Rightarrow> ToolResult" where
  "lsp_findReferences ps = (case map_of ps ''symbol'' of None \<Rightarrow> missing (quoted ''symbol'')
     | Some symbol \<Rightarrow> result_ok (''References to '' @ quoted symbol @ '':'' @ nl @ ''- src/main.cpp:10'' @ nl @
         ''- src/utils.cpp:25'' @ nl @ ''- src/helper.h:5''))"

definition lsp_getHover :: "params \<Rightarrow> ToolResult" where
  "lsp_getHover ps = result_ok ''void process() - Processes the input data''"

definition lsp_getCompletion :: "params \<Rightarrow> ToolResult" where
  "lsp_getCompletion ps = result_ok (''Completions:'' @ nl @ ''- process()'' @ nl @ ''- processData()'' @ nl @ ''- processResult()'')"

definition lsp_getDiagnostics :: "params \<Rightarrow> ToolResult" where
  "lsp_getDiagnostics ps = result_ok ''No diagnostics found.''"

definition lsp_renameSymbol :: "params \<Rightarrow> ToolResult" where
  "lsp_renameSymbol ps = (case (map_of ps ''symbol'', map_of ps ''new_name'') of
       (Some symbol, Some new_name) \<Rightarrow> result_ok (''Renamed '' @ quoted symbol @ '' to '' @ quoted new_name @ '' in 3 files'')
     | _ \<Rightarrow> missing (quoted ''symbol'' @ '' or '' @ quoted ''new_name''))"

definition lsp_formatDocument :: "params \<Rightarrow> ToolResult" where
  "lsp_formatDocument ps = result_ok (''Formatted '' @ param_or ''document'' ''file'' ps)"

subsection \<open>Network\<close>

definition net_httpGet :: "params \<Rightarrow> ToolResult" where
  "net_httpGet ps = (case map_of ps ''url'' of None \<Rightarrow> missing (quoted ''url'')
     | Some url \<Rightarrow> result_ok (''GET '' @ url @ nl @ ''Status: 200 OK'' @ nl @ ''Response body would appear here''))"

definition net_httpPost :: "params \<Rightarrow> ToolResult" where
  "net_httpPost ps = (case map_of ps ''url'' of None \<Rightarrow> missing (quoted ''url'')
     | Some url \<Rightarrow> result_ok (''POST '' @ url @ nl @ ''Status: 201 Created''))"

definition net_downloadFile :: "params \<Rightarrow> ToolResult" where
  "net_downloadFile ps = (case (map_of ps ''url'', map_of ps ''path'') of
       (Some url, Some path) \<Rightarrow> result_ok (''Downloaded '' @ url @ '' to '' @ path)
     | _ \<Rightarrow> missing (quoted ''url'' @ '' or '' @ quoted ''path''))"

subsection \<open>Code analysis\<close>

definition code_parseFile :: "params \<Rightarrow> ToolResult" where
  "code_parseFile ps = (case map_of ps ''file'' of None \<Rightarrow> missing (quoted ''file'')
     | Some file \<Rightarrow> result_ok (''Parsed '' @ file @ '': 150 lines, 12 functions, 3 classes''))"

definition code_getAST :: "params \<Rightarrow> ToolResult" where
  "code_getAST ps = result_ok ''AST structure for file would appear here''"

definition code_getSymbols :: "params \<Rightarrow> ToolResult" where
  "code_getSymbols ps = result_ok (''Symbols:'' @ nl @ ''- class MyClass'' @ nl @ ''- void myFunction()'' @ nl @ ''- int myVariable'')"

definition code_getCallGraph :: "params \<Rightarrow> ToolResult" where
  "code_getCallGraph ps = result_ok (''Call graph:'' @ nl @ ''main() -> process() -> validate()'')"

definition code_getDependencies :: "params \<Rightarrow> ToolResult" where
  "code_getDependencies ps = result_ok (''Dependencies:'' @ nl @ ''- #include <vector>'' @ nl @ ''- #include \"utils.h\"'')"

definition code_analyzeComplexity :: "params \<Rightarrow> ToolResult" where
  "code_analyzeComplexity ps = result_ok (''Complexity analysis:'' @ nl @ ''- Cyclomatic complexity: 15'' @ nl @
     ''- Lines of code: 250'' @ nl @ ''- Maintainability index: 75'')"

subsection \<open>Build, memory, context\<close>

definition build_build :: "params \<Rightarrow> ToolResult" where
  "build_build ps = result_ok (''Building project...'' @ nl @ ''[100%] Built target mini_coding_agent'')"

definition build_clean :: "params \<Rightarrow> ToolResult" where
  "build_clean ps = result_ok (''Cleaning build artifacts...'' @ nl @ ''Done.'')"

definition build_install :: "params \<Rightarrow> ToolResult" where
  "build_install ps = result_ok (''Installing dependencies...'' @ nl @ ''Done.'')"

definition mem_storeMemory :: "params \<Rightarrow> ToolResult" where
  "mem_storeMemory ps = (case (map_of ps ''key'', map_of ps ''value'') of
       (Some key, Some val) \<Rightarrow> result_ok (''Stored memory: '' @ key)
     | _ \<Rightarrow> missing (quoted ''key'' @ '' or '' @ quoted ''value''))"

definition mem_retrieveMemory :: "params \<Rightarrow> ToolResult" where
  "mem_retrieveMemory ps = (case map_of ps ''key'' of None \<Rightarrow> missing (quoted ''key'')
     | Some key \<Rightarrow> result_ok (''Retrieved value for key: '' @ key))"

definition mem_searchMemory :: "params \<Rightarrow> ToolResult" where
  "mem_searchMemory ps = result_ok (''Search results for: '' @ param_or ''*'' ''query'' ps)"

definition mem_deleteMemory :: "params \<Rightarrow> ToolResult" where
  "mem_deleteMemory ps = (case map_of ps ''key'' of None \<Rightarrow> missing (quoted ''key'')
     | Some key \<Rightarrow> result_ok (''Deleted memory: '' @ key))"

definition ctx_addContext :: "params \<Rightarrow> ToolResult" where
  "ctx_addContext ps = result_ok ''Added context item''"

definition ctx_getContext :: "params \<Rightarrow> ToolResult" where
  "ctx_getContext ps = result_ok ''Current context summary''"

definition ctx_removeContext :: "params \<Rightarrow> ToolResult" where
  "ctx_removeContext ps = result_ok (''Removed context item: '' @ param_or ''unknown'' ''id'' ps)"

definition ctx_rankFiles :: "params \<Rightarrow> ToolResult" where
  "ctx_rankFiles ps = result_ok (''Ranked files for: '' @ param_or ''*'' ''query'' ps)"

end
