(* ===== verification/Tool_Registry.thy ===== *)
theory Tool_Registry
  imports Builtin_Tools "HOL-Library.List_Lexorder" "HOL-Library.Char_ord"
begin

text \<open>
  The tool classes as objects and the registry that names them: the \<open>getDefinition\<close> and \<open>execute\<close> methods
  and the class \<open>ToolRegistry\<close> of \<open>src/src/tools/ToolRegistry.cpp\<close>.

  \<^item> The \<open>std::shared_ptr<Tool>\<close> of the table are addresses into the list \<open>objects\<close>, so that one tool under
    two names is one object with one set of statistics. A null pointer is \<open>None\<close>.
  \<^item> \<open>OtherTool\<close> is a tool of another class: its methods are the parameter \<open>others\<close>. Numbers 0 and 1 are the
    workspace and testing tools that every registry creates.
  \<^item> A call is given its duration \<open>d\<close>. It returns no result when the tool throws.
\<close>

subsection \<open>Tool objects\<close>

datatype tool_class = FilesystemTools | TerminalTools | GitTools | SearchTools | LSPTools | NetworkTools
  | CodeAnalysisTools | BuildTools | MemoryTools | ContextTools | OtherTool nat

record Tool =
  tl_class :: tool_class
  tl_stats :: ToolStats

definition new_Tool :: "tool_class \<Rightarrow> Tool" where
  "new_Tool c = \<lparr>tl_class = c, tl_stats = zero_stats\<rparr>"

record other_tool =
  ot_definition :: ToolDefinition
  ot_available :: bool
  ot_execute :: "params \<Rightarrow> ToolStats \<Rightarrow> ToolResult option \<times> ToolStats"

type_synonym op_table = "(string \<times> (params \<Rightarrow> ToolResult option)) list"

definition plain_definition :: "string \<Rightarrow> string \<Rightarrow> ToolCategory \<Rightarrow> ToolPermission list \<Rightarrow> ToolDefinition" where
  "plain_definition name description category permissions =
     \<lparr>td_name = name, td_description = description, td_category = category, td_required_permissions = permissions,
      td_parameters = [], td_parameter_descriptions = [], td_parameter_required = [], td_is_dangerous = False\<rparr>"

definition filesystem_definition :: ToolDefinition where
  "filesystem_definition =
     plain_definition ''filesystem'' ''Perform filesystem operations'' Filesystem_Cat [Perm_Read]"

definition terminal_definition :: ToolDefinition where
  "terminal_definition =
     (plain_definition ''terminal'' ''Execute terminal commands'' Terminal_Cat [Perm_Execute, Perm_Dangerous])\<lparr>td_is_dangerous := True\<rparr>"

definition git_definition :: ToolDefinition where
  "git_definition =
     plain_definition ''git'' ''Perform Git operations'' Git_Cat [Perm_Read, Perm_Write]"

definition search_definition :: ToolDefinition where
  "search_definition =
     plain_definition ''search'' ''Search for text and symbols in codebase'' Search_Cat [Perm_Read]"

definition lsp_definition :: ToolDefinition where
  "lsp_definition =
     plain_definition ''lsp'' ''Language Server Protocol operations'' LSP_Cat [Perm_Read]"

definition network_definition :: ToolDefinition where
  "network_definition =
     plain_definition ''network'' ''HTTP network operations'' Network_Cat [Perm_Network]"

definition analysis_definition :: ToolDefinition where
  "analysis_definition =
     plain_definition ''code_analysis'' ''Analyze code structure and dependencies'' CodeAnalysis_Cat [Perm_Read]"

definition build_definition :: ToolDefinition where
  "build_definition =
     plain_definition ''build'' ''Build and compile project'' Build_Cat [Perm_Execute, Perm_Write]"

definition memory_definition :: ToolDefinition where
  "memory_definition =
     plain_definition ''memory'' ''Store and retrieve memories'' Memory_Cat [Perm_Read, Perm_Write]"

definition context_definition :: ToolDefinition where
  "context_definition =
     plain_definition ''context'' ''Manage conversation context'' Context_Cat [Perm_Read, Perm_Write]"

fun getDefinition :: "(nat \<Rightarrow> other_tool) \<Rightarrow> tool_class \<Rightarrow> ToolDefinition" where
  "getDefinition others FilesystemTools = filesystem_definition"
| "getDefinition others TerminalTools = terminal_definition"
| "getDefinition others GitTools = git_definition"
| "getDefinition others SearchTools = search_definition"
| "getDefinition others LSPTools = lsp_definition"
| "getDefinition others NetworkTools = network_definition"
| "getDefinition others CodeAnalysisTools = analysis_definition"
| "getDefinition others BuildTools = build_definition"
| "getDefinition others MemoryTools = memory_definition"
| "getDefinition others ContextTools = context_definition"
| "getDefinition others (OtherTool n) = ot_definition (others n)"

subsection \<open>The operations of each class\<close>

definition filesystem_ops :: op_table where
  "filesystem_ops = [(''read'', Some \<circ> fs_readFile), (''write'', Some \<circ> fs_writeFile), (''delete'', Some \<circ> fs_deleteFile),
     (''list'', Some \<circ> fs_listDirectory), (''mkdir'', Some \<circ> fs_createDirectory), (''exists'', Some \<circ> fs_fileExists),
     (''size'', Some \<circ> fs_getFileSize), (''copy'', Some \<circ> fs_copyFile), (''move'', Some \<circ> fs_moveFile),
     (''search'', Some \<circ> fs_searchFiles)]"

definition git_ops :: op_table where
  "git_ops = [(''status'', Some \<circ> git_getStatus), (''diff'', Some \<circ> git_getDiff), (''commit'', Some \<circ> git_commit),
     (''push'', Some \<circ> git_push), (''pull'', Some \<circ> git_pull), (''checkout'', Some \<circ> git_checkout),
     (''branch'', Some \<circ> git_createBranch), (''merge'', Some \<circ> git_mergeBranch), (''log'', git_getLog),
     (''stash'', Some \<circ> git_stash)]"

definition search_ops :: op_table where
  "search_ops = [(''grep'', Some \<circ> search_grep), (''regex'', Some \<circ> search_regex), (''find'', Some \<circ> search_findFiles),
     (''symbol'', Some \<circ> search_findSymbol)]"

definition lsp_ops :: op_table where
  "lsp_ops = [(''definition'', Some \<circ> lsp_goToDefinition), (''references'', Some \<circ> lsp_findReferences),
     (''hover'', Some \<circ> lsp_getHover), (''completion'', Some \<circ> lsp_getCompletion), (''diagnostics'', Some \<circ> lsp_getDiagnostics),
     (''rename'', Some \<circ> lsp_renameSymbol), (''format'', Some \<circ> lsp_formatDocument)]"

definition network_ops :: op_table where
  "network_ops = [(''get'', Some \<circ> net_httpGet), (''post'', Some \<circ> net_httpPost), (''download'', Some \<circ> net_downloadFile)]"

definition analysis_ops :: op_table where
  "analysis_ops = [(''parse'', Some \<circ> code_parseFile), (''ast'', Some \<circ> code_getAST), (''symbols'', Some \<circ> code_getSymbols),
     (''callgraph'', Some \<circ> code_getCallGraph), (''dependencies'', Some \<circ> code_getDependencies),
     (''complexity'', Some \<circ> code_analyzeComplexity)]"

definition build_ops :: op_table where
  "build_ops = [(''compile'', Some \<circ> build_build), (''clean'', Some \<circ> build_clean), (''install'', Some \<circ> build_install)]"

definition memory_ops :: op_table where
  "memory_ops = [(''store'', Some \<circ> mem_storeMemory), (''retrieve'', Some \<circ> mem_retrieveMemory),
     (''search'', Some \<circ> mem_searchMemory), (''delete'', Some \<circ> mem_deleteMemory)]"

definition context_ops :: op_table where
  "context_ops = [(''add'', Some \<circ> ctx_addContext), (''get'', Some \<circ> ctx_getContext), (''remove'', Some \<circ> ctx_removeContext),
     (''rank'', Some \<circ> ctx_rankFiles)]"

text \<open>A call either returns before it is recorded, or is recorded with its result, or throws.\<close>

datatype call_outcome = Early ToolResult | Done ToolResult | Thrown

definition run_ops :: "string \<Rightarrow> op_table \<Rightarrow> params \<Rightarrow> call_outcome" where
  "run_ops unknown table ps =
     (case map_of ps ''operation'' of
        None \<Rightarrow> Early (missing (quoted ''operation''))
      | Some opn \<Rightarrow>
          (case map_of table opn of
             None \<Rightarrow> Done (result_error (''Unknown '' @ unknown @ ''operation: '' @ opn))
           | Some f \<Rightarrow> (case f ps of None \<Rightarrow> Thrown | Some r \<Rightarrow> Done r)))"

definition run_terminal :: "params \<Rightarrow> call_outcome" where
  "run_terminal ps =
     (case map_of ps ''command'' of
        None \<Rightarrow> Early (missing (quoted ''command''))
      | Some cmd \<Rightarrow> Done (result_ok (''[Command executed: '' @ cmd @ '']'' @ nl @ ''Output: Command output would appear here'')))"

fun builtin_run :: "tool_class \<Rightarrow> params \<Rightarrow> call_outcome" where
  "builtin_run FilesystemTools ps = run_ops [] filesystem_ops ps"
| "builtin_run TerminalTools ps = run_terminal ps"
| "builtin_run GitTools ps = run_ops ''git '' git_ops ps"
| "builtin_run SearchTools ps = run_ops ''search '' search_ops ps"
| "builtin_run LSPTools ps = run_ops ''LSP '' lsp_ops ps"
| "builtin_run NetworkTools ps = run_ops ''network '' network_ops ps"
| "builtin_run CodeAnalysisTools ps = run_ops ''analysis '' analysis_ops ps"
| "builtin_run BuildTools ps = run_ops ''build '' build_ops ps"
| "builtin_run MemoryTools ps = run_ops ''memory '' memory_ops ps"
| "builtin_run ContextTools ps = run_ops ''context '' context_ops ps"
| "builtin_run (OtherTool n) ps = Thrown"

definition tool_execute :: "(nat \<Rightarrow> other_tool) \<Rightarrow> nat \<Rightarrow> params \<Rightarrow> Tool \<Rightarrow> ToolResult option \<times> Tool" where
  "tool_execute others d ps t =
     (case tl_class t of
        OtherTool n \<Rightarrow> (case ot_execute (others n) ps (tl_stats t) of (r, s) \<Rightarrow> (r, t\<lparr>tl_stats := s\<rparr>))
      | _ \<Rightarrow>
          (case builtin_run (tl_class t) ps of
             Early r \<Rightarrow> (Some r, t)
           | Thrown \<Rightarrow> (None, t)
           | Done r \<Rightarrow> (Some (r\<lparr>tr_execution_time := d\<rparr>), t\<lparr>tl_stats := recordCall (tr_success r) d (tl_stats t)\<rparr>)))"

fun isAvailable :: "(nat \<Rightarrow> other_tool) \<Rightarrow> tool_class \<Rightarrow> bool" where
  "isAvailable others (OtherTool n) = ot_available (others n)"
| "isAvailable others c = True"

subsection \<open>The registry\<close>

record ToolRegistry =
  tool_table :: "(string, nat) umap"
  objects :: "Tool list"
  has_fs :: bool
  has_terminal :: bool
  has_git :: bool
  has_lsp :: bool
  has_parser :: bool
  has_http :: bool
  has_sandbox :: bool
  has_memory :: bool
  has_context :: bool

definition new_ToolRegistry :: ToolRegistry where
  "new_ToolRegistry = \<lparr>tool_table = [], objects = [], has_fs = False, has_terminal = False, has_git = False, has_lsp = False,
     has_parser = False, has_http = False, has_sandbox = False, has_memory = False, has_context = False\<rparr>"

text \<open>The nine setters; \<open>False\<close> is a null pointer.\<close>

datatype service = FileSystem_Service | Terminal_Service | Git_Service | LSP_Service | Parser_Service | HTTP_Service
  | Sandbox_Service | Memory_Service | Context_Service

fun set_service :: "service \<Rightarrow> bool \<Rightarrow> ToolRegistry \<Rightarrow> ToolRegistry" where
  "set_service FileSystem_Service b r = r\<lparr>has_fs := b\<rparr>"
| "set_service Terminal_Service b r = r\<lparr>has_terminal := b\<rparr>"
| "set_service Git_Service b r = r\<lparr>has_git := b\<rparr>"
| "set_service LSP_Service b r = r\<lparr>has_lsp := b\<rparr>"
| "set_service Parser_Service b r = r\<lparr>has_parser := b\<rparr>"
| "set_service HTTP_Service b r = r\<lparr>has_http := b\<rparr>"
| "set_service Sandbox_Service b r = r\<lparr>has_sandbox := b\<rparr>"
| "set_service Memory_Service b r = r\<lparr>has_memory := b\<rparr>"
| "set_service Context_Service b r = r\<lparr>has_context := b\<rparr>"

text \<open>\<open>tools_[name] = std::make_shared<C>()\<close>.\<close>

definition make_tool :: "string \<Rightarrow> tool_class \<Rightarrow> ToolRegistry \<Rightarrow> ToolRegistry" where
  "make_tool name c r = r\<lparr>objects := objects r @ [new_Tool c], tool_table := AList.update name (length (objects r)) (tool_table r)\<rparr>"

definition default_tools :: "ToolRegistry \<Rightarrow> (string \<times> tool_class) list" where
  "default_tools r =
     (if has_fs r then [(''filesystem'', FilesystemTools), (''search'', SearchTools)] else []) @
     (if has_terminal r then [(''terminal'', TerminalTools), (''build'', BuildTools)] else []) @
     (if has_git r then [(''git'', GitTools)] else []) @
     (if has_lsp r then [(''lsp'', LSPTools)] else []) @
     (if has_parser r then [(''code_analysis'', CodeAnalysisTools)] else []) @
     (if has_http r then [(''network'', NetworkTools)] else []) @
     (if has_memory r then [(''memory'', MemoryTools)] else []) @
     (if has_context r then [(''context'', ContextTools)] else []) @
     [(''workspace'', OtherTool 0), (''testing'', OtherTool 1)]"

definition createDefaultTools :: "ToolRegistry \<Rightarrow> ToolRegistry" where
  "createDefaultTools r = fold (\<lambda>(name, c). make_tool name c) (default_tools r) r"

definition initialize_tools :: "ToolRegistry \<Rightarrow> bool \<times> ToolRegistry" where
  "initialize_tools r = (True, createDefaultTools r)"

definition shutdown_tools :: "ToolRegistry \<Rightarrow> ToolRegistry" where
  "shutdown_tools r = r\<lparr>tool_table := []\<rparr>"

definition registerTool :: "string \<Rightarrow> nat option \<Rightarrow> ToolRegistry \<Rightarrow> bool \<times> ToolRegistry" where
  "registerTool name tool r =
     (case tool of None \<Rightarrow> (False, r) | Some a \<Rightarrow> (True, r\<lparr>tool_table := AList.update name a (tool_table r)\<rparr>))"

definition unregisterTool :: "string \<Rightarrow> ToolRegistry \<Rightarrow> bool \<times> ToolRegistry" where
  "unregisterTool name r = (map_of (tool_table r) name \<noteq> None, r\<lparr>tool_table := AList.delete name (tool_table r)\<rparr>)"

definition getTool :: "string \<Rightarrow> ToolRegistry \<Rightarrow> nat option" where
  "getTool name r = map_of (tool_table r) name"

definition listTools :: "ToolRegistry \<Rightarrow> string list" where
  "listTools r = sort (um_keys (tool_table r))"

definition class_at :: "ToolRegistry \<Rightarrow> nat \<Rightarrow> tool_class" where
  "class_at r a = tl_class (objects r ! a)"

definition listToolsByCategory :: "(nat \<Rightarrow> other_tool) \<Rightarrow> ToolCategory \<Rightarrow> ToolRegistry \<Rightarrow> string list" where
  "listToolsByCategory others category r =
     sort (map fst (filter (\<lambda>(name, a). td_category (getDefinition others (class_at r a)) = category) (tool_table r)))"

definition getToolDefinition :: "(nat \<Rightarrow> other_tool) \<Rightarrow> string \<Rightarrow> ToolRegistry \<Rightarrow> ToolDefinition option" where
  "getToolDefinition others name r = map_option (\<lambda>a. getDefinition others (class_at r a)) (getTool name r)"

text \<open>\<open>tool->execute(params)\<close> on the object at an address.\<close>

definition run_tool :: "(nat \<Rightarrow> other_tool) \<Rightarrow> nat \<Rightarrow> params \<Rightarrow> nat \<Rightarrow> ToolRegistry \<Rightarrow> ToolResult option \<times> ToolRegistry" where
  "run_tool others d ps a r =
     (case tool_execute others d ps (objects r ! a) of (res, t) \<Rightarrow> (res, r\<lparr>objects := (objects r)[a := t]\<rparr>))"

definition executeTool :: "(nat \<Rightarrow> other_tool) \<Rightarrow> nat \<Rightarrow> string \<Rightarrow> params \<Rightarrow> ToolRegistry \<Rightarrow> ToolResult option \<times> ToolRegistry" where
  "executeTool others d name ps r =
     (case getTool name r of
        None \<Rightarrow> (Some (result_error (''Tool not found: '' @ name)), r)
      | Some a \<Rightarrow>
          if \<not> isAvailable others (class_at r a) then (Some (result_error (''Tool not available: '' @ name)), r)
          else if \<not> validateParams (getDefinition others (class_at r a)) ps
            then (Some (result_error (''Invalid parameters for tool: '' @ name)), r)
          else run_tool others d ps a r)"

definition has_permission :: "ToolPermission list \<Rightarrow> ToolPermission \<Rightarrow> bool" where
  "has_permission granted required = list_ex (\<lambda>g. required = g) granted"

definition executeWithPermission :: "(nat \<Rightarrow> other_tool) \<Rightarrow> nat \<Rightarrow> string \<Rightarrow> params \<Rightarrow> ToolPermission list \<Rightarrow>
    ToolRegistry \<Rightarrow> ToolResult option \<times> ToolRegistry" where
  "executeWithPermission others d name ps granted r =
     (case getTool name r of
        None \<Rightarrow> (Some (result_error (''Tool not found: '' @ name)), r)
      | Some a \<Rightarrow>
          (case find (\<lambda>q. \<not> has_permission granted q) (td_required_permissions (getDefinition others (class_at r a))) of
             Some q \<Rightarrow> (Some (result_error (''Permission denied: '' @ name @ '' requires '' @ nat_string (permission_number q))), r)
           | None \<Rightarrow> run_tool others d ps a r))"

record RegistryStats =
  rs_total_tools :: nat
  rs_total_calls :: nat
  rs_successful_calls :: nat
  rs_failed_calls :: nat
  rs_tool_stats :: "(string, ToolStats) umap"

definition add_tool_stats :: "Tool list \<Rightarrow> string \<times> nat \<Rightarrow> RegistryStats \<Rightarrow> RegistryStats" where
  "add_tool_stats objs p st =
     (let ts = tl_stats (objs ! snd p)
      in st\<lparr>rs_tool_stats := AList.update (fst p) ts (rs_tool_stats st),
            rs_total_calls := rs_total_calls st + ts_total_calls ts,
            rs_successful_calls := rs_successful_calls st + ts_successful_calls ts,
            rs_failed_calls := rs_failed_calls st + ts_failed_calls ts\<rparr>)"

definition registry_stats :: "ToolRegistry \<Rightarrow> RegistryStats" where
  "registry_stats r =
     fold (add_tool_stats (objects r)) (tool_table r)
       \<lparr>rs_total_tools = length (tool_table r), rs_total_calls = 0, rs_successful_calls = 0, rs_failed_calls = 0, rs_tool_stats = []\<rparr>"

end
