(* ===== verification/Tool_Properties.thy ===== *)
theory Tool_Properties
  imports Tool_Registry
begin

text \<open>
  Properties of the tools and of their registry.

  \<^item> What a call of a built-in tool returns and records; the statistics as functions of the calls.
  \<^item> The permission check of \<open>executeWithPermission\<close>.
  \<^item> The registry as a transition system: names lead to objects, objects keep their class, calls are
    accounted for.
\<close>

subsection \<open>Calls of built-in tools\<close>

definition builtin :: "tool_class \<Rightarrow> bool" where
  "builtin c \<longleftrightarrow> (case c of OtherTool n \<Rightarrow> False | _ \<Rightarrow> True)"

definition key_param :: "tool_class \<Rightarrow> string" where
  "key_param c = (if c = TerminalTools then ''command'' else ''operation'')"

definition result_wf :: "ToolResult \<Rightarrow> bool" where
  "result_wf r \<longleftrightarrow>
     (if tr_success r then tr_error_message r = [] \<and> tr_exit_code r = 0
      else tr_error_message r \<noteq> [] \<and> tr_output r = [] \<and> tr_data r = [] \<and> tr_exit_code r = -1)"

lemma result_wf_simps [simp]:
  "result_wf (result_ok s)"
  "result_wf (missing s)"
  "result_wf (result_error s) \<longleftrightarrow> s \<noteq> []"
  "tr_success r \<Longrightarrow> result_wf (r\<lparr>tr_data := v\<rparr>) = result_wf r"
  "result_wf (r\<lparr>tr_execution_time := d\<rparr>) = result_wf r"
  by (auto simp: result_wf_def result_ok_def result_error_def missing_def)

lemma tr_success_ok [simp]: "tr_success (result_ok s)"
  by (simp add: result_ok_def)

named_theorems tool_defs "the operations of the built-in tools"

lemmas [tool_defs] =
  fs_readFile_def fs_writeFile_def fs_deleteFile_def fs_listDirectory_def fs_createDirectory_def fs_fileExists_def
  fs_getFileSize_def fs_copyFile_def fs_moveFile_def fs_searchFiles_def
  git_getStatus_def git_getDiff_def git_commit_def git_push_def git_pull_def git_checkout_def git_createBranch_def
  git_mergeBranch_def git_stash_def
  search_grep_def search_regex_def search_findFiles_def search_findSymbol_def
  lsp_goToDefinition_def lsp_findReferences_def lsp_getHover_def lsp_getCompletion_def lsp_getDiagnostics_def
  lsp_renameSymbol_def lsp_formatDocument_def
  net_httpGet_def net_httpPost_def net_downloadFile_def
  code_parseFile_def code_getAST_def code_getSymbols_def code_getCallGraph_def code_getDependencies_def
  code_analyzeComplexity_def
  build_build_def build_clean_def build_install_def
  mem_storeMemory_def mem_retrieveMemory_def mem_searchMemory_def mem_deleteMemory_def
  ctx_addContext_def ctx_getContext_def ctx_removeContext_def ctx_rankFiles_def

text \<open>A table all of whose entries are of the form \<open>Some \<circ> f\<close> never throws.\<close>

definition table_ok :: "op_table \<Rightarrow> bool" where
  "table_ok table \<longleftrightarrow> (\<forall>f \<in> snd ` set table. \<forall>ps r. f ps = Some r \<longrightarrow> result_wf r)"

definition table_total :: "op_table \<Rightarrow> bool" where
  "table_total table \<longleftrightarrow> (\<forall>f \<in> snd ` set table. \<forall>ps. f ps \<noteq> None)"

lemma tables_ok [simp]:
  "table_ok filesystem_ops" "table_ok git_ops" "table_ok search_ops" "table_ok lsp_ops" "table_ok network_ops"
  "table_ok analysis_ops" "table_ok build_ops" "table_ok memory_ops" "table_ok context_ops"
  unfolding table_ok_def filesystem_ops_def git_ops_def search_ops_def lsp_ops_def network_ops_def analysis_ops_def
    build_ops_def memory_ops_def context_ops_def
  by (simp_all add: tool_defs git_getLog_def Let_def split: option.splits)

lemma tables_total [simp]:
  "table_total filesystem_ops" "table_total search_ops" "table_total lsp_ops" "table_total network_ops"
  "table_total analysis_ops" "table_total build_ops" "table_total memory_ops" "table_total context_ops"
  unfolding table_total_def filesystem_ops_def search_ops_def lsp_ops_def network_ops_def analysis_ops_def
    build_ops_def memory_ops_def context_ops_def
  by simp_all

lemma run_ops_cases:
  "table_ok table \<Longrightarrow> run_ops u table ps = Done r \<Longrightarrow> result_wf r"
  "run_ops u table ps = Early r \<Longrightarrow> result_wf r \<and> \<not> tr_success r"
  "(\<exists>r. run_ops u table ps = Early r) \<longleftrightarrow> map_of ps ''operation'' = None"
  by (force simp: run_ops_def table_ok_def missing_def result_error_def result_wf_def
      dest: map_of_SomeD split: option.splits)+

lemma run_ops_total: "table_total table \<Longrightarrow> run_ops u table ps \<noteq> Thrown"
proof (rule notI)
  assume tot: "table_total table" and "run_ops u table ps = Thrown"
  then obtain opn f where "map_of table opn = Some f" "f ps = None"
    by (auto simp: run_ops_def split: option.splits)
  then have "f \<in> snd ` set table"
    using map_of_SomeD image_eqI snd_conv by metis
  with tot \<open>f ps = None\<close> show False
    unfolding table_total_def by blast
qed

lemma git_thrown:
  "run_ops u git_ops ps = Thrown \<longleftrightarrow>
     map_of ps ''operation'' = Some ''log'' \<and> (\<exists>c. map_of ps ''count'' = Some c \<and> stoi c = None)"
  by (auto simp: run_ops_def git_ops_def git_getLog_def split: option.splits)

lemma run_terminal_result:
  "run_terminal ps = Done r \<Longrightarrow> result_wf r"
  "run_terminal ps = Early r \<Longrightarrow> result_wf r \<and> \<not> tr_success r"
  by (auto simp: run_terminal_def missing_def result_error_def result_wf_def result_ok_def split: option.splits)

lemma builtin_run_result:
  "builtin_run c ps = Done r \<Longrightarrow> result_wf r"
  "builtin_run c ps = Early r \<Longrightarrow> result_wf r \<and> \<not> tr_success r"
proof -
  show "result_wf r" if "builtin_run c ps = Done r"
    using that by (cases c) (auto intro: run_ops_cases(1) [rotated] run_terminal_result(1))
  show "result_wf r \<and> \<not> tr_success r" if "builtin_run c ps = Early r"
    using that by (cases c) (auto dest: run_ops_cases(2) run_terminal_result(2))
qed

lemma builtin_run_early:
  "builtin c \<Longrightarrow> (\<exists>r. builtin_run c ps = Early r) \<longleftrightarrow> map_of ps (key_param c) = None"
  by (cases c) (auto simp: builtin_def key_param_def run_terminal_def run_ops_cases split: option.splits)

lemma builtin_run_thrown:
  "builtin c \<Longrightarrow> builtin_run c ps = Thrown \<longleftrightarrow>
     c = GitTools \<and> map_of ps ''operation'' = Some ''log'' \<and> (\<exists>k. map_of ps ''count'' = Some k \<and> stoi k = None)"
  by (cases c) (simp_all add: builtin_def run_terminal_def run_ops_total git_thrown split: option.splits)

lemma tool_execute_builtin:
  "builtin (tl_class t) \<Longrightarrow> tool_execute others d ps t =
     (case builtin_run (tl_class t) ps of
        Early r \<Rightarrow> (Some r, t)
      | Thrown \<Rightarrow> (None, t)
      | Done r \<Rightarrow> (Some (r\<lparr>tr_execution_time := d\<rparr>), t\<lparr>tl_stats := recordCall (tr_success r) d (tl_stats t)\<rparr>))"
  by (cases "tl_class t") (simp_all add: tool_execute_def builtin_def)

text \<open>
  C23: A call of a built-in tool throws exactly when it is \<open>git log\<close> with a \<open>count\<close> that \<open>std::stoi\<close> refuses.
  Otherwise it returns, and the result is well-formed: a success has no error text and exit code 0, a failure has
  a text, no output and exit code -1. The call is entered in the statistics, with its outcome and duration,
  exactly when it did not throw and the parameter that selects the operation was given.
\<close>

theorem builtin_call_effect:
  assumes "builtin (tl_class t)" "tool_execute others d ps t = (res, t')"
  shows "(res = None \<longleftrightarrow> tl_class t = GitTools \<and> map_of ps ''operation'' = Some ''log'' \<and>
        (\<exists>k. map_of ps ''count'' = Some k \<and> stoi k = None)) \<and>
     (\<forall>r. res = Some r \<longrightarrow> result_wf r) \<and>
     t' = (case res of None \<Rightarrow> t
           | Some r \<Rightarrow> if map_of ps (key_param (tl_class t)) = None then t
               else t\<lparr>tl_stats := recordCall (tr_success r) d (tl_stats t)\<rparr>)"
proof (cases "builtin_run (tl_class t) ps")
  case (Early r)
  then have "map_of ps (key_param (tl_class t)) = None"
    using builtin_run_early [OF assms(1)] by blast
  then show ?thesis
    using assms Early builtin_run_thrown [OF assms(1), of ps] builtin_run_result(2) [OF Early]
    by (auto simp: tool_execute_builtin)
next
  case (Done r)
  then have "map_of ps (key_param (tl_class t)) \<noteq> None"
    using builtin_run_early [OF assms(1), of ps] by auto
  then show ?thesis
    using assms Done builtin_run_thrown [OF assms(1), of ps] builtin_run_result(1) [OF Done]
    by (auto simp: tool_execute_builtin)
next
  case Thrown
  then show ?thesis
    using assms builtin_run_thrown [OF assms(1), of ps] by (auto simp: tool_execute_builtin)
qed

theorem builtin_call_effect_witness:
  "(\<exists>t'. tool_execute (\<lambda>_. undefined) 7 [(''operation'', ''log''), (''count'', ''many'')] (new_Tool GitTools) = (None, t')) \<and>
   (let (res, t') = tool_execute (\<lambda>_. undefined) 7 [(''operation'', ''read'')] (new_Tool FilesystemTools)
    in res \<noteq> None \<and> result_wf (the res) \<and> ts_failed_calls (tl_stats t') = 1)"
proof -
  obtain res t' where 1: "tool_execute (\<lambda>_. undefined) 7 [(''operation'', ''log''), (''count'', ''many'')] (new_Tool GitTools) = (res, t')"
    by force
  moreover have "stoi ''many'' = None"
    by (simp add: stoi_def isspace_def isdigit_def code_of_def)
  ultimately have "res = None"
    using builtin_call_effect [OF _ 1] by (simp add: new_Tool_def builtin_def)
  moreover obtain res2 t2 where
    2: "tool_execute (\<lambda>_. undefined) 7 [(''operation'', ''read'')] (new_Tool FilesystemTools) = (res2, t2)"
    by force
  moreover from 2 have "res2 = Some ((missing (quoted ''path''))\<lparr>tr_execution_time := 7\<rparr>)"
    by (auto simp: tool_execute_def new_Tool_def run_ops_def filesystem_ops_def fs_readFile_def)
  ultimately show ?thesis
    using 1 builtin_call_effect [OF _ 2]
    by (simp add: new_Tool_def builtin_def key_param_def recordCall_def zero_stats_def missing_def result_error_def Let_def)
qed


subsection \<open>Statistics\<close>

definition record_all :: "(bool \<times> nat) list \<Rightarrow> ToolStats" where
  "record_all cs = fold (\<lambda>(b, d). recordCall b d) cs zero_stats"

text \<open>The durations recorded since the last one of zero milliseconds.\<close>

definition since_zero :: "nat list \<Rightarrow> nat list" where
  "since_zero ds = rev (takeWhile (\<lambda>d. d \<noteq> 0) (rev ds))"

lemma since_zero_snoc: "since_zero (ds @ [d]) = (if d = 0 then [] else since_zero ds @ [d])"
  by (simp add: since_zero_def)

lemma since_zero_pos: "d \<in> set (since_zero ds) \<Longrightarrow> d \<noteq> 0"
  unfolding since_zero_def by (auto dest: set_takeWhileD)

definition least_or_zero :: "nat list \<Rightarrow> nat" where
  "least_or_zero ds = (if ds = [] then 0 else Min (set ds))"

lemma least_or_zero_snoc:
  assumes "d \<noteq> 0"
  shows "least_or_zero (since_zero ds @ [d]) =
     (if least_or_zero (since_zero ds) = 0 \<or> d < least_or_zero (since_zero ds) then d else least_or_zero (since_zero ds))"
proof (cases "since_zero ds = []")
  case True
  then show ?thesis by (simp add: least_or_zero_def)
next
  case False
  define M where "M = Min (set (since_zero ds))"
  have "M \<noteq> 0"
    unfolding M_def using False since_zero_pos Min_in [of "set (since_zero ds)"] by (metis List.finite_set set_empty)
  moreover have "Min (set (since_zero ds @ [d])) = min d M"
    using False by (simp add: M_def)
  ultimately show ?thesis
    using False unfolding least_or_zero_def M_def [symmetric] by (simp add: min_def)
qed

definition longest :: "nat list \<Rightarrow> nat" where
  "longest ds = Max (insert 0 (set ds))"

lemma longest_snoc: "longest (ds @ [d]) = max d (longest ds)"
proof -
  have "insert 0 (set (ds @ [d])) = insert d (insert 0 (set ds))"
    by auto
  then show ?thesis
    unfolding longest_def by (simp only:) (rule Max_insert, simp_all)
qed

text \<open>
  After any sequence of recorded calls the statistics of a tool are exact: the number of calls, of successes and
  of failures, the sum of the durations, its quotient by the number, and the longest duration. The shortest
  duration is not: zero stands for "not set", so a call of zero milliseconds is forgotten by the next one, and
  the field holds the least duration since the last call of zero milliseconds.
\<close>

theorem call_statistics_exact:
  fixes cs :: "(bool \<times> nat) list"
  defines "s \<equiv> record_all cs" and "ds \<equiv> map snd cs"
  shows "ts_total_calls s = length cs \<and>
     ts_successful_calls s = length (filter fst cs) \<and>
     ts_failed_calls s = length (filter (\<lambda>c. \<not> fst c) cs) \<and>
     ts_total_execution_time s = sum_list ds \<and>
     ts_average_execution_time s = sum_list ds div length ds \<and>
     ts_max_execution_time s = longest ds \<and>
     ts_min_execution_time s = least_or_zero (since_zero ds)"
  unfolding s_def ds_def
proof (induction cs rule: rev_induct)
  case Nil
  then show ?case
    by (simp add: record_all_def zero_stats_def least_or_zero_def since_zero_def longest_def)
next
  case (snoc c cs)
  obtain b d where c: "c = (b, d)"
    by force
  have step: "record_all (cs @ [c]) = recordCall b d (record_all cs)"
    by (simp add: record_all_def c)
  have "longest (map snd (cs @ [c])) = max d (longest (map snd cs))"
    by (simp add: c longest_snoc)
  moreover have "least_or_zero (since_zero (map snd (cs @ [c]))) =
      (if least_or_zero (since_zero (map snd cs)) = 0 \<or> d < least_or_zero (since_zero (map snd cs)) then d
       else least_or_zero (since_zero (map snd cs)))"
  proof (cases "d = 0")
    case True
    then show ?thesis
      using since_zero_pos [of 0 "map snd cs"] by (simp add: c since_zero_snoc least_or_zero_def)
  next
    case False
    then show ?thesis
      using least_or_zero_snoc [OF False, of "map snd cs"] by (simp add: c since_zero_snoc)
  qed
  moreover have "length (map snd (cs @ [c])) = length cs + 1" "length (filter fst (cs @ [c])) = length (filter fst cs) + (if b then 1 else 0)"
    "length (filter (\<lambda>c. \<not> fst c) (cs @ [c])) = length (filter (\<lambda>c. \<not> fst c) cs) + (if b then 0 else 1)"
    "sum_list (map snd (cs @ [c])) = sum_list (map snd cs) + d" "length (cs @ [c]) = length cs + 1"
    by (simp_all add: c)
  ultimately show ?case
    using snoc.IH unfolding step by (simp only: recordCall_def Let_def max_def) simp
qed

subsection \<open>Permissions\<close>

lemma find_None_all: "find P xs = None \<longleftrightarrow> (\<forall>x \<in> set xs. \<not> P x)"
  by (auto simp: find_None_iff)

lemma has_permission_iff: "has_permission granted q \<longleftrightarrow> q \<in> set granted"
  by (auto simp: has_permission_def list_ex_iff)

definition required_of :: "(nat \<Rightarrow> other_tool) \<Rightarrow> string \<Rightarrow> ToolRegistry \<Rightarrow> ToolPermission set" where
  "required_of others name r =
     (case getToolDefinition others name r of None \<Rightarrow> {} | Some def \<Rightarrow> set (td_required_permissions def))"

text \<open>
  C22: The permission check is complete and sound: \<open>executeWithPermission\<close> runs the tool exactly when the name is
  registered and every permission of its definition has been granted; in every other case it returns an
  error and leaves the registry, with all its statistics, as it was.
\<close>

theorem permission_gate:
  "let (res, r') = executeWithPermission others d name ps granted r
   in case getTool name r of
        Some a \<Rightarrow>
          if required_of others name r \<subseteq> set granted then (res, r') = run_tool others d ps a r
          else r' = r \<and> (\<exists>e. res = Some e \<and> \<not> tr_success e)
      | None \<Rightarrow> r' = r \<and> (\<exists>e. res = Some e \<and> \<not> tr_success e)"
proof (cases "getTool name r")
  case None
  then show ?thesis
    by (simp add: executeWithPermission_def result_error_def)
next
  case (Some a)
  then have req: "required_of others name r = set (td_required_permissions (getDefinition others (class_at r a)))"
    by (simp add: required_of_def getToolDefinition_def)
  show ?thesis
  proof (cases "find (\<lambda>q. \<not> has_permission granted q) (td_required_permissions (getDefinition others (class_at r a)))")
    case None
    then have "required_of others name r \<subseteq> set granted"
      by (auto simp: req find_None_iff has_permission_iff)
    then show ?thesis
      using Some None by (simp add: executeWithPermission_def split: prod.split)
  next
    case (Some q)
    then have "\<not> required_of others name r \<subseteq> set granted"
      by (auto simp: req find_Some_iff has_permission_iff) (metis nth_mem subsetD)
    then show ?thesis
      using \<open>getTool name r = Some a\<close> Some by (simp add: executeWithPermission_def result_error_def)
  qed
qed

subsection \<open>The registry over time\<close>

datatype registry_action =
    Reg_Provide service bool
  | Reg_Initialize
  | Reg_Shutdown
  | Reg_New tool_class
  | Reg_Register string "nat option"
  | Reg_Unregister string
  | Reg_Call nat string params
  | Reg_Call_With nat string params "ToolPermission list"

fun registry_step :: "(nat \<Rightarrow> other_tool) \<Rightarrow> registry_action \<Rightarrow> ToolRegistry \<Rightarrow> ToolRegistry option" where
  "registry_step others (Reg_Provide v b) r = Some (set_service v b r)"
| "registry_step others Reg_Initialize r = Some (snd (initialize_tools r))"
| "registry_step others Reg_Shutdown r = Some (shutdown_tools r)"
| "registry_step others (Reg_New c) r = Some (r\<lparr>objects := objects r @ [new_Tool c]\<rparr>)"
| "registry_step others (Reg_Register name p) r =
     (if p = None \<or> the p < length (objects r) then Some (snd (registerTool name p r)) else None)"
| "registry_step others (Reg_Unregister name) r = Some (snd (unregisterTool name r))"
| "registry_step others (Reg_Call d name ps) r = Some (snd (executeTool others d name ps r))"
| "registry_step others (Reg_Call_With d name ps granted) r = Some (snd (executeWithPermission others d name ps granted r))"

definition stats_ok :: "ToolStats \<Rightarrow> bool" where
  "stats_ok s \<longleftrightarrow> ts_total_calls s = ts_successful_calls s + ts_failed_calls s"

definition others_ok :: "(nat \<Rightarrow> other_tool) \<Rightarrow> bool" where
  "others_ok others \<longleftrightarrow> (\<forall>n ps s. stats_ok s \<longrightarrow> stats_ok (snd (ot_execute (others n) ps s)))"

definition registry_inv :: "ToolRegistry \<Rightarrow> bool" where
  "registry_inv r \<longleftrightarrow> distinct (um_keys (tool_table r)) \<and>
     (\<forall>name a. map_of (tool_table r) name = Some a \<longrightarrow> a < length (objects r)) \<and>
     (\<forall>t \<in> set (objects r). stats_ok (tl_stats t))"

lemma stats_ok_simps [simp]:
  "stats_ok zero_stats"
  "stats_ok (recordCall b d s) = stats_ok s"
  by (auto simp: stats_ok_def zero_stats_def recordCall_def Let_def)

lemma tool_execute_stats:
  assumes "others_ok others" "stats_ok (tl_stats t)"
  shows "stats_ok (tl_stats (snd (tool_execute others d ps t)))"
proof (cases "tl_class t")
  case (OtherTool n)
  obtain res s where s: "ot_execute (others n) ps (tl_stats t) = (res, s)"
    by force
  then have "stats_ok s"
    using assms unfolding others_ok_def by (metis snd_conv)
  then show ?thesis
    by (simp add: tool_execute_def OtherTool s)
qed (use assms(2) in \<open>simp_all add: tool_execute_def split: call_outcome.split\<close>)

lemma run_tool_inv:
  assumes "others_ok others" "registry_inv r"
  shows "registry_inv (snd (run_tool others d ps a r))"
proof (cases "a < length (objects r)")
  case True
  obtain res t where t: "tool_execute others d ps (objects r ! a) = (res, t)"
    by force
  with assms True have "stats_ok (tl_stats t)"
    using tool_execute_stats [of others "objects r ! a" d ps] by (simp add: registry_inv_def)
  then show ?thesis
    using assms t by (auto simp: registry_inv_def run_tool_def dest!: set_update_subset_insert [THEN subsetD])
next
  case False
  then show ?thesis
    using assms by (simp add: registry_inv_def run_tool_def list_update_beyond split: prod.split)
qed

lemma make_tool_inv: "registry_inv r \<Longrightarrow> registry_inv (make_tool name c r)"
  by (auto simp: registry_inv_def make_tool_def new_Tool_def less_Suc_eq)

lemma make_tools_inv: "registry_inv r \<Longrightarrow> registry_inv (fold (\<lambda>(name, c). make_tool name c) cs r)"
  by (induction cs arbitrary: r) (auto intro: make_tool_inv)

lemma set_service_fields [simp]:
  "tool_table (set_service v b r) = tool_table r" "objects (set_service v b r) = objects r"
  by (cases v; simp)+

lemma executeTool_cases:
  "snd (executeTool others d name ps r) = r \<or> (\<exists>a. snd (executeTool others d name ps r) = snd (run_tool others d ps a r))"
  by (auto simp: executeTool_def split: option.splits)

lemma executeWithPermission_cases:
  "snd (executeWithPermission others d name ps granted r) = r \<or>
   (\<exists>a. snd (executeWithPermission others d name ps granted r) = snd (run_tool others d ps a r))"
  by (auto simp: executeWithPermission_def split: option.splits)

lemma registry_step_inv:
  assumes "others_ok others" "registry_inv r" "registry_step others act r = Some r'"
  shows "registry_inv r'"
proof (cases act)
  case (Reg_Provide v b)
  then show ?thesis using assms by (auto simp: registry_inv_def)
next
  case Reg_Initialize
  then show ?thesis using assms by (auto simp: initialize_tools_def createDefaultTools_def intro: make_tools_inv)
next
  case Reg_Shutdown
  then show ?thesis using assms by (auto simp: registry_inv_def shutdown_tools_def)
next
  case (Reg_New c)
  then show ?thesis using assms by (auto simp: registry_inv_def new_Tool_def less_Suc_eq)
next
  case (Reg_Register name p)
  then show ?thesis using assms by (auto simp: registry_inv_def registerTool_def split: option.splits if_splits)
next
  case (Reg_Unregister name)
  then show ?thesis using assms by (auto simp: registry_inv_def unregisterTool_def split: if_splits)
next
  case (Reg_Call d name ps)
  then show ?thesis
    using assms run_tool_inv [OF assms(1,2)] executeTool_cases [of others d name ps r] by auto
next
  case (Reg_Call_With d name ps granted)
  then show ?thesis
    using assms run_tool_inv [OF assms(1,2)] executeWithPermission_cases [of others d name ps granted r] by auto
qed

interpretation reg: transition_system "\<lambda>r. r = new_ToolRegistry" "registry_step others"
  "\<lambda>r. others_ok others \<longrightarrow> registry_inv r" for others
proof (unfold_locales, goal_cases)
  case 1
  then show ?case by (simp add: registry_inv_def new_ToolRegistry_def)
next
  case 2
  then show ?case using registry_step_inv by blast
qed

lemma fold_registry_stats:
  fixes objs :: "Tool list"
  assumes "distinct (um_keys ts)" "\<forall>name \<in> set (um_keys ts). map_of (rs_tool_stats st) name = None"
  shows "rs_total_calls (fold (add_tool_stats objs) ts st) = rs_total_calls st + (\<Sum>(name, a) \<leftarrow> ts. ts_total_calls (tl_stats (objs ! a))) \<and>
     rs_successful_calls (fold (add_tool_stats objs) ts st) = rs_successful_calls st + (\<Sum>(name, a) \<leftarrow> ts. ts_successful_calls (tl_stats (objs ! a))) \<and>
     rs_failed_calls (fold (add_tool_stats objs) ts st) = rs_failed_calls st + (\<Sum>(name, a) \<leftarrow> ts. ts_failed_calls (tl_stats (objs ! a))) \<and>
     (\<forall>name. map_of (rs_tool_stats (fold (add_tool_stats objs) ts st)) name =
        (case map_of ts name of Some a \<Rightarrow> Some (tl_stats (objs ! a)) | None \<Rightarrow> map_of (rs_tool_stats st) name))"
  using assms
proof (induction ts arbitrary: st)
  case Nil
  then show ?case by simp
next
  case (Cons p ts)
  obtain name a where p: "p = (name, a)"
    by force
  have fresh: "map_of ts name = None"
    using Cons.prems(1) by (auto simp: p map_of_eq_None_iff um_keys_def)
  then have "distinct (um_keys ts)" "\<forall>n \<in> set (um_keys ts). map_of (rs_tool_stats (add_tool_stats objs p st)) n = None"
    using Cons.prems by (auto simp: p add_tool_stats_def Let_def)
  from Cons.IH [OF this] fresh show ?case
    by (auto simp: p add_tool_stats_def Let_def split: option.splits)
qed

text \<open>
  Whatever is provided, registered, called and removed, the registry stays accounted for: every name leads to an
  existing tool, the calls of every tool are its successes and its failures, and the statistics of the registry
  list every name with the statistics of its tool and add them up.
\<close>

theorem registry_accounted:
  assumes "others_ok others" "run_steps (registry_step others) acts new_ToolRegistry = Some r"
  shows "registry_inv r \<and>
     rs_total_calls (registry_stats r) = rs_successful_calls (registry_stats r) + rs_failed_calls (registry_stats r) \<and>
     rs_total_calls (registry_stats r) = (\<Sum>(name, a) \<leftarrow> tool_table r. ts_total_calls (tl_stats (objects r ! a))) \<and>
     (\<forall>name. map_of (rs_tool_stats (registry_stats r)) name = map_option (\<lambda>a. tl_stats (objects r ! a)) (getTool name r))"
proof -
  have inv: "registry_inv r"
    using reg.inv_reachable [of new_ToolRegistry others acts r] assms by simp
  then have "distinct (um_keys (tool_table r))"
    by (simp add: registry_inv_def)
  note st = fold_registry_stats [OF this, where objs = "objects r" and
      st = "\<lparr>rs_total_tools = length (tool_table r), rs_total_calls = 0, rs_successful_calls = 0, rs_failed_calls = 0, rs_tool_stats = []\<rparr>"]
  have "stats_ok (tl_stats (objects r ! a))" if "(name, a) \<in> set (tool_table r)" for name a
  proof -
    have "a < length (objects r)"
      using that inv distinct_map_of_iff unfolding registry_inv_def by metis
    then show ?thesis
      using inv by (simp add: registry_inv_def)
  qed
  then have "(\<Sum>(name, a) \<leftarrow> tool_table r. ts_total_calls (tl_stats (objects r ! a))) =
      (\<Sum>(name, a) \<leftarrow> tool_table r. ts_successful_calls (tl_stats (objects r ! a))) +
      (\<Sum>(name, a) \<leftarrow> tool_table r. ts_failed_calls (tl_stats (objects r ! a)))"
    unfolding sum_list_addf [symmetric] by (intro arg_cong [where f = sum_list] map_cong) (auto simp: stats_ok_def)
  then show ?thesis
    using inv st by (auto simp: registry_stats_def getTool_def split: option.splits)
qed


definition demo_others :: "nat \<Rightarrow> other_tool" where
  "demo_others n = \<lparr>ot_definition = plain_definition ''demo'' ''demo'' Git_Cat [Perm_Read], ot_available = True,
     ot_execute = (\<lambda>ps s. (Some (result_ok []), recordCall True 1 s))\<rparr>"

theorem registry_accounted_witness:
  "\<exists>r. run_steps (registry_step demo_others)
       [Reg_New TerminalTools, Reg_Register ''shell'' (Some 0), Reg_Call 5 ''shell'' [(''command'', ''ls'')]] new_ToolRegistry = Some r \<and>
     registry_inv r \<and> rs_total_calls (registry_stats r) = 1"
proof -
  have ok: "others_ok demo_others"
    by (simp add: others_ok_def demo_others_def)
  obtain r where r: "run_steps (registry_step demo_others)
       [Reg_New TerminalTools, Reg_Register ''shell'' (Some 0), Reg_Call 5 ''shell'' [(''command'', ''ls'')]] new_ToolRegistry = Some r"
    by (simp add: new_ToolRegistry_def)
  then have "tool_table r = [(''shell'', 0)]" "ts_total_calls (tl_stats (objects r ! 0)) = 1"
    by (auto simp: new_ToolRegistry_def registerTool_def executeTool_def getTool_def run_tool_def class_at_def
        new_Tool_def tool_execute_def run_terminal_def validateParams_def plain_definition_def terminal_definition_def recordCall_def Let_def zero_stats_def)
  with registry_accounted [OF ok r] r show ?thesis
    by (intro exI [of _ r] conjI) simp_all
qed

end
