(* ===== verification/Agent_Core.thy ===== *)
theory Agent_Core
  imports Tool_Registry TaskGraph
begin

text \<open>
  The agents: \<open>src/src/agents/agents.h\<close>, the class \<open>Agent\<close> of \<open>agents.cpp\<close>, and the text that
  \<open>AgentToolParser.cpp\<close> formats for the model.

  \<^item> \<open>executeLoop\<close> is one loop over an explicit state; the registry is shared and passed through. What it
    needs from outside is the record \<open>agent_env\<close>: the replies of the model, the parser of tool calls
    (regular expressions and JSON), the calls of \<open>cancel\<close>, \<open>pause\<close> and \<open>resume\<close> by other threads, durations.
  \<^item> Calls by other threads take effect when an iteration begins, while the agent sleeps in a pause, and
    while the model is asked.
  \<^item> A tool that throws ends the loop with \<open>Raise\<close>, since nothing in it catches; a pause that nobody ends is \<open>Sleep\<close>.
  \<^item> The state-change callback is recorded in \<open>ag_transitions\<close>. The callbacks for thoughts and tool calls and
    the event on the bus are left out.
\<close>

subsection \<open>Data\<close>

datatype AgentState = Agent_Idle | Agent_Thinking | Agent_Acting | Agent_Waiting | Agent_Completed | Agent_Failed | Agent_Cancelled

record AgentCapabilities =
  can_read_files :: bool
  can_write_files :: bool
  can_execute_commands :: bool
  can_access_network :: bool
  can_access_git :: bool
  can_run_tests :: bool
  allowed_tools :: "string list"

definition default_capabilities :: AgentCapabilities where
  "default_capabilities = \<lparr>can_read_files = True, can_write_files = True, can_execute_commands = False,
     can_access_network = False, can_access_git = True, can_run_tests = False, allowed_tools = []\<rparr>"

record AgentConfig =
  ac_id :: string
  ac_name :: string
  ac_type :: AgentType
  ac_model_name :: string
  ac_system_prompt :: string
  ac_temperature :: real
  ac_max_tokens :: int
  ac_max_iterations :: int
  ac_capabilities :: AgentCapabilities
  ac_timeout :: nat
  ac_max_retries :: nat

definition default_config :: AgentConfig where
  "default_config = \<lparr>ac_id = [], ac_name = [], ac_type = Generic, ac_model_name = [], ac_system_prompt = [],
     ac_temperature = 7 / 10, ac_max_tokens = 4096, ac_max_iterations = 20, ac_capabilities = default_capabilities,
     ac_timeout = 60000, ac_max_retries = 3\<rparr>"

record AgentResult =
  ar_content :: string
  ar_success :: bool
  ar_error_message :: string
  ar_iterations_used :: nat
  ar_tool_calls :: "string list"
  ar_execution_time :: nat

definition empty_result :: AgentResult where
  "empty_result = \<lparr>ar_content = [], ar_success = False, ar_error_message = [], ar_iterations_used = 0, ar_tool_calls = [],
     ar_execution_time = 0\<rparr>"

record Message =
  msg_role :: string
  msg_content :: string

record ModelResponse =
  mr_content :: string
  mr_success :: bool
  mr_error :: string

record ParsedToolCall =
  tc_tool_name :: string
  tc_parameters :: params

text \<open>The classes that override \<open>buildSystemPrompt\<close>.\<close>

datatype agent_class = Base_Agent | PlannerAgent | ResearcherAgent | CoderAgent | TesterAgent | ReviewerAgent | DebuggerAgent

record Agent =
  ag_class :: agent_class
  ag_config :: AgentConfig
  ag_state :: AgentState
  ag_cancelled :: bool
  ag_paused :: bool
  ag_current_task :: string
  ag_has_provider :: bool
  ag_has_registry :: bool
  tasks_executed :: nat
  tasks_completed :: nat
  tasks_failed :: nat
  total_iterations :: nat
  total_execution_time_ms :: nat
  ag_transitions :: "(AgentState \<times> AgentState) list"

definition new_Agent :: "agent_class \<Rightarrow> AgentConfig \<Rightarrow> Agent" where
  "new_Agent c cfg = \<lparr>ag_class = c, ag_config = cfg, ag_state = Agent_Idle, ag_cancelled = False, ag_paused = False,
     ag_current_task = [], ag_has_provider = False, ag_has_registry = False, tasks_executed = 0, tasks_completed = 0,
     tasks_failed = 0, total_iterations = 0, total_execution_time_ms = 0, ag_transitions = []\<rparr>"

subsection \<open>State changes\<close>

definition setState :: "AgentState \<Rightarrow> Agent \<Rightarrow> Agent" where
  "setState new_state a =
     (if ag_state a \<noteq> new_state
      then a\<lparr>ag_state := new_state, ag_transitions := ag_transitions a @ [(ag_state a, new_state)]\<rparr> else a)"

definition agent_cancel :: "Agent \<Rightarrow> Agent" where
  "agent_cancel a = setState Agent_Cancelled (a\<lparr>ag_cancelled := True, ag_paused := False\<rparr>)"

definition agent_pause :: "Agent \<Rightarrow> Agent" where
  "agent_pause a = a\<lparr>ag_paused := True\<rparr>"

definition agent_resume :: "Agent \<Rightarrow> Agent" where
  "agent_resume a = a\<lparr>ag_paused := False\<rparr>"

definition isBusy :: "Agent \<Rightarrow> bool" where
  "isBusy a \<longleftrightarrow> ag_state a = Agent_Thinking \<or> ag_state a = Agent_Acting \<or> ag_state a = Agent_Waiting"

definition getCurrentTask :: "Agent \<Rightarrow> string option" where
  "getCurrentTask a = (if ag_current_task a = [] then None else Some (ag_current_task a))"

datatype interrupt = Cancel_Call | Pause_Call | Resume_Call

fun apply_interrupt :: "interrupt \<Rightarrow> Agent \<Rightarrow> Agent" where
  "apply_interrupt Cancel_Call a = agent_cancel a"
| "apply_interrupt Pause_Call a = agent_pause a"
| "apply_interrupt Resume_Call a = agent_resume a"

record agent_env =
  chat :: "nat \<Rightarrow> Message list \<Rightarrow> ModelResponse"
  parseToolCalls :: "string \<Rightarrow> ParsedToolCall list"
  at_start :: "nat \<Rightarrow> interrupt list"
  in_pause :: "nat \<Rightarrow> interrupt list"
  in_chat :: "nat \<Rightarrow> interrupt list"
  call_time :: "nat \<Rightarrow> nat \<Rightarrow> nat"
  run_time :: nat
  other_tools :: "nat \<Rightarrow> other_tool"

subsection \<open>Text for and from the model\<close>

definition isTaskComplete :: "(string \<Rightarrow> ParsedToolCall list) \<Rightarrow> string \<Rightarrow> bool" where
  "isTaskComplete parse s \<longleftrightarrow>
     (let l = lower s
      in contains l ''task_complete'' \<or> contains l ''task complete'' \<or> contains l ''<task_completed/>'' \<or>
         contains l ''status: completed'' \<or> contains l (''\"status\": \"completed\"'') \<or>
         (contains s ''DONE'' \<and> parse s = []))"

definition format_parameter :: "ToolDefinition \<Rightarrow> string \<Rightarrow> string" where
  "format_parameter t p =
     ''    * '' @ p @ '' ('' @ (if um_get False (td_parameter_required t) p then ''required'' else ''optional'') @ ''): '' @
     um_get ''Parameter'' (td_parameter_descriptions t) p @ nl"

definition format_tool :: "ToolDefinition \<Rightarrow> string" where
  "format_tool t = ''- '' @ td_name t @ '': '' @ td_description t @ nl @ ''  Parameters:'' @ nl @
     concat (map (format_parameter t) (td_parameters t))"

definition formatToolDefinitionsPrompt :: "ToolDefinition list \<Rightarrow> string" where
  "formatToolDefinitionsPrompt tools =
     ''Available Tools:'' @ nl @ concat (map format_tool tools) @
     nl @ ''To call a tool, respond with a JSON block:'' @ nl @
     ''```json'' @ nl @ ''{'' @ nl @ ''  \"tool\": \"tool_name\",'' @ nl @
     ''  \"params\": {\"param_name\": \"value\"}'' @ nl @ ''}'' @ nl @ ''```'' @ nl @
     ''When finished with your assigned subtask, output '' @ quoted ''TASK_COMPLETE'' @ '' with your final summary.'' @ nl"

definition formatToolObservation :: "string \<Rightarrow> ToolResult \<Rightarrow> string" where
  "formatToolObservation name r =
     ''Tool Result for ['' @ name @ '']:'' @ nl @
     (if tr_success r
      then ''Status: SUCCESS'' @ nl @ (if tr_output r \<noteq> [] then ''Output:'' @ nl @ tr_output r @ nl else [])
      else ''Status: FAILED'' @ nl @ ''Error: '' @ tr_error_message r @ nl @
        (if tr_exit_code r \<noteq> 0 then ''Exit Code: '' @ int_string (tr_exit_code r) @ nl else []))"

subsection \<open>Tool calls\<close>

definition granted_permissions :: "AgentCapabilities \<Rightarrow> ToolPermission list" where
  "granted_permissions c =
     (if can_read_files c then [Perm_Read] else []) @ (if can_write_files c then [Perm_Write] else []) @
     (if can_execute_commands c then [Perm_Execute] else []) @ (if can_access_network c then [Perm_Network] else [])"

definition fallback_tools :: "(string \<times> (string \<Rightarrow> string)) list" where
  "fallback_tools =
     [(''read_file'', \<lambda>args. ''Read file: '' @ args), (''write_file'', \<lambda>args. ''Wrote file: '' @ args),
      (''search_files'', \<lambda>args. ''Found files matching: '' @ args),
      (''run_command'', \<lambda>args. ''Executed command: '' @ args @ '' (exit code 0)''),
      (''list_directory'', \<lambda>args. ''Directory contents for: '' @ args)]"

definition fallback_call :: "ParsedToolCall \<Rightarrow> ToolResult" where
  "fallback_call tc =
     (case map_of fallback_tools (tc_tool_name tc) of
        Some f \<Rightarrow> result_ok (f (concat (map (\<lambda>(k, v). '' '' @ k @ ''='' @ v) (tc_parameters tc))))
      | None \<Rightarrow> result_error (''Unknown tool: '' @ tc_tool_name tc))"

definition call_tool :: "agent_env \<Rightarrow> Agent \<Rightarrow> nat \<Rightarrow> ParsedToolCall \<Rightarrow> ToolRegistry \<Rightarrow> ToolResult option \<times> ToolRegistry" where
  "call_tool env a d tc r =
     (if ag_has_registry a
      then executeWithPermission (other_tools env) d (tc_tool_name tc) (tc_parameters tc)
             (granted_permissions (ac_capabilities (ag_config a))) r
      else (Some (fallback_call tc), r))"

text \<open>The observations of the calls in order; \<open>None\<close> when one throws.\<close>

fun run_calls :: "agent_env \<Rightarrow> Agent \<Rightarrow> nat \<Rightarrow> nat \<Rightarrow> ParsedToolCall list \<Rightarrow> ToolRegistry \<Rightarrow> string option \<times> ToolRegistry" where
  "run_calls env a i k [] r = (Some [], r)"
| "run_calls env a i k (tc # tcs) r =
     (case call_tool env a (call_time env i k) tc r of
        (None, r1) \<Rightarrow> (None, r1)
      | (Some res, r1) \<Rightarrow>
          (case run_calls env a i (Suc k) tcs r1 of
             (None, r2) \<Rightarrow> (None, r2)
           | (Some obs, r2) \<Rightarrow> (Some (formatToolObservation (tc_tool_name tc) res @ nl @ obs), r2)))"

subsection \<open>The loop\<close>

record loop_state =
  ls_agent :: Agent
  ls_registry :: ToolRegistry
  ls_messages :: "Message list"
  ls_output :: string
  ls_result :: AgentResult
  ls_iterations :: nat

datatype 'a flow = Next 'a | Break 'a | Raise 'a | Sleep 'a

definition finish_success :: "loop_state \<Rightarrow> loop_state" where
  "finish_success s = s\<lparr>ls_result := (ls_result s)\<lparr>ar_content := ls_output s, ar_success := True,
       ar_iterations_used := ls_iterations s\<rparr>, ls_agent := setState Agent_Completed (ls_agent s)\<rparr>"

definition act_phase :: "agent_env \<Rightarrow> string \<Rightarrow> ParsedToolCall list \<Rightarrow> loop_state \<Rightarrow> loop_state flow" where
  "act_phase env response tcs s =
     (let a = setState Agent_Acting (ls_agent s)
      in case run_calls env a (ls_iterations s) 0 tcs (ls_registry s) of
           (None, r) \<Rightarrow> Raise (s\<lparr>ls_agent := a, ls_registry := r\<rparr>)
         | (Some obs, r) \<Rightarrow> Next (s\<lparr>ls_agent := a, ls_registry := r,
             ls_result := (ls_result s)\<lparr>ar_tool_calls := ar_tool_calls (ls_result s) @ map tc_tool_name tcs\<rparr>,
             ls_messages := ls_messages s @ [\<lparr>msg_role = ''assistant'', msg_content = response\<rparr>, \<lparr>msg_role = ''user'', msg_content = obs\<rparr>]\<rparr>))"

definition handle_response :: "agent_env \<Rightarrow> string \<Rightarrow> loop_state \<Rightarrow> loop_state flow" where
  "handle_response env response s0 =
     (let s = s0\<lparr>ls_output := ls_output s0 @ (if ls_output s0 = [] then [] else nl) @ response\<rparr>
      in if isTaskComplete (parseToolCalls env) response then Break (finish_success s)
         else if parseToolCalls env response = [] then Break (finish_success s)
         else act_phase env response (parseToolCalls env response) s)"

text \<open>The fallback \<open>think\<close> of the base class, when no provider is attached.\<close>

definition think :: "string \<Rightarrow> string" where
  "think observation = ''TASK_COMPLETE: Processed observation - '' @ observation"

definition think_phase :: "agent_env \<Rightarrow> loop_state \<Rightarrow> loop_state flow" where
  "think_phase env s0 =
     (let i = ls_iterations s0 + 1;
          a = setState Agent_Thinking (ls_agent s0);
          s = s0\<lparr>ls_iterations := i, ls_agent := a\<rparr>
      in if ag_has_provider a
         then let res = chat env i (ls_messages s);
                  s1 = s\<lparr>ls_agent := fold apply_interrupt (in_chat env i) a\<rparr>
              in if \<not> mr_success res
                 then Break (s1\<lparr>ls_agent := setState Agent_Failed (ls_agent s1),
                        ls_result := (ls_result s1)\<lparr>ar_error_message := ''Model error: '' @ mr_error res\<rparr>\<rparr>)
                 else handle_response env (mr_content res) s1
         else handle_response env (think (''Iteration '' @ nat_string i)) s)"

text \<open>Other threads act on the agent while it sleeps; it wakes when it is not paused or is cancelled.\<close>

fun wait_unpaused :: "interrupt list \<Rightarrow> Agent \<Rightarrow> Agent \<times> bool" where
  "wait_unpaused [] a = (a, \<not> (ag_paused a \<and> \<not> ag_cancelled a))"
| "wait_unpaused (x # xs) a =
     (if ag_paused a \<and> \<not> ag_cancelled a then wait_unpaused xs (apply_interrupt x a) else (a, True))"

definition agent_iteration :: "agent_env \<Rightarrow> loop_state \<Rightarrow> loop_state flow" where
  "agent_iteration env s =
     (let a = fold apply_interrupt (at_start env (ls_iterations s)) (ls_agent s)
      in if ag_cancelled a
         then Break (s\<lparr>ls_agent := setState Agent_Cancelled a,
                ls_result := (ls_result s)\<lparr>ar_error_message := ''Task cancelled'', ar_success := False\<rparr>\<rparr>)
         else case wait_unpaused (in_pause env (ls_iterations s)) a of
                (a1, False) \<Rightarrow> Sleep (s\<lparr>ls_agent := a1\<rparr>)
              | (a1, True) \<Rightarrow> think_phase env (s\<lparr>ls_agent := a1\<rparr>))"

text \<open>\<open>while (iterations < max_iterations)\<close>, with the number of iterations left.\<close>

fun agent_loop :: "agent_env \<Rightarrow> nat \<Rightarrow> loop_state \<Rightarrow> loop_state flow" where
  "agent_loop env 0 s = Break s"
| "agent_loop env (Suc left) s =
     (case agent_iteration env s of Next s' \<Rightarrow> agent_loop env left s' | other \<Rightarrow> other)"

text \<open>From the statistics to the end of \<open>executeLoop\<close>.\<close>

definition finish_run :: "agent_env \<Rightarrow> loop_state \<Rightarrow> AgentResult \<times> Agent" where
  "finish_run env s =
     (let res = (ls_result s)\<lparr>ar_execution_time := run_time env\<rparr>;
          a = ls_agent s;
          a1 = a\<lparr>tasks_executed := tasks_executed a + 1, total_iterations := total_iterations a + ls_iterations s,
            total_execution_time_ms := total_execution_time_ms a + run_time env\<rparr>;
          a2 = (if ar_success res then a1\<lparr>tasks_completed := tasks_completed a1 + 1\<rparr>
                else let b = a1\<lparr>tasks_failed := tasks_failed a1 + 1\<rparr>
                     in if ag_state b \<noteq> Agent_Cancelled then setState Agent_Failed b else b);
          a3 = a2\<lparr>ag_current_task := []\<rparr>
      in (res, if ag_state a3 \<noteq> Agent_Failed \<and> ag_state a3 \<noteq> Agent_Cancelled then setState Agent_Idle a3 else a3))"

definition tool_definitions :: "agent_env \<Rightarrow> Agent \<Rightarrow> ToolRegistry \<Rightarrow> ToolDefinition list" where
  "tool_definitions env a r =
     (if ag_has_registry a
      then List.map_filter (\<lambda>name. getToolDefinition (other_tools env) name r)
             (filter (\<lambda>name. allowed_tools (ac_capabilities (ag_config a)) = [] \<or> name \<in> set (allowed_tools (ac_capabilities (ag_config a))))
               (listTools r))
      else [])"

definition first_messages :: "string \<Rightarrow> ToolDefinition list \<Rightarrow> string \<Rightarrow> (string, string) umap \<Rightarrow> Message list" where
  "first_messages prompt defs tsk context =
     [\<lparr>msg_role = ''system'', msg_content =
         prompt @ (if defs = [] then [] else nl @ nl @ formatToolDefinitionsPrompt defs)\<rparr>] @
     (if context = [] then []
      else [\<lparr>msg_role = ''user'', msg_content = ''Context Information:'' @ nl @
              concat (map (\<lambda>(k, v). ''['' @ k @ '']:'' @ nl @ v @ nl @ nl) context)\<rparr>]) @
     [\<lparr>msg_role = ''user'', msg_content = ''Task: '' @ tsk\<rparr>]"

datatype run_outcome = Returned AgentResult | Threw | Never_Returns

end
