(* ===== verification/Agent_Run.thy ===== *)
theory Agent_Run
  imports Agent_Core
begin

text \<open>
  Running agents: \<open>execute\<close> and \<open>executeLoop\<close> of \<open>src/src/agents/agents.cpp\<close>, the six specialised agents of
  \<open>SpecializedAgents.h\<close> and \<open>SpecializedAgents.cpp\<close>, and the class \<open>AgentManager\<close>.

  \<^item> The search for a JSON block with \<open>nlohmann::json\<close> in a reply is a parameter that gives the members the
    code reads; a member is absent, of the wrong type (reading it throws), or a value.
  \<^item> An agent is run by one thread at a time. The random part of a generated id is a parameter.
\<close>

subsection \<open>System prompts\<close>

definition planner_prompt :: string where
  "planner_prompt =
     ''You are the Lead Software Architect & Planner Agent in AIOS.'' @ nl @
     ''Your objective is to decompose a user request into a clear, dependency-ordered execution plan.'' @ nl @
     ''Break down the task into distinct steps assigned to specialized agents:'' @ nl @
     ''- Researcher: Reads files, analyzes symbols and architecture.'' @ nl @
     ''- Coder: Implements changes, edits files, and creates new modules.'' @ nl @
     ''- Tester: Compiles and executes test suites.'' @ nl @
     ''- Reviewer: Evaluates code quality and security.'' @ nl @
     nl @
     ''Output your plan as a structured JSON object in a ```json code block:'' @ nl @
     ''```json'' @ nl @
     ''{'' @ nl @
     ''  \"goal\": \"Summary of goal\",'' @ nl @
     ''  \"steps\": ['' @ nl @
     ''    {'' @ nl @
     ''      \"id\": \"step_1\",'' @ nl @
     ''      \"title\": \"Title of step\",'' @ nl @
     ''      \"description\": \"Details of what to do\",'' @ nl @
     ''      \"assigned_agent_type\": \"Researcher\",'' @ nl @
     ''      \"dependencies\": [],'' @ nl @
     ''      \"acceptance_criteria\": \"How to verify\"'' @ nl @
     ''    },'' @ nl @
     ''    {'' @ nl @
     ''      \"id\": \"step_2\",'' @ nl @
     ''      \"title\": \"Implement feature\",'' @ nl @
     ''      \"description\": \"Code changes needed\",'' @ nl @
     ''      \"assigned_agent_type\": \"Coder\",'' @ nl @
     ''      \"dependencies\": [\"step_1\"],'' @ nl @
     ''      \"acceptance_criteria\": \"Code builds cleanly\"'' @ nl @
     ''    }'' @ nl @
     ''  ]'' @ nl @
     ''}'' @ nl @
     ''```'' @ nl"

definition researcher_prompt :: string where
  "researcher_prompt =
     ''You are the Researcher Agent in AIOS.'' @ nl @
     ''Your job is to thoroughly inspect the codebase, locate relevant files, symbols, definitions, and dependencies.'' @ nl @
     ''You DO NOT modify files or run destructive commands.'' @ nl @
     ''Use read_file, search_files, list_directory, and grep tools to extract exact context.'' @ nl @
     ''Summarize all relevant code structures and findings for the Coder agent.'' @ nl @
     ''When done, output '' @ quoted ''TASK_COMPLETE'' @ '' followed by your detailed architectural findings.'' @ nl"

definition coder_prompt :: string where
  "coder_prompt =
     ''You are the Expert Coder Agent in AIOS.'' @ nl @
     ''Your job is to write production-grade, bug-free, clean code according to requirements and research findings.'' @ nl @
     ''Use the filesystem tool (operation: '' @ quoted ''write'' @ '' or '' @ quoted ''mkdir'' @ '') to create and update files.'' @ nl @
     ''Ensure proper error handling, modern C++ idioms, correct headers, and zero syntax errors.'' @ nl @
     ''When all code changes are written, output '' @ quoted ''TASK_COMPLETE'' @ '' with a summary of modified files.'' @ nl"

definition tester_prompt :: string where
  "tester_prompt =
     ''You are the Tester Agent in AIOS.'' @ nl @
     ''Your job is to build the codebase and run test suites.'' @ nl @
     ''Use the terminal / testing tools to execute build commands and test binaries.'' @ nl @
     ''Parse stdout/stderr to identify test failures, compiler errors, or memory issues.'' @ nl @
     ''Output a clear summary of all passed/failed tests and compiler diagnostics.'' @ nl @
     ''When finished, output '' @ quoted ''TASK_COMPLETE'' @ ''.'' @ nl"

definition reviewer_prompt :: string where
  "reviewer_prompt =
     ''You are the Code Reviewer & Security Auditor Agent in AIOS.'' @ nl @
     ''Your job is to critically review code diffs, verify correctness, adherence to conventions, edge-case coverage, and security vulnerabilities.'' @ nl @
     ''Provide a quality score between 0 and 100, where >= 75 is passing.'' @ nl @
     ''Format your review result in a ```json code block:'' @ nl @
     ''```json'' @ nl @
     ''{'' @ nl @
     ''  \"overall_score\": 85,'' @ nl @
     ''  \"passed\": true,'' @ nl @
     ''  \"critical_issues\": [],'' @ nl @
     ''  \"suggestions\": [\"Add unit tests for edge case X\"],'' @ nl @
     ''  \"comments\": \"Code is well structured and follows modern standards.\"'' @ nl @
     ''}'' @ nl @
     ''```'' @ nl"

definition debugger_prompt :: string where
  "debugger_prompt =
     ''You are the Debugger Agent in AIOS.'' @ nl @
     ''Your job is to analyze compiler diagnostics, failed test logs, assertion crashes, and source code to identify root causes.'' @ nl @
     ''Formulate minimal, surgical patches to fix the issue without introducing side effects.'' @ nl @
     ''Apply the fix using file write/edit tools or output precise correction instructions for the Coder agent.'' @ nl @
     ''When the fix has been applied, output '' @ quoted ''TASK_COMPLETE'' @ ''.'' @ nl"

definition base_prompt :: string where
  "base_prompt =
     ''You are an autonomous AI software engineering agent in the AIOS operating system.'' @ nl @
     ''Assist the user with code analysis, planning, writing, testing, and debugging.''"

fun class_prompt :: "agent_class \<Rightarrow> string" where
  "class_prompt Base_Agent = base_prompt"
| "class_prompt PlannerAgent = planner_prompt"
| "class_prompt ResearcherAgent = researcher_prompt"
| "class_prompt CoderAgent = coder_prompt"
| "class_prompt TesterAgent = tester_prompt"
| "class_prompt ReviewerAgent = reviewer_prompt"
| "class_prompt DebuggerAgent = debugger_prompt"

definition buildSystemPrompt :: "Agent \<Rightarrow> string" where
  "buildSystemPrompt a = (if ac_system_prompt (ag_config a) \<noteq> [] then ac_system_prompt (ag_config a) else class_prompt (ag_class a))"

subsection \<open>Execution\<close>

definition start_loop :: "agent_env \<Rightarrow> string \<Rightarrow> (string, string) umap \<Rightarrow> Agent \<Rightarrow> ToolRegistry \<Rightarrow> loop_state" where
  "start_loop env tsk context a0 r =
     (let a = a0\<lparr>ag_current_task := tsk, ag_cancelled := False, ag_paused := False\<rparr>
      in \<lparr>ls_agent = a, ls_registry = r,
          ls_messages = first_messages (buildSystemPrompt a) (tool_definitions env a r) tsk context,
          ls_output = [], ls_result = empty_result, ls_iterations = 0\<rparr>)"

definition executeLoop :: "agent_env \<Rightarrow> string \<Rightarrow> (string, string) umap \<Rightarrow> Agent \<Rightarrow> ToolRegistry \<Rightarrow> run_outcome \<times> Agent \<times> ToolRegistry" where
  "executeLoop env tsk context a r =
     (case agent_loop env (nat (ac_max_iterations (ag_config a))) (start_loop env tsk context a r) of
        Raise s \<Rightarrow> (Threw, ls_agent s, ls_registry s)
      | Sleep s \<Rightarrow> (Never_Returns, ls_agent s, ls_registry s)
      | Next s \<Rightarrow> (let (res, a') = finish_run env s in (Returned res, a', ls_registry s))
      | Break s \<Rightarrow> (let (res, a') = finish_run env s in (Returned res, a', ls_registry s)))"

definition execute :: "agent_env \<Rightarrow> string \<Rightarrow> (string, string) umap \<Rightarrow> Agent \<Rightarrow> ToolRegistry \<Rightarrow> run_outcome \<times> Agent \<times> ToolRegistry" where
  "execute env tsk context a r =
     (if ag_state a \<noteq> Agent_Idle \<and> ag_state a \<noteq> Agent_Waiting
      then (Returned (empty_result\<lparr>ar_error_message := ''Agent is busy''\<rparr>), a, r)
      else executeLoop env tsk context a r)"

text \<open>\<open>act\<close> of the base class: the first call of the text, run without a permission check.\<close>

definition agent_act :: "agent_env \<Rightarrow> nat \<Rightarrow> string \<Rightarrow> Agent \<Rightarrow> ToolRegistry \<Rightarrow> string option \<times> ToolRegistry" where
  "agent_act env d action a r =
     (case parseToolCalls env action of
        [] \<Rightarrow> (Some ''No tool call parsed'', r)
      | tc # _ \<Rightarrow>
          if ag_has_registry a
          then (case executeTool (other_tools env) d (tc_tool_name tc) (tc_parameters tc) r of
                  (None, r1) \<Rightarrow> (None, r1)
                | (Some res, r1) \<Rightarrow> (Some (if tr_success res then tr_output res else ''Error: '' @ tr_error_message res), r1))
          else (Some (''Executed tool: '' @ tc_tool_name tc), r))"

subsection \<open>The specialised agents\<close>

definition make_planner :: "AgentConfig \<Rightarrow> Agent" where
  "make_planner cfg = new_Agent PlannerAgent (cfg\<lparr>ac_type := Planner, ac_capabilities := (ac_capabilities cfg)
     \<lparr>can_read_files := True, can_write_files := False, can_execute_commands := False,
      allowed_tools := [''filesystem'', ''search'']\<rparr>\<rparr>)"

definition make_researcher :: "AgentConfig \<Rightarrow> Agent" where
  "make_researcher cfg = new_Agent ResearcherAgent (cfg\<lparr>ac_type := Researcher, ac_capabilities := (ac_capabilities cfg)
     \<lparr>can_read_files := True, can_write_files := False, can_execute_commands := False, can_access_git := True,
      allowed_tools := [''filesystem'', ''search'', ''lsp'', ''context'']\<rparr>\<rparr>)"

definition make_coder :: "AgentConfig \<Rightarrow> Agent" where
  "make_coder cfg = new_Agent CoderAgent (cfg\<lparr>ac_type := Coder, ac_capabilities := (ac_capabilities cfg)
     \<lparr>can_read_files := True, can_write_files := True, can_execute_commands := False, can_access_git := True,
      allowed_tools := [''filesystem'', ''search'']\<rparr>\<rparr>)"

definition make_tester :: "AgentConfig \<Rightarrow> Agent" where
  "make_tester cfg = new_Agent TesterAgent (cfg\<lparr>ac_type := Tester, ac_capabilities := (ac_capabilities cfg)
     \<lparr>can_read_files := True, can_write_files := False, can_execute_commands := True, can_run_tests := True,
      allowed_tools := [''terminal'', ''testing'', ''filesystem'']\<rparr>\<rparr>)"

definition make_reviewer :: "AgentConfig \<Rightarrow> Agent" where
  "make_reviewer cfg = new_Agent ReviewerAgent (cfg\<lparr>ac_type := Reviewer, ac_capabilities := (ac_capabilities cfg)
     \<lparr>can_read_files := True, can_write_files := False, can_execute_commands := False, can_access_git := True,
      allowed_tools := [''filesystem'', ''git'', ''search'']\<rparr>\<rparr>)"

definition make_debugger :: "AgentConfig \<Rightarrow> Agent" where
  "make_debugger cfg = new_Agent DebuggerAgent (cfg\<lparr>ac_type := Debugger, ac_capabilities := (ac_capabilities cfg)
     \<lparr>can_read_files := True, can_write_files := True, can_execute_commands := True,
      allowed_tools := [''filesystem'', ''terminal'', ''search'']\<rparr>\<rparr>)"

text \<open>\<open>j.value(k, d)\<close> and arrays of strings.\<close>

datatype 'a member = Absent | Bad | Val 'a

fun member_or :: "'a \<Rightarrow> 'a member \<Rightarrow> 'a option" where
  "member_or d Absent = Some d"
| "member_or d Bad = None"
| "member_or d (Val v) = Some v"

text \<open>Pushed one by one until one is not a string; the flag tells that reading threw.\<close>

fun push_strings :: "string option list \<Rightarrow> string list \<times> bool" where
  "push_strings [] = ([], False)"
| "push_strings (None # xs) = ([], True)"
| "push_strings (Some s # xs) = (case push_strings xs of (ys, t) \<Rightarrow> (s # ys, t))"

record AgentPlanStep =
  ps_id :: string
  ps_title :: string
  ps_description :: string
  ps_agent_type :: string
  ps_dependencies :: "string list"
  ps_acceptance_criteria :: string

record AgentPlanResult =
  pr_goal :: string
  pr_steps :: "AgentPlanStep list"
  pr_is_valid :: bool
  pr_raw_plan :: string

record step_json =
  sj_id :: "string member"
  sj_title :: "string member"
  sj_description :: "string member"
  sj_agent_type :: "string member"
  sj_criteria :: "string member"
  sj_dependencies :: "string option list option"

record plan_json =
  pj_goal :: "string option"
  pj_steps :: "step_json list option"

definition read_step :: "nat \<Rightarrow> step_json \<Rightarrow> AgentPlanStep option" where
  "read_step n j =
     (case (member_or (''step_'' @ nat_string (n + 1)) (sj_id j), member_or ''Task Step'' (sj_title j),
            member_or [] (sj_description j), member_or ''Coder'' (sj_agent_type j), member_or [] (sj_criteria j),
            push_strings (case sj_dependencies j of None \<Rightarrow> [] | Some ds \<Rightarrow> ds)) of
        (Some i, Some t, Some d, Some g, Some c, (deps, False)) \<Rightarrow>
          Some \<lparr>ps_id = i, ps_title = t, ps_description = d, ps_agent_type = g, ps_dependencies = deps, ps_acceptance_criteria = c\<rparr>
      | _ \<Rightarrow> None)"

fun read_steps :: "nat \<Rightarrow> step_json list \<Rightarrow> AgentPlanStep list option" where
  "read_steps n [] = Some []"
| "read_steps n (j # js) =
     (case read_step n j of None \<Rightarrow> None | Some s \<Rightarrow> map_option (Cons s) (read_steps (Suc n) js))"

definition default_steps :: "string \<Rightarrow> AgentPlanStep list" where
  "default_steps tsk =
     [\<lparr>ps_id = ''step_1'', ps_title = ''Research codebase'', ps_description = ''Investigate files and symbols'',
       ps_agent_type = ''Researcher'', ps_dependencies = [], ps_acceptance_criteria = ''Context gathered''\<rparr>,
      \<lparr>ps_id = ''step_2'', ps_title = ''Implement changes'', ps_description = tsk,
       ps_agent_type = ''Coder'', ps_dependencies = [''step_1''], ps_acceptance_criteria = ''Code written''\<rparr>,
      \<lparr>ps_id = ''step_3'', ps_title = ''Verify tests'', ps_description = ''Run build and test suite'',
       ps_agent_type = ''Tester'', ps_dependencies = [''step_2''], ps_acceptance_criteria = ''Tests pass''\<rparr>,
      \<lparr>ps_id = ''step_4'', ps_title = ''Code review'', ps_description = ''Audit diff for quality and bugs'',
       ps_agent_type = ''Reviewer'', ps_dependencies = [''step_3''], ps_acceptance_criteria = ''Review score >= 75''\<rparr>]"

text \<open>The \<open>try\<close> block; \<open>None\<close>: the reply has no JSON that parses.\<close>

definition read_plan :: "string \<Rightarrow> plan_json option \<Rightarrow> AgentPlanResult \<Rightarrow> AgentPlanResult" where
  "read_plan tsk parsed plan =
     (case parsed of
        None \<Rightarrow> plan\<lparr>pr_steps := default_steps tsk, pr_is_valid := True\<rparr>
      | Some j \<Rightarrow>
          (let p1 = (case pj_goal j of Some g \<Rightarrow> plan\<lparr>pr_goal := g\<rparr> | None \<Rightarrow> plan)
           in case pj_steps j of
                None \<Rightarrow> p1
              | Some js \<Rightarrow>
                  (case read_steps 0 js of
                     None \<Rightarrow> p1\<lparr>pr_steps := default_steps tsk, pr_is_valid := True\<rparr>
                   | Some ss \<Rightarrow> p1\<lparr>pr_steps := ss, pr_is_valid := (ss \<noteq> [])\<rparr>)))"

definition generatePlan :: "agent_env \<Rightarrow> (string \<Rightarrow> plan_json option) \<Rightarrow> string \<Rightarrow> (string, string) umap \<Rightarrow> Agent \<Rightarrow> ToolRegistry \<Rightarrow>
    AgentPlanResult option \<times> Agent \<times> ToolRegistry" where
  "generatePlan env parse tsk context a r =
     (case execute env (''Create an execution plan for: '' @ tsk) context a r of
        (Returned res, a', r') \<Rightarrow>
          (let plan = \<lparr>pr_goal = tsk, pr_steps = [], pr_is_valid = False, pr_raw_plan = ar_content res\<rparr>
           in (Some (if ar_success res then read_plan tsk (parse (ar_content res)) plan else plan), a', r'))
      | (_, a', r') \<Rightarrow> (None, a', r'))"

record ReviewScore =
  rv_overall_score :: int
  rv_passed :: bool
  rv_critical_issues :: "string list"
  rv_suggestions :: "string list"
  rv_comments :: string

definition zero_review :: ReviewScore where
  "zero_review = \<lparr>rv_overall_score = 0, rv_passed = False, rv_critical_issues = [], rv_suggestions = [], rv_comments = []\<rparr>"

record review_json =
  rj_score :: "int member"
  rj_passed :: "bool member"
  rj_comments :: "string member"
  rj_critical_issues :: "string option list option"
  rj_suggestions :: "string option list option"

text \<open>The \<open>try\<close> block; the flag tells that it threw.\<close>

definition read_review :: "string \<Rightarrow> review_json option \<Rightarrow> ReviewScore \<times> bool" where
  "read_review content parsed =
     (case parsed of
        None \<Rightarrow> (zero_review, True)
      | Some j \<Rightarrow>
          (case member_or 80 (rj_score j) of
             None \<Rightarrow> (zero_review, True)
           | Some n \<Rightarrow>
               (case (member_or (n \<ge> 75) (rj_passed j), member_or content (rj_comments j)) of
                  (Some p, Some c) \<Rightarrow>
                    (let (crit, t1) = push_strings (case rj_critical_issues j of None \<Rightarrow> [] | Some xs \<Rightarrow> xs);
                         (sugg, t2) = (if t1 then ([], True) else push_strings (case rj_suggestions j of None \<Rightarrow> [] | Some xs \<Rightarrow> xs))
                     in (\<lparr>rv_overall_score = n, rv_passed = p, rv_critical_issues = crit, rv_suggestions = sugg, rv_comments = c\<rparr>, t2))
                | _ \<Rightarrow> (zero_review, True))))"

definition review_of :: "string \<Rightarrow> review_json option \<Rightarrow> ReviewScore" where
  "review_of content parsed =
     (case read_review content parsed of
        (s, False) \<Rightarrow> s
      | (s, True) \<Rightarrow>
          (let n = (if contains content ''error'' \<or> contains content ''FAIL'' then 50 else 85)
           in s\<lparr>rv_overall_score := n, rv_passed := (n \<ge> 75), rv_comments := content\<rparr>))"

definition evaluateChanges :: "agent_env \<Rightarrow> (string \<Rightarrow> review_json option) \<Rightarrow> string \<Rightarrow> string \<Rightarrow> string \<Rightarrow> Agent \<Rightarrow> ToolRegistry \<Rightarrow>
    ReviewScore option \<times> Agent \<times> ToolRegistry" where
  "evaluateChanges env parse original_task code test_results a r =
     (case execute env (''Review the following code changes for task: '' @ original_task @ nl @ nl @ ''Code / Diff:'' @ nl @ code @ nl @ nl @
              ''Test Results:'' @ nl @ test_results) [] a r of
        (Returned res, a', r') \<Rightarrow>
          (Some (if ar_success res then review_of (ar_content res) (parse (ar_content res))
                 else zero_review\<lparr>rv_comments := ''Review execution failed: '' @ ar_error_message res\<rparr>), a', r')
      | (_, a', r') \<Rightarrow> (None, a', r'))"

definition diagnoseAndFix :: "agent_env \<Rightarrow> string \<Rightarrow> string \<Rightarrow> string \<Rightarrow> Agent \<Rightarrow> ToolRegistry \<Rightarrow> string option \<times> Agent \<times> ToolRegistry" where
  "diagnoseAndFix env original_task error_logs code a r =
     (case execute env (''Debug and fix error for task: '' @ original_task @ nl @ nl @ ''Error Diagnostics / Test Failures:'' @ nl @ error_logs @
              nl @ nl @ ''Relevant Code:'' @ nl @ code) [] a r of
        (Returned res, a', r') \<Rightarrow> (Some (ar_content res), a', r')
      | (_, a', r') \<Rightarrow> (None, a', r'))"

subsection \<open>The manager\<close>

record AgentManager =
  am_agents :: "(string, Agent) umap"
  am_factories :: "(AgentType, AgentConfig \<Rightarrow> Agent) umap"
  am_has_provider :: bool
  am_has_registry :: bool
  am_total_created :: nat
  am_total_removed :: nat
  am_total_tasks_executed :: nat
  am_total_tasks_completed :: nat
  am_total_tasks_failed :: nat
  am_total_iterations :: real
  am_total_execution_time_ms :: real

definition new_AgentManager :: AgentManager where
  "new_AgentManager = \<lparr>am_agents = [], am_factories = [], am_has_provider = False, am_has_registry = False, am_total_created = 0,
     am_total_removed = 0, am_total_tasks_executed = 0, am_total_tasks_completed = 0, am_total_tasks_failed = 0,
     am_total_iterations = 0, am_total_execution_time_ms = 0\<rparr>"

definition registerAgentType :: "AgentType \<Rightarrow> (AgentConfig \<Rightarrow> Agent) \<Rightarrow> AgentManager \<Rightarrow> AgentManager" where
  "registerAgentType t f m = m\<lparr>am_factories := AList.update t f (am_factories m)\<rparr>"

definition initialize_agents_types :: "AgentManager \<Rightarrow> AgentManager" where
  "initialize_agents_types m = fold (\<lambda>(t, f). registerAgentType t f)
     [(Planner, make_planner), (Researcher, make_researcher), (Coder, make_coder), (Tester, make_tester),
      (Reviewer, make_reviewer), (Debugger, make_debugger), (SecurityAuditor, make_reviewer),
      (DocumentationWriter, make_coder), (Refactorer, make_coder), (Generic, new_Agent Base_Agent)] m"

definition stop_agents :: "AgentManager \<Rightarrow> AgentManager" where
  "stop_agents m = m\<lparr>am_agents := map (\<lambda>(i, a). (i, agent_cancel a)) (am_agents m)\<rparr>"

definition shutdown_agents :: "AgentManager \<Rightarrow> AgentManager" where
  "shutdown_agents m = (stop_agents m)\<lparr>am_agents := [], am_factories := []\<rparr>"

definition provide_model :: "bool \<Rightarrow> AgentManager \<Rightarrow> AgentManager" where
  "provide_model b m = m\<lparr>am_has_provider := b, am_agents := map (\<lambda>(i, a). (i, a\<lparr>ag_has_provider := b\<rparr>)) (am_agents m)\<rparr>"

definition provide_registry :: "bool \<Rightarrow> AgentManager \<Rightarrow> AgentManager" where
  "provide_registry b m = m\<lparr>am_has_registry := b, am_agents := map (\<lambda>(i, a). (i, a\<lparr>ag_has_registry := b\<rparr>)) (am_agents m)\<rparr>"

definition createAgent :: "string \<Rightarrow> AgentConfig \<Rightarrow> AgentManager \<Rightarrow> string \<times> AgentManager" where
  "createAgent random_hex cfg m =
     (let agent_id = (if ac_id cfg = [] then ''agent_'' @ random_hex else ac_id cfg)
      in if map_of (am_agents m) agent_id \<noteq> None then ([], m)
         else
           let a = (case map_of (am_factories m) (ac_type cfg) of Some f \<Rightarrow> f cfg | None \<Rightarrow> new_Agent Base_Agent cfg);
               a1 = (if am_has_provider m then a\<lparr>ag_has_provider := True\<rparr> else a);
               a2 = (if am_has_registry m then a1\<lparr>ag_has_registry := True\<rparr> else a1)
           in (agent_id, m\<lparr>am_agents := AList.update agent_id a2 (am_agents m), am_total_created := am_total_created m + 1\<rparr>))"

definition removeAgent :: "string \<Rightarrow> AgentManager \<Rightarrow> bool \<times> AgentManager" where
  "removeAgent agent_id m =
     (case map_of (am_agents m) agent_id of
        None \<Rightarrow> (False, m)
      | Some a \<Rightarrow> (True, m\<lparr>am_agents := AList.delete agent_id (am_agents m), am_total_removed := am_total_removed m + 1\<rparr>))"

definition listAgents :: "AgentManager \<Rightarrow> string list" where
  "listAgents m = um_keys (am_agents m)"

definition executeTask :: "agent_env \<Rightarrow> string \<Rightarrow> string \<Rightarrow> (string, string) umap \<Rightarrow> AgentManager \<Rightarrow> ToolRegistry \<Rightarrow>
    run_outcome \<times> AgentManager \<times> ToolRegistry" where
  "executeTask env agent_id tsk context m r =
     (case map_of (am_agents m) agent_id of
        None \<Rightarrow> (Returned (empty_result\<lparr>ar_error_message := ''Agent not found: '' @ agent_id\<rparr>), m, r)
      | Some a \<Rightarrow>
          (case execute env tsk context a r of
             (out, a', r') \<Rightarrow> (out, m\<lparr>am_agents := AList.map_entry agent_id (\<lambda>_. a') (am_agents m)\<rparr>, r')))"

text \<open>The results by id; \<open>None\<close> when a call does not return.\<close>

fun broadcastTask :: "(nat \<Rightarrow> agent_env) \<Rightarrow> string list \<Rightarrow> string \<Rightarrow> (string, string) umap \<Rightarrow> AgentManager \<Rightarrow> ToolRegistry \<Rightarrow>
    (string, AgentResult) umap \<Rightarrow> (string, AgentResult) umap option \<times> AgentManager \<times> ToolRegistry" where
  "broadcastTask env [] tsk context m r results = (Some results, m, r)"
| "broadcastTask env (i # is) tsk context m r results =
     (case executeTask (env (length is)) i tsk context m r of
        (Returned res, m', r') \<Rightarrow> broadcastTask env is tsk context m' r' (AList.update i res results)
      | (_, m', r') \<Rightarrow> (None, m', r'))"

record AgentStats =
  as_total_tasks :: nat
  as_completed_tasks :: nat
  as_failed_tasks :: nat
  as_cancelled_tasks :: nat
  as_average_iterations :: real
  as_average_execution_time_ms :: real

definition agent_stats :: "AgentManager \<Rightarrow> AgentStats" where
  "agent_stats m =
     (let n = am_total_tasks_executed m
      in \<lparr>as_total_tasks = n, as_completed_tasks = am_total_tasks_completed m, as_failed_tasks = am_total_tasks_failed m,
          as_cancelled_tasks = 0, as_average_iterations = (if n > 0 then am_total_iterations m / real n else 0),
          as_average_execution_time_ms = (if n > 0 then am_total_execution_time_ms m / real n else 0)\<rparr>)"

end
