(* ===== verification/Orchestrator.thy ===== *)
theory Orchestrator
  imports Agent_Run
begin

text \<open>
  The orchestrator of the six agents: \<open>src/src/agents/Orchestrator.h\<close> and \<open>Orchestrator.cpp\<close>.

  \<^item> \<open>runWorkflow\<close> is planning, research, checkpoint, coding, the loop of tests and repairs, rollback, review. It
    passes the orchestrator with its agents and the shared tool registry through every call.
  \<^item> A workflow returns nothing (\<open>None\<close>) when an agent's run throws or sleeps for ever.
  \<^item> \<open>cancel\<close> of another thread takes effect where the workflow looks at its flag: \<open>wf_cancel k\<close> tells whether
    it comes before the \<open>k\<close>-th look. What happens to an agent while it runs is in its own environment.
  \<^item> The progress callback is recorded in \<open>oc_progress\<close>; the event on the bus is left out.
\<close>

subsection \<open>Data\<close>

record OrchestratorConfig =
  max_repair_cycles :: int
  review_pass_score :: int
  auto_git_checkpoint :: bool
  rollback_on_unrecoverable_failure :: bool
  default_model_name :: string

definition default_orchestrator_config :: OrchestratorConfig where
  "default_orchestrator_config = \<lparr>max_repair_cycles = 3, review_pass_score = 75, auto_git_checkpoint = True,
     rollback_on_unrecoverable_failure = True, default_model_name = ''local-small-llm''\<rparr>"

record WorkflowResult =
  wr_success :: bool
  wr_task :: string
  wr_plan :: AgentPlanResult
  wr_summary :: string
  wr_final_diff :: string
  wr_review :: ReviewScore
  wr_errors :: "string list"
  wr_total_time :: nat
  wr_total_iterations :: nat
  wr_repair_cycles_used :: nat

datatype agent_role = Role_Planner | Role_Researcher | Role_Coder | Role_Tester | Role_Reviewer | Role_Debugger

record Orchestrator =
  oc_config :: OrchestratorConfig
  oc_has_provider :: bool
  oc_has_registry :: bool
  oc_agents :: "(agent_role \<Rightarrow> Agent) option"
  oc_cancelled :: bool
  oc_progress :: "(string \<times> string \<times> string \<times> string) list"

definition new_Orchestrator :: "OrchestratorConfig \<Rightarrow> Orchestrator" where
  "new_Orchestrator cfg = \<lparr>oc_config = cfg, oc_has_provider = False, oc_has_registry = False, oc_agents = None,
     oc_cancelled = False, oc_progress = []\<rparr>"

record workflow_env =
  wf_agent :: "nat \<Rightarrow> agent_env"
  wf_cancel :: "nat \<Rightarrow> bool"
  wf_parse_plan :: "string \<Rightarrow> plan_json option"
  wf_parse_review :: "string \<Rightarrow> review_json option"
  wf_now :: string
  wf_time :: nat
  wf_others :: "nat \<Rightarrow> other_tool"
  wf_call_time :: "nat \<Rightarrow> nat"

subsection \<open>Services and agents\<close>

definition map_agents :: "(Agent \<Rightarrow> Agent) \<Rightarrow> Orchestrator \<Rightarrow> Orchestrator" where
  "map_agents f oc = oc\<lparr>oc_agents := map_option (\<lambda>ags x. f (ags x)) (oc_agents oc)\<rparr>"

definition setModelProvider :: "bool \<Rightarrow> Orchestrator \<Rightarrow> Orchestrator" where
  "setModelProvider b oc = map_agents (\<lambda>a. a\<lparr>ag_has_provider := b\<rparr>) (oc\<lparr>oc_has_provider := b\<rparr>)"

definition setToolRegistry :: "bool \<Rightarrow> Orchestrator \<Rightarrow> Orchestrator" where
  "setToolRegistry b oc = map_agents (\<lambda>a. a\<lparr>ag_has_registry := b\<rparr>) (oc\<lparr>oc_has_registry := b\<rparr>)"

definition cancel_workflow :: "Orchestrator \<Rightarrow> Orchestrator" where
  "cancel_workflow oc = map_agents agent_cancel (oc\<lparr>oc_cancelled := True\<rparr>)"

definition emitProgress :: "string \<Rightarrow> string \<Rightarrow> string \<Rightarrow> string \<Rightarrow> Orchestrator \<Rightarrow> Orchestrator" where
  "emitProgress step agent status details oc = oc\<lparr>oc_progress := oc_progress oc @ [(step, agent, status, details)]\<rparr>"

fun first_agent :: "AgentConfig \<Rightarrow> agent_role \<Rightarrow> Agent" where
  "first_agent cfg Role_Planner = make_planner (cfg\<lparr>ac_id := ''planner_01'', ac_name := ''Lead Planner''\<rparr>)"
| "first_agent cfg Role_Researcher = make_researcher (cfg\<lparr>ac_id := ''researcher_01'', ac_name := ''Codebase Researcher''\<rparr>)"
| "first_agent cfg Role_Coder = make_coder (cfg\<lparr>ac_id := ''coder_01'', ac_name := ''Core Coder''\<rparr>)"
| "first_agent cfg Role_Tester = make_tester (cfg\<lparr>ac_id := ''tester_01'', ac_name := ''Quality Tester''\<rparr>)"
| "first_agent cfg Role_Reviewer = make_reviewer (cfg\<lparr>ac_id := ''reviewer_01'', ac_name := ''Code Reviewer''\<rparr>)"
| "first_agent cfg Role_Debugger = make_debugger (cfg\<lparr>ac_id := ''debugger_01'', ac_name := ''Diagnostic Debugger''\<rparr>)"

definition initializeAgents :: "Orchestrator \<Rightarrow> Orchestrator" where
  "initializeAgents oc =
     (case oc_agents oc of
        Some ags \<Rightarrow> oc
      | None \<Rightarrow>
          oc\<lparr>oc_agents := Some (\<lambda>x. (first_agent (default_config\<lparr>ac_model_name := default_model_name (oc_config oc)\<rparr>) x)
                \<lparr>ag_has_provider := oc_has_provider oc, ag_has_registry := oc_has_registry oc\<rparr>)\<rparr>)"

definition agent_of :: "agent_role \<Rightarrow> Orchestrator \<Rightarrow> Agent" where
  "agent_of x oc = the (oc_agents oc) x"

definition put_agent :: "agent_role \<Rightarrow> Agent \<Rightarrow> Orchestrator \<Rightarrow> Orchestrator" where
  "put_agent x a oc = oc\<lparr>oc_agents := map_option (\<lambda>ags. ags(x := a)) (oc_agents oc)\<rparr>"

definition run_role :: "agent_env \<Rightarrow> agent_role \<Rightarrow> string \<Rightarrow> (string, string) umap \<Rightarrow> Orchestrator \<Rightarrow> ToolRegistry \<Rightarrow>
    run_outcome \<times> Orchestrator \<times> ToolRegistry" where
  "run_role env x tsk context oc r =
     (case execute env tsk context (agent_of x oc) r of (out, a, r') \<Rightarrow> (out, put_agent x a oc, r'))"

subsection \<open>Checkpoints\<close>

definition createGitCheckpoint :: "workflow_env \<Rightarrow> Orchestrator \<Rightarrow> ToolRegistry \<Rightarrow> string option \<times> ToolRegistry" where
  "createGitCheckpoint env oc r =
     (if \<not> auto_git_checkpoint (oc_config oc) \<or> \<not> oc_has_registry oc then (Some [], r)
      else let i = ''checkpoint_'' @ wf_now env
           in case executeTool (wf_others env) (wf_call_time env 0) ''git'' [(''operation'', ''stash''), (''message'', i)] r of
                (None, r') \<Rightarrow> (None, r')
              | (Some _, r') \<Rightarrow> (Some i, r'))"

definition rollbackGitCheckpoint :: "workflow_env \<Rightarrow> string \<Rightarrow> Orchestrator \<Rightarrow> ToolRegistry \<Rightarrow> bool option \<times> Orchestrator \<times> ToolRegistry" where
  "rollbackGitCheckpoint env ckpt oc r =
     (if ckpt = [] \<or> \<not> oc_has_registry oc then (Some False, oc, r)
      else let oc1 = emitProgress ''Rollback'' ''Orchestrator'' ''IN_PROGRESS'' (''Restoring git checkpoint '' @ ckpt) oc
           in case executeTool (wf_others env) (wf_call_time env 1) ''git'' [(''operation'', ''stash''), (''subcommand'', ''pop'')] r of
                (res, r') \<Rightarrow> (map_option tr_success res, oc1, r'))"

subsection \<open>Tests and repairs\<close>

record repair_state =
  rp_orch :: Orchestrator
  rp_registry :: ToolRegistry
  rp_iterations :: nat
  rp_cycle :: nat
  rp_cycles_used :: nat
  rp_errors :: "string list"
  rp_last_output :: string
  rp_passed :: bool
  rp_call :: nat

definition look_cancelled :: "workflow_env \<Rightarrow> nat \<Rightarrow> Orchestrator \<Rightarrow> Orchestrator" where
  "look_cancelled env k oc = (if wf_cancel env k then cancel_workflow oc else oc)"

definition tests_ok :: "AgentResult \<Rightarrow> bool" where
  "tests_ok res \<longleftrightarrow> ar_success res \<and> \<not> contains (ar_content res) ''FAIL'' \<and> \<not> contains (ar_content res) ''Error:''"

text \<open>Debugger and coder after a failed test. The flag tells that both returned.\<close>

definition repair :: "workflow_env \<Rightarrow> string \<Rightarrow> (string, string) umap \<Rightarrow> string \<Rightarrow> string \<Rightarrow> repair_state \<Rightarrow> bool \<times> repair_state" where
  "repair env tsk context code failure s =
     (let oc1 = emitProgress ''Debugging'' ''DebuggerAgent'' ''STARTED''
            (''Analyzing failure diagnostics (Cycle '' @ nat_string (rp_cycle s) @ '')...'') (rp_orch s)
      in case diagnoseAndFix (wf_agent env (rp_call s)) tsk failure code (agent_of Role_Debugger oc1) (rp_registry s) of
           (None, a, r1) \<Rightarrow> (False, s\<lparr>rp_orch := put_agent Role_Debugger a oc1, rp_registry := r1\<rparr>)
         | (Some fix_text, a, r1) \<Rightarrow>
             (let oc2 = emitProgress ''Coding'' ''CoderAgent'' ''STARTED'' ''Applying patch from Debugger...'' (put_agent Role_Debugger a oc1)
              in case run_role (wf_agent env (rp_call s + 1)) Role_Coder (''Apply patch to resolve failure: '' @ fix_text)
                        (AList.update ''last_errors'' failure (AList.update ''debug_fix'' fix_text context)) oc2 r1 of
                   (out, oc3, r2) \<Rightarrow>
                     ((case out of Returned _ \<Rightarrow> True | _ \<Rightarrow> False),
                      s\<lparr>rp_orch := oc3, rp_registry := r2, rp_call := rp_call s + 2\<rparr>)))"

text \<open>One run of the tests: the loop goes on, is left, or is abandoned.\<close>

datatype cycle_end = Again repair_state | Leave repair_state | Abandon repair_state

definition test_cycle :: "workflow_env \<Rightarrow> string \<Rightarrow> (string, string) umap \<Rightarrow> string \<Rightarrow> repair_state \<Rightarrow> cycle_end" where
  "test_cycle env tsk context code s =
     (let oc1 = emitProgress ''Testing'' ''TesterAgent'' ''STARTED''
            (''Running test and build validation (Cycle '' @ nat_string (rp_cycle s) @ '')...'') (rp_orch s)
      in case run_role (wf_agent env (rp_call s)) Role_Tester ''Run build and test suite for recent changes'' context oc1 (rp_registry s) of
           (Returned res, oc2, r1) \<Rightarrow>
             (let s1 = s\<lparr>rp_orch := oc2, rp_registry := r1, rp_iterations := rp_iterations s + ar_iterations_used res,
                     rp_last_output := ar_content res, rp_call := rp_call s + 1\<rparr>
              in if tests_ok res
                 then Leave (s1\<lparr>rp_passed := True,
                        rp_orch := emitProgress ''Testing'' ''TesterAgent'' ''COMPLETED'' ''All tests and builds passed'' oc2\<rparr>)
                 else
                   let c = rp_cycle s + 1; s2 = s1\<lparr>rp_cycle := c, rp_cycles_used := c\<rparr>; limit = max_repair_cycles (oc_config oc2)
                   in if int c > limit
                      then Leave (s2\<lparr>rp_orch := emitProgress ''Testing'' ''TesterAgent'' ''FAILED'' ''Max repair cycles exceeded'' oc2,
                             rp_errors := rp_errors s2 @ [''Tests failed after '' @ int_string limit @ '' repair cycles: '' @ ar_content res]\<rparr>)
                      else case repair env tsk context code (ar_content res) s2 of
                             (True, s3) \<Rightarrow> Again s3
                           | (False, s3) \<Rightarrow> Abandon s3)
         | (_, oc2, r1) \<Rightarrow> Abandon (s\<lparr>rp_orch := oc2, rp_registry := r1\<rparr>))"

lemma orch_fields [simp]:
  "oc_config (emitProgress p q u v oc) = oc_config oc"
  "oc_agents (emitProgress p q u v oc) = oc_agents oc"
  "oc_cancelled (emitProgress p q u v oc) = oc_cancelled oc"
  "oc_config (put_agent x a oc) = oc_config oc"
  "oc_cancelled (put_agent x a oc) = oc_cancelled oc"
  by (simp_all add: emitProgress_def put_agent_def)

lemma run_role_fields:
  "run_role env x tsk context oc r = (out, oc', r') \<Longrightarrow> oc_config oc' = oc_config oc \<and> oc_cancelled oc' = oc_cancelled oc"
  by (auto simp: run_role_def split: prod.splits)

lemma repair_fields:
  "repair env tsk context code failure s = (ok, s') \<Longrightarrow>
     rp_cycle s' = rp_cycle s \<and> oc_config (rp_orch s') = oc_config (rp_orch s)"
  by (auto simp: repair_def Let_def dest: run_role_fields split: prod.splits option.splits)

lemma test_cycle_fields:
  "test_cycle env tsk context code s = Again s' \<Longrightarrow>
     rp_cycle s' = rp_cycle s + 1 \<and> oc_config (rp_orch s') = oc_config (rp_orch s) \<and>
     int (rp_cycle s') \<le> max_repair_cycles (oc_config (rp_orch s'))"
  unfolding test_cycle_def Let_def
  by (clarsimp split: prod.splits run_outcome.splits if_splits bool.splits) (drule repair_fields, drule run_role_fields, simp)+

lemma look_cancelled_fields [simp]:
  "oc_config (look_cancelled env k oc) = oc_config oc"
  by (simp add: look_cancelled_def cancel_workflow_def map_agents_def)

function repair_loop :: "workflow_env \<Rightarrow> string \<Rightarrow> (string, string) umap \<Rightarrow> string \<Rightarrow> repair_state \<Rightarrow> bool \<times> repair_state" where
  "repair_loop env tsk context code s0 =
     (let s = s0\<lparr>rp_orch := look_cancelled env (4 + rp_cycle s0) (rp_orch s0)\<rparr>
      in if int (rp_cycle s0) \<le> max_repair_cycles (oc_config (rp_orch s0)) \<and> \<not> oc_cancelled (rp_orch s)
         then (case test_cycle env tsk context code s of
                 Again s' \<Rightarrow> repair_loop env tsk context code s'
               | Leave s' \<Rightarrow> (True, s')
               | Abandon s' \<Rightarrow> (False, s'))
         else (True, s))"
  by pat_completeness auto
termination
  by (relation "measure (\<lambda>(env, tsk, context, code, s). nat (max_repair_cycles (oc_config (rp_orch s)) + 1 - int (rp_cycle s)))")
    (auto dest!: test_cycle_fields)

declare repair_loop.simps [simp del]

subsection \<open>The workflow\<close>

definition empty_plan :: AgentPlanResult where
  "empty_plan = \<lparr>pr_goal = [], pr_steps = [], pr_is_valid = False, pr_raw_plan = []\<rparr>"

definition start_result :: "string \<Rightarrow> WorkflowResult" where
  "start_result tsk = \<lparr>wr_success = False, wr_task = tsk, wr_plan = empty_plan, wr_summary = [], wr_final_diff = [], wr_review = zero_review,
     wr_errors = [], wr_total_time = 0, wr_total_iterations = 0, wr_repair_cycles_used = 0\<rparr>"

definition add_error :: "string \<Rightarrow> WorkflowResult \<Rightarrow> WorkflowResult" where
  "add_error e w = w\<lparr>wr_errors := wr_errors w @ [e]\<rparr>"

type_synonym workflow_end = "WorkflowResult option \<times> Orchestrator \<times> ToolRegistry"

text \<open>Rollback, review and the final result.\<close>

definition finish_workflow :: "workflow_env \<Rightarrow> string \<Rightarrow> string \<Rightarrow> string \<Rightarrow> WorkflowResult \<Rightarrow> repair_state \<Rightarrow> workflow_end" where
  "finish_workflow env tsk code ckpt w s =
     (let w1 = w\<lparr>wr_errors := wr_errors w @ rp_errors s, wr_total_iterations := wr_total_iterations w + rp_iterations s,
            wr_repair_cycles_used := rp_cycles_used s\<rparr>;
          (rolled, oc1, r1) =
            (if \<not> rp_passed s \<and> rollback_on_unrecoverable_failure (oc_config (rp_orch s)) \<and> ckpt \<noteq> []
             then rollbackGitCheckpoint env ckpt (rp_orch s) (rp_registry s)
             else (Some True, rp_orch s, rp_registry s))
      in case rolled of
           None \<Rightarrow> (None, oc1, r1)
         | Some _ \<Rightarrow>
             (let oc2 = look_cancelled env 3 oc1;
                  (reviewed, oc3, r2) =
                    (if oc_cancelled oc2 then (Some (wr_review w1), oc2, r1)
                     else
                       let oc' = emitProgress ''Review'' ''ReviewerAgent'' ''STARTED'' ''Auditing code changes and diff...'' oc2
                       in case evaluateChanges (wf_agent env (rp_call s)) (wf_parse_review env) tsk code (rp_last_output s)
                                 (agent_of Role_Reviewer oc') r1 of
                            (None, a, r') \<Rightarrow> (None, put_agent Role_Reviewer a oc', r')
                          | (Some v, a, r') \<Rightarrow>
                              (Some v, emitProgress ''Review'' ''ReviewerAgent'' ''COMPLETED''
                                 (''Review Score: '' @ int_string (rv_overall_score v) @ ''/100 (Passed: '' @
                                  (if rv_passed v then ''true'' else ''false'') @ '')'') (put_agent Role_Reviewer a oc'), r'))
              in case reviewed of
                   None \<Rightarrow> (None, oc3, r2)
                 | Some v \<Rightarrow>
                     (let summary = ''Completed task: '' @ tsk @ '' | Review Score: '' @ int_string (rv_overall_score v) @
                            '' | Repair Cycles: '' @ nat_string (wr_repair_cycles_used w1);
                          w2 = w1\<lparr>wr_review := v, wr_total_time := wf_time env, wr_summary := summary,
                                wr_success := (rp_passed s \<and> rv_passed v \<and> wr_errors w1 = [])\<rparr>
                      in (Some w2, emitProgress ''Workflow'' ''Orchestrator''
                            (if wr_success w2 then ''COMPLETED'' else ''FINISHED_WITH_WARNINGS'') summary oc3, r2))))"

text \<open>Coding, with the findings of the research.\<close>

definition code_and_test :: "workflow_env \<Rightarrow> string \<Rightarrow> (string, string) umap \<Rightarrow> string \<Rightarrow> string \<Rightarrow> WorkflowResult \<Rightarrow>
    Orchestrator \<Rightarrow> ToolRegistry \<Rightarrow> workflow_end" where
  "code_and_test env tsk context findings ckpt w oc0 r =
     (let oc = emitProgress ''Coding'' ''CoderAgent'' ''STARTED'' ''Implementing code modifications...'' oc0
      in case run_role (wf_agent env 2) Role_Coder (''Implement the solution for: '' @ tsk)
                (AList.update ''plan'' (pr_raw_plan (wr_plan w)) (AList.update ''research_findings'' findings context)) oc r of
           (Returned res, oc1, r1) \<Rightarrow>
             (let w1 = w\<lparr>wr_total_iterations := wr_total_iterations w + ar_iterations_used res\<rparr>;
                  w2 = (if ar_success res then w1 else add_error (''Coder error: '' @ ar_error_message res) w1);
                  oc2 = (if ar_success res then emitProgress ''Coding'' ''CoderAgent'' ''COMPLETED'' ''Code changes applied'' oc1
                         else emitProgress ''Coding'' ''CoderAgent'' ''FAILED'' (ar_error_message res) oc1)
              in case repair_loop env tsk context (ar_content res) \<lparr>rp_orch = oc2, rp_registry = r1, rp_iterations = 0, rp_cycle = 0, rp_cycles_used = 0, rp_errors = [],
                         rp_last_output = [], rp_passed = False, rp_call = 3\<rparr> of
                   (False, s) \<Rightarrow> (None, rp_orch s, rp_registry s)
                 | (True, s) \<Rightarrow> finish_workflow env tsk (ar_content res) ckpt w2 s)
         | (_, oc1, r1) \<Rightarrow> (None, oc1, r1))"

definition research :: "workflow_env \<Rightarrow> string \<Rightarrow> (string, string) umap \<Rightarrow> WorkflowResult \<Rightarrow> Orchestrator \<Rightarrow> ToolRegistry \<Rightarrow> workflow_end" where
  "research env tsk context w oc0 r =
     (let oc = emitProgress ''Research'' ''ResearcherAgent'' ''STARTED'' ''Analyzing repository context...'' oc0
      in case run_role (wf_agent env 1) Role_Researcher (''Research relevant files and symbols for task: '' @ tsk)
                (AList.update ''goal'' (pr_goal (wr_plan w)) context) oc r of
           (Returned res, oc1, r1) \<Rightarrow>
             (let w1 = w\<lparr>wr_total_iterations := wr_total_iterations w + ar_iterations_used res\<rparr>;
                  oc2 = emitProgress ''Research'' ''ResearcherAgent'' ''COMPLETED'' ''Context collected'' oc1
              in case createGitCheckpoint env oc2 r1 of
                   (None, r2) \<Rightarrow> (None, oc2, r2)
                 | (Some ckpt, r2) \<Rightarrow>
                     (let oc3 = look_cancelled env 2 oc2
                      in if oc_cancelled oc3 then (Some (add_error ''Workflow cancelled'' w1), oc3, r2)
                         else code_and_test env tsk context (ar_content res) ckpt w1 oc3 r2))
         | (_, oc1, r1) \<Rightarrow> (None, oc1, r1))"


definition runWorkflow :: "workflow_env \<Rightarrow> string \<Rightarrow> (string, string) umap \<Rightarrow> Orchestrator \<Rightarrow> ToolRegistry \<Rightarrow> workflow_end" where
  "runWorkflow env tsk context oc r =
     (let oc1 = emitProgress ''Workflow'' ''Orchestrator'' ''STARTED'' (''Beginning task: '' @ tsk)
            (initializeAgents (oc\<lparr>oc_cancelled := False\<rparr>));
          w = start_result tsk;
          oc2 = look_cancelled env 0 oc1
      in if oc_cancelled oc2 then (Some (add_error ''Workflow cancelled'' w), oc2, r)
         else
           let oc3 = emitProgress ''Planning'' ''PlannerAgent'' ''STARTED'' ''Decomposing task into subtasks...'' oc2
           in case generatePlan (wf_agent env 0) (wf_parse_plan env) tsk context (agent_of Role_Planner oc3) r of
                (None, a, r1) \<Rightarrow> (None, put_agent Role_Planner a oc3, r1)
              | (Some plan, a, r1) \<Rightarrow>
                  (let oc4 = put_agent Role_Planner a oc3; w1 = w\<lparr>wr_plan := plan, wr_total_iterations := 1\<rparr>
                   in if \<not> pr_is_valid plan \<or> pr_steps plan = []
                      then (Some (add_error ''Planning failed'' w1),
                            emitProgress ''Planning'' ''PlannerAgent'' ''FAILED'' ''Failed to generate valid plan'' oc4, r1)
                      else
                        let oc5 = look_cancelled env 1 (emitProgress ''Planning'' ''PlannerAgent'' ''COMPLETED''
                              (''Created '' @ nat_string (length (pr_steps plan)) @ '' plan steps'') oc4)
                        in if oc_cancelled oc5 then (Some (add_error ''Workflow cancelled'' w1), oc5, r1)
                           else research env tsk context w1 oc5 r1))"

end
