(* ===== verification/Agent_Properties.thy ===== *)
theory Agent_Properties
  imports Orchestrator Tool_Properties
begin

text \<open>
  Properties of the agents.

  \<^item> The life of an agent as a path through its states, and what a run returns, counts and leaves behind.
  \<^item> Tools run only with the permissions of the agent's capabilities, whatever the model asks for.
  \<^item> An agent that has failed, was cancelled, or was left by an exception never runs again.
\<close>

subsection \<open>Paths through the states\<close>

definition state_edge :: "AgentState \<Rightarrow> AgentState \<Rightarrow> bool" where
  "state_edge s t \<longleftrightarrow> s \<noteq> t \<and>
     (case t of
        Agent_Idle \<Rightarrow> s = Agent_Completed
      | Agent_Thinking \<Rightarrow> s \<in> {Agent_Idle, Agent_Waiting, Agent_Acting, Agent_Cancelled}
      | Agent_Acting \<Rightarrow> s \<in> {Agent_Thinking, Agent_Cancelled}
      | Agent_Waiting \<Rightarrow> False
      | Agent_Completed \<Rightarrow> s \<in> {Agent_Thinking, Agent_Cancelled}
      | Agent_Failed \<Rightarrow> s \<in> {Agent_Idle, Agent_Waiting, Agent_Thinking, Agent_Acting, Agent_Cancelled}
      | Agent_Cancelled \<Rightarrow> s \<in> {Agent_Idle, Agent_Waiting, Agent_Thinking, Agent_Acting})"

fun state_path :: "AgentState \<Rightarrow> (AgentState \<times> AgentState) list \<Rightarrow> AgentState \<Rightarrow> bool" where
  "state_path s [] t \<longleftrightarrow> s = t"
| "state_path s ((u, v) # es) t \<longleftrightarrow> u = s \<and> state_edge u v \<and> state_path v es t"

lemma state_path_append: "state_path s (xs @ ys) t \<longleftrightarrow> (\<exists>m. state_path s xs m \<and> state_path m ys t)"
  by (induction s xs t rule: state_path.induct) auto

text \<open>What the steps of a run keep of an agent, and how they move its state.\<close>

definition agent_moves :: "Agent \<Rightarrow> Agent \<Rightarrow> bool" where
  "agent_moves a a' \<longleftrightarrow>
     ag_config a' = ag_config a \<and> ag_class a' = ag_class a \<and> ag_has_provider a' = ag_has_provider a \<and>
     ag_has_registry a' = ag_has_registry a \<and> tasks_executed a' = tasks_executed a \<and>
     tasks_completed a' = tasks_completed a \<and> tasks_failed a' = tasks_failed a \<and>
     total_iterations a' = total_iterations a \<and>
     (\<exists>es. ag_transitions a' = ag_transitions a @ es \<and> state_path (ag_state a) es (ag_state a'))"

lemma agent_moves_refl [simp]: "agent_moves a a"
  by (simp add: agent_moves_def)

lemma agent_moves_trans [trans]: "agent_moves a b \<Longrightarrow> agent_moves b c \<Longrightarrow> agent_moves a c"
  unfolding agent_moves_def by (auto simp: state_path_append)

lemma setState_simps [simp]:
  "ag_state (setState t a) = t"
  "ag_config (setState t a) = ag_config a"
  "ag_has_registry (setState t a) = ag_has_registry a"
  "ag_has_provider (setState t a) = ag_has_provider a"
  "ag_cancelled (setState t a) = ag_cancelled a"
  "tasks_executed (setState t a) = tasks_executed a"
  "tasks_completed (setState t a) = tasks_completed a"
  "tasks_failed (setState t a) = tasks_failed a"
  "total_iterations (setState t a) = total_iterations a"
  "ag_current_task (setState t a) = ag_current_task a"
  by (simp_all add: setState_def)

lemma agent_moves_setState: "ag_state a = t \<or> state_edge (ag_state a) t \<Longrightarrow> agent_moves a (setState t a)"
  by (auto simp: agent_moves_def setState_def)

lemma agent_moves_flags [simp]:
  "agent_moves a (b\<lparr>ag_paused := p\<rparr>) = agent_moves a b"
  "agent_moves (a\<lparr>ag_paused := p\<rparr>) b = agent_moves a b"
  "agent_moves (a\<lparr>ag_cancelled := c\<rparr>) b = agent_moves a b"
  "agent_moves a (b\<lparr>ag_cancelled := c\<rparr>) = agent_moves a b"
  by (simp_all add: agent_moves_def)

text \<open>The states in which a loop can be interrupted.\<close>

definition open_state :: "AgentState \<Rightarrow> bool" where
  "open_state s \<longleftrightarrow> s \<noteq> Agent_Completed \<and> s \<noteq> Agent_Failed"

lemma apply_interrupt_moves:
  "open_state (ag_state a) \<Longrightarrow> agent_moves a (apply_interrupt x a) \<and>
     (ag_state (apply_interrupt x a) = ag_state a \<or> ag_state (apply_interrupt x a) = Agent_Cancelled)"
proof (cases x)
  case Cancel_Call
  assume "open_state (ag_state a)"
  then have "ag_state a = Agent_Cancelled \<or> state_edge (ag_state a) Agent_Cancelled"
    by (cases "ag_state a") (auto simp: open_state_def state_edge_def)
  then have "agent_moves (a\<lparr>ag_cancelled := True, ag_paused := False\<rparr>)
      (setState Agent_Cancelled (a\<lparr>ag_cancelled := True, ag_paused := False\<rparr>))"
    by (intro agent_moves_setState) simp
  then show ?thesis
    by (simp add: Cancel_Call agent_cancel_def)
qed (simp_all add: agent_pause_def agent_resume_def)

lemma interrupts_move:
  "open_state (ag_state a) \<Longrightarrow> agent_moves a (fold apply_interrupt xs a) \<and>
     (ag_state (fold apply_interrupt xs a) = ag_state a \<or> ag_state (fold apply_interrupt xs a) = Agent_Cancelled)"
proof (induction xs arbitrary: a)
  case Nil
  then show ?case by simp
next
  case (Cons x xs)
  from apply_interrupt_moves [OF Cons.prems, of x] Cons.IH [of "apply_interrupt x a"] Cons.prems show ?case
    by (auto simp: open_state_def intro: agent_moves_trans)
qed

lemma wait_unpaused_moves:
  "open_state (ag_state a) \<Longrightarrow> agent_moves a (fst (wait_unpaused xs a)) \<and>
     (ag_state (fst (wait_unpaused xs a)) = ag_state a \<or> ag_state (fst (wait_unpaused xs a)) = Agent_Cancelled)"
proof (induction xs arbitrary: a)
  case Nil
  then show ?case by simp
next
  case (Cons x xs)
  from apply_interrupt_moves [OF Cons.prems, of x] Cons.IH [of "apply_interrupt x a"] Cons.prems show ?case
    by (auto simp: open_state_def intro: agent_moves_trans)
qed

subsection \<open>Tools and permissions\<close>

text \<open>
  From \<open>r\<close> to \<open>r'\<close> the names are the same, the objects are of the same classes, and only tools whose required
  permissions are among the granted ones have been called.
\<close>

definition permitted :: "(nat \<Rightarrow> other_tool) \<Rightarrow> ToolPermission list \<Rightarrow> ToolRegistry \<Rightarrow> ToolRegistry \<Rightarrow> bool" where
  "permitted others granted r r' \<longleftrightarrow>
     tool_table r' = tool_table r \<and> length (objects r') = length (objects r) \<and>
     (\<forall>k. class_at r' k = class_at r k) \<and>
     (\<forall>k. objects r' ! k \<noteq> objects r ! k \<longrightarrow>
        set (td_required_permissions (getDefinition others (class_at r k))) \<subseteq> set granted)"

lemma permitted_refl [simp]: "permitted others granted r r"
  by (simp add: permitted_def)

lemma permitted_trans [trans]:
  "permitted others granted r1 r2 \<Longrightarrow> permitted others granted r2 r3 \<Longrightarrow> permitted others granted r1 r3"
proof -
  assume 1: "permitted others granted r1 r2" and 2: "permitted others granted r2 r3"
  have "set (td_required_permissions (getDefinition others (class_at r1 k))) \<subseteq> set granted"
    if "objects r3 ! k \<noteq> objects r1 ! k" for k
  proof (cases "objects r2 ! k = objects r1 ! k")
    case True
    with that have "objects r3 ! k \<noteq> objects r2 ! k" by simp
    with 2 have "set (td_required_permissions (getDefinition others (class_at r2 k))) \<subseteq> set granted"
      unfolding permitted_def by blast
    moreover from 1 have "class_at r2 k = class_at r1 k"
      unfolding permitted_def by blast
    ultimately show ?thesis by simp
  next
    case False
    with 1 show ?thesis
      unfolding permitted_def by blast
  qed
  moreover from 1 2 have "tool_table r3 = tool_table r1" "length (objects r3) = length (objects r1)"
    by (simp_all add: permitted_def)
  moreover from 1 2 have "class_at r3 k = class_at r1 k" for k
    unfolding permitted_def by metis
  ultimately show ?thesis
    unfolding permitted_def by blast
qed

lemma tool_execute_class: "tl_class (snd (tool_execute others d ps t)) = tl_class t"
proof (cases "tl_class t")
  case (OtherTool n)
  then show ?thesis
    by (cases "ot_execute (others n) ps (tl_stats t)") (simp add: tool_execute_def)
qed (simp_all add: tool_execute_def split: call_outcome.split)

lemma run_tool_permitted:
  assumes "set (td_required_permissions (getDefinition others (class_at r a))) \<subseteq> set granted"
  shows "permitted others granted r (snd (run_tool others d ps a r))"
proof -
  obtain res t where t: "tool_execute others d ps (objects r ! a) = (res, t)"
    by force
  then have "tl_class t = tl_class (objects r ! a)"
    using tool_execute_class [of others d ps "objects r ! a"] by simp
  then have cls: "class_at (r\<lparr>objects := (objects r)[a := t]\<rparr>) k = class_at r k" for k
    by (cases "k = a"; cases "a < length (objects r)") (simp_all add: class_at_def list_update_beyond)
  have obj: "(objects r)[a := t] ! k = objects r ! k" if "k \<noteq> a" for k
    using that by simp
  have "k = a" if "(objects r)[a := t] ! k \<noteq> objects r ! k" for k
    using that obj by blast
  with assms have "set (td_required_permissions (getDefinition others (class_at r k))) \<subseteq> set granted"
    if "(objects r)[a := t] ! k \<noteq> objects r ! k" for k
    using that by blast
  then show ?thesis
    using cls unfolding permitted_def run_tool_def t by simp
qed

lemma executeWithPermission_permitted:
  "permitted others granted r (snd (executeWithPermission others d name ps granted r))"
proof (cases "getTool name r")
  case None
  then show ?thesis by (simp add: executeWithPermission_def)
next
  case (Some a)
  then have req: "required_of others name r = set (td_required_permissions (getDefinition others (class_at r a)))"
    by (simp add: required_of_def getToolDefinition_def)
  show ?thesis
  proof (cases "required_of others name r \<subseteq> set granted")
    case True
    have "find (\<lambda>q. \<not> has_permission granted q) (td_required_permissions (getDefinition others (class_at r a))) = None"
      using True by (auto simp: find_None_iff has_permission_iff req)
    then show ?thesis
      using Some True run_tool_permitted [of others r a granted d ps] by (simp add: executeWithPermission_def req)
  next
    case False
    then have "find (\<lambda>q. \<not> has_permission granted q) (td_required_permissions (getDefinition others (class_at r a))) \<noteq> None"
      by (auto simp: find_None_iff has_permission_iff req)
    then show ?thesis
      using Some by (auto simp: executeWithPermission_def)
  qed
qed


subsection \<open>One iteration\<close>

fun flow_state :: "'a flow \<Rightarrow> 'a" where
  "flow_state (Next s) = s"
| "flow_state (Break s) = s"
| "flow_state (Raise s) = s"
| "flow_state (Sleep s) = s"

abbreviation granted_to :: "Agent \<Rightarrow> ToolPermission list" where
  "granted_to a \<equiv> granted_permissions (ac_capabilities (ag_config a))"

lemma call_tool_permitted: "permitted (other_tools env) (granted_to a) r (snd (call_tool env a d tc r))"
  by (simp add: call_tool_def executeWithPermission_permitted)

lemma run_calls_permitted: "permitted (other_tools env) (granted_to a) r (snd (run_calls env a i k tcs r))"
proof (induction tcs arbitrary: k r)
  case Nil
  then show ?case by simp
next
  case (Cons tc tcs)
  obtain res r1 where c: "call_tool env a (call_time env i k) tc r = (res, r1)"
    by force
  have 1: "permitted (other_tools env) (granted_to a) r r1"
    using call_tool_permitted [of env a r "call_time env i k" tc] by (simp add: c)
  obtain obs r2 where o: "run_calls env a i (Suc k) tcs r1 = (obs, r2)"
    by force
  have 2: "permitted (other_tools env) (granted_to a) r1 r2"
    using Cons.IH [of r1 "Suc k"] by (simp add: o)
  show ?case
    using 1 permitted_trans [OF 1 2] by (simp add: c o split: option.split)
qed

text \<open>What an iteration may do, in terms of the loop state before and after.\<close>

definition loop_step_ok :: "agent_env \<Rightarrow> loop_state \<Rightarrow> loop_state \<Rightarrow> bool" where
  "loop_step_ok env s s' \<longleftrightarrow>
     agent_moves (ls_agent s) (ls_agent s') \<and>
     permitted (other_tools env) (granted_to (ls_agent s)) (ls_registry s) (ls_registry s')"

definition running :: "loop_state \<Rightarrow> bool" where
  "running s \<longleftrightarrow> ag_state (ls_agent s) \<in> {Agent_Idle, Agent_Waiting, Agent_Acting} \<and> \<not> ar_success (ls_result s) \<and>
     ar_iterations_used (ls_result s) = 0"

definition stopped :: "loop_state \<Rightarrow> bool" where
  "stopped s \<longleftrightarrow>
     (if ar_success (ls_result s)
      then ag_state (ls_agent s) = Agent_Completed \<and> ar_iterations_used (ls_result s) = ls_iterations s \<and> 0 < ls_iterations s
      else ag_state (ls_agent s) \<in> {Agent_Failed, Agent_Cancelled} \<and> ar_iterations_used (ls_result s) = 0)"

lemma handle_response_ok:
  assumes "ag_state (ls_agent s) \<in> {Agent_Thinking, Agent_Cancelled}" "\<not> ar_success (ls_result s)"
    "ar_iterations_used (ls_result s) = 0" "0 < ls_iterations s"
  shows "loop_step_ok env s (flow_state (handle_response env response s)) \<and>
     (case handle_response env response s of
        Next s' \<Rightarrow> running s' \<and> ls_iterations s' = ls_iterations s
      | Break s' \<Rightarrow> stopped s' \<and> ls_iterations s' = ls_iterations s
      | Raise s' \<Rightarrow> ag_state (ls_agent s') = Agent_Acting
      | Sleep s' \<Rightarrow> False)"
proof -
  have acting: "agent_moves (ls_agent s) (setState Agent_Acting (ls_agent s))"
    using assms(1) by (intro agent_moves_setState) (auto simp: state_edge_def)
  have completed: "agent_moves (ls_agent s) (setState Agent_Completed (ls_agent s))"
    using assms(1) by (intro agent_moves_setState) (auto simp: state_edge_def)
  have fin: "loop_step_ok env s (finish_success t) \<and> stopped (finish_success t) \<and> ls_iterations (finish_success t) = ls_iterations s"
    if "ls_agent t = ls_agent s" "ls_registry t = ls_registry s" "ls_iterations t = ls_iterations s" for t
    using that completed assms(4) by (simp add: finish_success_def loop_step_ok_def stopped_def)
  have act: "loop_step_ok env s (flow_state (act_phase env response tcs t)) \<and>
      (case act_phase env response tcs t of Next s' \<Rightarrow> running s' \<and> ls_iterations s' = ls_iterations s
       | Raise s' \<Rightarrow> ag_state (ls_agent s') = Agent_Acting | _ \<Rightarrow> False)"
    if "ls_agent t = ls_agent s" "ls_registry t = ls_registry s" "ls_iterations t = ls_iterations s" "ls_result t = ls_result s" for t tcs
  proof -
    obtain obs r where o: "run_calls env (setState Agent_Acting (ls_agent s)) (ls_iterations s) 0 tcs (ls_registry s) = (obs, r)"
      by force
    then have "permitted (other_tools env) (granted_to (ls_agent s)) (ls_registry s) r"
      using run_calls_permitted [of env "setState Agent_Acting (ls_agent s)" "ls_registry s" "ls_iterations s" 0 tcs] by simp
    then show ?thesis
      using that acting assms o by (simp add: act_phase_def Let_def loop_step_ok_def running_def split: option.split)
  qed
  define t where "t = s\<lparr>ls_output := ls_output s @ (if ls_output s = [] then [] else nl) @ response\<rparr>"
  have t: "ls_agent t = ls_agent s" "ls_registry t = ls_registry s" "ls_iterations t = ls_iterations s" "ls_result t = ls_result s"
    by (simp_all add: t_def)
  have eq: "handle_response env response s =
      (if isTaskComplete (parseToolCalls env) response \<or> parseToolCalls env response = [] then Break (finish_success t)
       else act_phase env response (parseToolCalls env response) t)"
    by (simp add: handle_response_def Let_def t_def)
  show ?thesis
  proof (cases "isTaskComplete (parseToolCalls env) response \<or> parseToolCalls env response = []")
    case True
    then show ?thesis
      using fin [OF t(1-3)] by (simp add: eq)
  next
    case False
    then show ?thesis
      using act [OF t, of "parseToolCalls env response"]
      by (cases "act_phase env response (parseToolCalls env response) t") (simp_all add: eq)
  qed
qed

lemma think_phase_ok:
  assumes "ag_state (ls_agent s) \<in> {Agent_Idle, Agent_Waiting, Agent_Acting, Agent_Cancelled}" "\<not> ar_success (ls_result s)"
    "ar_iterations_used (ls_result s) = 0"
  shows "loop_step_ok env s (flow_state (think_phase env s)) \<and>
     (case think_phase env s of
        Next s' \<Rightarrow> running s' \<and> ls_iterations s' = Suc (ls_iterations s)
      | Break s' \<Rightarrow> stopped s' \<and> ls_iterations s' = Suc (ls_iterations s)
      | Raise s' \<Rightarrow> ag_state (ls_agent s') = Agent_Acting
      | Sleep s' \<Rightarrow> False)"
proof -
  define a where "a = setState Agent_Thinking (ls_agent s)"
  define b where "b = (if ag_has_provider a then fold apply_interrupt (in_chat env (Suc (ls_iterations s))) a else a)"
  have a: "agent_moves (ls_agent s) a" "ag_state a = Agent_Thinking" "ag_has_provider a = ag_has_provider (ls_agent s)"
    using assms(1) unfolding a_def by (auto intro!: agent_moves_setState simp: state_edge_def)
  then have b: "agent_moves (ls_agent s) b" "ag_state b \<in> {Agent_Thinking, Agent_Cancelled}"
    using interrupts_move [of a "in_chat env (Suc (ls_iterations s))"] agent_moves_trans
    by (auto simp: b_def open_state_def)
  have cfg: "granted_to b = granted_to (ls_agent s)"
    using b(1) by (simp add: agent_moves_def)
  define t where "t = s\<lparr>ls_iterations := Suc (ls_iterations s), ls_agent := b\<rparr>"
  have t: "ls_agent t = b" "ls_registry t = ls_registry s" "ls_iterations t = Suc (ls_iterations s)" "ls_result t = ls_result s"
    by (simp_all add: t_def)
  have resp: "loop_step_ok env s (flow_state (handle_response env response t)) \<and>
      (case handle_response env response t of
        Next s' \<Rightarrow> running s' \<and> ls_iterations s' = Suc (ls_iterations s)
      | Break s' \<Rightarrow> stopped s' \<and> ls_iterations s' = Suc (ls_iterations s)
      | Raise s' \<Rightarrow> ag_state (ls_agent s') = Agent_Acting
      | Sleep s' \<Rightarrow> False)" for response
    using handle_response_ok [of t env response] b assms t cfg
    by (auto simp: loop_step_ok_def split: flow.splits intro: agent_moves_trans)
  have "agent_moves b (setState Agent_Failed b)"
    using b(2) by (intro agent_moves_setState) (auto simp: state_edge_def)
  then have fail: "agent_moves (ls_agent s) (setState Agent_Failed b)"
    using b(1) agent_moves_trans by blast
  show ?thesis
  proof (cases "ag_has_provider a")
    case True
    show ?thesis
    proof (cases "mr_success (chat env (Suc (ls_iterations s)) (ls_messages s))")
      case True
      with \<open>ag_has_provider a\<close> show ?thesis
        using resp [of "mr_content (chat env (Suc (ls_iterations s)) (ls_messages s))"]
        by (simp add: think_phase_def a_def [symmetric] b_def t_def)
    next
      case False
      with \<open>ag_has_provider a\<close> show ?thesis
        using fail assms
        by (simp add: think_phase_def a_def [symmetric] b_def loop_step_ok_def stopped_def)
    qed
  next
    case False
    then show ?thesis
      using resp [of "think (''Iteration '' @ nat_string (Suc (ls_iterations s)))"]
      by (simp add: think_phase_def a_def [symmetric] b_def t_def)
  qed
qed


lemma agent_iteration_ok:
  assumes "running s"
  shows "loop_step_ok env s (flow_state (agent_iteration env s)) \<and>
     (case agent_iteration env s of
        Next s' \<Rightarrow> running s' \<and> ls_iterations s' = Suc (ls_iterations s)
      | Break s' \<Rightarrow> stopped s' \<and> ls_iterations s' \<le> Suc (ls_iterations s)
      | Raise s' \<Rightarrow> ag_state (ls_agent s') = Agent_Acting
      | Sleep s' \<Rightarrow> True)"
proof -
  define a where "a = fold apply_interrupt (at_start env (ls_iterations s)) (ls_agent s)"
  have run: "ag_state (ls_agent s) \<in> {Agent_Idle, Agent_Waiting, Agent_Acting}" "\<not> ar_success (ls_result s)"
    "ar_iterations_used (ls_result s) = 0"
    using assms by (simp_all add: running_def)
  then have a: "agent_moves (ls_agent s) a" "ag_state a \<in> {Agent_Idle, Agent_Waiting, Agent_Acting, Agent_Cancelled}"
    using interrupts_move [of "ls_agent s" "at_start env (ls_iterations s)"] unfolding a_def by (auto simp: open_state_def)
  show ?thesis
  proof (cases "ag_cancelled a")
    case True
    have "agent_moves a (setState Agent_Cancelled a)"
      using a(2) by (intro agent_moves_setState) (auto simp: state_edge_def)
    then have "agent_moves (ls_agent s) (setState Agent_Cancelled a)"
      using a(1) agent_moves_trans by blast
    then show ?thesis
      using True run by (simp add: agent_iteration_def a_def [symmetric] loop_step_ok_def stopped_def)
  next
    case False
    obtain b awake where b: "wait_unpaused (in_pause env (ls_iterations s)) a = (b, awake)"
      by force
    have "open_state (ag_state a)"
      using a(2) by (auto simp: open_state_def)
    then have "agent_moves a b" "ag_state b = ag_state a \<or> ag_state b = Agent_Cancelled"
      using wait_unpaused_moves [of a "in_pause env (ls_iterations s)"] by (simp_all add: b)
    then have mb: "agent_moves (ls_agent s) b" "ag_state b \<in> {Agent_Idle, Agent_Waiting, Agent_Acting, Agent_Cancelled}"
      using a agent_moves_trans by auto
    then have cfg: "granted_to b = granted_to (ls_agent s)"
      by (simp add: agent_moves_def)
    define t where "t = s\<lparr>ls_agent := b\<rparr>"
    have t: "ls_agent t = b" "ls_registry t = ls_registry s" "ls_result t = ls_result s" "ls_iterations t = ls_iterations s"
      by (simp_all add: t_def)
    show ?thesis
    proof (cases awake)
      case True
      then have eq: "agent_iteration env s = think_phase env t"
        using False by (simp add: agent_iteration_def a_def [symmetric] b t_def)
      have pre: "ag_state (ls_agent t) \<in> {Agent_Idle, Agent_Waiting, Agent_Acting, Agent_Cancelled}"
        "\<not> ar_success (ls_result t)" "ar_iterations_used (ls_result t) = 0"
        unfolding t by (rule mb(2), rule run(2), rule run(3))
      from think_phase_ok [OF pre, of env]
      have ok: "loop_step_ok env t (flow_state (think_phase env t))"
        and c: "case think_phase env t of Next s' \<Rightarrow> running s' \<and> ls_iterations s' = Suc (ls_iterations s)
          | Break s' \<Rightarrow> stopped s' \<and> ls_iterations s' = Suc (ls_iterations s)
          | Raise s' \<Rightarrow> ag_state (ls_agent s') = Agent_Acting | Sleep s' \<Rightarrow> False"
        unfolding t by simp_all
      from ok mb(1) have "loop_step_ok env s (flow_state (think_phase env t))"
        unfolding loop_step_ok_def t cfg using agent_moves_trans by blast
      with c show ?thesis
        unfolding eq by (cases "think_phase env t") simp_all
    next
      case awake: False
      then show ?thesis
        using False mb by (simp add: agent_iteration_def a_def [symmetric] b loop_step_ok_def)
    qed
  qed
qed

lemma loop_step_ok_refl [simp]: "loop_step_ok env s s"
  by (simp add: loop_step_ok_def)

lemma loop_step_ok_trans:
  assumes "loop_step_ok env s t" "loop_step_ok env t u"
  shows "loop_step_ok env s u"
proof -
  have "granted_to (ls_agent t) = granted_to (ls_agent s)"
    using assms(1) by (simp add: loop_step_ok_def agent_moves_def)
  then show ?thesis
    using assms unfolding loop_step_ok_def by (auto intro: agent_moves_trans permitted_trans)
qed

lemma agent_loop_ok:
  assumes "running s"
  shows "loop_step_ok env s (flow_state (agent_loop env n s)) \<and>
     (case agent_loop env n s of
        Next s' \<Rightarrow> False
      | Break s' \<Rightarrow> (stopped s' \<or> running s') \<and> ls_iterations s' \<le> ls_iterations s + n
      | Raise s' \<Rightarrow> ag_state (ls_agent s') = Agent_Acting
      | Sleep s' \<Rightarrow> True)"
  using assms
proof (induction n arbitrary: s)
  case 0
  then show ?case by simp
next
  case (Suc n)
  note it = agent_iteration_ok [OF Suc.prems, of env]
  show ?case
  proof (cases "agent_iteration env s")
    case (Next t)
    with it have t: "loop_step_ok env s t" "running t" "ls_iterations t = Suc (ls_iterations s)"
      by simp_all
    from Suc.IH [OF t(2)] have IH: "loop_step_ok env t (flow_state (agent_loop env n t))"
      "case agent_loop env n t of Next s' \<Rightarrow> False
       | Break s' \<Rightarrow> (stopped s' \<or> running s') \<and> ls_iterations s' \<le> ls_iterations t + n
       | Raise s' \<Rightarrow> ag_state (ls_agent s') = Agent_Acting | Sleep s' \<Rightarrow> True"
      by simp_all
    from IH(2) t(3) loop_step_ok_trans [OF t(1) IH(1)] show ?thesis
      by (cases "agent_loop env n t") (simp_all add: Next)
  qed (use it in simp_all)
qed

subsection \<open>A whole run\<close>

lemma start_loop_running:
  "ag_state a \<in> {Agent_Idle, Agent_Waiting} \<Longrightarrow> running (start_loop env tsk context a r)"
  by (auto simp: start_loop_def Let_def running_def empty_result_def)

lemma start_loop_fields [simp]:
  "ls_registry (start_loop env tsk context a r) = r"
  "ls_iterations (start_loop env tsk context a r) = 0"
  "ag_config (ls_agent (start_loop env tsk context a r)) = ag_config a"
  "agent_moves (ls_agent (start_loop env tsk context a r)) b = agent_moves a b"
  by (simp_all add: start_loop_def Let_def agent_moves_def)

lemma execute_cases:
  obtains (Busy) "ag_state a \<noteq> Agent_Idle" "ag_state a \<noteq> Agent_Waiting"
      "execute env tsk context a r = (Returned (empty_result\<lparr>ar_error_message := ''Agent is busy''\<rparr>), a, r)"
  | (Done) s :: loop_state where "ag_state a \<in> {Agent_Idle, Agent_Waiting}" "agent_moves a (ls_agent s)"
      "permitted (other_tools env) (granted_to a) r (ls_registry s)" "stopped s \<or> running s"
      "ls_iterations s \<le> nat (ac_max_iterations (ag_config a))"
      "execute env tsk context a r = (Returned (fst (finish_run env s)), snd (finish_run env s), ls_registry s)"
  | (Threw) s :: loop_state where "ag_state a \<in> {Agent_Idle, Agent_Waiting}" "agent_moves a (ls_agent s)"
      "permitted (other_tools env) (granted_to a) r (ls_registry s)" "ag_state (ls_agent s) = Agent_Acting"
      "execute env tsk context a r = (Threw, ls_agent s, ls_registry s)"
  | (Asleep) s :: loop_state where "ag_state a \<in> {Agent_Idle, Agent_Waiting}" "agent_moves a (ls_agent s)"
      "permitted (other_tools env) (granted_to a) r (ls_registry s)"
      "execute env tsk context a r = (Never_Returns, ls_agent s, ls_registry s)"
proof (cases "ag_state a \<noteq> Agent_Idle \<and> ag_state a \<noteq> Agent_Waiting")
  case True
  then show ?thesis
    using that(1) by (simp add: execute_def)
next
  case False
  then have st: "ag_state a \<in> {Agent_Idle, Agent_Waiting}"
    by auto
  let ?n = "nat (ac_max_iterations (ag_config a))" and ?s = "start_loop env tsk context a r"
  note loop = agent_loop_ok [OF start_loop_running [OF st, of env tsk "context" r], of env ?n]
  show ?thesis
  proof (cases "agent_loop env ?n ?s")
    case (Next s)
    then show ?thesis using loop by simp
  next
    case (Break s)
    then show ?thesis
      using that(2) [OF st, of s] loop False by (simp add: execute_def executeLoop_def loop_step_ok_def case_prod_beta)
  next
    case (Raise s)
    then show ?thesis
      using that(3) [OF st, of s] loop False by (simp add: execute_def executeLoop_def loop_step_ok_def)
  next
    case (Sleep s)
    then show ?thesis
      using that(4) [OF st, of s] loop False by (simp add: execute_def executeLoop_def loop_step_ok_def)
  qed
qed


lemma finish_run_result:
  assumes "stopped s \<or> running s" "finish_run env s = (res, a')"
  shows "(if ar_success res then ag_state a' = Agent_Idle \<and> 0 < ar_iterations_used res \<and> ar_iterations_used res = ls_iterations s
      else ag_state a' \<in> {Agent_Failed, Agent_Cancelled} \<and> ar_iterations_used res = 0)"
    and "tasks_executed a' = tasks_executed (ls_agent s) + 1"
    and "tasks_completed a' = tasks_completed (ls_agent s) + (if ar_success res then 1 else 0)"
    and "tasks_failed a' = tasks_failed (ls_agent s) + (if ar_success res then 0 else 1)"
    and "ag_current_task a' = []"
    and "ag_config a' = ag_config (ls_agent s)"
    and "\<exists>es. ag_transitions a' = ag_transitions (ls_agent s) @ es \<and> state_path (ag_state (ls_agent s)) es (ag_state a')"
  using assms
  by (auto simp: finish_run_def Let_def stopped_def running_def setState_def state_edge_def split: if_splits)



subsection \<open>After a failure\<close>

datatype agent_action = Run_Task agent_env string "(string, string) umap" | Interrupt interrupt

fun agent_step :: "agent_action \<Rightarrow> Agent \<times> ToolRegistry \<times> run_outcome list \<Rightarrow> Agent \<times> ToolRegistry \<times> run_outcome list" where
  "agent_step (Run_Task env tsk context) (a, r, outs) =
     (case execute env tsk context a r of (out, a', r') \<Rightarrow> (a', r', outs @ [out]))"
| "agent_step (Interrupt x) (a, r, outs) = (apply_interrupt x a, r, outs)"

definition busy_result :: AgentResult where
  "busy_result = empty_result\<lparr>ar_error_message := ''Agent is busy''\<rparr>"

lemma dead_agent:
  assumes "ag_state a \<notin> {Agent_Idle, Agent_Waiting}" "fold agent_step acts (a, r, outs) = (a', r', outs')"
  shows "ag_state a' \<notin> {Agent_Idle, Agent_Waiting} \<and> r' = r \<and> set outs' \<subseteq> set outs \<union> {Returned busy_result}"
  using assms
proof (induction acts arbitrary: a outs)
  case Nil
  then show ?case by auto
next
  case (Cons x acts)
  show ?case
  proof (cases x)
    case (Run_Task env tsk ctx)
    have "execute env tsk ctx a r = (Returned busy_result, a, r)"
      using Cons.prems(1) by (simp add: execute_def busy_result_def)
    then show ?thesis
      using Cons.IH [of a "outs @ [Returned busy_result]"] Cons.prems by (auto simp: Run_Task)
  next
    case (Interrupt i)
    have "ag_state (apply_interrupt i a) \<notin> {Agent_Idle, Agent_Waiting}"
      using Cons.prems(1) by (cases i) (auto simp: agent_cancel_def agent_pause_def agent_resume_def)
    then show ?thesis
      using Cons.IH [of "apply_interrupt i a" outs] Cons.prems(2) by (simp add: Interrupt)
  qed
qed

text \<open>
  An agent gets one failure. After a run that failed, was cancelled, or was left by an exception of a tool, every
  later call of \<open>execute\<close> answers "Agent is busy" and does nothing, whatever is called on the agent in
  between: nothing brings the state back.
\<close>

theorem failed_agent_never_runs:
  assumes "ag_state a = Agent_Idle" "execute env tsk context a r = (out, a1, r1)"
    and "out = Threw \<or> (\<exists>res. out = Returned res \<and> \<not> ar_success res)"
    and "fold agent_step acts (a1, r1, []) = (a2, r2, outs)"
  shows "r2 = r1 \<and> set outs \<subseteq> {Returned busy_result}"
proof -
  have "ag_state a1 \<notin> {Agent_Idle, Agent_Waiting}"
  proof (rule execute_cases [of a env tsk "context" r])
    fix s
    assume s: "stopped s \<or> running s"
      and ex: "execute env tsk context a r = (Returned (fst (finish_run env s)), snd (finish_run env s), ls_registry s)"
    from finish_run_result(1) [OF s, of env "fst (finish_run env s)" "snd (finish_run env s)"] ex assms(2,3)
    show ?thesis by auto
  qed (use assms in auto)
  from dead_agent [OF this assms(4)] show ?thesis by simp
qed


subsection \<open>Witnesses\<close>

text \<open>A model that always answers "hi"; the parser finds the given calls in it.\<close>

definition hi_env :: "ParsedToolCall list \<Rightarrow> agent_env" where
  "hi_env calls = \<lparr>chat = (\<lambda>i ms. \<lparr>mr_content = ''hi'', mr_success = True, mr_error = []\<rparr>), parseToolCalls = (\<lambda>s. calls),
     at_start = (\<lambda>i. []), in_pause = (\<lambda>i. []), in_chat = (\<lambda>i. []), call_time = (\<lambda>i k. 1), run_time = 5,
     other_tools = demo_others\<rparr>"

definition demo_agent :: "int \<Rightarrow> Agent" where
  "demo_agent n = (make_coder (default_config\<lparr>ac_max_iterations := n\<rparr>))\<lparr>ag_has_provider := True, ag_has_registry := True\<rparr>"

lemma demo_agent_simps [simp]:
  "ag_state (demo_agent n) = Agent_Idle"
  "ag_config (demo_agent n) = ag_config (make_coder (default_config\<lparr>ac_max_iterations := n\<rparr>))"
  "ag_has_provider (demo_agent n)" "ag_has_registry (demo_agent n)"
  "ag_cancelled (demo_agent n) = False" "ag_paused (demo_agent n) = False"
  "ac_max_iterations (ag_config (make_coder (default_config\<lparr>ac_max_iterations := n\<rparr>))) = n"
  by (simp_all add: demo_agent_def make_coder_def new_Agent_def)


lemma demo_failure:
  "\<exists>res a'. execute (hi_env []) ''say hi'' [] (demo_agent 0) new_ToolRegistry = (Returned res, a', new_ToolRegistry) \<and> \<not> ar_success res"
  by (simp add: execute_def executeLoop_def start_loop_def Let_def finish_run_def empty_result_def)




theorem failed_agent_never_runs_witness:
  "\<exists>res a1 a2 outs. execute (hi_env []) ''say hi'' [] (demo_agent 0) new_ToolRegistry = (Returned res, a1, new_ToolRegistry) \<and>
     fold agent_step [Interrupt Resume_Call, Run_Task (hi_env []) ''again'' []] (a1, new_ToolRegistry, []) = (a2, new_ToolRegistry, outs) \<and>
     set outs \<subseteq> {Returned busy_result}"
proof -
  obtain res a1 where ex: "execute (hi_env []) ''say hi'' [] (demo_agent 0) new_ToolRegistry = (Returned res, a1, new_ToolRegistry)"
    and bad: "\<not> ar_success res"
    using demo_failure by blast
  obtain a2 r2 outs where f: "fold agent_step [Interrupt Resume_Call, Run_Task (hi_env []) ''again'' []] (a1, new_ToolRegistry, []) = (a2, r2, outs)"
    using prod_cases3 by blast
  have "r2 = new_ToolRegistry \<and> set outs \<subseteq> {Returned busy_result}"
    using failed_agent_never_runs [OF _ ex _ f] bad by simp
  with ex f show ?thesis
    by (intro exI [of _ res] exI [of _ a1] exI [of _ a2] exI [of _ outs] conjI) simp_all
qed

end
