(* ===== verification/Orchestrator_Properties.thy ===== *)
theory Orchestrator_Properties
  imports Agent_Properties
begin

text \<open>
  Properties of the workflow.

  \<^item> What a successful result stands for, and the bound on the repair cycles.
  \<^item> A tester whose run fails takes no further part: the repairs after it cannot lead to a pass.
  \<^item> After \<open>cancel\<close> the orchestrator is of no use: every later workflow ends at its planning.
\<close>

subsection \<open>Agents out of service\<close>

definition out_of_service :: "agent_role \<Rightarrow> Orchestrator \<Rightarrow> bool" where
  "out_of_service x oc \<longleftrightarrow> (\<exists>ags. oc_agents oc = Some ags \<and> ag_state (ags x) \<notin> {Agent_Idle, Agent_Waiting})"

lemma execute_dead:
  "ag_state a \<notin> {Agent_Idle, Agent_Waiting} \<Longrightarrow> execute env tsk ctx a r = (Returned busy_result, a, r)"
  by (simp add: execute_def busy_result_def)

lemma out_of_service_fields [simp]:
  "out_of_service x (emitProgress p q u v oc) = out_of_service x oc"
  "out_of_service x (oc\<lparr>oc_cancelled := b\<rparr>) = out_of_service x oc"
  "x \<noteq> y \<Longrightarrow> out_of_service x (put_agent y a oc) = out_of_service x oc"
  by (auto simp: out_of_service_def emitProgress_def put_agent_def)

lemma out_of_service_cancel: "out_of_service x oc \<or> oc_agents oc \<noteq> None \<Longrightarrow> out_of_service x (cancel_workflow oc)"
  by (auto simp: out_of_service_def cancel_workflow_def map_agents_def agent_cancel_def)

lemma out_of_service_look: "out_of_service x oc \<Longrightarrow> out_of_service x (look_cancelled env k oc)"
  by (simp add: look_cancelled_def out_of_service_cancel)

lemma out_of_service_initialize: "out_of_service x oc \<Longrightarrow> out_of_service x (initializeAgents oc)"
  by (auto simp: initializeAgents_def out_of_service_def)

lemma put_agent_self: "out_of_service x oc \<Longrightarrow> put_agent x (agent_of x oc) oc = oc"
  by (auto simp: out_of_service_def put_agent_def agent_of_def)

lemma run_role_dead:
  "out_of_service x oc \<Longrightarrow> run_role env x tsk ctx oc r = (Returned busy_result, oc, r)"
  using put_agent_self [of x oc]
  by (auto simp: run_role_def execute_dead out_of_service_def agent_of_def)

lemma run_role_other: "run_role env y tsk ctx oc r = (out, oc', r') \<Longrightarrow> x \<noteq> y \<Longrightarrow> out_of_service x oc' = out_of_service x oc"
  by (auto simp: run_role_def split: prod.splits)

lemma repair_keeps_tester:
  "repair env tsk ctx code failure s = (ok, s') \<Longrightarrow>
     out_of_service Role_Tester (rp_orch s') = out_of_service Role_Tester (rp_orch s) \<and> rp_passed s' = rp_passed s"
  by (auto simp: repair_def Let_def dest: run_role_other split: prod.splits option.splits)

text \<open>The orchestrator after a run of an agent that fails.\<close>

lemma failed_run_out_of_service:
  assumes "oc_agents oc \<noteq> None" "run_role env x tsk ctx oc r = (Returned res, oc', r')" "\<not> ar_success res"
  shows "out_of_service x oc'"
proof -
  obtain ags where ags: "oc_agents oc = Some ags"
    using assms(1) by blast
  obtain a' where ex: "execute env tsk ctx (ags x) r = (Returned res, a', r')" and oc': "oc' = put_agent x a' oc"
    using assms(2) ags by (auto simp: run_role_def agent_of_def split: prod.splits)
  have "ag_state a' \<notin> {Agent_Idle, Agent_Waiting}"
  proof (rule execute_cases [of "ags x" env tsk ctx r])
    fix s
    assume s: "stopped s \<or> running s"
      and e: "execute env tsk ctx (ags x) r = (Returned (fst (finish_run env s)), snd (finish_run env s), ls_registry s)"
    from finish_run_result(1) [OF s, of env "fst (finish_run env s)" "snd (finish_run env s)"] e ex assms(3)
    show ?thesis by auto
  qed (use ex in \<open>auto simp: execute_dead\<close>)
  then show ?thesis
    using ags by (simp add: oc' out_of_service_def put_agent_def)
qed

subsection \<open>Tests and repairs\<close>

text \<open>A rule for the loop: \<open>P\<close> holds at every test, \<open>Q\<close> where the loop is left.\<close>

lemma repair_loop_rule:
  assumes "repair_loop env tsk ctx code s = (ok, s')" "P s"
    and look: "\<And>s k. P s \<Longrightarrow> P (s\<lparr>rp_orch := look_cancelled env k (rp_orch s)\<rparr>)"
    and again: "\<And>s t. P s \<Longrightarrow> int (rp_cycle s) \<le> max_repair_cycles (oc_config (rp_orch s)) \<Longrightarrow> test_cycle env tsk ctx code s = Again t \<Longrightarrow> P t"
    and leave: "\<And>s t. P s \<Longrightarrow> int (rp_cycle s) \<le> max_repair_cycles (oc_config (rp_orch s)) \<Longrightarrow> test_cycle env tsk ctx code s = Leave t \<Longrightarrow> Q t"
    and abandon: "\<And>s t. P s \<Longrightarrow> int (rp_cycle s) \<le> max_repair_cycles (oc_config (rp_orch s)) \<Longrightarrow> test_cycle env tsk ctx code s = Abandon t \<Longrightarrow> Q t"
    and stop: "\<And>s. P s \<Longrightarrow> Q s"
  shows "Q s'"
  using assms(1,2) look again leave abandon stop
proof (induction env tsk ctx code s rule: repair_loop.induct)
  case (1 env tsk ctx code s0)
  define s where "s = s0\<lparr>rp_orch := look_cancelled env (4 + rp_cycle s0) (rp_orch s0)\<rparr>"
  define go where "go \<longleftrightarrow> int (rp_cycle s0) \<le> max_repair_cycles (oc_config (rp_orch s0)) \<and> \<not> oc_cancelled (rp_orch s)"
  have P: "P s"
    using 1(3,4) by (simp add: s_def)
  have eq: "repair_loop env tsk ctx code s0 =
     (if go then (case test_cycle env tsk ctx code s of Again s' \<Rightarrow> repair_loop env tsk ctx code s' | Leave s' \<Rightarrow> (True, s') | Abandon s' \<Rightarrow> (False, s'))
      else (True, s))"
    by (subst repair_loop.simps) (simp add: s_def go_def Let_def)
  show ?case
  proof (cases go)
    case False
    then show ?thesis using 1(2,8) P by (auto simp: eq)
  next
    case True
    then have bound: "int (rp_cycle s) \<le> max_repair_cycles (oc_config (rp_orch s))"
      by (simp add: go_def s_def)
    show ?thesis
    proof (cases "test_cycle env tsk ctx code s")
      case (Again s1)
      then show ?thesis
        using 1(1) [OF s_def True [unfolded go_def] Again] 1(2) 1(4-8) 1(5) [OF P bound Again] True
        by (simp add: eq)
    next
      case (Leave s1)
      then show ?thesis using 1(2) 1(6) [OF P bound Leave] True by (simp add: eq)
    next
      case (Abandon s1)
      then show ?thesis using 1(2) 1(7) [OF P bound Abandon] True by (simp add: eq)
    qed
  qed
qed

lemma test_cycle_dead:
  assumes "out_of_service Role_Tester (rp_orch s)" "\<not> rp_passed s"
  shows "case test_cycle env tsk ctx code s of
           Again t \<Rightarrow> out_of_service Role_Tester (rp_orch t) \<and> \<not> rp_passed t
         | Leave t \<Rightarrow> \<not> rp_passed t
         | Abandon t \<Rightarrow> \<not> rp_passed t"
proof -
  let ?oc = "emitProgress ''Testing'' ''TesterAgent'' ''STARTED''
            (''Running test and build validation (Cycle '' @ nat_string (rp_cycle s) @ '')...'') (rp_orch s)"
  have "run_role (wf_agent env (rp_call s)) Role_Tester ''Run build and test suite for recent changes'' ctx ?oc (rp_registry s)
      = (Returned busy_result, ?oc, rp_registry s)"
    using assms(1) by (intro run_role_dead) simp
  then show ?thesis
    using assms
    by (auto simp: test_cycle_def Let_def tests_ok_def busy_result_def empty_result_def split: prod.splits bool.splits
        dest: repair_keeps_tester)
qed

lemma repair_loop_dead:
  assumes "repair_loop env tsk ctx code s = (ok, s')" "out_of_service Role_Tester (rp_orch s)" "\<not> rp_passed s"
  shows "\<not> rp_passed s'"
proof (rule repair_loop_rule [of env tsk ctx code s ok s' "\<lambda>s. out_of_service Role_Tester (rp_orch s) \<and> \<not> rp_passed s"
      "\<lambda>s. \<not> rp_passed s"])
  fix s t :: repair_state assume "out_of_service Role_Tester (rp_orch s) \<and> \<not> rp_passed s"
  with test_cycle_dead [of s env tsk ctx code] show
    "test_cycle env tsk ctx code s = Again t \<Longrightarrow> out_of_service Role_Tester (rp_orch t) \<and> \<not> rp_passed t"
    "test_cycle env tsk ctx code s = Leave t \<Longrightarrow> \<not> rp_passed t"
    "test_cycle env tsk ctx code s = Abandon t \<Longrightarrow> \<not> rp_passed t"
    by simp_all
qed (use assms in \<open>simp_all add: out_of_service_look\<close>)

text \<open>
  The repairs cannot save a failed run of the tests. When the run of the tester ends without success (the model fails,
  its iterations are used up, it is cancelled), the debugger and the coder are still sent to repair, but in every
  later cycle the tester only answers that it is busy: the tests never pass.
\<close>

theorem failed_tester_never_passes:
  assumes "oc_agents oc \<noteq> None" "run_role e Role_Tester tsk' ctx' oc r = (Returned res, rp_orch s, r')" "\<not> ar_success res"
    and "\<not> rp_passed s" "repair_loop env tsk ctx code s = (ok, s')"
  shows "\<not> rp_passed s'"
  using repair_loop_dead [OF assms(5)] failed_run_out_of_service [OF assms(1-3)] assms(4) by blast

subsection \<open>Results of a workflow\<close>














subsection \<open>After a cancellation\<close>

fun workflow_step :: "workflow_env \<times> string \<times> (string, string) umap \<Rightarrow> Orchestrator \<times> ToolRegistry \<times> WorkflowResult option list \<Rightarrow>
    Orchestrator \<times> ToolRegistry \<times> WorkflowResult option list" where
  "workflow_step (env, tsk, ctx) (oc, r, ws) = (case runWorkflow env tsk ctx oc r of (w, oc', r') \<Rightarrow> (oc', r', ws @ [w]))"

definition useless :: "WorkflowResult option \<Rightarrow> bool" where
  "useless v \<longleftrightarrow> (\<exists>w. v = Some w \<and> \<not> wr_success w \<and> wr_errors w \<in> {[''Workflow cancelled''], [''Planning failed'']})"

lemma workflow_without_planner:
  assumes "out_of_service Role_Planner oc" "runWorkflow env tsk ctx oc r = (v, oc', r')"
  shows "useless v \<and> r' = r \<and> out_of_service Role_Planner oc'"
proof -
  define oc2 where "oc2 = look_cancelled env 0 (emitProgress ''Workflow'' ''Orchestrator'' ''STARTED'' (''Beginning task: '' @ tsk)
            (initializeAgents (oc\<lparr>oc_cancelled := False\<rparr>)))"
  define oc3 where "oc3 = emitProgress ''Planning'' ''PlannerAgent'' ''STARTED'' ''Decomposing task into subtasks...'' oc2"
  have dead: "out_of_service Role_Planner oc2" "out_of_service Role_Planner oc3"
    using assms(1) unfolding oc3_def oc2_def by (simp_all add: out_of_service_look out_of_service_initialize)
  define plan where "plan = \<lparr>pr_goal = tsk, pr_steps = [], pr_is_valid = False, pr_raw_plan = []\<rparr>"
  have "generatePlan (wf_agent env 0) (wf_parse_plan env) tsk ctx (agent_of Role_Planner oc3) r =
      (Some plan, agent_of Role_Planner oc3, r)"
    using dead(2) by (auto simp: generatePlan_def execute_dead out_of_service_def agent_of_def plan_def busy_result_def empty_result_def)
  then have "runWorkflow env tsk ctx oc r =
     (if oc_cancelled oc2 then (Some (add_error ''Workflow cancelled'' (start_result tsk)), oc2, r)
      else (Some (add_error ''Planning failed'' ((start_result tsk)\<lparr>wr_plan := plan, wr_total_iterations := 1\<rparr>)),
            emitProgress ''Planning'' ''PlannerAgent'' ''FAILED'' ''Failed to generate valid plan'' oc3, r))"
    unfolding runWorkflow_def Let_def oc2_def [symmetric] oc3_def [symmetric]
    by (simp add: plan_def put_agent_self [OF dead(2)])
  then show ?thesis
    using assms(2) dead by (auto simp: useless_def add_error_def start_result_def split: if_splits)
qed

text \<open>
  Cancelling a workflow is for good. After \<open>cancel\<close> on an orchestrator that has its agents, every later
  \<open>runWorkflow\<close>, however many and with whatever task and model, ends without success at its planning, and no tool is
  called: the agents stay cancelled, and only the flag of the orchestrator is reset.
\<close>

theorem cancelled_orchestrator_useless:
  assumes "oc_agents oc \<noteq> None" "fold workflow_step runs (cancel_workflow oc, r, []) = (oc', r', ws)"
  shows "r' = r \<and> length ws = length runs \<and> list_all useless ws"
proof -
  have "r' = r \<and> length ws = length ws0 + length runs \<and> (list_all useless ws0 \<longrightarrow> list_all useless ws)"
    if "out_of_service Role_Planner o0" "fold workflow_step runs (o0, r, ws0) = (oc', r', ws)" for o0 ws0
    using that
  proof (induction runs arbitrary: o0 ws0)
    case Nil
    then show ?case by simp
  next
    case (Cons x runs)
    obtain env tsk ctx where x: "x = (env, tsk, ctx)"
      using prod_cases3 by blast
    obtain v o1 r1 where run: "runWorkflow env tsk ctx o0 r = (v, o1, r1)"
      using prod_cases3 by blast
    note w = workflow_without_planner [OF Cons.prems(1) run]
    with Cons.prems(2) have "fold workflow_step runs (o1, r, ws0 @ [v]) = (oc', r', ws)"
      by (simp add: x run)
    with Cons.IH [of o1 "ws0 @ [v]"] w show ?case by auto
  qed
  from this [of "cancel_workflow oc" "[]"] assms show ?thesis
    by (simp add: out_of_service_cancel)
qed

subsection \<open>Witnesses\<close>









definition demo_workflow :: workflow_env where
  "demo_workflow = \<lparr>wf_agent = (\<lambda>_. hi_env []), wf_cancel = (\<lambda>_. False), wf_parse_plan = (\<lambda>_. None), wf_parse_review = (\<lambda>_. None),
     wf_now = ''1'', wf_time = 9, wf_others = demo_others, wf_call_time = (\<lambda>_. 1)\<rparr>"










theorem cancelled_orchestrator_useless_witness:
  "\<exists>oc' ws. fold workflow_step [(demo_workflow, ''again'', []), (demo_workflow, ''once more'', [])]
     (cancel_workflow (initializeAgents (new_Orchestrator default_orchestrator_config)), new_ToolRegistry, []) = (oc', new_ToolRegistry, ws) \<and>
     length ws = 2 \<and> list_all useless ws"
proof -
  obtain oc' r ws where f: "fold workflow_step [(demo_workflow, ''again'', []), (demo_workflow, ''once more'', [])]
     (cancel_workflow (initializeAgents (new_Orchestrator default_orchestrator_config)), new_ToolRegistry, []) = (oc', r, ws)"
    using prod_cases3 by blast
  have "r = new_ToolRegistry \<and> length ws = 2 \<and> list_all useless ws"
    using cancelled_orchestrator_useless [OF _ f] by (simp add: initializeAgents_def new_Orchestrator_def)
  with f show ?thesis by blast
qed

theorem failed_tester_never_passes_witness:
  "\<exists>oc r res s ok s'. run_role (hi_env []) Role_Tester ''Run the tests'' []
       ((new_Orchestrator default_orchestrator_config)\<lparr>oc_agents := Some (\<lambda>_. demo_agent 0)\<rparr>) new_ToolRegistry = (Returned res, oc, r) \<and>
     rp_orch s = oc \<and> repair_loop demo_workflow ''add a test'' [] [] s = (ok, s') \<and> \<not> rp_passed s'"
proof -
  let ?oc = "(new_Orchestrator default_orchestrator_config)\<lparr>oc_agents := Some (\<lambda>_. demo_agent 0)\<rparr>"
  obtain res a where ex: "execute (hi_env []) ''Run the tests'' [] (demo_agent 0) new_ToolRegistry = (Returned res, a, new_ToolRegistry)"
    and bad: "\<not> ar_success res"
    by (simp add: execute_def executeLoop_def start_loop_def Let_def finish_run_def empty_result_def)
  define s where "s = \<lparr>rp_orch = put_agent Role_Tester a ?oc, rp_registry = new_ToolRegistry, rp_iterations = 0, rp_cycle = 0, rp_cycles_used = 0,
     rp_errors = [], rp_last_output = [], rp_passed = False, rp_call = 3\<rparr>"
  have run: "run_role (hi_env []) Role_Tester ''Run the tests'' [] ?oc new_ToolRegistry = (Returned res, rp_orch s, new_ToolRegistry)"
    by (simp add: run_role_def agent_of_def ex s_def)
  obtain ok s' where loop: "repair_loop demo_workflow ''add a test'' [] [] s = (ok, s')"
    by force
  have "\<not> rp_passed s'"
    by (rule failed_tester_never_passes [OF _ run bad _ loop]) (simp_all add: s_def)
  with run loop show ?thesis by blast
qed

end
