(* ===== verification/Std_Sort.thy ===== *)
theory Std_Sort
  imports Prelude
begin

text \<open>
  The contract of \<open>std::sort\<close>: a permutation in which no element precedes one that is less than it, when the
  comparison is a strict weak order. The order of equivalent elements is left open, so the routine is a parameter of the
  operations that sort, and \<open>insertion_sort\<close> shows that the contract can be met.
\<close>

definition strict_weak :: "('a \<Rightarrow> 'a \<Rightarrow> bool) \<Rightarrow> bool" where
  "strict_weak lt \<longleftrightarrow> (\<forall>x. \<not> lt x x) \<and> (\<forall>x y z. lt x y \<longrightarrow> lt y z \<longrightarrow> lt x z) \<and>
     (\<forall>x y z. lt x z \<longrightarrow> lt x y \<or> lt y z)"

type_synonym 'a sort_routine = "('a \<Rightarrow> 'a \<Rightarrow> bool) \<Rightarrow> 'a list \<Rightarrow> 'a list"

definition std_sort :: "'a sort_routine \<Rightarrow> bool" where
  "std_sort srt \<longleftrightarrow> (\<forall>lt xs. mset (srt lt xs) = mset xs \<and>
     (strict_weak lt \<longrightarrow> sorted_wrt (\<lambda>x y. \<not> lt y x) (srt lt xs)))"

lemma std_sort_mset: "std_sort srt \<Longrightarrow> mset (srt lt xs) = mset xs"
  by (simp add: std_sort_def)

lemma std_sort_set: "std_sort srt \<Longrightarrow> set (srt lt xs) = set xs"
  using std_sort_mset mset_eq_setD by blast

lemma std_sort_length: "std_sort srt \<Longrightarrow> length (srt lt xs) = length xs"
  using std_sort_mset mset_eq_length by blast

lemma std_sort_sorted: "std_sort srt \<Longrightarrow> strict_weak lt \<Longrightarrow> sorted_wrt (\<lambda>x y. \<not> lt y x) (srt lt xs)"
  by (simp add: std_sort_def)

lemma std_sort_distinct: "std_sort srt \<Longrightarrow> distinct (srt lt xs) = distinct xs"
  by (metis std_sort_mset mset_eq_imp_distinct_iff)

text \<open>Comparing by a key of a linear order.\<close>

lemma strict_weak_key: "strict_weak (\<lambda>x y. (f x :: 'b :: linorder) < f y)"
  by (auto simp: strict_weak_def)

lemma strict_weak_key_desc: "strict_weak (\<lambda>x y. (f x :: 'b :: linorder) > f y)"
  by (auto simp: strict_weak_def)

subsection \<open>A routine that meets the contract\<close>

fun insert_by :: "('a \<Rightarrow> 'a \<Rightarrow> bool) \<Rightarrow> 'a \<Rightarrow> 'a list \<Rightarrow> 'a list" where
  "insert_by lt x [] = [x]"
| "insert_by lt x (y # ys) = (if lt y x then y # insert_by lt x ys else x # y # ys)"

definition insertion_sort :: "'a sort_routine" where
  "insertion_sort lt xs = foldr (insert_by lt) xs []"

lemma mset_insert_by [simp]: "mset (insert_by lt x ys) = add_mset x (mset ys)"
  by (induction ys) auto

lemma set_insert_by [simp]: "set (insert_by lt x ys) = insert x (set ys)"
  by (induction ys) auto

lemma sorted_insert_by:
  assumes "strict_weak lt" "sorted_wrt (\<lambda>x y. \<not> lt y x) ys"
  shows "sorted_wrt (\<lambda>x y. \<not> lt y x) (insert_by lt x ys)"
  using assms(2)
proof (induction ys)
  case Nil
  then show ?case by simp
next
  case (Cons y ys)
  have asym: "lt y x \<Longrightarrow> \<not> lt x y"
    using assms(1) unfolding strict_weak_def by blast
  have "lt z x \<Longrightarrow> lt z y \<or> lt y x" for z
    using assms(1) unfolding strict_weak_def by blast
  then have "\<not> lt z x" if "\<not> lt y x" "z \<in> set ys" for z
    using that Cons.prems by auto
  then show ?case
    using Cons asym by auto
qed

lemma insertion_sort_ok: "std_sort insertion_sort"
proof -
  have "mset (foldr (insert_by lt) xs []) = mset xs" for lt and xs :: "'a list"
    by (induction xs) auto
  moreover have "sorted_wrt (\<lambda>x y. \<not> lt y x) (foldr (insert_by lt) xs [])" if "strict_weak lt" for lt and xs :: "'a list"
    by (induction xs) (auto intro: sorted_insert_by that)
  ultimately show ?thesis
    by (simp add: std_sort_def insertion_sort_def)
qed

end
