(* ===== verification/Context_Engine.thy ===== *)
theory Context_Engine
  imports Std_Sort Char_Class Complex_Main
begin

text \<open>
  The context engine: \<open>src/src/context/ContextEngine.h\<close> and \<open>ContextEngine.cpp\<close>.

  \<^item> The mutex is a field of the state, since the engine locks it again while it holds it: \<open>std::mutex\<close> is not
    recursive. A method gives no value when its thread blocks for ever; the mutex then stays held. Calls of several threads are
    whole calls one after the other, so a held mutex is held by a thread that never returns.
  \<^item> \<open>std::sort\<close> is a parameter, the clock gives the times, \<open>double\<close> is \<open>real\<close>. Token counts are natural numbers, the
    statistics 64-bit words. The callbacks are numbered; what they are told is recorded in \<open>ce_notified\<close>.
  \<^item> \<open>operator[]\<close> of the two dependency maps also inserts an empty set when the key is missing; nothing can observe it.
\<close>

subsection \<open>Data\<close>

datatype ContextType = Ctx_Conversation | Ctx_File | Ctx_Symbol | Ctx_Dependency | Ctx_GitHistory | Ctx_TerminalOutput | Ctx_Error |
  Ctx_Documentation | Ctx_UserPreference

fun type_number :: "ContextType \<Rightarrow> nat" where
  "type_number Ctx_Conversation = 0"
| "type_number Ctx_File = 1"
| "type_number Ctx_Symbol = 2"
| "type_number Ctx_Dependency = 3"
| "type_number Ctx_GitHistory = 4"
| "type_number Ctx_TerminalOutput = 5"
| "type_number Ctx_Error = 6"
| "type_number Ctx_Documentation = 7"
| "type_number Ctx_UserPreference = 8"

record ContextItem =
  ci_id :: string
  ci_type :: ContextType
  ci_content :: string
  ci_source :: string
  ci_relevance_score :: real
  ci_created_at :: int
  ci_accessed_at :: int
  ci_access_count :: nat
  ci_token_count :: nat
  ci_tags :: "string list"
  ci_metadata :: "(string, string) umap"
  ci_pinned :: bool

record ConversationState =
  cs_conversation_id :: string
  cs_current_goal :: string
  cs_active_tasks :: "string list"
  cs_open_questions :: "string list"
  cs_constraints :: "string list"
  cs_assumptions :: "string list"
  cs_todo_list :: "string list"
  cs_running_agents :: "string list"
  cs_current_directory :: string
  cs_current_git_branch :: string
  cs_user_preferences :: "(string, string) umap"
  cs_project_summary :: string
  cs_important_files :: "string list"
  cs_recent_edits :: "string list"
  cs_failed_attempts :: "string list"
  cs_current_objective :: string
  cs_confidence_estimate :: real
  cs_created_at :: int
  cs_accessed_at :: int
  cs_time_spent :: int
  cs_remaining_budget :: int
  cs_active_tool_outputs :: "(string \<times> string) list"

text \<open>What \<open>startConversation\<close> sets; the two durations are not initialised there and have the values \<open>u\<close>, \<open>v\<close> of the memory.\<close>

definition new_conversation :: "string \<Rightarrow> string \<Rightarrow> int \<Rightarrow> int \<times> int \<Rightarrow> ConversationState" where
  "new_conversation i goal_text now uv = \<lparr>cs_conversation_id = i, cs_current_goal = goal_text, cs_active_tasks = [], cs_open_questions = [],
     cs_constraints = [], cs_assumptions = [], cs_todo_list = [], cs_running_agents = [], cs_current_directory = [],
     cs_current_git_branch = [], cs_user_preferences = [], cs_project_summary = [], cs_important_files = [], cs_recent_edits = [],
     cs_failed_attempts = [], cs_current_objective = [], cs_confidence_estimate = 1, cs_created_at = now, cs_accessed_at = 0,
     cs_time_spent = fst uv, cs_remaining_budget = snd uv, cs_active_tool_outputs = []\<rparr>"

record ContextStats =
  xs_total_items :: "64 word"
  xs_total_tokens :: "64 word"
  xs_conversation_items :: "64 word"
  xs_file_items :: "64 word"
  xs_symbol_items :: "64 word"
  xs_dependency_items :: "64 word"
  xs_average_relevance_score :: real
  xs_cache_hits :: "64 word"
  xs_cache_misses :: "64 word"
  xs_evictions :: "64 word"

definition zero_context_stats :: ContextStats where
  "zero_context_stats = \<lparr>xs_total_items = 0, xs_total_tokens = 0, xs_conversation_items = 0, xs_file_items = 0, xs_symbol_items = 0,
     xs_dependency_items = 0, xs_average_relevance_score = 0, xs_cache_hits = 0, xs_cache_misses = 0, xs_evictions = 0\<rparr>"

text \<open>\<open>None\<close> in a field: not initialised.\<close>

record FileRanking =
  fr_file_path :: string
  fr_score :: real
  fr_reasons :: "string list"
  fr_edit_distance :: "nat option"
  fr_reference_count :: nat
  fr_is_dependency :: bool
  fr_is_test :: bool

record SymbolContext =
  sy_symbol_name :: string
  sy_symbol_type :: string
  sy_file_path :: string
  sy_definition :: string
  sy_usages :: "string list"
  sy_callers :: "string list"
  sy_callees :: "string list"
  sy_documentation :: string

record ContextEngine =
  ce_running :: bool
  ce_stopping :: bool
  ce_mutex_held :: bool
  ce_conversations :: "(string, ConversationState) umap"
  ce_context_items :: "(string, (string, ContextItem) umap) umap"
  ce_all_items :: "(string, ContextItem) umap"
  ce_file_rankings :: "(string, FileRanking list) umap"
  ce_symbols :: "(string, SymbolContext) umap"
  ce_subscribers :: nat
  ce_notified :: "(nat \<times> string \<times> string) list"
  ce_stats :: ContextStats
  ce_token_budget :: nat
  ce_tokens :: "(string, nat) umap"
  ce_id_counter :: nat
  ce_file_dependencies :: "(string, string list) umap"
  ce_file_dependents :: "(string, string list) umap"
  ce_recent_files :: "(int \<times> string) list"

definition new_ContextEngine :: ContextEngine where
  "new_ContextEngine = \<lparr>ce_running = False, ce_stopping = False, ce_mutex_held = False, ce_conversations = [], ce_context_items = [],
     ce_all_items = [], ce_file_rankings = [], ce_symbols = [], ce_subscribers = 0, ce_notified = [], ce_stats = zero_context_stats,
     ce_token_budget = 8000, ce_tokens = [], ce_id_counter = 0, ce_file_dependencies = [], ce_file_dependents = [],
     ce_recent_files = []\<rparr>"

subsection \<open>Locking\<close>

type_synonym 'a engine_call = "ContextEngine \<Rightarrow> 'a option \<times> ContextEngine"

text \<open>\<open>std::lock_guard\<close> around a body.\<close>

definition locked :: "'a engine_call \<Rightarrow> 'a engine_call" where
  "locked body e =
     (if ce_mutex_held e then (None, e)
      else case body (e\<lparr>ce_mutex_held := True\<rparr>) of
             (None, e') \<Rightarrow> (None, e')
           | (Some x, e') \<Rightarrow> (Some x, e'\<lparr>ce_mutex_held := False\<rparr>))"

definition and_then :: "'a engine_call \<Rightarrow> ('a \<Rightarrow> 'b engine_call) \<Rightarrow> 'b engine_call" where
  "and_then m f e = (case m e of (None, e') \<Rightarrow> (None, e') | (Some x, e') \<Rightarrow> f x e')"

definition returning :: "'a \<Rightarrow> 'a engine_call" where
  "returning x e = (Some x, e)"

definition reading :: "(ContextEngine \<Rightarrow> 'a) \<Rightarrow> 'a engine_call" where
  "reading f = locked (\<lambda>e. (Some (f e), e))"

definition subscribeToChanges :: "unit engine_call" where
  "subscribeToChanges = locked (\<lambda>e. (Some (), e\<lparr>ce_subscribers := ce_subscribers e + 1\<rparr>))"

definition notifyChange :: "string \<Rightarrow> string \<Rightarrow> unit engine_call" where
  "notifyChange conversation_id change_type =
     and_then (locked (\<lambda>e. (Some (ce_subscribers e), e)))
       (\<lambda>n e. (Some (), e\<lparr>ce_notified := ce_notified e @ map (\<lambda>k. (k, conversation_id, change_type)) [0..<n]\<rparr>))"

subsection \<open>Life cycle\<close>

definition initialize_context :: "ContextEngine \<Rightarrow> ContextEngine" where
  "initialize_context e = (if ce_running e then e else e\<lparr>ce_stats := zero_context_stats, ce_running := True\<rparr>)"

definition shutdown_context :: "ContextEngine \<Rightarrow> ContextEngine" where
  "shutdown_context e = e\<lparr>ce_stopping := True, ce_running := False\<rparr>"

definition stop_context :: "ContextEngine \<Rightarrow> ContextEngine" where
  "stop_context e = e\<lparr>ce_stopping := True\<rparr>"

subsection \<open>Ids, tokens and relevance\<close>

definition generateId :: "nat \<Rightarrow> ContextEngine \<Rightarrow> string \<times> ContextEngine" where
  "generateId ms e =
     (let n = ce_id_counter e + 1
      in (''ctx_'' @ nat_string n @ ''_'' @ nat_string ms, e\<lparr>ce_id_counter := n\<rparr>))"

definition countTokens :: "string \<Rightarrow> nat" where
  "countTokens content = (if content = [] then 0 else length content div 4 + 1)"

text \<open>\<open>max_tokens * 4\<close> in 64 bits.\<close>

definition truncateToTokenLimit :: "string \<Rightarrow> 64 word \<Rightarrow> string" where
  "truncateToTokenLimit content max_tokens =
     (let max_chars = unat (max_tokens * 4) in if length content \<le> max_chars then content else take max_chars content)"

definition calculateFileRelevance :: "string \<Rightarrow> string \<Rightarrow> ContextEngine \<Rightarrow> real" where
  "calculateFileRelevance file_path conversation_id e =
     (let important = (case map_of (ce_conversations e) conversation_id of
                         None \<Rightarrow> 0
                       | Some c \<Rightarrow> 3 / 10 * real (length (filter (\<lambda>f. f = file_path) (cs_important_files c))));
          recent = (if list_ex (\<lambda>(t, path). path = file_path) (ce_recent_files e) then 2 / 10 else 0);
          dependent = (case map_of (ce_file_dependents e) file_path of
                         None \<Rightarrow> 0
                       | Some fs \<Rightarrow> if fs \<noteq> [] then 1 / 10 else 0)
      in min 1 (1 / 2 + important + recent + dependent))"

definition default_relevance :: "ContextType \<Rightarrow> string \<Rightarrow> string \<Rightarrow> ContextEngine \<Rightarrow> real" where
  "default_relevance ty source conversation_id e =
     (case ty of
        Ctx_File \<Rightarrow> calculateFileRelevance source conversation_id e
      | Ctx_Symbol \<Rightarrow> 8 / 10
      | Ctx_Dependency \<Rightarrow> 7 / 10
      | _ \<Rightarrow> 1 / 2)"

subsection \<open>Conversations\<close>

definition start_body :: "string \<Rightarrow> nat \<Rightarrow> int \<Rightarrow> int \<times> int \<Rightarrow> ContextEngine \<Rightarrow> string \<times> ContextEngine" where
  "start_body initial_goal ms now uv e =
     (case generateId ms e of
        (i, e1) \<Rightarrow> (i, e1\<lparr>ce_conversations := AList.update i (new_conversation i initial_goal now uv) (ce_conversations e1),
                         ce_context_items := AList.update i [] (ce_context_items e1),
                         ce_tokens := AList.update i 0 (ce_tokens e1)\<rparr>))"

definition startConversation :: "string \<Rightarrow> nat \<Rightarrow> int \<Rightarrow> int \<times> int \<Rightarrow> string engine_call" where
  "startConversation initial_goal ms now uv = locked (\<lambda>e.
     case start_body initial_goal ms now uv e of (i, e1) \<Rightarrow> and_then (notifyChange i ''started'') (\<lambda>_. returning i) e1)"

definition end_body :: "string \<Rightarrow> ContextEngine \<Rightarrow> ContextEngine" where
  "end_body conversation_id e =
     e\<lparr>ce_all_items := fold (\<lambda>(item_id, item). AList.delete item_id) (um_get [] (ce_context_items e) conversation_id) (ce_all_items e),
       ce_context_items := AList.delete conversation_id (ce_context_items e),
       ce_conversations := AList.delete conversation_id (ce_conversations e),
       ce_tokens := AList.delete conversation_id (ce_tokens e)\<rparr>"

definition endConversation :: "string \<Rightarrow> bool engine_call" where
  "endConversation conversation_id = locked (\<lambda>e.
     case map_of (ce_conversations e) conversation_id of
       None \<Rightarrow> (Some False, e)
     | Some _ \<Rightarrow> and_then (notifyChange conversation_id ''ended'') (\<lambda>_. returning True) (end_body conversation_id e))"

definition getConversationState :: "string \<Rightarrow> ConversationState option engine_call" where
  "getConversationState conversation_id = reading (\<lambda>e. map_of (ce_conversations e) conversation_id)"

definition updateConversationState :: "string \<Rightarrow> ConversationState \<Rightarrow> int \<Rightarrow> bool engine_call" where
  "updateConversationState conversation_id state now = locked (\<lambda>e.
     case map_of (ce_conversations e) conversation_id of
       None \<Rightarrow> (Some False, e)
     | Some _ \<Rightarrow> and_then (notifyChange conversation_id ''state_updated'') (\<lambda>_. returning True)
         (e\<lparr>ce_conversations := AList.map_entry conversation_id (\<lambda>_. state\<lparr>cs_accessed_at := now\<rparr>) (ce_conversations e)\<rparr>))"

text \<open>An item into the tables of its conversation, the table of all items and the token counts.\<close>

definition put_item :: "string \<Rightarrow> ContextItem \<Rightarrow> ContextEngine \<Rightarrow> ContextEngine" where
  "put_item conversation_id item e =
     e\<lparr>ce_context_items := AList.update conversation_id
           (AList.update (ci_id item) item (um_get [] (ce_context_items e) conversation_id)) (ce_context_items e),
       ce_all_items := AList.update (ci_id item) item (ce_all_items e),
       ce_tokens := AList.update conversation_id (um_get 0 (ce_tokens e) conversation_id + ci_token_count item) (ce_tokens e)\<rparr>"

definition new_item :: "string \<Rightarrow> ContextType \<Rightarrow> string \<Rightarrow> string \<Rightarrow> string list \<Rightarrow> (string, string) umap \<Rightarrow> real \<Rightarrow> int \<Rightarrow> ContextItem" where
  "new_item i ty content source tags meta score now = \<lparr>ci_id = i, ci_type = ty, ci_content = content, ci_source = source,
     ci_relevance_score = score, ci_created_at = now, ci_accessed_at = now, ci_access_count = 1, ci_token_count = countTokens content,
     ci_tags = tags, ci_metadata = meta, ci_pinned = False\<rparr>"

definition count_item :: "ContextItem \<Rightarrow> ContextStats \<Rightarrow> ContextStats" where
  "count_item item st = st\<lparr>xs_total_items := xs_total_items st + 1, xs_total_tokens := xs_total_tokens st + of_nat (ci_token_count item)\<rparr>"

definition message_body :: "string \<Rightarrow> string \<Rightarrow> string \<Rightarrow> nat \<Rightarrow> int \<Rightarrow> ContextEngine \<Rightarrow> ContextEngine" where
  "message_body conversation_id role content ms now e =
     (case generateId ms e of
        (i, e1) \<Rightarrow>
          (let item = new_item i Ctx_Conversation content conversation_id [] [(''role'', role)] 1 now;
               st = count_item item (ce_stats e1)
           in (put_item conversation_id item e1)\<lparr>ce_stats := st\<lparr>xs_conversation_items := xs_conversation_items st + 1\<rparr>\<rparr>))"

definition addMessage :: "string \<Rightarrow> string \<Rightarrow> string \<Rightarrow> nat \<Rightarrow> int \<Rightarrow> bool engine_call" where
  "addMessage conversation_id role content ms now = locked (\<lambda>e.
     case map_of (ce_conversations e) conversation_id of
       None \<Rightarrow> (Some False, e)
     | Some _ \<Rightarrow> and_then (notifyChange conversation_id ''message_added'') (\<lambda>_. returning True)
         (message_body conversation_id role content ms now e))"

definition history_of :: "ContextItem sort_routine \<Rightarrow> string \<Rightarrow> nat \<Rightarrow> ContextEngine \<Rightarrow> (string \<times> string) list" where
  "history_of srt conversation_id max_messages e =
     (case (map_of (ce_conversations e) conversation_id, map_of (ce_context_items e) conversation_id) of
        (Some _, Some items) \<Rightarrow>
          (let messages = srt (\<lambda>a b. ci_created_at a < ci_created_at b) (filter (\<lambda>i. ci_type i = Ctx_Conversation) (map snd items))
           in map (\<lambda>m. (um_get ''unknown'' (ci_metadata m) ''role'', ci_content m)) (drop (length messages - max_messages) messages))
      | _ \<Rightarrow> [])"

definition getConversationHistory :: "ContextItem sort_routine \<Rightarrow> string \<Rightarrow> nat \<Rightarrow> (string \<times> string) list engine_call" where
  "getConversationHistory srt conversation_id max_messages = reading (history_of srt conversation_id max_messages)"

subsection \<open>Items\<close>

definition count_type :: "ContextType \<Rightarrow> ContextStats \<Rightarrow> ContextStats" where
  "count_type ty st =
     (case ty of
        Ctx_File \<Rightarrow> st\<lparr>xs_file_items := xs_file_items st + 1\<rparr>
      | Ctx_Symbol \<Rightarrow> st\<lparr>xs_symbol_items := xs_symbol_items st + 1\<rparr>
      | Ctx_Dependency \<Rightarrow> st\<lparr>xs_dependency_items := xs_dependency_items st + 1\<rparr>
      | _ \<Rightarrow> st)"

definition item_body :: "string \<Rightarrow> ContextType \<Rightarrow> string \<Rightarrow> string \<Rightarrow> string list \<Rightarrow> nat \<Rightarrow> int \<Rightarrow> ContextEngine \<Rightarrow> string \<times> ContextEngine" where
  "item_body conversation_id ty content source tags ms now e =
     (case generateId ms e of
        (i, e1) \<Rightarrow>
          (let item = new_item i ty content source tags [] (default_relevance ty source conversation_id e1) now
           in (i, (put_item conversation_id item e1)\<lparr>ce_stats := count_type ty (count_item item (ce_stats e1))\<rparr>)))"

definition addContextItem :: "string \<Rightarrow> ContextType \<Rightarrow> string \<Rightarrow> string \<Rightarrow> string list \<Rightarrow> nat \<Rightarrow> int \<Rightarrow> string engine_call" where
  "addContextItem conversation_id ty content source tags ms now = locked (\<lambda>e.
     case item_body conversation_id ty content source tags ms now e of
       (i, e1) \<Rightarrow> and_then (notifyChange conversation_id ''context_added'') (\<lambda>_. returning i) e1)"

definition getContextItem :: "string \<Rightarrow> ContextItem option engine_call" where
  "getContextItem item_id = locked (\<lambda>e.
     case map_of (ce_all_items e) item_id of
       None \<Rightarrow> (Some None, e\<lparr>ce_stats := (ce_stats e)\<lparr>xs_cache_misses := xs_cache_misses (ce_stats e) + 1\<rparr>\<rparr>)
     | Some item \<Rightarrow> (Some (Some item), e\<lparr>ce_stats := (ce_stats e)\<lparr>xs_cache_hits := xs_cache_hits (ce_stats e) + 1\<rparr>\<rparr>))"

text \<open>The first conversation in the order of the table that has the item loses it.\<close>

definition remove_body :: "string \<Rightarrow> ContextItem \<Rightarrow> ContextEngine \<Rightarrow> ContextEngine" where
  "remove_body item_id item e =
     (let e1 = (case find (\<lambda>(c, items). map_of items item_id \<noteq> None) (ce_context_items e) of
                  None \<Rightarrow> e
                | Some (c, items) \<Rightarrow>
                    e\<lparr>ce_tokens := AList.update c (um_get 0 (ce_tokens e) c - ci_token_count item) (ce_tokens e),
                      ce_stats := (ce_stats e)\<lparr>xs_total_tokens := xs_total_tokens (ce_stats e) - of_nat (ci_token_count item)\<rparr>,
                      ce_context_items := AList.map_entry c (AList.delete item_id) (ce_context_items e)\<rparr>)
      in e1\<lparr>ce_all_items := AList.delete item_id (ce_all_items e1),
            ce_stats := (ce_stats e1)\<lparr>xs_total_items := xs_total_items (ce_stats e1) - 1\<rparr>\<rparr>)"

definition removeContextItem :: "string \<Rightarrow> bool engine_call" where
  "removeContextItem item_id = locked (\<lambda>e.
     case map_of (ce_all_items e) item_id of None \<Rightarrow> (Some False, e) | Some item \<Rightarrow> (Some True, remove_body item_id item e))"

definition change_item :: "string \<Rightarrow> (ContextItem \<Rightarrow> ContextItem) \<Rightarrow> ContextEngine \<Rightarrow> ContextEngine" where
  "change_item item_id f e = e\<lparr>ce_all_items := AList.map_entry item_id f (ce_all_items e)\<rparr>"

definition updateRelevance :: "string \<Rightarrow> real \<Rightarrow> bool engine_call" where
  "updateRelevance item_id score = locked (\<lambda>e.
     (Some (map_of (ce_all_items e) item_id \<noteq> None), change_item item_id (ci_relevance_score_update (\<lambda>_. max 0 (min 1 score))) e))"

definition pinContextItem :: "string \<Rightarrow> bool \<Rightarrow> bool engine_call" where
  "pinContextItem item_id pinned = locked (\<lambda>e.
     (Some (map_of (ce_all_items e) item_id \<noteq> None), change_item item_id (ci_pinned_update (\<lambda>_. pinned)) e))"

definition updateAccessTime :: "int \<Rightarrow> ContextItem \<Rightarrow> ContextItem" where
  "updateAccessTime now item = item\<lparr>ci_accessed_at := now, ci_access_count := ci_access_count item + 1\<rparr>"

subsection \<open>File rankings\<close>

definition rank_item :: "string \<Rightarrow> ContextItem \<Rightarrow> FileRanking" where
  "rank_item query item =
     (let hit = contains (ci_source item) query
      in \<lparr>fr_file_path = ci_source item, fr_score = ci_relevance_score item + (if hit then 3 / 10 else 0),
          fr_reasons = (if hit then [''filename_match''] else []), fr_edit_distance = Some 0, fr_reference_count = 1,
          fr_is_dependency = False, fr_is_test = (contains (ci_source item) ''test'' \<or> contains (ci_source item) ''Test'')\<rparr>)"

definition by_score :: "FileRanking sort_routine \<Rightarrow> nat \<Rightarrow> FileRanking list \<Rightarrow> FileRanking list" where
  "by_score srt max_results rankings = take max_results (srt (\<lambda>a b. fr_score a > fr_score b) rankings)"

definition files_of :: "FileRanking sort_routine \<Rightarrow> string \<Rightarrow> string \<Rightarrow> nat \<Rightarrow> ContextEngine \<Rightarrow> FileRanking list" where
  "files_of srt query conversation_id max_results e = by_score srt max_results
     (case (map_of (ce_conversations e) conversation_id, map_of (ce_context_items e) conversation_id) of
        (Some _, Some items) \<Rightarrow> map (rank_item query) (filter (\<lambda>i. ci_type i = Ctx_File) (map snd items))
      | _ \<Rightarrow> [])"

definition rankFiles :: "FileRanking sort_routine \<Rightarrow> string \<Rightarrow> string \<Rightarrow> nat \<Rightarrow> FileRanking list engine_call" where
  "rankFiles srt query conversation_id max_results = reading (files_of srt query conversation_id max_results)"

definition usage_ranking :: "string \<Rightarrow> FileRanking" where
  "usage_ranking usage = \<lparr>fr_file_path = usage, fr_score = 7 / 10, fr_reasons = [''uses_symbol''], fr_edit_distance = None,
     fr_reference_count = 1, fr_is_dependency = False, fr_is_test = contains usage ''test''\<rparr>"

definition symbol_files :: "FileRanking sort_routine \<Rightarrow> string \<Rightarrow> nat \<Rightarrow> ContextEngine \<Rightarrow> FileRanking list" where
  "symbol_files srt symbol_name max_results e = by_score srt max_results
     (case map_of (ce_symbols e) symbol_name of
        None \<Rightarrow> []
      | Some sy \<Rightarrow>
          \<lparr>fr_file_path = sy_file_path sy, fr_score = 9 / 10, fr_reasons = [''contains_symbol''], fr_edit_distance = None,
           fr_reference_count = length (sy_usages sy), fr_is_dependency = False, fr_is_test = False\<rparr> # map usage_ranking (sy_usages sy))"

definition getFilesRelatedToSymbol :: "FileRanking sort_routine \<Rightarrow> string \<Rightarrow> nat \<Rightarrow> FileRanking list engine_call" where
  "getFilesRelatedToSymbol srt symbol_name max_results = reading (symbol_files srt symbol_name max_results)"

definition recent_ranking :: "nat \<Rightarrow> (int \<times> string) list \<Rightarrow> nat \<Rightarrow> FileRanking" where
  "recent_ranking n sorted_files i =
     (let path = snd (sorted_files ! i)
      in \<lparr>fr_file_path = path, fr_score = 1 - real i / real n, fr_reasons = [''recently_modified''], fr_edit_distance = Some i,
          fr_reference_count = 0, fr_is_dependency = False, fr_is_test = contains path ''test''\<rparr>)"

definition recent_of :: "(int \<times> string) sort_routine \<Rightarrow> nat \<Rightarrow> ContextEngine \<Rightarrow> FileRanking list" where
  "recent_of srt n e =
     (let sorted_files = srt (\<lambda>a b. fst a > fst b) (ce_recent_files e)
      in map (recent_ranking n sorted_files) [0..<min n (length sorted_files)])"

definition getRecentlyModifiedFiles :: "(int \<times> string) sort_routine \<Rightarrow> nat \<Rightarrow> FileRanking list engine_call" where
  "getRecentlyModifiedFiles srt n = reading (recent_of srt n)"

definition chain_ranking :: "string \<Rightarrow> nat \<Rightarrow> ContextEngine \<Rightarrow> string \<Rightarrow> nat \<Rightarrow> FileRanking" where
  "chain_ranking file_path depth e current d =
     \<lparr>fr_file_path = current, fr_score = 1 - real d / real (depth + 1), fr_reasons = [''dependency_chain''],
      fr_edit_distance = Some d, fr_reference_count = length (um_get [] (ce_file_dependents e) current),
      fr_is_dependency = (current \<noteq> file_path), fr_is_test = contains current ''test''\<rparr>"

text \<open>The loop over \<open>to_visit\<close>, a stack whose top is the last element; the visited names with their depths in order.\<close>

definition all_dependencies :: "(string, string list) umap \<Rightarrow> string set" where
  "all_dependencies deps = (\<Union>fs \<in> set (map snd deps). set fs)"

lemma dependencies_in: "set (um_get [] deps f) \<subseteq> all_dependencies deps"
proof (cases "map_of deps f")
  case (Some fs)
  then have "fs \<in> set (map snd deps)"
    using map_of_SomeD [OF Some] by force
  with Some show ?thesis
    by (auto simp: um_get_def all_dependencies_def)
qed (simp add: um_get_def)

lemma finite_all_dependencies [simp]: "finite (all_dependencies deps)"
  by (simp add: all_dependencies_def)

definition open_files :: "(string, string list) umap \<Rightarrow> (string \<times> nat) list \<Rightarrow> (string \<times> nat) list \<Rightarrow> string set" where
  "open_files deps to_visit visited = (fst ` set to_visit \<union> all_dependencies deps) - fst ` set visited"

lemma open_files_less:
  assumes "current \<notin> fst ` set visited" "set to_visit' \<subseteq> set to_visit \<union> (\<lambda>d. (d, k)) ` all_dependencies deps"
  shows "card (open_files deps to_visit' (visited @ [(current, d)])) < card (open_files deps (to_visit @ [(current, d)]) visited)"
proof (rule psubset_card_mono)
  show "finite (open_files deps (to_visit @ [(current, d)]) visited)"
    by (simp add: open_files_def)
  have "fst ` set to_visit' \<subseteq> fst ` set to_visit \<union> all_dependencies deps"
    using assms(2) by (auto dest!: subsetD)
  then have "open_files deps to_visit' (visited @ [(current, d)]) \<subseteq> open_files deps (to_visit @ [(current, d)]) visited"
    unfolding open_files_def by auto
  moreover have "current \<in> open_files deps (to_visit @ [(current, d)]) visited"
    "current \<notin> open_files deps to_visit' (visited @ [(current, d)])"
    using assms(1) by (simp_all add: open_files_def)
  ultimately show "open_files deps to_visit' (visited @ [(current, d)]) \<subset> open_files deps (to_visit @ [(current, d)]) visited"
    by blast
qed

function chain_loop :: "(string, string list) umap \<Rightarrow> nat \<Rightarrow> (string \<times> nat) list \<Rightarrow> (string \<times> nat) list \<Rightarrow> (string \<times> nat) list" where
  "chain_loop deps depth to_visit visited =
     (if to_visit = [] then visited
      else let (current, d) = last to_visit; rest = butlast to_visit
           in if current \<in> fst ` set visited \<or> d > depth then chain_loop deps depth rest visited
              else chain_loop deps depth (rest @ (if d < depth then map (\<lambda>f. (f, d + 1)) (um_get [] deps current) else []))
                     (visited @ [(current, d)]))"
  by pat_completeness auto
termination
proof (relation "measures [\<lambda>(deps, depth, to_visit, visited). card (open_files deps to_visit visited), \<lambda>(deps, depth, to_visit, visited). length to_visit]", goal_cases)
  case 1
  show ?case by simp
next
  case (2 deps depth to_visit visited x current d rest)
  then have "open_files deps rest visited \<subseteq> open_files deps to_visit visited"
    by (auto simp: open_files_def dest: in_set_butlastD intro: rev_image_eqI)
  then have "card (open_files deps rest visited) \<le> card (open_files deps to_visit visited)"
    by (intro card_mono) (auto simp: open_files_def)
  with 2 show ?case by auto
next
  case (3 deps depth to_visit visited x current d rest)
  then have split: "to_visit = rest @ [(current, d)]"
    using append_butlast_last_id [of to_visit] by simp
  have "card (open_files deps (rest @ (if d < depth then map (\<lambda>f. (f, d + 1)) (um_get [] deps current) else [])) (visited @ [(current, d)]))
      < card (open_files deps (rest @ [(current, d)]) visited)"
    using 3(5) dependencies_in [of deps current] by (intro open_files_less [where k = "d + 1"]) auto
  then show ?case by (simp add: split)
qed

declare chain_loop.simps [simp del]

definition chain_of :: "string \<Rightarrow> nat \<Rightarrow> ContextEngine \<Rightarrow> FileRanking list" where
  "chain_of file_path depth e =
     map (\<lambda>(f, d). chain_ranking file_path depth e f d) (chain_loop (ce_file_dependencies e) depth [(file_path, 0)] [])"

definition getDependencyChain :: "string \<Rightarrow> nat \<Rightarrow> FileRanking list engine_call" where
  "getDependencyChain file_path depth = reading (chain_of file_path depth)"

subsection \<open>Symbols\<close>

definition findSymbol :: "string \<Rightarrow> string \<Rightarrow> SymbolContext option engine_call" where
  "findSymbol symbol_name file_path = locked (\<lambda>e.
     let miss = (Some None, e\<lparr>ce_stats := (ce_stats e)\<lparr>xs_cache_misses := xs_cache_misses (ce_stats e) + 1\<rparr>\<rparr>)
     in case map_of (ce_symbols e) symbol_name of
          None \<Rightarrow> miss
        | Some sy \<Rightarrow>
            if file_path = [] \<or> sy_file_path sy = file_path
            then (Some (Some sy), e\<lparr>ce_stats := (ce_stats e)\<lparr>xs_cache_hits := xs_cache_hits (ce_stats e) + 1\<rparr>\<rparr>)
            else miss)"

definition getSymbolsInFile :: "string \<Rightarrow> SymbolContext list engine_call" where
  "getSymbolsInFile file_path = reading (\<lambda>e. filter (\<lambda>sy. sy_file_path sy = file_path) (map snd (ce_symbols e)))"

definition linked_symbols :: "(SymbolContext \<Rightarrow> string list) \<Rightarrow> string \<Rightarrow> ContextEngine \<Rightarrow> SymbolContext list" where
  "linked_symbols names symbol_name e =
     (case map_of (ce_symbols e) symbol_name of
        None \<Rightarrow> []
      | Some sy \<Rightarrow> List.map_filter (map_of (ce_symbols e)) (names sy))"

definition getSymbolCallers :: "string \<Rightarrow> SymbolContext list engine_call" where
  "getSymbolCallers symbol_name = reading (linked_symbols sy_callers symbol_name)"

definition getSymbolCallees :: "string \<Rightarrow> SymbolContext list engine_call" where
  "getSymbolCallees symbol_name = reading (linked_symbols sy_callees symbol_name)"

subsection \<open>Selecting and building\<close>

definition better_item :: "ContextItem \<Rightarrow> ContextItem \<Rightarrow> bool" where
  "better_item a b = (if ci_pinned a \<noteq> ci_pinned b then ci_pinned a else ci_relevance_score a > ci_relevance_score b)"

fun select_loop :: "nat \<Rightarrow> nat \<Rightarrow> ContextItem list \<Rightarrow> ContextItem list" where
  "select_loop max_tokens current_tokens [] = []"
| "select_loop max_tokens current_tokens (item # items) =
     (if current_tokens + ci_token_count item \<le> max_tokens
      then item # select_loop max_tokens (current_tokens + ci_token_count item) items
      else if ci_pinned item then item # select_loop max_tokens current_tokens items
      else select_loop max_tokens current_tokens items)"

definition selectContextItems :: "ContextItem sort_routine \<Rightarrow> string \<Rightarrow> nat \<Rightarrow> ContextEngine \<Rightarrow> ContextItem list" where
  "selectContextItems srt conversation_id max_tokens e =
     (case map_of (ce_context_items e) conversation_id of
        None \<Rightarrow> []
      | Some items \<Rightarrow> select_loop max_tokens 0 (srt better_item (map snd items)))"

abbreviation ctx_nl :: string where
  "ctx_nl \<equiv> [newline]"

definition bullet_list :: "string \<Rightarrow> string list \<Rightarrow> string" where
  "bullet_list heading xs = (if xs = [] then [] else heading @ ctx_nl @ concat (map (\<lambda>x. ''- '' @ x @ ctx_nl) xs) @ ctx_nl)"

definition state_text :: "ConversationState \<Rightarrow> string" where
  "state_text st =
     (if cs_current_goal st \<noteq> [] then ''Current Goal: '' @ cs_current_goal st @ ctx_nl @ ctx_nl else []) @
     (if cs_current_objective st \<noteq> [] then ''Current Objective: '' @ cs_current_objective st @ ctx_nl @ ctx_nl else []) @
     bullet_list ''TODO List:'' (cs_todo_list st) @ bullet_list ''Important Files:'' (cs_important_files st)"

definition item_text :: "ContextItem \<Rightarrow> string" where
  "item_text item = ''['' @ nat_string (type_number (ci_type item)) @ ''] '' @
     (if ci_source item \<noteq> [] then ci_source item @ '': '' else []) @ ci_content item @ ctx_nl @ ctx_nl"

definition context_text :: "ContextItem sort_routine \<Rightarrow> string \<Rightarrow> nat \<Rightarrow> ContextEngine \<Rightarrow> string" where
  "context_text srt conversation_id max_tokens e =
     ''=== CONTEXT ==='' @ ctx_nl @ ctx_nl @
     (case map_of (ce_conversations e) conversation_id of None \<Rightarrow> [] | Some st \<Rightarrow> state_text st) @
     ''Relevant Information:'' @ ctx_nl @ ctx_nl @
     concat (map item_text (selectContextItems srt conversation_id max_tokens e)) @
     ''=== END CONTEXT ==='' @ ctx_nl"

definition buildContext :: "ContextItem sort_routine \<Rightarrow> string \<Rightarrow> nat \<Rightarrow> string engine_call" where
  "buildContext srt conversation_id max_tokens = reading (context_text srt conversation_id max_tokens)"

definition buildPrompt :: "ContextItem sort_routine \<Rightarrow> string \<Rightarrow> string \<Rightarrow> string \<Rightarrow> nat \<Rightarrow> string engine_call" where
  "buildPrompt srt conversation_id system_prompt tsk max_tokens = locked
     (and_then (buildContext srt conversation_id (max_tokens div 2))
        (\<lambda>text. returning (system_prompt @ ctx_nl @ ctx_nl @ text @ ctx_nl @ ctx_nl @ ''=== TASK ==='' @ ctx_nl @ tsk @ ctx_nl @
           ''=== END TASK ==='' @ ctx_nl)))"

definition query_score :: "string \<Rightarrow> ContextItem \<Rightarrow> real" where
  "query_score query item =
     ci_relevance_score item + (if contains (ci_content item) query then 3 / 10 else 0) +
     (if contains (ci_source item) query then 2 / 10 else 0) +
     real (length (filter (\<lambda>t. contains t query) (ci_tags item))) * (1 / 10)"

definition relevant_of :: "ContextItem sort_routine \<Rightarrow> string \<Rightarrow> string \<Rightarrow> nat \<Rightarrow> ContextEngine \<Rightarrow> ContextItem list" where
  "relevant_of srt conversation_id query max_items e =
     (case map_of (ce_context_items e) conversation_id of
        None \<Rightarrow> []
      | Some items \<Rightarrow> take max_items (srt (\<lambda>a b. ci_relevance_score a > ci_relevance_score b)
          (map (\<lambda>item. item\<lparr>ci_relevance_score := min 1 (query_score query item)\<rparr>) (map snd items))))"

definition getRelevantContext :: "ContextItem sort_routine \<Rightarrow> string \<Rightarrow> string \<Rightarrow> nat \<Rightarrow> ContextItem list engine_call" where
  "getRelevantContext srt conversation_id query max_items = reading (relevant_of srt conversation_id query max_items)"

subsection \<open>Eviction\<close>

text \<open>\<open>evictIfNeeded\<close> is called by no other function. It evicts down to nine tenths of the budget.\<close>

definition evict_item :: "string \<Rightarrow> string \<Rightarrow> ContextEngine \<Rightarrow> ContextEngine" where
  "evict_item conversation_id i e =
     (case map_of (um_get [] (ce_context_items e) conversation_id) i of
        None \<Rightarrow> e
      | Some item \<Rightarrow>
          e\<lparr>ce_tokens := AList.map_entry conversation_id (\<lambda>n. n - ci_token_count item) (ce_tokens e),
            ce_stats := (ce_stats e)\<lparr>xs_total_tokens := xs_total_tokens (ce_stats e) - of_nat (ci_token_count item),
                                    xs_evictions := xs_evictions (ce_stats e) + 1\<rparr>,
            ce_all_items := AList.delete i (ce_all_items e),
            ce_context_items := AList.map_entry conversation_id (AList.delete i) (ce_context_items e)\<rparr>)"

fun evict_loop :: "string \<Rightarrow> (string \<times> real) list \<Rightarrow> ContextEngine \<Rightarrow> ContextEngine" where
  "evict_loop conversation_id [] e = e"
| "evict_loop conversation_id ((i, score) # cs) e =
     (if real (um_get 0 (ce_tokens e) conversation_id) \<le> real (ce_token_budget e) * (9 / 10) then e
      else evict_loop conversation_id cs (evict_item conversation_id i e))"

definition evictIfNeeded :: "(string \<times> real) sort_routine \<Rightarrow> string \<Rightarrow> ContextEngine \<Rightarrow> ContextEngine" where
  "evictIfNeeded srt conversation_id e =
     (case (map_of (ce_tokens e) conversation_id, map_of (ce_context_items e) conversation_id) of
        (Some current_tokens, Some items) \<Rightarrow>
          if current_tokens \<le> ce_token_budget e then e
          else evict_loop conversation_id
                 (srt (\<lambda>a b. snd a < snd b) (map (\<lambda>(i, item). (i, ci_relevance_score item)) (filter (\<lambda>(i, item). \<not> ci_pinned item) items))) e
      | _ \<Rightarrow> e)"

subsection \<open>Budget and statistics\<close>

definition getTotalTokens :: "string \<Rightarrow> nat engine_call" where
  "getTotalTokens conversation_id = reading (\<lambda>e. um_get 0 (ce_tokens e) conversation_id)"

definition clearCache :: "unit engine_call" where
  "clearCache = locked (\<lambda>e. (Some (), e\<lparr>ce_symbols := [], ce_file_rankings := [],
     ce_stats := (ce_stats e)\<lparr>xs_cache_hits := 0, xs_cache_misses := 0\<rparr>\<rparr>))"

definition context_stats :: "ContextStats engine_call" where
  "context_stats = reading ce_stats"

definition setTokenBudget :: "nat \<Rightarrow> unit engine_call" where
  "setTokenBudget n = locked (\<lambda>e. (Some (), e\<lparr>ce_token_budget := n\<rparr>))"

definition getTokenUsage :: "nat engine_call" where
  "getTokenUsage = reading (\<lambda>e. sum_list (map snd (ce_tokens e)))"

subsection \<open>Calls\<close>

text \<open>The public methods that take the mutex.\<close>

datatype context_call =
    Start_Conversation string nat int "int \<times> int"
  | End_Conversation string
  | Get_State string
  | Update_State string ConversationState int
  | Add_Message string string string nat int
  | Get_History "ContextItem sort_routine" string nat
  | Add_Item string ContextType string string "string list" nat int
  | Get_Item string
  | Remove_Item string
  | Update_Relevance string real
  | Pin_Item string bool
  | Rank_Files "FileRanking sort_routine" string string nat
  | Symbol_Files "FileRanking sort_routine" string nat
  | Recent_Files "(int \<times> string) sort_routine" nat
  | Dependency_Chain string nat
  | Find_Symbol string string
  | Symbols_In_File string
  | Symbol_Callers string
  | Symbol_Callees string
  | Build_Context "ContextItem sort_routine" string nat
  | Build_Prompt "ContextItem sort_routine" string string string nat
  | Relevant_Context "ContextItem sort_routine" string string nat
  | Total_Tokens string
  | Clear_Cache
  | Get_Stats
  | Set_Budget nat
  | Token_Usage
  | Subscribe
  | Notify string string

definition returns :: "'a option \<times> ContextEngine \<Rightarrow> bool \<times> ContextEngine" where
  "returns p = (fst p \<noteq> None, snd p)"

fun run_context_call :: "context_call \<Rightarrow> ContextEngine \<Rightarrow> bool \<times> ContextEngine" where
  "run_context_call (Start_Conversation g ms now uv) e = returns (startConversation g ms now uv e)"
| "run_context_call (End_Conversation c) e = returns (endConversation c e)"
| "run_context_call (Get_State c) e = returns (getConversationState c e)"
| "run_context_call (Update_State c st now) e = returns (updateConversationState c st now e)"
| "run_context_call (Add_Message c role text ms now) e = returns (addMessage c role text ms now e)"
| "run_context_call (Get_History srt c n) e = returns (getConversationHistory srt c n e)"
| "run_context_call (Add_Item c ty text src tags ms now) e = returns (addContextItem c ty text src tags ms now e)"
| "run_context_call (Get_Item i) e = returns (getContextItem i e)"
| "run_context_call (Remove_Item i) e = returns (removeContextItem i e)"
| "run_context_call (Update_Relevance i x) e = returns (updateRelevance i x e)"
| "run_context_call (Pin_Item i b) e = returns (pinContextItem i b e)"
| "run_context_call (Rank_Files srt q c n) e = returns (rankFiles srt q c n e)"
| "run_context_call (Symbol_Files srt s n) e = returns (getFilesRelatedToSymbol srt s n e)"
| "run_context_call (Recent_Files srt n) e = returns (getRecentlyModifiedFiles srt n e)"
| "run_context_call (Dependency_Chain f n) e = returns (getDependencyChain f n e)"
| "run_context_call (Find_Symbol s f) e = returns (findSymbol s f e)"
| "run_context_call (Symbols_In_File f) e = returns (getSymbolsInFile f e)"
| "run_context_call (Symbol_Callers s) e = returns (getSymbolCallers s e)"
| "run_context_call (Symbol_Callees s) e = returns (getSymbolCallees s e)"
| "run_context_call (Build_Context srt c n) e = returns (buildContext srt c n e)"
| "run_context_call (Build_Prompt srt c p t n) e = returns (buildPrompt srt c p t n e)"
| "run_context_call (Relevant_Context srt c q n) e = returns (getRelevantContext srt c q n e)"
| "run_context_call (Total_Tokens c) e = returns (getTotalTokens c e)"
| "run_context_call Clear_Cache e = returns (clearCache e)"
| "run_context_call Get_Stats e = returns (context_stats e)"
| "run_context_call (Set_Budget n) e = returns (setTokenBudget n e)"
| "run_context_call Token_Usage e = returns (getTokenUsage e)"
| "run_context_call Subscribe e = returns (subscribeToChanges e)"
| "run_context_call (Notify c t) e = returns (notifyChange c t e)"

text \<open>The calls of all threads in their order, and which of them returned.\<close>

fun run_context_calls :: "context_call list \<Rightarrow> ContextEngine \<Rightarrow> bool list \<times> ContextEngine" where
  "run_context_calls [] e = ([], e)"
| "run_context_calls (c # cs) e =
     (let (ok, e1) = run_context_call c e; (oks, e2) = run_context_calls cs e1 in (ok # oks, e2))"

end
