(* ===== verification/Context_Properties.thy ===== *)
theory Context_Properties
  imports Context_Engine
begin

text \<open>
  Properties of the context engine.

  \<^item> The engine stalls at the first call that writes: the notification takes the mutex a second time.
  \<^item> What a selection under a token limit holds, whatever the order of equivalent items.
  \<^item> What the depth-limited walk over the dependencies lists, and that it can miss files within its depth.
\<close>

subsection \<open>Stalling\<close>

text \<open>An engine whose mutex is free and that has no conversation.\<close>

definition fresh_engine :: "ContextEngine \<Rightarrow> bool" where
  "fresh_engine e \<longleftrightarrow> \<not> ce_mutex_held e \<and> ce_conversations e = [] \<and> ce_context_items e = []"

fun stalls :: "context_call \<Rightarrow> bool" where
  "stalls (Start_Conversation g ms now uv) \<longleftrightarrow> True"
| "stalls (Add_Item c ty text src tags ms now) \<longleftrightarrow> True"
| "stalls (Build_Prompt srt c p t n) \<longleftrightarrow> True"
| "stalls _ \<longleftrightarrow> False"

lemma returns_simps [simp]: "returns (Some x, e) = (True, e)" "returns (None, e) = (False, e)"
  by (simp_all add: returns_def)

lemma locked_held: "ce_mutex_held e \<Longrightarrow> locked body e = (None, e)"
  by (simp add: locked_def)

lemma notify_held: "ce_mutex_held e \<Longrightarrow> notifyChange c t e = (None, e)"
  by (simp add: notifyChange_def and_then_def locked_held)

lemma held_blocks: "ce_mutex_held e \<Longrightarrow> run_context_call c e = (False, e)"
  by (cases c) (simp_all add: startConversation_def endConversation_def getConversationState_def reading_def
      updateConversationState_def addMessage_def getConversationHistory_def addContextItem_def getContextItem_def removeContextItem_def
      updateRelevance_def pinContextItem_def rankFiles_def getFilesRelatedToSymbol_def getRecentlyModifiedFiles_def
      getDependencyChain_def findSymbol_def getSymbolsInFile_def getSymbolCallers_def getSymbolCallees_def buildContext_def
      buildPrompt_def getRelevantContext_def getTotalTokens_def clearCache_def context_stats_def setTokenBudget_def getTokenUsage_def
      subscribeToChanges_def locked_held notify_held)

lemma reading_free: "\<not> ce_mutex_held e \<Longrightarrow> reading f e = (Some (f (e\<lparr>ce_mutex_held := True\<rparr>)), e\<lparr>ce_mutex_held := False\<rparr>)"
  by (simp add: reading_def locked_def)

lemma fresh_returns:
  assumes "fresh_engine e" "\<not> stalls c"
  shows "\<exists>e'. run_context_call c e = (True, e') \<and> fresh_engine e'"
proof -
  have free: "\<not> ce_mutex_held e" and none: "ce_conversations e = []" "ce_context_items e = []"
    using assms(1) by (simp_all add: fresh_engine_def)
  show ?thesis
    using assms(2) free none
    by (cases c) (simp_all add: fresh_engine_def getConversationState_def getConversationHistory_def rankFiles_def
        getFilesRelatedToSymbol_def getRecentlyModifiedFiles_def getDependencyChain_def getSymbolsInFile_def getSymbolCallers_def
        getSymbolCallees_def buildContext_def getRelevantContext_def getTotalTokens_def context_stats_def getTokenUsage_def
        reading_free locked_def endConversation_def updateConversationState_def addMessage_def getContextItem_def
        removeContextItem_def updateRelevance_def pinContextItem_def findSymbol_def clearCache_def setTokenBudget_def
        subscribeToChanges_def notifyChange_def and_then_def change_item_def remove_body_def Let_def split: option.split)
qed

lemma fresh_stalls:
  assumes "fresh_engine e" "stalls c"
  shows "\<exists>e'. run_context_call c e = (False, e') \<and> ce_mutex_held e'"
  using assms
  by (cases c) (simp_all add: fresh_engine_def locked_def startConversation_def start_body_def generateId_def Let_def and_then_def
      notify_held addContextItem_def item_body_def put_item_def buildPrompt_def buildContext_def reading_def)

lemma held_blocks_all: "ce_mutex_held e \<Longrightarrow> run_context_calls cs e = (replicate (length cs) False, e)"
  by (induction cs) (simp_all add: held_blocks)

text \<open>
  C28: The context engine stalls at its first write. Whatever the threads call on a new engine, the calls return only as
  long as nobody starts a conversation, adds an item or builds a prompt; the first such call blocks in its own
  notification (or in \<open>buildContext\<close>) while it holds the mutex, and every later call of every thread blocks as well. So no
  conversation is ever started by a call that returns.
\<close>

theorem engine_stalls:
  assumes "fresh_engine e" "run_context_calls cs e = (oks, e')"
  shows "let n = length (takeWhile (\<lambda>c. \<not> stalls c) cs)
     in oks = replicate n True @ replicate (length cs - n) False \<and> (if n = length cs then fresh_engine e' else ce_mutex_held e')"
  using assms
proof (induction cs arbitrary: e oks e')
  case Nil
  then show ?case by simp
next
  case (Cons c cs)
  show ?case
  proof (cases "stalls c")
    case True
    then obtain e1 where "run_context_call c e = (False, e1)" "ce_mutex_held e1"
      using fresh_stalls [OF Cons.prems(1)] by blast
    then show ?thesis
      using Cons.prems(2) True by (auto simp: held_blocks_all)
  next
    case False
    then obtain e1 where e1: "run_context_call c e = (True, e1)" "fresh_engine e1"
      using fresh_returns [OF Cons.prems(1)] by blast
    obtain oks1 e2 where rest: "run_context_calls cs e1 = (oks1, e2)"
      by force
    with e1(1) Cons.prems(2) have "oks = True # oks1" "e' = e2"
      by simp_all
    with Cons.IH [OF e1(2) rest] False show ?thesis
      by (simp add: Let_def)
  qed
qed

theorem engine_stalls_witness:
  "\<exists>oks e'. run_context_calls [Get_Stats, Start_Conversation ''port the parser'' 1 1 (0, 0), Get_State ''ctx_1_1''] (initialize_context new_ContextEngine) =
     (oks, e') \<and> oks = [True, False, False] \<and> ce_mutex_held e'"
proof -
  obtain oks e' where run: "run_context_calls [Get_Stats, Start_Conversation ''port the parser'' 1 1 (0, 0), Get_State ''ctx_1_1'']
      (initialize_context new_ContextEngine) = (oks, e')"
    by force
  have "fresh_engine (initialize_context new_ContextEngine)"
    by (simp add: fresh_engine_def initialize_context_def new_ContextEngine_def)
  from engine_stalls [OF this run] run show ?thesis
    by (simp add: Let_def numeral_2_eq_2)
qed

subsection \<open>Selection\<close>

definition tokens_of :: "ContextItem list \<Rightarrow> nat" where
  "tokens_of items = sum_list (map ci_token_count items)"

lemma tokens_of_simps [simp]: "tokens_of [] = 0" "tokens_of (x # xs) = ci_token_count x + tokens_of xs"
  by (simp_all add: tokens_of_def)

lemma select_loop_subseq: "subseq (select_loop m c xs) xs"
  by (induction m c xs rule: select_loop.induct) auto

lemma select_loop_pinned: "x \<in> set xs \<Longrightarrow> ci_pinned x \<Longrightarrow> x \<in> set (select_loop m c xs)"
  by (induction m c xs rule: select_loop.induct) auto

lemma select_loop_limit:
  "c \<le> m \<Longrightarrow> c + tokens_of (filter (\<lambda>x. \<not> ci_pinned x) (select_loop m c xs)) \<le> m"
  by (induction m c xs rule: select_loop.induct) (auto split: if_splits)

lemma select_loop_left_out:
  "x \<in> set xs \<Longrightarrow> x \<notin> set (select_loop m c xs) \<Longrightarrow> \<not> ci_pinned x \<and> m < c + tokens_of (select_loop m c xs) + ci_token_count x"
proof (induction m c xs rule: select_loop.induct)
  case (2 m c y ys)
  show ?case
  proof (cases "c + ci_token_count y \<le> m")
    case True
    then show ?thesis using 2 by auto
  next
    case False
    then show ?thesis using 2 by (cases "ci_pinned y") auto
  qed
qed simp

lemma subseq_in: "subseq xs ys \<Longrightarrow> set xs \<subseteq> set ys"
  by (auto dest: list_emb_set)

lemma subseq_sorted: "subseq xs ys \<Longrightarrow> sorted_wrt p ys \<Longrightarrow> sorted_wrt p xs"
proof (induction xs ys rule: list_emb.induct)
  case (list_emb_Cons2 x y xs ys)
  then show ?case using subseq_in [of xs ys] by auto
qed auto

lemma strict_weak_better: "strict_weak better_item"
  by (auto simp: strict_weak_def better_item_def split: if_splits)

text \<open>
  C27: What \<open>selectContextItems\<close> selects, for every sorting routine that meets the contract of \<open>std::sort\<close>: items of the
  conversation, pinned ones first and then by falling relevance; all pinned items, even beyond the limit; of the
  others no more than the limit allows; and nothing that would still fit is left out.
\<close>

theorem selection_right:
  assumes "std_sort srt" "map_of (ce_context_items e) conversation_id = Some items"
  shows "let sel = selectContextItems srt conversation_id max_tokens e
     in set sel \<subseteq> snd ` set items \<and> sorted_wrt (\<lambda>a b. \<not> better_item b a) sel \<and>
        tokens_of (filter (\<lambda>x. \<not> ci_pinned x) sel) \<le> max_tokens \<and>
        (\<forall>x \<in> snd ` set items - set sel. \<not> ci_pinned x \<and> max_tokens < tokens_of sel + ci_token_count x)"
proof -
  let ?xs = "srt better_item (map snd items)" and ?sel = "selectContextItems srt conversation_id max_tokens e"
  have sel: "?sel = select_loop max_tokens 0 ?xs"
    by (simp add: selectContextItems_def assms(2))
  have xs: "set ?xs = snd ` set items"
    by (simp add: std_sort_set [OF assms(1)])
  have "sorted_wrt (\<lambda>a b. \<not> better_item b a) ?xs"
    by (rule std_sort_sorted [OF assms(1) strict_weak_better])
  then have "sorted_wrt (\<lambda>a b. \<not> better_item b a) ?sel"
    unfolding sel using select_loop_subseq subseq_sorted by blast
  moreover have "set ?sel \<subseteq> snd ` set items"
    unfolding sel using select_loop_subseq [of max_tokens 0 ?xs] xs using subseq_in by blast
  moreover have "tokens_of (filter (\<lambda>x. \<not> ci_pinned x) ?sel) \<le> max_tokens"
    unfolding sel using select_loop_limit [of 0 max_tokens ?xs] by simp
  moreover have "\<not> ci_pinned x \<and> max_tokens < tokens_of ?sel + ci_token_count x" if "x \<in> snd ` set items - set ?sel" for x
    using select_loop_left_out [of x ?xs max_tokens 0] that xs unfolding sel by auto
  ultimately show ?thesis
    by (simp add: Let_def)
qed

subsection \<open>Dependency chain\<close>

definition dep_edges :: "(string, string list) umap \<Rightarrow> (string \<times> string) set" where
  "dep_edges deps = {(x, y). y \<in> set (um_get [] deps x)}"

definition chain_inv :: "(string, string list) umap \<Rightarrow> nat \<Rightarrow> string \<Rightarrow> (string \<times> nat) list \<Rightarrow> (string \<times> nat) list \<Rightarrow> bool" where
  "chain_inv deps depth f to_visit visited \<longleftrightarrow>
     (\<forall>(g, d) \<in> set to_visit \<union> set visited. d \<le> depth \<and> (f, g) \<in> dep_edges deps ^^ d) \<and> distinct (map fst visited) \<and>
     (\<forall>(g, d) \<in> set visited. d < depth \<longrightarrow> (\<forall>h. (g, h) \<in> dep_edges deps \<longrightarrow> h \<in> fst ` (set visited \<union> set to_visit))) \<and>
     (if visited = [] then to_visit = [(f, 0)] else hd visited = (f, 0))"

lemma chain_inv_skip:
  assumes "chain_inv deps depth f (rest @ [(current, d)]) visited" "current \<in> fst ` set visited"
  shows "chain_inv deps depth f rest visited"
proof -
  have "h \<in> fst ` (set visited \<union> set rest)" if "(g, k) \<in> set visited" "k < depth" "(g, h) \<in> dep_edges deps" for g k h
  proof -
    from assms(1) that have "h \<in> fst ` (set visited \<union> set (rest @ [(current, d)]))"
      unfolding chain_inv_def by blast
    with assms(2) show ?thesis by auto
  qed
  then have "\<forall>(g, k) \<in> set visited. k < depth \<longrightarrow> (\<forall>h. (g, h) \<in> dep_edges deps \<longrightarrow> h \<in> fst ` (set visited \<union> set rest))"
    by blast
  moreover have "visited \<noteq> []"
    using assms(2) by auto
  moreover have "\<forall>(g, k) \<in> set rest \<union> set visited. k \<le> depth \<and> (f, g) \<in> dep_edges deps ^^ k" "distinct (map fst visited)"
    "visited \<noteq> [] \<Longrightarrow> hd visited = (f, 0)"
    using assms(1) by (simp_all add: chain_inv_def)
  ultimately show ?thesis
    by (simp add: chain_inv_def)
qed

lemma chain_inv_visit:
  assumes "chain_inv deps depth f (rest @ [(current, d)]) visited" "current \<notin> fst ` set visited"
    and nx: "nx = (if d < depth then map (\<lambda>g. (g, d + 1)) (um_get [] deps current) else [])"
  shows "chain_inv deps depth f (rest @ nx) (visited @ [(current, d)])"
proof -
  have d: "d \<le> depth" "(f, current) \<in> dep_edges deps ^^ d"
    using assms(1) by (auto simp: chain_inv_def)
  have "k \<le> depth \<and> (f, g) \<in> dep_edges deps ^^ k" if "(g, k) \<in> set nx" for g k
    using that d by (auto simp: nx dep_edges_def split: if_splits)
  moreover have "hd (visited @ [(current, d)]) = (f, 0)"
    using assms(1) by (auto simp: chain_inv_def hd_append split: if_splits)
  moreover have "h \<in> fst ` set nx" if "d < depth" "(current, h) \<in> dep_edges deps" for h
    using that by (force simp: nx dep_edges_def)
  ultimately show ?thesis
    using assms(1,2) d unfolding chain_inv_def by (simp add: ball_Un image_Un) blast
qed

lemma chain_loop_inv:
  "chain_inv deps depth f to_visit visited \<Longrightarrow> chain_inv deps depth f [] (chain_loop deps depth to_visit visited)"
proof (induction deps depth to_visit visited rule: chain_loop.induct)
  case (1 deps depth to_visit visited)
  show ?case
  proof (cases "to_visit = []")
    case True
    then show ?thesis using 1(3) by (subst chain_loop.simps) simp
  next
    case False
    obtain current d where cd: "last to_visit = (current, d)"
      by force
    then have tv: "to_visit = butlast to_visit @ [(current, d)]"
      using False by (metis append_butlast_last_id)
    have d: "\<not> d > depth"
      using 1(3) tv unfolding chain_inv_def by (metis (no_types, lifting) Un_iff case_prodD in_set_conv_decomp not_less)
    show ?thesis
    proof (cases "current \<in> fst ` set visited")
      case True
      then have "chain_inv deps depth f (butlast to_visit) visited"
        using 1(3) tv chain_inv_skip by metis
      then show ?thesis
        using 1(1) [OF False cd [symmetric] refl refl] True False cd by (subst chain_loop.simps) simp
    next
      case new: False
      then have "chain_inv deps depth f (butlast to_visit @ (if d < depth then map (\<lambda>g. (g, d + 1)) (um_get [] deps current) else []))
          (visited @ [(current, d)])"
        using 1(3) tv chain_inv_visit [OF _ new refl] by metis
      then show ?thesis
        using 1(2) [OF False cd [symmetric] refl refl] new d False cd by (subst chain_loop.simps) simp
    qed
  qed
qed

lemma chain_lists:
  "chain_inv (ce_file_dependencies e) depth f [] (chain_loop (ce_file_dependencies e) depth [(f, 0)] [])"
  by (rule chain_loop_inv) (simp add: chain_inv_def)

lemma chain_starts: "chain_loop deps depth [(f, 0)] [] \<noteq> []"
proof
  assume "chain_loop deps depth [(f, 0)] [] = []"
  moreover have "chain_inv deps depth f [] (chain_loop deps depth [(f, 0)] [])"
    by (rule chain_loop_inv) (simp add: chain_inv_def)
  ultimately show False
    by (simp add: chain_inv_def)
qed

definition listed :: "FileRanking list \<Rightarrow> string \<Rightarrow> nat \<Rightarrow> bool" where
  "listed fs g d \<longleftrightarrow> (\<exists>r \<in> set fs. fr_file_path r = g \<and> fr_edit_distance r = Some d)"

definition diamond :: "(string, string list) umap" where
  "diamond = [(''a.h'', [''b.h'', ''c.h'']), (''c.h'', [''b.h'']), (''b.h'', [''d.h''])]"

lemma diamond_walk: "chain_loop diamond 2 [(''a.h'', 0)] [] = [(''a.h'', 0), (''c.h'', 1), (''b.h'', 2)]"
  by (simp add: chain_loop.simps diamond_def um_get_def)

lemma diamond_path: "(''a.h'', ''d.h'') \<in> dep_edges diamond ^^ 2"
  by (auto simp: numeral_2_eq_2 dep_edges_def diamond_def um_get_def)

text \<open>
  What \<open>getDependencyChain\<close> lists: first the file itself, no file twice, each with the length of a path of dependencies
  that leads to it and is within the depth, and with every listed file below the depth also all its dependencies. That is
  not all that is within the depth: a file first reached by a detour is marked as visited with the longer path, and its
  own dependencies are cut off although a shorter path has room for them.
\<close>

theorem dependency_chain_right:
  "(\<forall>e f depth. let fs = chain_of f depth e; R = dep_edges (ce_file_dependencies e)
     in distinct (map fr_file_path fs) \<and> fr_file_path (hd fs) = f \<and>
        (\<forall>g d. listed fs g d \<longrightarrow> d \<le> depth \<and> (f, g) \<in> R ^^ d \<and> (d < depth \<longrightarrow> (\<forall>h. (g, h) \<in> R \<longrightarrow> (\<exists>k. listed fs h k))))) \<and>
   (\<exists>e. (''a.h'', ''d.h'') \<in> dep_edges (ce_file_dependencies e) ^^ 2 \<and> (\<forall>k. \<not> listed (chain_of ''a.h'' 2 e) ''d.h'' k))"
proof (intro conjI allI)
  fix e f depth
  let ?vs = "chain_loop (ce_file_dependencies e) depth [(f, 0)] []" and ?fs = "chain_of f depth e"
  have listed: "listed ?fs g d \<longleftrightarrow> (g, d) \<in> set ?vs" for g d
    by (force simp: listed_def chain_of_def chain_ranking_def)
  have "map fr_file_path ?fs = map fst ?vs"
    by (simp add: chain_of_def chain_ranking_def case_prod_beta)
  moreover have "fr_file_path (hd ?fs) = fst (hd ?vs)"
    using chain_starts [of "ce_file_dependencies e" depth f] by (simp add: chain_of_def chain_ranking_def hd_map case_prod_beta)
  moreover have "hd ?vs = (f, 0)" "distinct (map fst ?vs)"
    "\<forall>(g, d) \<in> set ?vs. d \<le> depth \<and> (f, g) \<in> dep_edges (ce_file_dependencies e) ^^ d"
    "\<forall>(g, d) \<in> set ?vs. d < depth \<longrightarrow> (\<forall>h. (g, h) \<in> dep_edges (ce_file_dependencies e) \<longrightarrow> h \<in> fst ` set ?vs)"
    using chain_lists [of e depth f] chain_starts [of "ce_file_dependencies e" depth f] by (simp_all add: chain_inv_def)
  ultimately show "let fs = ?fs; R = dep_edges (ce_file_dependencies e)
     in distinct (map fr_file_path fs) \<and> fr_file_path (hd fs) = f \<and>
        (\<forall>g d. listed fs g d \<longrightarrow> d \<le> depth \<and> (f, g) \<in> R ^^ d \<and> (d < depth \<longrightarrow> (\<forall>h. (g, h) \<in> R \<longrightarrow> (\<exists>k. listed fs h k))))"
    unfolding Let_def listed by fastforce
next
  let ?e = "new_ContextEngine\<lparr>ce_file_dependencies := diamond\<rparr>"
  have "chain_of ''a.h'' 2 ?e = map (\<lambda>(f, d). chain_ranking ''a.h'' 2 ?e f d) [(''a.h'', 0), (''c.h'', 1), (''b.h'', 2)]"
    using diamond_walk by (simp add: chain_of_def)
  then have "\<forall>k. \<not> listed (chain_of ''a.h'' 2 ?e) ''d.h'' k"
    by (simp add: listed_def chain_ranking_def)
  then show "\<exists>e. (''a.h'', ''d.h'') \<in> dep_edges (ce_file_dependencies e) ^^ 2 \<and> (\<forall>k. \<not> listed (chain_of ''a.h'' 2 e) ''d.h'' k)"
    using diamond_path by (intro exI [of _ ?e]) simp
qed

theorem dependency_chain_right_witness:
  "let fs = chain_of ''a.h'' 2 (new_ContextEngine\<lparr>ce_file_dependencies := diamond\<rparr>)
   in distinct (map fr_file_path fs) \<and> fr_file_path (hd fs) = ''a.h'' \<and> listed fs ''c.h'' 1 \<and> (\<exists>k. listed fs ''b.h'' k)"
proof -
  let ?e = "new_ContextEngine\<lparr>ce_file_dependencies := diamond\<rparr>"
  have "listed (chain_of ''a.h'' 2 ?e) ''c.h'' 1"
    using diamond_walk by (simp add: chain_of_def listed_def chain_ranking_def)
  moreover have "(''c.h'', ''b.h'') \<in> dep_edges (ce_file_dependencies ?e)"
    by (simp add: dep_edges_def diamond_def um_get_def)
  ultimately show ?thesis
    using conjunct1 [OF dependency_chain_right, rule_format, of "''a.h''" 2 ?e] unfolding Let_def by fastforce
qed

text \<open>A conversation with one large pinned and two small items.\<close>

definition demo_item :: "string \<Rightarrow> nat \<Rightarrow> bool \<Rightarrow> ContextItem" where
  "demo_item i n p = (new_item i Ctx_File [] i [] [] (1 / 2) 0)\<lparr>ci_token_count := n, ci_pinned := p\<rparr>"

theorem selection_right_witness:
  "\<exists>sel. sel = selectContextItems insertion_sort ''c'' 10 (new_ContextEngine\<lparr>ce_context_items :=
       [(''c'', [(''i1'', demo_item ''i1'' 4 False), (''i2'', demo_item ''i2'' 50 True), (''i3'', demo_item ''i3'' 9 False)])]\<rparr>) \<and>
     demo_item ''i2'' 50 True \<in> set sel \<and> tokens_of (filter (\<lambda>x. \<not> ci_pinned x) sel) \<le> 10"
proof -
  let ?items = "[(''i1'', demo_item ''i1'' 4 False), (''i2'', demo_item ''i2'' 50 True), (''i3'', demo_item ''i3'' 9 False)]"
  let ?e = "new_ContextEngine\<lparr>ce_context_items := [(''c'', ?items)]\<rparr>"
  have "map_of (ce_context_items ?e) ''c'' = Some ?items"
    by simp
  from selection_right [OF insertion_sort_ok this, of 10] have
    sel: "tokens_of (filter (\<lambda>x. \<not> ci_pinned x) (selectContextItems insertion_sort ''c'' 10 ?e)) \<le> 10"
    and out: "\<forall>x \<in> snd ` set ?items - set (selectContextItems insertion_sort ''c'' 10 ?e). \<not> ci_pinned x"
    by (simp_all add: Let_def)
  have "demo_item ''i2'' 50 True \<in> set (selectContextItems insertion_sort ''c'' 10 ?e)"
  proof (rule ccontr)
    assume "demo_item ''i2'' 50 True \<notin> set (selectContextItems insertion_sort ''c'' 10 ?e)"
    with out have "\<not> ci_pinned (demo_item ''i2'' 50 True)"
      by auto
    then show False by (simp add: demo_item_def)
  qed
  with sel show ?thesis by blast
qed

end
