(* ===== verification/Git_Sandbox.thy ===== *)
theory Git_Sandbox
  imports Path_Containment Builtin_Tools
begin

text \<open>
  Branch sandboxes: \<open>src/src/workspace/BranchSandbox.h\<close> and \<open>BranchSandbox.cpp\<close>, as built on POSIX.

  \<^item> The world (files, repository, processes) is a state of any type \<open>'w\<close> that the operations pass along; \<open>host\<close> is what the
    code asks of it: running a command line (\<open>popen\<close>, the text read, the status of \<open>pclose\<close>; \<open>None\<close> when \<open>popen\<close>
    fails), \<open>exists\<close>, and the text of a file.
  \<^item> A \<open>std::expected\<close> is a sum: \<open>Inl\<close> the error, \<open>Inr\<close> the value.
  \<^item> Each method holds the mutex for its whole body, and none calls another that takes it: the mutex is left out.
\<close>

record 'w host =
  shell_run :: "string \<Rightarrow> 'w \<Rightarrow> (string \<times> int) option \<times> 'w"
  file_exists :: "string \<Rightarrow> 'w \<Rightarrow> bool"
  file_text :: "string \<Rightarrow> 'w \<Rightarrow> string option"

type_synonym ('w, 'a) git_op = "'w \<Rightarrow> (string + 'a) \<times> 'w"

definition git_return :: "'a \<Rightarrow> ('w, 'a) git_op" where
  "git_return x w = (Inr x, w)"

definition git_bind :: "('w, 'a) git_op \<Rightarrow> ('a \<Rightarrow> ('w, 'b) git_op) \<Rightarrow> ('w, 'b) git_op" where
  "git_bind m f w = (case m w of (Inl e, w') \<Rightarrow> (Inl e, w') | (Inr x, w') \<Rightarrow> f x w')"

text \<open>With both outcomes at hand, and with text before an error.\<close>

definition git_try :: "('w, 'a) git_op \<Rightarrow> (string + 'a \<Rightarrow> ('w, 'b) git_op) \<Rightarrow> ('w, 'b) git_op" where
  "git_try m f w = (case m w of (r, w') \<Rightarrow> f r w')"

definition or_error :: "string \<Rightarrow> ('w, 'a) git_op \<Rightarrow> ('w, 'a) git_op" where
  "or_error text m w = (case m w of (Inl e, w') \<Rightarrow> (Inl (text @ e), w') | (Inr x, w') \<Rightarrow> (Inr x, w'))"

subsection \<open>Running git\<close>

definition blank :: "char \<Rightarrow> bool" where
  "blank c \<longleftrightarrow> c = CHR '' '' \<or> c = CHR 0x09 \<or> c = CHR 0x0D \<or> c = newline"

definition trim_blank :: "string \<Rightarrow> string" where
  "trim_blank s = rev (dropWhile blank (rev (dropWhile blank s)))"

definition git_command :: "string list \<Rightarrow> string" where
  "git_command args = ''git'' @ concat (map (\<lambda>a. '' '' @ quoted a) args) @ '' 2>&1''"

text \<open>The path decides whether the command is run, not where.\<close>

definition run_command :: "'w host \<Rightarrow> string \<Rightarrow> string list \<Rightarrow> ('w, string) git_op" where
  "run_command h popen_error args w =
     (case shell_run h (git_command args) w of
        (None, w') \<Rightarrow> (Inl popen_error, w')
      | (Some (out, rc), w') \<Rightarrow>
          (if rc \<noteq> 0 then Inl (''Git command failed (exit '' @ int_string rc @ ''): '' @ out) else Inr out, w'))"

definition runGit :: "'w host \<Rightarrow> string \<Rightarrow> string list \<Rightarrow> ('w, string) git_op" where
  "runGit h path args w =
     (if \<not> file_exists h path w then (Inl (''Working path does not exist: '' @ path), w)
      else run_command h ''popen() failed'' args w)"

subsection \<open>Branches\<close>

definition createEphemeralBranch :: "'w host \<Rightarrow> string \<Rightarrow> string \<Rightarrow> string \<Rightarrow> ('w, string) git_op" where
  "createEphemeralBranch h path task_id base_ref =
     (let branch_name = ''aios/ephemeral/'' @ task_id; ref = (if base_ref = [] then ''HEAD'' else base_ref)
      in git_try (runGit h path [''branch'', ''--list'', branch_name]) (\<lambda>list_res.
           if (case list_res of Inr out \<Rightarrow> trim_blank out \<noteq> [] | Inl _ \<Rightarrow> False) then git_return branch_name
           else git_try (runGit h path [''checkout'', ''-b'', branch_name, ref]) (\<lambda>res.
             case res of
               Inr _ \<Rightarrow> git_return branch_name
             | Inl e \<Rightarrow> git_try (runGit h path [''branch'', branch_name, ref]) (\<lambda>create_res w.
                 case create_res of
                   Inl _ \<Rightarrow> (Inl (''Failed to create ephemeral branch: '' @ e), w)
                 | Inr _ \<Rightarrow> (Inr branch_name, w)))))"

definition checkoutBranch :: "'w host \<Rightarrow> string \<Rightarrow> string \<Rightarrow> ('w, bool) git_op" where
  "checkoutBranch h path branch_name =
     git_bind (or_error (''Failed to checkout branch '' @ quoted branch_name @ '': '') (runGit h path [''checkout'', branch_name]))
       (\<lambda>_. git_return True)"

definition deleteBranch :: "'w host \<Rightarrow> string \<Rightarrow> string \<Rightarrow> bool \<Rightarrow> ('w, bool) git_op" where
  "deleteBranch h path branch_name force =
     git_bind (or_error (''Failed to delete branch '' @ quoted branch_name @ '': '')
         (runGit h path [''branch'', (if force then ''-D'' else ''-d''), branch_name]))
       (\<lambda>_. git_return True)"

definition branch_of_line :: "string \<Rightarrow> string" where
  "branch_of_line l = (let b = trim_blank l in if starts_with b ''* '' then drop 2 b else b)"

definition listEphemeralBranches :: "'w host \<Rightarrow> string \<Rightarrow> ('w, string list) git_op" where
  "listEphemeralBranches h path =
     git_bind (or_error ''Failed to list ephemeral branches: '' (runGit h path [''branch'', ''--list'', ''aios/ephemeral/*'']))
       (\<lambda>out. git_return (filter (\<lambda>b. b \<noteq> []) (map branch_of_line (getlines [] out))))"

subsection \<open>Commits and stashes\<close>

fun stage_files :: "'w host \<Rightarrow> string \<Rightarrow> string list \<Rightarrow> ('w, unit) git_op" where
  "stage_files h path [] = git_return ()"
| "stage_files h path (f # fs) =
     git_bind (or_error (''Failed to stage file '' @ quoted f @ '': '') (runGit h path [''add'', f])) (\<lambda>_. stage_files h path fs)"

definition commit_message :: "string \<Rightarrow> (string, string) umap \<Rightarrow> string" where
  "commit_message message metadata =
     message @ (if metadata = [] then [] else nl @ nl @ concat (map (\<lambda>(k, v). k @ '': '' @ v @ nl) metadata))"

definition stageAndCommit :: "'w host \<Rightarrow> string \<Rightarrow> string \<Rightarrow> string list \<Rightarrow> (string, string) umap \<Rightarrow> ('w, string) git_op" where
  "stageAndCommit h path message files metadata =
     git_bind (if files = [] then git_bind (or_error ''Failed to stage all files: '' (runGit h path [''add'', ''-A''])) (\<lambda>_. git_return ())
               else stage_files h path files) (\<lambda>_.
       git_bind (or_error ''Git commit failed: '' (runGit h path [''commit'', ''-m'', commit_message message metadata])) (\<lambda>_.
         git_bind (or_error ''Failed to retrieve HEAD commit SHA: '' (runGit h path [''rev-parse'', ''HEAD'']))
           (\<lambda>out. git_return (trim_blank out))))"

definition createStash :: "'w host \<Rightarrow> string \<Rightarrow> string \<Rightarrow> bool \<Rightarrow> ('w, string) git_op" where
  "createStash h path message include_untracked =
     git_bind (or_error ''Failed to create stash: ''
         (runGit h path ([''stash'', ''push''] @ (if include_untracked then [''-u''] else []) @ (if message \<noteq> [] then [''-m'', message] else []))))
       (\<lambda>out. git_return (trim_blank out))"

definition stash_ref :: "int \<Rightarrow> string" where
  "stash_ref i = ''stash@'' @ ''{'' @ int_string i @ ''}''"

definition popStash :: "'w host \<Rightarrow> string \<Rightarrow> int \<Rightarrow> ('w, bool) git_op" where
  "popStash h path i =
     git_bind (or_error (''Failed to pop stash '' @ stash_ref i @ '': '') (runGit h path [''stash'', ''pop'', stash_ref i])) (\<lambda>_. git_return True)"

definition dropStash :: "'w host \<Rightarrow> string \<Rightarrow> int \<Rightarrow> ('w, bool) git_op" where
  "dropStash h path i =
     git_bind (or_error (''Failed to drop stash '' @ stash_ref i @ '': '') (runGit h path [''stash'', ''drop'', stash_ref i])) (\<lambda>_. git_return True)"

subsection \<open>Conflicts\<close>

record MergeConflictChunk =
  cc_start_line :: int
  cc_end_line :: int
  cc_our_content :: string
  cc_their_content :: string
  cc_base_content :: string

definition empty_chunk :: MergeConflictChunk where
  "empty_chunk = \<lparr>cc_start_line = 0, cc_end_line = 0, cc_our_content = [], cc_their_content = [], cc_base_content = []\<rparr>"

record MergeConflictFile =
  cf_file_path :: string
  cf_chunks :: "MergeConflictChunk list"
  cf_is_binary :: bool

record marker_state =
  ms_line_num :: int
  ms_in_conflict :: bool
  ms_in_their :: bool
  ms_chunk :: MergeConflictChunk
  ms_chunks :: "MergeConflictChunk list"

definition marker_line :: "string \<Rightarrow> marker_state \<Rightarrow> marker_state" where
  "marker_line l s0 =
     (let s = s0\<lparr>ms_line_num := ms_line_num s0 + 1\<rparr>
      in if starts_with l ''<<<<<<<'' then
           s\<lparr>ms_in_conflict := True, ms_in_their := False, ms_chunk := empty_chunk\<lparr>cc_start_line := ms_line_num s\<rparr>\<rparr>
         else if ms_in_conflict s \<and> starts_with l ''======='' then s\<lparr>ms_in_their := True\<rparr>
         else if ms_in_conflict s \<and> starts_with l ''>>>>>>>'' then
           (let c = (ms_chunk s)\<lparr>cc_end_line := ms_line_num s\<rparr>
            in s\<lparr>ms_in_conflict := False, ms_in_their := False, ms_chunk := c, ms_chunks := ms_chunks s @ [c]\<rparr>)
         else if ms_in_conflict s then
           (if \<not> ms_in_their s then s\<lparr>ms_chunk := (ms_chunk s)\<lparr>cc_our_content := cc_our_content (ms_chunk s) @ l @ nl\<rparr>\<rparr>
            else s\<lparr>ms_chunk := (ms_chunk s)\<lparr>cc_their_content := cc_their_content (ms_chunk s) @ l @ nl\<rparr>\<rparr>)
         else s)"

definition marker_start :: marker_state where
  "marker_start = \<lparr>ms_line_num = 0, ms_in_conflict = False, ms_in_their = False, ms_chunk = empty_chunk, ms_chunks = []\<rparr>"

definition conflict_chunks :: "string list \<Rightarrow> MergeConflictChunk list" where
  "conflict_chunks ls = ms_chunks (fold marker_line ls marker_start)"

definition parseConflictMarkersInFile :: "'w host \<Rightarrow> string \<Rightarrow> string \<Rightarrow> 'w \<Rightarrow> MergeConflictFile list" where
  "parseConflictMarkersInFile h path rel w =
     (case file_text h (path_join path rel) w of
        None \<Rightarrow> []
      | Some text \<Rightarrow>
          (let chunks = conflict_chunks (getlines [] text)
           in if chunks \<noteq> [] then [\<lparr>cf_file_path = rel, cf_chunks = chunks, cf_is_binary = False\<rparr>] else []))"

definition collectConflictingFiles :: "'w host \<Rightarrow> string \<Rightarrow> 'w \<Rightarrow> MergeConflictFile list \<times> 'w" where
  "collectConflictingFiles h path w =
     (case runGit h path [''diff'', ''--name-only'', ''--diff-filter=U''] w of
        (Inl _, w') \<Rightarrow> ([], w')
      | (Inr out, w') \<Rightarrow>
          (concat (map (\<lambda>f. parseConflictMarkersInFile h path f w') (filter (\<lambda>f. f \<noteq> []) (map trim_blank (getlines [] out)))), w'))"

subsection \<open>Merging\<close>

datatype MergeStrategy = FastForwardOnly | ThreeWay | Squash | Rebase

record MergeResult =
  mg_success :: bool
  mg_has_conflicts :: bool
  mg_merge_commit_sha :: string
  mg_base_branch :: string
  mg_source_branch :: string
  mg_conflicts :: "MergeConflictFile list"
  mg_error_message :: string

definition current_branch :: "'w host \<Rightarrow> string \<Rightarrow> 'w \<Rightarrow> string \<times> 'w" where
  "current_branch h path w =
     (case runGit h path [''rev-parse'', ''--abbrev-ref'', ''HEAD''] w of
        (Inr out, w') \<Rightarrow> (trim_blank out, w')
      | (Inl _, w') \<Rightarrow> (''HEAD'', w'))"

definition start_merge :: "string \<Rightarrow> string \<Rightarrow> MergeResult" where
  "start_merge base source = \<lparr>mg_success = False, mg_has_conflicts = False, mg_merge_commit_sha = [], mg_base_branch = base,
     mg_source_branch = source, mg_conflicts = [], mg_error_message = []\<rparr>"

text \<open>After the failure of the command with error \<open>e\<close>.\<close>

definition merge_failed :: "'w host \<Rightarrow> string \<Rightarrow> string \<Rightarrow> string \<Rightarrow> MergeResult \<Rightarrow> 'w \<Rightarrow> MergeResult \<times> 'w" where
  "merge_failed h path what e res w =
     (case collectConflictingFiles h path w of
        ([], w') \<Rightarrow> (res\<lparr>mg_success := False, mg_error_message := e\<rparr>, w')
      | (fs, w') \<Rightarrow> (res\<lparr>mg_has_conflicts := True, mg_success := False, mg_conflicts := fs, mg_error_message := what @ '' conflict detected''\<rparr>, w'))"

definition merge_done :: "'w host \<Rightarrow> string \<Rightarrow> MergeResult \<Rightarrow> 'w \<Rightarrow> MergeResult \<times> 'w" where
  "merge_done h path res w =
     (case runGit h path [''rev-parse'', ''HEAD''] w of
        (r, w') \<Rightarrow>
          ((case r of Inr out \<Rightarrow> res\<lparr>mg_merge_commit_sha := trim_blank out\<rparr> | Inl _ \<Rightarrow> res)\<lparr>mg_success := True, mg_has_conflicts := False\<rparr>, w'))"

definition rebase :: "'w host \<Rightarrow> string \<Rightarrow> string \<Rightarrow> 'w \<Rightarrow> MergeResult \<times> 'w" where
  "rebase h path upstream_branch w =
     (case current_branch h path w of
        (cur, w1) \<Rightarrow>
          (let res = start_merge cur upstream_branch
           in case runGit h path [''rebase'', upstream_branch] w1 of
                (Inl e, w2) \<Rightarrow> merge_failed h path ''Rebase'' e res w2
              | (Inr _, w2) \<Rightarrow> merge_done h path res w2))"

definition merge_args :: "MergeStrategy \<Rightarrow> string \<Rightarrow> string \<Rightarrow> string list" where
  "merge_args strategy source cur = [''merge''] @
     (case strategy of
        FastForwardOnly \<Rightarrow> [''--ff-only'']
      | ThreeWay \<Rightarrow> [''--no-ff'', ''-m'', ''Merge branch '' @ quoted source @ '' into '' @ cur]
      | Squash \<Rightarrow> [''--squash'']
      | Rebase \<Rightarrow> []) @ [source]"

definition merge :: "'w host \<Rightarrow> string \<Rightarrow> string \<Rightarrow> MergeStrategy \<Rightarrow> 'w \<Rightarrow> MergeResult \<times> 'w" where
  "merge h path source_branch strategy w =
     (case current_branch h path w of
        (cur, w1) \<Rightarrow>
          if strategy = Rebase then rebase h path source_branch w1
          else
            let res = start_merge cur source_branch
            in case runGit h path (merge_args strategy source_branch cur) w1 of
                 (Inl e, w2) \<Rightarrow> merge_failed h path ''Merge'' e res w2
               | (Inr _, w2) \<Rightarrow>
                   merge_done h path res
                     (if strategy = Squash then snd (runGit h path [''commit'', ''-m'', ''Squashed commit from '' @ source_branch] w2) else w2))"

definition abortMerge :: "'w host \<Rightarrow> string \<Rightarrow> ('w, bool) git_op" where
  "abortMerge h path =
     git_try (runGit h path [''merge'', ''--abort'']) (\<lambda>r.
       case r of
         Inr _ \<Rightarrow> git_return True
       | Inl _ \<Rightarrow> git_try (runGit h path [''rebase'', ''--abort'']) (\<lambda>r. git_return (case r of Inr _ \<Rightarrow> True | Inl _ \<Rightarrow> False)))"

subsection \<open>Trial merges and differences\<close>

text \<open>The state of the loop over the output of \<open>merge-tree\<close>, with the two inner loops that read the sides of a conflict.\<close>

record tree_state =
  tt_current :: MergeConflictFile
  tt_in_conflict :: bool
  tt_conflicts :: "MergeConflictFile list"

definition empty_conflict_file :: MergeConflictFile where
  "empty_conflict_file = \<lparr>cf_file_path = [], cf_chunks = [], cf_is_binary = False\<rparr>"

text \<open>The lines up to one with the prefix, which is consumed as well, and the rest.\<close>

fun read_side :: "string \<Rightarrow> string list \<Rightarrow> string \<times> string list" where
  "read_side mark [] = ([], [])"
| "read_side mark (l # ls) =
     (if starts_with l mark then ([], ls) else (case read_side mark ls of (text, rest) \<Rightarrow> (l @ nl @ text, rest)))"

lemma read_side_length: "length (snd (read_side mark ls)) \<le> length ls"
  by (induction ls) (auto split: prod.split)

text \<open>From the last blank of the line on, trimmed.\<close>

definition last_word :: "string \<Rightarrow> string" where
  "last_word l = trim_blank (rev (takeWhile (\<lambda>c. c \<noteq> CHR '' '' \<and> c \<noteq> CHR 0x09) (rev l)))"

function tree_loop :: "string list \<Rightarrow> tree_state \<Rightarrow> MergeConflictFile list" where
  "tree_loop [] s = tt_conflicts s"
| "tree_loop (l # ls) s =
     (if contains l ''changed in both'' \<or> contains l ''conflict in'' then
        tree_loop ls (s\<lparr>tt_in_conflict := True,
          tt_current := (if list_ex (\<lambda>c. c = CHR '' '' \<or> c = CHR 0x09) l then (tt_current s)\<lparr>cf_file_path := last_word l\<rparr> else tt_current s)\<rparr>)
      else if tt_in_conflict s \<and> starts_with l ''<<<<<<<'' then
        (let ours = read_side ''======='' ls; theirs = read_side ''>>>>>>>'' (snd ours);
             c = empty_chunk\<lparr>cc_start_line := 1, cc_our_content := fst ours, cc_their_content := fst theirs\<rparr>;
             f = (tt_current s)\<lparr>cf_chunks := cf_chunks (tt_current s) @ [c]\<rparr>
         in tree_loop (snd theirs) (s\<lparr>tt_conflicts := tt_conflicts s @ [f], tt_current := empty_conflict_file, tt_in_conflict := False\<rparr>))
      else tree_loop ls s)"
  by pat_completeness auto
termination
proof (relation "measure (length \<circ> fst)", goal_cases)
  case (3 l ls s ours theirs c f)
  have "length (snd theirs) \<le> length (snd ours)" "length (snd ours) \<le> length ls"
    using read_side_length 3(3,4) by simp_all
  then show ?case by simp
qed simp_all

definition detectConflicts :: "'w host \<Rightarrow> string \<Rightarrow> string \<Rightarrow> string \<Rightarrow> ('w, MergeConflictFile list) git_op" where
  "detectConflicts h path source_branch target_branch =
     git_try (runGit h path [''merge-base'', target_branch, source_branch]) (\<lambda>base w.
       case base of
         Inl _ \<Rightarrow> (Inl (''Failed to find common ancestor for '' @ quoted source_branch @ '' and '' @ quoted target_branch), w)
       | Inr sha \<Rightarrow>
           git_bind (or_error ''git merge-tree failed: '' (runGit h path [''merge-tree'', trim_blank sha, target_branch, source_branch]))
             (\<lambda>out. git_return (tree_loop (getlines [] out) \<lparr>tt_current = empty_conflict_file, tt_in_conflict = False, tt_conflicts = []\<rparr>)) w)"

definition getBranchDiff :: "'w host \<Rightarrow> string \<Rightarrow> string \<Rightarrow> string \<Rightarrow> ('w, string) git_op" where
  "getBranchDiff h path base_branch target_branch =
     or_error ''Failed to compute branch diff: '' (runGit h path [''diff'', base_branch @ ''...'' @ target_branch])"

definition getUncommittedDiff :: "'w host \<Rightarrow> string \<Rightarrow> ('w, string) git_op" where
  "getUncommittedDiff h path = or_error ''Failed to compute uncommitted diff: '' (runGit h path [''diff'', ''HEAD''])"

subsection \<open>Calls\<close>

text \<open>The methods that report nothing but the answers of git.\<close>

datatype sandbox_call =
    Create_Branch string string
  | Checkout_Branch string
  | Delete_Branch string bool
  | List_Branches
  | Stage_Commit string "string list" "(string, string) umap"
  | Create_Stash string bool
  | Pop_Stash int
  | Drop_Stash int
  | Abort_Merge
  | Detect_Conflicts string string
  | Branch_Diff string string
  | Uncommitted_Diff

datatype sandbox_answer = Text_Answer "string + string" | Bool_Answer "string + bool" | List_Answer "string + string list" |
  Conflict_Answer "string + MergeConflictFile list"

fun run_sandbox_call :: "'w host \<Rightarrow> string \<Rightarrow> sandbox_call \<Rightarrow> 'w \<Rightarrow> sandbox_answer \<times> 'w" where
  "run_sandbox_call h path (Create_Branch t b) w = map_prod Text_Answer id (createEphemeralBranch h path t b w)"
| "run_sandbox_call h path (Checkout_Branch b) w = map_prod Bool_Answer id (checkoutBranch h path b w)"
| "run_sandbox_call h path (Delete_Branch b f) w = map_prod Bool_Answer id (deleteBranch h path b f w)"
| "run_sandbox_call h path List_Branches w = map_prod List_Answer id (listEphemeralBranches h path w)"
| "run_sandbox_call h path (Stage_Commit m fs md) w = map_prod Text_Answer id (stageAndCommit h path m fs md w)"
| "run_sandbox_call h path (Create_Stash m u) w = map_prod Text_Answer id (createStash h path m u w)"
| "run_sandbox_call h path (Pop_Stash i) w = map_prod Bool_Answer id (popStash h path i w)"
| "run_sandbox_call h path (Drop_Stash i) w = map_prod Bool_Answer id (dropStash h path i w)"
| "run_sandbox_call h path Abort_Merge w = map_prod Bool_Answer id (abortMerge h path w)"
| "run_sandbox_call h path (Detect_Conflicts s t) w = map_prod Conflict_Answer id (detectConflicts h path s t w)"
| "run_sandbox_call h path (Branch_Diff b t) w = map_prod Text_Answer id (getBranchDiff h path b t w)"
| "run_sandbox_call h path Uncommitted_Diff w = map_prod Text_Answer id (getUncommittedDiff h path w)"

fun run_sandbox_calls :: "'w host \<Rightarrow> string \<Rightarrow> sandbox_call list \<Rightarrow> 'w \<Rightarrow> sandbox_answer list \<times> 'w" where
  "run_sandbox_calls h path [] w = ([], w)"
| "run_sandbox_calls h path (c # cs) w =
     (let (a, w1) = run_sandbox_call h path c w; (as, w2) = run_sandbox_calls h path cs w1 in (a # as, w2))"

end
