(* ===== verification/Git_Sandbox_Properties.thy ===== *)
theory Git_Sandbox_Properties
  imports Git_Sandbox
begin

text \<open>
  Properties of the branch sandboxes.

  \<^item> The command line determines the arguments when none holds a quote, and only then.
  \<^item> The sandbox of a directory does not work in that directory.
  \<^item> The parser of conflict markers gives back the conflicts a file was made of, and a merge reports consistently.
\<close>

subsection \<open>Command lines\<close>

lemma take_to_quote:
  "quote \<notin> set a \<Longrightarrow> quote \<notin> set b \<Longrightarrow> a @ quote # s = b @ quote # t \<longleftrightarrow> a = b \<and> s = t"
proof (induction a arbitrary: b)
  case Nil
  then show ?case by (cases b) auto
next
  case (Cons c a)
  then show ?case by (cases b) auto
qed

definition quote_free :: "string list \<Rightarrow> bool" where
  "quote_free args \<longleftrightarrow> (\<forall>a \<in> set args. CHR 0x27 \<notin> set a)"

lemma quoted_args_inject:
  "quote_free as \<Longrightarrow> quote_free bs \<Longrightarrow>
     concat (map (\<lambda>a. '' '' @ quoted a) as) @ '' 2>&1'' = concat (map (\<lambda>a. '' '' @ quoted a) bs) @ '' 2>&1'' \<Longrightarrow> as = bs"
proof (induction as arbitrary: bs)
  case Nil
  then show ?case by (cases bs) (auto simp: quoted_def)
next
  case (Cons a as)
  then obtain b bs' where bs: "bs = b # bs'"
    by (cases bs) (auto simp: quoted_def)
  have "CHR 0x27 \<notin> set a" "CHR 0x27 \<notin> set b" "quote_free as" "quote_free bs'"
    using Cons.prems(1,2) by (simp_all add: bs quote_free_def)
  with Cons.prems(3) Cons.IH [of bs'] show ?case
    by (simp add: bs quoted_def take_to_quote)
qed

text \<open>
  A command line stands for one list of arguments, as long as no argument holds a single quote. With quotes it does not:
  nothing escapes them, so one argument (the name of a branch, say) can close the quotes and add arguments of its own, or
  end the command and begin another one.
\<close>

theorem command_line_unambiguous:
  "(\<forall>as bs. quote_free as \<and> quote_free bs \<and> git_command as = git_command bs \<longrightarrow> as = bs) \<and>
   (\<forall>a b. git_command [a, b] = git_command [a @ [CHR 0x27] @ '' '' @ [CHR 0x27] @ b]) \<and>
   git_command [''branch'', CHR 0x27 # '';reboot;'' @ [CHR 0x27]] =
     ''git '' @ quoted ''branch'' @ '' '' @ [CHR 0x27, CHR 0x27] @ '';reboot;'' @ [CHR 0x27, CHR 0x27] @ '' 2>&1''"
proof (intro conjI allI impI)
  fix as bs assume "quote_free as \<and> quote_free bs \<and> git_command as = git_command bs"
  then show "as = bs"
    using quoted_args_inject [of as bs] by (simp add: git_command_def)
qed (simp_all add: git_command_def quoted_def)

theorem command_line_unambiguous_witness:
  "git_command [''add'', ''a b''] \<noteq> git_command [''add'', ''a'', ''b'']"
proof
  assume "git_command [''add'', ''a b''] = git_command [''add'', ''a'', ''b'']"
  moreover have "quote_free [''add'', ''a b'']" "quote_free [''add'', ''a'', ''b'']"
    by (simp_all add: quote_free_def)
  ultimately have "[''add'', ''a b''] = [''add'', ''a'', ''b'']"
    using command_line_unambiguous by blast
  then show False by simp
qed

subsection \<open>Isolation\<close>

lemma runGit_anywhere: "(\<And>w. file_exists h p w) \<Longrightarrow> (\<And>w. file_exists h q w) \<Longrightarrow> runGit h p args = runGit h q args"
  by (simp add: runGit_def fun_eq_iff)

lemma stage_anywhere: "(\<And>args. runGit h p args = runGit h q args) \<Longrightarrow> stage_files h p fs = stage_files h q fs"
  by (induction fs) simp_all

lemma run_sandbox_anywhere:
  assumes "\<And>args. runGit h p args = runGit h q args"
  shows "run_sandbox_call h p c w = run_sandbox_call h q c w"
  by (cases c) (simp_all only: run_sandbox_call.simps createEphemeralBranch_def checkoutBranch_def deleteBranch_def
      listEphemeralBranches_def stageAndCommit_def createStash_def popStash_def dropStash_def abortMerge_def detectConflicts_def
      getBranchDiff_def getUncommittedDiff_def assms stage_anywhere [OF assms])

definition merge_report :: "MergeResult \<Rightarrow> bool \<times> string \<times> string \<times> string" where
  "merge_report m = (mg_success m, mg_merge_commit_sha m, mg_base_branch m, mg_source_branch m)"

lemma merge_failed_anywhere:
  assumes "\<And>args. runGit h p args = runGit h q args"
  shows "map_prod merge_report id (merge_failed h p what e res w) = map_prod merge_report id (merge_failed h q what e res w)"
proof -
  obtain r w' where git: "runGit h q [''diff'', ''--name-only'', ''--diff-filter=U''] w = (r, w')"
    by force
  have c: "\<exists>fs. collectConflictingFiles h x w = (fs, w')" if "x \<in> {p, q}" for x
    using that git assms by (cases r) (auto simp: collectConflictingFiles_def)
  from c [of p] c [of q] obtain fs gs where "collectConflictingFiles h p w = (fs, w')" "collectConflictingFiles h q w = (gs, w')"
    by blast
  then show ?thesis
    by (cases fs; cases gs) (simp_all add: merge_failed_def merge_report_def)
qed

lemma merge_anywhere:
  assumes "\<And>args. runGit h p args = runGit h q args"
  shows "map_prod merge_report id (merge h p b strategy w) = map_prod merge_report id (merge h q b strategy w)"
proof -
  have cur: "current_branch h p = current_branch h q" and d: "merge_done h p = merge_done h q"
    by (simp_all add: current_branch_def merge_done_def assms fun_eq_iff)
  note fail = merge_failed_anywhere [OF assms]
  have reb: "map_prod merge_report id (rebase h p b v) = map_prod merge_report id (rebase h q b v)" for v
    unfolding rebase_def cur d assms Let_def by (simp add: fail split: prod.split sum.split)
  show ?thesis
    unfolding merge_def cur d assms Let_def by (simp add: fail reb split: prod.split sum.split)
qed

text \<open>
  The sandbox of a directory is not confined to it. On POSIX the path only decides whether the command runs at all; git is
  started in the current directory of the process. Sandboxes of two existing directories give the same answers and
  do the same to the world, whatever sequence of operations they run, and their merges change the world alike.
\<close>

theorem sandbox_not_isolated:
  assumes "\<forall>w. file_exists h p w \<and> file_exists h q w"
  shows "run_sandbox_calls h p cs w = run_sandbox_calls h q cs w \<and>
     map_prod merge_report id (merge h p b strategy w) = map_prod merge_report id (merge h q b strategy w)"
proof
  have git: "runGit h p args = runGit h q args" for args
    using assms by (intro runGit_anywhere) auto
  show "run_sandbox_calls h p cs w = run_sandbox_calls h q cs w"
    by (induction cs arbitrary: w) (simp_all add: run_sandbox_anywhere [OF git])
  show "map_prod merge_report id (merge h p b strategy w) = map_prod merge_report id (merge h q b strategy w)"
    by (rule merge_anywhere [OF git])
qed

text \<open>A machine whose git counts the commands it was given.\<close>

definition counting_host :: "nat host" where
  "counting_host = \<lparr>shell_run = (\<lambda>cmd n. (Some (nat_string n, 0), Suc n)), file_exists = (\<lambda>p n. True), file_text = (\<lambda>p n. None)\<rparr>"

theorem sandbox_not_isolated_witness:
  "run_sandbox_calls counting_host ''/work/agent1'' [Checkout_Branch ''main''] 0 =
   run_sandbox_calls counting_host ''/work/agent2'' [Checkout_Branch ''main''] 0"
  using sandbox_not_isolated [of counting_host "''/work/agent1''" "''/work/agent2''" "[Checkout_Branch ''main'']" 0]
  by (simp add: counting_host_def)

subsection \<open>Conflict markers\<close>

datatype segment = Plain "string list" | Conflict string "string list" "string list" string

fun segment_lines :: "segment \<Rightarrow> string list" where
  "segment_lines (Plain ls) = ls"
| "segment_lines (Conflict a ours theirs b) = (''<<<<<<<'' @ a) # ours @ ''======='' # theirs @ [''>>>>>>>'' @ b]"

definition no_marker :: "string \<Rightarrow> bool" where
  "no_marker l \<longleftrightarrow> \<not> starts_with l ''<<<<<<<'' \<and> \<not> starts_with l ''======='' \<and> \<not> starts_with l ''>>>>>>>''"

fun segment_ok :: "segment \<Rightarrow> bool" where
  "segment_ok (Plain ls) \<longleftrightarrow> (\<forall>l \<in> set ls. \<not> starts_with l ''<<<<<<<'')"
| "segment_ok (Conflict a ours theirs b) \<longleftrightarrow> (\<forall>l \<in> set ours \<union> set theirs. no_marker l)"

text \<open>The conflicts of a file that begins at line \<open>n\<close>.\<close>

fun segment_chunks :: "int \<Rightarrow> segment list \<Rightarrow> MergeConflictChunk list" where
  "segment_chunks n [] = []"
| "segment_chunks n (Plain ls # ss) = segment_chunks (n + int (length ls)) ss"
| "segment_chunks n (Conflict a ours theirs b # ss) =
     (let e = n + int (length ours) + int (length theirs) + 2
      in \<lparr>cc_start_line = n, cc_end_line = e, cc_our_content = concat (map (\<lambda>l. l @ nl) ours),
          cc_their_content = concat (map (\<lambda>l. l @ nl) theirs), cc_base_content = []\<rparr> # segment_chunks (e + 1) ss)"

lemma fold_plain:
  "(\<forall>l \<in> set ls. \<not> starts_with l ''<<<<<<<'') \<Longrightarrow> \<not> ms_in_conflict s \<Longrightarrow>
     fold marker_line ls s = s\<lparr>ms_line_num := ms_line_num s + int (length ls)\<rparr>"
  by (induction ls arbitrary: s) (simp_all add: marker_line_def Let_def)

lemma fold_ours:
  "(\<forall>l \<in> set ls. no_marker l) \<Longrightarrow> ms_in_conflict s \<Longrightarrow> \<not> ms_in_their s \<Longrightarrow>
     fold marker_line ls s = s\<lparr>ms_line_num := ms_line_num s + int (length ls),
       ms_chunk := (ms_chunk s)\<lparr>cc_our_content := cc_our_content (ms_chunk s) @ concat (map (\<lambda>l. l @ nl) ls)\<rparr>\<rparr>"
  by (induction ls arbitrary: s) (simp_all add: marker_line_def Let_def no_marker_def)

lemma fold_theirs:
  "(\<forall>l \<in> set ls. no_marker l) \<Longrightarrow> ms_in_conflict s \<Longrightarrow> ms_in_their s \<Longrightarrow>
     fold marker_line ls s = s\<lparr>ms_line_num := ms_line_num s + int (length ls),
       ms_chunk := (ms_chunk s)\<lparr>cc_their_content := cc_their_content (ms_chunk s) @ concat (map (\<lambda>l. l @ nl) ls)\<rparr>\<rparr>"
  by (induction ls arbitrary: s) (simp_all add: marker_line_def Let_def no_marker_def)

lemma fold_conflict:
  assumes "segment_ok (Conflict a ours theirs b)" "\<not> ms_in_conflict s"
  defines "e \<equiv> ms_line_num s + 1 + int (length ours) + int (length theirs) + 2"
  shows "\<exists>c. fold marker_line (segment_lines (Conflict a ours theirs b)) s =
     s\<lparr>ms_line_num := e, ms_in_conflict := False, ms_in_their := False, ms_chunk := c,
       ms_chunks := ms_chunks s @ segment_chunks (ms_line_num s + 1) [Conflict a ours theirs b]\<rparr>"
proof -
  have open_line: "marker_line (''<<<<<<<'' @ a) s = s\<lparr>ms_line_num := ms_line_num s + 1, ms_in_conflict := True, ms_in_their := False,
      ms_chunk := empty_chunk\<lparr>cc_start_line := ms_line_num s + 1\<rparr>\<rparr>"
    by (simp add: marker_line_def Let_def starts_with_def)
  have middle: "ms_in_conflict t \<Longrightarrow> marker_line ''======='' t = t\<lparr>ms_line_num := ms_line_num t + 1, ms_in_their := True\<rparr>" for t
    by (simp add: marker_line_def Let_def starts_with_def)
  have close: "ms_in_conflict t \<Longrightarrow> marker_line (''>>>>>>>'' @ b) t = t\<lparr>ms_line_num := ms_line_num t + 1, ms_in_conflict := False,
      ms_in_their := False, ms_chunk := (ms_chunk t)\<lparr>cc_end_line := ms_line_num t + 1\<rparr>,
      ms_chunks := ms_chunks t @ [(ms_chunk t)\<lparr>cc_end_line := ms_line_num t + 1\<rparr>]\<rparr>" for t
    by (simp add: marker_line_def Let_def starts_with_def)
  show ?thesis
    using assms(1) unfolding segment_lines.simps fold_append fold_Cons o_apply fold_Nil id_apply open_line
    by (simp add: fold_ours fold_theirs middle close [simplified] empty_chunk_def e_def Let_def) (rule exI, rule refl)
qed

lemma fold_segments:
  "list_all segment_ok ss \<Longrightarrow> \<not> ms_in_conflict s \<Longrightarrow>
     ms_chunks (fold marker_line (concat (map segment_lines ss)) s) = ms_chunks s @ segment_chunks (ms_line_num s + 1) ss"
proof (induction ss arbitrary: s)
  case Nil
  then show ?case by simp
next
  case (Cons x ss)
  show ?case
  proof (cases x)
    case (Plain ls)
    then have "fold marker_line ls s = s\<lparr>ms_line_num := ms_line_num s + int (length ls)\<rparr>"
      using Cons.prems by (intro fold_plain) auto
    then show ?thesis
      using Cons.IH [of "s\<lparr>ms_line_num := ms_line_num s + int (length ls)\<rparr>"] Cons.prems by (simp add: Plain algebra_simps)
  next
    case (Conflict a ours theirs b)
    define e where "e = ms_line_num s + 1 + int (length ours) + int (length theirs) + 2"
    have "segment_ok (Conflict a ours theirs b)"
      using Cons.prems(1) by (simp add: Conflict)
    from fold_conflict [OF this Cons.prems(2), folded e_def] obtain c where
      step: "fold marker_line (segment_lines (Conflict a ours theirs b)) s =
        s\<lparr>ms_line_num := e, ms_in_conflict := False, ms_in_their := False, ms_chunk := c,
          ms_chunks := ms_chunks s @ segment_chunks (ms_line_num s + 1) [Conflict a ours theirs b]\<rparr>"
      by blast
    have "concat (map segment_lines (x # ss)) = segment_lines (Conflict a ours theirs b) @ concat (map segment_lines ss)"
      by (simp only: Conflict list.map concat.simps)
    then have "ms_chunks (fold marker_line (concat (map segment_lines (x # ss))) s) =
        ms_chunks (fold marker_line (concat (map segment_lines ss)) (s\<lparr>ms_line_num := e, ms_in_conflict := False, ms_in_their := False,
          ms_chunk := c, ms_chunks := ms_chunks s @ segment_chunks (ms_line_num s + 1) [Conflict a ours theirs b]\<rparr>))"
      by (simp only: fold_append o_apply step)
    also have "\<dots> = ms_chunks s @ segment_chunks (ms_line_num s + 1) [Conflict a ours theirs b] @ segment_chunks (e + 1) ss"
      using Cons.IH Cons.prems(1) by simp
    also have "\<dots> = ms_chunks s @ segment_chunks (ms_line_num s + 1) (x # ss)"
      by (simp add: Conflict e_def Let_def algebra_simps)
    finally show ?thesis .
  qed
qed

text \<open>
  Conflict markers are parsed back. From the text of a file with any number of conflicts, in which the sides hold no line
  that begins with a marker, the parser recovers for each conflict, in order, the lines of both sides and the
  numbers of its first and last line, counted from 1.
\<close>

theorem conflicts_parsed_back:
  assumes "list_all segment_ok ss" "\<forall>l \<in> set (concat (map segment_lines ss)). newline \<notin> set l"
  shows "conflict_chunks (getlines [] (concat (map (\<lambda>l. l @ [newline]) (concat (map segment_lines ss))))) = segment_chunks 1 ss"
proof -
  have "getlines [] (concat (map (\<lambda>l. l @ [newline]) (concat (map segment_lines ss)))) = concat (map segment_lines ss)"
    using assms(2) by (intro getlines_lines) auto
  then show ?thesis
    using fold_segments [OF assms(1), of marker_start] by (simp add: conflict_chunks_def marker_start_def)
qed

theorem conflicts_parsed_back_witness:
  "conflict_chunks (getlines [] (concat (map (\<lambda>l. l @ [newline])
      [''int main() {'', ''<<<<<<< HEAD'', ''  a();'', ''======='', ''  b();'', ''>>>>>>> topic'', ''}'']))) =
   [\<lparr>cc_start_line = 2, cc_end_line = 6, cc_our_content = ''  a();'' @ nl, cc_their_content = ''  b();'' @ nl, cc_base_content = []\<rparr>]"
  using conflicts_parsed_back [of "[Plain [''int main() {''], Conflict '' HEAD'' [''  a();''] [''  b();''] '' topic'', Plain [''}'']]"]
  by (simp add: no_marker_def starts_with_def Let_def)

subsection \<open>Merges\<close>

definition merge_consistent :: "MergeResult \<Rightarrow> bool" where
  "merge_consistent m \<longleftrightarrow>
     (mg_success m \<longrightarrow> \<not> mg_has_conflicts m \<and> mg_error_message m = []) \<and>
     (mg_has_conflicts m \<longleftrightarrow> mg_conflicts m \<noteq> []) \<and>
     (\<not> mg_success m \<longrightarrow> mg_merge_commit_sha m = [] \<and> mg_error_message m \<noteq> []) \<and>
     (\<forall>f \<in> set (mg_conflicts m). cf_file_path f \<noteq> [] \<and> cf_chunks f \<noteq> [])"

lemma runGit_error: "runGit h path args w = (Inl e, w') \<Longrightarrow> e \<noteq> []"
  by (auto simp: runGit_def run_command_def split: if_splits prod.splits option.splits)

lemma collected_files:
  "collectConflictingFiles h path w = (fs, w') \<Longrightarrow> f \<in> set fs \<Longrightarrow> cf_file_path f \<noteq> [] \<and> cf_chunks f \<noteq> []"
  by (auto simp: collectConflictingFiles_def parseConflictMarkersInFile_def Let_def split: prod.splits sum.splits option.splits if_splits)

lemma merge_failed_consistent: "e \<noteq> [] \<Longrightarrow> merge_consistent (fst (merge_failed h path what e (start_merge b s) w))"
proof -
  assume "e \<noteq> []"
  obtain fs w' where "collectConflictingFiles h path w = (fs, w')"
    by force
  with \<open>e \<noteq> []\<close> collected_files [OF this] show ?thesis
    by (cases fs) (auto simp: merge_failed_def merge_consistent_def start_merge_def)
qed

lemma merge_done_consistent: "merge_consistent (fst (merge_done h path (start_merge b s) w))"
  by (auto simp: merge_done_def merge_consistent_def start_merge_def split: prod.split sum.split)

lemma rebase_consistent: "merge_consistent (fst (rebase h path b w))"
  by (auto simp: rebase_def Let_def merge_done_consistent split: prod.split sum.split dest!: runGit_error intro: merge_failed_consistent)

text \<open>
  A merge or rebase reports consistently, whatever git answers: a success has neither conflicts nor an error text; the flag
  for conflicts is set exactly when conflicts are listed; a failure has an error text and no commit; and every listed
  file has a name and a conflict in it.
\<close>

theorem merge_consistently_reported:
  "merge_consistent (fst (merge h path source_branch strategy w)) \<and> merge_consistent (fst (rebase h path source_branch w))"
  by (auto simp: merge_def Let_def merge_done_consistent rebase_consistent split: prod.split sum.split
      dest!: runGit_error intro: merge_failed_consistent)

end
