(* ===== verification/Git_Worktree.thy ===== *)
theory Git_Worktree
  imports Git_Sandbox
begin

text \<open>
  Git worktrees: \<open>src/src/workspace/GitWorktree.h\<close> and \<open>GitWorktree.cpp\<close>, as built on POSIX.

  \<^item> The world is as in \<open>Git_Sandbox\<close>, with the operations on directories besides.
  \<^item> \<open>gw_blocked\<close> tells that a thread waits for ever with the mutex held: \<open>getWorktree\<close> calls \<open>listWorktrees\<close>, which
    locks the mutex that \<open>getWorktree\<close> holds. A call gives no answer (\<open>None\<close>) then.
  \<^item> Where \<open>WorktreeInfo\<close> is made, the clock gives \<open>now\<close>.
\<close>

record 'w tree_host = "'w host" +
  dir_empty :: "string \<Rightarrow> 'w \<Rightarrow> bool"
  remove_all :: "string \<Rightarrow> 'w \<Rightarrow> 'w"
  make_dirs :: "string \<Rightarrow> 'w \<Rightarrow> 'w"

record WorktreeInfo =
  wt_id :: string
  wt_task_id :: string
  wt_path :: string
  wt_branch :: string
  wt_head_commit_sha :: string
  wt_is_locked :: bool
  wt_locked :: bool
  wt_lock_reason :: string
  wt_is_detached :: bool
  wt_created_at :: int
  wt_owner_task_id :: string

definition empty_worktree :: "int \<Rightarrow> WorktreeInfo" where
  "empty_worktree now = \<lparr>wt_id = [], wt_task_id = [], wt_path = [], wt_branch = [], wt_head_commit_sha = [], wt_is_locked = False,
     wt_locked = False, wt_lock_reason = [], wt_is_detached = False, wt_created_at = now, wt_owner_task_id = []\<rparr>"

record CreateWorktreeOptions =
  op_worktree_id :: string
  op_branch_name :: string
  op_base_ref :: string
  op_create_new_branch :: bool
  op_detach_head :: bool
  op_lock_immediately :: bool
  op_lock_reason :: string
  op_custom_path :: string

record GitWorktree =
  gw_repository_root :: string
  gw_worktrees_root :: string
  gw_blocked :: bool
  gw_active :: "(string, WorktreeInfo) umap"

definition new_GitWorktree :: "'w tree_host \<Rightarrow> string \<Rightarrow> 'w \<Rightarrow> GitWorktree \<times> 'w" where
  "new_GitWorktree h repository w =
     (let wts = path_join (path_join repository ''.aios'') ''worktrees''
      in (\<lparr>gw_repository_root = repository, gw_worktrees_root = wts, gw_blocked = False, gw_active = []\<rparr>, make_dirs h wts w))"

text \<open>The methods, with the state and the world passed along. A blocked mutex blocks them all.\<close>

type_synonym ('w, 'a) tree_op = "GitWorktree \<Rightarrow> 'w \<Rightarrow> 'a option \<times> GitWorktree \<times> 'w"

definition tree_locked :: "(GitWorktree \<Rightarrow> 'w \<Rightarrow> 'a \<times> GitWorktree \<times> 'w) \<Rightarrow> ('w, 'a) tree_op" where
  "tree_locked body g w = (if gw_blocked g then (None, g, w) else case body g w of (x, g', w') \<Rightarrow> (Some x, g', w'))"

subsection \<open>Commands and paths\<close>

definition executeGitCommand :: "('w, 'z) tree_host_scheme \<Rightarrow> GitWorktree \<Rightarrow> string list \<Rightarrow> string \<Rightarrow> ('w, string) git_op" where
  "executeGitCommand h g args working_dir w =
     (let run_dir = (if working_dir = [] then gw_repository_root g else working_dir)
      in if \<not> file_exists h run_dir w then (Inl (''Working directory does not exist: '' @ run_dir), w)
         else run_command (host.truncate h) ''popen() failed!'' args w)"

text \<open>\<open>path::operator==\<close>: the elements, with an empty one after a last separator.\<close>

definition path_elements :: "string \<Rightarrow> string list" where
  "path_elements p =
     (let xs = filter (\<lambda>x. x \<noteq> []) (split_path [] p)
      in xs @ (if xs \<noteq> [] \<and> last p = CHR ''/'' then [[]] else []))"

definition same_path :: "string \<Rightarrow> string \<Rightarrow> bool" where
  "same_path p q \<longleftrightarrow> is_absolute p = is_absolute q \<and> path_elements p = path_elements q"

definition resolveWorktreePath :: "GitWorktree \<Rightarrow> string \<Rightarrow> string" where
  "resolveWorktreePath g worktree_id_or_path =
     (if is_absolute worktree_id_or_path then worktree_id_or_path
      else case map_of (gw_active g) worktree_id_or_path of
             Some wt \<Rightarrow> wt_path wt
           | None \<Rightarrow> path_join (gw_worktrees_root g) (''wt_'' @ worktree_id_or_path))"

subsection \<open>The listing\<close>

record listing_state =
  wl_worktrees :: "WorktreeInfo list"
  wl_current :: WorktreeInfo
  wl_has_entry :: bool

definition flush_entry :: "int \<Rightarrow> listing_state \<Rightarrow> listing_state" where
  "flush_entry now s =
     (if wl_has_entry s then s\<lparr>wl_worktrees := wl_worktrees s @ [wl_current s], wl_current := empty_worktree now, wl_has_entry := False\<rparr> else s)"

definition worktree_entry :: "string \<Rightarrow> WorktreeInfo \<Rightarrow> WorktreeInfo" where
  "worktree_entry p wt =
     (let i = filename p; i' = (if starts_with i ''wt_'' then drop 3 i else i)
      in wt\<lparr>wt_path := p, wt_id := i', wt_task_id := i', wt_owner_task_id := i'\<rparr>)"

definition listing_line :: "int \<Rightarrow> string \<Rightarrow> listing_state \<Rightarrow> listing_state" where
  "listing_line now l s =
     (let t = trim_blank l
      in if t = [] then flush_entry now s
         else if starts_with t ''worktree '' then
           (let s1 = flush_entry now s in s1\<lparr>wl_has_entry := True, wl_current := worktree_entry (drop 9 t) (wl_current s1)\<rparr>)
         else if starts_with t ''HEAD '' then s\<lparr>wl_current := (wl_current s)\<lparr>wt_head_commit_sha := drop 5 t\<rparr>\<rparr>
         else if starts_with t ''branch refs/heads/'' then s\<lparr>wl_current := (wl_current s)\<lparr>wt_branch := drop 18 t\<rparr>\<rparr>
         else if t = ''detached'' then s\<lparr>wl_current := (wl_current s)\<lparr>wt_is_detached := True, wt_branch := ''HEAD (detached)''\<rparr>\<rparr>
         else if starts_with t ''locked'' then
           s\<lparr>wl_current := (wl_current s)\<lparr>wt_is_locked := True, wt_locked := True,
              wt_lock_reason := (if length t > 7 then drop 7 t else wt_lock_reason (wl_current s))\<rparr>\<rparr>
         else s)"

definition parsePorcelainWorktreeList :: "int \<Rightarrow> string \<Rightarrow> WorktreeInfo list" where
  "parsePorcelainWorktreeList now output =
     (let s = fold (listing_line now) (getlines [] output) \<lparr>wl_worktrees = [], wl_current = empty_worktree now, wl_has_entry = False\<rparr>
      in wl_worktrees s @ (if wl_has_entry s then [wl_current s] else []))"

definition refreshActiveWorktreesUnlocked :: "('w, 'z) tree_host_scheme \<Rightarrow> int \<Rightarrow> GitWorktree \<Rightarrow> 'w \<Rightarrow> GitWorktree \<times> 'w" where
  "refreshActiveWorktreesUnlocked h now g w =
     (case executeGitCommand h g [''worktree'', ''list'', ''--porcelain''] [] w of
        (Inl _, w') \<Rightarrow> (g, w')
      | (Inr out, w') \<Rightarrow>
          (g\<lparr>gw_active := fold (\<lambda>wt. AList.update (wt_id wt) wt) (parsePorcelainWorktreeList now out) (gw_active g)\<rparr>, w'))"

subsection \<open>Creation\<close>

definition worktree_args :: "CreateWorktreeOptions \<Rightarrow> string \<Rightarrow> string \<Rightarrow> string list" where
  "worktree_args opts p branch =
     (let ref = (if op_base_ref opts = [] then ''HEAD'' else op_base_ref opts)
      in [''worktree'', ''add''] @
         (if op_detach_head opts then [''--detach'', p, ref]
          else if op_create_new_branch opts then [''-b'', branch, p, ref]
          else [p, branch]))"

definition new_worktree_info :: "CreateWorktreeOptions \<Rightarrow> string \<Rightarrow> string \<Rightarrow> string \<Rightarrow> int \<Rightarrow> WorktreeInfo" where
  "new_worktree_info opts p branch sha now =
     \<lparr>wt_id = op_worktree_id opts, wt_task_id = op_worktree_id opts, wt_path = p, wt_branch = branch, wt_head_commit_sha = sha,
      wt_is_locked = op_lock_immediately opts, wt_locked = op_lock_immediately opts,
      wt_lock_reason = (if op_lock_immediately opts then op_lock_reason opts else []), wt_is_detached = op_detach_head opts,
      wt_created_at = now, wt_owner_task_id = op_worktree_id opts\<rparr>"

definition lock_args :: "string \<Rightarrow> string \<Rightarrow> string list" where
  "lock_args reason p = [''worktree'', ''lock''] @ (if reason \<noteq> [] then [''--reason'', reason] else []) @ [p]"

text \<open>From the query of the commit to the end.\<close>

definition register_worktree :: "('w, 'z) tree_host_scheme \<Rightarrow> int \<Rightarrow> CreateWorktreeOptions \<Rightarrow> string \<Rightarrow> string \<Rightarrow> GitWorktree \<Rightarrow> 'w \<Rightarrow>
    (string + WorktreeInfo) \<times> GitWorktree \<times> 'w" where
  "register_worktree h now opts p branch g w =
     (case executeGitCommand h g [''rev-parse'', ''HEAD''] p w of
        (sha, w1) \<Rightarrow>
          (let info = new_worktree_info opts p branch (case sha of Inr out \<Rightarrow> trim_blank out | Inl _ \<Rightarrow> []) now;
               w2 = (if op_lock_immediately opts then snd (executeGitCommand h g (lock_args (op_lock_reason opts) p) [] w1) else w1)
           in (Inr info, g\<lparr>gw_active := AList.update (op_worktree_id opts) info (gw_active g)\<rparr>, w2)))"

definition createWorktree :: "('w, 'z) tree_host_scheme \<Rightarrow> int \<Rightarrow> CreateWorktreeOptions \<Rightarrow> ('w, string + WorktreeInfo) tree_op" where
  "createWorktree h now opts = tree_locked (\<lambda>g w.
     if op_worktree_id opts = [] then (Inl ''Worktree ID cannot be empty'', g, w)
     else
       let p = (if op_custom_path opts = [] then path_join (gw_worktrees_root g) (''wt_'' @ op_worktree_id opts) else op_custom_path opts)
       in if file_exists h p w \<and> \<not> dir_empty h p w then (Inl (''Worktree directory already exists and is not empty: '' @ p), g, w)
          else
            let branch = (if op_branch_name opts = [] then ''aios/task_'' @ op_worktree_id opts @ ''_wt'' else op_branch_name opts)
            in case executeGitCommand h g (worktree_args opts p branch) [] w of
                 (Inr _, w1) \<Rightarrow> register_worktree h now opts p branch g w1
               | (Inl e, w1) \<Rightarrow>
                   (case executeGitCommand h g [''worktree'', ''add'', p, branch] [] w1 of
                      (Inl _, w2) \<Rightarrow> (Inl (''Failed to create worktree: '' @ e), g, w2)
                    | (Inr _, w2) \<Rightarrow> register_worktree h now opts p branch g w2))"

subsection \<open>Removal\<close>

definition removeWorktree :: "('w, 'z) tree_host_scheme \<Rightarrow> string \<Rightarrow> bool \<Rightarrow> ('w, string + bool) tree_op" where
  "removeWorktree h i force = tree_locked (\<lambda>g w.
     let p = resolveWorktreePath g i; found = map_of (gw_active g) i;
         locked = (case found of Some wt \<Rightarrow> wt_is_locked wt | None \<Rightarrow> False)
     in if locked \<and> \<not> force then (Inl (''Worktree is locked: '' @ wt_lock_reason (the found)), g, w)
        else
          let w1 = (if locked \<and> force then snd (executeGitCommand h g [''worktree'', ''unlock'', p] [] w) else w);
              (res, w2) = executeGitCommand h g ([''worktree'', ''remove''] @ (if force then [''--force''] else []) @ [p]) [] w1;
              w3 = (case res of Inl _ \<Rightarrow> snd (executeGitCommand h g [''worktree'', ''prune''] [] w2) | Inr _ \<Rightarrow> w2);
              w4 = (if file_exists h p w3 then remove_all h p w3 else w3)
          in (Inr True, g\<lparr>gw_active := filter (\<lambda>(k, wt). \<not> same_path (wt_path wt) p) (AList.delete i (gw_active g))\<rparr>, w4))"

subsection \<open>Locks\<close>

definition mark_lock :: "bool \<Rightarrow> string \<Rightarrow> string \<Rightarrow> string \<Rightarrow> GitWorktree \<Rightarrow> GitWorktree" where
  "mark_lock b reason p i g =
     g\<lparr>gw_active := map (\<lambda>(k, wt). (k, if same_path (wt_path wt) p \<or> wt_id wt = i
         then wt\<lparr>wt_is_locked := b, wt_locked := b, wt_lock_reason := reason\<rparr> else wt)) (gw_active g)\<rparr>"

definition lockWorktree :: "('w, 'z) tree_host_scheme \<Rightarrow> string \<Rightarrow> string \<Rightarrow> ('w, string + bool) tree_op" where
  "lockWorktree h i reason = tree_locked (\<lambda>g w.
     let p = resolveWorktreePath g i
     in case executeGitCommand h g (lock_args reason p) [] w of
          (Inl e, w') \<Rightarrow> (Inl (''Failed to lock worktree: '' @ e), g, w')
        | (Inr _, w') \<Rightarrow> (Inr True, mark_lock True reason p i g, w'))"

definition unlockWorktree :: "('w, 'z) tree_host_scheme \<Rightarrow> string \<Rightarrow> ('w, string + bool) tree_op" where
  "unlockWorktree h i = tree_locked (\<lambda>g w.
     let p = resolveWorktreePath g i
     in case executeGitCommand h g [''worktree'', ''unlock'', p] [] w of
          (Inl e, w') \<Rightarrow> (Inl (''Failed to unlock worktree: '' @ e), g, w')
        | (Inr _, w') \<Rightarrow> (Inr True, mark_lock False [] p i g, w'))"

subsection \<open>Maintenance and queries\<close>

definition pruneWorktrees :: "('w, 'z) tree_host_scheme \<Rightarrow> int \<Rightarrow> string \<Rightarrow> ('w, string + nat) tree_op" where
  "pruneWorktrees h now expire = tree_locked (\<lambda>g w.
     case executeGitCommand h g ([''worktree'', ''prune''] @ (if expire \<noteq> [] then [''--expire'', expire] else [])) [] w of
       (Inl e, w') \<Rightarrow> (Inl (''Failed to prune worktrees: '' @ e), g, w')
     | (Inr _, w') \<Rightarrow> (case refreshActiveWorktreesUnlocked h now g w' of (g', w'') \<Rightarrow> (Inr (length (gw_active g')), g', w'')))"

definition repairWorktrees :: "('w, 'z) tree_host_scheme \<Rightarrow> ('w, string + bool) tree_op" where
  "repairWorktrees h = tree_locked (\<lambda>g w.
     case executeGitCommand h g [''worktree'', ''repair''] [] w of
       (Inl e, w') \<Rightarrow> (Inl (''Failed to repair worktrees: '' @ e), g, w')
     | (Inr _, w') \<Rightarrow> (Inr True, g, w'))"

definition listWorktrees :: "('w, 'z) tree_host_scheme \<Rightarrow> int \<Rightarrow> ('w, string + WorktreeInfo list) tree_op" where
  "listWorktrees h now = tree_locked (\<lambda>g w.
     case executeGitCommand h g [''worktree'', ''list'', ''--porcelain''] [] w of
       (Inl e, w') \<Rightarrow> (Inl (''Failed to list worktrees: '' @ e), g, w')
     | (Inr out, w') \<Rightarrow> (Inr (parsePorcelainWorktreeList now out), g, w'))"

text \<open>For an id that is not registered, the call of \<open>listWorktrees\<close> blocks.\<close>

definition getWorktree :: "string \<Rightarrow> ('w, WorktreeInfo option) tree_op" where
  "getWorktree i g w =
     (if gw_blocked g then (None, g, w)
      else case map_of (gw_active g) i of
             Some wt \<Rightarrow> (Some (Some wt), g, w)
           | None \<Rightarrow> (None, g\<lparr>gw_blocked := True\<rparr>, w))"

definition hasWorktree :: "string \<Rightarrow> ('w, bool) tree_op" where
  "hasWorktree i g w = (case getWorktree i g w of (r, g', w') \<Rightarrow> (map_option (\<lambda>wt. wt \<noteq> None) r, g', w'))"

end
