(* ===== verification/Git_Worktree_Properties.thy ===== *)
theory Git_Worktree_Properties
  imports Git_Worktree
begin

text \<open>
  Properties of the worktrees.

  \<^item> A listing that git prints is read back as the worktrees it was printed for.
  \<^item> What a creation registers; what a removal deletes, which may be any directory.
  \<^item> Asking for a worktree that is not registered blocks the engine for good.
\<close>

subsection \<open>Listings\<close>







lemma blank_codes [simp]: "\<not> blank CHR ''w''" "\<not> blank CHR ''H''" "\<not> blank CHR ''b''" "\<not> blank CHR ''d''" "\<not> blank CHR ''l''"
  by (simp_all add: blank_def)










subsection \<open>Creation and removal\<close>

lemma registered_fields:
  "register_worktree h now opts p branch g w = (r, g', w') \<Longrightarrow>
     \<exists>sha. r = Inr (new_worktree_info opts p branch sha now) \<and>
       g' = g\<lparr>gw_active := AList.update (op_worktree_id opts) (new_worktree_info opts p branch sha now) (gw_active g)\<rparr>"
  by (auto simp: register_worktree_def Let_def split: prod.splits)

text \<open>
  What a creation does to the engine. It succeeds only for a non-empty id and a directory that does not exist or is
  empty, and then exactly this id is registered, with the path and the branch that were asked for or their defaults; a
  failure leaves the registered worktrees as they were.
\<close>

theorem creation_registers:
  assumes "createWorktree h now opts g w = (Some r, g', w')"
  shows "case r of
           Inl e \<Rightarrow> g' = g
         | Inr info \<Rightarrow>
             wt_id info = op_worktree_id opts \<and> wt_id info \<noteq> [] \<and>
             wt_path info = (if op_custom_path opts = [] then path_join (gw_worktrees_root g) (''wt_'' @ wt_id info) else op_custom_path opts) \<and>
             wt_branch info = (if op_branch_name opts = [] then ''aios/task_'' @ wt_id info @ ''_wt'' else op_branch_name opts) \<and>
             (file_exists h (wt_path info) w \<longrightarrow> dir_empty h (wt_path info) w) \<and>
             (\<forall>i. map_of (gw_active g') i = (if i = wt_id info then Some info else map_of (gw_active g) i))"
proof -
  define p where "p = (if op_custom_path opts = [] then path_join (gw_worktrees_root g) (''wt_'' @ op_worktree_id opts) else op_custom_path opts)"
  define branch where "branch = (if op_branch_name opts = [] then ''aios/task_'' @ op_worktree_id opts @ ''_wt'' else op_branch_name opts)"
  from assms have "g' = g \<and> (\<exists>e. r = Inl e) \<or>
      op_worktree_id opts \<noteq> [] \<and> (file_exists h p w \<longrightarrow> dir_empty h p w) \<and> (\<exists>v. register_worktree h now opts p branch g v = (r, g', w'))"
    unfolding createWorktree_def tree_locked_def Let_def p_def [symmetric] branch_def [symmetric]
    by (fastforce split: if_splits prod.splits sum.splits)
  then show ?thesis
  proof
    assume ok: "op_worktree_id opts \<noteq> [] \<and> (file_exists h p w \<longrightarrow> dir_empty h p w) \<and> (\<exists>v. register_worktree h now opts p branch g v = (r, g', w'))"
    then obtain v where "register_worktree h now opts p branch g v = (r, g', w')"
      by blast
    from registered_fields [OF this] obtain sha where "r = Inr (new_worktree_info opts p branch sha now)"
      "g' = g\<lparr>gw_active := AList.update (op_worktree_id opts) (new_worktree_info opts p branch sha now) (gw_active g)\<rparr>"
      by auto
    with ok show ?thesis
      by (simp add: new_worktree_info_def p_def [symmetric] branch_def [symmetric]) (auto simp: p_def branch_def)
  qed auto
qed

text \<open>A machine on which git refuses everything.\<close>

definition git_refuses :: "('w, 'z) tree_host_scheme \<Rightarrow> bool" where
  "git_refuses h \<longleftrightarrow> (\<forall>cmd w. \<exists>out rc. shell_run h cmd w = (Some (out, rc), w) \<and> rc \<noteq> 0)"

lemma refused: "git_refuses h \<Longrightarrow> \<exists>e. executeGitCommand h g args dir w = (Inl e, w)"
proof -
  assume "git_refuses h"
  then obtain out rc where "shell_run h (git_command args) w = (Some (out, rc), w)" "rc \<noteq> 0"
    unfolding git_refuses_def by blast
  then show ?thesis
    by (simp add: executeGitCommand_def run_command_def Let_def host.truncate_def)
qed

text \<open>
  Removing a worktree can delete anything. Given an absolute path that is no registered worktree, in fact none at all,
  \<open>removeWorktree\<close> asks git, which refuses; it then removes the directory with everything in it and reports success,
  also without \<open>force\<close>.
\<close>

theorem removal_deletes_any_directory:
  assumes "git_refuses h" "\<not> gw_blocked g" "is_absolute p" "map_of (gw_active g) p = None" "file_exists h p w"
  shows "\<exists>g'. removeWorktree h p force g w = (Some (Inr True), g', remove_all h p w)"
proof -
  have "resolveWorktreePath g p = p"
    using assms(3) by (simp add: resolveWorktreePath_def)
  moreover obtain e where "executeGitCommand h g ([''worktree'', ''remove''] @ (if force then [''--force''] else []) @ [p]) [] w = (Inl e, w)"
    using refused [OF assms(1)] by blast
  moreover obtain e' where "executeGitCommand h g [''worktree'', ''prune''] [] w = (Inl e', w)"
    using refused [OF assms(1)] by blast
  ultimately show ?thesis
    using assms(2,4,5) by (simp add: removeWorktree_def tree_locked_def Let_def)
qed

subsection \<open>Blocking\<close>

text \<open>
  Asking for a worktree that is not registered blocks the engine: \<open>getWorktree\<close> and \<open>hasWorktree\<close> never return for such an
  id, although git may know the worktree, and afterwards no operation of the engine returns.
\<close>

theorem unknown_worktree_blocks:
  assumes "map_of (gw_active g) i = None" "getWorktree i g w = (r, g', w')"
  shows "r = None \<and> fst (hasWorktree i g w) = None \<and>
     fst (createWorktree h now opts g' v) = None \<and> fst (removeWorktree h j force g' v) = None \<and>
     fst (lockWorktree h j reason g' v) = None \<and> fst (unlockWorktree h j g' v) = None \<and>
     fst (pruneWorktrees h now expire g' v) = None \<and> fst (repairWorktrees h g' v) = None \<and>
     fst (listWorktrees h now g' v) = None \<and> fst (getWorktree j g' v) = None"
proof -
  have "gw_blocked g'" "r = None"
    using assms by (auto simp: getWorktree_def split: if_splits)
  with assms show ?thesis
    by (simp add: hasWorktree_def createWorktree_def removeWorktree_def lockWorktree_def unlockWorktree_def pruneWorktrees_def
        repairWorktrees_def listWorktrees_def tree_locked_def getWorktree_def)
qed

subsection \<open>Witnesses\<close>

text \<open>A machine with a set of directories and without git.\<close>

definition bare_host :: "string list tree_host" where
  "bare_host = \<lparr>shell_run = (\<lambda>cmd ds. (Some (''git: not found'', 127), ds)), file_exists = (\<lambda>p ds. p \<in> set ds), file_text = (\<lambda>p ds. None),
     dir_empty = (\<lambda>p ds. False), remove_all = (\<lambda>p ds. filter (\<lambda>d. \<not> starts_with d p) ds), make_dirs = (\<lambda>p ds. p # ds)\<rparr>"

theorem removal_deletes_any_directory_witness:
  "\<exists>g'. removeWorktree bare_host ''/home/user'' False
     \<lparr>gw_repository_root = ''/srv/repo'', gw_worktrees_root = ''/srv/repo/.aios/worktrees'', gw_blocked = False, gw_active = []\<rparr>
     [''/home/user'', ''/home/user/letters'', ''/srv/repo''] = (Some (Inr True), g', [''/srv/repo''])"
proof -
  have "git_refuses bare_host"
    by (simp add: git_refuses_def bare_host_def)
  from removal_deletes_any_directory [OF this, of "\<lparr>gw_repository_root = ''/srv/repo'', gw_worktrees_root = ''/srv/repo/.aios/worktrees'',
      gw_blocked = False, gw_active = []\<rparr>" "''/home/user''" "[''/home/user'', ''/home/user/letters'', ''/srv/repo'']" False]
  show ?thesis
    by (simp add: is_absolute_def bare_host_def starts_with_def)
qed

theorem creation_registers_witness:
  "\<exists>e g' w'. createWorktree bare_host 0 \<lparr>op_worktree_id = ''t1'', op_branch_name = [], op_base_ref = [], op_create_new_branch = True,
       op_detach_head = False, op_lock_immediately = False, op_lock_reason = [], op_custom_path = []\<rparr>
     (fst (new_GitWorktree bare_host ''/srv/repo'' [])) [] = (Some (Inl e), g', w') \<and> g' = fst (new_GitWorktree bare_host ''/srv/repo'' [])"
proof -
  let ?o = "\<lparr>op_worktree_id = ''t1'', op_branch_name = [], op_base_ref = [], op_create_new_branch = True,
       op_detach_head = False, op_lock_immediately = False, op_lock_reason = [], op_custom_path = []\<rparr>"
    and ?g = "fst (new_GitWorktree bare_host ''/srv/repo'' [])"
  obtain e g' w' where c: "createWorktree bare_host 0 ?o ?g [] = (Some (Inl e), g', w')"
    by (simp add: createWorktree_def tree_locked_def executeGitCommand_def bare_host_def new_GitWorktree_def Let_def)
  from creation_registers [OF c] have "g' = ?g"
    by simp
  with c show ?thesis by blast
qed

theorem unknown_worktree_blocks_witness:
  "\<exists>g' w'. getWorktree ''t9'' (fst (new_GitWorktree bare_host ''/srv/repo'' [])) [] = (None, g', w') \<and> fst (listWorktrees bare_host 0 g' w') = None"
proof -
  let ?g = "fst (new_GitWorktree bare_host ''/srv/repo'' [])"
  obtain r g' w' where get: "getWorktree ''t9'' ?g ([] :: string list) = (r, g', w')"
    using prod_cases3 by blast
  have "map_of (gw_active ?g) ''t9'' = None"
    by (simp add: new_GitWorktree_def Let_def)
  from unknown_worktree_blocks [OF this get, of bare_host 0 _ w'] get show ?thesis
    by auto
qed

end
