(* ===== verification/Workspace_Manager.thy ===== *)
theory Workspace_Manager
  imports Git_Worktree
begin

text \<open>
  The sandboxes of the workspace manager: \<open>src/src/workspace/WorkspaceManager.h\<close> and \<open>WorkspaceManager.cpp\<close>, as built on POSIX.

  \<^item> The world is that of \<open>Git_Worktree\<close> with \<open>std::system\<close> besides. \<open>exec_cmd\<close> gives the text that the command printed, whatever
    its status.
  \<^item> The identifier that the code makes of the clock and of a random number is a parameter, as are the times.
  \<^item> \<open>std::filesystem\<close> functions without an error code throw when they fail; their failure is left out.
\<close>

record 'w system_host = "'w tree_host" +
  system_run :: "string \<Rightarrow> 'w \<Rightarrow> int \<times> 'w"

record WorkspaceConfig =
  wk_repo_path :: string
  wk_base_branch :: string
  wk_sandbox_prefix :: string
  wk_worktree_root_dir :: string
  wk_auto_cleanup :: bool

record WorkspaceCheckpoint =
  wc_id :: string
  wc_commit_hash :: string
  wc_branch_name :: string
  wc_worktree_path :: string
  wc_created_at :: int
  wc_description :: string

record WorkspaceDiff =
  wd_branch_from :: string
  wd_branch_to :: string
  wd_diff_text :: string
  wd_files_changed :: nat
  wd_insertions :: nat
  wd_deletions :: nat

record WorkspaceManager =
  wm_config :: WorkspaceConfig
  wm_sandboxes :: "WorkspaceCheckpoint list"

definition new_WorkspaceManager :: "WorkspaceConfig \<Rightarrow> WorkspaceManager" where
  "new_WorkspaceManager cfg =
     \<lparr>wm_config = (if wk_worktree_root_dir cfg = [] then cfg\<lparr>wk_worktree_root_dir := wk_repo_path cfg @ ''/.aios_worktrees''\<rparr> else cfg),
      wm_sandboxes = []\<rparr>"

subsection \<open>Commands\<close>

definition strip_line_ends :: "string \<Rightarrow> string" where
  "strip_line_ends s = rev (dropWhile (\<lambda>c. c = newline \<or> c = CHR 0x0D) (rev s))"

definition exec_cmd :: "('w, 'z) system_host_scheme \<Rightarrow> string \<Rightarrow> 'w \<Rightarrow> string \<times> 'w" where
  "exec_cmd h cmd w =
     (case shell_run h (cmd @ '' 2>&1'') w of
        (None, w') \<Rightarrow> ([], w')
      | (Some (out, rc), w') \<Rightarrow> (strip_line_ends out, w'))"

definition git_in :: "string \<Rightarrow> string \<Rightarrow> string" where
  "git_in dir args = ''git -C \"'' @ dir @ ''\" '' @ args"

definition dq :: "string \<Rightarrow> string" where
  "dq s = CHR 0x22 # s @ [CHR 0x22]"

definition run_git :: "('w, 'z) system_host_scheme \<Rightarrow> WorkspaceManager \<Rightarrow> string \<Rightarrow> string \<Rightarrow> 'w \<Rightarrow> string \<times> 'w" where
  "run_git h m args cwd w = exec_cmd h (git_in (if cwd = [] then wk_repo_path (wm_config m) else cwd) args) w"

definition gitSucceeded :: "('w, 'z) system_host_scheme \<Rightarrow> WorkspaceManager \<Rightarrow> string \<Rightarrow> string \<Rightarrow> 'w \<Rightarrow> bool \<times> 'w" where
  "gitSucceeded h m args cwd w =
     (case system_run h (git_in (if cwd = [] then wk_repo_path (wm_config m) else cwd) args @ '' > /dev/null 2>&1'') w of
        (rc, w') \<Rightarrow> (rc = 0, w'))"

text \<open>Several commands in a directory, for their effect.\<close>

fun run_gits :: "('w, 'z) system_host_scheme \<Rightarrow> WorkspaceManager \<Rightarrow> string list \<Rightarrow> string \<Rightarrow> 'w \<Rightarrow> 'w" where
  "run_gits h m [] cwd w = w"
| "run_gits h m (a # as) cwd w = run_gits h m as cwd (snd (run_git h m a cwd w))"

subsection \<open>Start\<close>

definition initialize_workspace :: "('w, 'z) system_host_scheme \<Rightarrow> WorkspaceManager \<Rightarrow> 'w \<Rightarrow> bool \<times> WorkspaceManager \<times> 'w" where
  "initialize_workspace h m w =
     (case run_git h m ''rev-parse --is-inside-work-tree'' (wk_repo_path (wm_config m)) w of
        (check, w1) \<Rightarrow>
          if check \<noteq> ''true'' then (False, m, w1)
          else
            (case run_git h m (''branch --list '' @ wk_base_branch (wm_config m)) (wk_repo_path (wm_config m))
                    (make_dirs h (wk_worktree_root_dir (wm_config m)) w1) of
               (found, w2) \<Rightarrow>
                 if found \<noteq> [] then (True, m, w2)
                 else (case run_git h m ''rev-parse --abbrev-ref HEAD'' (wk_repo_path (wm_config m)) w2 of
                         (cur, w3) \<Rightarrow> (True, if cur \<noteq> [] then m\<lparr>wm_config := (wm_config m)\<lparr>wk_base_branch := cur\<rparr>\<rparr> else m, w3))))"

subsection \<open>Sandboxes and checkpoints\<close>

definition sandbox_path_of :: "WorkspaceManager \<Rightarrow> string \<Rightarrow> string" where
  "sandbox_path_of m task_id =
     map (\<lambda>c. if c = CHR '':'' then CHR ''_'' else c) (wk_worktree_root_dir (wm_config m) @ ''/'' @ task_id)"

text \<open>\<open>stamp1\<close> is the identifier made for the branch, \<open>stamp2\<close> the one made for the checkpoint.\<close>

definition createSandbox :: "('w, 'z) system_host_scheme \<Rightarrow> string \<Rightarrow> string \<Rightarrow> int \<Rightarrow> string \<Rightarrow> string \<Rightarrow> WorkspaceManager \<Rightarrow> 'w \<Rightarrow>
    WorkspaceCheckpoint option \<times> WorkspaceManager \<times> 'w" where
  "createSandbox h stamp1 stamp2 now task_id description m w =
     (let branch_name = wk_sandbox_prefix (wm_config m) @ task_id @ ''_'' @ take 8 stamp1; p = sandbox_path_of m task_id
      in case run_git h m (''worktree add -b '' @ dq branch_name @ '' '' @ dq p @ '' '' @ wk_base_branch (wm_config m)) [] w of
           (out, w1) \<Rightarrow>
             if \<not> contains out ''Preparing'' \<and> \<not> file_exists h p w1 then (None, m, w1)
             else
               (case run_git h m ''rev-parse HEAD'' p w1 of
                  (hash, w2) \<Rightarrow>
                    (let c = \<lparr>wc_id = ''ckpt_'' @ stamp2, wc_commit_hash = hash, wc_branch_name = branch_name, wc_worktree_path = p,
                              wc_created_at = now, wc_description = (if description = [] then ''Sandbox for '' @ task_id else description)\<rparr>
                     in (Some c, m\<lparr>wm_sandboxes := wm_sandboxes m @ [c]\<rparr>, w2))))"

definition checkpoint :: "('w, 'z) system_host_scheme \<Rightarrow> string \<Rightarrow> int \<Rightarrow> string \<Rightarrow> string \<Rightarrow> WorkspaceManager \<Rightarrow> 'w \<Rightarrow> WorkspaceCheckpoint \<times> 'w" where
  "checkpoint h stamp now sandbox_path description m w =
     (let msg = (if description = [] then ''AIOS checkpoint'' else description);
          w1 = run_gits h m [''add -A'', ''commit -m '' @ dq msg @ '' --allow-empty''] sandbox_path w;
          (hash, w2) = run_git h m ''rev-parse HEAD'' sandbox_path w1;
          (branch, w3) = run_git h m ''rev-parse --abbrev-ref HEAD'' sandbox_path w2
      in (\<lparr>wc_id = ''ckpt_'' @ stamp, wc_commit_hash = hash, wc_branch_name = branch, wc_worktree_path = sandbox_path,
           wc_created_at = now, wc_description = msg\<rparr>, w3))"

definition rollback :: "('w, 'z) system_host_scheme \<Rightarrow> string \<Rightarrow> string \<Rightarrow> WorkspaceManager \<Rightarrow> 'w \<Rightarrow> bool \<times> 'w" where
  "rollback h sandbox_path i m w =
     (if i = [] then (True, run_gits h m [''checkout -- .'', ''clean -fd''] sandbox_path w)
      else case find (\<lambda>c. wc_id c = i \<and> wc_worktree_path c = sandbox_path) (wm_sandboxes m) of
             None \<Rightarrow> (False, w)
           | Some c \<Rightarrow>
               (case run_git h m (''reset --hard '' @ wc_commit_hash c) sandbox_path w of (out, w') \<Rightarrow> (contains out ''HEAD is now'', w')))"

definition applySandboxToBase :: "('w, 'z) system_host_scheme \<Rightarrow> string \<Rightarrow> string \<Rightarrow> WorkspaceManager \<Rightarrow> 'w \<Rightarrow> bool \<times> 'w" where
  "applySandboxToBase h sandbox_path commit_msg m w =
     (let msg = (if commit_msg = [] then ''AIOS: apply sandbox changes'' else commit_msg);
          w1 = run_gits h m [''add -A'', ''commit -m '' @ dq msg @ '' --allow-empty''] sandbox_path w;
          (branch, w2) = run_git h m ''rev-parse --abbrev-ref HEAD'' sandbox_path w1;
          (commit, w3) = run_git h m ''rev-parse HEAD'' sandbox_path w2;
          (ok, w4) = gitSucceeded h m (''cherry-pick '' @ commit) (wk_repo_path (wm_config m)) w3
      in if ok then (True, w4)
         else (case run_git h m (''merge --no-ff '' @ dq branch @ '' -m '' @ dq msg) (wk_repo_path (wm_config m)) w4 of
                 (out, w5) \<Rightarrow> (\<not> contains out ''conflict'', w5)))"

definition destroySandbox :: "('w, 'z) system_host_scheme \<Rightarrow> string \<Rightarrow> WorkspaceManager \<Rightarrow> 'w \<Rightarrow> bool \<times> WorkspaceManager \<times> 'w" where
  "destroySandbox h sandbox_path m w =
     (let (branch, w1) = run_git h m ''rev-parse --abbrev-ref HEAD'' sandbox_path w;
          (ok, w2) = gitSucceeded h m (''worktree remove --force '' @ dq sandbox_path) [] w1;
          w3 = (if ok then w2 else remove_all h sandbox_path w2);
          w4 = snd (gitSucceeded h m (''branch -D '' @ dq branch) [] w3);
          w5 = snd (gitSucceeded h m ''worktree prune'' [] w4)
      in (True, m\<lparr>wm_sandboxes := filter (\<lambda>c. wc_worktree_path c \<noteq> sandbox_path) (wm_sandboxes m)\<rparr>, w5))"

subsection \<open>Differences\<close>

text \<open>\<open>>>\<close> into an \<open>int\<close> and into a string: what was read and the rest, or the failure.\<close>

definition read_int :: "string \<Rightarrow> (int \<times> string) option" where
  "read_int s =
     (let t = dropWhile isspace s;
          neg = (t \<noteq> [] \<and> hd t = CHR ''-''); u = (if t \<noteq> [] \<and> (hd t = CHR ''-'' \<or> hd t = CHR ''+'') then tl t else t);
          ds = takeWhile isdigit u;
          n = foldl (\<lambda>a c. 10 * a + (int (code_of c) - 48)) 0 ds; v = (if neg then - n else n)
      in if ds = [] \<or> v < - (2 ^ 31) \<or> v \<ge> 2 ^ 31 then None else Some (v, dropWhile isdigit u))"

definition read_word :: "string \<Rightarrow> (string \<times> string) option" where
  "read_word s =
     (let t = dropWhile isspace s; x = takeWhile (\<lambda>c. \<not> isspace c) t
      in if x = [] then None else Some (x, dropWhile (\<lambda>c. \<not> isspace c) t))"

lemma read_word_shorter: "read_word s = Some (x, r) \<Longrightarrow> length r < length s"
proof -
  assume "read_word s = Some (x, r)"
  then have x: "takeWhile (\<lambda>c. \<not> isspace c) (dropWhile isspace s) \<noteq> []" "r = dropWhile (\<lambda>c. \<not> isspace c) (dropWhile isspace s)"
    by (auto simp: read_word_def Let_def split: if_splits)
  have "length (takeWhile (\<lambda>c. \<not> isspace c) (dropWhile isspace s)) + length r = length (dropWhile isspace s)"
    unfolding x(2) by (metis length_append takeWhile_dropWhile_id)
  with x(1) length_dropWhile_le [of isspace s] show ?thesis
    by (cases "takeWhile (\<lambda>c. \<not> isspace c) (dropWhile isspace s)") auto
qed

lemma read_int_shorter: "read_int s = Some (v, r) \<Longrightarrow> length r \<le> length s"
proof -
  assume "read_int s = Some (v, r)"
  then obtain u where "r = dropWhile isdigit u" "u = dropWhile isspace s \<or> u = tl (dropWhile isspace s)"
    by (auto simp: read_int_def Let_def split: if_splits)
  with length_dropWhile_le [of isdigit u] length_dropWhile_le [of isspace s] show ?thesis
    by (auto intro: order_trans [of _ "length u"])
qed

text \<open>A negative number would be converted to \<open>size_t\<close>.\<close>

function stat_loop :: "string \<Rightarrow> WorkspaceDiff \<Rightarrow> WorkspaceDiff" where
  "stat_loop s d =
     (case read_int s of
        None \<Rightarrow> d
      | Some (n, r) \<Rightarrow>
          (case read_word r of
             None \<Rightarrow> d
           | Some (tok, r') \<Rightarrow>
               (let k = nat (n mod 2 ^ 64)
                in stat_loop r'
                     (if contains tok ''file'' then d\<lparr>wd_files_changed := k\<rparr>
                      else if contains tok ''insertion'' then d\<lparr>wd_insertions := k\<rparr>
                      else if contains tok ''deletion'' then d\<lparr>wd_deletions := k\<rparr> else d))))"
  by pat_completeness auto
termination
  by (relation "measure (length \<circ> fst)") (auto dest!: read_word_shorter read_int_shorter)

declare stat_loop.simps [simp del]

definition stat_counts :: "string \<Rightarrow> WorkspaceDiff \<Rightarrow> WorkspaceDiff" where
  "stat_counts stat d = fold (\<lambda>l d. if contains l ''changed'' then stat_loop l d else d) (getlines [] stat) d"

definition getDiff :: "('w, 'z) system_host_scheme \<Rightarrow> string \<Rightarrow> string \<Rightarrow> WorkspaceManager \<Rightarrow> 'w \<Rightarrow> WorkspaceDiff \<times> 'w" where
  "getDiff h sandbox_path against_branch m w =
     (let base = (if against_branch = [] then wk_base_branch (wm_config m) else against_branch);
          (from_branch, w1) = run_git h m ''rev-parse --abbrev-ref HEAD'' sandbox_path w;
          (text, w2) = run_git h m (''diff '' @ base @ ''..HEAD'') sandbox_path w1;
          (stat, w3) = run_git h m (''diff --stat '' @ base @ ''..HEAD'') sandbox_path w2
      in (stat_counts stat \<lparr>wd_branch_from = from_branch, wd_branch_to = base, wd_diff_text = text, wd_files_changed = 0,
            wd_insertions = 0, wd_deletions = 0\<rparr>, w3))"

subsection \<open>The scope guard\<close>

type_synonym SandboxScope = "WorkspaceCheckpoint option"

definition scope_commit :: "('w, 'z) system_host_scheme \<Rightarrow> string \<Rightarrow> int \<Rightarrow> string \<Rightarrow> WorkspaceManager \<Rightarrow> SandboxScope \<Rightarrow> 'w \<Rightarrow>
    bool \<times> SandboxScope \<times> 'w" where
  "scope_commit h stamp now description m sc w =
     (case sc of
        None \<Rightarrow> (False, None, w)
      | Some c \<Rightarrow> (case checkpoint h stamp now (wc_worktree_path c) description m w of (c', w') \<Rightarrow> (True, Some c', w')))"

definition scope_rollback :: "('w, 'z) system_host_scheme \<Rightarrow> string \<Rightarrow> WorkspaceManager \<Rightarrow> SandboxScope \<Rightarrow> 'w \<Rightarrow> bool \<times> 'w" where
  "scope_rollback h i m sc w = (case sc of None \<Rightarrow> (False, w) | Some c \<Rightarrow> rollback h (wc_worktree_path c) i m w)"

definition scope_end :: "('w, 'z) system_host_scheme \<Rightarrow> WorkspaceManager \<Rightarrow> SandboxScope \<Rightarrow> 'w \<Rightarrow> WorkspaceManager \<times> 'w" where
  "scope_end h m sc w = (case sc of None \<Rightarrow> (m, w) | Some c \<Rightarrow> snd (destroySandbox h (wc_worktree_path c) m w))"

end
