(* ===== verification/Workspace_Properties.thy ===== *)
theory Workspace_Properties
  imports Workspace_Manager
begin

text \<open>
  What the workspace manager of \<open>Workspace_Manager\<close> keeps and what it loses: which identifiers \<open>rollback\<close> knows, what it
  reports when git fails, and what it reads of the summary line of \<open>git diff --stat\<close>.
\<close>

subsection \<open>Sequences of calls\<close>

datatype workspace_call =
    CreateSandbox string string int string string
  | MakeCheckpoint string int string string
  | RollbackTo string string
  | ApplyToBase string string
  | DiffAgainst string string
  | DestroySandbox string

fun run_call :: "('w, 'z) system_host_scheme \<Rightarrow> workspace_call \<Rightarrow> WorkspaceManager \<times> 'w \<Rightarrow> WorkspaceManager \<times> 'w" where
  "run_call h (CreateSandbox s1 s2 now task d) (m, w) = snd (createSandbox h s1 s2 now task d m w)"
| "run_call h (MakeCheckpoint s now p d) (m, w) = (m, snd (checkpoint h s now p d m w))"
| "run_call h (RollbackTo p i) (m, w) = (m, snd (rollback h p i m w))"
| "run_call h (ApplyToBase p msg) (m, w) = (m, snd (applySandboxToBase h p msg m w))"
| "run_call h (DiffAgainst p b) (m, w) = (m, snd (getDiff h p b m w))"
| "run_call h (DestroySandbox p) (m, w) = snd (destroySandbox h p m w)"

definition run_calls :: "('w, 'z) system_host_scheme \<Rightarrow> workspace_call list \<Rightarrow> WorkspaceManager \<times> 'w \<Rightarrow> WorkspaceManager \<times> 'w" where
  "run_calls h cs s = fold (run_call h) cs s"

text \<open>The identifiers that the calls which make a sandbox give out.\<close>

fun call_ids :: "workspace_call \<Rightarrow> string set" where
  "call_ids (CreateSandbox s1 s2 now task d) = {''ckpt_'' @ s2}"
| "call_ids c = {}"

definition sandbox_ids :: "workspace_call list \<Rightarrow> string set" where
  "sandbox_ids cs = (\<Union> c \<in> set cs. call_ids c)"

lemma createSandbox_ids:
  "wc_id ` set (wm_sandboxes (fst (snd (createSandbox h s1 s2 now task d m w)))) \<subseteq> insert (''ckpt_'' @ s2) (wc_id ` set (wm_sandboxes m))"
  by (auto simp: createSandbox_def Let_def split: prod.splits)

lemma destroySandbox_ids:
  "wc_id ` set (wm_sandboxes (fst (snd (destroySandbox h p m w)))) \<subseteq> wc_id ` set (wm_sandboxes m)"
  by (auto simp: destroySandbox_def Let_def split: prod.splits)

lemma run_call_ids: "wc_id ` set (wm_sandboxes (fst (run_call h c (m, w)))) \<subseteq> call_ids c \<union> wc_id ` set (wm_sandboxes m)"
proof (cases c)
  case (CreateSandbox s1 s2 now task d)
  then show ?thesis using createSandbox_ids [of h s1 s2 now task d m w] by simp
next
  case (DestroySandbox p)
  then show ?thesis using destroySandbox_ids [of h p m w] by simp
qed simp_all

lemma subset_Un_chain: "A \<subseteq> S \<union> B \<Longrightarrow> B \<subseteq> C \<union> D \<Longrightarrow> A \<subseteq> (C \<union> S) \<union> D"
  by blast

lemma subset_Un_trans: "A \<subseteq> S \<union> B \<Longrightarrow> B \<subseteq> T \<Longrightarrow> A \<subseteq> S \<union> T"
  by blast

lemma not_in_Un: "A \<subseteq> S \<union> T \<Longrightarrow> U = T \<union> S \<Longrightarrow> x \<notin> U \<Longrightarrow> x \<notin> A"
  by blast

lemma run_calls_ids: "wc_id ` set (wm_sandboxes (fst (run_calls h cs s))) \<subseteq> sandbox_ids cs \<union> wc_id ` set (wm_sandboxes (fst s))"
proof (induction cs arbitrary: s)
  case Nil
  show ?case by (simp add: run_calls_def)
next
  case (Cons c cs)
  have run: "run_calls h (c # cs) s = run_calls h cs (run_call h c s)" by (simp add: run_calls_def)
  have ids: "sandbox_ids (c # cs) = call_ids c \<union> sandbox_ids cs" by (simp add: sandbox_ids_def)
  from run_call_ids [of h c "fst s" "snd s"]
  have "wc_id ` set (wm_sandboxes (fst (run_call h c s))) \<subseteq> call_ids c \<union> wc_id ` set (wm_sandboxes (fst s))" by simp
  with Cons.IH [of "run_call h c s"] show ?case unfolding run ids by (rule subset_Un_chain)
qed

lemma rollback_unknown:
  assumes "i \<noteq> []" "i \<notin> wc_id ` set (wm_sandboxes m)"
  shows "rollback h p i m w = (False, w)"
proof -
  have "find (\<lambda>c. wc_id c = i \<and> wc_worktree_path c = p) (wm_sandboxes m) = None"
    using assms(2) by (auto simp: find_None_iff)
  with assms(1) show ?thesis by (simp add: rollback_def)
qed

text \<open>
  A checkpoint cannot be rolled back to: \<open>checkpoint\<close> commits and gives an identifier, but only \<open>createSandbox\<close> puts one into the
  list that \<open>rollback\<close> searches. Whatever the manager did before and after, rolling back to an identifier that \<open>checkpoint\<close> gave
  runs no command and reports failure, unless \<open>createSandbox\<close> happened to give the same.
\<close>

theorem checkpoint_never_restored:
  assumes "run_calls h before (new_WorkspaceManager cfg, w0) = (m1, w1)"
    and "checkpoint h stamp now p d m1 w1 = (c, w2)"
    and "run_calls h after (m1, w2) = (m, w)"
    and "wc_id c \<notin> sandbox_ids (before @ after)"
  shows "rollback h p (wc_id c) m w = (False, w)"
proof (rule rollback_unknown)
  show "wc_id c \<noteq> []" using assms(2) by (auto simp: checkpoint_def Let_def split: prod.splits)
  have created: "wc_id ` set (wm_sandboxes m1) \<subseteq> sandbox_ids before"
    using run_calls_ids [of h before "(new_WorkspaceManager cfg, w0)"] assms(1) by (simp add: new_WorkspaceManager_def)
  have "wc_id ` set (wm_sandboxes m) \<subseteq> sandbox_ids after \<union> wc_id ` set (wm_sandboxes m1)"
    using run_calls_ids [of h after "(m1, w2)"] assms(3) by simp
  from this created have "wc_id ` set (wm_sandboxes m) \<subseteq> sandbox_ids after \<union> sandbox_ids before"
    by (rule subset_Un_trans)
  moreover have "sandbox_ids (before @ after) = sandbox_ids before \<union> sandbox_ids after" by (simp add: sandbox_ids_def)
  ultimately show "wc_id c \<notin> wc_id ` set (wm_sandboxes m)" using assms(4) by (rule not_in_Un)
qed

subsection \<open>Failing commands\<close>

text \<open>
  Failure goes unnoticed: when every git command fails with the same message, without the word conflict, \<open>rollback\<close> to the last
  commit, \<open>applySandboxToBase\<close> and \<open>destroySandbox\<close> report success, and \<open>checkpoint\<close> gives the message as the commit's hash.
\<close>

theorem errors_unnoticed:
  assumes "\<forall>cmd w. shell_run h cmd w = (Some (msg, 128), w)"
    and "\<forall>cmd w. system_run h cmd w = (128, w)"
    and "strip_line_ends msg = msg" and "\<not> contains msg ''conflict''"
  shows "rollback h p [] m w = (True, w) \<and> applySandboxToBase h p t m w = (True, w) \<and> fst (destroySandbox h p m w)
    \<and> wc_commit_hash (fst (checkpoint h stamp now p d m w)) = msg"
proof -
  have run: "run_git h m a q w = (msg, w)" for a q w
    by (simp add: run_git_def exec_cmd_def assms)
  have runs: "run_gits h m as q w = w" for as q w
    by (induction as arbitrary: w) (simp_all add: run)
  have fails: "gitSucceeded h m a q w = (False, w)" for a q w
    by (simp add: gitSucceeded_def assms)
  show ?thesis
    by (simp add: rollback_def applySandboxToBase_def destroySandbox_def checkpoint_def Let_def run runs fails assms(4) split: prod.splits)
qed

subsection \<open>The summary line\<close>

lemma getlines_one: "newline \<notin> set l \<Longrightarrow> getlines acc l = (if acc @ l = [] then [] else [acc @ l])"
  by (induction l arbitrary: acc) auto

lemma read_int_digits:
  assumes "ds \<noteq> []" "list_all isdigit ds" "foldl (\<lambda>a c. 10 * a + (int (code_of c) - 48)) 0 ds = n" "0 \<le> n" "n < 2 ^ 31"
    and "\<not> isdigit c"
  shows "read_int (CHR '' '' # ds @ c # r) = Some (n, c # r)"
proof -
  obtain e es where d: "ds = e # es" "isdigit e" using assms(1,2) by (cases ds) auto
  then have e: "\<not> isspace e" "e \<noteq> CHR ''-''" "e \<noteq> CHR ''+''" by (auto simp: isdigit_def isspace_def code_of_def)
  have "takeWhile isdigit (ds @ c # r) = ds" "dropWhile isdigit (ds @ c # r) = c # r"
    using assms(2,6) by (simp_all add: list_all_iff takeWhile_append2 dropWhile_append2)
  moreover have "isspace CHR '' ''" by (simp add: isspace_def code_of_def)
  ultimately show ?thesis using assms(3,4,5) e by (simp add: read_int_def d(1) Let_def)
qed

text \<open>
  The summary line of \<open>git diff --stat\<close> is read up to its first number: after \<open>N files\<close> the loop reads a number where
  \<open>changed,\<close> stands and ends, so that the insertions and the deletions of the difference are 0 whatever the line says of them.
\<close>

theorem insertions_never_counted:
  assumes "ds \<noteq> []" "list_all isdigit ds"
    and "foldl (\<lambda>a c. 10 * a + (int (code_of c) - 48)) 0 ds = n" "0 \<le> n" "n < 2 ^ 31"
    and "newline \<notin> set rest"
  shows "stat_counts (CHR '' '' # ds @ '' files changed, '' @ rest) d = d\<lparr>wd_files_changed := nat n\<rparr>"
proof -
  define l where "l = CHR '' '' # ds @ '' files changed, '' @ rest"
  have ds: "\<not> isspace c" "c \<noteq> newline" "c \<noteq> CHR ''-''" "c \<noteq> CHR ''+''" if "c \<in> set ds" for c
    using assms(2) that by (auto simp: list_all_iff isdigit_def isspace_def code_of_def)
  have "newline \<notin> set l" using ds(2) assms(6) by (auto simp: l_def)
  then have lines: "getlines [] l = [l]" using getlines_one [of l "[]"] by (simp add: l_def)
  have "l = (CHR '' '' # ds @ '' files '') @ ''changed'' @ ('', '' @ rest)" by (simp add: l_def)
  then have "contains l ''changed''" unfolding contains_def by (metis sublist_appendI)
  moreover have "stat_loop l d = d\<lparr>wd_files_changed := nat n\<rparr>"
  proof -
    have "read_int l = Some (n, '' files changed, '' @ rest)"
      unfolding l_def using read_int_digits [OF assms(1-5)] by (simp add: isdigit_def code_of_def)
    moreover have "read_word '' files changed, '' = Some (''files'', '' changed, '')" by code_simp
    then have "read_word ('' files changed, '' @ rest) = Some (''files'', '' changed, '' @ rest)"
      by (simp add: read_word_def isspace_def code_of_def)
    moreover have "read_int ('' changed, '' @ rest) = None"
      by (simp add: read_int_def isspace_def isdigit_def code_of_def)
    moreover have "contains ''files'' ''file''" by (simp add: contains_def sublist_code)
    moreover have "nat (n mod 2 ^ 64) = nat n" using assms(4,5) by simp
    ultimately show ?thesis
      by (subst stat_loop.simps) (simp add: Let_def, subst stat_loop.simps, simp)
  qed
  ultimately show ?thesis unfolding l_def [symmetric] stat_counts_def lines by simp
qed

end
