(* ===== verification/Regex_Engine.thy ===== *)
theory Regex_Engine
  imports Prelude Char_Class
begin

text \<open>
  \<open>std::regex\<close> as far as the program uses it: ECMAScript expressions with captures, matched by backtracking.

  \<^item> \<open>rematch s r i c\<close> lists the ways in which \<open>r\<close> matches the text \<open>s\<close> from the position \<open>i\<close> with the captures \<open>c\<close>, in the order
    in which ECMAScript tries them: the left side of an alternative first, a greedy repetition as long as possible, a lazy one as short
    as possible. A match is the first way.
  \<^item> An iteration of a repetition must consume something. Captures inside a repetition keep the last iteration.
  \<^item> A position is an index into the text, a capture a pair of positions.
\<close>

type_synonym captures = "(nat, nat \<times> nat) umap"

datatype regex =
    Epsilon
  | One "char \<Rightarrow> bool"
  | Seq regex regex
  | Alt regex regex
  | Many bool regex
  | Group nat regex
  | Back nat
  | At_Start
  | At_End
  | Line_Start
  | Line_End
  | Word_Edge

definition slice :: "string \<Rightarrow> nat \<Rightarrow> nat \<Rightarrow> string" where
  "slice s a b = take (b - a) (drop a s)"

definition word_char :: "char \<Rightarrow> bool" where
  "word_char c \<longleftrightarrow> isalnum c \<or> c = CHR ''_''"

definition word_at :: "string \<Rightarrow> nat \<Rightarrow> bool" where
  "word_at s i \<longleftrightarrow> i < length s \<and> word_char (s ! i)"

definition line_end_char :: "char \<Rightarrow> bool" where
  "line_end_char c \<longleftrightarrow> c = newline \<or> c = CHR 0x0D"

text \<open>The test of an assertion at a position.\<close>

fun holds_at :: "string \<Rightarrow> regex \<Rightarrow> nat \<Rightarrow> bool" where
  "holds_at s At_Start i \<longleftrightarrow> i = 0"
| "holds_at s At_End i \<longleftrightarrow> i = length s"
| "holds_at s Line_Start i \<longleftrightarrow> i = 0 \<or> line_end_char (s ! (i - 1))"
| "holds_at s Line_End i \<longleftrightarrow> i = length s \<or> line_end_char (s ! i)"
| "holds_at s Word_Edge i \<longleftrightarrow> (i \<noteq> 0 \<and> word_at s (i - 1)) \<noteq> word_at s i"
| "holds_at s _ i \<longleftrightarrow> True"

text \<open>A reference to a group that has not taken part matches the empty text. The test \<open>j \<le> length s\<close> always holds (\<open>rematch_bounds\<close>).\<close>

function rematch :: "string \<Rightarrow> regex \<Rightarrow> nat \<Rightarrow> captures \<Rightarrow> (nat \<times> captures) list" where
  "rematch s Epsilon i c = [(i, c)]"
| "rematch s (One p) i c = (if i < length s \<and> p (s ! i) then [(Suc i, c)] else [])"
| "rematch s (Seq r q) i c = concat (map (\<lambda>(j, d). rematch s q j d) (rematch s r i c))"
| "rematch s (Alt r q) i c = rematch s r i c @ rematch s q i c"
| "rematch s (Many greedy r) i c =
     (let more = concat (map (\<lambda>(j, d). if i < j \<and> j \<le> length s then rematch s (Many greedy r) j d else []) (rematch s r i c))
      in if greedy then more @ [(i, c)] else (i, c) # more)"
| "rematch s (Group n r) i c = map (\<lambda>(j, d). (j, AList.update n (i, j) d)) (rematch s r i c)"
| "rematch s (Back n) i c =
     (case map_of c n of
        None \<Rightarrow> [(i, c)]
      | Some (a, b) \<Rightarrow> if i \<le> length s \<and> prefix (slice s a b) (drop i s) then [(i + length (slice s a b), c)] else [])"
| "rematch s At_Start i c = (if holds_at s At_Start i then [(i, c)] else [])"
| "rematch s At_End i c = (if holds_at s At_End i then [(i, c)] else [])"
| "rematch s Line_Start i c = (if holds_at s Line_Start i then [(i, c)] else [])"
| "rematch s Line_End i c = (if holds_at s Line_End i then [(i, c)] else [])"
| "rematch s Word_Edge i c = (if holds_at s Word_Edge i then [(i, c)] else [])"
  by pat_completeness auto
termination
  by (relation "measures [\<lambda>(s, r, i, c). size r, \<lambda>(s, r, i, c). length s - i]") auto

declare rematch.simps(5) [simp del]

subsection \<open>Building expressions\<close>

definition Plus_Re :: "bool \<Rightarrow> regex \<Rightarrow> regex" where
  "Plus_Re greedy r = Seq r (Many greedy r)"

definition Opt :: "regex \<Rightarrow> regex" where
  "Opt r = Alt r Epsilon"

fun Text :: "string \<Rightarrow> regex" where
  "Text [] = Epsilon"
| "Text [c] = One (\<lambda>x. x = c)"
| "Text (c # cs) = Seq (One (\<lambda>x. x = c)) (Text cs)"

text \<open>With \<open>icase\<close>.\<close>

fun Text_Any :: "string \<Rightarrow> regex" where
  "Text_Any [] = Epsilon"
| "Text_Any [c] = One (\<lambda>x. tolower x = tolower c)"
| "Text_Any (c # cs) = Seq (One (\<lambda>x. tolower x = tolower c)) (Text_Any cs)"

fun Seqs :: "regex list \<Rightarrow> regex" where
  "Seqs [] = Epsilon"
| "Seqs [r] = r"
| "Seqs (r # rs) = Seq r (Seqs rs)"

fun Alts :: "regex list \<Rightarrow> regex" where
  "Alts [] = One (\<lambda>_. False)"
| "Alts [r] = r"
| "Alts (r # rs) = Alt r (Alts rs)"

text \<open>\<open>\s\<close>, \<open>.\<close>, and the sets in brackets.\<close>

abbreviation Space :: regex where
  "Space \<equiv> One isspace"

abbreviation Spaces :: regex where
  "Spaces \<equiv> Many True Space"

abbreviation Some_Spaces :: regex where
  "Some_Spaces \<equiv> Plus_Re True Space"

abbreviation Dot :: regex where
  "Dot \<equiv> One (\<lambda>c. \<not> line_end_char c)"

abbreviation Digits :: regex where
  "Digits \<equiv> Plus_Re True (One isdigit)"

definition one_of :: "string \<Rightarrow> char \<Rightarrow> bool" where
  "one_of cs c \<longleftrightarrow> c \<in> set cs"

definition none_of :: "string \<Rightarrow> char \<Rightarrow> bool" where
  "none_of cs c \<longleftrightarrow> c \<notin> set cs"

definition letter_char :: "char \<Rightarrow> bool" where
  "letter_char c \<longleftrightarrow> isupper c \<or> islower c \<or> c = CHR ''_''"

text \<open>\<open>([a-zA-Z_][a-zA-Z0-9_]*)\<close>\<close>

definition Identifier :: regex where
  "Identifier = Seq (One letter_char) (Many True (One word_char))"

subsection \<open>Searching\<close>

text \<open>A match: its beginning, its end and its captures.\<close>

type_synonym re_match = "nat \<times> nat \<times> captures"

definition match_at :: "string \<Rightarrow> regex \<Rightarrow> nat \<Rightarrow> re_match option" where
  "match_at s r i = (case rematch s r i [] of [] \<Rightarrow> None | (j, c) # _ \<Rightarrow> Some (i, j, c))"

text \<open>\<open>regex_search\<close> from a position.\<close>

function search_from :: "string \<Rightarrow> regex \<Rightarrow> nat \<Rightarrow> re_match option" where
  "search_from s r i =
     (case match_at s r i of
        Some m \<Rightarrow> Some m
      | None \<Rightarrow> if i < length s then search_from s r (Suc i) else None)"
  by pat_completeness auto
termination
  by (relation "measure (\<lambda>(s, r, i). length s - i)") auto

declare search_from.simps [simp del]

abbreviation regex_search :: "string \<Rightarrow> regex \<Rightarrow> re_match option" where
  "regex_search s r \<equiv> search_from s r 0"

text \<open>\<open>regex_match\<close>: the first way that takes the whole text.\<close>

definition regex_match :: "string \<Rightarrow> regex \<Rightarrow> re_match option" where
  "regex_match s r = (case filter (\<lambda>(j, c). j = length s) (rematch s r 0 []) of [] \<Rightarrow> None | (j, c) # _ \<Rightarrow> Some (0, j, c))"

text \<open>\<open>m[n].str()\<close> and \<open>m[n].matched\<close>; group 0 is the whole match.\<close>

definition group_of :: "string \<Rightarrow> re_match \<Rightarrow> nat \<Rightarrow> string" where
  "group_of s m n = (case map_of (snd (snd m)) n of None \<Rightarrow> [] | Some (a, b) \<Rightarrow> slice s a b)"

definition matched :: "re_match \<Rightarrow> nat \<Rightarrow> bool" where
  "matched m n \<longleftrightarrow> map_of (snd (snd m)) n \<noteq> None"

definition whole :: "string \<Rightarrow> re_match \<Rightarrow> string" where
  "whole s m = slice s (fst m) (fst (snd m))"

text \<open>
  The matches of an \<open>sregex_iterator\<close>, each searched for from the end of the one before. After an empty match the iterator also tries
  for a longer one at the same position; no expression of the program matches the empty text.
\<close>

function all_matches :: "string \<Rightarrow> regex \<Rightarrow> nat \<Rightarrow> re_match list" where
  "all_matches s r i =
     (case search_from s r i of
        None \<Rightarrow> []
      | Some (a, b, c) \<Rightarrow> (a, b, c) # (if i \<le> a \<and> a < length s then all_matches s r (max b (Suc a)) else []))"
  by pat_completeness auto
termination
  by (relation "measure (\<lambda>(s, r, i). length s - i)") auto

declare all_matches.simps [simp del]

text \<open>\<open>regex_replace\<close> by the empty text.\<close>

fun erase_spans :: "string \<Rightarrow> nat \<Rightarrow> re_match list \<Rightarrow> string" where
  "erase_spans s i [] = drop i s"
| "erase_spans s i ((a, b, c) # ms) = slice s i a @ erase_spans s b ms"

definition erase_matches :: "string \<Rightarrow> regex \<Rightarrow> string" where
  "erase_matches s r = erase_spans s 0 (all_matches s r 0)"

subsection \<open>What a match is\<close>

lemma in_Seq: "x \<in> set (rematch s (Seq r q) i c) \<longleftrightarrow> (\<exists>j d. (j, d) \<in> set (rematch s r i c) \<and> x \<in> set (rematch s q j d))"
  by (auto simp: Bex_def)

lemma in_Many:
  "x \<in> set (rematch s (Many greedy r) i c) \<longleftrightarrow>
     x = (i, c) \<or> (\<exists>j d. (j, d) \<in> set (rematch s r i c) \<and> i < j \<and> j \<le> length s \<and> x \<in> set (rematch s (Many greedy r) j d))"
  unfolding rematch.simps(5) [of s greedy r i c] by (auto simp: Let_def split: if_splits)

lemma rematch_bounds: "(j, d) \<in> set (rematch s r i c) \<Longrightarrow> i \<le> j \<and> (i \<le> length s \<longrightarrow> j \<le> length s)"
proof (induction s r i c arbitrary: j d rule: rematch.induct)
  case (3 s r q i c)
  then obtain k e where k: "(k, e) \<in> set (rematch s r i c)" "(j, d) \<in> set (rematch s q k e)" unfolding in_Seq by blast
  show ?case using "3.IH"(1) [OF k(1)] "3.IH"(2) [OF k(1) refl k(2)] by linarith
next
  case (5 s greedy r i c)
  from "5.prems" consider "(j, d) = (i, c)"
    | k e where "(k, e) \<in> set (rematch s r i c)" "i < k" "k \<le> length s" "(j, d) \<in> set (rematch s (Many greedy r) k e)"
    unfolding in_Many [of _ _ _ _ i c] by blast
  then show ?case
  proof cases
    case 2
    from "5.IH"(2) [OF 2(1) refl _ 2(4)] 2(2,3) show ?thesis by linarith
  qed simp
next
  case (7 s n i c)
  then show ?case by (auto split: option.splits if_splits dest!: prefix_length_le)
qed (auto split: if_splits)

text \<open>The declarative reading: \<open>r\<close> can match from \<open>i\<close> to \<open>j\<close>, turning the captures \<open>c\<close> into \<open>d\<close>.\<close>

inductive derives :: "string \<Rightarrow> regex \<Rightarrow> nat \<Rightarrow> captures \<Rightarrow> nat \<Rightarrow> captures \<Rightarrow> bool" for s where
  derives_epsilon: "derives s Epsilon i c i c"
| derives_one: "i < length s \<Longrightarrow> p (s ! i) \<Longrightarrow> derives s (One p) i c (Suc i) c"
| derives_seq: "derives s r i c j d \<Longrightarrow> derives s q j d k e \<Longrightarrow> derives s (Seq r q) i c k e"
| derives_left: "derives s r i c j d \<Longrightarrow> derives s (Alt r q) i c j d"
| derives_right: "derives s q i c j d \<Longrightarrow> derives s (Alt r q) i c j d"
| derives_none: "derives s (Many greedy r) i c i c"
| derives_more: "derives s r i c j d \<Longrightarrow> i < j \<Longrightarrow> derives s (Many greedy r) j d k e \<Longrightarrow> derives s (Many greedy r) i c k e"
| derives_group: "derives s r i c j d \<Longrightarrow> derives s (Group n r) i c j (AList.update n (i, j) d)"
| derives_unset: "map_of c n = None \<Longrightarrow> derives s (Back n) i c i c"
| derives_back: "map_of c n = Some (a, b) \<Longrightarrow> i \<le> length s \<Longrightarrow> prefix (slice s a b) (drop i s) \<Longrightarrow>
    derives s (Back n) i c (i + length (slice s a b)) c"
| derives_assertion: "r \<in> {At_Start, At_End, Line_Start, Line_End, Word_Edge} \<Longrightarrow> holds_at s r i \<Longrightarrow> derives s r i c i c"

lemma rematch_derives: "(j, d) \<in> set (rematch s r i c) \<Longrightarrow> derives s r i c j d"
proof (induction s r i c arbitrary: j d rule: rematch.induct)
  case (3 s r q i c)
  then obtain k e where k: "(k, e) \<in> set (rematch s r i c)" "(j, d) \<in> set (rematch s q k e)" unfolding in_Seq by blast
  show ?case by (rule derives_seq [OF "3.IH"(1) [OF k(1)] "3.IH"(2) [OF k(1) refl k(2)]])
next
  case (5 s greedy r i c)
  from "5.prems" consider "(j, d) = (i, c)"
    | k e where "(k, e) \<in> set (rematch s r i c)" "i < k" "k \<le> length s" "(j, d) \<in> set (rematch s (Many greedy r) k e)"
    unfolding in_Many [of _ _ _ _ i c] by blast
  then show ?case
  proof cases
    case 1
    then show ?thesis by (simp add: derives_none)
  next
    case 2
    then show ?thesis using derives_more [OF "5.IH"(1) [OF 2(1)] 2(2) "5.IH"(2) [OF 2(1) refl _ 2(4)]] by simp
  qed
next
  case (7 s n i c)
  then show ?case by (auto split: option.splits if_splits intro: derives_unset derives_back)
qed (auto split: if_splits intro: derives.intros)

lemma derives_bounds: "derives s r i c j d \<Longrightarrow> i \<le> j \<and> (i \<le> length s \<longrightarrow> j \<le> length s)"
  by (induction rule: derives.induct) (auto dest: prefix_length_le)

lemma derives_rematch: "derives s r i c j d \<Longrightarrow> i \<le> length s \<Longrightarrow> (j, d) \<in> set (rematch s r i c)"
proof (induction rule: derives.induct)
  case (derives_more r i c j d greedy k e)
  have "j \<le> length s" using derives_bounds [OF derives_more(1)] derives_more.prems by simp
  then show ?case unfolding in_Many [of _ _ _ _ i c] using derives_more by blast
next
  case (derives_seq r i c j d q k e)
  have "j \<le> length s" using derives_bounds [OF derives_seq(1)] derives_seq.prems by simp
  then show ?case unfolding in_Seq using derives_seq by blast
next
  case (derives_none greedy r i c)
  show ?case by (subst in_Many) simp
next
  case (derives_assertion r i c)
  then show ?case by auto
qed force+

lemma rematch_iff: "i \<le> length s \<Longrightarrow> (j, d) \<in> set (rematch s r i c) \<longleftrightarrow> derives s r i c j d"
  using rematch_derives derives_rematch by blast

end
