(* ===== verification/AST_Parser.thy ===== *)
theory AST_Parser
  imports Regex_Engine Sha256
begin

text \<open>
  The source parser: \<open>src/src/parser/ASTParser.h\<close> and \<open>ASTParser.cpp\<close>. Lines and columns are natural numbers; the depths of
  braces are integers, since a closing brace may come first. The expressions are those of the code, written with \<open>Regex_Engine\<close>.
\<close>

datatype SymbolType = Function_Symbol | Method_Symbol | Class_Symbol | Struct_Symbol | Interface_Symbol | Enum_Symbol |
  Variable_Symbol | Namespace_Symbol | Import_Symbol | TypeAlias_Symbol

record CodeSymbol =
  sy_name :: string
  sy_type :: SymbolType
  sy_file_path :: string
  sy_signature :: string
  sy_docstring :: string
  sy_start_line :: nat
  sy_end_line :: nat
  sy_parent_symbol :: string
  sy_visibility :: string
  sy_callees :: "string list"
  sy_callers :: "string list"

record ParsedFile =
  pf_file_path :: string
  pf_language :: string
  pf_symbols :: "CodeSymbol list"
  pf_imports :: "string list"
  pf_line_count :: nat
  pf_checksum :: string
  pf_success :: bool
  pf_error :: string

subsection \<open>Languages and checksums\<close>

definition extension_of :: "string \<Rightarrow> string option" where
  "extension_of p = (if CHR ''.'' \<in> set p then Some (CHR ''.'' # rev (takeWhile (\<lambda>c. c \<noteq> CHR ''.'') (rev p))) else None)"

definition detectLanguage :: "string \<Rightarrow> string" where
  "detectLanguage file_path =
     (case extension_of file_path of
        None \<Rightarrow> ''unknown''
      | Some e \<Rightarrow>
          (let ext = lower e
           in if ext \<in> set [''.cpp'', ''.cxx'', ''.cc'', ''.h'', ''.hpp'', ''.c''] then ''cpp''
              else if ext \<in> set [''.py'', ''.pyi''] then ''python''
              else if ext \<in> set [''.ts'', ''.tsx''] then ''typescript''
              else if ext \<in> set [''.js'', ''.jsx'', ''.mjs''] then ''javascript''
              else if ext = ''.rs'' then ''rust''
              else if ext = ''.go'' then ''go''
              else if ext = ''.java'' then ''java''
              else if ext \<in> set [''.md'', ''.markdown''] then ''markdown''
              else if ext = ''.json'' then ''json''
              else ''unknown''))"

definition fnv_step :: "char \<Rightarrow> 64 word \<Rightarrow> 64 word" where
  "fnv_step c hash = (hash XOR of_nat (code_of c)) * 1099511628211"

definition fnv_hash :: "string \<Rightarrow> 64 word" where
  "fnv_hash content = fold fnv_step content 14695981039346656037"

text \<open>\<open>std::hex << std::setw(16) << std::setfill('0')\<close>.\<close>

definition hex16 :: "64 word \<Rightarrow> string" where
  "hex16 x = map (\<lambda>i. hex_digit (unat (drop_bit (4 * i) x AND 0xF))) (rev [0..<16])"

definition computeChecksum :: "string \<Rightarrow> string" where
  "computeChecksum content = hex16 (fnv_hash content)"

subsection \<open>Calls and comments\<close>

definition call_regex :: regex where
  "call_regex = Seqs [Word_Edge, Group 1 Identifier, Spaces, Text ''('']"

definition call_keywords :: "string list" where
  "call_keywords = [''if'', ''while'', ''for'', ''switch'', ''catch'', ''return'', ''sizeof'', ''decltype'',
     ''static_cast'', ''dynamic_cast'', ''reinterpret_cast'', ''const_cast'']"

definition extractCallees :: "string \<Rightarrow> string list" where
  "extractCallees body =
     fold (\<lambda>m callees. let name = group_of body m 1
                      in if name \<notin> set call_keywords \<and> name \<notin> set callees then callees @ [name] else callees)
       (all_matches body call_regex 0) []"

definition drop_indent :: "string \<Rightarrow> string" where
  "drop_indent l = dropWhile (\<lambda>c. c = CHR '' '' \<or> c = CHR 0x09) l"

text \<open>The lines above, the nearest first.\<close>

fun doc_loop :: "string list \<Rightarrow> string \<Rightarrow> string" where
  "doc_loop [] doc = doc"
| "doc_loop (line # ls) doc =
     (let l = drop_indent line
      in if starts_with l ''//'' then doc_loop ls (drop 2 l @ [newline] @ doc)
         else if starts_with l ''/*'' \<or> starts_with l ''*'' \<or> starts_with l ''*/'' \<or> starts_with l ''#'' then doc_loop ls (l @ [newline] @ doc)
         else doc)"

definition extractDocstringBefore :: "string list \<Rightarrow> nat \<Rightarrow> string" where
  "extractDocstringBefore lines i = doc_loop (rev (take i lines)) []"

subsection \<open>The state of a parser\<close>

record parser_state =
  ps_symbols :: "CodeSymbol list"
  ps_imports :: "string list"
  ps_class :: string
  ps_depth :: int
  ps_class_depth :: int

definition parser_start :: parser_state where
  "parser_start = \<lparr>ps_symbols = [], ps_imports = [], ps_class = [], ps_depth = 0, ps_class_depth = -1\<rparr>"

text \<open>A symbol found in the line with index \<open>i\<close>.\<close>

definition line_symbol :: "string \<Rightarrow> string list \<Rightarrow> nat \<Rightarrow> SymbolType \<Rightarrow> string \<Rightarrow> CodeSymbol" where
  "line_symbol file_path lines i t name =
     \<lparr>sy_name = name, sy_type = t, sy_file_path = file_path, sy_signature = lines ! i, sy_docstring = extractDocstringBefore lines i,
      sy_start_line = i + 1, sy_end_line = i + 1, sy_parent_symbol = [], sy_visibility = ''public'', sy_callees = [], sy_callers = []\<rparr>"

definition add_symbol :: "CodeSymbol \<Rightarrow> parser_state \<Rightarrow> parser_state" where
  "add_symbol x ps = ps\<lparr>ps_symbols := ps_symbols ps @ [x]\<rparr>"

definition add_import :: "string \<Rightarrow> parser_state \<Rightarrow> parser_state" where
  "add_import x ps = ps\<lparr>ps_imports := ps_imports ps @ [x]\<rparr>"

text \<open>A function, or a method when a class has been seen, with the calls of its line.\<close>

definition line_function :: "string \<Rightarrow> string list \<Rightarrow> nat \<Rightarrow> string \<Rightarrow> parser_state \<Rightarrow> CodeSymbol" where
  "line_function file_path lines i name ps =
     (line_symbol file_path lines i (if ps_class ps = [] then Function_Symbol else Method_Symbol) name)
       \<lparr>sy_parent_symbol := ps_class ps, sy_callees := extractCallees (lines ! i)\<rparr>"

text \<open>\<open>re_first s r n\<close>: group \<open>n\<close> of the first match.\<close>

definition re_first :: "string \<Rightarrow> regex \<Rightarrow> nat \<Rightarrow> string option" where
  "re_first s r n = map_option (\<lambda>m. group_of s m n) (regex_search s r)"

subsection \<open>C++\<close>

definition include_regex :: regex where
  "include_regex = Seqs [At_Start, Spaces, Text ''#include'', Some_Spaces,
     Group 1 (Seqs [One (one_of ''<\"''), Plus_Re True (One (none_of ''>\"'')), One (one_of ''>\"'')])]"

definition class_regex :: regex where
  "class_regex = Seqs [Word_Edge, Alt (Text ''class'') (Text ''struct''), Some_Spaces, Group 1 Identifier]"

definition type_char :: "char \<Rightarrow> bool" where
  "type_char c \<longleftrightarrow> word_char c \<or> c \<in> set '':*&<>''"

definition func_regex :: regex where
  "func_regex = Seqs [Word_Edge,
     Many True (Seq (Alts (map Text [''inline'', ''static'', ''virtual'', ''explicit'', ''constexpr'', ''const'', ''friend''])) Some_Spaces),
     Plus_Re True (Seqs [One letter_char, Many True (One type_char), Some_Spaces]),
     Group 1 (Seq (One letter_char) (Many True (One (\<lambda>c. word_char c \<or> c = CHR '':'')))),
     Spaces, Text ''('', Group 2 (Many True (One (none_of '')''))), Text '')'']"

definition ignored_names :: "string list" where
  "ignored_names = [''if'', ''while'', ''for'', ''switch'', ''catch'', ''return'', ''sizeof'', ''decltype'',
     ''static_cast'', ''dynamic_cast'', ''reinterpret_cast'', ''const_cast'',
     ''class'', ''struct'', ''enum'', ''template'', ''typedef'', ''using'', ''public'', ''private'', ''protected'']"

definition brace_step :: "char \<Rightarrow> int \<Rightarrow> int" where
  "brace_step c d = (if c = CHR ''{'' then d + 1 else if c = CHR ''}'' then d - 1 else d)"

text \<open>The rest of the line of a signature: the depth, whether the body began, and its text.\<close>

fun first_body_line :: "string \<Rightarrow> int \<Rightarrow> bool \<Rightarrow> string \<Rightarrow> int \<times> bool \<times> string" where
  "first_body_line [] depth started body = (depth, started, body)"
| "first_body_line (c # cs) depth started body =
     (let depth' = brace_step c depth; started' = (started \<or> c = CHR ''{''); body' = (if started' then body @ [c] else body)
      in if started' \<and> depth' \<le> 0 then (depth', started', body') else first_body_line cs depth' started' body')"

fun body_line :: "string \<Rightarrow> int \<Rightarrow> string \<Rightarrow> int \<times> string" where
  "body_line [] depth body = (depth, body)"
| "body_line (c # cs) depth body =
     (let depth' = brace_step c depth in if depth' \<le> 0 then (depth', body @ [c]) else body_line cs depth' (body @ [c]))"

text \<open>The lines from index \<open>j\<close> on: the text, and the number of the line that ends the body, if one does.\<close>

fun body_lines :: "string list \<Rightarrow> nat \<Rightarrow> int \<Rightarrow> string \<Rightarrow> string \<times> nat option" where
  "body_lines [] j depth body = (body, None)"
| "body_lines (l # ls) j depth body =
     (case body_line l depth (body @ [newline]) of
        (depth', body') \<Rightarrow> if depth' \<le> 0 then (body', Some (j + 1)) else body_lines ls (j + 1) depth' body')"

definition function_body :: "string list \<Rightarrow> nat \<Rightarrow> string \<Rightarrow> string \<times> nat" where
  "function_body lines i remainder =
     (case first_body_line remainder 0 False [] of
        (depth, started, body) \<Rightarrow>
          if started \<and> depth > 0 then
            (case body_lines (drop (i + 1) lines) (i + 1) depth body of (body', e) \<Rightarrow> (body', case e of None \<Rightarrow> i + 1 | Some n \<Rightarrow> n))
          else (body, i + 1))"

definition cpp_function :: "string \<Rightarrow> string list \<Rightarrow> nat \<Rightarrow> re_match \<Rightarrow> parser_state \<Rightarrow> parser_state" where
  "cpp_function file_path lines i m ps =
     (let line = lines ! i; func_name = group_of line m 1
      in if func_name \<in> set ignored_names then ps
         else
           (let (body, e) = function_body lines i (drop (fst (snd m)) line);
                callees = filter (\<lambda>x. x \<noteq> func_name) (extractCallees (if body = [] then line else body))
            in add_symbol ((line_symbol file_path lines i (if ps_class ps = [] then Function_Symbol else Method_Symbol) func_name)
                 \<lparr>sy_signature := whole line m, sy_end_line := e, sy_parent_symbol := ps_class ps, sy_callees := callees\<rparr>) ps))"

definition cpp_class :: "string \<Rightarrow> string list \<Rightarrow> nat \<Rightarrow> parser_state \<Rightarrow> parser_state" where
  "cpp_class file_path lines i ps =
     (let line = lines ! i
      in case re_first line class_regex 1 of
           None \<Rightarrow> ps
         | Some name \<Rightarrow>
             add_symbol (line_symbol file_path lines i (if contains line ''struct'' then Struct_Symbol else Class_Symbol) name)
               (ps\<lparr>ps_class := name, ps_class_depth := ps_depth ps\<rparr>))"

text \<open>After the functions of the line: the braces, and the end of the class.\<close>

definition cpp_scope :: "string \<Rightarrow> parser_state \<Rightarrow> parser_state" where
  "cpp_scope line ps =
     (let d = fold brace_step line (ps_depth ps)
      in if ps_class ps \<noteq> [] \<and> ps_class_depth ps \<noteq> -1 \<and> d \<le> ps_class_depth ps
         then ps\<lparr>ps_depth := d, ps_class := [], ps_class_depth := -1\<rparr> else ps\<lparr>ps_depth := d\<rparr>)"

definition cpp_line :: "string \<Rightarrow> string list \<Rightarrow> nat \<Rightarrow> parser_state \<Rightarrow> parser_state" where
  "cpp_line file_path lines i ps =
     (let line = lines ! i
      in case re_first line include_regex 1 of
           Some x \<Rightarrow> add_import x ps
         | None \<Rightarrow> cpp_scope line (fold (cpp_function file_path lines i) (all_matches line func_regex 0) (cpp_class file_path lines i ps)))"

subsection \<open>The other languages\<close>

definition py_import_regex :: regex where
  "py_import_regex = Seqs [At_Start, Spaces,
     Alt (Seqs [Text ''import'', Some_Spaces, Group 1 (Plus_Re True (One (\<lambda>c. isalnum c \<or> c \<in> set ''_., '')))])
         (Seqs [Text ''from'', Some_Spaces, Group 2 (Plus_Re True (One (\<lambda>c. isalnum c \<or> c \<in> set ''_.''))), Some_Spaces, Text ''import''])]"

definition py_class_regex :: regex where
  "py_class_regex = Seqs [At_Start, Spaces, Text ''class'', Some_Spaces, Group 1 Identifier]"

definition py_func_regex :: regex where
  "py_func_regex = Seqs [At_Start, Spaces, Opt (Seq (Text ''async'') Some_Spaces), Text ''def'', Some_Spaces, Group 1 Identifier, Spaces,
     Text ''('', Group 2 (Many True (One (none_of '')''))), Text '')'']"

text \<open>A line that declares a class: the class stays the current one to the end of the file.\<close>

definition enter_class :: "string \<Rightarrow> string list \<Rightarrow> nat \<Rightarrow> string \<Rightarrow> parser_state \<Rightarrow> parser_state" where
  "enter_class file_path lines i name ps = add_symbol (line_symbol file_path lines i Class_Symbol name) (ps\<lparr>ps_class := name\<rparr>)"

definition python_line :: "string \<Rightarrow> string list \<Rightarrow> nat \<Rightarrow> parser_state \<Rightarrow> parser_state" where
  "python_line file_path lines i ps =
     (let line = lines ! i
      in case regex_search line py_import_regex of
           Some m \<Rightarrow> add_import (if matched m 1 then group_of line m 1 else group_of line m 2) ps
         | None \<Rightarrow>
             (case re_first line py_class_regex 1 of
                Some name \<Rightarrow> enter_class file_path lines i name ps
              | None \<Rightarrow>
                  (case re_first line py_func_regex 1 of
                     Some name \<Rightarrow> add_symbol (line_function file_path lines i name ps) ps
                   | None \<Rightarrow> ps)))"

definition js_import_regex :: regex where
  "js_import_regex = Seqs [At_Start, Spaces, Text ''import'', Some_Spaces, Many True Dot, Text ''from'', Some_Spaces, One (one_of [CHR 0x27, CHR 0x22]),
     Group 1 (Plus_Re True (One (none_of [CHR 0x27, CHR 0x22]))), One (one_of [CHR 0x27, CHR 0x22])]"

definition js_export :: regex where
  "js_export = Opt (Seq (Text ''export'') Some_Spaces)"

definition js_class_regex :: regex where
  "js_class_regex = Seqs [At_Start, Spaces, js_export, Text ''class'', Some_Spaces, Group 1 Identifier]"

definition js_func_regex :: regex where
  "js_func_regex = Seqs [At_Start, Spaces, js_export, Opt (Seq (Text ''async'') Some_Spaces), Text ''function'', Some_Spaces,
     Group 1 Identifier, Spaces, Text ''('']"

definition js_arrow_regex :: regex where
  "js_arrow_regex = Seqs [At_Start, Spaces, js_export, Alts [Text ''const'', Text ''let'', Text ''var''], Some_Spaces, Group 1 Identifier,
     Spaces, Text ''='', Spaces, Opt (Seq (Text ''async'') Some_Spaces), Text ''('', Many True (One (none_of '')'')), Text '')'',
     Spaces, Text ''=>'']"

definition javascript_line :: "string \<Rightarrow> string list \<Rightarrow> nat \<Rightarrow> parser_state \<Rightarrow> parser_state" where
  "javascript_line file_path lines i ps =
     (let line = lines ! i
      in case re_first line js_import_regex 1 of
           Some x \<Rightarrow> add_import x ps
         | None \<Rightarrow>
             (case re_first line js_class_regex 1 of
                Some name \<Rightarrow> enter_class file_path lines i name ps
              | None \<Rightarrow>
                  (case (case re_first line js_func_regex 1 of Some name \<Rightarrow> Some name | None \<Rightarrow> re_first line js_arrow_regex 1) of
                     Some name \<Rightarrow> add_symbol (line_function file_path lines i name ps) ps
                   | None \<Rightarrow> ps)))"

definition rust_pub :: regex where
  "rust_pub = Opt (Seq (Text ''pub'') Some_Spaces)"

definition rust_use_regex :: regex where
  "rust_use_regex = Seqs [At_Start, Spaces, Text ''use'', Some_Spaces, Group 1 (Plus_Re True (One (none_of '';''))), Text '';'']"

definition rust_struct_regex :: regex where
  "rust_struct_regex = Seqs [At_Start, Spaces, rust_pub, Text ''struct'', Some_Spaces, Group 1 Identifier]"

definition rust_fn_regex :: regex where
  "rust_fn_regex = Seqs [At_Start, Spaces, rust_pub, Opt (Seq (Text ''async'') Some_Spaces), Text ''fn'', Some_Spaces, Group 1 Identifier,
     Spaces, Text ''('']"

definition rust_line :: "string \<Rightarrow> string list \<Rightarrow> nat \<Rightarrow> parser_state \<Rightarrow> parser_state" where
  "rust_line file_path lines i ps =
     (let line = lines ! i
      in case re_first line rust_use_regex 1 of
           Some x \<Rightarrow> add_import x ps
         | None \<Rightarrow>
             (case re_first line rust_struct_regex 1 of
                Some name \<Rightarrow> add_symbol (line_symbol file_path lines i Struct_Symbol name) ps
              | None \<Rightarrow>
                  (case re_first line rust_fn_regex 1 of
                     Some name \<Rightarrow>
                       add_symbol ((line_symbol file_path lines i Function_Symbol name)\<lparr>sy_callees := extractCallees line\<rparr>) ps
                   | None \<Rightarrow> ps)))"

definition go_type_regex :: regex where
  "go_type_regex = Seqs [At_Start, Spaces, Text ''type'', Some_Spaces, Group 1 Identifier, Some_Spaces, Alt (Text ''struct'') (Text ''interface'')]"

definition go_func_regex :: regex where
  "go_func_regex = Seqs [At_Start, Spaces, Text ''func'', Some_Spaces,
     Opt (Seqs [Text ''('', Plus_Re True (One (none_of '')'')), Text '')'', Some_Spaces]), Group 1 Identifier, Spaces, Text ''('']"

text \<open>The expression for imports is made but never used.\<close>

definition go_line :: "string \<Rightarrow> string list \<Rightarrow> nat \<Rightarrow> parser_state \<Rightarrow> parser_state" where
  "go_line file_path lines i ps =
     (let line = lines ! i
      in case re_first line go_type_regex 1 of
           Some name \<Rightarrow> add_symbol (line_symbol file_path lines i (if contains line ''interface'' then Interface_Symbol else Struct_Symbol) name) ps
         | None \<Rightarrow>
             (case re_first line go_func_regex 1 of
                Some name \<Rightarrow> add_symbol ((line_symbol file_path lines i Function_Symbol name)\<lparr>sy_callees := extractCallees line\<rparr>) ps
              | None \<Rightarrow> ps))"

subsection \<open>Files\<close>

definition language_line :: "string \<Rightarrow> (string \<Rightarrow> string list \<Rightarrow> nat \<Rightarrow> parser_state \<Rightarrow> parser_state) option" where
  "language_line language =
     (if language = ''cpp'' \<or> language = ''java'' then Some cpp_line
      else if language = ''python'' then Some python_line
      else if language = ''javascript'' \<or> language = ''typescript'' then Some javascript_line
      else if language = ''rust'' then Some rust_line
      else if language = ''go'' then Some go_line
      else None)"

definition parse_lines :: "(string list \<Rightarrow> nat \<Rightarrow> parser_state \<Rightarrow> parser_state) \<Rightarrow> string list \<Rightarrow> parser_state" where
  "parse_lines step lines = fold (step lines) [0..<length lines] parser_start"

definition parseFile :: "string \<Rightarrow> string \<Rightarrow> ParsedFile" where
  "parseFile file_path content =
     (let language = detectLanguage file_path; lines = getlines [] content;
          ps = (case language_line language of None \<Rightarrow> parser_start | Some step \<Rightarrow> parse_lines (step file_path) lines)
      in \<lparr>pf_file_path = file_path, pf_language = language, pf_symbols = ps_symbols ps, pf_imports = ps_imports ps,
          pf_line_count = length lines, pf_checksum = computeChecksum content, pf_success = True, pf_error = []\<rparr>)"

end
