(* ===== verification/Regex_Laws.thy ===== *)
theory Regex_Laws
  imports Regex_Engine
begin

text \<open>
  Laws of the matcher of \<open>Regex_Engine\<close>: what a repeated character and a text match, where a search stops, and when an iterator
  visits a match.
\<close>

inductive_simps derives_simps [simp]:
  "derives s Epsilon i c j d"
  "derives s (One p) i c j d"
  "derives s (Alt r q) i c j d"
  "derives s (Group n r) i c j d"
  "derives s At_Start i c j d"
  "derives s At_End i c j d"
  "derives s Line_Start i c j d"
  "derives s Line_End i c j d"
  "derives s Word_Edge i c j d"

inductive_simps derives_Seq: "derives s (Seq r q) i c j d"

inductive_cases derives_ManyE: "derives s (Many g r) i c j d"

lemma derives_Many_One:
  "derives s (Many g (One p)) i c j d \<longleftrightarrow> d = c \<and> i \<le> j \<and> (\<forall>k. i \<le> k \<and> k < j \<longrightarrow> k < length s \<and> p (s ! k))"
proof
  show "d = c \<and> i \<le> j \<and> (\<forall>k. i \<le> k \<and> k < j \<longrightarrow> k < length s \<and> p (s ! k))" if "derives s (Many g (One p)) i c j d"
    using that
  proof (induction "Many g (One p)" i c j d rule: derives.induct)
    case (derives_more i c j d k e)
    then have "j = Suc i" "i < length s" "p (s ! i)" by simp_all
    moreover have "d = c \<and> Suc i \<le> k \<and> (\<forall>l. Suc i \<le> l \<and> l < k \<longrightarrow> l < length s \<and> p (s ! l))"
      using derives_more by simp
    moreover have "l = i \<or> Suc i \<le> l" if "i \<le> l" for l using that by linarith
    ultimately show ?case using derives_more by auto
  qed auto
next
  assume "d = c \<and> i \<le> j \<and> (\<forall>k. i \<le> k \<and> k < j \<longrightarrow> k < length s \<and> p (s ! k))"
  then have "d = c" "i \<le> j" "\<And>k. i \<le> k \<Longrightarrow> k < j \<Longrightarrow> k < length s \<and> p (s ! k)" by blast+
  then show "derives s (Many g (One p)) i c j d"
  proof (induction "j - i" arbitrary: i)
    case 0
    then show ?case by (simp add: derives_none)
  next
    case (Suc n)
    have "derives s (Many g (One p)) (Suc i) c j d" using Suc.prems Suc.hyps(2) by (intro Suc.hyps(1)) auto
    moreover have "derives s (One p) i c (Suc i) c" using Suc.prems(3) [of i] Suc.hyps(2) by simp
    ultimately show ?case by (auto intro: derives_more)
  qed
qed

lemma derives_Text:
  "derives s (Text t) i c j d \<longleftrightarrow> d = c \<and> j = i + length t \<and> (\<forall>k < length t. i + k < length s \<and> s ! (i + k) = t ! k)"
proof (induction t arbitrary: i rule: Text.induct)
  case (3 x y t)
  show ?case
  proof
    assume "derives s (Text (x # y # t)) i c j d"
    then have "i < length s" "s ! i = x" "derives s (Text (y # t)) (Suc i) c j d" by (auto simp: derives_Seq)
    with 3 [of "Suc i"] show "d = c \<and> j = i + length (x # y # t) \<and> (\<forall>k < length (x # y # t). i + k < length s \<and> s ! (i + k) = (x # y # t) ! k)"
      by (auto simp: less_Suc_eq_0_disj)
  next
    assume "d = c \<and> j = i + length (x # y # t) \<and> (\<forall>k < length (x # y # t). i + k < length s \<and> s ! (i + k) = (x # y # t) ! k)"
    then have a: "d = c" "j = i + length (x # y # t)" "\<And>k. k < length (x # y # t) \<Longrightarrow> i + k < length s \<and> s ! (i + k) = (x # y # t) ! k"
      by blast+
    have "derives s (Text (y # t)) (Suc i) c j d" unfolding 3 using a(1,2) a(3) [of "Suc k" for k] by simp
    with a(3) [of 0] show "derives s (Text (x # y # t)) i c j d" by (auto simp: derives_Seq)
  qed
qed auto

subsection \<open>Searches\<close>

lemma match_at_Some: "match_at s r i = Some (a, b, c) \<Longrightarrow> a = i \<and> derives s r i [] b c"
  using rematch_derives [of b c s r i "[]"] by (auto simp: match_at_def split: list.splits)

lemma match_at_None: "i \<le> length s \<Longrightarrow> match_at s r i = None \<longleftrightarrow> (\<nexists>j d. derives s r i [] j d)"
  using rematch_iff [of i s _ _ r "[]"] by (fastforce simp: match_at_def split: list.splits)

lemma match_at_finds: "i \<le> length s \<Longrightarrow> derives s r i [] j d \<Longrightarrow> \<exists>b c. match_at s r i = Some (i, b, c)"
  using match_at_None [of i s r] match_at_Some [of s r i] by (cases "match_at s r i") auto

lemma search_from_Some:
  "search_from s r i = Some (a, b, c) \<Longrightarrow> i \<le> a \<and> (i \<le> length s \<longrightarrow> a \<le> length s) \<and> match_at s r a = Some (a, b, c) \<and>
     (\<forall>k. i \<le> k \<and> k < a \<longrightarrow> match_at s r k = None)"
proof (induction s r i rule: search_from.induct)
  case (1 s r i)
  show ?case
  proof (cases "match_at s r i")
    case None
    with "1.prems" have i: "i < length s" "search_from s r (Suc i) = Some (a, b, c)"
      by (simp_all add: search_from.simps [of s r i] split: if_splits)
    have "Suc i \<le> a \<and> (Suc i \<le> length s \<longrightarrow> a \<le> length s) \<and> match_at s r a = Some (a, b, c) \<and> (\<forall>k. Suc i \<le> k \<and> k < a \<longrightarrow> match_at s r k = None)"
      by (rule "1.IH" [OF None i])
    with i(1) None show ?thesis by (metis Suc_leD Suc_leI le_neq_implies_less)
  next
    case (Some m)
    with "1.prems" have "m = (a, b, c)" by (simp add: search_from.simps [of s r i])
    with Some match_at_Some [of s r i a b c] show ?thesis by auto
  qed
qed

lemma search_from_None: "search_from s r i = None \<Longrightarrow> i \<le> k \<Longrightarrow> k \<le> length s \<Longrightarrow> match_at s r k = None"
proof (induction s r i rule: search_from.induct)
  case (1 s r i)
  from "1.prems"(1) have i: "match_at s r i = None" "i < length s \<Longrightarrow> search_from s r (Suc i) = None"
    by (simp_all add: search_from.simps [of s r i] split: option.splits if_splits)
  show ?case
  proof (cases "k = i")
    case False
    with "1.prems" have "i < length s" "Suc i \<le> k" by simp_all
    with "1.IH" [OF i(1) _ i(2) _ "1.prems"(3)] show ?thesis by simp
  qed (use i in simp)
qed

lemma all_matches_sound: "(a, b, c) \<in> set (all_matches s r i) \<Longrightarrow> i \<le> a \<and> match_at s r a = Some (a, b, c) \<and> (i \<le> length s \<longrightarrow> a \<le> length s)"
proof (induction s r i rule: all_matches.induct)
  case (1 s r i)
  show ?case
  proof (cases "search_from s r i")
    case None
    with "1.prems" show ?thesis by (simp add: all_matches.simps [of s r i])
  next
    case (Some m)
    obtain a' b' c' where m: "m = (a', b', c')" by (cases m)
    from "1.prems" Some m consider "(a, b, c) = (a', b', c')"
      | "i \<le> a'" "a' < length s" "(a, b, c) \<in> set (all_matches s r (max b' (Suc a')))"
      by (auto simp: all_matches.simps [of s r i] split: if_splits)
    then show ?thesis
    proof cases
      case 1
      with search_from_Some [OF Some [unfolded m]] show ?thesis by auto
    next
      case 2
      have "max b' (Suc a') \<le> length s"
        using search_from_Some [OF Some [unfolded m]] 2(2) match_at_Some [of s r a' a' b' c'] derives_bounds [of s r a' "[]" b' c'] by auto
      moreover have "max b' (Suc a') \<le> a \<and> match_at s r a = Some (a, b, c) \<and> (max b' (Suc a') \<le> length s \<longrightarrow> a \<le> length s)"
        by (rule "1.IH" [OF Some m [symmetric] refl conjI [OF 2(1,2)] 2(3)])
      ultimately show ?thesis using 2(1) by force
    qed
  qed
qed

text \<open>A match is visited when none before it reaches into it.\<close>

lemma all_matches_complete:
  assumes "match_at s r a = Some (a, b, c)" "i \<le> a" "a \<le> length s"
    and "\<And>k b' c'. k < a \<Longrightarrow> match_at s r k = Some (k, b', c') \<Longrightarrow> b' \<le> a"
  shows "(a, b, c) \<in> set (all_matches s r i)"
  using assms
proof (induction s r i rule: all_matches.induct)
  case (1 s r i)
  show ?case
  proof (cases "search_from s r i")
    case None
    with search_from_None [OF None "1.prems"(2,3)] "1.prems"(1) show ?thesis by simp
  next
    case (Some m)
    obtain a' b' c' where m: "m = (a', b', c')" by (cases m)
    note found = search_from_Some [OF Some [unfolded m]]
    have "a' \<le> a" using found "1.prems"(1,2) by (metis not_le_imp_less option.distinct(1))
    show ?thesis
    proof (cases "a' = a")
      case True
      with found "1.prems"(1) show ?thesis by (simp add: all_matches.simps [of s r i] Some m)
    next
      case False
      with \<open>a' \<le> a\<close> have less: "a' < a" by simp
      have "b' \<le> a" using "1.prems"(4) [OF less] found by blast
      with less found "1.prems"(3) have next_start: "i \<le> a'" "a' < length s" "max b' (Suc a') \<le> a" by auto
      have "(a, b, c) \<in> set (all_matches s r (max b' (Suc a')))"
        by (rule "1.IH" [OF Some m [symmetric] refl conjI [OF next_start(1,2)] "1.prems"(1) next_start(3) "1.prems"(3) "1.prems"(4)])
      with next_start show ?thesis by (simp add: all_matches.simps [of s r i] Some m)
    qed
  qed
qed

end
