(* ===== verification/AST_Calls.thy ===== *)
theory AST_Calls
  imports AST_Parser Regex_Laws
begin

text \<open>
  The checksum of \<open>AST_Parser\<close>, which tells apart contents that differ in one character, and the calls that it lists.
\<close>

subsection \<open>Checksums\<close>

lemma fnv_inverse: "(1099511628211 :: 64 word) * 14886173955864302971 = 1"
  by simp

lemma fnv_inject: "fnv_step c h = fnv_step c' h' \<longleftrightarrow> h XOR of_nat (code_of c) = h' XOR of_nat (code_of c')"
proof
  assume "fnv_step c h = fnv_step c' h'"
  then have "(h XOR of_nat (code_of c)) * 1099511628211 * 14886173955864302971 = (h' XOR of_nat (code_of c')) * 1099511628211 * 14886173955864302971"
    unfolding fnv_step_def by (rule arg_cong)
  then show "h XOR of_nat (code_of c) = h' XOR of_nat (code_of c')" unfolding mult.assoc fnv_inverse mult_1_right .
qed (simp add: fnv_step_def)

lemma xor_right_cancel: "(a :: 64 word) XOR b = c XOR b \<longleftrightarrow> a = c"
  proof
  assume "a XOR b = c XOR b"
  then have "(a XOR b) XOR b = (c XOR b) XOR b" by simp
  then show "a = c" by (simp add: xor.assoc)
qed simp

lemma fnv_state_inject: "fold fnv_step s h = fold fnv_step s h' \<longleftrightarrow> h = h'"
  by (induction s arbitrary: h h') (simp_all add: fnv_inject xor_right_cancel)

lemma char_word_inject: "(of_nat (code_of c) :: 64 word) = of_nat (code_of c') \<longleftrightarrow> c = c'"
proof
  assume "(of_nat (code_of c) :: 64 word) = of_nat (code_of c')"
  then have "unat (of_nat (code_of c) :: 64 word) = unat (of_nat (code_of c') :: 64 word)" by simp
  moreover have "unat (of_nat (code_of x) :: 64 word) = code_of x" for x
  proof -
    have "code_of x < 18446744073709551616" using code_of_less [of x] by linarith
    then show ?thesis by (simp add: unat_of_nat)
  qed
  ultimately have "code_of c = code_of c'" by simp
  then show "c = c'" by (simp add: code_of_def)
qed simp

lemma fnv_differs:
  assumes "a \<noteq> b" shows "fnv_hash (xs @ a # ys) \<noteq> fnv_hash (xs @ b # ys)"
proof
  assume "fnv_hash (xs @ a # ys) = fnv_hash (xs @ b # ys)"
  then have "(of_nat (code_of a) :: 64 word) XOR fold fnv_step xs 14695981039346656037 = of_nat (code_of b) XOR fold fnv_step xs 14695981039346656037"
    by (simp add: fnv_hash_def fnv_state_inject fnv_inject xor.commute)
  with assms show False unfolding xor_right_cancel char_word_inject by simp
qed

lemma nibbles_determine:
  assumes "\<And>i. i < 16 \<Longrightarrow> drop_bit (4 * i) x AND 0xF = drop_bit (4 * i) (y :: 64 word) AND 0xF"
  shows "x = y"
proof (rule bit_word_eqI)
  fix n assume n: "n < LENGTH(64)"
  have "bit (drop_bit (4 * (n div 4)) x AND 0xF) (n mod 4) = bit (drop_bit (4 * (n div 4)) y AND 0xF) (n mod 4)"
    using assms [of "n div 4"] n by simp
  moreover have "bit (0xF :: 64 word) (n mod 4)"
  proof -
    have "n mod 4 = 0 \<or> n mod 4 = 1 \<or> n mod 4 = 2 \<or> n mod 4 = 3" by presburger
    then show ?thesis by (elim disjE) simp_all
  qed
  ultimately show "bit x n = bit y n"
    by (simp add: bit_and_iff bit_drop_bit_eq)
qed

lemma hex_digit_inject: "d < 16 \<Longrightarrow> e < 16 \<Longrightarrow> hex_digit d = hex_digit e \<longleftrightarrow> d = e"
proof -
  have all: "list_all (\<lambda>d. list_all (\<lambda>e. hex_digit d = hex_digit e \<longrightarrow> d = e) [0..<16]) [0..<16]" by code_simp
  assume "d < 16" "e < 16"
  with all show ?thesis by (auto simp: list_all_iff simp del: upt_rec_numeral)
qed

lemma hex16_inject: "hex16 x = hex16 y \<longleftrightarrow> x = y"
proof
  assume eq: "hex16 x = hex16 y"
  show "x = y"
  proof (rule nibbles_determine)
    fix i :: nat assume i: "i < 16"
    then have i': "15 - i < length (rev [0..<16])" "rev [0..<16] ! (15 - i) = i" by (simp_all add: rev_nth)
    have lim: "unat (drop_bit (4 * i) z AND 0xF) < 16" for z :: "64 word"
    proof -
      have "drop_bit (4 * i) z AND 0xF = take_bit 4 (drop_bit (4 * i) z)" by (simp add: take_bit_eq_mask mask_eq_exp_minus_1)
      then show ?thesis using take_bit_nat_less_exp [of 4 "unat (drop_bit (4 * i) z)"] by (simp add: unsigned_take_bit_eq)
    qed
    have "hex16 x ! (15 - i) = hex16 y ! (15 - i)" using eq by simp
    then have "hex_digit (unat (drop_bit (4 * i) x AND 0xF)) = hex_digit (unat (drop_bit (4 * i) y AND 0xF))"
      unfolding hex16_def nth_map [OF i'(1)] i'(2) .
    then show "drop_bit (4 * i) x AND 0xF = drop_bit (4 * i) y AND 0xF"
      using hex_digit_inject [OF lim lim] by (simp add: word_unat_eq_iff)
  qed
qed simp

text \<open>
  A change of one character is always noticed: two contents that differ in exactly one place have different checksums. The step of
  the hash is a bijection of the 64-bit words for every character, since the factor is odd, and the sixteen digits determine the hash.
\<close>

theorem checksum_detects_change:
  assumes "a \<noteq> b"
  shows "computeChecksum (xs @ a # ys) \<noteq> computeChecksum (xs @ b # ys)"
  using fnv_differs [OF assms] by (simp add: computeChecksum_def hex16_inject)

theorem checksum_detects_change_witness:
  "computeChecksum ''int f() { return 1; }'' \<noteq> computeChecksum ''int f() { return 2; }''"
  using checksum_detects_change [of "CHR ''1''" "CHR ''2''" "''int f() { return ''" "''; }''"] by simp

subsection \<open>Calls\<close>

text \<open>A name at \<open>a\<close> up to \<open>b\<close>, not preceded by a character of a word, with an opening parenthesis behind it, or behind spaces.\<close>

definition call_span :: "string \<Rightarrow> nat \<Rightarrow> nat \<Rightarrow> nat \<Rightarrow> bool" where
  "call_span body a b e \<longleftrightarrow> a < b \<and> b \<le> e \<and> e < length body \<and> letter_char (body ! a) \<and> (\<forall>k. a \<le> k \<and> k < b \<longrightarrow> word_char (body ! k)) \<and>
     (a \<noteq> 0 \<longrightarrow> \<not> word_char (body ! (a - 1))) \<and> (\<forall>k. b \<le> k \<and> k < e \<longrightarrow> isspace (body ! k)) \<and> body ! e = CHR ''(''"

definition call_site :: "string \<Rightarrow> nat \<Rightarrow> nat \<Rightarrow> bool" where
  "call_site body a b \<longleftrightarrow> (\<exists>e. call_span body a b e)"

lemma letter_word [simp]: "letter_char c \<Longrightarrow> word_char c"
  by (auto simp: letter_char_def word_char_def isalnum_def)

lemma space_not_word [simp]: "isspace c \<Longrightarrow> \<not> word_char c"
  by (auto simp: isspace_def word_char_def isalnum_def isupper_def islower_def isdigit_def code_of_def)

lemma paren_not_word [simp]: "\<not> word_char CHR ''(''" "\<not> isspace CHR ''(''"
  by (simp_all add: word_char_def isalnum_def isupper_def islower_def isdigit_def isspace_def code_of_def)

lemma derives_Identifier:
  "derives s Identifier a c b d \<longleftrightarrow> d = c \<and> a < b \<and> b \<le> length s \<and> letter_char (s ! a) \<and> (\<forall>k. a \<le> k \<and> k < b \<longrightarrow> word_char (s ! k))"
proof -
  have "derives s Identifier a c b d \<longleftrightarrow>
      d = c \<and> a < length s \<and> letter_char (s ! a) \<and> Suc a \<le> b \<and> (\<forall>k. Suc a \<le> k \<and> k < b \<longrightarrow> k < length s \<and> word_char (s ! k))"
    unfolding Identifier_def by (auto simp: derives_Seq derives_Many_One)
  also have "\<dots> \<longleftrightarrow> d = c \<and> a < b \<and> b \<le> length s \<and> letter_char (s ! a) \<and> (\<forall>k. a \<le> k \<and> k < b \<longrightarrow> word_char (s ! k))"
  proof (intro iffI conjI; (elim conjE)?)
    show "b \<le> length s" if "a < length s" "\<forall>k. Suc a \<le> k \<and> k < b \<longrightarrow> k < length s \<and> word_char (s ! k)"
      using that by (metis Suc_leI less_or_eq_imp_le linorder_not_less)
    show "\<forall>k. a \<le> k \<and> k < b \<longrightarrow> word_char (s ! k)"
      if "letter_char (s ! a)" "\<forall>k. Suc a \<le> k \<and> k < b \<longrightarrow> k < length s \<and> word_char (s ! k)"
      using that by (metis letter_word le_neq_implies_less Suc_leI)
  qed auto
  finally show ?thesis .
qed

lemma derives_call: "derives s call_regex a [] j d \<longleftrightarrow> (\<exists>b e. call_span s a b e \<and> j = Suc e \<and> d = [(1, (a, b))])"
proof
  assume "derives s call_regex a [] j d"
  then obtain b e where e: "holds_at s Word_Edge a" "derives s Identifier a [] b []" "derives s Spaces b [(1, (a, b))] e d"
      "derives s (Text ''('') e d j d"
    unfolding call_regex_def Seqs.simps by (auto simp: derives_Seq derives_Identifier derives_Many_One)
  then show "\<exists>b e. call_span s a b e \<and> j = Suc e \<and> d = [(1, (a, b))]"
    by (intro exI [of _ b] exI [of _ e]) (auto simp: call_span_def derives_Identifier derives_Many_One word_at_def)
next
  assume "\<exists>b e. call_span s a b e \<and> j = Suc e \<and> d = [(1, (a, b))]"
  then obtain b e where e: "call_span s a b e" "j = Suc e" "d = [(1, (a, b))]" by blast
  then have "derives s Identifier a [] b []" "derives s Spaces b d e d" "derives s (Text ''('') e d j d" "holds_at s Word_Edge a"
    by (auto simp: call_span_def derives_Identifier derives_Many_One word_at_def)
  moreover have "derives s (Group 1 Identifier) a [] b d" if "derives s Identifier a [] b []"
    using derives_group [OF that, of 1] e(3) by simp
  moreover have "derives s Word_Edge a [] a []" if "holds_at s Word_Edge a"
    using that by (intro derives_assertion) simp_all
  ultimately show "derives s call_regex a [] j d"
    unfolding call_regex_def Seqs.simps by (blast intro: derives_seq)
qed

lemma call_span_unique: "call_span s a b e \<Longrightarrow> call_span s a b' e' \<Longrightarrow> b = b' \<and> e = e'"
proof -
  assume s: "call_span s a b e" "call_span s a b' e'"
  have stop: "\<not> word_char (s ! b)" if "call_span s a b e" for b e
    using that by (cases "b = e") (auto simp: call_span_def)
  have "b = b'"
  proof (rule ccontr)
    assume "b \<noteq> b'"
    then consider "b < b'" | "b' < b" by linarith
    then show False using s stop [OF s(1)] stop [OF s(2)] by cases (auto simp: call_span_def)
  qed
  moreover have "e = e'"
  proof (rule ccontr)
    assume "e \<noteq> e'"
    then consider "e < e'" | "e' < e" by linarith
    then show False using s \<open>b = b'\<close> paren_not_word(2) by cases (auto simp: call_span_def)
  qed
  ultimately show ?thesis ..
qed

lemma call_match: "a \<le> length s \<Longrightarrow> match_at s call_regex a = Some (a, j, d) \<longleftrightarrow> (\<exists>b e. call_span s a b e \<and> j = Suc e \<and> d = [(1, (a, b))])"
  using match_at_Some [of s call_regex a a j d] match_at_finds [of a s call_regex j d] match_at_Some [of s call_regex a a]
  unfolding derives_call by (metis call_span_unique)

lemma calls_apart:
  assumes "call_span s a b e" "k < a" "call_span s k b' e'" shows "Suc e' \<le> a"
proof (rule ccontr)
  assume "\<not> Suc e' \<le> a"
  then consider "a < b'" | "b' \<le> a" "a < e'" | "a = e'" by linarith
  then show False
  proof cases
    case 1
    with assms(2) have "k \<le> a - 1" "a - 1 < b'" "a \<noteq> 0" by simp_all
    with assms(1,3) show False unfolding call_span_def by blast
  next
    case 2
    with assms have "isspace (s ! a)" "letter_char (s ! a)" by (auto simp: call_span_def)
    then show False by (meson letter_word space_not_word)
  next
    case 3
    with assms have "letter_char CHR ''(''" by (auto simp: call_span_def)
    then show False by (meson letter_word paren_not_word(1))
  qed
qed

lemma call_matches: "set (all_matches s call_regex 0) = {(a, Suc e, [(1 :: nat, (a, b))]) | a b e. call_span s a b e}"
proof (intro equalityI subsetI)
  fix m assume m: "m \<in> set (all_matches s call_regex 0)"
  obtain a j d where "m = (a, j, d)" by (cases m)
  with m all_matches_sound [of a j d s call_regex 0] have "match_at s call_regex a = Some (a, j, d)" "a \<le> length s" by simp_all
  then show "m \<in> {(a, Suc e, [(1 :: nat, (a, b))]) | a b e. call_span s a b e}"
    using \<open>m = (a, j, d)\<close> by (auto simp: call_match)
next
  fix m assume "m \<in> {(a, Suc e, [(1 :: nat, (a, b))]) | a b e. call_span s a b e}"
  then obtain a b e where m: "m = (a, Suc e, [(1, (a, b))])" "call_span s a b e" by blast
  then have a: "a \<le> length s" by (simp add: call_span_def)
  show "m \<in> set (all_matches s call_regex 0)" unfolding m(1)
  proof (rule all_matches_complete [OF _ le0 a])
    show "match_at s call_regex a = Some (a, Suc e, [(1, (a, b))])" using m(2) a by (auto simp: call_match)
    fix k b' c' assume "k < a" "match_at s call_regex k = Some (k, b', c')"
    moreover from this a have "k \<le> length s" by simp
    ultimately show "b' \<le> a" using calls_apart [OF m(2)] by (auto simp: call_match)
  qed
qed

lemma callees_fold:
  "set (fold (\<lambda>m cs. let name = group_of body m 1 in if name \<notin> set kw \<and> name \<notin> set cs then cs @ [name] else cs) ms cs)
     = set cs \<union> ((\<lambda>m. group_of body m 1) ` set ms - set kw)"
  "distinct cs \<Longrightarrow> distinct (fold (\<lambda>m cs. let name = group_of body m 1 in if name \<notin> set kw \<and> name \<notin> set cs then cs @ [name] else cs) ms cs)"
  by (induction ms arbitrary: cs) (auto simp: Let_def)

text \<open>
  C32: The calls that are listed are those of the text: every name that stands before an opening parenthesis, with or without spaces
  between, begins a word and is no keyword, is listed once, and nothing else is. The search by a backtracking expression thus agrees
  with the definition by positions.
\<close>

theorem callees_right:
  "set (extractCallees body) = {slice body a b | a b. call_site body a b} - set call_keywords \<and> distinct (extractCallees body)"
proof -
  have "(\<lambda>m. group_of body m 1) ` set (all_matches body call_regex 0) = {slice body a b | a b. call_site body a b}"
    unfolding call_matches call_site_def by (force simp: group_of_def)
  then show ?thesis
    unfolding extractCallees_def callees_fold(1) using callees_fold(2) [of "[]" body call_keywords] by simp
qed

end
