(* ===== verification/AST_Properties.thy ===== *)
theory AST_Properties
  imports AST_Calls
begin

text \<open>
  Where the symbols that \<open>AST_Parser\<close> reports are, for every language, and what the body of a C++ function is.
\<close>

subsection \<open>Where the symbols are\<close>

definition located :: "string \<Rightarrow> string list \<Rightarrow> CodeSymbol \<Rightarrow> bool" where
  "located p lines x \<longleftrightarrow> sy_file_path x = p \<and> 1 \<le> sy_start_line x \<and> sy_start_line x \<le> sy_end_line x \<and> sy_end_line x \<le> length lines \<and>
     contains (lines ! (sy_start_line x - 1)) (sy_name x) \<and> contains (lines ! (sy_start_line x - 1)) (sy_signature x) \<and>
     distinct (sy_callees x) \<and> set (sy_callees x) \<inter> set call_keywords = {}"

lemma contains_slice: "contains s (slice s a b)"
  unfolding contains_def slice_def by (meson sublist_drop sublist_take sublist_order.order_trans)

lemma contains_group: "contains s (group_of s m n)"
  by (auto simp: group_of_def contains_slice split: option.split)

lemma re_first_contained: "re_first s r n = Some x \<Longrightarrow> contains s x"
  by (auto simp: re_first_def contains_group)

lemma callees_ok: "distinct (extractCallees body) \<and> set (extractCallees body) \<inter> set call_keywords = {}"
  unfolding extractCallees_def callees_fold(1) using callees_fold(2) [of "[]" body call_keywords] by auto

lemma line_symbol_located: "i < length lines \<Longrightarrow> contains (lines ! i) name \<Longrightarrow> located p lines (line_symbol p lines i t name)"
  by (simp add: located_def line_symbol_def)

lemma line_function_located: "i < length lines \<Longrightarrow> contains (lines ! i) name \<Longrightarrow> located p lines (line_function p lines i name ps)"
  using callees_ok by (simp add: located_def line_symbol_def line_function_def)

lemma line_callees_located:
  "i < length lines \<Longrightarrow> contains (lines ! i) name \<Longrightarrow> located p lines ((line_symbol p lines i t name)\<lparr>sy_callees := extractCallees body\<rparr>)"
  using callees_ok by (simp add: located_def line_symbol_def)

lemmas symbol_located = line_symbol_located line_function_located line_callees_located re_first_contained

lemma simple_lines_located:
  assumes "i < length lines" "list_all (located p lines) (ps_symbols ps)"
  shows "list_all (located p lines) (ps_symbols (python_line p lines i ps))"
    "list_all (located p lines) (ps_symbols (javascript_line p lines i ps))"
    "list_all (located p lines) (ps_symbols (rust_line p lines i ps))"
    "list_all (located p lines) (ps_symbols (go_line p lines i ps))"
  using assms
  by (auto simp: python_line_def javascript_line_def rust_line_def go_line_def Let_def add_symbol_def add_import_def enter_class_def
      split: option.split intro: symbol_located)

lemma body_lines_end: "body_lines ls j d body = (body', Some n) \<Longrightarrow> j < n \<and> n \<le> j + length ls"
proof (induction ls j d body rule: body_lines.induct)
  case (2 l ls j d body)
  obtain d' b where b: "body_line l d (body @ [newline]) = (d', b)" by force
  show ?case
  proof (cases "d' \<le> 0")
    case False
    with "2.prems" b have "body_lines ls (j + 1) d' b = (body', Some n)" by simp
    with "2.IH" [OF b [symmetric] False] show ?thesis by simp
  qed (use "2.prems" b in simp)
qed simp

lemma function_body_end: "i < length lines \<Longrightarrow> function_body lines i t = (b, e) \<Longrightarrow> i + 1 \<le> e \<and> e \<le> length lines"
  by (auto simp: function_body_def split: prod.splits if_splits option.splits dest!: body_lines_end)

lemma cpp_function_located:
  assumes "i < length lines" "list_all (located p lines) (ps_symbols ps)"
  shows "list_all (located p lines) (ps_symbols (cpp_function p lines i m ps))"
proof -
  obtain b e where b: "function_body lines i (drop (fst (snd m)) (lines ! i)) = (b, e)" by force
  show ?thesis
    using function_body_end [OF assms(1) b] assms callees_ok [of "if b = [] then lines ! i else b"] contains_group [of "lines ! i" m 1]
      contains_slice [of "lines ! i"]
    unfolding cpp_function_def Let_def b prod.case
    by (auto simp: add_symbol_def located_def line_symbol_def whole_def)
qed

lemma cpp_line_located:
  assumes "i < length lines" "list_all (located p lines) (ps_symbols ps)"
  shows "list_all (located p lines) (ps_symbols (cpp_line p lines i ps))"
proof -
  have fold: "list_all (located p lines) (ps_symbols (fold (cpp_function p lines i) ms ps'))" if "list_all (located p lines) (ps_symbols ps')" for ms ps'
    using that by (induction ms arbitrary: ps') (simp_all add: cpp_function_located [OF assms(1)])
  have "list_all (located p lines) (ps_symbols (cpp_class p lines i ps))"
    using assms by (auto simp: cpp_class_def Let_def add_symbol_def split: option.split intro: symbol_located)
  moreover have "ps_symbols (cpp_scope l ps') = ps_symbols ps'" for l ps'
    by (simp add: cpp_scope_def Let_def)
  ultimately show ?thesis
    using assms(2) fold by (simp add: cpp_line_def Let_def add_import_def split: option.split)
qed

lemma parse_lines_located:
  assumes "\<And>i ps. i < length lines \<Longrightarrow> list_all (located p lines) (ps_symbols ps) \<Longrightarrow> list_all (located p lines) (ps_symbols (step lines i ps))"
  shows "list_all (located p lines) (ps_symbols (parse_lines step lines))"
proof -
  have "list_all (\<lambda>i. i < length lines) is \<Longrightarrow> list_all (located p lines) (ps_symbols ps) \<Longrightarrow>
      list_all (located p lines) (ps_symbols (fold (step lines) is ps))" for "is" ps
    by (induction "is" arbitrary: ps) (simp_all add: assms)
  from this [of "[0..<length lines]" parser_start] show ?thesis
    by (simp add: parse_lines_def parser_start_def list_all_iff)
qed

lemma parseFile_located: "list_all (located p (getlines [] content)) (pf_symbols (parseFile p content))"
proof -
  have step: "step = cpp_line \<or> step = python_line \<or> step = javascript_line \<or> step = rust_line \<or> step = go_line"
    if "language_line l = Some step" for l step
    using that unfolding language_line_def by (simp split: if_split_asm)
  have "list_all (located p lines) (ps_symbols (parse_lines (step p) lines))" if "language_line l = Some step" for l step lines
    using step [OF that] by (elim disjE; simp; intro parse_lines_located simple_lines_located cpp_line_located)
  then have "list_all (located p lines) (ps_symbols (case language_line l of None \<Rightarrow> parser_start | Some step \<Rightarrow> parse_lines (step p) lines))" for l lines
    by (simp add: parser_start_def split: option.split)
  then show ?thesis by (simp add: parseFile_def Let_def)
qed

text \<open>
  Every symbol that the parser reports, in every language, lies in the file: it carries the path of the file, its first line is a line
  of the file and not behind its last, both its name and its signature are parts of the first line, and the functions it calls are listed
  without repetition and without keywords.
\<close>

theorem symbols_located:
  "let f = parseFile p content
   in pf_file_path f = p \<and> pf_line_count f = length (getlines [] content) \<and> list_all (located p (getlines [] content)) (pf_symbols f)"
  using parseFile_located by (simp add: parseFile_def Let_def)

subsection \<open>The body of a function\<close>

text \<open>From an opening brace up to the brace that closes it, or to the end of the text.\<close>

fun until_closed :: "int \<Rightarrow> string \<Rightarrow> string" where
  "until_closed d [] = []"
| "until_closed d (c # cs) = c # (let d' = brace_step c d in if d' \<le> 0 then [] else until_closed d' cs)"

definition closes :: "int \<Rightarrow> string \<Rightarrow> bool" where
  "closes d t \<longleftrightarrow> fold brace_step (until_closed d t) d \<le> 0"

definition lines_after :: "string list \<Rightarrow> string" where
  "lines_after ls = concat (map (\<lambda>l. newline # l) ls)"

lemma brace_newline [simp]: "brace_step newline d = d"
  by (simp add: brace_step_def)

lemma closes_simps [simp]:
  "closes d [] \<longleftrightarrow> d \<le> 0"
  "closes d (c # cs) \<longleftrightarrow> brace_step c d \<le> 0 \<or> closes (brace_step c d) cs"
  by (auto simp: closes_def Let_def)

lemma until_closed_append:
  "until_closed d (s @ t) = (if s \<noteq> [] \<and> closes d s then until_closed d s else if s = [] then until_closed d t else s @ until_closed (fold brace_step s d) t)"
  by (induction s arbitrary: d) (auto simp: Let_def)

lemma closes_append: "d > 0 \<Longrightarrow> closes d (s @ t) \<longleftrightarrow> closes d s \<or> closes (fold brace_step s d) t"
proof (induction s arbitrary: d)
  case (Cons a s)
  then show ?case by (cases "brace_step a d \<le> 0") simp_all
qed simp

lemma body_line_until:
  "d > 0 \<Longrightarrow> body_line l d body = (if closes d l then (fold brace_step (until_closed d l) d, body @ until_closed d l) else (fold brace_step l d, body @ l))"
  by (induction l arbitrary: d body) (auto simp: Let_def closes_def)

lemma not_closed_positive: "d > 0 \<Longrightarrow> \<not> closes d l \<Longrightarrow> fold brace_step l d > 0"
  by (induction l arbitrary: d) (auto simp: not_le)

definition newlines :: "string \<Rightarrow> nat" where
  "newlines t = length (filter (\<lambda>c. c = newline) t)"

lemma until_open: "\<not> closes d s \<Longrightarrow> until_closed d s = s"
  by (induction s arbitrary: d) (auto simp: Let_def)

lemma set_until_closed: "set (until_closed d s) \<subseteq> set s"
  by (induction s arbitrary: d) (auto simp: Let_def)

lemma newlines_until: "newline \<notin> set s \<Longrightarrow> newlines (until_closed d s) = 0"
  using set_until_closed [of d s] by (auto simp: newlines_def filter_empty_conv)

lemma newlines_simps [simp]: "newlines (c # t) = (if c = newline then 1 else 0) + newlines t" "newlines (s @ t) = newlines s + newlines t"
    "newlines [] = 0"
  by (simp_all add: newlines_def)

lemma newlines_none: "newline \<notin> set s \<Longrightarrow> newlines s = 0"
  by (auto simp: newlines_def filter_empty_conv)

lemma closed_depth: "closes d l \<Longrightarrow> fold brace_step (until_closed d l) d \<le> 0"
  by (simp add: closes_def)

lemma body_lines_until:
  assumes "d > 0" "\<forall>l \<in> set ls. newline \<notin> set l"
  shows "body_lines ls j d body =
    (body @ until_closed d (lines_after ls),
     if closes d (lines_after ls) then Some (j + newlines (until_closed d (lines_after ls))) else None)"
  using assms
proof (induction ls arbitrary: j d body)
  case Nil
  then show ?case by (simp add: lines_after_def)
next
  case (Cons l ls)
  have after: "lines_after (l # ls) = newline # l @ lines_after ls" by (simp add: lines_after_def)
  show ?case
  proof (cases "closes d l")
    case True
    with Cons.prems have "l \<noteq> []" by auto
    with True Cons.prems closed_depth [OF True] show ?thesis
      by (simp add: body_line_until after until_closed_append closes_append Let_def newlines_until)
  next
    case False
    note pos = not_closed_positive [OF Cons.prems(1) False]
    from False Cons.prems have "body_lines (l # ls) j d body = body_lines ls (j + 1) (fold brace_step l d) (body @ newline # l)"
      using pos by (simp add: body_line_until)
    also have "\<dots> = (body @ newline # l @ until_closed (fold brace_step l d) (lines_after ls),
        if closes (fold brace_step l d) (lines_after ls)
        then Some (j + 1 + newlines (until_closed (fold brace_step l d) (lines_after ls))) else None)"
      using Cons.IH [OF pos] Cons.prems(2) by simp
    finally show ?thesis
      using False Cons.prems by (simp add: after until_closed_append closes_append Let_def newlines_none)
  qed
qed

lemma first_body_started:
  "d > 0 \<Longrightarrow> first_body_line t d True body =
     (if closes d t then (fold brace_step (until_closed d t) d, True, body @ until_closed d t) else (fold brace_step t d, True, body @ t))"
  by (induction t arbitrary: d body) (auto simp: Let_def closes_def)

lemma first_body_skip:
  "CHR ''}'' \<notin> set (takeWhile (\<lambda>c. c \<noteq> CHR ''{'') t) \<Longrightarrow>
     first_body_line t 0 False [] = first_body_line (dropWhile (\<lambda>c. c \<noteq> CHR ''{'') t) 0 False []"
  by (induction t) (auto simp: Let_def brace_step_def)

text \<open>
  C33: The body of a C++ function whose brace opens on the line of its signature is read exactly: over the rest of the line and the lines that
  follow it is the text from the opening brace to the brace that closes it, and the last line is the one with that brace; when no brace
  closes it, the body is the rest of the file and the last line is given as the first.
\<close>

theorem function_body_right:
  assumes "CHR ''{'' \<in> set t" "CHR ''}'' \<notin> set (takeWhile (\<lambda>c. c \<noteq> CHR ''{'') t)" "newline \<notin> set t"
    "\<forall>l \<in> set (drop (i + 1) lines). newline \<notin> set l"
  shows "function_body lines i t =
    (let u = dropWhile (\<lambda>c. c \<noteq> CHR ''{'') t @ lines_after (drop (i + 1) lines)
     in (until_closed 0 u, i + 1 + (if closes 0 u then newlines (until_closed 0 u) else 0)))"
proof -
  have "\<exists>v. dropWhile (\<lambda>c. c \<noteq> CHR ''{'') t = CHR ''{'' # v \<and> set v \<subseteq> set t" using assms(1) by (induction t) auto
  then obtain v where v: "dropWhile (\<lambda>c. c \<noteq> CHR ''{'') t = CHR ''{'' # v" "set v \<subseteq> set t" by blast
  from v(2) assms(3) have clean: "newline \<notin> set v" by blast
  have step: "brace_step CHR ''{'' 0 = 1" by (simp add: brace_step_def)
  have first: "first_body_line t 0 False [] =
      (if closes 1 v then (fold brace_step (until_closed 1 v) 1, True, CHR ''{'' # until_closed 1 v) else (fold brace_step v 1, True, CHR ''{'' # v))"
    unfolding first_body_skip [OF assms(2)] v(1) by (simp add: Let_def step first_body_started)
  show ?thesis
  proof (cases "closes 1 v")
    case True
    then have "v \<noteq> []" by auto
    with True closed_depth [OF True] clean show ?thesis
      by (simp add: function_body_def first v(1) step Let_def until_closed_append closes_append newlines_until)
  next
    case False
    have pos: "fold brace_step v 1 > 0" by (rule not_closed_positive [OF _ False]) simp
    have "function_body lines i t = (CHR ''{'' # v @ until_closed (fold brace_step v 1) (lines_after (drop (i + 1) lines)),
        i + 1 + (if closes (fold brace_step v 1) (lines_after (drop (i + 1) lines))
          then newlines (until_closed (fold brace_step v 1) (lines_after (drop (i + 1) lines))) else 0))"
      unfolding function_body_def first if_not_P [OF False] prod.case body_lines_until [OF pos assms(4)] using pos
      by (cases "closes (fold brace_step v 1) (lines_after (drop (i + 1) lines))") (simp_all only: simp_thms if_True if_False option.case append_Cons, simp_all)
    with False pos clean show ?thesis
      by (simp add: v(1) step Let_def until_closed_append closes_append newlines_none)
  qed
qed

theorem function_body_right_witness:
  "function_body [''int f() {'', ''  return {1};'', ''}'', ''int g();''] 0 '' {'' = (''{'' @ newline # ''  return {1};'' @ newline # ''}'', 3)"
  using function_body_right [of "'' {''" 0 "[''int f() {'', ''  return {1};'', ''}'', ''int g();'']"]
  by (simp add: lines_after_def brace_step_def closes_def newlines_def Let_def)

end
