(* ===== verification/Repository_Index.thy ===== *)
theory Repository_Index
  imports AST_Parser Std_Sort Complex_Main
begin

text \<open>
  The index of the repository: \<open>src/src/repository/RepositoryIndex.h\<close> and \<open>RepositoryIndex.cpp\<close>.

  \<^item> Files are parsed by \<open>AST_Parser\<close>. Scores are reals; the subtraction of two sizes wraps around at 64 bits.
  \<^item> A walk over a directory is what it yields: the regular files in the order of the walk, each with its text when it can be opened,
    and whether an exception ended the walk. The clock is a parameter.
  \<^item> Each method holds the mutex for its whole body and none calls another that takes it, except \<open>indexDirectory\<close>, which takes it
    in turns; the mutex is left out.
  \<^item> \<open>std::sort\<close> is a parameter with the contract of \<open>Std_Sort\<close>.
\<close>

record SearchResult =
  sr_file_path :: string
  sr_line_number :: nat
  sr_matched_symbol :: string
  sr_snippet :: string
  sr_score :: real
  sr_match_type :: string

record RepositoryStats =
  rs_total_files_indexed :: nat
  rs_total_symbols :: nat
  rs_total_lines_of_code :: nat
  rs_modified_files_reindexed :: nat
  rs_last_index_time :: int

definition zero_repository_stats :: RepositoryStats where
  "zero_repository_stats = \<lparr>rs_total_files_indexed = 0, rs_total_symbols = 0, rs_total_lines_of_code = 0,
     rs_modified_files_reindexed = 0, rs_last_index_time = 0\<rparr>"

record RepositoryIndex =
  ri_files :: "(string, ParsedFile) umap"
  ri_file_contents :: "(string, string) umap"
  ri_symbol_table :: "(string, CodeSymbol list) umap"
  ri_inverted_index :: "(string, (string, nat) umap) umap"
  ri_file_doc_lengths :: "(string, nat) umap"
  ri_avg_doc_length :: real
  ri_stats :: RepositoryStats

definition new_RepositoryIndex :: RepositoryIndex where
  "new_RepositoryIndex = \<lparr>ri_files = [], ri_file_contents = [], ri_symbol_table = [], ri_inverted_index = [],
     ri_file_doc_lengths = [], ri_avg_doc_length = 0, ri_stats = zero_repository_stats\<rparr>"

subsection \<open>Tokens\<close>

fun tokenize_loop :: "string \<Rightarrow> string \<Rightarrow> string list" where
  "tokenize_loop current [] = (if current \<noteq> [] \<and> length current \<ge> 2 then [current] else [])"
| "tokenize_loop current (c # cs) =
     (if isalnum c \<or> c = CHR ''_'' then tokenize_loop (current @ [tolower c]) cs
      else if current \<noteq> [] then (if length current \<ge> 2 then [current] else []) @ tokenize_loop [] cs
      else tokenize_loop current cs)"

definition tokenize_text :: "string \<Rightarrow> string list" where
  "tokenize_text text = tokenize_loop [] text"

subsection \<open>Indexing\<close>

definition unregister_symbols :: "string \<Rightarrow> CodeSymbol list \<Rightarrow> (string, CodeSymbol list) umap \<Rightarrow> (string, CodeSymbol list) umap" where
  "unregister_symbols file_path syms tab =
     fold (\<lambda>x tab. AList.update (lower (sy_name x)) (filter (\<lambda>y. sy_file_path y \<noteq> file_path) (um_get [] tab (lower (sy_name x)))) tab) syms tab"

definition register_symbols :: "CodeSymbol list \<Rightarrow> (string, CodeSymbol list) umap \<Rightarrow> (string, CodeSymbol list) umap" where
  "register_symbols syms tab = fold (\<lambda>x tab. AList.update (lower (sy_name x)) (um_get [] tab (lower (sy_name x)) @ [x]) tab) syms tab"

definition term_frequencies :: "string list \<Rightarrow> (string, nat) umap" where
  "term_frequencies tokens = fold (\<lambda>t tf. AList.update t (um_get 0 tf t + 1) tf) tokens []"

definition doc_lengths_total :: "(string, nat) umap \<Rightarrow> nat" where
  "doc_lengths_total m = sum_list (map snd m)"

text \<open>The files are those before the new one is entered.\<close>

definition updateInvertedIndex :: "string \<Rightarrow> string \<Rightarrow> RepositoryIndex \<Rightarrow> RepositoryIndex" where
  "updateInvertedIndex file_path content r =
     (let tokens = tokenize_text content; lens = AList.update file_path (length tokens) (ri_file_doc_lengths r);
          inv = fold (\<lambda>(t, count) inv. AList.update t (AList.update file_path count (um_get [] inv t)) inv)
                  (term_frequencies tokens) (ri_inverted_index r)
      in r\<lparr>ri_file_doc_lengths := lens, ri_inverted_index := inv,
           ri_avg_doc_length := (if ri_files r = [] then 0 else real (doc_lengths_total lens) / real (length (ri_files r)))\<rparr>)"

definition count_stats :: "int \<Rightarrow> RepositoryIndex \<Rightarrow> RepositoryIndex" where
  "count_stats now r =
     r\<lparr>ri_stats := (ri_stats r)\<lparr>rs_total_files_indexed := length (ri_files r),
         rs_total_symbols := sum_list (map (\<lambda>(_, f). length (pf_symbols f)) (ri_files r)),
         rs_total_lines_of_code := sum_list (map (\<lambda>(_, f). pf_line_count f) (ri_files r)), rs_last_index_time := now\<rparr>\<rparr>"

definition forget_old :: "string \<Rightarrow> ParsedFile option \<Rightarrow> RepositoryIndex \<Rightarrow> RepositoryIndex" where
  "forget_old file_path old r =
     (case old of
        None \<Rightarrow> r
      | Some f \<Rightarrow>
          r\<lparr>ri_symbol_table := unregister_symbols file_path (pf_symbols f) (ri_symbol_table r),
            ri_stats := (ri_stats r)\<lparr>rs_modified_files_reindexed := rs_modified_files_reindexed (ri_stats r) + 1\<rparr>\<rparr>)"

definition enter_file :: "string \<Rightarrow> string \<Rightarrow> RepositoryIndex \<Rightarrow> RepositoryIndex" where
  "enter_file file_path content r =
     (let f = (parseFile file_path content)\<lparr>pf_checksum := computeChecksum content\<rparr>;
          r1 = updateInvertedIndex file_path content (r\<lparr>ri_symbol_table := register_symbols (pf_symbols f) (ri_symbol_table r)\<rparr>)
      in r1\<lparr>ri_files := AList.update file_path f (ri_files r1), ri_file_contents := AList.update file_path content (ri_file_contents r1)\<rparr>)"

definition indexFile :: "int \<Rightarrow> string \<Rightarrow> string \<Rightarrow> RepositoryIndex \<Rightarrow> bool \<times> RepositoryIndex" where
  "indexFile now file_path content r =
     (let old = map_of (ri_files r) file_path
      in if (case old of Some f \<Rightarrow> pf_checksum f = computeChecksum content | None \<Rightarrow> False) then (False, r)
         else (True, count_stats now (enter_file file_path content (forget_old file_path old r))))"

definition removeFile :: "string \<Rightarrow> RepositoryIndex \<Rightarrow> RepositoryIndex" where
  "removeFile file_path r =
     (case map_of (ri_files r) file_path of
        None \<Rightarrow> r
      | Some f \<Rightarrow>
          r\<lparr>ri_symbol_table := unregister_symbols file_path (pf_symbols f) (ri_symbol_table r),
            ri_files := AList.delete file_path (ri_files r), ri_file_contents := AList.delete file_path (ri_file_contents r),
            ri_file_doc_lengths := AList.delete file_path (ri_file_doc_lengths r)\<rparr>)"

definition clear_index :: "RepositoryIndex \<Rightarrow> RepositoryIndex" where
  "clear_index r = new_RepositoryIndex"

subsection \<open>Directories\<close>

record directory_walk =
  dw_is_directory :: bool
  dw_files :: "(string \<times> string option) list"
  dw_failed :: bool

definition ignored_path :: "string \<Rightarrow> bool" where
  "ignored_path p \<longleftrightarrow> list_ex (contains p)
     [''/.git'', [CHR 0x5C] @ ''.git'', ''/build'', [CHR 0x5C] @ ''build'', ''node_modules'', ''.vs'', ''target'', ''.gemini'']"

fun index_walk :: "int \<Rightarrow> (string \<times> string option) list \<Rightarrow> nat \<Rightarrow> string list \<Rightarrow> RepositoryIndex \<Rightarrow> nat \<times> string list \<times> RepositoryIndex" where
  "index_walk now [] n seen r = (n, seen, r)"
| "index_walk now ((p, text) # fs) n seen r =
     (if ignored_path p \<or> detectLanguage p = ''unknown'' then index_walk now fs n seen r
      else case text of
             None \<Rightarrow> index_walk now fs n seen r
           | Some content \<Rightarrow>
               (case indexFile now p content r of
                  (indexed, r') \<Rightarrow> index_walk now fs (if indexed then n + 1 else n) (p # seen) r'))"

definition indexDirectory :: "int \<Rightarrow> string \<Rightarrow> directory_walk \<Rightarrow> RepositoryIndex \<Rightarrow> nat \<times> RepositoryIndex" where
  "indexDirectory now root_dir walk r =
     (if \<not> dw_is_directory walk then (0, r)
      else case index_walk now (dw_files walk) 0 [] r of
             (n, seen, r') \<Rightarrow>
               (n, if dw_failed walk then r'
                   else fold removeFile (filter (\<lambda>p. starts_with p root_dir \<and> p \<notin> set seen) (um_keys (ri_files r'))) r'))"

subsection \<open>Queries\<close>

definition findSymbol_index :: "string \<Rightarrow> bool \<Rightarrow> RepositoryIndex \<Rightarrow> CodeSymbol list" where
  "findSymbol_index name exact r =
     (if exact then um_get [] (ri_symbol_table r) (lower name)
      else concat (map snd (filter (\<lambda>(n, l). contains n (lower name)) (ri_symbol_table r))))"

definition findSymbolsByFile :: "string \<Rightarrow> RepositoryIndex \<Rightarrow> CodeSymbol list" where
  "findSymbolsByFile file_path r = (case map_of (ri_files r) file_path of None \<Rightarrow> [] | Some f \<Rightarrow> pf_symbols f)"

definition findCallers :: "string \<Rightarrow> RepositoryIndex \<Rightarrow> CodeSymbol list" where
  "findCallers func_name r = concat (map (\<lambda>(_, f). filter (\<lambda>x. func_name \<in> set (sy_callees x)) (pf_symbols f)) (ri_files r))"

definition findReferences :: "string \<Rightarrow> RepositoryIndex \<Rightarrow> string list" where
  "findReferences symbol_name r = map fst (filter (\<lambda>(_, content). contains content symbol_name) (ri_file_contents r))"

definition getFileImports :: "string \<Rightarrow> RepositoryIndex \<Rightarrow> string list" where
  "getFileImports file_path r = (case map_of (ri_files r) file_path of None \<Rightarrow> [] | Some f \<Rightarrow> pf_imports f)"

subsection \<open>Search\<close>

definition minus64 :: "nat \<Rightarrow> nat \<Rightarrow> nat" where
  "minus64 a b = unat (of_nat a - of_nat b :: 64 word)"

definition idf :: "nat \<Rightarrow> nat \<Rightarrow> real" where
  "idf n df = ln ((real (minus64 n df) + 0.5) / (real df + 0.5) + 1.0)"

definition tf_component :: "nat \<Rightarrow> nat \<Rightarrow> real \<Rightarrow> real" where
  "tf_component tf doc_len avg =
     (let len_norm = (if avg > 0 then real doc_len / avg else 1)
      in (real tf * (1.2 + 1.0)) / (real tf + 1.2 * (1.0 - 0.75 + 0.75 * len_norm)))"

definition calculateBM25 :: "string \<Rightarrow> string \<Rightarrow> RepositoryIndex \<Rightarrow> real" where
  "calculateBM25 t file_path r =
     (case map_of (ri_inverted_index r) t of
        None \<Rightarrow> 0
      | Some docs \<Rightarrow>
          (case map_of docs file_path of
             None \<Rightarrow> 0
           | Some tf \<Rightarrow>
               (let doc_len = um_get 100 (ri_file_doc_lengths r) file_path
                in idf (length (ri_files r)) (length docs) * tf_component tf doc_len (ri_avg_doc_length r))))"

definition add_score :: "string \<Rightarrow> real \<Rightarrow> (string, real) umap \<Rightarrow> (string, real) umap" where
  "add_score p x scores = AList.update p (um_get 0 scores p + x) scores"

definition bm25_scores :: "string list \<Rightarrow> RepositoryIndex \<Rightarrow> (string, real) umap" where
  "bm25_scores tokens r =
     fold (\<lambda>t scores. fold (\<lambda>(p, _) scores. add_score p (calculateBM25 t p r) scores) (um_get [] (ri_inverted_index r) t) scores) tokens []"

text \<open>The scores, and the symbol shown for each file.\<close>

definition score_symbol :: "string \<Rightarrow> string \<times> CodeSymbol list \<Rightarrow> (string, real) umap \<times> (string, string) umap \<Rightarrow>
    (string, real) umap \<times> (string, string) umap" where
  "score_symbol t entry s =
     (case entry of (sym_name, l) \<Rightarrow>
        if sym_name = t then
          fold (\<lambda>x (scores, best). (add_score (sy_file_path x) 10 scores, AList.update (sy_file_path x) (sy_name x) best)) l s
        else if contains sym_name t then
          fold (\<lambda>x (scores, best). (add_score (sy_file_path x) 3 scores,
              if map_of best (sy_file_path x) = None then AList.update (sy_file_path x) (sy_name x) best else best)) l s
        else s)"

definition symbol_scores :: "string list \<Rightarrow> RepositoryIndex \<Rightarrow> (string, real) umap \<times> (string, string) umap" where
  "symbol_scores tokens r = fold (\<lambda>t. fold (score_symbol t) (ri_symbol_table r)) tokens ([], [])"

definition higher_score :: "string \<times> real \<Rightarrow> string \<times> real \<Rightarrow> bool" where
  "higher_score a b \<longleftrightarrow> snd a > snd b"

fun add_ranks :: "real \<Rightarrow> nat \<Rightarrow> (string \<times> real) list \<Rightarrow> (string, real) umap \<Rightarrow> (string, real) umap" where
  "add_ranks weight k [] scores = scores"
| "add_ranks weight k ((p, _) # ps) scores = add_ranks weight (k + 1) ps (add_score p (weight / (60.0 + real k + 1.0)) scores)"

definition fused_scores :: "(string \<times> real) sort_routine \<Rightarrow> string list \<Rightarrow> RepositoryIndex \<Rightarrow> (string, real) umap" where
  "fused_scores srt tokens r =
     add_ranks 1.5 0 (srt higher_score (fst (symbol_scores tokens r)))
       (add_ranks 1.0 0 (srt higher_score (bm25_scores tokens r)) [])"

definition search_result :: "(string, string) umap \<Rightarrow> RepositoryIndex \<Rightarrow> string \<times> real \<Rightarrow> SearchResult" where
  "search_result best r ps =
     \<lparr>sr_file_path = fst ps, sr_line_number = 1, sr_matched_symbol = um_get [] best (fst ps),
      sr_snippet = take 200 (um_get [] (ri_file_contents r) (fst ps)), sr_score = snd ps, sr_match_type = ''hybrid_rrf''\<rparr>"

definition searchCode :: "(string \<times> real) sort_routine \<Rightarrow> string \<Rightarrow> nat \<Rightarrow> RepositoryIndex \<Rightarrow> SearchResult list" where
  "searchCode srt query top_k r =
     (if ri_files r = [] then []
      else let tokens = tokenize_text query
           in map (search_result (snd (symbol_scores tokens r)) r) (take top_k (srt higher_score (fused_scores srt tokens r))))"

subsection \<open>Calls\<close>

datatype repository_call =
    Index_File int string string
  | Index_Directory int string directory_walk
  | Remove_File string
  | Clear_Index

fun repository_step :: "repository_call \<Rightarrow> RepositoryIndex \<Rightarrow> RepositoryIndex" where
  "repository_step (Index_File now p content) r = snd (indexFile now p content r)"
| "repository_step (Index_Directory now dir walk) r = snd (indexDirectory now dir walk r)"
| "repository_step (Remove_File p) r = removeFile p r"
| "repository_step Clear_Index r = clear_index r"

end
