(* ===== verification/Repository_Properties.thy ===== *)
theory Repository_Properties
  imports Repository_Index AST_Properties
begin

text \<open>
  What the index of \<open>Repository_Index\<close> keeps: the symbol table and the inverted index hold, for every indexed file, exactly what its text
  gives, after any sequence of calls; what follows for the queries; and how a search ranks.
\<close>

subsection \<open>Tables\<close>

lemma table_unregister:
  "um_get [] (unregister_symbols p syms tab) n =
     (if n \<in> (\<lambda>x. lower (sy_name x)) ` set syms then filter (\<lambda>y. sy_file_path y \<noteq> p) (um_get [] tab n) else um_get [] tab n)"
  unfolding unregister_symbols_def by (induction syms arbitrary: tab) auto

lemma table_register: "um_get [] (register_symbols syms tab) n = um_get [] tab n @ filter (\<lambda>x. lower (sy_name x) = n) syms"
  unfolding register_symbols_def by (induction syms arbitrary: tab) auto

lemma keys_unregister: "distinct (um_keys tab) \<Longrightarrow> distinct (um_keys (unregister_symbols p syms tab))"
  unfolding unregister_symbols_def by (induction syms arbitrary: tab) auto

lemma keys_register: "distinct (um_keys tab) \<Longrightarrow> distinct (um_keys (register_symbols syms tab))"
  unfolding register_symbols_def by (induction syms arbitrary: tab) auto

lemma term_frequencies_fold:
  "map_of (fold (\<lambda>t tf. AList.update t (um_get 0 tf t + 1) tf) tokens tf) x =
     (if x \<in> set tokens then Some (um_get 0 tf x + count_list tokens x) else map_of tf x)"
  "distinct (um_keys tf) \<Longrightarrow> distinct (um_keys (fold (\<lambda>t tf. AList.update t (um_get 0 tf t + 1) tf) tokens tf))"
  by (induction tokens arbitrary: tf) (auto simp: um_get_def split: option.split)

lemma map_of_frequencies: "map_of (term_frequencies tokens) t = (if t \<in> set tokens then Some (count_list tokens t) else None)"
  unfolding term_frequencies_def using term_frequencies_fold(1) [of tokens "[]" t] by (simp add: um_get_def)

lemma keys_frequencies: "distinct (um_keys (term_frequencies tokens))"
  unfolding term_frequencies_def using term_frequencies_fold(2) [of "[]" tokens] by (simp add: um_keys_def)

lemma inverted_fold:
  "distinct (um_keys tf) \<Longrightarrow> um_get [] (fold (\<lambda>(t, k) i. AList.update t (AList.update p k (um_get [] i t)) i) tf ix) t =
     (case map_of tf t of None \<Rightarrow> um_get [] ix t | Some n \<Rightarrow> AList.update p n (um_get [] ix t))"
proof (induction tf arbitrary: ix)
  case (Cons a tf)
  obtain x n where a: "a = (x, n)" by (cases a)
  with Cons.prems have "map_of tf x = None" by (simp add: um_keys_def map_of_eq_None_iff)
  with Cons.IH [of "AList.update x (AList.update p n (um_get [] ix x)) ix"] Cons.prems a show ?case by (auto split: option.split)
qed simp

subsection \<open>The invariant\<close>

text \<open>The symbols under a name, file by file, given which files are indexed.\<close>

definition table_of :: "(string \<Rightarrow> ParsedFile option) \<Rightarrow> (string, CodeSymbol list) umap \<Rightarrow> bool" where
  "table_of files tab \<longleftrightarrow> distinct (um_keys tab) \<and> (\<forall>n p. filter (\<lambda>x. sy_file_path x = p) (um_get [] tab n) =
     (case files p of None \<Rightarrow> [] | Some f \<Rightarrow> filter (\<lambda>x. lower (sy_name x) = n) (pf_symbols f)))"

definition index_ok :: "RepositoryIndex \<Rightarrow> bool" where
  "index_ok r \<longleftrightarrow> distinct (um_keys (ri_files r)) \<and> distinct (um_keys (ri_file_contents r)) \<and> distinct (um_keys (ri_file_doc_lengths r)) \<and>
     table_of (map_of (ri_files r)) (ri_symbol_table r) \<and>
     (\<forall>p. map_of (ri_files r) p = map_option (parseFile p) (map_of (ri_file_contents r) p)) \<and>
     (\<forall>p. map_of (ri_file_doc_lengths r) p = map_option (\<lambda>c. length (tokenize_text c)) (map_of (ri_file_contents r) p)) \<and>
     (\<forall>p c t. map_of (ri_file_contents r) p = Some c \<longrightarrow> t \<in> set (tokenize_text c) \<longrightarrow>
        map_of (um_get [] (ri_inverted_index r) t) p = Some (count_list (tokenize_text c) t)) \<and>
     (\<forall>t. distinct (um_keys (um_get [] (ri_inverted_index r) t)))"

lemma index_ok_new: "index_ok new_RepositoryIndex"
  by (simp add: index_ok_def new_RepositoryIndex_def table_of_def)

lemma table_of_unregister:
  assumes "table_of files tab" "files p = Some f"
  shows "table_of (files(p := None)) (unregister_symbols p (pf_symbols f) tab)"
proof -
  have t: "filter (\<lambda>x. sy_file_path x = q) (um_get [] tab n) =
      (case files q of None \<Rightarrow> [] | Some f \<Rightarrow> filter (\<lambda>x. lower (sy_name x) = n) (pf_symbols f))" for n q
    using assms(1) by (simp add: table_of_def)
  have "filter (\<lambda>x. sy_file_path x = q) (um_get [] (unregister_symbols p (pf_symbols f) tab) n) =
      (case (files(p := None)) q of None \<Rightarrow> [] | Some f \<Rightarrow> filter (\<lambda>x. lower (sy_name x) = n) (pf_symbols f))" for n q
  proof (cases "q = p")
    case True
    show ?thesis
    proof (cases "n \<in> (\<lambda>x. lower (sy_name x)) ` set (pf_symbols f)")
      case False
      then have "filter (\<lambda>x. lower (sy_name x) = n) (pf_symbols f) = []" by (auto simp: filter_empty_conv)
      with t [of p n] True False assms(2) show ?thesis by (simp add: table_unregister)
    qed (simp add: table_unregister True conj_commute)
  next
    case False
    then have "filter (\<lambda>x. sy_file_path x \<noteq> p \<and> sy_file_path x = q) l = filter (\<lambda>x. sy_file_path x = q) l" for l
      by (auto intro: filter_cong)
    note same = this
    show ?thesis using False by (simp add: table_unregister same t)
  qed
  with assms(1) show ?thesis by (simp add: table_of_def keys_unregister)
qed

lemma table_of_register:
  assumes "table_of files tab" "files p = None" "\<forall>x \<in> set (pf_symbols f). sy_file_path x = p"
  shows "table_of (files(p \<mapsto> f)) (register_symbols (pf_symbols f) tab)"
proof -
  have t: "filter (\<lambda>x. sy_file_path x = q) (um_get [] tab n) =
      (case files q of None \<Rightarrow> [] | Some f \<Rightarrow> filter (\<lambda>x. lower (sy_name x) = n) (pf_symbols f))" for n q
    using assms(1) by (simp add: table_of_def)
  have "filter (\<lambda>x. sy_file_path x = q) (filter (\<lambda>x. lower (sy_name x) = n) (pf_symbols f)) =
      (if q = p then filter (\<lambda>x. lower (sy_name x) = n) (pf_symbols f) else [])" for q n
    using assms(3) by (auto simp: filter_empty_conv intro!: filter_cong)
  with t assms(1,2) show ?thesis by (simp add: table_of_def table_register keys_register split: option.split)
qed

lemma parsed_paths: "\<forall>x \<in> set (pf_symbols (parseFile p c)). sy_file_path x = p"
  using parseFile_located [of p c] by (auto simp: list_all_iff located_def)

lemma parsed_checksum: "(parseFile p c)\<lparr>pf_checksum := computeChecksum c\<rparr> = parseFile p c"
  by (simp add: parseFile_def Let_def)

text \<open>The old entries of a file leave the symbol table, then the new ones enter all tables.\<close>

lemma enter_file_ok:
  assumes "index_ok r"
  shows "index_ok (enter_file p c (forget_old p (map_of (ri_files r) p) r))"
proof -
  define r0 where "r0 = forget_old p (map_of (ri_files r) p) r"
  have same: "ri_files r0 = ri_files r" "ri_file_contents r0 = ri_file_contents r" "ri_file_doc_lengths r0 = ri_file_doc_lengths r"
      "ri_inverted_index r0 = ri_inverted_index r"
    unfolding r0_def by (cases "map_of (ri_files r) p"; simp add: forget_old_def)+
  have tab: "table_of ((map_of (ri_files r))(p := None)) (ri_symbol_table r0)"
  proof (cases "map_of (ri_files r) p")
    case None
    then have "(map_of (ri_files r))(p := None) = map_of (ri_files r)" by auto
    with assms None show ?thesis by (simp add: r0_def forget_old_def index_ok_def)
  next
    case (Some f)
    have "table_of (map_of (ri_files r)) (ri_symbol_table r)" using assms by (simp add: index_ok_def)
    from table_of_unregister [of "map_of (ri_files r)" _ p f, OF this Some] Some show ?thesis by (simp add: r0_def forget_old_def)
  qed
  define r1 where "r1 = enter_file p c r0"
  note defs = enter_file_def updateInvertedIndex_def Let_def parsed_checksum same
  have fields: "ri_files r1 = AList.update p (parseFile p c) (ri_files r)" "ri_file_contents r1 = AList.update p c (ri_file_contents r)"
      "ri_file_doc_lengths r1 = AList.update p (length (tokenize_text c)) (ri_file_doc_lengths r)"
      "ri_symbol_table r1 = register_symbols (pf_symbols (parseFile p c)) (ri_symbol_table r0)"
    unfolding r1_def by (simp_all add: defs)
  have inverted: "um_get [] (ri_inverted_index r1) t = (if t \<in> set (tokenize_text c)
      then AList.update p (count_list (tokenize_text c) t) (um_get [] (ri_inverted_index r) t) else um_get [] (ri_inverted_index r) t)" for t
    unfolding r1_def by (simp add: defs inverted_fold [OF keys_frequencies] map_of_frequencies)
  have "table_of ((map_of (ri_files r))(p \<mapsto> parseFile p c)) (ri_symbol_table r1)"
    using table_of_register [OF tab, of p "parseFile p c"] parsed_paths [of p c] by (simp add: fields)
  then have "index_ok r1"
    using assms unfolding index_ok_def fields inverted by (auto split: if_splits)
  then show ?thesis by (simp add: r1_def r0_def)
qed

lemma indexFile_ok: "index_ok r \<Longrightarrow> index_ok (snd (indexFile now p c r))"
proof -
  have "index_ok (count_stats now r) = index_ok r" for r by (simp add: count_stats_def index_ok_def)
  then show "index_ok r \<Longrightarrow> index_ok (snd (indexFile now p c r))" by (simp add: indexFile_def Let_def enter_file_ok)
qed

lemma removeFile_ok:
  assumes "index_ok r" shows "index_ok (removeFile p r)"
proof (cases "map_of (ri_files r) p")
  case (Some f)
  with assms table_of_unregister [of "map_of (ri_files r)" "ri_symbol_table r" p f] show ?thesis
    by (auto simp: removeFile_def index_ok_def split: if_splits)
next
  case None
  with assms show ?thesis by (simp add: removeFile_def)
qed

lemma index_walk_ok: "index_ok r \<Longrightarrow> index_ok (snd (snd (index_walk now fs n seen r)))"
proof (induction fs arbitrary: n seen r)
  case (Cons f fs)
  obtain p content where f: "f = (p, content)" by (cases f)
  show ?case
  proof (cases content)
    case (Some c)
    obtain b r' where b: "indexFile now p c r = (b, r')" by fastforce
    with indexFile_ok [OF Cons.prems, of now p c] have "index_ok r'" by simp
    with Some show ?thesis using f b by (simp add: Cons)
  qed (simp add: f Cons)
qed simp

lemma removeFiles_ok: "index_ok r \<Longrightarrow> index_ok (fold removeFile ps r)"
  by (induction ps arbitrary: r) (simp_all add: removeFile_ok)

lemma indexDirectory_ok: "index_ok r \<Longrightarrow> index_ok (snd (indexDirectory now d walk r))"
  using index_walk_ok [of r now "dw_files walk" 0 "[]"] by (auto simp: indexDirectory_def removeFiles_ok split: prod.split)

lemma repository_step_ok: "index_ok r \<Longrightarrow> index_ok (repository_step a r)"
  by (cases a) (simp_all add: indexFile_ok indexDirectory_ok removeFile_ok clear_index_def index_ok_new)

interpretation repository: transition_system "\<lambda>r. r = new_RepositoryIndex" "\<lambda>a r. Some (repository_step a r)" index_ok
  by unfold_locales (auto simp: index_ok_new repository_step_ok)

text \<open>
  C30: The tables of the index agree with the files. After any sequence of calls that index files and directories, remove and clear, every
  indexed file is stored with its text and with what the parser finds in this text; under every name the symbol table holds, for each file,
  exactly the symbols of that file with this name in their order, and none of a file that is not indexed; and the inverted index gives for
  every word of a stored text how often it occurs.
\<close>

theorem index_consistent:
  assumes "run_steps (\<lambda>a r. Some (repository_step a r)) calls new_RepositoryIndex = Some r"
  shows "(\<forall>p. map_of (ri_files r) p = map_option (parseFile p) (map_of (ri_file_contents r) p)) \<and>
    (\<forall>n p. filter (\<lambda>x. sy_file_path x = p) (um_get [] (ri_symbol_table r) n) =
      (case map_of (ri_files r) p of None \<Rightarrow> [] | Some f \<Rightarrow> filter (\<lambda>x. lower (sy_name x) = n) (pf_symbols f))) \<and>
    (\<forall>p c t. map_of (ri_file_contents r) p = Some c \<and> t \<in> set (tokenize_text c) \<longrightarrow>
      map_of (um_get [] (ri_inverted_index r) t) p = Some (count_list (tokenize_text c) t))"
  using repository.inv_reachable [OF refl assms] by (simp add: index_ok_def table_of_def)

theorem index_consistent_witness:
  "\<exists>r. run_steps (\<lambda>a r. Some (repository_step a r))
       [Index_File 1 ''a.md'' ''notes on the parser'', Index_File 2 ''b.md'' ''parser'', Remove_File ''b.md''] new_RepositoryIndex = Some r \<and>
     map_of (ri_files r) ''a.md'' = map_option (parseFile ''a.md'') (map_of (ri_file_contents r) ''a.md'')"
proof -
  let ?calls = "[Index_File 1 ''a.md'' ''notes on the parser'', Index_File 2 ''b.md'' ''parser'', Remove_File ''b.md'']"
  obtain r where r: "run_steps (\<lambda>a r. Some (repository_step a r)) ?calls new_RepositoryIndex = Some r" by simp
  with index_consistent [OF r] show ?thesis by blast
qed

subsection \<open>Symbols\<close>

lemma reachable_ok: "run_steps (\<lambda>a r. Some (repository_step a r)) calls new_RepositoryIndex = Some r \<Longrightarrow> index_ok r"
  by (rule repository.inv_reachable [OF refl])

lemma in_table: "table_of files tab \<Longrightarrow> x \<in> set (um_get [] tab n) \<longleftrightarrow>
    (\<exists>f. files (sy_file_path x) = Some f \<and> x \<in> set (pf_symbols f) \<and> lower (sy_name x) = n)"
proof -
  assume "table_of files tab"
  then have "filter (\<lambda>y. sy_file_path y = sy_file_path x) (um_get [] tab n) =
      (case files (sy_file_path x) of None \<Rightarrow> [] | Some f \<Rightarrow> filter (\<lambda>y. lower (sy_name y) = n) (pf_symbols f))"
    by (simp add: table_of_def)
  then have "x \<in> set (um_get [] tab n) \<longleftrightarrow>
      x \<in> set (case files (sy_file_path x) of None \<Rightarrow> [] | Some f \<Rightarrow> filter (\<lambda>y. lower (sy_name y) = n) (pf_symbols f))"
    by (metis (mono_tags, lifting) filter_set mem_Collect_eq set_filter)
  then show ?thesis by (cases "files (sy_file_path x)") auto
qed

lemma in_findSymbol:
  "distinct (um_keys (ri_symbol_table r)) \<Longrightarrow> x \<in> set (findSymbol_index name exact r) \<longleftrightarrow>
     (\<exists>n. (if exact then n = lower name else contains n (lower name)) \<and> x \<in> set (um_get [] (ri_symbol_table r) n))"
proof (cases exact)
  case False
  assume "distinct (um_keys (ri_symbol_table r))"
  then show ?thesis using False
    by (force simp: findSymbol_index_def um_get_def distinct_map_of_iff split: option.splits)
qed (simp add: findSymbol_index_def)

text \<open>
  Looking a symbol up is exact. After any sequence of calls, an exact lookup returns the symbols of the indexed files whose name is the
  given one up to upper and lower case, each of a file as often as the parser found it there, and a lookup by substring those whose name contains the given one; nothing
  else is returned, in particular no symbol of a file that was removed or of an earlier text of a file.
\<close>

theorem symbols_found_exact:
  assumes "run_steps (\<lambda>a r. Some (repository_step a r)) calls new_RepositoryIndex = Some r"
  shows "(x \<in> set (findSymbol_index name exact r) \<longleftrightarrow>
      (\<exists>f. map_of (ri_files r) (sy_file_path x) = Some f \<and> x \<in> set (pf_symbols f) \<and>
         (if exact then lower (sy_name x) = lower name else contains (lower (sy_name x)) (lower name)))) \<and>
    (map_of (ri_files r) p = Some f \<longrightarrow> filter (\<lambda>x. sy_file_path x = p) (findSymbol_index name True r) =
       filter (\<lambda>x. lower (sy_name x) = lower name) (pf_symbols f))"
proof -
  have t: "table_of (map_of (ri_files r)) (ri_symbol_table r)" using reachable_ok [OF assms] by (simp add: index_ok_def)
  then have "distinct (um_keys (ri_symbol_table r))" by (simp add: table_of_def)
  moreover have "filter (\<lambda>x. sy_file_path x = p) (findSymbol_index name True r) =
      filter (\<lambda>x. lower (sy_name x) = lower name) (pf_symbols f)" if "map_of (ri_files r) p = Some f"
    using t that by (simp add: table_of_def findSymbol_index_def)
  ultimately show ?thesis by (auto simp: in_findSymbol in_table [OF t])
qed

theorem symbols_found_exact_witness:
  "\<exists>r. run_steps (\<lambda>a r. Some (repository_step a r)) [Index_File 1 ''a.md'' ''text''] new_RepositoryIndex = Some r \<and>
     set (findSymbol_index ''main'' True r) = {x. \<exists>f. map_of (ri_files r) (sy_file_path x) = Some f \<and> x \<in> set (pf_symbols f) \<and>
       lower (sy_name x) = lower ''main''}"
proof -
  obtain r where r: "run_steps (\<lambda>a r. Some (repository_step a r)) [Index_File 1 ''a.md'' ''text''] new_RepositoryIndex = Some r" by simp
  have "set (findSymbol_index ''main'' True r) = {x. \<exists>f. map_of (ri_files r) (sy_file_path x) = Some f \<and> x \<in> set (pf_symbols f) \<and>
       lower (sy_name x) = lower ''main''}"
    using symbols_found_exact [OF r, of _ "''main''" True] by auto
  with r show ?thesis by blast
qed

subsection \<open>Search\<close>

text \<open>
  The files a search considers: those with a word of the query, and those with a symbol whose name contains one. The share a ranking gives
  a file depends on its place.
\<close>

definition search_candidates :: "string list \<Rightarrow> RepositoryIndex \<Rightarrow> string set" where
  "search_candidates tokens r = {p. \<exists>t \<in> set tokens. map_of (um_get [] (ri_inverted_index r) t) p \<noteq> None \<or>
     (\<exists>(n, l) \<in> set (ri_symbol_table r). contains n t \<and> p \<in> sy_file_path ` set l)}"

definition rank_share :: "real \<Rightarrow> (string \<times> real) list \<Rightarrow> string \<Rightarrow> real" where
  "rank_share weight ranked p =
     (if p \<in> fst ` set ranked then weight / (61 + real (length (takeWhile (\<lambda>x. fst x \<noteq> p) ranked))) else 0)"

lemma add_score_get [simp]: "um_get 0 (add_score p x scores) q = um_get 0 scores q + (if p = q then x else 0)"
  by (simp add: add_score_def)

lemma add_score_keys [simp]: "map_of (add_score p x scores) q = None \<longleftrightarrow> p \<noteq> q \<and> map_of scores q = None"
  by (simp add: add_score_def update_conv')

lemma add_score_distinct: "distinct (um_keys scores) \<Longrightarrow> distinct (um_keys (add_score p x scores))"
  by (simp add: add_score_def)

lemma add_ranks_get:
  "distinct (map fst ranked) \<Longrightarrow> um_get 0 (add_ranks weight k ranked scores) p = um_get 0 scores p +
     (if p \<in> fst ` set ranked then weight / (61 + real k + real (length (takeWhile (\<lambda>x. fst x \<noteq> p) ranked))) else 0)"
proof (induction ranked arbitrary: k scores)
  case (Cons a ranked)
  obtain q x where a: "a = (q, x)" by (cases a)
  with Cons.prems Cons.IH [of "k + 1" "add_score q (weight / (60 + real k + 1)) scores"] show ?case
    by (auto simp: add.commute add.left_commute)
qed simp

lemma add_ranks_keys: "map_of (add_ranks weight k ranked scores) p = None \<longleftrightarrow> p \<notin> fst ` set ranked \<and> map_of scores p = None"
  by (induction weight k ranked scores rule: add_ranks.induct) auto

lemma add_ranks_distinct: "distinct (um_keys scores) \<Longrightarrow> distinct (um_keys (add_ranks weight k ranked scores))"
  by (induction weight k ranked scores rule: add_ranks.induct) (auto simp: add_score_distinct)

text \<open>The keys of the two rankings.\<close>

lemma bm25_keys: "map_of (bm25_scores tokens r) p = None \<longleftrightarrow> (\<forall>t \<in> set tokens. map_of (um_get [] (ri_inverted_index r) t) p = None)"
proof -
  have docs: "map_of (fold (\<lambda>(q, k) scores. add_score q (g q) scores) docs scores) p = None \<longleftrightarrow>
      map_of docs p = None \<and> map_of scores p = None" for g and docs :: "(string, nat) umap" and scores
  proof (induction docs arbitrary: scores)
    case (Cons a docs)
    obtain q k where a: "a = (q, k)" by (cases a)
    show ?case by (simp add: a Cons.IH)
  qed simp
  have "map_of (fold (\<lambda>t scores. fold (\<lambda>(q, k) scores. add_score q (calculateBM25 t q r) scores) (um_get [] (ri_inverted_index r) t) scores)
      tokens scores) p = None \<longleftrightarrow> (\<forall>t \<in> set tokens. map_of (um_get [] (ri_inverted_index r) t) p = None) \<and> map_of scores p = None" for scores
    by (induction tokens arbitrary: scores) (auto simp: docs)
  then show ?thesis by (simp add: bm25_scores_def)
qed

lemma bm25_distinct: "distinct (um_keys (bm25_scores tokens r))"
proof -
  have docs: "distinct (um_keys scores) \<Longrightarrow> distinct (um_keys (fold (\<lambda>(q, k) scores. add_score q (g q) scores) docs scores))"
    for g and docs :: "(string, nat) umap" and scores
    by (induction docs arbitrary: scores) (auto simp: add_score_distinct)
  have "distinct (um_keys scores) \<Longrightarrow>
      distinct (um_keys (fold (\<lambda>t scores. fold (\<lambda>(q, k) scores. add_score q (calculateBM25 t q r) scores)
        (um_get [] (ri_inverted_index r) t) scores) tokens scores))" for scores
    by (induction tokens arbitrary: scores) (auto simp: docs)
  then show ?thesis by (simp add: bm25_scores_def)
qed

lemma score_symbol_keys:
  "map_of (fst (score_symbol t (n, l) s)) p = None \<longleftrightarrow> \<not> (contains n t \<and> p \<in> sy_file_path ` set l) \<and> map_of (fst s) p = None"
proof -
  have f: "map_of (fst (fold (\<lambda>x (scores, best). (add_score (sy_file_path x) k scores, g x best)) l s)) p = None \<longleftrightarrow>
      p \<notin> sy_file_path ` set l \<and> map_of (fst s) p = None" for k g and s :: "(string, real) umap \<times> (string, string) umap"
    by (induction l arbitrary: s) (auto split: prod.splits)
  then show ?thesis by (auto simp: score_symbol_def)
qed

lemma score_symbol_distinct: "distinct (um_keys (fst s)) \<Longrightarrow> distinct (um_keys (fst (score_symbol t e s)))"
proof -
  have f: "distinct (um_keys (fst s)) \<Longrightarrow>
      distinct (um_keys (fst (fold (\<lambda>x (scores, best). (add_score (sy_file_path x) k scores, g x best)) l s)))"
    for k g l and s :: "(string, real) umap \<times> (string, string) umap"
    by (induction l arbitrary: s) (auto simp: add_score_distinct split: prod.splits)
  then show "distinct (um_keys (fst s)) \<Longrightarrow> distinct (um_keys (fst (score_symbol t e s)))"
    by (cases e) (simp add: score_symbol_def f)
qed

lemma symbol_keys:
  "map_of (fst (symbol_scores tokens r)) p = None \<longleftrightarrow>
     (\<forall>t \<in> set tokens. \<forall>(n, l) \<in> set (ri_symbol_table r). \<not> (contains n t \<and> p \<in> sy_file_path ` set l))"
proof -
  have tab: "map_of (fst (fold (score_symbol t) tab s)) p = None \<longleftrightarrow>
      (\<forall>(n, l) \<in> set tab. \<not> (contains n t \<and> p \<in> sy_file_path ` set l)) \<and> map_of (fst s) p = None" for t tab s
    by (induction tab arbitrary: s) (auto simp: score_symbol_keys)
  have "map_of (fst (fold (\<lambda>t. fold (score_symbol t) (ri_symbol_table r)) tokens s)) p = None \<longleftrightarrow>
      (\<forall>t \<in> set tokens. \<forall>(n, l) \<in> set (ri_symbol_table r). \<not> (contains n t \<and> p \<in> sy_file_path ` set l)) \<and> map_of (fst s) p = None" for s
    by (induction tokens arbitrary: s) (auto simp: tab)
  then show ?thesis by (simp add: symbol_scores_def)
qed

lemma symbol_distinct: "distinct (um_keys (fst (symbol_scores tokens r)))"
proof -
  have tab: "distinct (um_keys (fst s)) \<Longrightarrow> distinct (um_keys (fst (fold (score_symbol t) tab s)))" for t tab s
    by (induction tab arbitrary: s) (auto simp: score_symbol_distinct)
  have "distinct (um_keys (fst s)) \<Longrightarrow> distinct (um_keys (fst (fold (\<lambda>t. fold (score_symbol t) (ri_symbol_table r)) tokens s)))" for s
    by (induction tokens arbitrary: s) (auto simp: tab)
  then show ?thesis by (simp add: symbol_scores_def)
qed

lemma candidates_keys:
  "p \<in> search_candidates tokens r \<longleftrightarrow> map_of (bm25_scores tokens r) p \<noteq> None \<or> map_of (fst (symbol_scores tokens r)) p \<noteq> None"
  unfolding search_candidates_def mem_Collect_eq bm25_keys symbol_keys by (simp add: case_prod_unfold) blast

lemma fused_keys:
  assumes "std_sort srt"
  shows "set (um_keys (fused_scores srt tokens r)) = search_candidates tokens r"
proof -
  have "map_of (fused_scores srt tokens r) p = None \<longleftrightarrow>
      map_of (bm25_scores tokens r) p = None \<and> map_of (fst (symbol_scores tokens r)) p = None" for p
    unfolding fused_scores_def add_ranks_keys unfolding std_sort_set [OF assms] map_of_eq_None_iff by auto
  then show ?thesis by (auto simp: candidates_keys simp del: not_None_eq)
qed

lemma fused_distinct: "distinct (um_keys (fused_scores srt tokens r))"
  by (simp add: fused_scores_def add_ranks_distinct)

lemma sorted_distinct: "std_sort srt \<Longrightarrow> distinct (um_keys m) \<Longrightarrow> distinct (map fst (srt lt m))"
  by (metis mset_eq_imp_distinct_iff mset_map std_sort_mset um_keys_def)

lemma fused_score:
  assumes "std_sort srt"
  shows "um_get 0 (fused_scores srt tokens r) p = rank_share 1 (srt higher_score (bm25_scores tokens r)) p +
     rank_share 1.5 (srt higher_score (fst (symbol_scores tokens r))) p"
  unfolding fused_scores_def rank_share_def
  by (simp add: add_ranks_get [OF sorted_distinct [OF assms bm25_distinct]] add_ranks_get [OF sorted_distinct [OF assms symbol_distinct]])

lemma strict_weak_higher: "strict_weak higher_score"
  by (auto simp: strict_weak_def higher_score_def)

text \<open>
  C31: The search is the reciprocal rank fusion of its two rankings. The results are distinct files in descending order of score, at most
  as many as asked for and all candidates when there are fewer; the score of each is \<open>1 / (60 + place)\<close> for its place in the ranking by BM25 plus
  \<open>1.5 / (60 + place)\<close> for its place in the ranking by symbols; the snippet is the head of the stored text; and no candidate left out has a higher score than one returned.
\<close>

theorem search_ranked_right:
  assumes "std_sort srt" "ri_files r \<noteq> []"
  shows "let tokens = tokenize_text query; results = searchCode srt query top_k r;
      score = (\<lambda>p. rank_share 1 (srt higher_score (bm25_scores tokens r)) p +
        rank_share 1.5 (srt higher_score (fst (symbol_scores tokens r))) p)
    in distinct (map sr_file_path results) \<and> sorted_wrt (\<lambda>a b. sr_score a \<ge> sr_score b) results \<and>
       length results = min top_k (card (search_candidates tokens r)) \<and>
       (\<forall>x \<in> set results. sr_file_path x \<in> search_candidates tokens r \<and> sr_score x = score (sr_file_path x) \<and>
          sr_snippet x = take 200 (um_get [] (ri_file_contents r) (sr_file_path x))) \<and>
       (\<forall>x \<in> set results. \<forall>q \<in> search_candidates tokens r - sr_file_path ` set results. score q \<le> sr_score x)"
proof -
  define tokens where "tokens = tokenize_text query"
  define ranked where "ranked = srt higher_score (fused_scores srt tokens r)"
  define score where "score = (\<lambda>p. rank_share 1 (srt higher_score (bm25_scores tokens r)) p +
        rank_share 1.5 (srt higher_score (fst (symbol_scores tokens r))) p)"
  have score_eq: "score p = rank_share 1 (srt higher_score (bm25_scores tokens r)) p +
        rank_share 1.5 (srt higher_score (fst (symbol_scores tokens r))) p" for p by (simp add: score_def)
  have results: "searchCode srt query top_k r = map (search_result (snd (symbol_scores tokens r)) r) (take top_k ranked)"
    using assms(2) by (simp add: searchCode_def Let_def tokens_def ranked_def)
  have set_ranked: "set ranked = set (fused_scores srt tokens r)" by (simp add: ranked_def std_sort_set [OF assms(1)])
  have dist: "distinct (map fst ranked)" by (simp add: ranked_def sorted_distinct [OF assms(1) fused_distinct])
  have paths: "fst ` set ranked = search_candidates tokens r"
    using fused_keys [OF assms(1), of tokens r] by (simp add: set_ranked um_keys_def)
  have scores: "snd x = score (fst x)" if "x \<in> set ranked" for x
    using that distinct_map_of_iff [OF fused_distinct, of "fst x" "snd x" srt tokens r] fused_score [OF assms(1), of tokens r "fst x"]
    by (simp add: set_ranked score_def um_get_def)
  have sorted: "sorted_wrt (\<lambda>a b. snd a \<ge> snd b) ranked"
    using std_sort_sorted [OF assms(1) strict_weak_higher, of "fused_scores srt tokens r"]
    by (auto simp: ranked_def higher_score_def elim!: sorted_wrt_mono_rel [rotated])
  have card: "length ranked = card (search_candidates tokens r)"
    using distinct_card [OF dist] paths by simp
  have split: "ranked = take top_k ranked @ drop top_k ranked" by simp
  have rest: "snd y \<le> snd x" if "x \<in> set (take top_k ranked)" "y \<in> set (drop top_k ranked)" for x y
    using sorted that by (metis split sorted_wrt_append)
  have left_out: "score q \<le> snd x" if "x \<in> set (take top_k ranked)" "q \<in> search_candidates tokens r - fst ` set (take top_k ranked)" for x q
  proof -
    from that(2) paths obtain y where "y \<in> set ranked" "q = fst y" "y \<notin> set (take top_k ranked)" by force
    moreover from this have "y \<in> set (drop top_k ranked)" by (metis UnE set_append split)
    ultimately show ?thesis using rest [OF that(1), of y] scores [of y] by simp
  qed
  have "distinct (map fst (take top_k ranked))" "sorted_wrt (\<lambda>a b. snd a \<ge> snd b) (take top_k ranked)"
    using dist sorted by (simp_all add: take_map [symmetric] sorted_wrt_take)
  moreover have "x \<in> set ranked" if "x \<in> set (take top_k ranked)" for x using that by (rule in_set_takeD)
  moreover from this have "fst x \<in> search_candidates tokens r" if "x \<in> set (take top_k ranked)" for x
    using that paths by blast
  ultimately show ?thesis
    unfolding Let_def tokens_def [symmetric] results score_eq [symmetric] using scores left_out card
    by (auto simp: search_result_def comp_def sorted_wrt_map image_image)
qed

theorem search_ranked_right_witness:
  "distinct (map sr_file_path (searchCode insertion_sort ''parser'' 5 (snd (indexFile 1 ''a.md'' ''notes on the parser'' new_RepositoryIndex))))"
proof -
  have "ri_files (snd (indexFile 1 ''a.md'' ''notes on the parser'' new_RepositoryIndex)) \<noteq> []"
    by (simp add: indexFile_def new_RepositoryIndex_def count_stats_def forget_old_def enter_file_def updateInvertedIndex_def Let_def)
  from search_ranked_right [OF insertion_sort_ok this, of "''parser''" 5] show ?thesis by (simp add: Let_def)
qed

subsection \<open>Removed files\<close>

text \<open>
  A removed file is still found. Removing a file takes it out of the table of symbols and of the stored files and leaves its words
  in the inverted index, so that a later search for one of them considers the file as before and returns it, with an empty snippet, when
  there is room for all candidates.
\<close>

theorem removed_file_still_found:
  assumes "run_steps (\<lambda>a r. Some (repository_step a r)) calls new_RepositoryIndex = Some r" "std_sort srt"
    "map_of (ri_file_contents r) p = Some c" "t \<in> set (tokenize_text c)" "t \<in> set (tokenize_text query)"
    "ri_files (removeFile p r) \<noteq> []" "top_k \<ge> card (search_candidates (tokenize_text query) (removeFile p r))"
  shows "map_of (ri_files (removeFile p r)) p = None \<and>
    (\<exists>x \<in> set (searchCode srt query top_k (removeFile p r)). sr_file_path x = p \<and> sr_snippet x = [])"
proof -
  have ok: "index_ok r" by (rule reachable_ok [OF assms(1)])
  then obtain f where f: "map_of (ri_files r) p = Some f" using assms(3) by (auto simp: index_ok_def)
  have "map_of (um_get [] (ri_inverted_index r) t) p = Some (count_list (tokenize_text c) t)"
    using ok assms(3,4) by (simp add: index_ok_def)
  then have "p \<in> search_candidates (tokenize_text query) (removeFile p r)"
    using assms(5) f by (auto simp: search_candidates_def removeFile_def)
  then have "map_of (fused_scores srt (tokenize_text query) (removeFile p r)) p \<noteq> None"
    using fused_keys [OF assms(2), of "tokenize_text query" "removeFile p r"] by (metis in_um_keys)
  then obtain v where v: "(p, v) \<in> set (fused_scores srt (tokenize_text query) (removeFile p r))"
    by (auto dest: map_of_SomeD)
  have "length (fused_scores srt (tokenize_text query) (removeFile p r)) \<le> top_k"
    using distinct_card [OF fused_distinct, of srt "tokenize_text query" "removeFile p r"] fused_keys [OF assms(2)] assms(7) by simp
  then have "take top_k (srt higher_score (fused_scores srt (tokenize_text query) (removeFile p r))) =
      srt higher_score (fused_scores srt (tokenize_text query) (removeFile p r))"
    by (simp add: std_sort_length [OF assms(2)])
  moreover have "um_get [] (ri_file_contents (removeFile p r)) p = []" "map_of (ri_files (removeFile p r)) p = None"
    using f ok by (auto simp: removeFile_def um_get_def index_ok_def)
  ultimately show ?thesis using v assms(6)
    by (force simp: searchCode_def Let_def std_sort_set [OF assms(2)] search_result_def)
qed

theorem removed_file_still_found_witness:
  "\<exists>r k. map_of (ri_files (removeFile ''a.md'' r)) ''a.md'' = None \<and>
     (\<exists>x \<in> set (searchCode insertion_sort ''parser'' k (removeFile ''a.md'' r)). sr_file_path x = ''a.md'' \<and> sr_snippet x = [])"
proof -
  let ?calls = "[Index_File 1 ''a.md'' ''parser'', Index_File 2 ''b.md'' ''notes'']"
  define r where "r = snd (indexFile 2 ''b.md'' ''notes'' (snd (indexFile 1 ''a.md'' ''parser'' new_RepositoryIndex)))"
  have calls: "run_steps (\<lambda>a r. Some (repository_step a r)) ?calls new_RepositoryIndex = Some r" by (simp add: r_def)
  note defs = r_def indexFile_def new_RepositoryIndex_def count_stats_def forget_old_def enter_file_def updateInvertedIndex_def removeFile_def Let_def
  have contents: "map_of (ri_file_contents r) ''a.md'' = Some ''parser''" by (simp add: defs)
  have left: "ri_files (removeFile ''a.md'' r) \<noteq> []" by (simp add: defs)
  have tokens: "''parser'' \<in> set (tokenize_text ''parser'')" by code_simp
  show ?thesis
    using removed_file_still_found [OF calls insertion_sort_ok contents tokens tokens left order_refl] by blast
qed

subsection \<open>The weight of a word\<close>

lemma minus64_le: "b \<le> a \<Longrightarrow> a < 2 ^ 64 \<Longrightarrow> minus64 a b = a - b"
  by (simp add: minus64_def unat_sub_if_size unat_of_nat)

lemma minus64_wraps: "a < b \<Longrightarrow> b < 2 ^ 64 \<Longrightarrow> minus64 a b = 2 ^ 64 - (b - a)"
  by (simp add: minus64_def unat_sub_if_size unat_of_nat word_size)

text \<open>
  The weight of a word that occurs in at most as many files as are indexed is positive and falls with the number of its files. A word with more entries than there are files,
  which a removal makes possible, underflows the difference of the two sizes: for up to a million entries its weight is at least
  \<open>ln (2 ^ 43)\<close>, larger than that of any word of a consistent index with fewer than \<open>2 ^ 40\<close> files.
\<close>

theorem idf_range:
  "(df \<le> n \<and> n < 2 ^ 40 \<longrightarrow> 0 < idf n df \<and> idf n df < ln (2 ^ 43)) \<and>
   (n < df \<and> df \<le> 2 ^ 20 \<longrightarrow> ln (2 ^ 43) \<le> idf n df)"
proof (intro conjI impI)
  assume a: "df \<le> n \<and> n < 2 ^ 40"
  then have m: "minus64 n df = n - df" by (simp add: minus64_le)
  have "(real (n - df) + 0.5) / (real df + 0.5) \<le> (real (n - df) + 0.5) / 0.5" by (intro divide_left_mono) auto
  also have "\<dots> < 2 ^ 43 - 1" using a by (simp add: of_nat_diff) 
  finally have up: "(real (n - df) + 0.5) / (real df + 0.5) + 1.0 < 2 ^ 43" by simp
  have low: "0 < (real (n - df) + 0.5) / (real df + 0.5)" by (intro divide_pos_pos) auto
  show "0 < idf n df" using low unfolding idf_def m by (intro ln_gt_zero) simp
  show "idf n df < ln (2 ^ 43)" unfolding idf_def m using up add_pos_pos [OF low zero_less_one] by (subst ln_less_cancel_iff) auto
next
  assume a: "n < df \<and> df \<le> 2 ^ 20"
  then have m: "minus64 n df = 2 ^ 64 - (df - n)" by (simp add: minus64_wraps)
  have n: "(2 :: nat) ^ 64 - 2 ^ 20 \<le> 2 ^ 64 - (df - n)" using conjunct1 [OF a] conjunct2 [OF a] by simp
  have "real df + 0.5 \<le> 2 ^ 20 + 1" using conjunct2 [OF a] by simp
  from mult_left_mono [OF this, of "2 ^ 43 - 1"] have "(2 ^ 43 - 1) * (real df + 0.5) \<le> real (2 ^ 64 - 2 ^ 20) + 0.5" by simp
  also have "\<dots> \<le> real (2 ^ 64 - (df - n)) + 0.5" using n by (intro add_right_mono) (rule of_nat_mono)
  finally have "2 ^ 43 \<le> (real (2 ^ 64 - (df - n)) + 0.5) / (real df + 0.5) + 1.0" by (simp add: field_simps)
  then show "ln (2 ^ 43) \<le> idf n df" unfolding idf_def m by (subst ln_le_cancel_iff) auto
qed

theorem idf_range_witness: "0 < idf 3 2 \<and> ln (2 ^ 43) \<le> idf 1 2"
  using idf_range [of 2 3] idf_range [of 2 1] by simp

end
