(* ===== verification/Test_Types.thy ===== *)
theory Test_Types
  imports Regex_Laws Builtin_Tools Complex_Main
begin

text \<open>
  The types of the testing engine (\<open>src/src/testing/TestingTypes.h\<close>) that the runner of tests and the analysis of coverage use,
  and the searches in strings and the conversions of numbers that both read text with.

  \<^item> A duration is a number of milliseconds, a path the string it is made of, a \<open>double\<close> a real.
  \<^item> \<open>std::expected\<close> with a string as error is a sum.
\<close>

type_synonym 'a TestingResult = "string + 'a"

datatype TestStatus = Test_Passed | Test_Failed | Test_Skipped | Test_Timeout | Test_Crashed

record TestCaseResult =
  tc_suite_name :: string
  tc_test_name :: string
  tc_status :: TestStatus
  tc_duration :: int
  tc_failure_message :: string
  tc_failure_file :: string
  tc_failure_line :: int
  tc_stack_trace :: string
  tc_stdout_output :: string

definition empty_case :: TestCaseResult where
  "empty_case = \<lparr>tc_suite_name = [], tc_test_name = [], tc_status = Test_Passed, tc_duration = 0, tc_failure_message = [],
     tc_failure_file = [], tc_failure_line = 0, tc_stack_trace = [], tc_stdout_output = []\<rparr>"

record TestExecutionReport =
  te_command :: string
  te_working_directory :: string
  te_success :: bool
  te_total_tests :: nat
  te_passed_tests :: nat
  te_failed_tests :: nat
  te_skipped_tests :: nat
  te_total_duration :: int
  te_test_cases :: "TestCaseResult list"
  te_raw_stdout :: string
  te_raw_stderr :: string
  te_exit_code :: int
  te_summary_string :: string

definition empty_report :: TestExecutionReport where
  "empty_report = \<lparr>te_command = [], te_working_directory = [], te_success = False, te_total_tests = 0, te_passed_tests = 0,
     te_failed_tests = 0, te_skipped_tests = 0, te_total_duration = 0, te_test_cases = [], te_raw_stdout = [], te_raw_stderr = [],
     te_exit_code = 0, te_summary_string = []\<rparr>"

record TestRunOptions =
  to_working_directory :: string
  to_timeout :: int
  to_filter_expression :: string
  to_environment_vars :: "(string, string) umap"
  to_framework_hint :: string

record LineRange =
  lr_start_line :: int
  lr_end_line :: int

record FileCoverage =
  fc_file_path :: string
  fc_total_lines :: nat
  fc_covered_lines :: nat
  fc_line_coverage_percent :: real
  fc_total_branches :: nat
  fc_covered_branches :: nat
  fc_branch_coverage_percent :: real
  fc_total_functions :: nat
  fc_covered_functions :: nat
  fc_function_coverage_percent :: real
  fc_uncovered_line_ranges :: "LineRange list"

definition empty_coverage :: FileCoverage where
  "empty_coverage = \<lparr>fc_file_path = [], fc_total_lines = 0, fc_covered_lines = 0, fc_line_coverage_percent = 0, fc_total_branches = 0,
     fc_covered_branches = 0, fc_branch_coverage_percent = 0, fc_total_functions = 0, fc_covered_functions = 0,
     fc_function_coverage_percent = 0, fc_uncovered_line_ranges = []\<rparr>"

record CoverageReport =
  cr_overall_line_coverage :: real
  cr_overall_branch_coverage :: real
  cr_overall_function_coverage :: real
  cr_total_lines :: nat
  cr_covered_lines :: nat
  cr_files :: "(string, FileCoverage) umap"
  cr_format :: string

definition empty_coverage_report :: CoverageReport where
  "empty_coverage_report = \<lparr>cr_overall_line_coverage = 0, cr_overall_branch_coverage = 0, cr_overall_function_coverage = 0,
     cr_total_lines = 0, cr_covered_lines = 0, cr_files = [], cr_format = []\<rparr>"

record CoverageGateResult =
  cg_passed :: bool
  cg_required_line_percent :: real
  cg_actual_line_percent :: real
  cg_required_branch_percent :: real
  cg_actual_branch_percent :: real
  cg_deficit_files :: "string list"

subsection \<open>Strings\<close>

text \<open>\<open>splitLines\<close>, the same static function in both files.\<close>

definition test_lines :: "string \<Rightarrow> string list" where
  "test_lines s = map strip_cr (getlines [] s)"

text \<open>\<open>s.find(t)\<close>, \<open>s.rfind(c)\<close> and \<open>s.ends_with(t)\<close>.\<close>

fun find_text :: "string \<Rightarrow> string \<Rightarrow> nat option" where
  "find_text [] t = (if t = [] then Some 0 else None)"
| "find_text (c # s) t = (if prefix t (c # s) then Some 0 else map_option Suc (find_text s t))"

definition rfind_char :: "string \<Rightarrow> char \<Rightarrow> nat option" where
  "rfind_char s c = (if c \<in> set s then Some (length s - 1 - length (takeWhile (\<lambda>x. x \<noteq> c) (rev s))) else None)"

definition ends_with :: "string \<Rightarrow> string \<Rightarrow> bool" where
  "ends_with s t = suffix t s"

text \<open>\<open>std::stoull\<close>: a minus sign negates the value modulo \<open>2 ^ 64\<close>.\<close>

definition stoull :: "string \<Rightarrow> nat option" where
  "stoull s =
     (let t = dropWhile isspace s;
          (negated, u) = (case t of c # r \<Rightarrow> if c = CHR ''-'' then (True, r) else if c = CHR ''+'' then (False, r) else (False, t)
                          | [] \<Rightarrow> (False, []));
          ds = takeWhile isdigit u;
          n = digits_value ds
      in if ds = [] \<or> n \<ge> 2 ^ 64 then None else Some (nat ((if negated then - n else n) mod 2 ^ 64)))"

end
