(* ===== verification/Test_Runner.thy ===== *)
theory Test_Runner
  imports Test_Types
begin

text \<open>
  The runner of tests (\<open>src/src/testing/TestRunner.h\<close>, \<open>TestRunner.cpp\<close>), as built on POSIX: how the output of a command is read, cleaned,
  and parsed for four frameworks.

  \<^item> \<open>popen\<close> with \<open>pclose\<close> is a parameter: the bytes that come out of the pipe and the status, or nothing when no pipe opens.
    The clock is a parameter as well.
\<close>

subsection \<open>Cleaning\<close>

definition ansi_regex :: regex where
  "ansi_regex = Seqs [Text [CHR 0x1B, CHR ''[''], Many True (One (\<lambda>c. isdigit c \<or> c = CHR '';'')), One (\<lambda>c. isupper c \<or> islower c)]"

definition stripAnsiCodes :: "string \<Rightarrow> string" where
  "stripAnsiCodes input = erase_matches input ansi_regex"

text \<open>The number of bytes after a byte that begins a sequence; \<open>(c & 0xC0) == 0x80\<close>.\<close>

definition continuation :: "char \<Rightarrow> bool" where
  "continuation c \<longleftrightarrow> 128 \<le> code_of c \<and> code_of c < 192"

definition sequence_rest :: "char \<Rightarrow> nat option" where
  "sequence_rest c =
     (if code_of c < 128 then Some 0
      else if 192 \<le> code_of c \<and> code_of c < 224 then Some 1
      else if 224 \<le> code_of c \<and> code_of c < 240 then Some 2
      else if 240 \<le> code_of c \<and> code_of c < 248 then Some 3
      else None)"

definition sequence_here :: "char \<Rightarrow> string \<Rightarrow> nat option" where
  "sequence_here c cs =
     (case sequence_rest c of
        None \<Rightarrow> None
      | Some n \<Rightarrow> if n \<le> length cs \<and> list_all continuation (take n cs) then Some n else None)"

function sanitizeUtf8 :: "string \<Rightarrow> string" where
  "sanitizeUtf8 [] = []"
| "sanitizeUtf8 (c # cs) =
     (case sequence_here c cs of
        None \<Rightarrow> CHR ''?'' # sanitizeUtf8 cs
      | Some n \<Rightarrow> c # take n cs @ sanitizeUtf8 (drop n cs))"
  by pat_completeness auto
termination
  by (relation "measure length") auto

subsection \<open>Parsers\<close>

definition counts_summary :: "string \<Rightarrow> TestExecutionReport \<Rightarrow> string" where
  "counts_summary name rep = name @ nat_string (te_passed_tests rep) @ '' passed, '' @ nat_string (te_failed_tests rep) @ '' failed''"

definition add_case :: "TestCaseResult \<Rightarrow> TestExecutionReport \<Rightarrow> TestExecutionReport" where
  "add_case tc rep = rep\<lparr>te_test_cases := te_test_cases rep @ [tc]\<rparr>"

definition add_passed :: "TestCaseResult \<Rightarrow> TestExecutionReport \<Rightarrow> TestExecutionReport" where
  "add_passed tc rep = add_case tc (rep\<lparr>te_passed_tests := te_passed_tests rep + 1\<rparr>)"

definition add_failed :: "TestCaseResult \<Rightarrow> TestExecutionReport \<Rightarrow> TestExecutionReport" where
  "add_failed tc rep = add_case tc (rep\<lparr>te_failed_tests := te_failed_tests rep + 1\<rparr>)"

definition add_skipped :: "TestCaseResult \<Rightarrow> TestExecutionReport \<Rightarrow> TestExecutionReport" where
  "add_skipped tc rep = add_case tc (rep\<lparr>te_skipped_tests := te_skipped_tests rep + 1\<rparr>)"

definition start_report :: "string \<Rightarrow> string \<Rightarrow> int \<Rightarrow> TestExecutionReport" where
  "start_report out err code = empty_report\<lparr>te_raw_stdout := out, te_raw_stderr := err, te_exit_code := code\<rparr>"

definition close_report :: "int \<Rightarrow> TestExecutionReport \<Rightarrow> TestExecutionReport" where
  "close_report code rep =
     rep\<lparr>te_total_tests := length (te_test_cases rep), te_success := (te_failed_tests rep = 0 \<and> code = 0)\<rparr>"

paragraph \<open>Google Test\<close>

definition error_line_regex :: regex where
  "error_line_regex = Seqs [At_Start, Group 1 (Many False Dot), Text ''('', Group 2 Digits, Text ''):'', Spaces, Text ''error:'', Spaces,
     Group 3 (Many True Dot), At_End]"

record gtest_state =
  gt_rep :: TestExecutionReport
  gt_current :: TestCaseResult
  gt_in_test :: bool
  gt_block :: string

definition gtest_start :: "string \<Rightarrow> TestCaseResult \<Rightarrow> TestCaseResult" where
  "gtest_start line tc =
     (let name_part = dropWhile (\<lambda>c. c = CHR '' '' \<or> c = CHR 0x09) (drop 12 line);
          (suite, test) = (case find_text name_part ''.'' of
               Some dot \<Rightarrow> (take dot name_part, drop (dot + 1) name_part)
             | None \<Rightarrow> (''GTestSuite'', name_part))
      in tc\<lparr>tc_suite_name := suite, tc_test_name := test, tc_status := Test_Passed, tc_duration := 0, tc_failure_message := [],
            tc_failure_file := [], tc_failure_line := 0, tc_stack_trace := [], tc_stdout_output := []\<rparr>)"

definition gtest_duration :: "string \<Rightarrow> int option" where
  "gtest_duration line =
     (case (rfind_char line CHR ''('', rfind_char line CHR '')'') of
        (Some a, Some b) \<Rightarrow> if b > a then stoi (take (b - a - 1) (drop (a + 1) line)) else None
      | _ \<Rightarrow> None)"

definition gtest_error :: "string \<Rightarrow> TestCaseResult \<Rightarrow> TestCaseResult" where
  "gtest_error line tc =
     (case regex_search line error_line_regex of
        None \<Rightarrow> tc
      | Some m \<Rightarrow>
          if tc_failure_file tc = []
          then tc\<lparr>tc_failure_file := group_of line m 1,
                  tc_failure_line := (case stoi (group_of line m 2) of None \<Rightarrow> tc_failure_line tc | Some n \<Rightarrow> n)\<rparr>
          else tc)"

definition gtest_line :: "string \<Rightarrow> gtest_state \<Rightarrow> gtest_state" where
  "gtest_line line s =
     (if starts_with line ''[ RUN      ]'' then
        s\<lparr>gt_rep := (if gt_in_test s then add_case (gt_current s) (gt_rep s) else gt_rep s), gt_in_test := True, gt_block := [],
          gt_current := gtest_start line (gt_current s)\<rparr>
      else if starts_with line ''[       OK ]'' then
        if gt_in_test s then
          let tc = (gt_current s)\<lparr>tc_status := Test_Passed\<rparr>;
              tc = (case gtest_duration line of None \<Rightarrow> tc | Some n \<Rightarrow> tc\<lparr>tc_duration := n\<rparr>)
          in s\<lparr>gt_current := tc, gt_rep := add_passed tc (gt_rep s), gt_in_test := False\<rparr>
        else s
      else if starts_with line ''[  FAILED  ]'' then
        if gt_in_test s then
          let tc = (gt_current s)\<lparr>tc_status := Test_Failed, tc_failure_message := gt_block s\<rparr>
          in s\<lparr>gt_current := tc, gt_rep := add_failed tc (gt_rep s), gt_in_test := False\<rparr>
        else s
      else if starts_with line ''[  SKIPPED ]'' then
        if gt_in_test s then
          let tc = (gt_current s)\<lparr>tc_status := Test_Skipped\<rparr>
          in s\<lparr>gt_current := tc, gt_rep := add_skipped tc (gt_rep s), gt_in_test := False\<rparr>
        else s
      else if gt_in_test s then
        s\<lparr>gt_block := gt_block s @ line @ [newline], gt_current := gtest_error line (gt_current s)\<rparr>
      else s)"

definition parseGTest :: "string \<Rightarrow> string \<Rightarrow> int \<Rightarrow> TestExecutionReport" where
  "parseGTest out err code =
     (let s = fold gtest_line (test_lines out)
            \<lparr>gt_rep = start_report out err code, gt_current = empty_case, gt_in_test = False, gt_block = []\<rparr>;
          rep = close_report code (gt_rep s)
      in rep\<lparr>te_summary_string := ''Passed: '' @ nat_string (te_passed_tests rep) @ '', Failed: '' @ nat_string (te_failed_tests rep) @
           '', Skipped: '' @ nat_string (te_skipped_tests rep)\<rparr>)"

paragraph \<open>pytest\<close>

definition pytest_line :: "string \<Rightarrow> TestExecutionReport \<Rightarrow> TestExecutionReport" where
  "pytest_line line rep =
     (case find_text line ''::'' of
        None \<Rightarrow> rep
      | Some dcolon \<Rightarrow>
          let tc = empty_case\<lparr>tc_suite_name := take dcolon line\<rparr>; rest = drop (dcolon + 2) line
          in (case find_text rest '' '' of
                None \<Rightarrow> add_passed (tc\<lparr>tc_test_name := rest, tc_status := Test_Passed\<rparr>) rep
              | Some space \<Rightarrow>
                  let tc = tc\<lparr>tc_test_name := take space rest\<rparr>; status_part = drop space rest
                  in if contains status_part ''PASSED'' then add_passed (tc\<lparr>tc_status := Test_Passed\<rparr>) rep
                     else if contains status_part ''FAILED'' then add_failed (tc\<lparr>tc_status := Test_Failed\<rparr>) rep
                     else if contains status_part ''SKIPPED'' then add_skipped (tc\<lparr>tc_status := Test_Skipped\<rparr>) rep
                     else add_case tc rep))"

definition parsePytest :: "string \<Rightarrow> string \<Rightarrow> int \<Rightarrow> TestExecutionReport" where
  "parsePytest out err code =
     (let rep = close_report code (fold pytest_line (test_lines out) (start_report out err code))
      in rep\<lparr>te_summary_string := counts_summary ''Pytest: '' rep\<rparr>)"

paragraph \<open>Jest\<close>

text \<open>The two marks of a passed test and the two of a failed one, in UTF-8.\<close>

definition jest_pass_marks :: "string list" where
  "jest_pass_marks = [[CHR 0xE2, CHR 0x9C, CHR 0x93], [CHR 0xE2, CHR 0x88, CHR 0x9A]]"

definition jest_fail_marks :: "string list" where
  "jest_fail_marks = [[CHR 0xE2, CHR 0x9C, CHR 0x95], [CHR 0xC3, CHR 0x97]]"

definition jest_line :: "string \<Rightarrow> TestExecutionReport \<Rightarrow> TestExecutionReport" where
  "jest_line line rep =
     (let tc = empty_case\<lparr>tc_suite_name := ''JestSuite'', tc_test_name := line\<rparr>
      in if list_ex (contains line) jest_pass_marks then add_passed (tc\<lparr>tc_status := Test_Passed\<rparr>) rep
         else if list_ex (contains line) jest_fail_marks
         then add_failed (tc\<lparr>tc_status := Test_Failed, tc_failure_message := line\<rparr>) rep
         else rep)"

definition parseJest :: "string \<Rightarrow> string \<Rightarrow> int \<Rightarrow> TestExecutionReport" where
  "parseJest out err code =
     (let rep = close_report code (fold jest_line (test_lines (out @ [newline] @ err)) (start_report out err code))
      in rep\<lparr>te_summary_string := counts_summary ''Jest: '' rep\<rparr>)"

paragraph \<open>cargo\<close>

definition cargo_line :: "string \<Rightarrow> TestExecutionReport \<Rightarrow> TestExecutionReport" where
  "cargo_line line rep =
     (if starts_with line ''test '' \<and> (ends_with line ''... ok'' \<or> ends_with line ''... FAILED'' \<or> ends_with line ''... ignored'') then
        let tc = empty_case\<lparr>tc_suite_name := ''CargoTests'', tc_test_name := takeWhile (\<lambda>c. c \<noteq> CHR '' '') (drop 5 line)\<rparr>
        in if ends_with line ''... ok'' then add_passed (tc\<lparr>tc_status := Test_Passed\<rparr>) rep
           else if ends_with line ''... FAILED'' then add_failed (tc\<lparr>tc_status := Test_Failed\<rparr>) rep
           else add_skipped (tc\<lparr>tc_status := Test_Skipped\<rparr>) rep
      else rep)"

definition parseCargo :: "string \<Rightarrow> string \<Rightarrow> int \<Rightarrow> TestExecutionReport" where
  "parseCargo out err code =
     (let rep = close_report code (fold cargo_line (test_lines out) (start_report out err code))
      in rep\<lparr>te_summary_string := counts_summary ''Cargo: '' rep\<rparr>)"

paragraph \<open>Choice\<close>

definition parse_exit_only :: "string \<Rightarrow> string \<Rightarrow> int \<Rightarrow> TestExecutionReport" where
  "parse_exit_only out err code =
     (let tc = empty_case\<lparr>tc_suite_name := ''DefaultSuite'', tc_test_name := ''Execution'',
            tc_status := (if code = 0 then Test_Passed else Test_Failed),
            tc_failure_message := (if code \<noteq> 0 then if err = [] then out else err else [])\<rparr>
      in add_case tc ((start_report out err code)\<lparr>te_success := (code = 0), te_total_tests := 1,
           te_passed_tests := (if code = 0 then 1 else 0), te_failed_tests := (if code = 0 then 0 else 1)\<rparr>))"

definition parseOutput :: "string \<Rightarrow> string \<Rightarrow> int \<Rightarrow> string \<Rightarrow> TestExecutionReport" where
  "parseOutput stdout_str stderr_str code framework_hint =
     (let out = sanitizeUtf8 (stripAnsiCodes stdout_str); err = sanitizeUtf8 (stripAnsiCodes stderr_str); hint = lower framework_hint
      in if hint = ''gtest'' \<or> contains out ''[==========] Running'' \<or> contains out ''[ RUN      ]'' then parseGTest out err code
         else if hint = ''pytest'' \<or> contains out ''pytest'' \<or> contains out ''==== FAILURES ===='' \<or> contains out ''PASSED ['' then
           parsePytest out err code
         else if hint = ''jest'' \<or> contains out ''PASS '' \<or> contains out ''FAIL '' \<or> contains out ''Test Suites:'' then
           parseJest out err code
         else if hint = ''cargo'' \<or> contains out ''running '' \<and> contains out ''test result:'' then parseCargo out err code
         else parse_exit_only out err code)"

subsection \<open>Running\<close>

definition filtered_command :: "string \<Rightarrow> TestRunOptions \<Rightarrow> string" where
  "filtered_command cmd opts =
     (let f = to_filter_expression opts; hint = to_framework_hint opts
      in if f = [] then cmd
         else if hint = ''gtest'' \<or> contains cmd ''gtest'' then cmd @ '' --gtest_filter='' @ f
         else if hint = ''pytest'' \<or> contains cmd ''pytest'' then cmd @ '' -k '' @ f
         else if hint = ''jest'' \<or> contains cmd ''jest'' then cmd @ '' -t '' @ f
         else if hint = ''cargo'' \<or> contains cmd ''cargo'' then cmd @ '' '' @ f
         else cmd)"

text \<open>
  \<open>fgets\<close> with a buffer of \<open>n + 1\<close> bytes: up to \<open>n\<close> bytes, no further than the end of the line. Each chunk is appended up to its first zero byte.
\<close>

fun fgets_chunk :: "nat \<Rightarrow> string \<Rightarrow> string \<times> string" where
  "fgets_chunk 0 s = ([], s)"
| "fgets_chunk (Suc n) [] = ([], [])"
| "fgets_chunk (Suc n) (c # s) =
     (if c = newline then ([c], s) else case fgets_chunk n s of (chunk, rest) \<Rightarrow> (c # chunk, rest))"

lemma fgets_chunk_length: "fgets_chunk n s = (chunk, rest) \<Longrightarrow> length chunk + length rest = length s \<and> (chunk = [] \<longrightarrow> n = 0 \<or> s = [])"
  by (induction n s arbitrary: chunk rest rule: fgets_chunk.induct) (auto split: if_splits prod.splits)

function read_pipe :: "nat \<Rightarrow> string \<Rightarrow> string" where
  "read_pipe n s =
     (case fgets_chunk n s of
        (chunk, rest) \<Rightarrow> if chunk = [] then [] else takeWhile (\<lambda>c. c \<noteq> CHR 0x00) chunk @ read_pipe n rest)"
  by pat_completeness auto
termination
proof (relation "measure (length \<circ> snd)", goal_cases)
  case (2 n s chunk rest)
  then have "length chunk + length rest = length s" using fgets_chunk_length [of n s chunk rest] by simp
  with 2 show ?case by (cases chunk) auto
qed simp

declare read_pipe.simps [simp del]

text \<open>\<open>WEXITSTATUS\<close>.\<close>

definition wexitstatus :: "int \<Rightarrow> int" where
  "wexitstatus status = (status div 256) mod 256"

definition run_tests :: "(string \<Rightarrow> (string \<times> int) option) \<Rightarrow> int \<Rightarrow> int \<Rightarrow> string \<Rightarrow> TestRunOptions \<Rightarrow> TestExecutionReport TestingResult" where
  "run_tests popen start_time end_time command opts =
     (let cmd = filtered_command command opts
      in case popen cmd of
           None \<Rightarrow> Inl (''Failed to open pipe for command: '' @ cmd)
         | Some (out, status) \<Rightarrow>
             Inr ((parseOutput (read_pipe 255 out) [] (wexitstatus status) (to_framework_hint opts))
               \<lparr>te_command := cmd, te_working_directory := to_working_directory opts, te_total_duration := end_time - start_time\<rparr>))"

end
