(* ===== verification/Json_Value.thy ===== *)
theory Json_Value
  imports Prelude Complex_Main
begin

text \<open>
  The values of \<open>nlohmann::json\<close> and the documented behaviour of the accessors that the testing engine applies to a parsed value: each gives a
  value or the exception it throws. The text a value is parsed from is read by the library; \<open>parse\<close> is a parameter wherever it is called.
\<close>

datatype json = Json_Null | Json_Bool bool | Json_Int int | Json_Float real | Json_String string | Json_Array "json list"
  | Json_Object "(string \<times> json) list"

datatype json_error = Type_Error json | Number_Error string

fun member_of :: "json \<Rightarrow> string \<Rightarrow> json option" where
  "member_of (Json_Object m) k = map_of m k"
| "member_of _ k = None"

fun is_object :: "json \<Rightarrow> bool" where
  "is_object (Json_Object m) = True"
| "is_object _ = False"

fun object_items :: "json \<Rightarrow> (string \<times> json) list" where
  "object_items (Json_Object m) = m"
| "object_items _ = []"

text \<open>\<open>get<double>()\<close> and \<open>get<int>()\<close>: a number of the other kind is converted, an \<open>int\<close> keeps 32 bits and wraps around.\<close>

fun get_double :: "json \<Rightarrow> json_error + real" where
  "get_double (Json_Int i) = Inr (real_of_int i)"
| "get_double (Json_Float x) = Inr x"
| "get_double j = Inl (Type_Error j)"

definition to_int32 :: "int \<Rightarrow> int" where
  "to_int32 i = (i + 2 ^ 31) mod 2 ^ 32 - 2 ^ 31"

fun get_int :: "json \<Rightarrow> json_error + int" where
  "get_int (Json_Int i) = Inr (to_int32 i)"
| "get_int (Json_Float x) = Inr (to_int32 (if x < 0 then \<lceil>x\<rceil> else \<lfloor>x\<rfloor>))"
| "get_int (Json_Bool b) = Inr (if b then 1 else 0)"
| "get_int j = Inl (Type_Error j)"

fun get_string :: "json \<Rightarrow> json_error + string" where
  "get_string (Json_String s) = Inr s"
| "get_string j = Inl (Type_Error j)"

text \<open>\<open>j.value(k, d)\<close>, which is for objects only.\<close>

definition value_or :: "(json \<Rightarrow> json_error + 'a) \<Rightarrow> 'a \<Rightarrow> string \<Rightarrow> json \<Rightarrow> json_error + 'a" where
  "value_or get d k j =
     (if is_object j then case member_of j k of None \<Rightarrow> Inr d | Some v \<Rightarrow> get v else Inl (Type_Error j))"

definition and_on :: "json_error + 'a \<Rightarrow> ('a \<Rightarrow> json_error + 'b) \<Rightarrow> json_error + 'b" where
  "and_on r f = (case r of Inl e \<Rightarrow> Inl e | Inr x \<Rightarrow> f x)"

end
