(* ===== verification/Test_Generator.thy ===== *)
theory Test_Generator
  imports Test_Runner Json_Value
begin

text \<open>
  The generator of test files and the reader of build output (\<open>src/src/testing/TestGenerator.h\<close>, \<open>TestGenerator.cpp\<close>).

  \<^item> Writing a file is a step on a disk from paths to texts; whether the file can be opened is a parameter, as are the date and the time of the build
    and \<open>popen\<close> and the \<open>dump\<close> of a JSON value. Characters above 127 in messages are written as their bytes.
  \<^item> Three type names of the header are also used by the diagnostics engine, in another namespace; they have the suffix \<open>gen\<close> here.
\<close>

datatype DiagnosticSeverity_gen = Gen_Note | Gen_Warning | Gen_Error | Gen_Fatal

record CompilerDiagnostic =
  cd_file_path :: string
  cd_line :: int
  cd_column :: int
  cd_severity :: DiagnosticSeverity_gen
  cd_error_code :: string
  cd_message :: string
  cd_source_context :: string
  cd_suggested_fix :: string

definition empty_diagnostic :: CompilerDiagnostic where
  "empty_diagnostic = \<lparr>cd_file_path = [], cd_line = 0, cd_column = 0, cd_severity = Gen_Error, cd_error_code = [], cd_message = [],
     cd_source_context = [], cd_suggested_fix = []\<rparr>"

record DiagnosticsReport_gen =
  dg_has_errors :: bool
  dg_error_count :: nat
  dg_warning_count :: nat
  dg_diagnostics :: "CompilerDiagnostic list"
  dg_raw_output :: string

record ParsedSymbol =
  gs_qualified_name :: string
  gs_return_type :: string
  gs_param_types :: "string list"
  gs_file_path :: string
  gs_line :: int
  gs_is_method :: bool
  gs_class_name :: string

record GeneratedTestCase_gen =
  gc_test_suite_name :: string
  gc_test_name :: string
  gc_test_body :: string
  gc_include_headers :: "string list"
  gc_namespace_str :: string

record TestGenerationResult =
  tg_success :: bool
  tg_output_file_path :: string
  tg_test_cases :: "GeneratedTestCase_gen list"
  tg_error_message :: string

abbreviation dq :: string where
  "dq \<equiv> [CHR 0x22]"

abbreviation dash :: string where
  "dash \<equiv> [CHR 0xE2, CHR 0x80, CHR 0x94]"

subsection \<open>Reports\<close>

definition is_error :: "CompilerDiagnostic \<Rightarrow> bool" where
  "is_error d \<longleftrightarrow> cd_severity d = Gen_Error \<or> cd_severity d = Gen_Fatal"

definition report_errors :: "DiagnosticsReport_gen \<Rightarrow> CompilerDiagnostic list" where
  "report_errors r = filter is_error (dg_diagnostics r)"

definition report_warnings :: "DiagnosticsReport_gen \<Rightarrow> CompilerDiagnostic list" where
  "report_warnings r = filter (\<lambda>d. cd_severity d = Gen_Warning) (dg_diagnostics r)"

definition summary_line :: "CompilerDiagnostic \<Rightarrow> string" where
  "summary_line d =
     (if is_error d then
        ''  [ERROR] '' @ cd_file_path d @ '':'' @ int_string (cd_line d) @ (if cd_column d > 0 then '':'' @ int_string (cd_column d) else []) @
        '' '' @ dash @ '' '' @ cd_message d @ nl @
        (if cd_suggested_fix d \<noteq> [] then ''    '' @ [CHR 0xE2, CHR 0x86, CHR 0x92] @ '' Fix: '' @ cd_suggested_fix d @ nl else [])
      else [])"

definition toSummaryString :: "DiagnosticsReport_gen \<Rightarrow> string" where
  "toSummaryString r =
     ''Build '' @ (if dg_has_errors r then ''FAILED'' else ''SUCCEEDED'') @ '' '' @ dash @ '' '' @ nat_string (dg_error_count r) @ '' error(s), '' @
     nat_string (dg_warning_count r) @ '' warning(s)'' @ nl @ concat (map summary_line (dg_diagnostics r))"

subsection \<open>Test bodies\<close>

definition arg_placeholder :: "nat \<times> string \<Rightarrow> string" where
  "arg_placeholder it =
     (case it of (idx, t) \<Rightarrow>
        if contains t ''std::string'' \<or> contains t ''string_view'' then dq @ ''test_arg_'' @ nat_string idx @ dq
        else if contains t ''int'' \<or> contains t ''size_t'' \<or> contains t ''uint'' then ''0''
        else if contains t ''float'' \<or> contains t ''double'' then ''0.0f''
        else if contains t ''bool'' then ''false''
        else if contains t ''vector'' then ''{}''
        else ''/* '' @ t @ '' */'')"

fun join_commas :: "string list \<Rightarrow> string" where
  "join_commas [] = []"
| "join_commas [a] = a"
| "join_commas (a # as) = a @ '', '' @ join_commas as"

definition generateArgsPlaceholders :: "string list \<Rightarrow> string" where
  "generateArgsPlaceholders param_types = join_commas (map arg_placeholder (enumerate 0 param_types))"

definition generateReturnAssertion :: "string \<Rightarrow> string" where
  "generateReturnAssertion return_type =
     (if return_type = ''void'' then ''    // No return value to assert''
      else if return_type = ''bool'' then ''    // EXPECT_TRUE(result); or EXPECT_FALSE(result);''
      else if contains return_type ''string'' then ''    EXPECT_FALSE(result.empty());''
      else if contains return_type ''vector'' then ''    // EXPECT_FALSE(result.empty());''
      else if contains return_type ''optional'' then ''    // EXPECT_TRUE(result.has_value());''
      else if return_type = ''int'' \<or> return_type = ''size_t'' then ''    EXPECT_GE(result, 0);''
      else ''    // TODO: add assertions for return type '' @ return_type)"

text \<open>The name after the last \<open>::\<close>.\<close>

definition method_name :: "string \<Rightarrow> string" where
  "method_name qualified =
     (case List.find (\<lambda>i. prefix ''::'' (drop i qualified)) (rev [0..<Suc (length qualified)]) of
        None \<Rightarrow> qualified
      | Some n \<Rightarrow> drop (n + 2) qualified)"

definition generateTestBody :: "ParsedSymbol \<Rightarrow> string" where
  "generateTestBody x =
     (let args = generateArgsPlaceholders (gs_param_types x); void = (gs_return_type x = ''void'')
      in ''    // Arrange'' @ nl @
         (if gs_is_method x \<and> gs_class_name x \<noteq> [] then
            ''    '' @ gs_class_name x @ '' instance;'' @ nl @ nl @ ''    // Act'' @ nl @
            (if void then
               ''    instance.'' @ method_name (gs_qualified_name x) @ ''('' @ args @ '');'' @ nl @ nl @ ''    // Assert'' @ nl @ ''    // No crash expected'' @ nl
             else
               ''    auto result = instance.'' @ method_name (gs_qualified_name x) @ ''('' @ args @ '');'' @ nl @ nl @ ''    // Assert'' @ nl @
               generateReturnAssertion (gs_return_type x) @ nl)
          else
            ''    // Act'' @ nl @
            (if void then
               ''    '' @ gs_qualified_name x @ ''('' @ args @ '');'' @ nl @ nl @ ''    // Assert '' @ dash @ '' no crash expected'' @ nl
             else
               ''    auto result = '' @ gs_qualified_name x @ ''('' @ args @ '');'' @ nl @ nl @ ''    // Assert'' @ nl @
               generateReturnAssertion (gs_return_type x) @ nl)))"

definition test_name_char :: "char \<Rightarrow> char" where
  "test_name_char c = (if c = CHR '':'' \<or> c = CHR ''<'' \<or> c = CHR ''>'' \<or> c = CHR '' '' then CHR ''_'' else c)"

definition generateTestCase :: "string \<Rightarrow> ParsedSymbol \<Rightarrow> GeneratedTestCase_gen" where
  "generateTestCase suite_name x =
     \<lparr>gc_test_suite_name = suite_name, gc_test_name = map test_name_char (gs_qualified_name x) @ ''_BasicSanity'',
      gc_test_body = generateTestBody x, gc_include_headers = (if gs_file_path x \<noteq> [] then [gs_file_path x] else []),
      gc_namespace_str = ''aios''\<rparr>"

definition toupper :: "char \<Rightarrow> char" where
  "toupper c = (if islower c then char_of (code_of c - 32) else c)"

definition generateIncludeGuard :: "string \<Rightarrow> string" where
  "generateIncludeGuard suite_name = map toupper (''AIOS_AUTOGEN_'' @ suite_name @ ''_TEST_CPP'')"

fun include_loop :: "string list \<Rightarrow> string list \<Rightarrow> string" where
  "include_loop seen [] = []"
| "include_loop seen (hdr # hdrs) =
     (if hdr \<in> set seen then include_loop seen hdrs
      else ''#include '' @ dq @ hdr @ dq @ nl @ include_loop (seen @ [hdr]) hdrs)"

definition generateIncludes :: "GeneratedTestCase_gen list \<Rightarrow> string" where
  "generateIncludes cases = ''#include <gtest/gtest.h>'' @ nl @ include_loop [] (concat (map gc_include_headers cases))"

subsection \<open>Test files\<close>

definition test_block :: "GeneratedTestCase_gen \<Rightarrow> string" where
  "test_block tc = ''TEST('' @ gc_test_suite_name tc @ '', '' @ gc_test_name tc @ '') {'' @ nl @ gc_test_body tc @ ''}'' @ nl @ nl"

definition file_text_of :: "string \<Rightarrow> TestGenerationResult \<Rightarrow> string" where
  "file_text_of built result =
     ''// AUTO-GENERATED by AIOS TestGenerator '' @ dash @ '' do not edit manually'' @ nl @ ''// Generated: '' @ built @ nl @ nl @
     (if tg_test_cases result \<noteq> [] then generateIncludes (tg_test_cases result) @ nl else []) @
     concat (map test_block (tg_test_cases result))"

definition writeTestFile :: "(string \<Rightarrow> bool) \<Rightarrow> string \<Rightarrow> TestGenerationResult \<Rightarrow> (string \<rightharpoonup> string) \<Rightarrow> bool \<times> (string \<rightharpoonup> string)" where
  "writeTestFile can_open built result disk =
     (if \<not> can_open (tg_output_file_path result) then (False, disk)
      else (True, disk(tg_output_file_path result \<mapsto> file_text_of built result)))"

definition generateTests :: "(string \<Rightarrow> bool) \<Rightarrow> string \<Rightarrow> ParsedSymbol list \<Rightarrow> string \<Rightarrow> string \<Rightarrow> (string \<rightharpoonup> string) \<Rightarrow>
    TestGenerationResult \<times> (string \<rightharpoonup> string)" where
  "generateTests can_open built syms output_dir suite_name disk =
     (let empty = \<lparr>tg_success = False, tg_output_file_path = [], tg_test_cases = [], tg_error_message = []\<rparr>
      in if syms = [] then (empty\<lparr>tg_error_message := ''No symbols provided for test generation.''\<rparr>, disk)
         else
           let result = empty\<lparr>tg_test_cases := map (generateTestCase suite_name) syms,
                 tg_output_file_path := output_dir @ ''/'' @ lower (''test_autogen_'' @ suite_name @ ''.cpp'')\<rparr>
           in case writeTestFile can_open built result disk of
                (ok, disk') \<Rightarrow>
                  (result\<lparr>tg_success := ok,
                     tg_error_message := (if ok then [] else ''Failed to write test file: '' @ tg_output_file_path result)\<rparr>, disk'))"

subsection \<open>Diagnostics\<close>

definition parseSeverityToken :: "string \<Rightarrow> DiagnosticSeverity_gen" where
  "parseSeverityToken token =
     (if token = ''error'' then Gen_Error else if token = ''fatal'' then Gen_Fatal else if token = ''warning'' then Gen_Warning
      else if token = ''note'' then Gen_Note else Gen_Note)"

definition fix_table :: "(string list \<times> string) list" where
  "fix_table =
     [([''undeclared identifier'', ''was not declared''], ''Add missing #include or forward declaration.''),
      ([''no matching function'', ''no matching member function''], ''Check function signature / argument types.''),
      ([''unused variable'', ''unused parameter''], ''Prefix with (void) cast or ['' @ ''[maybe_unused]'' @ ''] attribute.''),
      ([''return type'', ''cannot convert''], ''Check return type / implicit conversion.''),
      ([''undefined reference'', ''unresolved external''], ''Add missing implementation or link library.''),
      ([''narrowing conversion''], ''Add explicit cast to resolve narrowing conversion.''),
      ([''multiple definition''], ''Move definition to .cpp or use inline keyword.'')]"

definition suggestFix :: "string \<Rightarrow> string" where
  "suggestFix message =
     (case List.find (\<lambda>(words, fix_text). list_ex (contains message) words) fix_table of None \<Rightarrow> [] | Some (words, fix_text) \<Rightarrow> fix_text)"

definition gcc_diag_regex :: regex where
  "gcc_diag_regex = Seqs [Line_Start, Group 1 (Plus_Re False Dot), Text '':'', Group 2 Digits, Text '':'', Group 3 Digits, Text '':'', Spaces,
     Group 4 (Alts [Text ''error'', Text ''warning'', Text ''note'', Text ''fatal error'']), Text '':'', Spaces, Group 5 (Plus_Re True Dot), Line_End]"

definition msvc_diag_regex :: regex where
  "msvc_diag_regex = Seqs [Line_Start, Group 1 (Plus_Re False Dot), Text ''('', Group 2 Digits, Text '')'', Spaces, Text '':'', Spaces,
     Group 3 (Alts [Text ''error'', Text ''warning'', Text ''note'']), Some_Spaces, Group 4 (Seq (Text ''C'') Digits), Spaces, Text '':'', Spaces,
     Group 5 (Plus_Re True Dot), Line_End]"

text \<open>\<open>None\<close>: \<open>std::stoi\<close> throws, which nothing here catches.\<close>

definition gcc_diagnostic :: "string \<Rightarrow> re_match \<Rightarrow> CompilerDiagnostic option" where
  "gcc_diagnostic out m =
     (case (stoi (group_of out m 2), stoi (group_of out m 3)) of
        (Some n, Some col) \<Rightarrow>
          Some (empty_diagnostic\<lparr>cd_file_path := group_of out m 1, cd_line := n, cd_column := col,
            cd_severity := parseSeverityToken (group_of out m 4), cd_message := group_of out m 5, cd_suggested_fix := suggestFix (group_of out m 5)\<rparr>)
      | _ \<Rightarrow> None)"

definition msvc_diagnostic :: "string \<Rightarrow> re_match \<Rightarrow> CompilerDiagnostic option" where
  "msvc_diagnostic out m =
     map_option (\<lambda>n. empty_diagnostic\<lparr>cd_file_path := group_of out m 1, cd_line := n, cd_severity := parseSeverityToken (group_of out m 3),
         cd_error_code := group_of out m 4, cd_message := group_of out m 5, cd_suggested_fix := suggestFix (group_of out m 5)\<rparr>)
       (stoi (group_of out m 2))"

definition add_diagnostic :: "(CompilerDiagnostic \<Rightarrow> bool) \<Rightarrow> CompilerDiagnostic \<Rightarrow> DiagnosticsReport_gen \<Rightarrow> DiagnosticsReport_gen" where
  "add_diagnostic err d r =
     (let r = (if err d then r\<lparr>dg_has_errors := True, dg_error_count := dg_error_count r + 1\<rparr>
               else if cd_severity d = Gen_Warning then r\<lparr>dg_warning_count := dg_warning_count r + 1\<rparr> else r)
      in r\<lparr>dg_diagnostics := dg_diagnostics r @ [d]\<rparr>)"

fun add_diagnostics :: "(CompilerDiagnostic \<Rightarrow> bool) \<Rightarrow> CompilerDiagnostic option list \<Rightarrow> DiagnosticsReport_gen \<Rightarrow> DiagnosticsReport_gen option" where
  "add_diagnostics err [] r = Some r"
| "add_diagnostics err (None # ds) r = None"
| "add_diagnostics err (Some d # ds) r = add_diagnostics err ds (add_diagnostic err d r)"

definition start_build_report :: "string \<Rightarrow> DiagnosticsReport_gen" where
  "start_build_report out = \<lparr>dg_has_errors = False, dg_error_count = 0, dg_warning_count = 0, dg_diagnostics = [], dg_raw_output = out\<rparr>"

definition parseGccClangOutput :: "string \<Rightarrow> DiagnosticsReport_gen option" where
  "parseGccClangOutput out = add_diagnostics is_error (map (gcc_diagnostic out) (all_matches out gcc_diag_regex 0)) (start_build_report out)"

definition parseMsvcOutput :: "string \<Rightarrow> DiagnosticsReport_gen option" where
  "parseMsvcOutput out =
     add_diagnostics (\<lambda>d. cd_severity d = Gen_Error) (map (msvc_diagnostic out) (all_matches out msvc_diag_regex 0)) (start_build_report out)"

definition parseDiagnostics :: "string \<Rightarrow> string \<Rightarrow> DiagnosticsReport_gen option" where
  "parseDiagnostics out compiler = (if compiler = ''msvc'' \<or> compiler = ''cl'' then parseMsvcOutput out else parseGccClangOutput out)"

definition exec_capture :: "(string \<Rightarrow> string option) \<Rightarrow> string \<Rightarrow> string" where
  "exec_capture popen cmd = (case popen (cmd @ '' 2>&1'') of None \<Rightarrow> [] | Some out \<Rightarrow> read_pipe 1023 out)"

definition buildAndCapture :: "(string \<Rightarrow> string option) \<Rightarrow> string \<Rightarrow> string \<Rightarrow> DiagnosticsReport_gen option" where
  "buildAndCapture popen build_command working_dir =
     (let cmd = (if working_dir \<noteq> [] then ''cd '' @ dq @ working_dir @ dq @ '' && '' @ build_command else build_command);
          out = exec_capture popen cmd
      in parseDiagnostics out (if contains out '': error C'' \<or> contains out '': warning C'' then ''msvc'' else ''gcc''))"

text \<open>The value that is dumped; the library keeps the members of an object in the order of their names.\<close>

definition action_of :: "CompilerDiagnostic \<Rightarrow> json" where
  "action_of d = Json_Object
     [(''column'', Json_Int (cd_column d)), (''context'', Json_String (cd_source_context d)), (''error'', Json_String (cd_message d)),
      (''error_code'', Json_String (cd_error_code d)), (''file'', Json_String (cd_file_path d)), (''fix'', Json_String (cd_suggested_fix d)),
      (''line'', Json_Int (cd_line d)), (''type'', Json_String ''fix_compiler_error'')]"

definition remediation_value :: "DiagnosticsReport_gen \<Rightarrow> json" where
  "remediation_value r = Json_Object
     [(''actions'', Json_Array (map action_of (filter is_error (dg_diagnostics r)))), (''error_count'', Json_Int (int (dg_error_count r))),
      (''has_errors'', Json_Bool (dg_has_errors r)), (''warning_count'', Json_Int (int (dg_warning_count r)))]"

text \<open>\<open>dump\<close> throws for a text that is not UTF-8 (\<open>None\<close>).\<close>

definition toRemediationActions :: "(json \<Rightarrow> string option) \<Rightarrow> DiagnosticsReport_gen \<Rightarrow> string option" where
  "toRemediationActions dump r = dump (remediation_value r)"

end
