(* ===== verification/Regex_Patterns.thy ===== *)
theory Regex_Patterns
  imports Regex_Laws
begin

text \<open>
  What the building blocks of expressions match: fixed words, optional parts, numbers; and what a successful \<open>regex_match\<close> derives.
\<close>

lemma regex_match_derives: "regex_match s r = Some m \<Longrightarrow> \<exists>c. m = (0, length s, c) \<and> derives s r 0 [] (length s) c"
  using rematch_derives [of _ _ s r 0 "[]"]
  by (fastforce simp: regex_match_def filter_eq_Cons_iff split: list.splits)

lemma Text_Any_captures: "derives s (Text_Any t) i c j d \<Longrightarrow> d = c"
  by (induction t arbitrary: i rule: Text_Any.induct) (auto simp: derives_Seq)

lemma derives_Opt: "derives s (Opt r) i c j d \<longleftrightarrow> derives s r i c j d \<or> (j = i \<and> d = c)"
  by (auto simp: Opt_def)

lemma derives_Digits: "derives s Digits i c j d \<longleftrightarrow> d = c \<and> i < j \<and> j \<le> length s \<and> list_all isdigit (slice s i j)"
proof -
  have "derives s Digits i c j d \<longleftrightarrow> d = c \<and> i < j \<and> (\<forall>k. i \<le> k \<and> k < j \<longrightarrow> k < length s \<and> isdigit (s ! k))"
    by (auto simp: Plus_Re_def derives_Seq derives_Many_One Suc_le_eq) (metis Suc_leI le_eq_less_or_eq)+
  also have "\<dots> \<longleftrightarrow> d = c \<and> i < j \<and> j \<le> length s \<and> list_all isdigit (slice s i j)"
  proof (cases "i < j")
    case True
    have "(\<forall>k. i \<le> k \<and> k < j \<longrightarrow> k < length s \<and> isdigit (s ! k)) \<longleftrightarrow> j \<le> length s \<and> (\<forall>k < j - i. isdigit (s ! (i + k)))"
    proof
      assume a: "\<forall>k. i \<le> k \<and> k < j \<longrightarrow> k < length s \<and> isdigit (s ! k)"
      have "i \<le> j - 1 \<and> j - 1 < j" using True by simp
      with a have "j - 1 < length s" by blast
      then have "j \<le> length s" by linarith
      with a True show "j \<le> length s \<and> (\<forall>k < j - i. isdigit (s ! (i + k)))" by auto
    next
      assume a: "j \<le> length s \<and> (\<forall>k < j - i. isdigit (s ! (i + k)))"
      show "\<forall>k. i \<le> k \<and> k < j \<longrightarrow> k < length s \<and> isdigit (s ! k)"
      proof (intro allI impI)
        fix k assume k: "i \<le> k \<and> k < j"
        with a have "isdigit (s ! (i + (k - i)))" by (metis diff_less_mono)
        with a k show "k < length s \<and> isdigit (s ! k)" by simp
      qed
    qed
    then show ?thesis using True by (auto simp: slice_def list_all_length min_def)
  qed simp
  finally show ?thesis .
qed

lemma derives_Word: "derives s (Text t) i c j d \<Longrightarrow> d = c \<and> slice s i j = t"
proof -
  assume a: "derives s (Text t) i c j d"
  then have j: "d = c" "j = i + length t" "\<And>k. k < length t \<Longrightarrow> i + k < length s \<and> s ! (i + k) = t ! k"
    unfolding derives_Text by blast+
  have "length t \<le> length s - i" if "t \<noteq> []"
    using j(3) [of "length t - 1"] that by (cases t) auto
  then have "length (slice s i j) = length t" by (cases "t = []") (simp_all add: slice_def j(2))
  moreover have "slice s i j ! k = t ! k" if "k < length t" for k using j(3) [OF that] that by (simp add: slice_def j(2))
  ultimately show ?thesis using j(1) by (auto intro: nth_equalityI)
qed

text \<open>The groups of an expression; a capture is a match of the group it belongs to.\<close>

fun groups_of :: "regex \<Rightarrow> (nat \<times> regex) set" where
  "groups_of (Seq r q) = groups_of r \<union> groups_of q"
| "groups_of (Alt r q) = groups_of r \<union> groups_of q"
| "groups_of (Many g r) = groups_of r"
| "groups_of (Group n r) = insert (n, r) (groups_of r)"
| "groups_of _ = {}"

lemma captured:
  "derives s r i c j d \<Longrightarrow> map_of d n = Some (k, l) \<Longrightarrow>
     map_of c n = Some (k, l) \<or> (\<exists>q a b. (n, q) \<in> groups_of r \<and> derives s q k a l b)"
proof (induction rule: derives.induct)
  case (derives_group r i c j d m)
  then show ?case by (cases "m = n") (auto simp: update_conv')
qed auto

lemma group_matched:
  assumes "derives s r i [] j (snd (snd m))" "\<And>q. (n, q) \<in> groups_of r \<Longrightarrow> q = p"
  shows "group_of s m n = [] \<or> (\<exists>k l a b. group_of s m n = slice s k l \<and> derives s p k a l b)"
proof (cases "map_of (snd (snd m)) n")
  case (Some kl)
  obtain k l where kl: "kl = (k, l)" by (cases kl)
  with captured [OF assms(1), of n k l] Some assms(2) have "\<exists>a b. derives s p k a l b" by auto
  with Some kl show ?thesis by (auto simp: group_of_def)
qed (simp add: group_of_def)

end
