(* ===== verification/Test_Generator_Properties.thy ===== *)
theory Test_Generator_Properties
  imports Test_Generator Regex_Patterns
begin











subsection \<open>Generated tests\<close>

text \<open>
  A generated test file defines a test twice exactly when two symbols have the same name up to colons, angle brackets and spaces;
  overloads of a function always have, since the parameters do not enter the name.
\<close>

theorem test_names_distinct_iff:
  "distinct (map gc_test_name (tg_test_cases (fst (generateTests can_open built syms dir suite disk)))) \<longleftrightarrow>
     distinct (map (\<lambda>x. map test_name_char (gs_qualified_name x)) syms)"
proof -
  have cases: "tg_test_cases (fst (generateTests can_open built syms dir suite disk)) = map (generateTestCase suite) syms"
    by (simp add: generateTests_def Let_def split: prod.split)
  have names: "map gc_test_name (map (generateTestCase suite) syms) =
      map (\<lambda>n. n @ ''_BasicSanity'') (map (\<lambda>x. map test_name_char (gs_qualified_name x)) syms)"
    by (simp add: generateTestCase_def)
  have "distinct (map (\<lambda>n. n @ ''_BasicSanity'') ns) = distinct ns" for ns :: "string list" by (simp add: distinct_map inj_on_def)
  then show ?thesis unfolding cases names by blast
qed

end
