(* ===== verification/Coverage_Analyzer.thy ===== *)
theory Coverage_Analyzer
  imports Test_Types Json_Value
begin

text \<open>
  The analysis of coverage reports (\<open>src/src/testing/CoverageAnalyzer.h\<close>, \<open>CoverageAnalyzer.cpp\<close>): three formats, the lines
  that are not covered, and the gate on percentages.

  \<^item> Percentages are reals, \<open>std::stod\<close> gives the exact value of a decimal; rounding and the range of \<open>double\<close> are left out.
    Sums of sizes wrap around at 64 bits, as a report may give any size.
  \<^item> \<open>nlohmann::json::parse\<close> is a parameter that gives a value of \<open>Json_Value\<close> or the message of its exception. The messages of the
    exceptions of the accessors are a parameter as well.
\<close>

definition add64 :: "nat \<Rightarrow> nat \<Rightarrow> nat" where
  "add64 a b = (a + b) mod 2 ^ 64"

definition percent :: "nat \<Rightarrow> nat \<Rightarrow> real" where
  "percent covered all = real covered / real all * 100"

subsection \<open>Lines that are not covered\<close>

text \<open>The start and the previous line of the open range; \<open>-1\<close> stands for none.\<close>

fun range_loop :: "(int, int) umap \<Rightarrow> int list \<Rightarrow> int \<Rightarrow> int \<Rightarrow> LineRange list \<Rightarrow> LineRange list" where
  "range_loop hits [] range_start prev_line rs =
     (if range_start \<noteq> -1 then rs @ [\<lparr>lr_start_line = range_start, lr_end_line = prev_line\<rparr>] else rs)"
| "range_loop hits (l # ls) range_start prev_line rs =
     (if um_get 0 hits l = 0 then
        if range_start = -1 then range_loop hits ls l l rs
        else if l = prev_line + 1 then range_loop hits ls range_start l rs
        else range_loop hits ls l l (rs @ [\<lparr>lr_start_line = range_start, lr_end_line = prev_line\<rparr>])
      else if range_start \<noteq> -1 then range_loop hits ls (-1) (-1) (rs @ [\<lparr>lr_start_line = range_start, lr_end_line = prev_line\<rparr>])
      else range_loop hits ls range_start prev_line rs)"

definition computeUncoveredRanges :: "(int, int) umap \<Rightarrow> FileCoverage \<Rightarrow> FileCoverage" where
  "computeUncoveredRanges hits fc =
     (if hits = [] then fc
      else fc\<lparr>fc_uncovered_line_ranges := range_loop hits (sort (um_keys hits)) (-1) (-1) (fc_uncovered_line_ranges fc)\<rparr>)"

definition line_percent :: "FileCoverage \<Rightarrow> FileCoverage" where
  "line_percent fc =
     (if fc_total_lines fc > 0 then fc\<lparr>fc_line_coverage_percent := percent (fc_covered_lines fc) (fc_total_lines fc)\<rparr> else fc)"

definition count_line :: "int \<Rightarrow> FileCoverage \<Rightarrow> FileCoverage" where
  "count_line hits fc =
     fc\<lparr>fc_total_lines := add64 (fc_total_lines fc) 1,
        fc_covered_lines := (if hits > 0 then add64 (fc_covered_lines fc) 1 else fc_covered_lines fc)\<rparr>"

subsection \<open>LCOV\<close>

record lcov_state =
  lv_file :: string
  lv_fc :: FileCoverage
  lv_hits :: "(int, int) umap"
  lv_covered_lines :: nat
  lv_lines :: nat
  lv_covered_branches :: nat
  lv_branches :: nat
  lv_covered_funcs :: nat
  lv_funcs :: nat
  lv_files :: "(string, FileCoverage) umap"

definition lcov_start :: lcov_state where
  "lcov_start = \<lparr>lv_file = [], lv_fc = empty_coverage, lv_hits = [], lv_covered_lines = 0, lv_lines = 0, lv_covered_branches = 0,
     lv_branches = 0, lv_covered_funcs = 0, lv_funcs = 0, lv_files = []\<rparr>"

definition lcov_data :: "string \<Rightarrow> lcov_state \<Rightarrow> lcov_state" where
  "lcov_data line s =
     (case find_text (drop 3 line) '','' of
        None \<Rightarrow> s
      | Some n \<Rightarrow>
          (case (stoi (take n (drop 3 line)), stoi (drop (3 + n + 1) line)) of
             (Some line_num, Some hits) \<Rightarrow> s\<lparr>lv_hits := AList.update line_num hits (lv_hits s), lv_fc := count_line hits (lv_fc s)\<rparr>
           | _ \<Rightarrow> s))"

definition lcov_number :: "nat \<Rightarrow> string \<Rightarrow> ((nat \<Rightarrow> nat) \<Rightarrow> FileCoverage \<Rightarrow> FileCoverage) \<Rightarrow> lcov_state \<Rightarrow> lcov_state" where
  "lcov_number k line upd s =
     (case stoull (drop k line) of None \<Rightarrow> s | Some n \<Rightarrow> s\<lparr>lv_fc := upd (\<lambda>_. n) (lv_fc s)\<rparr>)"

definition lcov_branch :: "string \<Rightarrow> lcov_state \<Rightarrow> lcov_state" where
  "lcov_branch line s =
     (case rfind_char line CHR '','' of
        None \<Rightarrow> s
      | Some n \<Rightarrow>
          let taken = drop (n + 1) line; fc = (lv_fc s)\<lparr>fc_total_branches := add64 (fc_total_branches (lv_fc s)) 1\<rparr>
          in s\<lparr>lv_fc := (if taken \<noteq> ''-'' \<and> taken \<noteq> ''0'' then fc\<lparr>fc_covered_branches := add64 (fc_covered_branches fc) 1\<rparr> else fc)\<rparr>)"

definition file_percents :: "FileCoverage \<Rightarrow> FileCoverage" where
  "file_percents fc0 =
     (let fc1 = line_percent fc0;
          fc2 = (if fc_total_branches fc1 > 0 then fc1\<lparr>fc_branch_coverage_percent := percent (fc_covered_branches fc1) (fc_total_branches fc1)\<rparr> else fc1)
      in if fc_total_functions fc2 > 0 then fc2\<lparr>fc_function_coverage_percent := percent (fc_covered_functions fc2) (fc_total_functions fc2)\<rparr> else fc2)"

definition lcov_end :: "lcov_state \<Rightarrow> lcov_state" where
  "lcov_end s =
     (if lv_file s = [] then s
      else let fc = computeUncoveredRanges (lv_hits s) (file_percents (lv_fc s))
           in s\<lparr>lv_fc := fc, lv_lines := add64 (lv_lines s) (fc_total_lines fc), lv_covered_lines := add64 (lv_covered_lines s) (fc_covered_lines fc),
                lv_branches := add64 (lv_branches s) (fc_total_branches fc), lv_covered_branches := add64 (lv_covered_branches s) (fc_covered_branches fc),
                lv_funcs := add64 (lv_funcs s) (fc_total_functions fc), lv_covered_funcs := add64 (lv_covered_funcs s) (fc_covered_functions fc),
                lv_files := AList.update (lv_file s) fc (lv_files s), lv_file := []\<rparr>)"

definition lcov_line :: "string \<Rightarrow> lcov_state \<Rightarrow> lcov_state" where
  "lcov_line line s =
     (if starts_with line ''SF:'' then
        s\<lparr>lv_file := drop 3 line, lv_fc := empty_coverage\<lparr>fc_file_path := drop 3 line\<rparr>, lv_hits := []\<rparr>
      else if starts_with line ''DA:'' then lcov_data line s
      else if starts_with line ''LF:'' then lcov_number 3 line fc_total_lines_update s
      else if starts_with line ''LH:'' then lcov_number 3 line fc_covered_lines_update s
      else if starts_with line ''FNF:'' then lcov_number 4 line fc_total_functions_update s
      else if starts_with line ''FNH:'' then lcov_number 4 line fc_covered_functions_update s
      else if starts_with line ''BRF:'' then lcov_number 4 line fc_total_branches_update s
      else if starts_with line ''BRH:'' then lcov_number 4 line fc_covered_branches_update s
      else if starts_with line ''BRDA:'' then lcov_branch line s
      else if starts_with line ''end_of_record'' then lcov_end s
      else s)"

definition percent_or_zero :: "nat \<Rightarrow> nat \<Rightarrow> real" where
  "percent_or_zero covered all = (if all > 0 then percent covered all else 0)"

definition lcov_report :: "lcov_state \<Rightarrow> CoverageReport" where
  "lcov_report s =
     \<lparr>cr_overall_line_coverage = percent_or_zero (lv_covered_lines s) (lv_lines s),
      cr_overall_branch_coverage = percent_or_zero (lv_covered_branches s) (lv_branches s),
      cr_overall_function_coverage = percent_or_zero (lv_covered_funcs s) (lv_funcs s),
      cr_total_lines = lv_lines s, cr_covered_lines = lv_covered_lines s, cr_files = lv_files s, cr_format = ''lcov''\<rparr>"

definition parseLcovInfo :: "string \<Rightarrow> CoverageReport TestingResult" where
  "parseLcovInfo content =
     (let lines = test_lines content
      in if lines = [] then Inl ''Empty LCOV coverage content'' else Inr (lcov_report (fold lcov_line lines lcov_start)))"

subsection \<open>Cobertura\<close>

definition quote_char :: "char \<Rightarrow> bool" where
  "quote_char c \<longleftrightarrow> c = CHR 0x22 \<or> c = CHR 0x27"

definition Attribute :: "string \<Rightarrow> nat \<Rightarrow> (char \<Rightarrow> bool) \<Rightarrow> regex" where
  "Attribute name n p = Seqs [Many True (One (none_of ''>'')), Text (name @ ''=''), One quote_char, Group n (Plus_Re True (One p)), One quote_char]"

definition root_regex :: regex where
  "root_regex = Seqs [Text ''<coverage'', Attribute ''line-rate'' 1 (\<lambda>c. isdigit c \<or> c = CHR ''.''),
     Attribute ''branch-rate'' 2 (\<lambda>c. isdigit c \<or> c = CHR ''.'')]"

definition cobertura_class_regex :: regex where
  "cobertura_class_regex = Seqs [Text ''<class'', Attribute ''filename'' 1 (\<lambda>c. \<not> quote_char c), Many True (One (none_of ''>'')), Text ''>'',
     Group 2 (Many False (One (\<lambda>_. True))), Text ''</class>'']"

definition cobertura_line_regex :: regex where
  "cobertura_line_regex = Seqs [Text ''<line'', Attribute ''number'' 1 isdigit, Attribute ''hits'' 2 isdigit]"

text \<open>\<open>std::stod\<close> of digits and dots: digits, a dot, digits; it throws without a digit.\<close>

definition stod_plain :: "string \<Rightarrow> real option" where
  "stod_plain s =
     (let whole = takeWhile isdigit s; rest = dropWhile isdigit s;
          frac = (case rest of c # r \<Rightarrow> if c = CHR ''.'' then takeWhile isdigit r else [] | [] \<Rightarrow> [])
      in if whole = [] \<and> frac = [] then None
         else Some (real_of_int (digits_value whole) + real_of_int (digits_value frac) / 10 ^ length frac))"

definition cobertura_rates :: "string \<Rightarrow> CoverageReport \<Rightarrow> CoverageReport" where
  "cobertura_rates xml rep =
     (case regex_search xml root_regex of
        None \<Rightarrow> rep
      | Some m \<Rightarrow>
          (case stod_plain (group_of xml m 1) of
             None \<Rightarrow> rep
           | Some x \<Rightarrow>
               let rep = rep\<lparr>cr_overall_line_coverage := x * 100\<rparr>
               in (case stod_plain (group_of xml m 2) of None \<Rightarrow> rep | Some y \<Rightarrow> rep\<lparr>cr_overall_branch_coverage := y * 100\<rparr>)))"

text \<open>\<open>None\<close>: \<open>std::stoi\<close> throws, which nothing here catches.\<close>

fun cobertura_lines :: "string \<Rightarrow> re_match list \<Rightarrow> (int, int) umap \<Rightarrow> FileCoverage \<Rightarrow> ((int, int) umap \<times> FileCoverage) option" where
  "cobertura_lines body [] hits fc = Some (hits, fc)"
| "cobertura_lines body (m # ms) hits fc =
     (case (stoi (group_of body m 1), stoi (group_of body m 2)) of
        (Some line_num, Some h) \<Rightarrow> cobertura_lines body ms (AList.update line_num h hits) (count_line h fc)
      | _ \<Rightarrow> None)"

definition cobertura_file :: "string \<Rightarrow> re_match \<Rightarrow> FileCoverage option" where
  "cobertura_file xml m =
     (let body = group_of xml m 2
      in map_option (\<lambda>(hits, fc). computeUncoveredRanges hits (line_percent fc))
           (cobertura_lines body (all_matches body cobertura_line_regex 0) [] (empty_coverage\<lparr>fc_file_path := group_of xml m 1\<rparr>)))"

definition enter_coverage :: "FileCoverage \<Rightarrow> CoverageReport \<Rightarrow> CoverageReport" where
  "enter_coverage fc rep =
     rep\<lparr>cr_files := AList.update (fc_file_path fc) fc (cr_files rep), cr_total_lines := add64 (cr_total_lines rep) (fc_total_lines fc),
         cr_covered_lines := add64 (cr_covered_lines rep) (fc_covered_lines fc)\<rparr>"

fun cobertura_files :: "string \<Rightarrow> re_match list \<Rightarrow> CoverageReport \<Rightarrow> CoverageReport option" where
  "cobertura_files xml [] rep = Some rep"
| "cobertura_files xml (m # ms) rep =
     (case cobertura_file xml m of None \<Rightarrow> None | Some fc \<Rightarrow> cobertura_files xml ms (enter_coverage fc rep))"

definition overall_lines :: "CoverageReport \<Rightarrow> CoverageReport" where
  "overall_lines rep =
     (if cr_overall_line_coverage rep = 0 \<and> cr_total_lines rep > 0
      then rep\<lparr>cr_overall_line_coverage := percent (cr_covered_lines rep) (cr_total_lines rep)\<rparr> else rep)"

definition parseCoberturaXml :: "string \<Rightarrow> CoverageReport TestingResult option" where
  "parseCoberturaXml xml =
     (if xml = [] then Some (Inl ''Empty Cobertura XML content'')
      else map_option (\<lambda>rep. Inr (overall_lines rep))
             (cobertura_files xml (all_matches xml cobertura_class_regex 0) (cobertura_rates xml (empty_coverage_report\<lparr>cr_format := ''cobertura''\<rparr>))))"

subsection \<open>JSON\<close>

definition size_of_int :: "int \<Rightarrow> nat" where
  "size_of_int i = nat (i mod 2 ^ 64)"

fun json_statements :: "(string \<times> json) list \<Rightarrow> (int, int) umap \<Rightarrow> FileCoverage \<Rightarrow> json_error + (int, int) umap \<times> FileCoverage" where
  "json_statements [] hits fc = Inr (hits, fc)"
| "json_statements ((stmt_id, v) # items) hits fc =
     and_on (get_int v) (\<lambda>h. case stoi stmt_id of
         None \<Rightarrow> Inl (Number_Error stmt_id)
       | Some n \<Rightarrow> json_statements items (AList.update (to_int32 (n + 1)) h hits) (count_line h fc))"

definition json_lines :: "json \<Rightarrow> FileCoverage \<Rightarrow> json_error + FileCoverage" where
  "json_lines l fc =
     and_on (value_or get_int 0 ''total'' l) (\<lambda>t. and_on (value_or get_int 0 ''covered'' l) (\<lambda>c. and_on (value_or get_double 0 ''pct'' l) (\<lambda>p.
       Inr (fc\<lparr>fc_total_lines := size_of_int t, fc_covered_lines := size_of_int c, fc_line_coverage_percent := p\<rparr>))))"

definition json_file :: "string \<Rightarrow> json \<Rightarrow> json_error + FileCoverage" where
  "json_file key obj =
     and_on (value_or get_string key ''path'' obj) (\<lambda>path.
       let fc = empty_coverage\<lparr>fc_file_path := path\<rparr>
       in and_on
            (case (member_of obj ''s'', member_of obj ''lines'') of
               (Some (Json_Object m), _) \<Rightarrow> json_statements m [] fc
             | (_, Some (Json_Object m)) \<Rightarrow> and_on (json_lines (Json_Object m) fc) (\<lambda>fc. Inr ([], fc))
             | _ \<Rightarrow> Inr ([], fc))
            (\<lambda>(hits, fc). Inr (computeUncoveredRanges hits (if fc_line_coverage_percent fc = 0 then line_percent fc else fc))))"

definition json_total :: "json \<Rightarrow> CoverageReport \<Rightarrow> json_error + CoverageReport" where
  "json_total obj rep =
     and_on (case member_of obj ''lines'' of
               None \<Rightarrow> Inr rep
             | Some l \<Rightarrow> (case member_of l ''pct'' of None \<Rightarrow> Inr rep
                 | Some p \<Rightarrow> and_on (get_double p) (\<lambda>x. Inr (rep\<lparr>cr_overall_line_coverage := x\<rparr>))))
       (\<lambda>rep. case member_of obj ''branches'' of
               None \<Rightarrow> Inr rep
             | Some l \<Rightarrow> (case member_of l ''pct'' of None \<Rightarrow> Inr rep
                 | Some p \<Rightarrow> and_on (get_double p) (\<lambda>x. Inr (rep\<lparr>cr_overall_branch_coverage := x\<rparr>))))"

definition json_item :: "string \<Rightarrow> json \<Rightarrow> CoverageReport \<Rightarrow> json_error + CoverageReport" where
  "json_item key obj rep =
     (if key = ''total'' \<and> member_of obj ''lines'' \<noteq> None then json_total obj rep
      else if is_object obj \<and> (member_of obj ''statementMap'' \<noteq> None \<or> member_of obj ''s'' \<noteq> None \<or> member_of obj ''lines'' \<noteq> None) then
        and_on (json_file key obj) (\<lambda>fc. Inr (enter_coverage fc rep))
      else Inr rep)"

fun json_items :: "(string \<times> json) list \<Rightarrow> CoverageReport \<Rightarrow> json_error + CoverageReport" where
  "json_items [] rep = Inr rep"
| "json_items ((key, obj) # items) rep = and_on (json_item key obj rep) (json_items items)"

definition parseJsonCoverage :: "(string \<Rightarrow> string + json) \<Rightarrow> (json_error \<Rightarrow> string) \<Rightarrow> string \<Rightarrow> CoverageReport TestingResult" where
  "parseJsonCoverage parse what content =
     (case parse content of
        Inl message \<Rightarrow> Inl (''Failed to parse JSON coverage: '' @ message)
      | Inr doc \<Rightarrow>
          (case json_items (object_items doc) (empty_coverage_report\<lparr>cr_format := ''json''\<rparr>) of
             Inl e \<Rightarrow> Inl (''Failed to parse JSON coverage: '' @ what e)
           | Inr rep \<Rightarrow> Inr (overall_lines rep)))"

subsection \<open>The gate\<close>

definition deficit :: "real \<Rightarrow> real \<Rightarrow> FileCoverage \<Rightarrow> bool" where
  "deficit min_line_pct min_branch_pct fc \<longleftrightarrow>
     fc_total_lines fc > 0 \<and> fc_line_coverage_percent fc < min_line_pct \<or>
     fc_total_branches fc > 0 \<and> fc_branch_coverage_percent fc < min_branch_pct"

definition checkThresholds :: "CoverageReport \<Rightarrow> real \<Rightarrow> real \<Rightarrow> CoverageGateResult" where
  "checkThresholds rep min_line_pct min_branch_pct =
     (let deficits = map fst (filter (\<lambda>(path, fc). deficit min_line_pct min_branch_pct fc) (cr_files rep))
      in \<lparr>cg_passed = (cr_overall_line_coverage rep \<ge> min_line_pct \<and> cr_overall_branch_coverage rep \<ge> min_branch_pct \<and> deficits = []),
          cg_required_line_percent = min_line_pct, cg_actual_line_percent = cr_overall_line_coverage rep,
          cg_required_branch_percent = min_branch_pct, cg_actual_branch_percent = cr_overall_branch_coverage rep,
          cg_deficit_files = deficits\<rparr>)"

end
