(* ===== verification/Test_Runner_Properties.thy ===== *)
theory Test_Runner_Properties
  imports Test_Runner
begin

text \<open>
  What a report of tests stands for: its counts and its verdict, the reader of Google Test output as an inverse of the printer, the
  cleaning of bytes, and runs that end by a signal.
\<close>

subsection \<open>Counts\<close>

definition status_count :: "TestStatus \<Rightarrow> TestExecutionReport \<Rightarrow> nat" where
  "status_count x rep = length (filter (\<lambda>tc. tc_status tc = x) (te_test_cases rep))"

definition counted :: "TestExecutionReport \<Rightarrow> bool" where
  "counted rep \<longleftrightarrow> te_failed_tests rep = status_count Test_Failed rep \<and> te_skipped_tests rep = status_count Test_Skipped rep \<and>
     te_passed_tests rep \<le> status_count Test_Passed rep \<and>
     list_all (\<lambda>tc. tc_status tc \<in> {Test_Passed, Test_Failed, Test_Skipped}) (te_test_cases rep)"

named_theorems report_defs

lemmas [report_defs] = counted_def status_count_def add_case_def add_passed_def add_failed_def add_skipped_def start_report_def
  empty_report_def empty_case_def close_report_def

lemma counted_start [simp]: "counted (start_report out err code)"
  by (simp add: report_defs)

lemma counted_add:
  "counted rep \<Longrightarrow> tc_status tc = Test_Passed \<Longrightarrow> counted (add_case tc rep)"
  "counted rep \<Longrightarrow> tc_status tc = Test_Passed \<Longrightarrow> counted (add_passed tc rep)"
  "counted rep \<Longrightarrow> tc_status tc = Test_Failed \<Longrightarrow> counted (add_failed tc rep)"
  "counted rep \<Longrightarrow> tc_status tc = Test_Skipped \<Longrightarrow> counted (add_skipped tc rep)"
  by (simp_all add: report_defs)

lemma gtest_error_fields [simp]:
  "tc_status (gtest_error l tc) = tc_status tc" "tc_suite_name (gtest_error l tc) = tc_suite_name tc"
  "tc_test_name (gtest_error l tc) = tc_test_name tc" "tc_duration (gtest_error l tc) = tc_duration tc"
  "tc_failure_message (gtest_error l tc) = tc_failure_message tc"
  by (simp_all add: gtest_error_def split: option.split)

lemma gtest_start_status [simp]: "tc_status (gtest_start l tc) = Test_Passed"
  by (simp add: gtest_start_def Let_def split: prod.split)

lemma gtest_line_counted:
  assumes "counted (gt_rep s) \<and> (gt_in_test s \<longrightarrow> tc_status (gt_current s) = Test_Passed)"
  shows "counted (gt_rep (gtest_line l s)) \<and> (gt_in_test (gtest_line l s) \<longrightarrow> tc_status (gt_current (gtest_line l s)) = Test_Passed)"
  using assms by (auto simp: gtest_line_def Let_def counted_add split: option.split)

lemma fold_keeps: "(\<And>x s. P s \<Longrightarrow> P (f x s)) \<Longrightarrow> P s \<Longrightarrow> P (fold f xs s)"
  by (induction xs arbitrary: s) auto

lemma gtest_fold_counted:
  "counted (gt_rep s) \<and> (gt_in_test s \<longrightarrow> tc_status (gt_current s) = Test_Passed) \<Longrightarrow> counted (gt_rep (fold gtest_line ls s))"
  using fold_keeps [of "\<lambda>s. counted (gt_rep s) \<and> (gt_in_test s \<longrightarrow> tc_status (gt_current s) = Test_Passed)" gtest_line s ls] gtest_line_counted
  by blast

lemma pytest_line_counted: "counted rep \<Longrightarrow> counted (pytest_line l rep)"
  by (auto simp: pytest_line_def Let_def counted_add empty_case_def split: option.split)

lemma jest_line_counted: "counted rep \<Longrightarrow> counted (jest_line l rep)"
  by (auto simp: jest_line_def Let_def counted_add)

lemma cargo_line_counted: "counted rep \<Longrightarrow> counted (cargo_line l rep)"
  by (auto simp: cargo_line_def Let_def counted_add)

text \<open>A closed report, whatever its summary.\<close>

definition verdict :: "int \<Rightarrow> TestExecutionReport \<Rightarrow> bool" where
  "verdict code rep \<longleftrightarrow> counted rep \<and> te_total_tests rep = length (te_test_cases rep) \<and>
     (te_success rep \<longleftrightarrow> code = 0 \<and> te_failed_tests rep = 0)"

lemma verdict_close: "counted rep \<Longrightarrow> verdict code ((close_report code rep)\<lparr>te_summary_string := t\<rparr>)"
  by (auto simp: verdict_def report_defs)

lemma verdict_exit_only: "verdict code (parse_exit_only out err code)"
  by (simp add: verdict_def parse_exit_only_def report_defs)

lemma parse_verdicts:
  "verdict code (parseGTest out err code)" "verdict code (parsePytest out err code)"
  "verdict code (parseJest out err code)" "verdict code (parseCargo out err code)"
  by (simp_all add: parseGTest_def parsePytest_def parseJest_def parseCargo_def Let_def verdict_close gtest_fold_counted
      fold_keeps [where P = counted] pytest_line_counted jest_line_counted cargo_line_counted)

lemma parseOutput_verdict: "verdict code (parseOutput out err code hint)"
  by (simp add: parseOutput_def Let_def parse_verdicts verdict_exit_only)

text \<open>
  C34: A report is consistent for every output and every framework. The total is the number of its test cases, the counts of failed and
  skipped tests are those of the cases with this status, no more tests are counted as passed than there are such cases, no case has
  another status, and the run is a success exactly when the command exited with 0 and no case failed.
\<close>

theorem report_consistent:
  "let rep = parseOutput out err code hint; number = (\<lambda>x. length (filter (\<lambda>tc. tc_status tc = x) (te_test_cases rep)))
   in te_total_tests rep = length (te_test_cases rep) \<and> te_failed_tests rep = number Test_Failed \<and>
      te_skipped_tests rep = number Test_Skipped \<and> te_passed_tests rep \<le> number Test_Passed \<and>
      tc_status ` set (te_test_cases rep) \<subseteq> {Test_Passed, Test_Failed, Test_Skipped} \<and>
      (te_success rep \<longleftrightarrow> code = 0 \<and> Test_Failed \<notin> tc_status ` set (te_test_cases rep))"
proof -
  note v = parseOutput_verdict [of code out err hint, unfolded verdict_def counted_def status_count_def list_all_iff]
  have "length (filter (\<lambda>tc. tc_status tc = Test_Failed) (te_test_cases (parseOutput out err code hint))) = 0 \<longleftrightarrow>
      Test_Failed \<notin> tc_status ` set (te_test_cases (parseOutput out err code hint))"
    by (auto simp: filter_empty_conv image_iff)
  with v show ?thesis by (simp add: Let_def) blast
qed

subsection \<open>Google Test\<close>

text \<open>What the program under test prints for a test: its name, lines of its own, the outcome with the time, and lines after it.\<close>

record printed_test =
  pt_suite :: string
  pt_name :: string
  pt_block :: "string list"
  pt_outcome :: TestStatus
  pt_ms :: nat
  pt_after :: "string list"

definition outcome_mark :: "TestStatus \<Rightarrow> string" where
  "outcome_mark x = (if x = Test_Passed then ''[       OK ]'' else if x = Test_Failed then ''[  FAILED  ]'' else ''[  SKIPPED ]'')"

definition printed_lines :: "printed_test \<Rightarrow> string list" where
  "printed_lines t = (''[ RUN      ] '' @ pt_suite t @ ''.'' @ pt_name t) # pt_block t @
     (outcome_mark (pt_outcome t) @ '' '' @ pt_suite t @ ''.'' @ pt_name t @ '' ('' @ nat_string (pt_ms t) @ '' ms)'') # pt_after t"

definition gtest_mark :: "string \<Rightarrow> bool" where
  "gtest_mark l \<longleftrightarrow> starts_with l ''[ RUN      ]'' \<or> starts_with l ''[       OK ]'' \<or> starts_with l ''[  FAILED  ]'' \<or> starts_with l ''[  SKIPPED ]''"

definition printable :: "printed_test \<Rightarrow> bool" where
  "printable t \<longleftrightarrow> CHR ''.'' \<notin> set (pt_suite t) \<and> pt_suite t \<noteq> [] \<and> \<not> isspace (hd (pt_suite t)) \<and>
     list_all (\<lambda>l. \<not> gtest_mark l) (pt_block t) \<and> list_all (\<lambda>l. \<not> starts_with l ''[ RUN      ]'') (pt_after t) \<and>
     pt_outcome t \<in> {Test_Passed, Test_Failed, Test_Skipped} \<and> pt_ms t < 2 ^ 31"

text \<open>What a reader should get from it.\<close>

definition printed_view :: "printed_test \<Rightarrow> string \<times> string \<times> TestStatus \<times> string \<times> int" where
  "printed_view t = (pt_suite t, pt_name t, pt_outcome t,
     if pt_outcome t = Test_Failed then concat (map (\<lambda>l. l @ [newline]) (pt_block t)) else [],
     if pt_outcome t = Test_Passed then int (pt_ms t) else 0)"

definition case_view :: "TestCaseResult \<Rightarrow> string \<times> string \<times> TestStatus \<times> string \<times> int" where
  "case_view tc = (tc_suite_name tc, tc_test_name tc, tc_status tc, tc_failure_message tc, tc_duration tc)"

lemma digits_snoc: "digits_value (ds @ [c]) = 10 * digits_value ds + (int (code_of c) - 48)"
  by (simp add: digits_value_def)

lemma digit_char_code: "d < 10 \<Longrightarrow> code_of (digit_char d) = 48 + d \<and> isdigit (digit_char d)"
  by (simp add: digit_char_def isdigit_def)

lemma nat_string_digits: "digits_value (nat_string n) = int n \<and> list_all isdigit (nat_string n) \<and> nat_string n \<noteq> []"
proof (induction n rule: nat_string.induct)
  case (1 n)
  show ?case
  proof (cases "n < 10")
    case True
    then show ?thesis by (simp add: nat_string.simps [of n] digit_char_code digits_value_def)
  next
    case False
    with 1 digit_char_code [of "n mod 10"] show ?thesis
      by (simp add: nat_string.simps [of n] digits_snoc zdiv_int zmod_int mult_div_mod_eq)
  qed
qed

lemma number_char: "c \<in> set (nat_string n) \<Longrightarrow> isdigit c"
  using nat_string_digits [of n] by (auto simp: list_all_iff)

lemma stoi_nat: "n < 2 ^ 31 \<Longrightarrow> takeWhile isdigit rest = [] \<Longrightarrow> stoi (nat_string n @ rest) = Some (int n)"
proof -
  assume n: "n < 2 ^ 31" and rest: "takeWhile isdigit rest = []"
  obtain d ds where d: "nat_string n = d # ds" using nat_string_digits [of n] by (cases "nat_string n") auto
  have digits: "list_all isdigit (d # ds)" "digits_value (d # ds) = int n" using nat_string_digits [of n] d by auto
  then have "\<not> isspace d" "d \<noteq> CHR ''-''" "d \<noteq> CHR ''+''" by (auto simp: isdigit_def isspace_def code_of_def)
  moreover have "takeWhile isdigit ((d # ds) @ rest) = (d # ds) @ takeWhile isdigit rest"
    using digits(1) by (intro takeWhile_append2) (auto simp: list_all_iff)
  ultimately show ?thesis using digits(2) n rest by (simp add: stoi_def Let_def d)
qed

lemma rfind_last: "c \<notin> set ys \<Longrightarrow> rfind_char (xs @ c # ys) c = Some (length xs)"
proof -
  assume "c \<notin> set ys"
  then have "takeWhile (\<lambda>x. x \<noteq> c) (rev ys @ c # rev xs) = rev ys" by (subst takeWhile_append2) auto
  then show ?thesis by (simp add: rfind_char_def)
qed

lemma printed_duration: "ms < 2 ^ 31 \<Longrightarrow> gtest_duration (pre @ CHR ''('' # nat_string ms @ '' ms)'') = Some (int ms)"
proof -
  assume ms: "ms < 2 ^ 31"
  have "list_all isdigit (nat_string ms)" using nat_string_digits [of ms] by simp
  then have "CHR ''('' \<notin> set (nat_string ms)" by (auto simp: list_all_iff isdigit_def code_of_def)
  then have a: "rfind_char (pre @ CHR ''('' # nat_string ms @ '' ms)'') CHR ''('' = Some (length pre)"
    by (intro rfind_last) simp
  have b: "rfind_char (pre @ CHR ''('' # nat_string ms @ '' ms)'') CHR '')'' = Some (length pre + length (nat_string ms) + 4)"
    using rfind_last [of "CHR '')''" "[]" "pre @ CHR ''('' # nat_string ms @ '' ms''"] by simp
  have "stoi (nat_string ms @ '' ms'') = Some (int ms)" by (rule stoi_nat [OF ms]) (simp add: isdigit_def code_of_def)
  then show ?thesis by (simp add: gtest_duration_def a b)
qed

lemma find_text_first: "c \<notin> set xs \<Longrightarrow> find_text (xs @ c # ys) [c] = Some (length xs)"
  by (induction xs) auto

lemma gtest_start_printed:
  assumes "printable t"
  shows "let tc = gtest_start (''[ RUN      ] '' @ pt_suite t @ ''.'' @ pt_name t) tc0
    in tc_suite_name tc = pt_suite t \<and> tc_test_name tc = pt_name t \<and> tc_duration tc = 0 \<and> tc_failure_message tc = []"
proof -
  obtain c cs where c: "pt_suite t = c # cs" "\<not> isspace c" using assms by (cases "pt_suite t") (auto simp: printable_def)
  then have "c \<noteq> CHR '' ''" "c \<noteq> CHR 0x09" by (auto simp: isspace_def code_of_def)
  moreover have "find_text (pt_suite t @ CHR ''.'' # pt_name t) ''.'' = Some (length (pt_suite t))"
    using assms by (intro find_text_first) (simp add: printable_def)
  ultimately show ?thesis using c by (simp add: gtest_start_def Let_def)
qed

lemma gtest_block_fold:
  assumes "list_all (\<lambda>l. \<not> gtest_mark l) ls" "gt_in_test s"
  shows "fold gtest_line ls s = s\<lparr>gt_block := gt_block s @ concat (map (\<lambda>l. l @ [newline]) ls),
    gt_current := fold gtest_error ls (gt_current s)\<rparr>"
  using assms by (induction ls arbitrary: s) (simp_all add: gtest_line_def gtest_mark_def)

lemma gtest_after_fold: "list_all (\<lambda>l. \<not> starts_with l ''[ RUN      ]'') ls \<Longrightarrow> \<not> gt_in_test s \<Longrightarrow> fold gtest_line ls s = s"
  by (induction ls) (simp_all add: gtest_line_def)

lemma gtest_errors_fields [simp]:
  "tc_status (fold gtest_error ls tc) = tc_status tc" "tc_suite_name (fold gtest_error ls tc) = tc_suite_name tc"
  "tc_test_name (fold gtest_error ls tc) = tc_test_name tc" "tc_duration (fold gtest_error ls tc) = tc_duration tc"
  "tc_failure_message (fold gtest_error ls tc) = tc_failure_message tc"
  by (induction ls arbitrary: tc) simp_all

text \<open>The line of an outcome, for a test that has begun.\<close>

lemma gtest_outcome_line:
  assumes "gt_in_test s" "x \<in> {Test_Passed, Test_Failed, Test_Skipped}" "ms < 2 ^ 31"
  shows "let s' = gtest_line (outcome_mark x @ '' '' @ name @ '' ('' @ nat_string ms @ '' ms)'') s; tc = gt_current s
    in \<not> gt_in_test s' \<and> map case_view (te_test_cases (gt_rep s')) = map case_view (te_test_cases (gt_rep s)) @
       [(tc_suite_name tc, tc_test_name tc, x, if x = Test_Failed then gt_block s else tc_failure_message tc,
         if x = Test_Passed then int ms else tc_duration tc)]"
  using assms(1,2) printed_duration [OF assms(3), of "outcome_mark x @ '' '' @ name @ '' ''"]
  by (auto simp: outcome_mark_def gtest_line_def starts_with_def Let_def add_passed_def add_failed_def add_skipped_def add_case_def case_view_def)

lemma gtest_printed_test:
  assumes "printable t" "\<not> gt_in_test s"
  shows "\<not> gt_in_test (fold gtest_line (printed_lines t) s) \<and>
    map case_view (te_test_cases (gt_rep (fold gtest_line (printed_lines t) s))) = map case_view (te_test_cases (gt_rep s)) @ [printed_view t]"
proof -
  let ?run = "''[ RUN      ] '' @ pt_suite t @ ''.'' @ pt_name t"
  let ?out = "outcome_mark (pt_outcome t) @ '' '' @ pt_suite t @ ''.'' @ pt_name t @ '' ('' @ nat_string (pt_ms t) @ '' ms)''"
  define s1 where "s1 = gtest_line ?run s"
  define s2 where "s2 = fold gtest_line (pt_block t) s1"
  define s3 where "s3 = gtest_line ?out s2"
  have blocks: "list_all (\<lambda>l. \<not> gtest_mark l) (pt_block t)" "list_all (\<lambda>l. \<not> starts_with l ''[ RUN      ]'') (pt_after t)"
    "pt_outcome t \<in> {Test_Passed, Test_Failed, Test_Skipped}" "pt_ms t < 2 ^ 31"
    using assms(1) by (simp_all add: printable_def)
  have s1: "gt_in_test s1" "gt_block s1 = []" "gt_rep s1 = gt_rep s" "gt_current s1 = gtest_start ?run (gt_current s)"
    using assms(2) by (simp_all add: s1_def gtest_line_def starts_with_def)
  note start = gtest_start_printed [OF assms(1), of "gt_current s", unfolded Let_def]
  have s2: "gt_in_test s2" "gt_block s2 = concat (map (\<lambda>l. l @ [newline]) (pt_block t))" "gt_rep s2 = gt_rep s"
    "gt_current s2 = fold gtest_error (pt_block t) (gtest_start ?run (gt_current s))"
    by (simp_all add: s2_def gtest_block_fold [OF blocks(1) s1(1)] s1)
  note out = gtest_outcome_line [OF s2(1) blocks(3,4), of "pt_suite t @ ''.'' @ pt_name t", unfolded Let_def append_assoc, folded s3_def]
  have "fold gtest_line (printed_lines t) s = fold gtest_line (pt_after t) s3"
    by (simp add: printed_lines_def s1_def s2_def s3_def)
  then have "fold gtest_line (printed_lines t) s = s3" using gtest_after_fold [OF blocks(2)] out by simp
  then show ?thesis using out start blocks(3) by (simp add: s2 printed_view_def)
qed

definition text_of_lines :: "string list \<Rightarrow> string" where
  "text_of_lines ls = concat (map (\<lambda>l. l @ [newline]) ls)"

definition whole_line :: "string \<Rightarrow> bool" where
  "whole_line l \<longleftrightarrow> newline \<notin> set l \<and> (l = [] \<or> last l \<noteq> CHR 0x0D)"

lemma test_lines_text: "list_all whole_line ls \<Longrightarrow> test_lines (text_of_lines ls) = ls"
proof -
  assume a: "list_all whole_line ls"
  then have "newline \<notin> \<Union> (set ` set ls)" by (auto simp: list_all_iff whole_line_def)
  moreover have "map strip_cr ls = ls" using a by (intro map_idI) (auto simp: list_all_iff whole_line_def strip_cr_def)
  ultimately show ?thesis by (simp add: test_lines_def text_of_lines_def getlines_lines)
qed

lemma gtest_printed_tests:
  "list_all printable ts \<Longrightarrow> \<not> gt_in_test s \<Longrightarrow>
     map case_view (te_test_cases (gt_rep (fold gtest_line (concat (map printed_lines ts)) s))) =
       map case_view (te_test_cases (gt_rep s)) @ map printed_view ts"
  by (induction ts arbitrary: s) (simp_all add: gtest_printed_test)

lemma views_status: "map case_view cs = map printed_view ts \<Longrightarrow> tc_status ` set cs = pt_outcome ` set ts"
proof -
  assume "map case_view cs = map printed_view ts"
  then have "(\<lambda>(_, _, x, _, _). x) ` set (map case_view cs) = (\<lambda>(_, _, x, _, _). x) ` set (map printed_view ts)" by simp
  then show ?thesis by (simp add: image_image case_view_def printed_view_def)
qed

text \<open>
  C35: The output of Google Test is read back. For tests whose suite names have no dot and whose own output does not begin with one of the marks, the
  test cases of the report are the printed tests in their order, each with its suite, its name, its outcome, the lines it printed as the message when it
  failed, and its time when it passed; lines before the first test and after each test change nothing, and the run is a success exactly
  when the command exited with 0 and no printed test failed.
\<close>

theorem gtest_parsed_back:
  assumes "list_all printable ts" "list_all (\<lambda>l. \<not> starts_with l ''[ RUN      ]'') heading"
    "list_all whole_line (heading @ concat (map printed_lines ts))"
  shows "let rep = parseGTest (text_of_lines (heading @ concat (map printed_lines ts))) err code
    in map case_view (te_test_cases rep) = map printed_view ts \<and> (te_success rep \<longleftrightarrow> code = 0 \<and> Test_Failed \<notin> pt_outcome ` set ts)"
proof -
  let ?text = "text_of_lines (heading @ concat (map printed_lines ts))"
  define s0 where "s0 = \<lparr>gt_rep = start_report ?text err code, gt_current = empty_case, gt_in_test = False, gt_block = []\<rparr>"
  have s0: "\<not> gt_in_test s0" "te_test_cases (gt_rep s0) = []" by (simp_all add: s0_def report_defs)
  have "te_test_cases (parseGTest ?text err code) = te_test_cases (gt_rep (fold gtest_line (concat (map printed_lines ts)) s0))"
    by (simp add: parseGTest_def Let_def close_report_def test_lines_text [OF assms(3)] s0_def [symmetric] gtest_after_fold [OF assms(2) s0(1)])
  then have views: "map case_view (te_test_cases (parseGTest ?text err code)) = map printed_view ts"
    by (simp add: gtest_printed_tests [OF assms(1) s0(1)] s0(2))
  have "te_success (parseGTest ?text err code) \<longleftrightarrow> code = 0 \<and> Test_Failed \<notin> tc_status ` set (te_test_cases (parseGTest ?text err code))"
    using parse_verdicts(1) [of code ?text err] by (auto simp: verdict_def counted_def status_count_def filter_empty_conv image_iff)
  with views show ?thesis by (simp add: Let_def views_status [OF views])
qed

definition sample_test :: printed_test where
  "sample_test = \<lparr>pt_suite = ''A'', pt_name = ''b'', pt_block = [''expected 1''], pt_outcome = Test_Failed, pt_ms = 3, pt_after = []\<rparr>"

theorem gtest_parsed_back_witness:
  "map case_view (te_test_cases (parseGTest (text_of_lines ([''[==========] Running 1 test''] @ concat (map printed_lines [sample_test]))) [] 1)) =
     [(''A'', ''b'', Test_Failed, ''expected 1'' @ [newline], 0)]"
proof -
  have "list_all printable [sample_test]" by (simp add: printable_def sample_test_def gtest_mark_def starts_with_def isspace_def code_of_def)
  moreover have "list_all (\<lambda>l. \<not> starts_with l ''[ RUN      ]'') [''[==========] Running 1 test'']" by code_simp
  moreover have "list_all whole_line ([''[==========] Running 1 test''] @ concat (map printed_lines [sample_test]))" by code_simp
  ultimately have "map case_view (te_test_cases (parseGTest (text_of_lines ([''[==========] Running 1 test''] @
      concat (map printed_lines [sample_test]))) [] 1)) = map printed_view [sample_test]"
    unfolding Let_def using gtest_parsed_back [of "[sample_test]" "[''[==========] Running 1 test'']" "[]" 1, unfolded Let_def] by blast
  moreover have "map printed_view [sample_test] = [(''A'', ''b'', Test_Failed, ''expected 1'' @ [newline], 0)]" by code_simp
  ultimately show ?thesis by (rule trans)
qed

subsection \<open>Cleaning\<close>

text \<open>A byte sequence with the shape of UTF-8.\<close>

definition utf8_unit :: "string \<Rightarrow> bool" where
  "utf8_unit u \<longleftrightarrow> (\<exists>c cs. u = c # cs \<and> sequence_rest c = Some (length cs) \<and> list_all continuation cs)"

definition utf8_shaped :: "string \<Rightarrow> bool" where
  "utf8_shaped s \<longleftrightarrow> (\<exists>us. s = concat us \<and> list_all utf8_unit us)"

lemma shaped_Nil: "utf8_shaped []"
  unfolding utf8_shaped_def by (intro exI [of _ "[]"]) simp

lemma shaped_unit: "utf8_unit u \<Longrightarrow> utf8_shaped s \<Longrightarrow> utf8_shaped (u @ s)"
proof -
  assume u: "utf8_unit u" and "utf8_shaped s"
  then obtain us where "s = concat us" "list_all utf8_unit us" by (auto simp: utf8_shaped_def)
  with u show ?thesis unfolding utf8_shaped_def by (intro exI [of _ "u # us"]) simp
qed

lemma sequence_here_unit: "sequence_here c cs = Some n \<Longrightarrow> utf8_unit (c # take n cs)"
  by (auto simp: sequence_here_def utf8_unit_def split: option.splits if_splits)

lemma sanitize_shaped: "utf8_shaped (sanitizeUtf8 s)"
proof (induction s rule: sanitizeUtf8.induct)
  case (2 c cs)
  show ?case
  proof (cases "sequence_here c cs")
    case None
    have "utf8_unit ''?''" by (simp add: utf8_unit_def sequence_rest_def code_of_def)
    from shaped_unit [OF this "2.IH"(1) [OF None]] None show ?thesis by simp
  next
    case (Some n)
    from shaped_unit [OF sequence_here_unit [OF Some] "2.IH"(2) [OF Some]] Some show ?thesis by simp
  qed
qed (simp add: shaped_Nil)

lemma sanitize_units: "list_all utf8_unit us \<Longrightarrow> sanitizeUtf8 (concat us) = concat us"
proof (induction us)
  case (Cons u us)
  then obtain c cs where u: "u = c # cs" "sequence_rest c = Some (length cs)" "list_all continuation cs" by (auto simp: utf8_unit_def)
  then have "sequence_here c (cs @ concat us) = Some (length cs)" by (simp add: sequence_here_def)
  with Cons u show ?case by simp
qed simp

text \<open>
  The cleaning of bytes leaves exactly the texts in the shape of UTF-8 as they are. Its result always has this shape, it is the identity on
  such texts and on no others, and cleaning twice is cleaning once.
\<close>

theorem sanitize_right:
  "utf8_shaped (sanitizeUtf8 s) \<and> (sanitizeUtf8 s = s \<longleftrightarrow> utf8_shaped s) \<and> sanitizeUtf8 (sanitizeUtf8 s) = sanitizeUtf8 s"
proof -
  have fix_shaped: "utf8_shaped t \<Longrightarrow> sanitizeUtf8 t = t" for t by (auto simp: utf8_shaped_def sanitize_units)
  from sanitize_shaped [of s] fix_shaped [of s] fix_shaped [OF sanitize_shaped] show ?thesis by metis
qed

subsection \<open>Runs\<close>

lemma fgets_chunk_append: "fgets_chunk n s = (chunk, rest) \<Longrightarrow> s = chunk @ rest"
  by (induction n s arbitrary: chunk rest rule: fgets_chunk.induct) (auto split: if_splits prod.splits)

lemma read_pipe_text: "CHR 0x00 \<notin> set s \<Longrightarrow> 0 < n \<Longrightarrow> read_pipe n s = s"
proof (induction n s rule: read_pipe.induct)
  case (1 n s)
  obtain chunk rest where c: "fgets_chunk n s = (chunk, rest)" by fastforce
  have s: "s = chunk @ rest" by (rule fgets_chunk_append [OF c])
  show ?case
  proof (cases "chunk = []")
    case True
    with fgets_chunk_length [OF c] have "s = []" using "1.prems"(2) by simp
    with c True show ?thesis by (simp add: read_pipe.simps [of n "[]"])
  next
    case False
    have "takeWhile (\<lambda>c. c \<noteq> CHR 0x00) chunk = chunk" using "1.prems" s by (auto simp: takeWhile_eq_all_conv)
    moreover have "read_pipe n rest = rest" using "1.IH" [OF c [symmetric] False] "1.prems" s by simp
    ultimately show ?thesis unfolding read_pipe.simps [of n s] c prod.case if_not_P [OF False] by (simp only: s)
  qed
qed

lemma exit_code_kept: "te_exit_code (parseOutput out err code hint) = code"
proof -
  have g: "te_exit_code (gt_rep (fold gtest_line ls s)) = te_exit_code (gt_rep s)" for ls s
    by (induction ls arbitrary: s)
      (simp_all add: gtest_line_def add_case_def add_passed_def add_failed_def add_skipped_def Let_def)
  have f: "te_exit_code (fold pytest_line ls rep) = te_exit_code rep" "te_exit_code (fold jest_line ls rep) = te_exit_code rep"
    "te_exit_code (fold cargo_line ls rep) = te_exit_code rep" for ls rep
    by (induction ls arbitrary: rep)
      (simp_all add: pytest_line_def jest_line_def cargo_line_def add_case_def add_passed_def add_failed_def add_skipped_def Let_def split: option.split)
  show ?thesis
    by (simp add: parseOutput_def parseGTest_def parsePytest_def parseJest_def parseCargo_def parse_exit_only_def g f close_report_def
        start_report_def add_case_def Let_def)
qed

text \<open>
  A test program killed by a signal counts as a success. When the status of the pipe is a signal, the exit code that is read from it is 0, and the run is
  a success unless a failed case was printed before; a test that was running when the signal came is in no count.
\<close>

theorem signal_counts_as_success:
  assumes "popen (filtered_command command opts) = Some (out, signal)" "0 < signal" "signal < 128"
  shows "\<exists>rep. run_tests popen start_time end_time command opts = Inr rep \<and> te_exit_code rep = 0 \<and>
    (te_success rep \<longleftrightarrow> te_failed_tests rep = 0)"
proof -
  have "wexitstatus signal = 0" using assms(2,3) by (simp add: wexitstatus_def div_pos_pos_trivial)
  then show ?thesis
    using parseOutput_verdict [of 0 "read_pipe 255 out" "[]" "to_framework_hint opts"]
    by (simp add: run_tests_def Let_def assms(1) exit_code_kept verdict_def)
qed

theorem signal_counts_as_success_witness:
  "\<exists>rep. run_tests (\<lambda>cmd. Some (''[ RUN      ] A.b'' @ [newline], 11)) 0 5 ''./gtest_all''
     \<lparr>to_working_directory = [], to_timeout = 60000, to_filter_expression = [], to_environment_vars = [], to_framework_hint = ''auto''\<rparr> = Inr rep \<and>
     te_exit_code rep = 0 \<and> (te_success rep \<longleftrightarrow> te_failed_tests rep = 0)"
  by (rule signal_counts_as_success [where signal = 11 and out = "''[ RUN      ] A.b'' @ [newline]"]) simp_all

end
