(* ===== verification/Coverage_Properties.thy ===== *)
theory Coverage_Properties
  imports Coverage_Analyzer Test_Runner_Properties
begin

text \<open>
  What the analysis of coverage reports shows: the ranges of lines that are not covered, the reader of LCOV text as an inverse of a
  printer, and the gate on a report that counts no branches.
\<close>

subsection \<open>Ranges\<close>

definition range_lines :: "LineRange \<Rightarrow> int set" where
  "range_lines r = {lr_start_line r..lr_end_line r}"

text \<open>Non-empty ranges in ascending order with a gap between any two, whose lines are \<open>U\<close>: there is only one such list.\<close>

definition ranges_of :: "LineRange list \<Rightarrow> int set \<Rightarrow> bool" where
  "ranges_of rs U \<longleftrightarrow> \<Union> (range_lines ` set rs) = U \<and> list_all (\<lambda>r. lr_start_line r \<le> lr_end_line r) rs \<and>
     sorted_wrt (\<lambda>r q. lr_end_line r + 1 < lr_start_line q) rs"

lemma ranges_of_start: "ranges_of rs U \<Longrightarrow> q \<in> set rs \<Longrightarrow> lr_start_line q \<in> U"
  by (auto simp: ranges_of_def range_lines_def list_all_iff)

lemma ranges_of_Cons:
  "a \<le> p \<Longrightarrow> ranges_of rs U \<Longrightarrow> \<forall>u \<in> U. p + 1 < u \<Longrightarrow> ranges_of (\<lparr>lr_start_line = a, lr_end_line = p\<rparr> # rs) ({a..p} \<union> U)"
  using ranges_of_start [of rs U] by (auto simp: ranges_of_def range_lines_def)

lemma range_loop_right:
  assumes "sorted_wrt (<) ls" "-1 \<notin> set ls" "a \<noteq> -1 \<longrightarrow> a \<le> p \<and> (\<forall>l \<in> set ls. p < l)"
  shows "\<exists>qs. range_loop hits ls a p rs = rs @ qs \<and>
    ranges_of qs ((if a = -1 then {} else {a..p}) \<union> {l \<in> set ls. um_get 0 hits l = 0})"
  using assms
proof (induction ls arbitrary: a p rs)
  case Nil
  then show ?case by (auto simp: ranges_of_def range_lines_def)
next
  case (Cons l ls)
  have ls: "sorted_wrt (<) ls" "-1 \<notin> set ls" "\<forall>k \<in> set ls. l < k" "l \<noteq> -1" using Cons.prems by auto
  let ?U = "{k \<in> set ls. um_get 0 hits k = 0}"
  have U: "\<forall>u \<in> ?U. l < u" using ls(3) by simp
  show ?case
  proof (cases "um_get 0 hits l = 0")
    case uncovered: True
    then have all: "{k \<in> set (l # ls). um_get 0 hits k = 0} = {l..l} \<union> ?U" by auto
    consider "a = -1" | "a \<noteq> -1" "l = p + 1" | "a \<noteq> -1" "l \<noteq> p + 1" by blast
    then show ?thesis
    proof cases
      case 1
      with Cons.IH [OF ls(1,2), of l l rs] ls uncovered show ?thesis unfolding all by simp
    next
      case 2
      with Cons.prems(3) all have "{a..p} \<union> {k \<in> set (l # ls). um_get 0 hits k = 0} = {a..l} \<union> ?U" by auto
      with Cons.IH [OF ls(1,2), of a l rs] 2 ls uncovered Cons.prems(3) show ?thesis by simp
    next
      case 3
      with Cons.prems(3) have p: "a \<le> p" "p + 1 < l" by auto
      from Cons.IH [OF ls(1,2), of l l "rs @ [\<lparr>lr_start_line = a, lr_end_line = p\<rparr>]"] ls obtain qs where
        qs: "range_loop hits ls l l (rs @ [\<lparr>lr_start_line = a, lr_end_line = p\<rparr>]) = rs @ \<lparr>lr_start_line = a, lr_end_line = p\<rparr> # qs"
          "ranges_of qs ({l..l} \<union> ?U)" by auto
      have "\<forall>u \<in> {l..l} \<union> ?U. p + 1 < u" using U p by auto
      from ranges_of_Cons [OF p(1) qs(2) this] qs(1) 3 uncovered show ?thesis unfolding all by auto
    qed
  next
    case covered: False
    then have all: "{k \<in> set (l # ls). um_get 0 hits k = 0} = ?U" by auto
    show ?thesis
    proof (cases "a = -1")
      case True
      with Cons.IH [OF ls(1,2), of "-1" p rs] covered show ?thesis unfolding all by simp
    next
      case False
      with Cons.prems(3) have p: "a \<le> p" "p < l" by auto
      from Cons.IH [OF ls(1,2), of "-1" "-1" "rs @ [\<lparr>lr_start_line = a, lr_end_line = p\<rparr>]"] obtain qs where
        qs: "range_loop hits ls (-1) (-1) (rs @ [\<lparr>lr_start_line = a, lr_end_line = p\<rparr>]) = rs @ \<lparr>lr_start_line = a, lr_end_line = p\<rparr> # qs"
          "ranges_of qs ?U" by auto
      have "\<forall>u \<in> ?U. p + 1 < u" using U p by auto
      from ranges_of_Cons [OF p(1) qs(2) this] qs(1) False covered show ?thesis unfolding all by auto
    qed
  qed
qed

lemma uncovered_ranges:
  assumes "distinct (um_keys hits)" "map_of hits (-1) = None" "fc_uncovered_line_ranges fc = []"
  shows "ranges_of (fc_uncovered_line_ranges (computeUncoveredRanges hits fc)) {l. map_of hits l = Some 0}"
proof -
  have "sorted_wrt (<) (sort (um_keys hits))" using assms(1) by (simp add: strict_sorted_iff)
  moreover have "-1 \<notin> set (sort (um_keys hits))" using assms(2) by simp
  moreover have "{l \<in> set (sort (um_keys hits)). um_get 0 hits l = 0} = {l. map_of hits l = Some 0}"
    by (auto simp: um_get_def)
  ultimately show ?thesis
    using range_loop_right [of "sort (um_keys hits)" "-1" "-1" hits "[]"] assms(3)
    by (auto simp: computeUncoveredRanges_def ranges_of_def)
qed

text \<open>
  C38: The uncovered ranges of a file are the maximal runs of lines that were never hit. They are not empty, in ascending order, two of them are
  separated by at least one line, and together they contain exactly the lines with a count of 0.
\<close>

theorem uncovered_ranges_right:
  assumes "distinct (um_keys hits)" "map_of hits (-1) = None" "fc_uncovered_line_ranges fc = []"
  shows "let rs = fc_uncovered_line_ranges (computeUncoveredRanges hits fc)
    in (\<Union>r \<in> set rs. {lr_start_line r..lr_end_line r}) = {l. map_of hits l = Some 0} \<and>
       list_all (\<lambda>r. lr_start_line r \<le> lr_end_line r) rs \<and> sorted_wrt (\<lambda>r q. lr_end_line r + 1 < lr_start_line q) rs"
  using uncovered_ranges [OF assms] by (simp add: Let_def ranges_of_def range_lines_def)

theorem uncovered_ranges_right_witness:
  "(\<Union>r \<in> set (fc_uncovered_line_ranges (computeUncoveredRanges [(4, 0), (2, 0), (3, 1), (5, 0)] empty_coverage)).
     {lr_start_line r..lr_end_line r}) = {l. map_of [(4 :: int, 0 :: int), (2, 0), (3, 1), (5, 0)] l = Some 0}"
proof -
  have "distinct (um_keys [(4 :: int, 0 :: int), (2, 0), (3, 1), (5, 0)])" "map_of [(4 :: int, 0 :: int), (2, 0), (3, 1), (5, 0)] (-1) = None"
    "fc_uncovered_line_ranges empty_coverage = []" by (simp_all add: empty_coverage_def)
  from uncovered_ranges_right [OF this] show ?thesis unfolding Let_def by blast
qed

subsection \<open>LCOV\<close>

text \<open>A record of a file: its path, and the count of each instrumented line.\<close>

type_synonym lcov_record = "string \<times> (nat \<times> nat) list"

definition data_line :: "nat \<times> nat \<Rightarrow> string" where
  "data_line nh = ''DA:'' @ nat_string (fst nh) @ '','' @ nat_string (snd nh)"

definition record_lines :: "lcov_record \<Rightarrow> string list" where
  "record_lines f = (''SF:'' @ fst f) # map data_line (snd f) @ [''end_of_record'']"

definition record_ok :: "lcov_record \<Rightarrow> bool" where
  "record_ok f \<longleftrightarrow> fst f \<noteq> [] \<and> whole_line (fst f) \<and> distinct (map fst (snd f)) \<and> list_all (\<lambda>(n, h). n < 2 ^ 31 \<and> h < 2 ^ 31) (snd f)"

definition hit_lines :: "lcov_record \<Rightarrow> nat" where
  "hit_lines f = length (filter (\<lambda>(n, h). h > 0) (snd f))"

definition int_hits :: "(nat \<times> nat) list \<Rightarrow> (int, int) umap" where
  "int_hits ls = map (\<lambda>(n, h). (int n, int h)) ls"

definition record_coverage :: "lcov_record \<Rightarrow> FileCoverage" where
  "record_coverage f = computeUncoveredRanges (int_hits (snd f))
     (file_percents (empty_coverage\<lparr>fc_file_path := fst f, fc_total_lines := length (snd f), fc_covered_lines := hit_lines f\<rparr>))"

lemma number_whole: "whole_line (pre @ nat_string n)" if "newline \<notin> set pre" for pre
proof -
  obtain ds d where d: "nat_string n = ds @ [d]" using nat_string_digits [of n] by (metis rev_exhaust)
  then have "isdigit d" using number_char [of d n] by simp
  then have "d \<noteq> CHR 0x0D" by (auto simp: isdigit_def code_of_def)
  moreover have "newline \<notin> set (nat_string n)" using number_char [of newline n] by (auto simp: isdigit_def code_of_def)
  ultimately show ?thesis using that by (auto simp: whole_line_def d)
qed

lemma data_whole: "whole_line (data_line nh)"
proof -
  have "newline \<notin> set (''DA:'' @ nat_string (fst nh) @ '','')"
    using number_char [of newline "fst nh"] by (auto simp: isdigit_def code_of_def)
  from number_whole [OF this, of "snd nh"] show ?thesis by (simp add: data_line_def)
qed

lemma record_whole: "record_ok f \<Longrightarrow> list_all whole_line (record_lines f)"
  using data_whole by (auto simp: record_lines_def record_ok_def whole_line_def list_all_iff)

lemma lcov_data_line:
  assumes "n < 2 ^ 31" "h < 2 ^ 31"
  shows "lcov_line (data_line (n, h)) s = s\<lparr>lv_hits := AList.update (int n) (int h) (lv_hits s), lv_fc := count_line (int h) (lv_fc s)\<rparr>"
proof -
  have "CHR '','' \<notin> set (nat_string n)" using number_char [of "CHR '',''" n] by (auto simp: isdigit_def code_of_def)
  then have "find_text (nat_string n @ '','' @ nat_string h) '','' = Some (length (nat_string n))" using find_text_first by simp
  moreover have "stoi (nat_string n) = Some (int n)" "stoi (nat_string h) = Some (int h)"
    using stoi_nat [OF assms(1), of "[]"] stoi_nat [OF assms(2), of "[]"] by simp_all
  moreover have "drop (3 + length (nat_string n) + 1) (''DA:'' @ nat_string n @ '','' @ nat_string h) = nat_string h"
  proof -
    have "length (''DA:'' @ nat_string n @ '','') = 3 + length (nat_string n) + 1" by simp
    moreover have "drop (length (''DA:'' @ nat_string n @ '','')) ((''DA:'' @ nat_string n @ '','') @ nat_string h) = nat_string h"
      by (simp only: append_eq_conv_conj [THEN iffD1, OF refl, THEN conjunct2, symmetric])
    ultimately show ?thesis by (simp only: append_assoc)
  qed
  ultimately have "lcov_data (data_line (n, h)) s = s\<lparr>lv_hits := AList.update (int n) (int h) (lv_hits s), lv_fc := count_line (int h) (lv_fc s)\<rparr>"
    by (simp only: lcov_data_def data_line_def fst_conv snd_conv) simp
  then show ?thesis by (simp add: lcov_line_def data_line_def starts_with_def)
qed

lemma lcov_data_fold:
  assumes "list_all (\<lambda>(n, h). n < 2 ^ 31 \<and> h < 2 ^ 31) ls" "distinct (map fst ls)" "\<forall>n \<in> fst ` set ls. map_of (lv_hits s) (int n) = None"
    "fc_total_lines (lv_fc s) + length ls < 2 ^ 64" "fc_covered_lines (lv_fc s) \<le> fc_total_lines (lv_fc s)"
  shows "fold lcov_line (map data_line ls) s = s\<lparr>lv_hits := lv_hits s @ int_hits ls,
    lv_fc := (lv_fc s)\<lparr>fc_total_lines := fc_total_lines (lv_fc s) + length ls,
      fc_covered_lines := fc_covered_lines (lv_fc s) + length (filter (\<lambda>(n, h). h > 0) ls)\<rparr>\<rparr>"
  using assms
proof (induction ls arbitrary: s)
  case (Cons a ls)
  obtain n h where a: "a = (n, h)" by (cases a)
  define s1 where "s1 = s\<lparr>lv_hits := lv_hits s @ [(int n, int h)], lv_fc := count_line (int h) (lv_fc s)\<rparr>"
  have step: "lcov_line (data_line a) s = s1"
    using Cons.prems a by (simp add: lcov_data_line s1_def update_fresh)
  have count: "count_line (int h) (lv_fc s) = (lv_fc s)\<lparr>fc_total_lines := fc_total_lines (lv_fc s) + 1,
      fc_covered_lines := fc_covered_lines (lv_fc s) + (if h > 0 then 1 else 0)\<rparr>"
    using Cons.prems(4,5) by (simp add: count_line_def add64_def)
  have "fold lcov_line (map data_line ls) s1 = s1\<lparr>lv_hits := lv_hits s1 @ int_hits ls,
    lv_fc := (lv_fc s1)\<lparr>fc_total_lines := fc_total_lines (lv_fc s1) + length ls,
      fc_covered_lines := fc_covered_lines (lv_fc s1) + length (filter (\<lambda>(n, h). h > 0) ls)\<rparr>\<rparr>"
    using Cons.prems a by (intro Cons.IH) (auto simp: s1_def count)
  then show ?case by (simp add: step [unfolded a] a s1_def count int_hits_def)
qed (simp add: int_hits_def)

lemma lcov_record_fold:
  assumes "record_ok f" "length (snd f) < 2 ^ 64" "map_of (lv_files s) (fst f) = None"
    "lv_lines s + length (snd f) < 2 ^ 64" "lv_covered_lines s \<le> lv_lines s" "lv_branches s = 0"
  shows "let s' = fold lcov_line (record_lines f) s
    in lv_files s' = lv_files s @ [(fst f, record_coverage f)] \<and> lv_lines s' = lv_lines s + length (snd f) \<and>
       lv_covered_lines s' = lv_covered_lines s + hit_lines f \<and> lv_branches s' = 0"
proof -
  define s1 where "s1 = s\<lparr>lv_file := fst f, lv_fc := empty_coverage\<lparr>fc_file_path := fst f\<rparr>, lv_hits := []\<rparr>"
  have s1: "lcov_line (''SF:'' @ fst f) s = s1" by (simp add: lcov_line_def starts_with_def s1_def)
  define s2 where "s2 = fold lcov_line (map data_line (snd f)) s1"
  have s2: "s2 = s1\<lparr>lv_hits := int_hits (snd f),
      lv_fc := empty_coverage\<lparr>fc_file_path := fst f, fc_total_lines := length (snd f), fc_covered_lines := hit_lines f\<rparr>\<rparr>"
    using lcov_data_fold [of "snd f" s1] assms(1,2) by (simp add: s2_def s1_def record_ok_def empty_coverage_def hit_lines_def)
  have keep: "fc_total_lines (computeUncoveredRanges hits (file_percents fc)) = fc_total_lines fc"
    "fc_covered_lines (computeUncoveredRanges hits (file_percents fc)) = fc_covered_lines fc"
    "fc_total_branches (computeUncoveredRanges hits (file_percents fc)) = fc_total_branches fc" for hits fc
    by (simp_all add: computeUncoveredRanges_def file_percents_def line_percent_def Let_def)
  have "hit_lines f \<le> length (snd f)" by (simp add: hit_lines_def)
  with assms have "lv_covered_lines s + hit_lines f < 2 ^ 64" by linarith
  with assms have "let s' = lcov_end s2
    in lv_files s' = lv_files s @ [(fst f, record_coverage f)] \<and> lv_lines s' = lv_lines s + length (snd f) \<and>
       lv_covered_lines s' = lv_covered_lines s + hit_lines f \<and> lv_branches s' = 0"
    by (simp add: s2 s1_def lcov_end_def Let_def keep record_ok_def update_fresh add64_def record_coverage_def [symmetric] empty_coverage_def)
      (simp add: record_coverage_def empty_coverage_def)
  moreover have "fold lcov_line (record_lines f) s =
      lcov_line ''end_of_record'' (fold lcov_line (map data_line (snd f)) (lcov_line (''SF:'' @ fst f) s))"
    by (simp add: record_lines_def)
  then have "fold lcov_line (record_lines f) s = lcov_end s2"
    unfolding s1 s2_def [symmetric] by (simp add: lcov_line_def starts_with_def)
  ultimately show ?thesis by (simp add: Let_def)
qed

lemma lcov_records_fold:
  assumes "list_all record_ok fs" "distinct (map fst fs)" "\<forall>p \<in> fst ` set fs. map_of (lv_files s) p = None"
    "lv_lines s + sum_list (map (\<lambda>f. length (snd f)) fs) < 2 ^ 64" "lv_covered_lines s \<le> lv_lines s" "lv_branches s = 0"
  shows "let s' = fold lcov_line (concat (map record_lines fs)) s
    in lv_files s' = lv_files s @ map (\<lambda>f. (fst f, record_coverage f)) fs \<and>
       lv_lines s' = lv_lines s + sum_list (map (\<lambda>f. length (snd f)) fs) \<and>
       lv_covered_lines s' = lv_covered_lines s + sum_list (map hit_lines fs) \<and> lv_branches s' = 0"
  using assms
proof (induction fs arbitrary: s)
  case (Cons f fs)
  define s1 where "s1 = fold lcov_line (record_lines f) s"
  have s1: "lv_files s1 = lv_files s @ [(fst f, record_coverage f)]" "lv_lines s1 = lv_lines s + length (snd f)"
    "lv_covered_lines s1 = lv_covered_lines s + hit_lines f" "lv_branches s1 = 0"
    using lcov_record_fold [of f s] Cons.prems by (simp_all add: Let_def s1_def)
  have "hit_lines f \<le> length (snd f)" by (simp add: hit_lines_def)
  then have "let s' = fold lcov_line (concat (map record_lines fs)) s1
    in lv_files s' = lv_files s1 @ map (\<lambda>f. (fst f, record_coverage f)) fs \<and>
       lv_lines s' = lv_lines s1 + sum_list (map (\<lambda>f. length (snd f)) fs) \<and>
       lv_covered_lines s' = lv_covered_lines s1 + sum_list (map hit_lines fs) \<and> lv_branches s' = 0"
    using Cons.prems by (intro Cons.IH) (auto simp: s1 image_iff)
  then show ?case by (simp add: Let_def s1 s1_def [symmetric])
qed simp

definition lcov_text :: "lcov_record list \<Rightarrow> string" where
  "lcov_text fs = text_of_lines (concat (map record_lines fs))"

definition records_ok :: "lcov_record list \<Rightarrow> bool" where
  "records_ok fs \<longleftrightarrow> fs \<noteq> [] \<and> list_all record_ok fs \<and> distinct (map fst fs) \<and> sum_list (map (\<lambda>f. length (snd f)) fs) < 2 ^ 64"

lemma lcov_parsed:
  assumes "records_ok fs"
  shows "\<exists>rep. parseLcovInfo (lcov_text fs) = Inr rep \<and> cr_files rep = map (\<lambda>f. (fst f, record_coverage f)) fs \<and>
    cr_total_lines rep = sum_list (map (\<lambda>f. length (snd f)) fs) \<and> cr_covered_lines rep = sum_list (map hit_lines fs) \<and>
    cr_overall_line_coverage rep = percent_or_zero (cr_covered_lines rep) (cr_total_lines rep) \<and> cr_overall_branch_coverage rep = 0"
proof -
  have ok: "list_all record_ok fs" "distinct (map fst fs)" "sum_list (map (\<lambda>f. length (snd f)) fs) < 2 ^ 64" "fs \<noteq> []"
    using assms by (simp_all add: records_ok_def)
  have "list_all whole_line (concat (map record_lines fs))" using ok(1) record_whole by (auto simp: list_all_iff)
  then have lines: "test_lines (lcov_text fs) = concat (map record_lines fs)" by (simp add: lcov_text_def test_lines_text)
  have some: "concat (map record_lines fs) \<noteq> []" using ok(4) by (cases fs) (simp_all add: record_lines_def)
  define s where "s = fold lcov_line (concat (map record_lines fs)) lcov_start"
  have "parseLcovInfo (lcov_text fs) = Inr (lcov_report s)"
    using some by (simp only: parseLcovInfo_def lines Let_def if_False s_def)
  moreover have "lv_files lcov_start = []" "lv_lines lcov_start = 0" "lv_covered_lines lcov_start = 0" "lv_branches lcov_start = 0"
    by (simp_all add: lcov_start_def)
  then have "lv_files s = map (\<lambda>f. (fst f, record_coverage f)) fs" "lv_lines s = sum_list (map (\<lambda>f. length (snd f)) fs)"
    "lv_covered_lines s = sum_list (map hit_lines fs)" "lv_branches s = 0"
    using lcov_records_fold [of fs lcov_start] ok(1,2,3) by (simp_all add: Let_def s_def)
  ultimately show ?thesis by (intro exI [of _ "lcov_report s"]) (simp add: lcov_report_def percent_or_zero_def)
qed

text \<open>
  C37: An LCOV report is read back. For records of distinct files, each with a count for some of its lines, the report has one entry for
  every file with the number of its lines, the number of lines that were hit, and as uncovered ranges the maximal runs of the lines with
  count 0; the totals are the sums, and the overall coverage of lines is their ratio.
\<close>

theorem lcov_parsed_back:
  assumes "records_ok fs"
  shows "\<exists>rep. parseLcovInfo (lcov_text fs) = Inr rep \<and> map fst (cr_files rep) = map fst fs \<and>
    list_all2 (\<lambda>(path, fc) f. path = fst f \<and> fc_file_path fc = fst f \<and> fc_total_lines fc = length (snd f) \<and> fc_covered_lines fc = hit_lines f \<and>
      ranges_of (fc_uncovered_line_ranges fc) {int n | n. (n, 0) \<in> set (snd f)}) (cr_files rep) fs \<and>
    cr_total_lines rep = sum_list (map (\<lambda>f. length (snd f)) fs) \<and> cr_covered_lines rep = sum_list (map hit_lines fs) \<and>
    cr_overall_line_coverage rep = percent_or_zero (cr_covered_lines rep) (cr_total_lines rep)"
proof -
  obtain rep where rep: "parseLcovInfo (lcov_text fs) = Inr rep" "cr_files rep = map (\<lambda>f. (fst f, record_coverage f)) fs"
    "cr_total_lines rep = sum_list (map (\<lambda>f. length (snd f)) fs)" "cr_covered_lines rep = sum_list (map hit_lines fs)"
    "cr_overall_line_coverage rep = percent_or_zero (cr_covered_lines rep) (cr_total_lines rep)"
    using lcov_parsed [OF assms] by blast
  have each: "fc_file_path (record_coverage f) = fst f \<and> fc_total_lines (record_coverage f) = length (snd f) \<and>
      fc_covered_lines (record_coverage f) = hit_lines f \<and>
      ranges_of (fc_uncovered_line_ranges (record_coverage f)) {int n | n. (n, 0) \<in> set (snd f)}" if "f \<in> set fs" for f
  proof -
    have d: "distinct (map fst (snd f))" using assms that by (simp add: records_ok_def list_all_iff record_ok_def)
    have keys: "um_keys (int_hits (snd f)) = map int (map fst (snd f))" by (simp add: um_keys_def int_hits_def comp_def case_prod_unfold)
    have dist: "distinct (um_keys (int_hits (snd f)))" unfolding keys by (rule distinct_map [THEN iffD2, OF conjI [OF d inj_on_of_nat]])
    have "{l. map_of (int_hits (snd f)) l = Some 0} = {int n | n. (n, 0) \<in> set (snd f)}"
      unfolding distinct_map_of_iff [OF dist, symmetric] by (force simp: int_hits_def)
    moreover have "map_of (int_hits (snd f)) (-1) = None" by (auto simp: map_of_eq_None_iff int_hits_def)
    moreover have "fc_uncovered_line_ranges (file_percents (empty_coverage\<lparr>fc_file_path := fst f, fc_total_lines := length (snd f),
        fc_covered_lines := hit_lines f\<rparr>)) = []"
      by (simp add: file_percents_def line_percent_def empty_coverage_def Let_def)
    ultimately have "ranges_of (fc_uncovered_line_ranges (record_coverage f)) {int n | n. (n, 0) \<in> set (snd f)}"
      using uncovered_ranges [OF dist] by (simp add: record_coverage_def)
    then show ?thesis
      by (simp add: record_coverage_def computeUncoveredRanges_def file_percents_def line_percent_def empty_coverage_def Let_def)
  qed
  then have "list_all2 (\<lambda>(path, fc) f. path = fst f \<and> fc_file_path fc = fst f \<and> fc_total_lines fc = length (snd f) \<and> fc_covered_lines fc = hit_lines f \<and>
      ranges_of (fc_uncovered_line_ranges fc) {int n | n. (n, 0) \<in> set (snd f)}) (cr_files rep) fs"
    by (simp add: rep(2) list_all2_map1 list_all2_same)
  with rep show ?thesis by (intro exI [of _ rep]) (simp add: comp_def)
qed

theorem lcov_parsed_back_witness:
  "\<exists>rep. parseLcovInfo (lcov_text [(''a.c'', [(1, 1), (2, 0), (3, 0)])]) = Inr rep \<and> cr_total_lines rep = 3 \<and> cr_covered_lines rep = 1"
proof -
  have "records_ok [(''a.c'', [(1, 1), (2, 0), (3, 0)])]"
    by (simp add: records_ok_def record_ok_def whole_line_def)
  from lcov_parsed_back [OF this] show ?thesis by (auto simp: hit_lines_def)
qed

subsection \<open>The gate\<close>

text \<open>
  A report without branches never passes the gate. The overall coverage of branches is 0 for an LCOV report that lists lines only, so
  that with any positive threshold for branches the gate refuses it, also when every line was hit.
\<close>

theorem gate_needs_branches:
  assumes "records_ok fs" "min_branch_pct > 0"
  shows "\<exists>rep. parseLcovInfo (lcov_text fs) = Inr rep \<and> \<not> cg_passed (checkThresholds rep min_line_pct min_branch_pct)"
proof -
  obtain rep where "parseLcovInfo (lcov_text fs) = Inr rep" "cr_overall_branch_coverage rep = 0" using lcov_parsed [OF assms(1)] by blast
  with assms(2) show ?thesis by (auto simp: checkThresholds_def Let_def)
qed

theorem gate_needs_branches_witness:
  "\<exists>rep. parseLcovInfo (lcov_text [(''a.c'', [(1, 7)])]) = Inr rep \<and> \<not> cg_passed (checkThresholds rep 80 70)"
proof -
  have "records_ok [(''a.c'', [(1, 7)])]" by (simp add: records_ok_def record_ok_def whole_line_def)
  from gate_needs_branches [OF this, of 70 80] show ?thesis by simp
qed

end
