(* ===== verification/Diagnostics_Engine.thy ===== *)
theory Diagnostics_Engine
  imports Test_Types Json_Value AST_Parser
begin

text \<open>
  The diagnostics engine (\<open>src/src/testing/DiagnosticsEngine.h\<close>, \<open>DiagnosticsEngine.cpp\<close>): the rule checks over a file
  parsed by \<open>AST_Parser\<close>, the scan of a directory, and the readers of the output of compilers and of three linters.

  \<^item> A scan of a directory is given by what the iterator yields: the regular files with their texts, where they can be opened, and the message of the exception
    that ends the walk, when one does.
  \<^item> \<open>nlohmann::json::parse\<close> is a parameter that gives a value or nothing when it throws.
\<close>

datatype DiagnosticSeverity = Sev_Fatal | Sev_Error | Sev_Warning | Sev_Information | Sev_Hint

datatype DiagnosticCategory = Cat_Syntax | Cat_Compilation | Cat_TypeCheck | Cat_Security | Cat_ResourceLeak | Cat_Concurrency
  | Cat_CodeSmell | Cat_Performance

record SourceSpan =
  sp_start_line :: int
  sp_start_col :: int
  sp_end_line :: int
  sp_end_col :: int

definition span_at :: "int \<Rightarrow> int \<Rightarrow> int \<Rightarrow> int \<Rightarrow> SourceSpan" where
  "span_at a b c d = \<lparr>sp_start_line = a, sp_start_col = b, sp_end_line = c, sp_end_col = d\<rparr>"

record SuggestedFix =
  sf_description :: string
  sf_replacement_span :: SourceSpan
  sf_replacement_text :: string

record DiagnosticItem =
  di_file_path :: string
  di_span :: SourceSpan
  di_severity :: DiagnosticSeverity
  di_category :: DiagnosticCategory
  di_rule_id :: string
  di_message :: string
  di_snippet :: string
  di_fix :: "SuggestedFix option"

definition empty_item :: DiagnosticItem where
  "empty_item = \<lparr>di_file_path = [], di_span = span_at 1 1 1 1, di_severity = Sev_Error, di_category = Cat_Compilation, di_rule_id = [],
     di_message = [], di_snippet = [], di_fix = None\<rparr>"

record DiagnosticsReport =
  dr_target_path :: string
  dr_total_errors :: nat
  dr_total_warnings :: nat
  dr_total_hints :: nat
  dr_items :: "DiagnosticItem list"
  dr_passed :: bool

definition empty_diagnostics :: "string \<Rightarrow> DiagnosticsReport" where
  "empty_diagnostics path = \<lparr>dr_target_path = path, dr_total_errors = 0, dr_total_warnings = 0, dr_total_hints = 0, dr_items = [], dr_passed = True\<rparr>"

text \<open>An item of a rule, at the lines \<open>a\<close> to \<open>b\<close>.\<close>

definition rule_item :: "string \<Rightarrow> SourceSpan \<Rightarrow> DiagnosticSeverity \<Rightarrow> DiagnosticCategory \<Rightarrow> string \<Rightarrow> string \<Rightarrow> string \<Rightarrow> DiagnosticItem" where
  "rule_item path sp severity category rule message snippet =
     \<lparr>di_file_path = path, di_span = sp, di_severity = severity, di_category = category, di_rule_id = rule, di_message = message,
      di_snippet = snippet, di_fix = None\<rparr>"

definition with_fix :: "string \<Rightarrow> string \<Rightarrow> DiagnosticItem \<Rightarrow> DiagnosticItem" where
  "with_fix description replacement item =
     item\<lparr>di_fix := Some \<lparr>sf_description = description, sf_replacement_span = di_span item, sf_replacement_text = replacement\<rparr>\<rparr>"

definition line_item :: "string \<Rightarrow> nat \<Rightarrow> string \<Rightarrow> DiagnosticSeverity \<Rightarrow> DiagnosticCategory \<Rightarrow> string \<Rightarrow> string \<Rightarrow> DiagnosticItem" where
  "line_item path i line severity category rule message =
     rule_item path (span_at (int (i + 1)) 1 (int (i + 1)) (int (length line))) severity category rule message line"

abbreviation dquote :: char where
  "dquote \<equiv> CHR 0x22"

abbreviation squote :: char where
  "squote \<equiv> CHR 0x27"

definition has_any :: "string \<Rightarrow> string list \<Rightarrow> bool" where
  "has_any line words \<longleftrightarrow> list_ex (contains line) words"

subsection \<open>Brackets\<close>

text \<open>The balances of braces, parentheses and brackets.\<close>

type_synonym balances = "int \<times> int \<times> int"

definition bracket_step :: "char \<Rightarrow> balances \<Rightarrow> balances" where
  "bracket_step x b =
     (case b of (braces, parens, brackets) \<Rightarrow>
        if x = CHR ''{'' then (braces + 1, parens, brackets)
        else if x = CHR ''}'' then (braces - 1, parens, brackets)
        else if x = CHR ''('' then (braces, parens + 1, brackets)
        else if x = CHR '')'' then (braces, parens - 1, brackets)
        else if x = CHR ''['' then (braces, parens, brackets + 1)
        else if x = CHR '']'' then (braces, parens, brackets - 1)
        else b)"

text \<open>A line, given the character before and the quote of the literal the position is in.\<close>

fun bracket_chars :: "char option \<Rightarrow> char option \<Rightarrow> string \<Rightarrow> balances \<Rightarrow> balances" where
  "bracket_chars prev in_str [] b = b"
| "bracket_chars prev in_str (x # cs) b =
     (case in_str of
        Some quote \<Rightarrow> bracket_chars (Some x) (if x = quote \<and> prev \<noteq> Some (CHR 0x5C) then None else Some quote) cs b
      | None \<Rightarrow>
          if x = dquote \<or> x = squote then bracket_chars (Some x) (Some x) cs b
          else if x = CHR ''/'' \<and> cs \<noteq> [] \<and> hd cs = CHR ''/'' then b
          else bracket_chars (Some x) None cs (bracket_step x b))"

definition bracket_balances :: "string list \<Rightarrow> balances" where
  "bracket_balances lines = fold (bracket_chars None None) lines (0, 0, 0)"

definition checkSyntaxAndStructure :: "ParsedFile \<Rightarrow> string \<Rightarrow> DiagnosticItem list" where
  "checkSyntaxAndStructure pf content =
     (let lines = test_lines content; n = int (length lines)
      in case bracket_balances lines of
           (braces, parens, brackets) \<Rightarrow>
             (if braces \<noteq> 0 then [rule_item (pf_file_path pf) (span_at n 1 n 1) Sev_Error Cat_Syntax ''syntax/unmatched-braces''
                ''Mismatched curly braces detected in file'' []] else []) @
             (if parens \<noteq> 0 then [rule_item (pf_file_path pf) (span_at n 1 n 1) Sev_Error Cat_Syntax ''syntax/unmatched-parentheses''
                ''Mismatched parentheses detected in file'' []] else []))"

subsection \<open>Resources\<close>

definition stripComments :: "string \<Rightarrow> string" where
  "stripComments line = (case find_text line ''//'' of Some n \<Rightarrow> take n line | None \<Rightarrow> line)"

text \<open>Whether a line with some property was seen, and its last number.\<close>

definition last_line :: "(string \<Rightarrow> bool) \<Rightarrow> string list \<Rightarrow> nat option" where
  "last_line p lines = fold (\<lambda>(i, line) seen. if p (stripComments line) then Some (i + 1) else seen) (enumerate 0 lines) None"

definition raw_new :: "string \<Rightarrow> bool" where
  "raw_new code \<longleftrightarrow> contains code ''new '' \<and> \<not> contains code ''std::make_unique'' \<and> \<not> contains code ''std::make_shared'' \<and>
     \<not> contains code ''new (std::nothrow)'' \<and> \<not> contains code ''new (''"

definition python_open :: "ParsedFile \<Rightarrow> nat \<times> string \<Rightarrow> DiagnosticItem list" where
  "python_open pf il =
     (case il of (i, line) \<Rightarrow>
        if pf_language pf = ''python'' \<and> contains (stripComments line) ''open('' \<and> \<not> contains (stripComments line) ''with open('' then
          [with_fix (''Wrap file opening in '' @ [squote] @ ''with open(...) as f:'' @ [squote] @ '' block'') (''with '' @ line)
             (line_item (pf_file_path pf) i line Sev_Warning Cat_ResourceLeak ''resource/unmanaged-file-handle''
                (''File opened without '' @ [squote] @ ''with'' @ [squote] @ '' context manager in Python''))]
        else [])"

definition leak_item :: "ParsedFile \<Rightarrow> string list \<Rightarrow> nat \<Rightarrow> DiagnosticSeverity \<Rightarrow> string \<Rightarrow> string \<Rightarrow> DiagnosticItem" where
  "leak_item pf lines n severity rule message =
     rule_item (pf_file_path pf) (span_at (int n) 1 (int n) 1) severity Cat_ResourceLeak rule message (if n \<le> length lines then lines ! (n - 1) else [])"

definition checkResourceLeaks :: "ParsedFile \<Rightarrow> string \<Rightarrow> DiagnosticItem list" where
  "checkResourceLeaks pf content =
     (let lines = test_lines content;
          fopen = last_line (\<lambda>code. has_any code [''fopen('', ''fopen (''] ) lines;
          fclose = last_line (\<lambda>code. has_any code [''fclose('', ''fclose ('']) lines;
          malloc = last_line (\<lambda>code. contains code ''malloc('') lines;
          free = last_line (\<lambda>code. contains code ''free('') lines;
          news = last_line raw_new lines;
          deletes = last_line (\<lambda>code. has_any code [''delete '', ''delete[]'']) lines
      in concat (map (python_open pf) (enumerate 0 lines)) @
         (case fopen of Some n \<Rightarrow> if fclose = None then
              [with_fix ''Ensure fclose(handle) is invoked or use RAII wrapper'' []
                 (leak_item pf lines n Sev_Error ''resource/unclosed-file-handle''
                    ''Resource leak: file opened with fopen() is never closed with fclose()'')] else []
          | None \<Rightarrow> []) @
         (case malloc of Some n \<Rightarrow> if free = None then
              [leak_item pf lines n Sev_Warning ''resource/unfreed-heap-memory''
                 ''Resource leak: memory allocated with malloc() is not freed with free()''] else []
          | None \<Rightarrow> []) @
         (case news of Some n \<Rightarrow> if deletes = None \<and> pf_language pf = ''cpp'' then
              [leak_item pf lines n Sev_Warning ''resource/raw-new-without-delete''
                 (''Raw '' @ [squote] @ ''new'' @ [squote] @ '' used without matching '' @ [squote] @ ''delete'' @ [squote] @
                  ''; consider std::make_unique or std::make_shared'')] else []
          | None \<Rightarrow> []))"

subsection \<open>Security\<close>

definition command_call :: "ParsedFile \<Rightarrow> string \<Rightarrow> bool" where
  "command_call pf line \<longleftrightarrow> contains line ''system('' \<or> contains line ''popen('' \<or> (contains line ''exec('' \<and> pf_language pf = ''python'') \<or>
     (contains line ''eval('' \<and> (pf_language pf = ''javascript'' \<or> pf_language pf = ''python''))"

definition secret_words :: "string list" where
  "secret_words = map (\<lambda>w. w @ '' = '' @ [dquote]) [''password'', ''api_key'', ''secret_key'', ''private_key'']"

definition security_line :: "ParsedFile \<Rightarrow> nat \<times> string \<Rightarrow> DiagnosticItem list" where
  "security_line pf il =
     (case il of (i, line) \<Rightarrow>
        (if command_call pf line then
           [line_item (pf_file_path pf) i line Sev_Error Cat_Security ''security/arbitrary-command-execution''
              ''Insecure execution call (system/popen/exec/eval) detected''] else []) @
        (if (pf_language pf = ''cpp'' \<or> pf_language pf = ''c'') \<and> has_any line [''strcpy('', ''strcat('', ''gets(''] then
           [with_fix ''Replace with safe bounded alternatives (e.g. strncpy_s, std::string)'' []
              (line_item (pf_file_path pf) i line Sev_Error Cat_Security ''security/buffer-overflow-unsafe-function''
                 ''Unbounded string copy/concatenation function (strcpy/strcat/gets) is susceptible to buffer overflows'')] else []) @
        (if has_any (lower line) secret_words \<and> \<not> contains line [dquote, dquote] then
           [line_item (pf_file_path pf) i line Sev_Warning Cat_Security ''security/hardcoded-secret''
              ''Potential hardcoded credential or secret detected in source code''] else []) @
        (if has_any (lower line) [''select '', ''insert into '', ''delete from ''] \<and> has_any line ['' + '', ''%s'', [CHR ''f'', dquote]] then
           [line_item (pf_file_path pf) i line Sev_Warning Cat_Security ''security/sql-injection-risk''
              ''Dynamic SQL query formed via string concatenation; use parameterized queries''] else []))"

definition checkSecuritySmells :: "ParsedFile \<Rightarrow> string \<Rightarrow> DiagnosticItem list" where
  "checkSecuritySmells pf content = concat (map (security_line pf) (enumerate 0 (test_lines content)))"

subsection \<open>Concurrency\<close>

definition checkConcurrencySmells :: "ParsedFile \<Rightarrow> string \<Rightarrow> DiagnosticItem list" where
  "checkConcurrencySmells pf content =
     (let lines = test_lines content;
          has_threads = list_ex (\<lambda>l. has_any l [''std::thread'', ''std::async'', ''threading.Thread'', ''go '']) lines;
          has_mutex_or_atomic = list_ex (\<lambda>l. has_any l [''std::mutex'', ''std::lock_guard'', ''std::unique_lock'', ''std::atomic'',
              ''threading.Lock'', ''sync.Mutex'']) lines
      in if has_threads \<and> \<not> has_mutex_or_atomic then
           [rule_item (pf_file_path pf) (span_at 1 1 1 1) Sev_Warning Cat_Concurrency ''concurrency/unguarded-multithreading''
              ''Multi-threaded execution detected without synchronization primitives (mutex/lock/atomic)'' []]
         else [])"

subsection \<open>Complexity\<close>

definition branch_words :: "string list list" where
  "branch_words = [[''if '', ''if(''], [''else if''], [''for '', ''for(''], [''while '', ''while(''], [''case ''], [''&&''], [''||''],
     [''catch '', ''catch('']]"

definition line_complexity :: "string \<Rightarrow> nat" where
  "line_complexity line = length (filter (has_any line) branch_words)"

definition symbol_complexity :: "string list \<Rightarrow> CodeSymbol \<Rightarrow> nat" where
  "symbol_complexity lines x =
     (if sy_start_line x > 0 \<and> sy_end_line x \<le> length lines
      then 1 + sum_list (map line_complexity (drop (sy_start_line x - 1) (take (sy_end_line x) lines))) else 1)"

definition symbol_items :: "ParsedFile \<Rightarrow> string list \<Rightarrow> CodeSymbol \<Rightarrow> DiagnosticItem list" where
  "symbol_items pf lines x =
     (if sy_type x \<noteq> Function_Symbol \<and> sy_type x \<noteq> Method_Symbol then []
      else let func_lines = sy_end_line x + 1 - sy_start_line x; complexity = symbol_complexity lines x;
               sp = span_at (int (sy_start_line x)) 1 (int (sy_end_line x)) 1;
               named = ''Function '' @ [squote] @ sy_name x @ [squote]
           in (if func_lines > 100 then
                 [rule_item (pf_file_path pf) sp Sev_Warning Cat_CodeSmell ''maintainability/function-too-long''
                    (named @ '' exceeds 100 lines ('' @ nat_string func_lines @ '' lines)'') []] else []) @
              (if complexity > 15 then
                 [rule_item (pf_file_path pf) sp Sev_Warning Cat_CodeSmell ''maintainability/high-cyclomatic-complexity''
                    (named @ '' has cyclomatic complexity of '' @ nat_string complexity @ '' (threshold: 15)'') []] else []))"

definition swallowed_line :: "ParsedFile \<Rightarrow> nat \<times> string \<Rightarrow> DiagnosticItem list" where
  "swallowed_line pf il =
     (case il of (i, line) \<Rightarrow>
        if has_any line [''catch (...) {}'', ''catch(...) {}'', ''except: pass''] then
          [line_item (pf_file_path pf) i line Sev_Warning Cat_CodeSmell ''error_handling/swallowed-exception''
             ''Exception swallowed without logging or remediation in empty catch/except block'']
        else [])"

definition checkComplexityAndLength :: "ParsedFile \<Rightarrow> string \<Rightarrow> DiagnosticItem list" where
  "checkComplexityAndLength pf content =
     (let lines = test_lines content
      in concat (map (symbol_items pf lines) (pf_symbols pf)) @ concat (map (swallowed_line pf) (enumerate 0 lines)))"

subsection \<open>Scans\<close>

definition runAstRuleChecks :: "ParsedFile \<Rightarrow> string \<Rightarrow> DiagnosticItem list" where
  "runAstRuleChecks pf content =
     checkSyntaxAndStructure pf content @ checkResourceLeaks pf content @ checkSecuritySmells pf content @
     checkConcurrencySmells pf content @ checkComplexityAndLength pf content"

definition count_item :: "DiagnosticItem \<Rightarrow> DiagnosticsReport \<Rightarrow> DiagnosticsReport" where
  "count_item item rep =
     (if di_severity item = Sev_Fatal \<or> di_severity item = Sev_Error then rep\<lparr>dr_total_errors := dr_total_errors rep + 1\<rparr>
      else if di_severity item = Sev_Warning then rep\<lparr>dr_total_warnings := dr_total_warnings rep + 1\<rparr>
      else rep\<lparr>dr_total_hints := dr_total_hints rep + 1\<rparr>)"

definition scanFile :: "string \<Rightarrow> string \<Rightarrow> DiagnosticsReport TestingResult" where
  "scanFile file_path content =
     (let pf = parseFile file_path content; rep = empty_diagnostics file_path
      in if \<not> pf_success pf then
           Inr (rep\<lparr>dr_items := [rule_item file_path (span_at 1 1 1 1) Sev_Error Cat_Syntax ''syntax/ast-parse-failure''
             (''Failed to parse AST: '' @ pf_error pf) []], dr_total_errors := 1, dr_passed := False\<rparr>)
         else
           let items = runAstRuleChecks pf content; rep = fold count_item items (rep\<lparr>dr_items := items\<rparr>)
           in Inr (rep\<lparr>dr_passed := (dr_total_errors rep = 0)\<rparr>))"

definition default_exts :: "string list" where
  "default_exts = [''.cpp'', ''.c'', ''.cc'', ''.cxx'', ''.h'', ''.hpp'', ''.hxx'', ''.py'', ''.js'', ''.ts'', ''.jsx'', ''.tsx'', ''.rs'', ''.go'', ''.java'']"

definition matchesPattern :: "string list \<Rightarrow> string \<Rightarrow> bool" where
  "matchesPattern file_patterns filename \<longleftrightarrow>
     (if file_patterns = [] then list_ex (ends_with filename) default_exts
      else list_ex (\<lambda>pat. (starts_with pat ''*.'' \<and> ends_with filename (drop 1 pat)) \<or> contains filename pat) file_patterns)"

record directory_scan =
  ds_exists :: bool
  ds_files :: "(string \<times> string \<times> string option) list"
  ds_error :: "string option"

definition scan_entry :: "string list \<Rightarrow> string \<times> string \<times> string option \<Rightarrow> DiagnosticsReport \<Rightarrow> DiagnosticsReport" where
  "scan_entry file_patterns entry rep =
     (case entry of (path, filename, text) \<Rightarrow>
        if \<not> matchesPattern file_patterns filename then rep
        else case text of
               None \<Rightarrow> rep
             | Some content \<Rightarrow>
                 (case scanFile path content of
                    Inl e \<Rightarrow> rep
                  | Inr r \<Rightarrow> rep\<lparr>dr_items := dr_items rep @ dr_items r, dr_total_errors := dr_total_errors rep + dr_total_errors r,
                      dr_total_warnings := dr_total_warnings rep + dr_total_warnings r, dr_total_hints := dr_total_hints rep + dr_total_hints r\<rparr>))"

definition scanDirectory :: "string \<Rightarrow> string list \<Rightarrow> directory_scan \<Rightarrow> DiagnosticsReport TestingResult" where
  "scanDirectory dir_path file_patterns walk =
     (if \<not> ds_exists walk then Inl (''Directory does not exist: '' @ dir_path)
      else case ds_error walk of
             Some message \<Rightarrow> Inl (''Directory scan error: '' @ message)
           | None \<Rightarrow>
               (let rep = fold (scan_entry file_patterns) (ds_files walk) (empty_diagnostics dir_path)
                in Inr (rep\<lparr>dr_passed := (dr_total_errors rep = 0)\<rparr>)))"

subsection \<open>Compilers\<close>

definition Severities :: "string list \<Rightarrow> regex" where
  "Severities words = Alts (map Text_Any words)"

definition Line_Number :: regex where
  "Line_Number = Group 2 Digits"

definition msvc_regex :: regex where
  "msvc_regex = Seqs [At_Start, Group 1 (Many False Dot), Text ''('', Line_Number, Opt (Seqs [Text '','', Spaces, Group 3 Digits]), Text ''):'', Spaces,
     Group 4 (Severities [''error'', ''fatal error'', ''warning'']), Some_Spaces,
     Group 5 (Seq (One (\<lambda>c. isupper c \<or> islower c)) Digits), Text '':'', Spaces, Group 6 (Many True Dot), At_End]"

definition gcc_regex :: regex where
  "gcc_regex = Seqs [At_Start, Group 1 (Many False Dot), Text '':'', Line_Number, Opt (Seq (Text '':'') (Group 3 Digits)), Text '':'', Spaces,
     Group 4 (Severities [''error'', ''fatal error'', ''warning'', ''note'']), Text '':'', Spaces, Group 5 (Many True Dot), At_End]"

definition rfind_text :: "string \<Rightarrow> string \<Rightarrow> nat option" where
  "rfind_text s t = List.find (\<lambda>i. prefix t (drop i s)) (rev [0..<Suc (length s)])"

text \<open>The position of a match; \<open>None\<close> when \<open>std::stoi\<close> throws.\<close>

definition match_span :: "string \<Rightarrow> re_match \<Rightarrow> SourceSpan option" where
  "match_span line m =
     (case stoi (group_of line m 2) of
        None \<Rightarrow> None
      | Some n \<Rightarrow> map_option (\<lambda>c. span_at n c n c) (if matched m 3 then stoi (group_of line m 3) else Some 1))"

definition severity_of :: "string \<Rightarrow> DiagnosticSeverity \<Rightarrow> DiagnosticSeverity" where
  "severity_of word other =
     (if contains word ''fatal'' then Sev_Fatal else if contains word ''error'' then Sev_Error else other)"

definition msvc_item :: "string \<Rightarrow> re_match \<Rightarrow> DiagnosticItem option" where
  "msvc_item line m =
     map_option (\<lambda>sp. rule_item (group_of line m 1) sp (severity_of (lower (group_of line m 4)) Sev_Warning) Cat_Compilation
       (group_of line m 5) (group_of line m 6) line) (match_span line m)"

definition gcc_rule :: "string \<Rightarrow> string \<times> string" where
  "gcc_rule message =
     (case rfind_text message ''[-W'' of
        Some n \<Rightarrow>
          if last message = CHR '']'' then (take (length message - n - 2) (drop (n + 1) message), rev (dropWhile (\<lambda>c. c = CHR '' '') (rev (take n message))))
          else (''compiler-diagnostic'', message)
      | None \<Rightarrow> (''compiler-diagnostic'', message))"

definition gcc_item :: "string \<Rightarrow> re_match \<Rightarrow> DiagnosticItem option" where
  "gcc_item line m =
     (let word = lower (group_of line m 4);
          severity = severity_of word (if contains word ''warning'' then Sev_Warning else Sev_Information)
      in case gcc_rule (group_of line m 5) of (rule, message) \<Rightarrow>
           map_option (\<lambda>sp. rule_item (group_of line m 1) sp severity Cat_Compilation rule message line) (match_span line m))"

text \<open>A line gives an item or none; the outer \<open>None\<close> is the exception that leaves the function.\<close>

definition compiler_line :: "string \<Rightarrow> string \<Rightarrow> DiagnosticItem option option" where
  "compiler_line flavor line =
     (case if flavor = ''msvc'' \<or> flavor = ''auto'' then regex_match line msvc_regex else None of
        Some m \<Rightarrow> map_option Some (msvc_item line m)
      | None \<Rightarrow>
          (case if flavor = ''gcc'' \<or> flavor = ''clang'' \<or> flavor = ''auto'' then regex_match line gcc_regex else None of
             Some m \<Rightarrow> map_option Some (gcc_item line m)
           | None \<Rightarrow> Some None))"

fun compiler_lines :: "string \<Rightarrow> string list \<Rightarrow> DiagnosticItem list option" where
  "compiler_lines flavor [] = Some []"
| "compiler_lines flavor (l # ls) =
     (case compiler_line flavor l of
        None \<Rightarrow> None
      | Some None \<Rightarrow> compiler_lines flavor ls
      | Some (Some item) \<Rightarrow> map_option (\<lambda>items. item # items) (compiler_lines flavor ls))"

definition parseCompilerOutput :: "string \<Rightarrow> string \<Rightarrow> DiagnosticItem list option" where
  "parseCompilerOutput output flavor = compiler_lines (lower flavor) (test_lines output)"

subsection \<open>Linters\<close>

text \<open>The items read before an accessor throws are kept.\<close>

fun read_items :: "(json \<Rightarrow> json_error + DiagnosticItem) \<Rightarrow> json list \<Rightarrow> bool \<times> DiagnosticItem list" where
  "read_items read [] = (True, [])"
| "read_items read (j # js) =
     (case read j of
        Inl e \<Rightarrow> (False, [])
      | Inr item \<Rightarrow> (case read_items read js of (ok, items) \<Rightarrow> (ok, item # items)))"

fun array_items :: "json \<Rightarrow> json list option" where
  "array_items (Json_Array js) = Some js"
| "array_items _ = None"

definition object_member :: "json \<Rightarrow> string \<Rightarrow> json option" where
  "object_member j k = (case member_of j k of Some v \<Rightarrow> if is_object v then Some v else None | None \<Rightarrow> None)"

definition tidy_severity :: "string \<Rightarrow> DiagnosticSeverity" where
  "tidy_severity level = (if level = ''Error'' then Sev_Error else if level = ''Remark'' \<or> level = ''Note'' then Sev_Information else Sev_Warning)"

definition tidy_item :: "json \<Rightarrow> json_error + DiagnosticItem" where
  "tidy_item diag =
     and_on (value_or get_string ''clang-tidy'' ''DiagnosticName'' diag) (\<lambda>rule.
     and_on (value_or get_string ''Warning'' ''Level'' diag) (\<lambda>level.
       let item = empty_item\<lparr>di_category := Cat_CodeSmell, di_rule_id := rule, di_severity := tidy_severity level\<rparr>
       in case object_member diag ''DiagnosticMessage'' of
            None \<Rightarrow> Inr item
          | Some msg \<Rightarrow>
              and_on (value_or get_string [] ''Message'' msg) (\<lambda>text.
              and_on (value_or get_string [] ''FilePath'' msg) (\<lambda>path.
              and_on (value_or get_int 0 ''FileOffset'' msg) (\<lambda>offset.
                Inr (item\<lparr>di_message := text, di_file_path := path, di_span := span_at 1 offset 1 offset\<rparr>))))))"

definition parseClangTidyJson :: "(string \<Rightarrow> json option) \<Rightarrow> string \<Rightarrow> DiagnosticItem list" where
  "parseClangTidyJson parse text =
     (case parse text of
        None \<Rightarrow> []
      | Some doc \<Rightarrow> (case Option.bind (member_of doc ''Diagnostics'') array_items of None \<Rightarrow> [] | Some js \<Rightarrow> snd (read_items tidy_item js)))"

definition ruff_span :: "json \<Rightarrow> DiagnosticItem \<Rightarrow> json_error + DiagnosticItem" where
  "ruff_span entry item =
     (case object_member entry ''location'' of
        None \<Rightarrow> Inr item
      | Some loc \<Rightarrow>
          and_on (value_or get_int 1 ''row'' loc) (\<lambda>row.
          and_on (value_or get_int 1 ''column'' loc) (\<lambda>col.
          case object_member entry ''end_location'' of
            None \<Rightarrow> Inr (item\<lparr>di_span := span_at row col row col\<rparr>)
          | Some e \<Rightarrow>
              and_on (value_or get_int row ''row'' e) (\<lambda>end_row.
              and_on (value_or get_int col ''column'' e) (\<lambda>end_col.
                Inr (item\<lparr>di_span := span_at row col end_row end_col\<rparr>))))))"

definition ruff_fix :: "json \<Rightarrow> DiagnosticItem \<Rightarrow> json_error + DiagnosticItem" where
  "ruff_fix entry item =
     (case object_member entry ''fix'' of
        None \<Rightarrow> Inr item
      | Some f \<Rightarrow> and_on (value_or get_string ''Fix violation'' ''message'' f) (\<lambda>d. Inr (with_fix d [] item)))"

definition ruff_item :: "json \<Rightarrow> json_error + DiagnosticItem" where
  "ruff_item entry =
     and_on (value_or get_string ''ruff'' ''code'' entry) (\<lambda>rule.
     and_on (value_or get_string [] ''message'' entry) (\<lambda>message.
     and_on (value_or get_string [] ''filename'' entry) (\<lambda>path.
     and_on (ruff_span entry (empty_item\<lparr>di_category := Cat_CodeSmell, di_rule_id := rule, di_message := message, di_file_path := path,
         di_severity := Sev_Warning\<rparr>)) (ruff_fix entry))))"

definition parseRuffJson :: "(string \<Rightarrow> json option) \<Rightarrow> string \<Rightarrow> DiagnosticItem list" where
  "parseRuffJson parse text =
     (case Option.bind (parse text) array_items of None \<Rightarrow> [] | Some js \<Rightarrow> snd (read_items ruff_item js))"

definition eslint_item :: "string \<Rightarrow> json \<Rightarrow> json_error + DiagnosticItem" where
  "eslint_item file_path msg =
     and_on (value_or get_string ''eslint'' ''ruleId'' msg) (\<lambda>rule.
     and_on (value_or get_string [] ''message'' msg) (\<lambda>message.
     and_on (value_or get_int 1 ''severity'' msg) (\<lambda>sev.
     and_on (value_or get_int 1 ''line'' msg) (\<lambda>line.
     and_on (value_or get_int 1 ''column'' msg) (\<lambda>col.
     and_on (value_or get_int line ''endLine'' msg) (\<lambda>end_line.
     and_on (value_or get_int col ''endColumn'' msg) (\<lambda>end_col.
       Inr (rule_item file_path (span_at line col end_line end_col) (if sev = 2 then Sev_Error else Sev_Warning) Cat_CodeSmell rule message []))))))))"

fun eslint_files :: "json list \<Rightarrow> DiagnosticItem list" where
  "eslint_files [] = []"
| "eslint_files (f # fs) =
     (case value_or get_string [] ''filePath'' f of
        Inl e \<Rightarrow> []
      | Inr path \<Rightarrow>
          (case Option.bind (member_of f ''messages'') array_items of
             None \<Rightarrow> eslint_files fs
           | Some js \<Rightarrow> (case read_items (eslint_item path) js of (ok, items) \<Rightarrow> items @ (if ok then eslint_files fs else []))))"

definition parseEslintJson :: "(string \<Rightarrow> json option) \<Rightarrow> string \<Rightarrow> DiagnosticItem list" where
  "parseEslintJson parse text = (case Option.bind (parse text) array_items of None \<Rightarrow> [] | Some js \<Rightarrow> eslint_files js)"

end
