(* ===== verification/Diagnostics_Properties.thy ===== *)
theory Diagnostics_Properties
  imports Diagnostics_Engine AST_Properties Regex_Patterns
begin

text \<open>
  What the diagnostics say: the counts and the verdict of a scan and where its items are, the check of brackets, what a line of a compiler
  must look like to give an item, and what stops the readers of the linters.
\<close>

subsection \<open>Items are in the file\<close>

definition item_ok :: "string \<Rightarrow> nat \<Rightarrow> DiagnosticItem \<Rightarrow> bool" where
  "item_ok path n item \<longleftrightarrow> di_file_path item = path \<and> 1 \<le> sp_start_line (di_span item) \<and> sp_start_line (di_span item) \<le> int n"

lemma item_ok_rule [simp]:
  "item_ok path n (rule_item p (span_at a b c d) sv cat r m t) \<longleftrightarrow> p = path \<and> 1 \<le> a \<and> a \<le> int n"
  by (auto simp: item_ok_def rule_item_def span_at_def)

lemma item_ok_fix [simp]: "item_ok path n (with_fix d t item) = item_ok path n item"
  by (simp add: item_ok_def with_fix_def)

lemma item_ok_line [simp]: "item_ok path n (line_item p i l sv cat r m) \<longleftrightarrow> p = path \<and> i < n"
  by (auto simp: line_item_def)

lemma each_line_ok:
  "(\<And>i l x. i < length ls \<Longrightarrow> x \<in> set (f (i, l)) \<Longrightarrow> item_ok path (length ls) x) \<Longrightarrow>
     x \<in> set (concat (map f (enumerate 0 ls))) \<Longrightarrow> item_ok path (length ls) x"
  by (auto simp: in_set_enumerate_eq)

lemma last_line_bounds: "last_line p lines = Some n \<Longrightarrow> 1 \<le> n \<and> n \<le> length lines"
proof -
  have seen: "fold (\<lambda>(i, line) seen. if p (stripComments line) then Some (i + 1) else seen) xs seen = Some n \<Longrightarrow>
      (\<exists>i l. (i, l) \<in> set xs \<and> n = i + 1) \<or> seen = Some n" for xs seen
    by (induction xs arbitrary: seen) (fastforce split: if_splits)+
  assume "last_line p lines = Some n"
  then obtain i l where "(i, l) \<in> set (enumerate 0 lines)" "n = i + 1"
    using seen [of "enumerate 0 lines" None] unfolding last_line_def by blast
  then show "1 \<le> n \<and> n \<le> length lines" by (auto simp: in_set_enumerate_eq)
qed

lemma balances_empty: "bracket_balances [] = (0, 0, 0)"
  by (simp add: bracket_balances_def)

lemma syntax_items_ok: "x \<in> set (checkSyntaxAndStructure pf content) \<Longrightarrow> item_ok (pf_file_path pf) (length (test_lines content)) x"
  by (cases "test_lines content = []")
    (auto simp: checkSyntaxAndStructure_def Let_def balances_empty Suc_le_eq split: prod.splits if_splits)

lemma leak_item_ok:
  "last_line p lines = Some n \<Longrightarrow> item_ok path (length lines) (leak_item pf lines n sv r m) \<longleftrightarrow> pf_file_path pf = path"
  using last_line_bounds [of p lines n] by (auto simp: leak_item_def)

lemma leak_items_ok: "x \<in> set (checkResourceLeaks pf content) \<Longrightarrow> item_ok (pf_file_path pf) (length (test_lines content)) x"
proof -
  have "x \<in> set (concat (map (python_open pf) (enumerate 0 (test_lines content)))) \<Longrightarrow> item_ok (pf_file_path pf) (length (test_lines content)) x"
    by (erule each_line_ok [rotated]) (auto simp: python_open_def split: if_splits)
  then show "x \<in> set (checkResourceLeaks pf content) \<Longrightarrow> item_ok (pf_file_path pf) (length (test_lines content)) x"
    by (auto simp: checkResourceLeaks_def Let_def leak_item_ok simp del: set_concat split: option.splits if_splits)
qed

lemma security_items_ok: "x \<in> set (checkSecuritySmells pf content) \<Longrightarrow> item_ok (pf_file_path pf) (length (test_lines content)) x"
  unfolding checkSecuritySmells_def by (erule each_line_ok [rotated]) (auto simp: security_line_def split: if_splits)

lemma concurrency_items_ok: "x \<in> set (checkConcurrencySmells pf content) \<Longrightarrow> item_ok (pf_file_path pf) (length (test_lines content)) x"
  by (cases "test_lines content") (auto simp: checkConcurrencySmells_def Let_def split: if_splits)

lemma complexity_items_ok:
  assumes "list_all (\<lambda>y. 1 \<le> sy_start_line y \<and> sy_start_line y \<le> length (test_lines content)) (pf_symbols pf)"
    "x \<in> set (checkComplexityAndLength pf content)"
  shows "item_ok (pf_file_path pf) (length (test_lines content)) x"
proof -
  have "item_ok (pf_file_path pf) (length (test_lines content)) x" if "x \<in> set (concat (map (swallowed_line pf) (enumerate 0 (test_lines content))))"
    using that by (rule each_line_ok [rotated]) (auto simp: swallowed_line_def split: if_splits)
  moreover have "item_ok (pf_file_path pf) (length (test_lines content)) x" if "y \<in> set (pf_symbols pf)" "x \<in> set (symbol_items pf (test_lines content) y)" for y
    using that assms(1) by (auto simp: symbol_items_def Let_def list_all_iff split: if_splits)
  ultimately show ?thesis using assms(2) by (auto simp: checkComplexityAndLength_def Let_def)
qed

lemma scan_items_ok:
  "x \<in> set (runAstRuleChecks (parseFile path content) content) \<Longrightarrow> item_ok path (length (test_lines content)) x"
proof -
  have "list_all (\<lambda>y. 1 \<le> sy_start_line y \<and> sy_start_line y \<le> length (test_lines content)) (pf_symbols (parseFile path content))"
    using parseFile_located [of path content] by (auto simp: list_all_iff located_def test_lines_def)
  note symbols = complexity_items_ok [OF this, of x]
  have "pf_file_path (parseFile path content) = path" by (simp add: parseFile_def Let_def)
  then show "x \<in> set (runAstRuleChecks (parseFile path content) content) \<Longrightarrow> item_ok path (length (test_lines content)) x"
    using syntax_items_ok [of x "parseFile path content"] leak_items_ok [of x "parseFile path content"]
      security_items_ok [of x "parseFile path content"] concurrency_items_ok [of x "parseFile path content"] symbols
    by (auto simp: runAstRuleChecks_def)
qed

definition severe :: "DiagnosticItem \<Rightarrow> bool" where
  "severe item \<longleftrightarrow> di_severity item = Sev_Fatal \<or> di_severity item = Sev_Error"

definition counted_items :: "DiagnosticsReport \<Rightarrow> nat" where
  "counted_items r = dr_total_errors r + dr_total_warnings r + dr_total_hints r"

lemma count_items_sum: "counted_items (fold count_item items rep) = counted_items rep + length items"
  by (induction items arbitrary: rep) (simp_all add: counted_items_def count_item_def)

lemma count_items:
  "let r = fold count_item items rep
   in dr_items r = dr_items rep \<and> dr_target_path r = dr_target_path rep \<and> dr_total_errors r = dr_total_errors rep + length (filter severe items) \<and>
      dr_total_warnings r = dr_total_warnings rep + length (filter (\<lambda>x. di_severity x = Sev_Warning) items)"
  by (induction items arbitrary: rep) (auto simp: Let_def count_item_def severe_def)

text \<open>
  The report of a file is consistent with its items. The errors are the items that are fatal or errors, the warnings are the warnings, every
  item is counted once, the file passes exactly when it has no error, and every item names the scanned file and a line of it.
\<close>

theorem scan_report_right:
  "\<exists>r. scanFile path content = Inr r \<and> dr_total_errors r = length (filter severe (dr_items r)) \<and>
    dr_total_warnings r = length (filter (\<lambda>x. di_severity x = Sev_Warning) (dr_items r)) \<and>
    dr_total_errors r + dr_total_warnings r + dr_total_hints r = length (dr_items r) \<and>
    (dr_passed r \<longleftrightarrow> filter severe (dr_items r) = []) \<and>
    list_all (\<lambda>x. di_file_path x = path \<and> 1 \<le> sp_start_line (di_span x) \<and> sp_start_line (di_span x) \<le> int (length (test_lines content))) (dr_items r)"
proof -
  define items where "items = runAstRuleChecks (parseFile path content) content"
  have "pf_success (parseFile path content)" by (simp add: parseFile_def Let_def)
  then have "scanFile path content = Inr ((fold count_item items ((empty_diagnostics path)\<lparr>dr_items := items\<rparr>))
      \<lparr>dr_passed := (dr_total_errors (fold count_item items ((empty_diagnostics path)\<lparr>dr_items := items\<rparr>)) = 0)\<rparr>)"
    by (simp add: scanFile_def Let_def items_def)
  then show ?thesis
    using count_items [of items "(empty_diagnostics path)\<lparr>dr_items := items\<rparr>"] scan_items_ok [of _ path content]
      count_items_sum [of items "(empty_diagnostics path)\<lparr>dr_items := items\<rparr>"]
    by (simp add: Let_def empty_diagnostics_def list_all_iff item_ok_def items_def counted_items_def)
qed

subsection \<open>Brackets\<close>

text \<open>The part of a line that is code: outside of literals, whose quotes a backslash can escape, and before a comment.\<close>

fun code_part :: "char option \<Rightarrow> char option \<Rightarrow> string \<Rightarrow> string" where
  "code_part prev (Some q) (x # cs) = code_part (Some x) (if x = q \<and> prev \<noteq> Some (CHR 0x5C) then None else Some q) cs"
| "code_part prev None (x # cs) =
     (if x = dquote \<or> x = squote then code_part (Some x) (Some x) cs
      else if x = CHR ''/'' \<and> cs \<noteq> [] \<and> hd cs = CHR ''/'' then []
      else x # code_part (Some x) None cs)"
| "code_part prev q [] = []"

definition code_text :: "string list \<Rightarrow> string" where
  "code_text lines = concat (map (code_part None None) lines)"

definition surplus :: "char \<Rightarrow> char \<Rightarrow> string \<Rightarrow> int" where
  "surplus a b t = int (count_list t a) - int (count_list t b)"

definition surplus3 :: "string \<Rightarrow> balances" where
  "surplus3 t = (surplus CHR ''{'' CHR ''}'' t, surplus CHR ''('' CHR '')'' t, surplus CHR ''['' CHR '']'' t)"

definition add3 :: "balances \<Rightarrow> balances \<Rightarrow> balances" where
  "add3 x y = (fst x + fst y, fst (snd x) + fst (snd y), snd (snd x) + snd (snd y))"

lemma bracket_step_surplus: "bracket_step x b = add3 b (surplus3 [x])"
  by (simp add: bracket_step_def add3_def surplus3_def surplus_def split: prod.split)

lemma surplus3_append: "surplus3 (s @ t) = add3 (surplus3 s) (surplus3 t)"
  by (simp add: surplus3_def surplus_def add3_def)

lemma add3_assoc: "add3 (add3 a b) c = add3 a (add3 b c)"
  by (simp add: add3_def)

lemma surplus3_Nil [simp]: "add3 b (surplus3 []) = b"
  by (simp add: add3_def surplus3_def surplus_def)

lemma bracket_chars_surplus: "bracket_chars prev q cs b = add3 b (surplus3 (code_part prev q cs))"
proof (induction prev q cs arbitrary: b rule: code_part.induct)
  case (2 prev x cs)
  then show ?case
    using surplus3_append [of "[x]" "code_part (Some x) None cs"] by (auto simp: bracket_step_surplus add3_assoc)
qed simp_all

lemma balances_surplus: "bracket_balances lines = surplus3 (code_text lines)"
proof -
  have "fold (bracket_chars None None) lines b = add3 b (surplus3 (code_text lines))" for b
    by (induction lines arbitrary: b) (simp_all add: code_text_def bracket_chars_surplus surplus3_append add3_assoc)
  from this [of "(0, 0, 0)"] show ?thesis by (simp add: bracket_balances_def add3_def surplus3_def)
qed

lemma rule_of_item [simp]: "di_rule_id (rule_item p sp sv cat r m t) = r"
  by (simp add: rule_item_def)

text \<open>
  The check of brackets compares counts. An item for braces appears exactly when the numbers of opening and of closing braces differ in
  the code outside of literals and line comments, one for parentheses likewise; their order and the square brackets are never looked at.
\<close>

theorem bracket_check_right:
  "let items = checkSyntaxAndStructure pf content; t = code_text (test_lines content)
   in (''syntax/unmatched-braces'' \<in> di_rule_id ` set items \<longleftrightarrow> count_list t CHR ''{'' \<noteq> count_list t CHR ''}'') \<and>
      (''syntax/unmatched-parentheses'' \<in> di_rule_id ` set items \<longleftrightarrow> count_list t CHR ''('' \<noteq> count_list t CHR '')'') \<and>
      di_rule_id ` set items \<subseteq> {''syntax/unmatched-braces'', ''syntax/unmatched-parentheses''}"
  by (auto simp: checkSyntaxAndStructure_def Let_def balances_surplus surplus3_def surplus_def)

subsection \<open>Compilers\<close>

text \<open>What a line matched by the expression for GCC looks like, with the file and the line number that are read from it.\<close>

lemma gcc_match:
  assumes "regex_match line gcc_regex = Some m"
  shows "\<exists>rest. line = group_of line m 1 @ '':'' @ group_of line m 2 @ '':'' @ rest \<and> group_of line m 2 \<noteq> [] \<and>
    list_all isdigit (group_of line m 2)"
proof -
  obtain c where c: "m = (0, length line, c)" "derives line gcc_regex 0 [] (length line) c"
    using regex_match_derives [OF assms] by blast
  from c(2) obtain a b d where abd: "map_of c 1 = Some (0, a)" "map_of c 2 = Some (Suc a, b)" "a < length line" "line ! a = CHR '':''"
      "Suc a < b" "b \<le> length line" "list_all isdigit (slice line (Suc a) b)" "b < length line" "line ! b = CHR '':''"
    unfolding gcc_regex_def Line_Number_def Severities_def
    by (auto simp: derives_Seq derives_Digits derives_Opt derives_Many_One derives_Text dest!: Text_Any_captures)
  have "map_of (snd (snd m)) 1 = Some (0, a)" "map_of (snd (snd m)) 2 = Some (Suc a, b)" using c(1) abd(1,2) by simp_all
  then have groups: "group_of line m 1 = take a line" "group_of line m 2 = slice line (Suc a) b" by (simp_all add: group_of_def slice_def)
  have "line = take a line @ line ! a # drop (Suc a) line" by (rule id_take_nth_drop [OF abd(3)])
  moreover have "drop (Suc a) line = slice line (Suc a) b @ drop b line"
    using abd(5) by (simp add: slice_def) (metis append_take_drop_id drop_drop le_add_diff_inverse2 less_imp_le_nat)
  moreover have "drop b line = line ! b # drop (Suc b) line" by (rule Cons_nth_drop_Suc [OF abd(8), symmetric])
  ultimately have "line = take a line @ '':'' @ slice line (Suc a) b @ '':'' @ drop (Suc b) line" using abd(4,9) by simp
  moreover have "slice line (Suc a) b \<noteq> []" using abd(5,6) by (simp add: slice_def)
  ultimately show ?thesis unfolding groups using abd(7) by blast
qed

lemma gcc_item_parts:
  "gcc_item line m = Some x \<Longrightarrow> di_file_path x = group_of line m 1 \<and> di_snippet x = line \<and>
     stoi (group_of line m 2) = Some (sp_start_line (di_span x))"
  by (auto simp: gcc_item_def Let_def rule_item_def match_span_def span_at_def split: prod.splits option.splits if_splits)

lemma compiler_lines_items:
  "compiler_lines flavor ls = Some items \<Longrightarrow> x \<in> set items \<Longrightarrow> \<exists>l \<in> set ls. compiler_line flavor l = Some (Some x)"
  by (induction ls arbitrary: items) (auto split: option.splits)

text \<open>
  An item read from the output of GCC or Clang comes from a line that locates it: the line is the file of the item, a colon, the digits of its
  line number, a colon and the rest, and it is kept as the snippet.
\<close>

theorem gcc_items_located:
  assumes "parseCompilerOutput out flavor = Some items" "lower flavor = ''gcc'' \<or> lower flavor = ''clang''" "x \<in> set items"
  shows "\<exists>ds rest. di_snippet x \<in> set (test_lines out) \<and> di_snippet x = di_file_path x @ '':'' @ ds @ '':'' @ rest \<and> ds \<noteq> [] \<and>
    list_all isdigit ds \<and> stoi ds = Some (sp_start_line (di_span x))"
proof -
  obtain l where l: "l \<in> set (test_lines out)" "compiler_line (lower flavor) l = Some (Some x)"
    using compiler_lines_items [of "lower flavor" "test_lines out" items x] assms(1,3) by (auto simp: parseCompilerOutput_def)
  from l(2) assms(2) obtain m where m: "regex_match l gcc_regex = Some m" "gcc_item l m = Some x"
    by (auto simp: compiler_line_def split: option.splits if_splits)
  from gcc_match [OF m(1)] gcc_item_parts [OF m(2)] l(1) show ?thesis by metis
qed

subsection \<open>Linters\<close>

lemma eslint_files_stop:
  assumes "member_of f ''messages'' = Some (Json_Array (msg # msgs))" "value_or get_string ''eslint'' ''ruleId'' msg = Inl e"
  shows "eslint_files (fs @ f # gs) = eslint_files fs"
proof -
  have first: "eslint_item path msg = Inl e" for path by (simp add: eslint_item_def and_on_def assms(2))
  have "eslint_files (f # gs) = []" by (simp add: assms(1) first split: sum.split)
  then show ?thesis by (induction fs) (auto split: sum.split option.split prod.split simp del: eslint_files.simps(2) simp: eslint_files.simps(2) [of _ "_ :: json list"])
qed

text \<open>
  C40: A message without a rule ends the reading of a report of ESLint. ESLint gives a file that it cannot parse a message whose rule is null; the
  accessor throws there, so that nothing of this file and of all files behind it in the report is reported.
\<close>

theorem eslint_stops_at_null_rule:
  assumes "parse json_str = Some (Json_Array (fs @ Json_Object entry # gs))" "map_of entry ''messages'' = Some (Json_Array (Json_Object msg # msgs))"
    "map_of msg ''ruleId'' = Some Json_Null"
  shows "parseEslintJson parse json_str = eslint_files fs"
  using eslint_files_stop [of "Json_Object entry" "Json_Object msg" msgs "Type_Error Json_Null" fs gs] assms
  by (simp add: parseEslintJson_def value_or_def)

theorem eslint_stops_at_null_rule_witness:
  "parseEslintJson (\<lambda>_. Some (Json_Array [Json_Object [(''filePath'', Json_String ''b.js''),
      (''messages'', Json_Array [Json_Object [(''ruleId'', Json_Null), (''message'', Json_String ''Parsing error''), (''severity'', Json_Int 2)]])],
      Json_Object [(''filePath'', Json_String ''c.js'')]])) [] = []"
proof -
  let ?msg = "[(''ruleId'', Json_Null), (''message'', Json_String ''Parsing error''), (''severity'', Json_Int 2)]"
  let ?file = "[(''filePath'', Json_String ''b.js''), (''messages'', Json_Array [Json_Object ?msg])]"
  let ?gs = "[Json_Object [(''filePath'', Json_String ''c.js'')]]"
  have parts: "map_of ?file ''messages'' = Some (Json_Array [Json_Object ?msg])" "map_of ?msg ''ruleId'' = Some Json_Null" by code_simp+
  from eslint_stops_at_null_rule [where parse = "\<lambda>_. Some (Json_Array (Json_Object ?file # ?gs))" and json_str = "[]" and fs = "[]" and
      entry = ?file and gs = ?gs and msg = ?msg and msgs = "[]", unfolded append_Nil, OF refl parts]
  show ?thesis by simp
qed

end
