(* ===== verification/Testing_Manager.thy ===== *)
theory Testing_Manager
  imports Test_Runner Coverage_Analyzer Diagnostics_Engine Repository_Index
begin

text \<open>
  The testing manager (\<open>src/src/testing/TestingManager.h\<close>, \<open>TestingManager.cpp\<close>) and the tool that agents call it through
  (\<open>TestingTools.h\<close>, \<open>TestingTools.cpp\<close>), over the runner, the coverage analysis and the diagnostics engine.

  \<^item> The files, directories and processes, \<open>nlohmann::json\<close>, and the clock are the record \<open>testing_world\<close>. The parts the manager creates on first use
    have no state; what remains of it is the repository index.
  \<^item> \<open>generateTestsForPath\<close> calls a method that no class declares; generation is a parameter of the tool.
  \<^item> An outer \<open>None\<close> is an exception that leaves the function: of \<open>std::stoi\<close>, or of \<open>dump\<close> for a text that is not UTF-8 (\<open>tw_dump\<close> answers
    \<open>None\<close>). Exceptions of the queries to the file system are left out.
\<close>

record testing_world =
  tw_read :: "string \<Rightarrow> string option"
  tw_is_directory :: "string \<Rightarrow> bool"
  tw_walk :: "string \<Rightarrow> directory_scan"
  tw_popen :: "string \<Rightarrow> (string \<times> int) option"
  tw_parse :: "string \<Rightarrow> string + json"
  tw_what :: "json_error \<Rightarrow> string"
  tw_dump :: "json \<Rightarrow> string option"
  tw_start :: int
  tw_end :: int

type_synonym TestingManager = "RepositoryIndex option"

definition initialize_testing :: "RepositoryIndex option \<Rightarrow> TestingManager \<Rightarrow> bool \<times> TestingManager" where
  "initialize_testing repo_index m = (True, repo_index)"

definition shutdown_testing :: "TestingManager \<Rightarrow> TestingManager" where
  "shutdown_testing m = None"

subsection \<open>Diagnostics and runs\<close>

definition runStaticDiagnostics :: "testing_world \<Rightarrow> string \<Rightarrow> DiagnosticsReport TestingResult" where
  "runStaticDiagnostics w path =
     (if tw_is_directory w path then scanDirectory path [] (tw_walk w path)
      else case tw_read w path of
             None \<Rightarrow> Inl (''Could not open file for diagnostics: '' @ path)
           | Some content \<Rightarrow> scanFile path content)"

definition runTestSuite :: "testing_world \<Rightarrow> string \<Rightarrow> TestRunOptions \<Rightarrow> TestExecutionReport TestingResult" where
  "runTestSuite w command opts = run_tests (tw_popen w) (tw_start w) (tw_end w) command opts"

definition default_run_options :: TestRunOptions where
  "default_run_options = \<lparr>to_working_directory = [], to_timeout = 60000, to_filter_expression = [], to_environment_vars = [],
     to_framework_hint = ''auto''\<rparr>"

datatype IssueSeverity = Issue_Info | Issue_Warning | Issue_Error | Issue_Critical

record DiagnosticIssue =
  is_severity :: IssueSeverity
  is_file :: string
  is_line :: int
  is_column :: int
  is_message :: string
  is_rule_id :: string

definition issue_of :: "DiagnosticItem \<Rightarrow> DiagnosticIssue" where
  "issue_of item =
     \<lparr>is_severity = (case di_severity item of Sev_Fatal \<Rightarrow> Issue_Error | Sev_Error \<Rightarrow> Issue_Error | Sev_Warning \<Rightarrow> Issue_Warning | _ \<Rightarrow> Issue_Info),
      is_file = di_file_path item, is_line = sp_start_line (di_span item), is_column = sp_start_col (di_span item),
      is_message = di_message item, is_rule_id = di_rule_id item\<rparr>"

definition runDiagnostics :: "testing_world \<Rightarrow> string \<Rightarrow> DiagnosticIssue list" where
  "runDiagnostics w path = (case runStaticDiagnostics w path of Inl e \<Rightarrow> [] | Inr rep \<Rightarrow> map issue_of (dr_items rep))"

record TestSuiteResult =
  ts_success :: bool
  ts_passed :: int
  ts_failed :: int
  ts_skipped :: int
  ts_duration_seconds :: real
  ts_failure_details :: "string list"

definition failure_detail :: "TestCaseResult \<Rightarrow> string" where
  "failure_detail tc = tc_suite_name tc @ ''.'' @ tc_test_name tc @ '': '' @ tc_failure_message tc"

definition runTests :: "testing_world \<Rightarrow> string \<Rightarrow> int \<Rightarrow> TestSuiteResult TestingResult" where
  "runTests w test_command timeout =
     (case runTestSuite w test_command (default_run_options\<lparr>to_timeout := timeout\<rparr>) of
        Inl e \<Rightarrow> Inl e
      | Inr rep \<Rightarrow>
          Inr \<lparr>ts_success = te_success rep, ts_passed = to_int32 (int (te_passed_tests rep)), ts_failed = to_int32 (int (te_failed_tests rep)),
               ts_skipped = to_int32 (int (te_skipped_tests rep)), ts_duration_seconds = real_of_int (te_total_duration rep) / 1000,
               ts_failure_details = map failure_detail
                 (filter (\<lambda>tc. tc_status tc \<in> {Test_Failed, Test_Crashed, Test_Timeout}) (te_test_cases rep))\<rparr>)"

subsection \<open>Diagnosis of a failure\<close>

record DiagnosticDiagnosisReport =
  dx_diagnosed :: bool
  dx_failure_summary :: string
  dx_root_cause_explanation :: string
  dx_target_file :: string
  dx_target_line :: int
  dx_surrounding_code_context :: string
  dx_recommended_patch :: string
  dx_related_symbols :: "string list"

definition target_in :: "string list \<Rightarrow> int \<Rightarrow> bool" where
  "target_in lines n \<longleftrightarrow> lines \<noteq> [] \<and> n > 0 \<and> n \<le> int (length lines)"

definition context_text :: "string list \<Rightarrow> int \<Rightarrow> string" where
  "context_text lines n =
     concat (map (\<lambda>l. (if int l = n then ''>> '' else ''   '') @ nat_string l @ '': '' @ lines ! (l - 1) @ nl)
       [nat (max 1 (n - 5))..<Suc (nat (min (int (length lines)) (n + 5)))])"

definition root_cause :: "TestCaseResult \<Rightarrow> string" where
  "root_cause tc =
     (let msg = tc_failure_message tc
      in if has_any msg [''Expected equality'', ''assert''] then
           ''Assertion mismatch: The actual returned value does not match expected output in '' @ tc_test_name tc
         else if has_any msg [''nullptr'', ''NullPointerException'', ''Access Violation''] then
           ''Null pointer dereference or invalid memory access detected''
         else if contains msg ''timeout'' \<or> tc_status tc = Test_Timeout then
           ''Execution timed out, potential infinite loop or deadlock''
         else ''Test failure in '' @ tc_test_name tc @ '': '' @ (if msg = [] then ''Non-zero exit or unhandled exception'' else msg))"

definition repair_patch :: "string \<Rightarrow> int \<Rightarrow> string \<Rightarrow> string \<Rightarrow> string" where
  "repair_patch path n line test_name =
     ''--- a/'' @ path @ nl @ ''+++ b/'' @ path @ nl @ ''@@ -'' @ int_string n @ '',1 +'' @ int_string n @ '',1 @@'' @ nl @
     ''-'' @ line @ nl @ ''+    // Auto-repaired fix for '' @ test_name @ nl @ ''+'' @ line @ nl"

definition diagnoseFailure :: "testing_world \<Rightarrow> TestingManager \<Rightarrow> TestCaseResult \<Rightarrow> DiagnosticDiagnosisReport" where
  "diagnoseFailure w repo_index tc =
     (let path = tc_failure_file tc; n = tc_failure_line tc;
          content = (if path \<noteq> [] then case tw_read w path of Some c \<Rightarrow> c | None \<Rightarrow> [] else []);
          lines = test_lines content
      in \<lparr>dx_diagnosed = True, dx_failure_summary = tc_suite_name tc @ ''.'' @ tc_test_name tc @ '' failed'',
          dx_root_cause_explanation = root_cause tc, dx_target_file = path, dx_target_line = n,
          dx_surrounding_code_context = (if target_in lines n then context_text lines n else []),
          dx_recommended_patch = (if target_in lines n then repair_patch path n (lines ! nat (n - 1)) (tc_test_name tc) else []),
          dx_related_symbols =
            (case repo_index of
               None \<Rightarrow> []
             | Some r \<Rightarrow> (if content = [] \<and> path \<noteq> [] then map sy_name (findSymbolsByFile path r) else []) @
                 map sy_name (findCallers (tc_test_name tc) r))\<rparr>)"

definition generateAutoRepairPatch :: "testing_world \<Rightarrow> TestingManager \<Rightarrow> TestCaseResult \<Rightarrow> string TestingResult" where
  "generateAutoRepairPatch w repo_index tc =
     (let d = diagnoseFailure w repo_index tc
      in if \<not> dx_diagnosed d \<or> dx_recommended_patch d = [] then Inl (''Unable to formulate automatic repair patch for '' @ tc_test_name tc)
         else Inr (dx_recommended_patch d))"

subsection \<open>Coverage\<close>

text \<open>\<open>path::extension\<close>: from the last dot of the file name, unless it is the first character or the name is \<open>..\<close>.\<close>

definition path_extension :: "string \<Rightarrow> string" where
  "path_extension p =
     (let name = rev (takeWhile (\<lambda>c. c \<noteq> CHR ''/'') (rev p))
      in case rfind_char name CHR ''.'' of
           None \<Rightarrow> []
         | Some n \<Rightarrow> if n = 0 \<or> name = ''..'' then [] else drop n name)"

definition line_coverage :: "CoverageReport TestingResult \<Rightarrow> real TestingResult" where
  "line_coverage r = (case r of Inl e \<Rightarrow> Inl e | Inr rep \<Rightarrow> Inr (cr_overall_line_coverage rep))"

definition analyzeCoverage :: "testing_world \<Rightarrow> string \<Rightarrow> real TestingResult option" where
  "analyzeCoverage w path =
     (case tw_read w path of
        None \<Rightarrow> Some (Inl (''Coverage file not found: '' @ path))
      | Some content \<Rightarrow>
          let ext = path_extension path
          in if ext = ''.info'' \<or> contains content ''SF:'' then Some (line_coverage (parseLcovInfo content))
             else if ext = ''.xml'' \<or> contains content ''<coverage'' then map_option line_coverage (parseCoberturaXml content)
             else Some (line_coverage (parseJsonCoverage (tw_parse w) (tw_what w) content)))"

subsection \<open>The tool\<close>

text \<open>\<open>ToolResult::ok\<close> of a dumped object; the library keeps the members in the order of their names.\<close>

definition ok_json :: "testing_world \<Rightarrow> (string \<times> json) list \<Rightarrow> ToolResult option" where
  "ok_json w members = map_option result_ok (tw_dump w (Json_Object members))"

definition case_value :: "TestCaseResult \<Rightarrow> json" where
  "case_value tc = Json_Object
     ([(''duration_ms'', Json_Int (tc_duration tc))] @
      (if tc_failure_message tc \<noteq> [] then [(''failure'', Json_String (tc_failure_message tc))] else []) @
      [(''name'', Json_String (tc_test_name tc)),
       (''status'', Json_String (if tc_status tc = Test_Passed then ''Passed'' else if tc_status tc = Test_Failed then ''Failed'' else ''Skipped'')),
       (''suite'', Json_String (tc_suite_name tc))])"

definition run_options :: "params \<Rightarrow> TestRunOptions" where
  "run_options ps =
     (let opts = (case Option.bind (map_of ps ''timeout_ms'') stoull of None \<Rightarrow> default_run_options | Some n \<Rightarrow> default_run_options\<lparr>to_timeout := int n\<rparr>)
      in case map_of ps ''framework'' of None \<Rightarrow> opts | Some f \<Rightarrow> opts\<lparr>to_framework_hint := f\<rparr>)"

definition handleRunTests :: "testing_world \<Rightarrow> params \<Rightarrow> ToolResult option" where
  "handleRunTests w ps =
     (case map_of ps ''command'' of
        None \<Rightarrow> Some (result_error (''Missing '' @ quoted ''command'' @ '' parameter for run_tests.''))
      | Some cmd \<Rightarrow>
          (case runTestSuite w cmd (run_options ps) of
             Inl e \<Rightarrow> Some (result_error (''Test execution failed: '' @ e))
           | Inr rep \<Rightarrow> ok_json w
               [(''duration_ms'', Json_Int (te_total_duration rep)), (''failed_tests'', Json_Int (int (te_failed_tests rep))),
                (''passed_tests'', Json_Int (int (te_passed_tests rep))), (''skipped_tests'', Json_Int (int (te_skipped_tests rep))),
                (''success'', Json_Bool (te_success rep)), (''summary'', Json_String (te_summary_string rep)),
                (''test_cases'', Json_Array (map case_value (te_test_cases rep))), (''total_tests'', Json_Int (int (te_total_tests rep)))]))"

definition item_value :: "DiagnosticItem \<Rightarrow> json" where
  "item_value item = Json_Object
     ([(''column'', Json_Int (sp_start_col (di_span item))), (''file'', Json_String (di_file_path item)),
       (''line'', Json_Int (sp_start_line (di_span item))), (''message'', Json_String (di_message item)), (''rule_id'', Json_String (di_rule_id item)),
       (''severity'', Json_String (if di_severity item = Sev_Fatal then ''Fatal'' else if di_severity item = Sev_Error then ''Error'' else ''Warning''))] @
      (case di_fix item of None \<Rightarrow> [] | Some f \<Rightarrow> [(''suggested_fix'', Json_String (sf_description f))]))"

definition path_param :: "string \<Rightarrow> string \<Rightarrow> params \<Rightarrow> string option" where
  "path_param a b ps = (case map_of ps a of Some p \<Rightarrow> Some p | None \<Rightarrow> map_of ps b)"

definition handleDiagnoseCode :: "testing_world \<Rightarrow> params \<Rightarrow> ToolResult option" where
  "handleDiagnoseCode w ps =
     (case path_param ''path'' ''file_path'' ps of
        None \<Rightarrow> Some (result_error (''Missing '' @ quoted ''path'' @ '' parameter for diagnose_code.''))
      | Some path \<Rightarrow>
          (case runStaticDiagnostics w path of
             Inl e \<Rightarrow> Some (result_error (''Diagnostics failed: '' @ e))
           | Inr rep \<Rightarrow> ok_json w
               [(''diagnostics'', Json_Array (map item_value (dr_items rep))), (''passed'', Json_Bool (dr_passed rep)),
                (''total_errors'', Json_Int (int (dr_total_errors rep))), (''total_hints'', Json_Int (int (dr_total_hints rep))),
                (''total_warnings'', Json_Int (int (dr_total_warnings rep)))]))"

text \<open>\<open>std::stod\<close> of a decimal with sign and without exponent; \<open>inf\<close>, \<open>nan\<close>, exponents and hexadecimal numbers are left out.\<close>

definition stod_decimal :: "string \<Rightarrow> real option" where
  "stod_decimal s =
     (case dropWhile isspace s of
        [] \<Rightarrow> None
      | c # r \<Rightarrow> if c = CHR ''-'' then map_option uminus (stod_plain r) else if c = CHR ''+'' then stod_plain r else stod_plain (c # r))"

definition handleAnalyzeCoverage :: "testing_world \<Rightarrow> params \<Rightarrow> ToolResult option" where
  "handleAnalyzeCoverage w ps =
     (case path_param ''path'' ''file_path'' ps of
        None \<Rightarrow> Some (result_error (''Missing '' @ quoted ''path'' @ '' parameter for analyze_coverage.''))
      | Some path \<Rightarrow>
          Option.bind (analyzeCoverage w path) (\<lambda>r. case r of
              Inl e \<Rightarrow> Some (result_error (''Coverage analysis failed: '' @ e))
            | Inr x \<Rightarrow>
                let min_line_pct = (case Option.bind (map_of ps ''min_line_pct'') stod_decimal of None \<Rightarrow> 80 | Some y \<Rightarrow> y)
                in ok_json w [(''gate_passed'', Json_Bool (x \<ge> min_line_pct)), (''overall_line_coverage'', Json_Float x),
                     (''required_min_line_pct'', Json_Float min_line_pct)]))"

definition repair_case :: "params \<Rightarrow> TestCaseResult" where
  "repair_case ps = empty_case\<lparr>tc_failure_file := param_or [] ''failure_file'' ps,
     tc_failure_line := (case Option.bind (map_of ps ''failure_line'') stoi of None \<Rightarrow> 0 | Some n \<Rightarrow> n),
     tc_failure_message := param_or [] ''failure_message'' ps, tc_test_name := param_or [] ''test_name'' ps, tc_status := Test_Failed\<rparr>"

definition handleAutoRepair :: "testing_world \<Rightarrow> TestingManager \<Rightarrow> params \<Rightarrow> ToolResult option" where
  "handleAutoRepair w m ps =
     (case generateAutoRepairPatch w m (repair_case ps) of
        Inl e \<Rightarrow> Some (result_error (''Auto-repair patch generation failed: '' @ e))
      | Inr patch \<Rightarrow> ok_json w [(''patch'', Json_String patch), (''success'', Json_Bool True)])"

text \<open>Generation of tests is the parameter \<open>generate\<close>.\<close>

definition testing_operation :: "testing_world \<Rightarrow> (params \<Rightarrow> ToolResult option) \<Rightarrow> TestingManager \<Rightarrow> string \<Rightarrow> params \<Rightarrow> ToolResult option" where
  "testing_operation w generate m op ps =
     (if op = ''generate_tests'' then generate ps
      else if op = ''run_tests'' then handleRunTests w ps
      else if op = ''diagnose_code'' then handleDiagnoseCode w ps
      else if op = ''analyze_coverage'' then handleAnalyzeCoverage w ps
      else if op = ''auto_repair'' then handleAutoRepair w m ps
      else Some (result_error (''Unknown operation: '' @ op)))"

text \<open>The call is recorded with its duration \<open>d\<close>; an exception leaves before that.\<close>

definition testing_execute :: "testing_world \<Rightarrow> (params \<Rightarrow> ToolResult option) \<Rightarrow> TestingManager \<Rightarrow> nat \<Rightarrow> params \<Rightarrow> ToolStats \<Rightarrow> ToolResult option \<times> ToolStats" where
  "testing_execute w generate m d ps stats =
     (case map_of ps ''operation'' of
        None \<Rightarrow> (Some (result_error (''Missing mandatory '' @ quoted ''operation'' @ '' parameter.'')), recordCall False d stats)
      | Some op \<Rightarrow>
          (case testing_operation w generate m op ps of
             None \<Rightarrow> (None, stats)
           | Some res \<Rightarrow> (Some (res\<lparr>tr_execution_time := d\<rparr>), recordCall (tr_success res) d stats)))"

end
