(* ===== verification/Testing_Properties.thy ===== *)
theory Testing_Properties
  imports Testing_Manager Test_Runner_Properties
begin

text \<open>
  The testing manager and its tool on top of the parts: what a run reports, when a call of the tool succeeds or throws, and the patch
  that is proposed for a failure.
\<close>

subsection \<open>Runs\<close>

text \<open>
  C36: A run through the manager succeeds exactly when nothing failed. The result of \<open>runTests\<close> is the error of the pipe, or it
  is a success exactly when the exit code read from the status is 0 and the list of failure details is empty; each detail is that of a failed
  case of the report, in order.
\<close>

theorem run_result_right:
  "case tw_popen w cmd of
     None \<Rightarrow> runTests w cmd timeout = Inl (''Failed to open pipe for command: '' @ cmd)
   | Some (out, status) \<Rightarrow>
       \<exists>r. runTests w cmd timeout = Inr r \<and> (ts_success r \<longleftrightarrow> wexitstatus status = 0 \<and> ts_failure_details r = []) \<and>
         ts_failure_details r = map failure_detail (filter (\<lambda>tc. tc_status tc = Test_Failed)
           (te_test_cases (parseOutput (read_pipe 255 out) [] (wexitstatus status) ''auto'')))"
proof (cases "tw_popen w cmd")
  case None
  then show ?thesis by (simp add: runTests_def runTestSuite_def run_tests_def filtered_command_def default_run_options_def Let_def)
next
  case (Some os)
  obtain out status where os: "os = (out, status)" by (cases os)
  define rep where "rep = parseOutput (read_pipe 255 out) [] (wexitstatus status) ''auto''"
  have v: "verdict (wexitstatus status) rep" unfolding rep_def by (rule parseOutput_verdict)
  then have "list_all (\<lambda>tc. tc_status tc \<in> {Test_Passed, Test_Failed, Test_Skipped}) (te_test_cases rep)"
    by (simp add: verdict_def counted_def)
  then have failed: "filter (\<lambda>tc. tc_status tc \<in> {Test_Failed, Test_Crashed, Test_Timeout}) (te_test_cases rep) =
      filter (\<lambda>tc. tc_status tc = Test_Failed) (te_test_cases rep)"
    by (intro filter_cong refl) (auto simp: list_all_iff)
  from v have "te_success rep \<longleftrightarrow> wexitstatus status = 0 \<and> filter (\<lambda>tc. tc_status tc = Test_Failed) (te_test_cases rep) = []"
    by (simp add: verdict_def counted_def status_count_def)
  with failed show ?thesis
    by (simp add: Some os runTests_def runTestSuite_def run_tests_def filtered_command_def default_run_options_def Let_def rep_def)
qed

subsection \<open>The tool\<close>

lemma ok_json_success: "ok_json w ms = Some res \<Longrightarrow> tr_success res"
  by (auto simp: ok_json_def result_ok_def)

lemma ok_json_None: "ok_json w ms = None \<Longrightarrow> \<exists>j. tw_dump w j = None"
  by (auto simp: ok_json_def)

text \<open>
  A test run is a successful call of the tool whatever the tests do. A call \<open>run_tests\<close> that returns has succeeded exactly
  when there is a command for which a pipe opens: failed tests are in its text alone. It throws only then, when its text cannot be dumped.
\<close>

theorem run_tests_call_right:
  "case handleRunTests w ps of
     Some res \<Rightarrow> tr_success res \<longleftrightarrow> (\<exists>cmd out. map_of ps ''command'' = Some cmd \<and> tw_popen w cmd = Some out)
   | None \<Rightarrow> (\<exists>cmd out. map_of ps ''command'' = Some cmd \<and> tw_popen w cmd = Some out) \<and> (\<exists>j. tw_dump w j = None)"
proof -
  have "to_filter_expression (run_options ps) = []"
    by (simp add: run_options_def default_run_options_def Let_def split: option.split)
  then show ?thesis
    by (auto simp: handleRunTests_def runTestSuite_def run_tests_def filtered_command_def result_error_def Let_def
        split: option.split dest: ok_json_success ok_json_None)
qed

lemma coverage_throws:
  assumes "handleAnalyzeCoverage w ps = None" "\<forall>j. tw_dump w j \<noteq> None"
  shows "\<exists>path content. path_param ''path'' ''file_path'' ps = Some path \<and> tw_read w path = Some content \<and> parseCoberturaXml content = None"
proof -
  have ok: "(ok_json w ms = None) = False" for ms using assms(2) by (simp add: ok_json_def)
  from assms(1) obtain path where path: "path_param ''path'' ''file_path'' ps = Some path" "analyzeCoverage w path = None"
    by (cases "path_param ''path'' ''file_path'' ps")
      (auto simp only: handleAnalyzeCoverage_def Let_def bind_eq_None_conv ok option.case option.distinct split: sum.splits)
  then show ?thesis by (auto simp: analyzeCoverage_def Let_def split: option.splits if_splits)
qed

lemma operation_throws:
  assumes "testing_operation w generate m op ps = None" "op \<noteq> ''generate_tests''" "\<forall>j. tw_dump w j \<noteq> None"
  shows "op = ''analyze_coverage'' \<and> handleAnalyzeCoverage w ps = None"
proof -
  have ok: "ok_json w ms \<noteq> None" for ms using assms(3) by (simp add: ok_json_def)
  then have "handleRunTests w ps \<noteq> None" "handleDiagnoseCode w ps \<noteq> None" "handleAutoRepair w m ps \<noteq> None"
    by (simp_all add: handleRunTests_def handleDiagnoseCode_def handleAutoRepair_def split: option.split sum.split)
  with assms(1,2) show ?thesis by (simp add: testing_operation_def split: if_splits)
qed

text \<open>
  A call that throws is not recorded, and few calls can. When the tool ends by an exception its statistics are unchanged, and either a result
  could not be dumped as text, or it asked for the generation of tests, or for an analysis of coverage of a file that was read as XML and in which
  a line or a count exceeds 32 bits. Every other call is recorded once with its own success.
\<close>

theorem throwing_calls_unrecorded:
  "case testing_execute w generate m d ps stats of
     (None, stats') \<Rightarrow> stats' = stats \<and> ((\<exists>j. tw_dump w j = None) \<or> map_of ps ''operation'' = Some ''generate_tests'' \<or>
       map_of ps ''operation'' = Some ''analyze_coverage'' \<and>
       (\<exists>path content. path_param ''path'' ''file_path'' ps = Some path \<and> tw_read w path = Some content \<and> parseCoberturaXml content = None))
   | (Some res, stats') \<Rightarrow> stats' = recordCall (tr_success res) d stats"
proof (cases "map_of ps ''operation''")
  case None
  then show ?thesis by (simp add: testing_execute_def result_error_def)
next
  case (Some op)
  show ?thesis
  proof (cases "testing_operation w generate m op ps")
    case None
    with operation_throws [OF None] coverage_throws [of w ps] Some show ?thesis
      by (auto simp: testing_execute_def)
  next
    case op: (Some res)
    with Some show ?thesis by (simp add: testing_execute_def)
  qed
qed

subsection \<open>Repairs\<close>

lemma test_lines_no_newline: "l \<in> set (test_lines s) \<Longrightarrow> newline \<notin> set l"
proof -
  have "l \<in> set (getlines acc s) \<Longrightarrow> newline \<notin> set acc \<Longrightarrow> newline \<notin> set l" for acc l
    by (induction acc s rule: getlines.induct) (auto split: if_splits)
  note lines = this [of _ "[]"]
  show "l \<in> set (test_lines s) \<Longrightarrow> newline \<notin> set l"
    using lines by (auto simp: test_lines_def strip_cr_def split: if_splits dest: in_set_butlastD)
qed

lemma int_string_chars: "c \<in> set (int_string i) \<Longrightarrow> isdigit c \<or> c = CHR ''-''"
  using number_char by (auto simp: int_string_def split: if_splits)

text \<open>
  A proposed repair can neither be applied nor repair anything. For a failure in a line of a file that can be read, the patch
  replaces the line by a comment and the same line, and its header announces one new line where its body has two.
\<close>

theorem repair_patch_broken:
  assumes "tw_read w (tc_failure_file tc) = Some content" "tc_failure_file tc \<noteq> []" "target_in (test_lines content) (tc_failure_line tc)"
    "newline \<notin> set (tc_failure_file tc)" "newline \<notin> set (tc_test_name tc)"
  shows "\<exists>patch headers line. generateAutoRepairPatch w m tc = Inr patch \<and> line = test_lines content ! nat (tc_failure_line tc - 1) \<and>
    length headers = 3 \<and> last headers = ''@@ -'' @ int_string (tc_failure_line tc) @ '',1 +'' @ int_string (tc_failure_line tc) @ '',1 @@'' \<and>
    getlines [] patch = headers @ [CHR ''-'' # line, ''+    // Auto-repaired fix for '' @ tc_test_name tc, CHR ''+'' # line]"
proof -
  define n where "n = tc_failure_line tc"
  define line where "line = test_lines content ! nat (n - 1)"
  define headers where "headers = [''--- a/'' @ tc_failure_file tc, ''+++ b/'' @ tc_failure_file tc, ''@@ -'' @ int_string n @ '',1 +'' @ int_string n @ '',1 @@'']"
  define ls where "ls = headers @ [CHR ''-'' # line, ''+    // Auto-repaired fix for '' @ tc_test_name tc, CHR ''+'' # line]"
  have "nat (n - 1) < length (test_lines content)" using assms(3) by (auto simp: target_in_def n_def)
  then have "newline \<notin> set line" using test_lines_no_newline nth_mem unfolding line_def by blast
  moreover have "newline \<notin> set (int_string n)" using int_string_chars [of newline n] by (auto simp: isdigit_def code_of_def)
  ultimately have "newline \<notin> \<Union> (set ` set ls)" using assms(4,5) by (simp add: ls_def headers_def)
  then have lines: "getlines [] (concat (map (\<lambda>l. l @ [newline]) ls)) = ls" by (rule getlines_lines)
  have "generateAutoRepairPatch w m tc = Inr (repair_patch (tc_failure_file tc) n line (tc_test_name tc))"
    using assms(1,2,3) by (simp add: generateAutoRepairPatch_def diagnoseFailure_def Let_def n_def line_def repair_patch_def)
  moreover have "repair_patch (tc_failure_file tc) n line (tc_test_name tc) = concat (map (\<lambda>l. l @ [newline]) ls)"
    by (simp add: repair_patch_def ls_def headers_def)
  ultimately show ?thesis using lines by (intro exI conjI) (auto simp: ls_def headers_def line_def n_def)
qed

definition sample_world :: testing_world where
  "sample_world = \<lparr>tw_read = (\<lambda>p. Some ''assert(f());''), tw_is_directory = (\<lambda>p. False),
     tw_walk = (\<lambda>p. \<lparr>ds_exists = False, ds_files = [], ds_error = None\<rparr>), tw_popen = (\<lambda>c. None), tw_parse = (\<lambda>t. Inl []), tw_what = (\<lambda>e. []),
     tw_dump = (\<lambda>j. Some []), tw_start = 0, tw_end = 0\<rparr>"

theorem repair_patch_broken_witness:
  "\<exists>patch. generateAutoRepairPatch sample_world None (empty_case\<lparr>tc_failure_file := ''t.cpp'', tc_failure_line := 1, tc_test_name := ''f''\<rparr>) = Inr patch \<and>
     length (getlines [] patch) = 6"
proof -
  let ?tc = "empty_case\<lparr>tc_failure_file := ''t.cpp'', tc_failure_line := 1, tc_test_name := ''f''\<rparr>"
  have "tw_read sample_world (tc_failure_file ?tc) = Some ''assert(f());''" "tc_failure_file ?tc \<noteq> []" "newline \<notin> set (tc_failure_file ?tc)"
    "newline \<notin> set (tc_test_name ?tc)" by (simp_all add: sample_world_def empty_case_def)
  moreover have "target_in (test_lines ''assert(f());'') (tc_failure_line ?tc)"
    by (simp add: target_in_def empty_case_def test_lines_def)
  ultimately show ?thesis using repair_patch_broken [of sample_world ?tc "''assert(f());''" None] by auto
qed

end
