(* ===== verification/Spec2Isabelle.thy ===== *)
theory Spec2Isabelle
  imports TaskGraph_Properties Scheduler_Properties Router_Properties Event_Bus Knowledge_Graph
    Vector_Properties Line_Reader_Properties Command_Properties Path_Properties Plan_Properties
    Sha256_Properties Snapshot_Properties Memory_Properties Tool_Properties
    Orchestrator_Properties Context_Properties Git_Sandbox_Properties Git_Worktree_Properties
    Workspace_Properties AST_Properties Repository_Properties Test_Generator_Properties
    Coverage_Properties Diagnostics_Properties Testing_Properties
begin

text \<open>
  A verification library for the MINI coding agent operating system (AIOS), a C++ program. All paths are relative to the
  root of the repository; the program is under \<open>src/src\<close>.

  THE PROGRAM. AIOS is a local coding agent. A goal is decomposed into a graph of tasks
  (\<open>taskgraph/\<close>), which a pool of worker threads executes; independent jobs go through a
  priority scheduler (\<open>scheduler/\<close>); model calls go through a router with a circuit breaker per
  provider and a fallback chain (\<open>providers/ModelRouter\<close>); facts about the code base live in a
  knowledge graph (\<open>knowledge/\<close>) and a vector store (\<open>vector/\<close>); the parts tell each other of
  events over a bus (\<open>events/\<close>). A planner (\<open>planner/\<close>) asks a model for the graph of a goal; the
  user types commands at a line editor (\<open>cli/LineReader\<close>) that a registry parses and dispatches
  (\<open>cli/CommandRegistry\<close>); the paths that tools touch are confined to the workspace
  (\<open>workspace/PathContainment\<close>), whose state can be saved and rolled back
  (\<open>workspace/SnapshotManager\<close>). Agents ask a model in a loop and run the tools it asks for (\<open>agents/\<close>),
  through a registry that checks permissions (\<open>tools/\<close>); an orchestrator sends six of them through a workflow
  from planning to review. A context engine (\<open>context/\<close>) collects what a model is told under a budget of tokens, and
  three parts give a task a branch or a directory of its own by running git (\<open>workspace/BranchSandbox\<close>,
  \<open>workspace/GitWorktree\<close>, \<open>workspace/WorkspaceManager\<close>). A parser by regular expressions (\<open>parser/\<close>) finds the
  symbols of source files for an index that is searched (\<open>repository/\<close>). A testing engine (\<open>testing/\<close>) generates and runs tests, reads
  what test programs, compilers, linters and coverage tools write, and looks for defects in sources itself.

  THE THEORIES.

  \<^item> \<open>Prelude\<close>: lists without repetition, hash maps as association lists (\<open>umap\<close>), runs of a
    step function (\<open>run_steps\<close>) and the locales \<open>keyed_store\<close> and \<open>transition_system\<close>.
    \<open>Char_Class\<close>: character classes and string searches of the C++ library.
  \<^item> \<open>TaskGraph\<close> (\<open>TaskGraph.h\<close>, first part of \<open>taskgraph.cpp\<close>): nodes, edges, all operations
    that write the graph. \<open>Graph_Search\<close> and \<open>Task_Order\<close>: \<open>hasCycle\<close>, \<open>getTopologicalOrder\<close>,
    \<open>getExecutionLevels\<close>; the searches over any adjacency first, then over the map the code builds.
  \<^item> \<open>Task_Executor\<close> (\<open>TaskGraphExecutor\<close>): the worker threads as a transition system, one step
    per critical section or atomic operation. \<open>Executor_Invariant\<close>, \<open>Executor_Start\<close>: the
    invariant, kept by every step and true at the start. \<open>Executor_Correct\<close>: progress and the
    final states. \<open>Executor_Bound\<close>: the measure that bounds every execution.
    \<open>TaskGraph_Properties\<close>: the properties.
  \<^item> \<open>Scheduler\<close>, \<open>Scheduler_Properties\<close> (\<open>scheduler.h\<close>, \<open>scheduler.cpp\<close>).
  \<^item> \<open>Model_Router\<close>, \<open>Router_Properties\<close> (\<open>providers/ModelRouter.h\<close>, \<open>ModelRouter.cpp\<close>).
  \<^item> \<open>Event_Bus\<close>, \<open>Knowledge_Graph\<close>: model and properties in one theory each.
  \<^item> \<open>Vector_Math\<close> (kernels and embedding), \<open>Vector_Store\<close> (matrix, table and search),
    \<open>Vector_Properties\<close>.
  \<^item> \<open>Line_Reader\<close>, \<open>Line_Reader_Properties\<close> (\<open>cli/LineReader\<close>); \<open>Command_Registry\<close>,
    \<open>Command_Properties\<close> (\<open>cli/CommandRegistry\<close>, \<open>cli/SlashCommand.h\<close>).
  \<^item> \<open>Path_Containment\<close>, \<open>Path_Properties\<close> (\<open>workspace/PathContainment\<close>, as built on POSIX).
  \<^item> \<open>Sha256\<close>, \<open>Sha256_Vector\<close>, \<open>Sha256_Properties\<close>; \<open>Diff_Engine\<close>, \<open>Diff_Properties\<close>;
    \<open>Snapshot_Manager\<close>, \<open>Snapshot_Properties\<close>: the three parts of \<open>workspace/SnapshotManager.cpp\<close>.
  \<^item> \<open>Plan_Builder\<close>, \<open>Plan_Properties\<close> (\<open>planner/\<close>): from a reply of the model to a \<open>TaskGraph\<close>.
  \<^item> \<open>Memory_Manager\<close>, \<open>Memory_Properties\<close> (\<open>memory/\<close>): entries under a limit, over the two stores.
  \<^item> \<open>Builtin_Tools\<close> (the operations), \<open>Tool_Registry\<close>, \<open>Tool_Properties\<close> (\<open>tools/ToolRegistry\<close>);
    \<open>Agent_Core\<close> (an iteration of the loop), \<open>Agent_Run\<close> (runs, the specialised agents, the manager),
    \<open>Agent_Properties\<close> (\<open>agents/agents\<close>, \<open>agents/SpecializedAgents\<close>); \<open>Orchestrator\<close>,
    \<open>Orchestrator_Properties\<close> (\<open>agents/Orchestrator\<close>).
  \<^item> \<open>Std_Sort\<close> (the contract of \<open>std::sort\<close>), \<open>Context_Engine\<close>, \<open>Context_Properties\<close> (\<open>context/ContextEngine\<close>).
  \<^item> \<open>Git_Sandbox\<close> (\<open>workspace/BranchSandbox\<close>), \<open>Git_Worktree\<close> (\<open>workspace/GitWorktree\<close>), \<open>Workspace_Manager\<close>
    (\<open>workspace/WorkspaceManager\<close>), each with a theory of its properties: the operations over a world that
    the command lines change.
  \<^item> \<open>Regex_Engine\<close>: the backtracking matcher of \<open>std::regex\<close> for the constructs the program uses, with the relation it decides;
    \<open>Regex_Laws\<close>: where its searches match. \<open>AST_Parser\<close>, \<open>AST_Calls\<close>, \<open>AST_Properties\<close>
    (\<open>parser/ASTParser\<close>); \<open>Repository_Index\<close>, \<open>Repository_Properties\<close> (\<open>repository/RepositoryIndex\<close>).
  \<^item> \<open>Json_Value\<close>: values of \<open>nlohmann::json\<close> and its accessors as documented. \<open>Regex_Patterns\<close>: facts on matches that several readers share.
    \<open>Test_Types\<close> (\<open>testing/TestingTypes.h\<close>); \<open>Test_Runner\<close>, \<open>Coverage_Analyzer\<close>, \<open>Diagnostics_Engine\<close>, \<open>Test_Generator\<close> (the files
    of these names), each with a theory of its properties; \<open>Testing_Manager\<close>, \<open>Testing_Properties\<close>: the manager and its tool.

  HOW STATE AND OPERATIONS CORRESPOND. A struct or class is a record with the fields the code has
  (prefixed where two records would clash), a method that takes the object's mutex for its whole
  body is one function of the record, and a method that runs on several threads is a step
  function of a program point and the shared state, with one step per critical section. A
  \<open>std::unordered_map\<close> is an association list: lookups and updates are the code's, and an
  iteration follows the list. The C++ standard leaves the order of that iteration open; here a new
  key goes to the end, and no property depends on the order beyond that. Times are integers that
  the environment supplies; \<open>std::mutex\<close> and \<open>std::atomic\<close> give sequential consistency.

  WHAT THE LEMMAS SHOW. For the executor: no node runs before its prerequisites, or twice at once;
  the unsigned dependency counters never wrap; the pool cannot deadlock and every execution ends;
  the final states, the summary and the write-back are right. For the graph: the invariant of its
  two edge directions, the exact effect of each operation on the edges, and the correctness of the
  cycle test, the order and the levels. For the scheduler: what a worker takes, exclusion when
  nothing is paused, the effect of a finished work, and the states from which the code misbehaves.
  For the router: its records, whom the breaker admits, what a call returns, and how a probe is
  lost. For the stores: edges are mirrored, the bounded search is exact, the vector kernels agree
  with the plain sums, the matrix store refines a map, a search returns the best documents.
  For the command line: the editor never leaves its buffer, the history survives a restart, and a
  quoted command line reaches its command with the arguments it was made of. For paths: the iterative
  matcher against the definition of a glob, containment as a prefix of names, what a valid answer
  guarantees, and the names that get around the checks. For plans: the graph is the one the reply
  declares, and the best branch is taken. For snapshots: the hash is that of the standard, the edits are
  minimal and their hunks a patch, a rollback restores the workspace, and where it destroys it.
  For the memory: the usage is the sum of the sizes and within the limit, what an eviction takes, and
  what a stored value is read back as. For the tools: what a call returns and records, and that the permission check
  is exact. For the agents: the path of an agent through its states, that it runs only what its capabilities
  permit, and that a failure is final; for the workflow: what a success stands for, and the failures after which it is
  of no use. For the source parser: the calls it finds are those of a definition that does not mention the matcher, the body of a
  function ends at its closing brace, symbols are inside their file. For the repository index: its tables agree with the stored
  texts after any calls, a lookup is exact, a search is the fusion of its two rankings, and what a removal leaves behind. For the testing
  engine: reports agree with their cases and items, the output of Google Test and LCOV is read back, uncovered ranges are the maximal ones, a run through
  the manager succeeds when nothing failed; and which inputs make it wrong: signals, fatal errors, rules that are null, reports without branches.

  BOUNDS AND FUEL. No definition takes fuel: every loop is structural or has a termination proof.
  The executor's interleavings are finite sequences of actions, and \<open>fuel_left\<close> (a sum over nodes of
  retries and out-degrees) bounds their length. Dependency counters are 32-bit words and the
  router's ledgers 64-bit words; the hash works on 32-bit words; sizes (\<open>size_t\<close>) are natural numbers, since they count objects in
  memory. \<open>float\<close> is \<open>real\<close>: rounding is outside the model.

  NOT MODELLED. Text through \<open>nlohmann::json\<close> (\<open>toJsonString\<close>, \<open>exportToJson\<close> and their
  inverses), also where the planner reads it: there the parsed value is a parameter, as are the parser and the dump of the library in the testing engine; the file system
  (a parameter of path containment), processes, HTTP, SQLite and the GUI; logging; bus events that other
  components emit; memory-model effects weaker than sequential consistency; what the individual
  slash commands do with the services. The parts of the program with logic of their own that are
  still to come: the conversation manager, the older task planner under \<open>core/\<close>.
  The runner is that for POSIX; generation of tests through the testing manager calls a method that no class declares.
  \<open>std::stod\<close> reads plain decimals (without exponents, \<open>inf\<close>, \<open>nan\<close> and hexadecimal numbers). Of the parts that run git, the variants for Windows and the destructor of the workspace manager are left out.
\<close>

end
